(* ===== verification/Voly_Prelude.thy ===== *)
theory Voly_Prelude
  imports Main "HOL-Library.List_Lexorder" "HOL-Library.Char_ord"
begin

text \<open>
  What the components share: the Python idioms of the source on lists and strings
  (first-match update of a list of objects, \<^verbatim>\<open>dict.fromkeys\<close>, substring tests, ASCII
  \<^verbatim>\<open>lower\<close> and \<^verbatim>\<open>strip\<close>, sorted sets), their lemmas, and the theorem collections the
  component proofs use.
\<close>

named_theorems status_defs \<open>the string constants of the plan state machine\<close>
named_theorems frame \<open>fields an operation leaves alone\<close>

section \<open>Lists of mutable objects\<close>

text \<open>
  Python code looks an object up by a linear scan and then mutates it in place.  The model
  replaces the first element that satisfies the predicate.
\<close>

fun upd_first :: "('a \<Rightarrow> bool) \<Rightarrow> ('a \<Rightarrow> 'a) \<Rightarrow> 'a list \<Rightarrow> 'a list" where
  "upd_first P f [] = []"
| "upd_first P f (x # xs) = (if P x then f x # xs else x # upd_first P f xs)"

lemma length_upd_first [simp]: "length (upd_first P f xs) = length xs"
  by (induction xs) auto

lemma map_upd_first:
  assumes "\<And>x. P x \<Longrightarrow> g (f x) = g x"
  shows "map g (upd_first P f xs) = map g xs"
  using assms by (induction xs) auto

lemma find_upd_first_same:
  assumes "\<And>x. P x \<Longrightarrow> P (f x)"
  shows "find P (upd_first P f xs) = map_option f (find P xs)"
  using assms by (induction xs) auto

lemma find_upd_first_other:
  assumes "\<And>x. P x \<Longrightarrow> \<not> Q x" "\<And>x. P x \<Longrightarrow> \<not> Q (f x)"
  shows "find Q (upd_first P f xs) = find Q xs"
  using assms by (induction xs) auto

lemma in_set_upd_first:
  "y \<in> set (upd_first P f xs) \<Longrightarrow> y \<in> set xs \<or> (\<exists>x \<in> set xs. P x \<and> y = f x)"
  by (induction xs) (auto split: if_splits)

lemma upd_first_find_in:
  "find P xs = Some x \<Longrightarrow> f x \<in> set (upd_first P f xs)"
  by (induction xs) (auto split: if_splits)

lemma list_all_upd_first:
  "list_all R xs \<Longrightarrow> (\<And>x. P x \<Longrightarrow> R x \<Longrightarrow> R (f x)) \<Longrightarrow> list_all R (upd_first P f xs)"
  by (induction xs) auto

lemma upd_first_id:
  "find P xs = Some x \<Longrightarrow> f x = x \<Longrightarrow> upd_first P f xs = xs"
  by (induction xs) (auto split: if_splits)

lemma find_SomeD: "find P xs = Some x \<Longrightarrow> x \<in> set xs \<and> P x"
  by (auto simp: find_Some_iff)

text \<open>With distinct keys the element a scan finds is the only one that has the key.\<close>

lemma find_key_distinct:
  assumes "distinct (map k xs)" "x \<in> set xs"
  shows "find (\<lambda>y. k y = k x) xs = Some x"
  using assms by (induction xs) (auto simp: image_iff)

lemma find_key_None: "find (\<lambda>y. k y = v) xs = None \<longleftrightarrow> v \<notin> k ` set xs"
  by (auto simp: find_None_iff)

lemma map_of_rev_distinct:
  assumes "distinct (map fst kvs)"
  shows "map_of (rev kvs) = map_of kvs"
  by (rule map_of_inject_set [THEN iffD2]) (use assms in \<open>simp_all add: rev_map [symmetric]\<close>)

section \<open>Order-preserving removal of duplicates\<close>

text \<open>\<^verbatim>\<open>list(dict.fromkeys(xs))\<close>: the first occurrence of every element, in order.\<close>

fun dict_fromkeys_acc :: "'a list \<Rightarrow> 'a list \<Rightarrow> 'a list" where
  "dict_fromkeys_acc seen [] = []"
| "dict_fromkeys_acc seen (x # xs) =
     (if x \<in> set seen then dict_fromkeys_acc seen xs else x # dict_fromkeys_acc (x # seen) xs)"

definition dict_fromkeys :: "'a list \<Rightarrow> 'a list" where
  "dict_fromkeys xs = dict_fromkeys_acc [] xs"

lemma set_dict_fromkeys_acc: "set (dict_fromkeys_acc seen xs) = set xs - set seen"
  by (induction xs arbitrary: seen) auto

lemma distinct_dict_fromkeys_acc: "distinct (dict_fromkeys_acc seen xs)"
  by (induction xs arbitrary: seen) (auto simp: set_dict_fromkeys_acc)

lemma set_dict_fromkeys [simp]: "set (dict_fromkeys xs) = set xs"
  by (simp add: dict_fromkeys_def set_dict_fromkeys_acc)

lemma distinct_dict_fromkeys [simp]: "distinct (dict_fromkeys xs)"
  by (simp add: dict_fromkeys_def distinct_dict_fromkeys_acc)

lemma dict_fromkeys_Nil [simp]: "dict_fromkeys [] = []"
  by (simp add: dict_fromkeys_def)

section \<open>Dictionaries\<close>

text \<open>
  \<^verbatim>\<open>d.get(k)\<close>, \<^verbatim>\<open>d[k] = v\<close> and \<^verbatim>\<open>d.pop(k, None)\<close> on a dictionary in insertion order: assigning to a
  key that is there keeps its place.
\<close>

definition dict_get :: "('a \<times> 'b) list \<Rightarrow> 'a \<Rightarrow> 'b option" where
  "dict_get d k = map_of d k"

fun dict_set :: "'a \<Rightarrow> 'b \<Rightarrow> ('a \<times> 'b) list \<Rightarrow> ('a \<times> 'b) list" where
  "dict_set k v [] = [(k, v)]"
| "dict_set k v ((k', v') # d) = (if k = k' then (k, v) # d else (k', v') # dict_set k v d)"

definition dict_del :: "'a \<Rightarrow> ('a \<times> 'b) list \<Rightarrow> ('a \<times> 'b) list" where
  "dict_del k d = filter (\<lambda>kv. fst kv \<noteq> k) d"

lemma map_of_dict_set [simp]: "map_of (dict_set k v d) = (map_of d)(k \<mapsto> v)"
  by (induction k v d rule: dict_set.induct) auto

lemma map_of_dict_del [simp]: "map_of (dict_del k d) = (map_of d)(k := None)"
  by (induction d) (auto simp: dict_del_def fun_eq_iff)

lemma dict_get_set: "dict_get (dict_set k v d) k' = (if k' = k then Some v else dict_get d k')"
  by (simp add: dict_get_def)

lemma dict_set_keys: "set (map fst (dict_set k v d)) = insert k (set (map fst d))"
  by (induction k v d rule: dict_set.induct) auto

lemma dict_set_distinct: "distinct (map fst d) \<Longrightarrow> distinct (map fst (dict_set k v d))"
proof (induction k v d rule: dict_set.induct)
  case (2 k v k' v' d)
  then show ?case using dict_set_keys [of k v d] by auto
qed simp

lemma dict_set_length: "length (dict_set k v d) = length d + (if map_of d k = None then 1 else 0)"
  by (induction k v d rule: dict_set.induct) auto

lemma dict_del_shorter: "k \<in> fst ` set d \<Longrightarrow> length (dict_del k d) < length d"
  by (auto simp: dict_del_def intro!: length_filter_less)

text \<open>\<^verbatim>\<open>sorted(set(xs))\<close>.\<close>

definition sorted_set :: "'a::linorder list \<Rightarrow> 'a list" where
  "sorted_set xs = sort (remdups xs)"

lemma set_sorted_set [simp]: "set (sorted_set xs) = set xs"
  by (simp add: sorted_set_def)

lemma distinct_sorted_set [simp]: "distinct (sorted_set xs)"
  by (simp add: sorted_set_def)

lemma sorted_sorted_set [simp]: "sorted (sorted_set xs)"
  by (simp add: sorted_set_def)

lemma sorted_set_eq_Nil [simp]: "sorted_set xs = [] \<longleftrightarrow> xs = []"
  by (metis set_empty2 set_sorted_set)

section \<open>Strings\<close>

definition lower_char :: "char \<Rightarrow> char" where
  "lower_char c = (let n = (of_char c :: nat) in
     if 65 \<le> n \<and> n \<le> 90 then char_of (n + 32) else c)"

definition lower :: "string \<Rightarrow> string" where
  "lower s = map lower_char s"

definition is_space :: "char \<Rightarrow> bool" where
  "is_space c = (let n = (of_char c :: nat) in (9 \<le> n \<and> n \<le> 13) \<or> (28 \<le> n \<and> n \<le> 32))"

definition strip :: "string \<Rightarrow> string" where
  "strip s = rev (dropWhile is_space (rev (dropWhile is_space s)))"

text \<open>\<^verbatim>\<open>s.startswith(p)\<close>, \<^verbatim>\<open>s.endswith(p)\<close>, \<^verbatim>\<open>p in s\<close>.\<close>

fun starts_with :: "string \<Rightarrow> string \<Rightarrow> bool" where
  "starts_with s [] = True"
| "starts_with [] (p # ps) = False"
| "starts_with (c # cs) (p # ps) = (c = p \<and> starts_with cs ps)"

definition ends_with :: "string \<Rightarrow> string \<Rightarrow> bool" where
  "ends_with s p = starts_with (rev s) (rev p)"

fun has_sub :: "string \<Rightarrow> string \<Rightarrow> bool" where
  "has_sub [] p = (p = [])"
| "has_sub (c # cs) p = (starts_with (c # cs) p \<or> has_sub cs p)"

lemma starts_with_iff: "starts_with s p \<longleftrightarrow> (\<exists>r. s = p @ r)"
  by (induction s p rule: starts_with.induct) auto

lemma has_sub_iff: "has_sub s p \<longleftrightarrow> (\<exists>a b. s = a @ p @ b)"
proof (induction s)
  case Nil
  then show ?case by simp
next
  case (Cons c cs)
  have "(\<exists>a b. c # cs = a @ p @ b) \<longleftrightarrow> (\<exists>b. c # cs = p @ b) \<or> (\<exists>a b. cs = a @ p @ b)"
    by (metis append_Cons append_Nil append_eq_Cons_conv list.inject)
  then show ?case using Cons.IH by (simp add: starts_with_iff)
qed

lemma has_sub_Nil [simp]: "has_sub s []"
  by (cases s) simp_all

lemma has_sub_appendI: "has_sub s p \<Longrightarrow> has_sub (a @ s @ b) p"
  by (auto simp: has_sub_iff) (metis append.assoc)

lemma lower_append [simp]: "lower (a @ b) = lower a @ lower b"
  by (simp add: lower_def)

lemma lower_char_idem [simp]: "lower_char (lower_char c) = lower_char c"
  by (auto simp: lower_char_def Let_def)

lemma lower_idem [simp]: "lower (lower s) = lower s"
  by (simp add: lower_def)

fun join :: "string \<Rightarrow> string list \<Rightarrow> string" where
  "join sep [] = []"
| "join sep [x] = x"
| "join sep (x # y # ys) = x @ sep @ join sep (y # ys)"

text \<open>Python's \<^verbatim>\<open>a or b\<close> on strings.\<close>

definition str_or :: "string \<Rightarrow> string \<Rightarrow> string" where
  "str_or a b = (if a = [] then b else a)"

lemma str_or_Nil [simp]: "str_or [] b = b"
  by (simp add: str_or_def)

lemma str_or_id [simp]: "a \<noteq> [] \<Longrightarrow> str_or a b = a"
  by (simp add: str_or_def)

lemma str_or_nonempty: "b \<noteq> [] \<Longrightarrow> str_or a b \<noteq> []"
  by (simp add: str_or_def)

text \<open>\<^verbatim>\<open>s.lstrip(chars)\<close>, \<^verbatim>\<open>s.rstrip(chars)\<close>, \<^verbatim>\<open>s.strip(chars)\<close>, \<^verbatim>\<open>s.split(c)\<close> on one character.\<close>

definition lstrip_chars :: "string \<Rightarrow> string \<Rightarrow> string" where
  "lstrip_chars cs s = dropWhile (\<lambda>c. c \<in> set cs) s"

definition rstrip_chars :: "string \<Rightarrow> string \<Rightarrow> string" where
  "rstrip_chars cs s = rev (dropWhile (\<lambda>c. c \<in> set cs) (rev s))"

definition strip_chars :: "string \<Rightarrow> string \<Rightarrow> string" where
  "strip_chars cs s = rstrip_chars cs (lstrip_chars cs s)"

fun split_acc :: "char \<Rightarrow> string \<Rightarrow> string \<Rightarrow> string list" where
  "split_acc sep acc [] = [rev acc]"
| "split_acc sep acc (c # cs) =
     (if c = sep then rev acc # split_acc sep [] cs else split_acc sep (c # acc) cs)"

definition split_on :: "char \<Rightarrow> string \<Rightarrow> string list" where
  "split_on sep s = split_acc sep [] s"

text \<open>\<^verbatim>\<open>s.splitlines()\<close>: a final line terminator does not start another line; \<^verbatim>\<open>CR LF\<close> is one.\<close>

definition is_line_end :: "char \<Rightarrow> bool" where
  "is_line_end c = (let n = (of_char c :: nat) in (10 \<le> n \<and> n \<le> 13) \<or> (28 \<le> n \<and> n \<le> 30))"

fun splitlines_acc :: "string \<Rightarrow> string \<Rightarrow> string list" where
  "splitlines_acc acc [] = (if acc = [] then [] else [rev acc])"
| "splitlines_acc acc (c # cs) =
     (if c = CHR 0x0D \<and> cs \<noteq> [] \<and> hd cs = CHR 0x0A then rev acc # splitlines_acc [] (tl cs)
      else if is_line_end c then rev acc # splitlines_acc [] cs
      else splitlines_acc (c # acc) cs)"

definition splitlines :: "string \<Rightarrow> string list" where
  "splitlines s = splitlines_acc [] s"

text \<open>\<^verbatim>\<open>s.replace(a, b)\<close> on single characters, and text outside ASCII as its UTF-8 bytes.\<close>

definition replace_char :: "char \<Rightarrow> char \<Rightarrow> string \<Rightarrow> string" where
  "replace_char a b s = map (\<lambda>c. if c = a then b else c) s"

definition utf8 :: "nat list \<Rightarrow> string" where
  "utf8 ns = map char_of ns"

definition has_any :: "string list \<Rightarrow> string \<Rightarrow> bool" where
  "has_any ks s = list_ex (\<lambda>k. has_sub s k) ks"

lemma join_split_acc: "join [sep] (split_acc sep acc s) = rev acc @ s"
proof (induction s arbitrary: acc)
  case (Cons c cs)
  have "split_acc sep a cs \<noteq> []" for a by (induction cs arbitrary: a) auto
  then obtain x xs where "split_acc sep [] cs = x # xs" by (meson neq_Nil_conv)
  then show ?case using Cons.IH [of "[]"] Cons.IH [of "c # acc"] by auto
qed simp

lemma join_split_on: "join [sep] (split_on sep s) = s"
  by (simp add: split_on_def join_split_acc)

text \<open>\<^verbatim>\<open>str(n)\<close> of an integer.\<close>

fun digits_of :: "nat \<Rightarrow> string" where
  "digits_of n = (if n < 10 then [char_of (48 + n)] else digits_of (n div 10) @ [char_of (48 + n mod 10)])"

declare digits_of.simps [simp del]

definition str_int :: "int \<Rightarrow> string" where
  "str_int i = (if i < 0 then ''-'' @ digits_of (nat (- i)) else digits_of (nat i))"

lemma digits_of_nonempty [simp]: "digits_of n \<noteq> []"
  by (subst digits_of.simps) simp

text \<open>\<^verbatim>\<open>Path(s).name\<close> of a POSIX path: empty and \<^verbatim>\<open>.\<close> components do not count.\<close>

definition path_name :: "string \<Rightarrow> string" where
  "path_name s = (case filter (\<lambda>c. c \<noteq> [] \<and> c \<noteq> ''.'') (split_on (CHR ''/'') s) of
     [] \<Rightarrow> [] | cs \<Rightarrow> last cs)"

end
