(* ===== verification/Json_Value.thy ===== *)
theory Json_Value
  imports Complex_Main Voly_Prelude
begin

text \<open>
  JSON documents as Python sees them after \<^verbatim>\<open>json.load\<close>: dictionaries keep their insertion
  order.  Floating-point numbers are exact rationals (rounding is not modelled); integers are
  unbounded.  The conversions \<^verbatim>\<open>str(v)\<close>, \<^verbatim>\<open>int(v)\<close>, \<^verbatim>\<open>float(v)\<close> and \<^verbatim>\<open>dict(v)\<close> of a loaded value
  are a record of functions, with the documented laws of these builtins as a predicate, because
  the text of a float is the interpreter's business.
\<close>

text \<open>The builtin exceptions the source can meet or catches by class.\<close>

datatype py_exn =
    PyTypeError
  | PyValueError
  | PyAttributeError
  | PyOSError
  | PyFileNotFoundError string

datatype json =
    JNull
  | JBool bool
  | JInt int
  | JFloat rat
  | JStr string
  | JList "json list"
  | JObj "(string \<times> json) list"

text \<open>Python truthiness (\<^verbatim>\<open>bool(v)\<close>) and \<^verbatim>\<open>d.get(k)\<close> (a missing key reads \<^verbatim>\<open>None\<close>).\<close>

fun truthy :: "json \<Rightarrow> bool" where
  "truthy JNull = False"
| "truthy (JBool b) = b"
| "truthy (JInt i) = (i \<noteq> 0)"
| "truthy (JFloat r) = (r \<noteq> 0)"
| "truthy (JStr s) = (s \<noteq> [])"
| "truthy (JList xs) = (xs \<noteq> [])"
| "truthy (JObj kvs) = (kvs \<noteq> [])"

definition jget :: "(string \<times> json) list \<Rightarrow> string \<Rightarrow> json" where
  "jget kvs k = (case map_of kvs k of None \<Rightarrow> JNull | Some v \<Rightarrow> v)"

definition jget_default :: "(string \<times> json) list \<Rightarrow> string \<Rightarrow> json \<Rightarrow> json" where
  "jget_default kvs k d = (case map_of kvs k of None \<Rightarrow> d | Some v \<Rightarrow> v)"

text \<open>\<^verbatim>\<open>a or b\<close> on loaded values.\<close>

definition jor :: "json \<Rightarrow> json \<Rightarrow> json" where
  "jor a b = (if truthy a then a else b)"

record py_builtins =
  py_str :: "json \<Rightarrow> string"
  py_int :: "json \<Rightarrow> py_exn + int"
  py_float :: "json \<Rightarrow> py_exn + rat"
  py_dict :: "json \<Rightarrow> py_exn + (string \<times> json) list"

definition py_builtins_ok :: "py_builtins \<Rightarrow> bool" where
  "py_builtins_ok B \<longleftrightarrow>
     (\<forall>s. py_str B (JStr s) = s) \<and>
     (\<forall>i. py_int B (JInt i) = Inr i) \<and>
     (\<forall>r. py_float B (JFloat r) = Inr r) \<and>
     (\<forall>i. py_float B (JInt i) = Inr (of_int i)) \<and>
     (\<forall>kvs. py_dict B (JObj kvs) = Inr kvs)"

lemma py_builtins_okD [simp]:
  assumes "py_builtins_ok B"
  shows "py_str B (JStr s) = s" "py_int B (JInt i) = Inr i"
    "py_float B (JFloat r) = Inr r" "py_float B (JInt i) = Inr (of_int i)"
    "py_dict B (JObj kvs) = Inr kvs"
  using assms by (simp_all add: py_builtins_ok_def)

text \<open>A concrete instance for the typed values the writers produce.\<close>

definition py_typed :: py_builtins where
  "py_typed = \<lparr>
     py_str = (\<lambda>v. case v of JStr s \<Rightarrow> s | JBool True \<Rightarrow> ''True'' | JBool False \<Rightarrow> ''False''
                  | _ \<Rightarrow> ''None''),
     py_int = (\<lambda>v. case v of JInt i \<Rightarrow> Inr i | JBool b \<Rightarrow> Inr (of_bool b)
                  | JFloat r \<Rightarrow> Inr (if r < 0 then \<lceil>r\<rceil> else \<lfloor>r\<rfloor>)
                  | JStr _ \<Rightarrow> Inl PyValueError | _ \<Rightarrow> Inl PyTypeError),
     py_float = (\<lambda>v. case v of JFloat r \<Rightarrow> Inr r | JInt i \<Rightarrow> Inr (of_int i)
                  | JBool b \<Rightarrow> Inr (of_bool b) | JStr _ \<Rightarrow> Inl PyValueError | _ \<Rightarrow> Inl PyTypeError),
     py_dict = (\<lambda>v. case v of JObj kvs \<Rightarrow> Inr kvs | JList [] \<Rightarrow> Inr [] | JStr [] \<Rightarrow> Inr []
                  | JStr _ \<Rightarrow> Inl PyValueError | _ \<Rightarrow> Inl PyTypeError)\<rparr>"

lemma py_typed_ok [simp]: "py_builtins_ok py_typed"
  by (simp add: py_builtins_ok_def py_typed_def)

text \<open>Sequencing of computations that may raise.\<close>

fun try_map :: "('a \<Rightarrow> 'e + 'b) \<Rightarrow> 'a list \<Rightarrow> 'e + 'b list" where
  "try_map f [] = Inr []"
| "try_map f (x # xs) =
     (case f x of
        Inl e \<Rightarrow> Inl e
      | Inr y \<Rightarrow> (case try_map f xs of Inl e \<Rightarrow> Inl e | Inr ys \<Rightarrow> Inr (y # ys)))"

lemma try_map_map_Inr:
  "(\<And>x. x \<in> set xs \<Longrightarrow> f (g x) = Inr (h x)) \<Longrightarrow> try_map f (map g xs) = Inr (map h xs)"
  by (induction xs) auto

end
