(* ===== verification/Plan_Types.thy ===== *)
theory Plan_Types
  imports Json_Value
begin

text \<open>
  \<^verbatim>\<open>src/voly/plan/types.py\<close>: step and plan statuses, the table of legal transitions, the
  errors, and the records \<^verbatim>\<open>AcceptanceCheck\<close>, \<^verbatim>\<open>PlanStep\<close> and \<^verbatim>\<open>Plan\<close>.  Statuses and modes are
  strings, as in the source: a loaded document may hold any string, and the engine checks it.
  An exception is a value that carries what its message interpolates.
\<close>

section \<open>Statuses\<close>

definition PENDING :: string where [status_defs]: "PENDING = ''pending''"
definition RUNNING :: string where [status_defs]: "RUNNING = ''running''"
definition DONE :: string where [status_defs]: "DONE = ''done''"
definition VERIFYING :: string where [status_defs]: "VERIFYING = ''verifying''"
definition VERIFIED :: string where [status_defs]: "VERIFIED = ''verified''"
definition FAILED :: string where [status_defs]: "FAILED = ''failed''"
definition SKIPPED :: string where [status_defs]: "SKIPPED = ''skipped''"

definition STEP_STATUSES :: "string list" where
  "STEP_STATUSES = [PENDING, RUNNING, DONE, VERIFYING, VERIFIED, FAILED, SKIPPED]"

definition LEGAL_TRANSITIONS :: "(string \<times> string) list" where
  "LEGAL_TRANSITIONS =
     [(PENDING, RUNNING), (PENDING, SKIPPED), (RUNNING, DONE), (RUNNING, FAILED),
      (DONE, VERIFYING), (DONE, VERIFIED), (VERIFYING, VERIFIED), (VERIFYING, FAILED),
      (FAILED, RUNNING), (FAILED, SKIPPED), (FAILED, PENDING)]"

definition PLAN_PENDING :: string where [status_defs]: "PLAN_PENDING = ''pending''"
definition PLAN_RUNNING :: string where [status_defs]: "PLAN_RUNNING = ''running''"
definition PLAN_COMPLETED :: string where [status_defs]: "PLAN_COMPLETED = ''completed''"
definition PLAN_FAILED :: string where [status_defs]: "PLAN_FAILED = ''failed''"
definition PLAN_ABORTED :: string where [status_defs]: "PLAN_ABORTED = ''aborted''"

definition PLAN_STATUSES :: "string list" where
  "PLAN_STATUSES = [PLAN_PENDING, PLAN_RUNNING, PLAN_COMPLETED, PLAN_FAILED, PLAN_ABORTED]"

definition MODE_CHAT :: string where [status_defs]: "MODE_CHAT = ''chat''"
definition MODE_EXECUTOR :: string where [status_defs]: "MODE_EXECUTOR = ''executor''"
definition MODE_BUSINESS :: string where [status_defs]: "MODE_BUSINESS = ''business''"

definition STEP_MODES :: "string list" where
  "STEP_MODES = [MODE_CHAT, MODE_EXECUTOR, MODE_BUSINESS]"

definition SCHEMA_VERSION :: int where "SCHEMA_VERSION = 1"

definition is_legal_transition :: "string \<Rightarrow> string \<Rightarrow> bool" where
  "is_legal_transition from_status to_status \<longleftrightarrow> (from_status, to_status) \<in> set LEGAL_TRANSITIONS"

lemma status_distinct [simp]:
  "PENDING \<noteq> RUNNING" "PENDING \<noteq> DONE" "PENDING \<noteq> VERIFYING" "PENDING \<noteq> VERIFIED"
  "PENDING \<noteq> FAILED" "PENDING \<noteq> SKIPPED" "RUNNING \<noteq> PENDING" "RUNNING \<noteq> DONE"
  "RUNNING \<noteq> VERIFYING" "RUNNING \<noteq> VERIFIED" "RUNNING \<noteq> FAILED" "RUNNING \<noteq> SKIPPED"
  "DONE \<noteq> PENDING" "DONE \<noteq> RUNNING" "DONE \<noteq> VERIFYING" "DONE \<noteq> VERIFIED"
  "DONE \<noteq> FAILED" "DONE \<noteq> SKIPPED" "VERIFYING \<noteq> PENDING" "VERIFYING \<noteq> RUNNING"
  "VERIFYING \<noteq> DONE" "VERIFYING \<noteq> VERIFIED" "VERIFYING \<noteq> FAILED" "VERIFYING \<noteq> SKIPPED"
  "VERIFIED \<noteq> PENDING" "VERIFIED \<noteq> RUNNING" "VERIFIED \<noteq> DONE" "VERIFIED \<noteq> VERIFYING"
  "VERIFIED \<noteq> FAILED" "VERIFIED \<noteq> SKIPPED" "FAILED \<noteq> PENDING" "FAILED \<noteq> RUNNING"
  "FAILED \<noteq> DONE" "FAILED \<noteq> VERIFYING" "FAILED \<noteq> VERIFIED" "FAILED \<noteq> SKIPPED"
  "SKIPPED \<noteq> PENDING" "SKIPPED \<noteq> RUNNING" "SKIPPED \<noteq> DONE" "SKIPPED \<noteq> VERIFYING"
  "SKIPPED \<noteq> VERIFIED" "SKIPPED \<noteq> FAILED"
  by (simp_all add: status_defs)

lemma plan_status_distinct [simp]:
  "PLAN_PENDING \<noteq> PLAN_RUNNING" "PLAN_PENDING \<noteq> PLAN_COMPLETED" "PLAN_PENDING \<noteq> PLAN_FAILED"
  "PLAN_PENDING \<noteq> PLAN_ABORTED" "PLAN_RUNNING \<noteq> PLAN_PENDING" "PLAN_RUNNING \<noteq> PLAN_COMPLETED"
  "PLAN_RUNNING \<noteq> PLAN_FAILED" "PLAN_RUNNING \<noteq> PLAN_ABORTED" "PLAN_COMPLETED \<noteq> PLAN_PENDING"
  "PLAN_COMPLETED \<noteq> PLAN_RUNNING" "PLAN_COMPLETED \<noteq> PLAN_FAILED" "PLAN_COMPLETED \<noteq> PLAN_ABORTED"
  "PLAN_FAILED \<noteq> PLAN_PENDING" "PLAN_FAILED \<noteq> PLAN_RUNNING" "PLAN_FAILED \<noteq> PLAN_COMPLETED"
  "PLAN_FAILED \<noteq> PLAN_ABORTED" "PLAN_ABORTED \<noteq> PLAN_PENDING" "PLAN_ABORTED \<noteq> PLAN_RUNNING"
  "PLAN_ABORTED \<noteq> PLAN_COMPLETED" "PLAN_ABORTED \<noteq> PLAN_FAILED"
  by (simp_all add: status_defs)

lemma mode_distinct [simp]:
  "MODE_CHAT \<noteq> MODE_EXECUTOR" "MODE_CHAT \<noteq> MODE_BUSINESS" "MODE_EXECUTOR \<noteq> MODE_CHAT"
  "MODE_EXECUTOR \<noteq> MODE_BUSINESS" "MODE_BUSINESS \<noteq> MODE_CHAT" "MODE_BUSINESS \<noteq> MODE_EXECUTOR"
  by (simp_all add: status_defs)

lemma legal_transition_iff:
  "is_legal_transition f t \<longleftrightarrow>
     (f = PENDING \<and> t \<in> {RUNNING, SKIPPED}) \<or> (f = RUNNING \<and> t \<in> {DONE, FAILED}) \<or>
     (f = DONE \<and> t \<in> {VERIFYING, VERIFIED}) \<or> (f = VERIFYING \<and> t \<in> {VERIFIED, FAILED}) \<or>
     (f = FAILED \<and> t \<in> {RUNNING, SKIPPED, PENDING})"
  by (auto simp: is_legal_transition_def LEGAL_TRANSITIONS_def)

section \<open>Errors\<close>

datatype transition_reason =
    UnknownTargetStatus
  | SkipNotAllowed
  | NotInTable
  | UnmetDependencies "string list"
  | OnlyPendingFailedMayStart
  | HasAcceptanceChecks
  | NoAcceptanceChecks
  | AdvanceRequiresDone
  | CompleteRequiresVerifying

datatype validation_reason =
    PlanIdRequired
  | InvalidPlanStatus string
  | NoSteps
  | StepIdRequired
  | DuplicateStepId string
  | InvalidStepStatus string string
  | InvalidStepMode string string
  | UnknownDependency string string
  | SelfDependency string
  | DependencyCycle "string list"
  | UnknownStepId string
  | InvalidAcceptanceCheck
  | InvalidPlanStep
  | AcceptanceNotAList string
  | MissingPlanId
  | StepsNotAList
  | InvalidPlanIdForPath string
  | PlanFileNotAnObject string
  | PlanDocumentNotAMapping

text \<open>
  \<open>Raised\<close> is a builtin exception: of \<^verbatim>\<open>int(v)\<close>, \<^verbatim>\<open>float(v)\<close> or of iterating over a value that is
  not a list, when a document field has the wrong shape; of the file system; of the approval
  service, whose errors are subclasses of \<^verbatim>\<open>ValueError\<close> and keep a constructor each.
\<close>

datatype plan_error =
    IllegalTransition string string string transition_reason
  | PlanValidationError validation_reason
  | ApprovalError string string
  | ApprovalConflictError string string
  | Raised py_exn

section \<open>Records\<close>

record acceptance_check =
  check_type :: string
  paths :: "string list"
  run_cmd :: string
  expect_exit :: int
  pattern :: string
  max_lines :: int
  approved_max_lines :: int
  exclude_patterns :: "string list"

record plan_step =
  step_id :: string
  step_role :: string
  step_mode :: string
  step_status :: string
  depends_on :: "string list"
  acceptance :: "acceptance_check list"
  step_task :: string
  success_criteria :: string
  step_error :: string
  step_output :: string
  verify_log :: "json list"
  files_touched :: "string list"
  step_executor :: string
  step_model :: string
  step_provider :: string
  step_tier :: string
  cost_usd :: rat
  duration_ms :: rat
  started_at :: rat

record plan =
  plan_id :: string
  task_id :: string
  plan_cwd :: string
  plan_status :: string
  schema_version :: int
  steps :: "plan_step list"
  plan_task :: string
  created_at :: rat
  updated_at :: rat
  plan_err :: string
  metadata :: "(string \<times> json) list"

text \<open>The dataclass defaults: \<^verbatim>\<open>AcceptanceCheck(type=t)\<close>, \<^verbatim>\<open>PlanStep(id=i)\<close>, \<^verbatim>\<open>Plan(plan_id=i)\<close>.\<close>

definition new_check :: "string \<Rightarrow> acceptance_check" where
  "new_check t = \<lparr>check_type = t, paths = [], run_cmd = [], expect_exit = 0, pattern = [],
     max_lines = 0, approved_max_lines = 0, exclude_patterns = []\<rparr>"

definition new_step :: "string \<Rightarrow> plan_step" where
  "new_step i = \<lparr>step_id = i, step_role = ''developer'', step_mode = MODE_CHAT,
     step_status = PENDING, depends_on = [], acceptance = [], step_task = [],
     success_criteria = [], step_error = [], step_output = [], verify_log = [],
     files_touched = [], step_executor = [], step_model = [], step_provider = [],
     step_tier = [], cost_usd = 0, duration_ms = 0, started_at = 0\<rparr>"

definition new_plan :: "string \<Rightarrow> plan" where
  "new_plan i = \<lparr>plan_id = i, task_id = [], plan_cwd = [], plan_status = PLAN_PENDING,
     schema_version = SCHEMA_VERSION, steps = [], plan_task = [], created_at = 0,
     updated_at = 0, plan_err = [], metadata = []\<rparr>"

section \<open>Access to steps\<close>

definition get_step :: "plan \<Rightarrow> string \<Rightarrow> plan_error + plan_step" where
  "get_step p sid = (case find (\<lambda>s. step_id s = sid) (steps p) of
     Some s \<Rightarrow> Inr s
   | None \<Rightarrow> Inl (PlanValidationError (UnknownStepId sid)))"

text \<open>A dictionary comprehension: of two steps with one id, the later wins.\<close>

definition step_map :: "plan \<Rightarrow> string \<rightharpoonup> plan_step" where
  "step_map p = map_of (rev (map (\<lambda>s. (step_id s, s)) (steps p)))"

text \<open>The object \<^verbatim>\<open>get_step\<close> returns is the plan's own; mutating it is updating the plan.\<close>

definition upd_step :: "string \<Rightarrow> (plan_step \<Rightarrow> plan_step) \<Rightarrow> plan \<Rightarrow> plan" where
  "upd_step sid f p = p\<lparr>steps := upd_first (\<lambda>s. step_id s = sid) f (steps p)\<rparr>"

definition step_ids :: "plan \<Rightarrow> string list" where
  "step_ids p = map step_id (steps p)"

lemma get_step_Inr_iff:
  "get_step p sid = Inr s \<longleftrightarrow> find (\<lambda>s. step_id s = sid) (steps p) = Some s"
  by (auto simp: get_step_def split: option.splits)

lemma get_stepD: "get_step p sid = Inr s \<Longrightarrow> s \<in> set (steps p) \<and> step_id s = sid"
  by (auto simp: get_step_Inr_iff dest: find_SomeD)

lemma get_step_ex_iff: "(\<exists>s. get_step p sid = Inr s) \<longleftrightarrow> sid \<in> set (step_ids p)"
  using find_key_None [of step_id sid "steps p"]
  by (auto simp: get_step_Inr_iff step_ids_def)

lemma get_step_distinct:
  "distinct (step_ids p) \<Longrightarrow> s \<in> set (steps p) \<Longrightarrow> get_step p (step_id s) = Inr s"
  by (simp add: get_step_Inr_iff step_ids_def find_key_distinct)

lemma step_map_distinct:
  assumes "distinct (step_ids p)"
  shows "step_map p sid = find (\<lambda>s. step_id s = sid) (steps p)"
proof -
  have "step_map p = map_of (map (\<lambda>s. (step_id s, s)) (steps p))"
    unfolding step_map_def
    by (rule map_of_rev_distinct) (use assms in \<open>simp add: step_ids_def comp_def\<close>)
  moreover have "map_of (map (\<lambda>s. (step_id s, s)) xs) sid = find (\<lambda>s. step_id s = sid) xs" for xs
    by (induction xs) auto
  ultimately show ?thesis by simp
qed

lemma upd_step_frame [simp]:
  "plan_id (upd_step sid f p) = plan_id p" "task_id (upd_step sid f p) = task_id p"
  "plan_cwd (upd_step sid f p) = plan_cwd p" "plan_status (upd_step sid f p) = plan_status p"
  "plan_task (upd_step sid f p) = plan_task p" "created_at (upd_step sid f p) = created_at p"
  "updated_at (upd_step sid f p) = updated_at p" "plan_err (upd_step sid f p) = plan_err p"
  "metadata (upd_step sid f p) = metadata p" "schema_version (upd_step sid f p) = schema_version p"
  by (simp_all add: upd_step_def)

lemma step_ids_upd_step [simp]:
  assumes "\<And>s. step_id (f s) = step_id s"
  shows "step_ids (upd_step sid f p) = step_ids p"
  using assms by (simp add: step_ids_def upd_step_def map_upd_first)

lemma get_step_upd_same:
  assumes "\<And>s. step_id (f s) = step_id s"
  shows "get_step (upd_step sid f p) sid = map_sum id f (get_step p sid)"
  using assms
  by (simp add: get_step_def upd_step_def find_upd_first_same split: option.splits)

lemma get_step_upd_other:
  assumes "\<And>s. step_id (f s) = step_id s" "other \<noteq> sid"
  shows "get_step (upd_step sid f p) other = get_step p other"
  using assms by (simp add: get_step_def upd_step_def find_upd_first_other)

lemma map_upd_step:
  assumes "\<And>s. g (f s) = g s"
  shows "map g (steps (upd_step sid f p)) = map g (steps p)"
  using assms by (simp add: upd_step_def map_upd_first)

end
