(* ===== verification/Py_Regex.thy ===== *)
theory Py_Regex
  imports Voly_Prelude
begin

text \<open>
  The part of Python's \<^verbatim>\<open>re\<close> that the source uses with fixed patterns: a backtracking matcher.
  A state is the text already passed (reversed), the text left and the captured groups;
  \<open>re_ends\<close> lists the states a match can end in, in the order the backtracking engine tries
  them, so the head is the match Python returns.  No pattern of the source repeats an
  expression that can match the empty string, where the two would differ.
\<close>

section \<open>Patterns\<close>

datatype regex =
    Eps
  | Chr "char \<Rightarrow> bool"
  | Cat regex regex
  | Alt regex regex
  | Star bool regex
  | Group nat regex
  | Bol
  | Eol
  | Bos
  | Eos
  | WordB

type_synonym re_state = "string \<times> string \<times> (nat \<times> string) list"

definition ch :: "char \<Rightarrow> regex" where "ch c = Chr (\<lambda>d. d = c)"

definition any_char :: regex where "any_char = Chr (\<lambda>c. c \<noteq> CHR 0x0A)"

definition is_digit :: "char \<Rightarrow> bool" where
  "is_digit c = (let n = (of_char c :: nat) in 48 \<le> n \<and> n \<le> 57)"

definition is_alpha :: "char \<Rightarrow> bool" where
  "is_alpha c = (let n = (of_char c :: nat) in (65 \<le> n \<and> n \<le> 90) \<or> (97 \<le> n \<and> n \<le> 122))"

definition is_word :: "char \<Rightarrow> bool" where
  "is_word c = (is_digit c \<or> is_alpha c \<or> c = CHR ''_'')"

fun cats :: "regex list \<Rightarrow> regex" where
  "cats [] = Eps"
| "cats [r] = r"
| "cats (r # s # rs) = Cat r (cats (s # rs))"

fun alts :: "regex list \<Rightarrow> regex" where
  "alts [] = Chr (\<lambda>_. False)"
| "alts [r] = r"
| "alts (r # s # rs) = Alt r (alts (s # rs))"

text \<open>A literal, and one read with \<^verbatim>\<open>re.IGNORECASE\<close> (ASCII).\<close>

definition lit :: "string \<Rightarrow> regex" where "lit s = cats (map ch s)"

definition liti :: "string \<Rightarrow> regex" where
  "liti s = cats (map (\<lambda>c. Chr (\<lambda>d. lower_char d = lower_char c)) s)"

abbreviation opt :: "regex \<Rightarrow> regex" where "opt r \<equiv> Alt r Eps"
abbreviation plus :: "regex \<Rightarrow> regex" where "plus r \<equiv> Cat r (Star True r)"
abbreviation spaces :: regex where "spaces \<equiv> Star True (Chr is_space)"
abbreviation digits :: regex where "digits \<equiv> plus (Chr is_digit)"

section \<open>Matching\<close>

definition at_word_boundary :: "re_state \<Rightarrow> bool" where
  "at_word_boundary st = (case st of (pre, suf, _) \<Rightarrow>
     (pre \<noteq> [] \<and> is_word (hd pre)) \<noteq> (suf \<noteq> [] \<and> is_word (hd suf)))"

function re_ends :: "regex \<Rightarrow> re_state \<Rightarrow> re_state list" where
  "re_ends Eps st = [st]"
| "re_ends (Chr P) (pre, suf, caps) = (case suf of
     [] \<Rightarrow> [] | c # cs \<Rightarrow> (if P c then [(c # pre, cs, caps)] else []))"
| "re_ends (Cat r s) st = concat (map (re_ends s) (re_ends r st))"
| "re_ends (Alt r s) st = re_ends r st @ re_ends s st"
| "re_ends (Star greedy r) st =
     (let more = concat (map (\<lambda>st'. if length (fst (snd st')) < length (fst (snd st))
                                     then re_ends (Star greedy r) st' else []) (re_ends r st))
      in if greedy then more @ [st] else st # more)"
| "re_ends (Group n r) (pre, suf, caps) =
     map (\<lambda>(pre', suf', caps'). (pre', suf', (n, take (length suf - length suf') suf) # caps'))
       (re_ends r (pre, suf, caps))"
| "re_ends Bol (pre, suf, caps) = (if pre = [] \<or> hd pre = CHR 0x0A then [(pre, suf, caps)] else [])"
| "re_ends Eol (pre, suf, caps) = (if suf = [] \<or> hd suf = CHR 0x0A then [(pre, suf, caps)] else [])"
| "re_ends Bos (pre, suf, caps) = (if pre = [] then [(pre, suf, caps)] else [])"
| "re_ends Eos (pre, suf, caps) =
     (if suf = [] \<or> suf = [CHR 0x0A] then [(pre, suf, caps)] else [])"
| "re_ends WordB st = (if at_word_boundary st then [st] else [])"
  by pat_completeness auto
termination
  by (relation "inv_image (less_than <*lex*> less_than) (\<lambda>(r, st). (size r, length (fst (snd st))))") auto

declare re_ends.simps(5) [simp del]

text \<open>\<^verbatim>\<open>re.match\<close> at a position, \<^verbatim>\<open>re.search\<close>, \<^verbatim>\<open>m.group(n)\<close>, and \<^verbatim>\<open>re.finditer\<close> on non-empty matches.\<close>

definition match_at :: "regex \<Rightarrow> string \<Rightarrow> string \<Rightarrow> re_state option" where
  "match_at r pre suf = (case re_ends r (pre, suf, []) of [] \<Rightarrow> None | st # _ \<Rightarrow> Some st)"

fun search_from :: "regex \<Rightarrow> string \<Rightarrow> string \<Rightarrow> (string \<times> re_state) option" where
  "search_from r pre suf = (case match_at r pre suf of
     Some st \<Rightarrow> Some (suf, st)
   | None \<Rightarrow> (case suf of [] \<Rightarrow> None | c # cs \<Rightarrow> search_from r (c # pre) cs))"

declare search_from.simps [simp del]

definition re_search :: "regex \<Rightarrow> string \<Rightarrow> (nat \<times> string) list option" where
  "re_search r s = map_option (\<lambda>(_, _, _, caps). caps) (search_from r [] s)"

definition re_test :: "regex \<Rightarrow> string \<Rightarrow> bool" where
  "re_test r s = (re_search r s \<noteq> None)"

definition group :: "(nat \<times> string) list \<Rightarrow> nat \<Rightarrow> string" where
  "group caps n = (case map_of caps n of Some s \<Rightarrow> s | None \<Rightarrow> [])"

function re_finditer :: "regex \<Rightarrow> string \<Rightarrow> string \<Rightarrow> (nat \<times> string) list list" where
  "re_finditer r pre suf = (case search_from r pre suf of
     None \<Rightarrow> []
   | Some (_, pre', suf', caps) \<Rightarrow>
       caps # (if length suf' < length suf then re_finditer r pre' suf' else []))"
  by pat_completeness auto
termination
  by (relation "measure (\<lambda>(r, pre, suf). length suf)") auto

declare re_finditer.simps [simp del]

text \<open>\<^verbatim>\<open>re.escape\<close>.\<close>

definition re_special :: string where
  "re_special = ''()[]{}?*+-|^$.&~# '' @ [CHR 0x5C, CHR 0x09, CHR 0x0A, CHR 0x0D, CHR 0x0B, CHR 0x0C]"

definition re_escape :: "string \<Rightarrow> string" where
  "re_escape s = concat (map (\<lambda>c. if c \<in> set re_special then [CHR 0x5C, c] else [c]) s)"

section \<open>What a match is\<close>

text \<open>A match consumes a segment of the text and moves it to the part already passed.\<close>

definition re_advance :: "re_state \<Rightarrow> re_state \<Rightarrow> bool" where
  "re_advance st st' \<longleftrightarrow> (\<exists>w. fst (snd st) = w @ fst (snd st') \<and> fst st' = rev w @ fst st)"

lemma re_advance_refl [simp]: "re_advance st st"
  by (simp add: re_advance_def)

lemma re_advance_trans: "re_advance a b \<Longrightarrow> re_advance b c \<Longrightarrow> re_advance a c"
  by (auto simp: re_advance_def)

lemma re_ends_advance: "st' \<in> set (re_ends r st) \<Longrightarrow> re_advance st st'"
proof (induction r st arbitrary: st' rule: re_ends.induct)
  case (2 P pre suf caps)
  then show ?case by (auto simp: re_advance_def split: list.splits if_splits)
next
  case (3 r s st)
  then obtain st1 where "st1 \<in> set (re_ends r st)" "st' \<in> set (re_ends s st1)" by auto
  then show ?case using 3 re_advance_trans by blast
next
  case (5 greedy r st)
  show ?case
  proof (cases "st' = st")
    case False
    then obtain st1 where st1: "st1 \<in> set (re_ends r st)"
        "length (fst (snd st1)) < length (fst (snd st))" "st' \<in> set (re_ends (Star greedy r) st1)"
      using 5(3) by (cases greedy) (auto simp del: re_ends.simps simp: re_ends.simps(5) [of _ r st] Let_def split: if_splits)
    show ?thesis by (rule re_advance_trans [OF 5(1) [OF st1(1)] 5(2) [OF st1]])
  qed simp
next
  case (6 n r pre suf caps)
  then show ?case by (fastforce simp: re_advance_def)
qed (auto split: if_splits)

text \<open>Searching tries every position.\<close>

lemma search_from_iff:
  "search_from r pre suf \<noteq> None \<longleftrightarrow>
     (\<exists>a b. suf = a @ b \<and> re_ends r (rev a @ pre, b, []) \<noteq> [])"
proof (induction suf arbitrary: pre)
  case Nil
  then show ?case
    by (subst search_from.simps) (auto simp: match_at_def split: list.splits)
next
  case (Cons c cs)
  have "search_from r pre (c # cs) \<noteq> None \<longleftrightarrow>
      re_ends r (pre, c # cs, []) \<noteq> [] \<or> search_from r (c # pre) cs \<noteq> None"
    by (subst search_from.simps) (auto simp: match_at_def split: list.splits)
  also have "\<dots> \<longleftrightarrow> (\<exists>a b. c # cs = a @ b \<and> re_ends r (rev a @ pre, b, []) \<noteq> [])"
    (is "?l \<longleftrightarrow> ?r")
  proof
    assume ?l
    then show ?r
    proof
      assume "re_ends r (pre, c # cs, []) \<noteq> []"
      then show ?r by (intro exI [of _ "[]"] exI [of _ "c # cs"]) simp
    next
      assume "search_from r (c # pre) cs \<noteq> None"
      then obtain a b where "cs = a @ b" "re_ends r (rev a @ c # pre, b, []) \<noteq> []"
        using Cons.IH by blast
      then show ?r by (intro exI [of _ "c # a"] exI [of _ b]) simp
    qed
  next
    assume ?r
    then obtain a b where ab: "c # cs = a @ b" "re_ends r (rev a @ pre, b, []) \<noteq> []" by blast
    then show ?l using Cons.IH [of "c # pre"] by (cases a) auto
  qed
  finally show ?case .
qed

lemma re_test_iff:
  "re_test r s \<longleftrightarrow> (\<exists>a b. s = a @ b \<and> re_ends r (rev a, b, []) \<noteq> [])"
  using search_from_iff [of r "[]" s] by (simp add: re_test_def re_search_def)

lemma re_ends_lit: "re_ends (lit p) (pre, suf, caps) =
    (if starts_with suf p then [(rev p @ pre, drop (length p) suf, caps)] else [])"
proof (induction p arbitrary: pre suf)
  case (Cons c p)
  show ?case
  proof (cases p)
    case Nil
    then show ?thesis by (cases suf) (auto simp: lit_def ch_def)
  next
    case (Cons d q)
    then have "lit (c # p) = Cat (ch c) (lit p)" by (simp add: lit_def)
    then show ?thesis using Cons.IH by (cases suf) (auto simp: ch_def)
  qed
qed (simp add: lit_def)

text \<open>Searching for a literal is the substring test.\<close>

lemma re_test_lit: "re_test (lit p) s \<longleftrightarrow> has_sub s p"
  by (auto simp: re_test_iff re_ends_lit has_sub_iff starts_with_iff split: if_splits)

end
