(* ===== verification/Plan_Suggest.thy ===== *)
theory Plan_Suggest
  imports Plan_Types Py_Regex
begin

text \<open>
  \<^verbatim>\<open>src/voly/plan/suggest.py\<close>: the test and lint commands suggested for a scanned project, and the
  narrowing of a bare \<^verbatim>\<open>pytest\<close> run to the test files a step touched.  \<^verbatim>\<open>shlex.split\<close> is modelled
  as its automaton.
\<close>

section \<open>shlex.split (POSIX)\<close>

datatype shlex_state = Initial | InWord | InQuote char | Escape "char option"

definition shlex_space :: "char \<Rightarrow> bool" where
  "shlex_space c \<longleftrightarrow> c \<in> {CHR '' '', CHR 0x09, CHR 0x0D, CHR 0x0A}"

definition shlex_quote :: "char \<Rightarrow> bool" where
  "shlex_quote c \<longleftrightarrow> c \<in> {CHR 0x27, CHR 0x22}"

text \<open>
  \<open>quoted\<close> and \<open>tok\<close> (reversed) are the token being read; an unfinished quotation or escape
  raises \<^verbatim>\<open>ValueError\<close> (\<open>None\<close>).
\<close>

fun shlex_go :: "shlex_state \<Rightarrow> bool \<Rightarrow> string \<Rightarrow> string \<Rightarrow> string list option" where
  "shlex_go Initial quoted tok [] = Some []"
| "shlex_go InWord quoted tok [] = Some (if tok \<noteq> [] \<or> quoted then [rev tok] else [])"
| "shlex_go (InQuote q) quoted tok [] = None"
| "shlex_go (Escape q) quoted tok [] = None"
| "shlex_go Initial quoted tok (c # cs) =
     (if shlex_space c then shlex_go Initial False [] cs
      else if c = CHR 0x5C then shlex_go (Escape None) False [] cs
      else if shlex_quote c then shlex_go (InQuote c) False [] cs
      else shlex_go InWord False [c] cs)"
| "shlex_go InWord quoted tok (c # cs) =
     (if shlex_space c
      then (if tok \<noteq> [] \<or> quoted then map_option (Cons (rev tok)) (shlex_go Initial False [] cs)
            else shlex_go Initial False [] cs)
      else if shlex_quote c then shlex_go (InQuote c) quoted tok cs
      else if c = CHR 0x5C then shlex_go (Escape None) quoted tok cs
      else shlex_go InWord quoted (c # tok) cs)"
| "shlex_go (InQuote q) quoted tok (c # cs) =
     (if c = q then shlex_go InWord True tok cs
      else if c = CHR 0x5C \<and> q = CHR 0x22 then shlex_go (Escape (Some q)) True tok cs
      else shlex_go (InQuote q) True (c # tok) cs)"
| "shlex_go (Escape None) quoted tok (c # cs) = shlex_go InWord quoted (c # tok) cs"
| "shlex_go (Escape (Some q)) quoted tok (c # cs) =
     (if c \<noteq> CHR 0x5C \<and> c \<noteq> q then shlex_go (InQuote q) quoted (c # CHR 0x5C # tok) cs
      else shlex_go (InQuote q) quoted (c # tok) cs)"

definition shlex_split :: "string \<Rightarrow> string list option" where
  "shlex_split s = shlex_go Initial False [] s"

text \<open>Words without blanks, quotes and backslashes are what a command joined by blanks splits into.\<close>

definition plain_word :: "string \<Rightarrow> bool" where
  "plain_word w \<longleftrightarrow> w \<noteq> [] \<and> (\<forall>c \<in> set w. \<not> shlex_space c \<and> \<not> shlex_quote c \<and> c \<noteq> CHR 0x5C)"

lemma shlex_go_word:
  assumes "\<forall>c \<in> set w. \<not> shlex_space c \<and> \<not> shlex_quote c \<and> c \<noteq> CHR 0x5C"
  shows "shlex_go InWord q tok (w @ cs) = shlex_go InWord q (rev w @ tok) cs"
  using assms by (induction w arbitrary: tok) auto

lemma shlex_go_plain:
  assumes "plain_word w"
  shows "shlex_go Initial q tok (w @ cs) = shlex_go InWord False (rev w) cs"
proof (cases w)
  case (Cons c w')
  then show ?thesis using assms shlex_go_word [of w' False "[c]" cs] by (auto simp: plain_word_def)
qed (use assms in \<open>simp add: plain_word_def\<close>)

lemma shlex_split_join:
  "\<forall>w \<in> set ws. plain_word w \<Longrightarrow> shlex_split (join '' '' ws) = Some ws"
  unfolding shlex_split_def
proof (induction "'' ''" ws rule: join.induct)
  case (2 x)
  then show ?case using shlex_go_plain [of x False "[]" "[]"] by (auto simp: plain_word_def)
next
  case (3 x y ys)
  then have "x \<noteq> []" by (simp add: plain_word_def)
  then show ?case using 3 by (simp add: shlex_go_plain shlex_space_def)
qed simp

section \<open>Scoping pytest\<close>

definition TEST_FILE_RE :: regex where
  "TEST_FILE_RE = (let seg = plus (Chr (\<lambda>c. c \<noteq> CHR ''/'')) in
     cats [Alt Bos (ch CHR ''/''),
           Alt (cats [liti ''test_'', seg, liti ''.py'']) (cats [seg, liti ''_test.py'']), Eos])"

definition is_pytest_command :: "string \<Rightarrow> bool" where
  "is_pytest_command command =
     (strip command \<noteq> [] \<and> (case shlex_split command of
        None \<Rightarrow> False | Some [] \<Rightarrow> False
      | Some (w # _) \<Rightarrow> lower (path_name w) = ''pytest''))"

definition touched_tests :: "string list \<Rightarrow> string list" where
  "touched_tests files = sorted_set (map (replace_char (CHR 0x5C) CHR ''/'')
     (filter (\<lambda>f. f \<noteq> [] \<and> \<not> starts_with f ''.voly/'' \<and>
        re_test TEST_FILE_RE (replace_char (CHR 0x5C) CHR ''/'' f)) files))"

definition scope_pytest_command :: "string \<Rightarrow> string list \<Rightarrow> string" where
  "scope_pytest_command command files =
     (if command = [] \<or> files = [] \<or> \<not> is_pytest_command command then command
      else case shlex_split command of
        None \<Rightarrow> command
      | Some parts \<Rightarrow>
          if list_ex (\<lambda>a. \<not> starts_with a ''-'') (tl parts) then command
          else if touched_tests files = [] then command
          else join '' '' (parts @ take 24 (touched_tests files)))"

definition prefer_venv_pytest :: "(string \<Rightarrow> bool) \<Rightarrow> string \<Rightarrow> string \<Rightarrow> string" where
  "prefer_venv_pytest is_file command cwd =
     (if command = [] \<or> cwd = [] then command
      else case filter (\<lambda>w. w \<noteq> []) (split_on CHR '' '' (map (\<lambda>c. if is_space c then CHR '' '' else c) command)) of
        [] \<Rightarrow> command
      | w # ws \<Rightarrow>
          if w \<noteq> ''pytest'' then command
          else if \<not> is_file (cwd @ ''/.venv/bin/pytest'') then command
          else join '' '' (''.venv/bin/pytest'' # ws))"

section \<open>Suggested commands\<close>

record project_profile =
  prof_languages :: "string list"
  prof_test_frameworks :: "string list"
  prof_package_managers :: "string list"
  prof_linter_tools :: "string list"

definition suggest_test_command :: "project_profile option \<Rightarrow> string" where
  "suggest_test_command prof = (case prof of None \<Rightarrow> [] | Some p \<Rightarrow>
     (let fw = map lower (prof_test_frameworks p); langs = map lower (prof_languages p);
          pms = map lower (prof_package_managers p)
      in if list_ex (\<lambda>t. has_sub t ''pytest'') fw \<or> ''python'' \<in> set langs then ''pytest -q''
         else if list_ex (\<lambda>t. t \<in> {''jest'', ''vitest'', ''mocha''}) fw \<or> ''npm'' \<in> set pms \<or> ''pnpm'' \<in> set pms
           then (if ''pnpm'' \<in> set pms then ''pnpm test''
                 else if ''yarn'' \<in> set pms then ''yarn test''
                 else ''npm test -- --watchAll=false'')
         else if ''cargo'' \<in> set pms \<or> ''rust'' \<in> set langs then ''cargo test''
         else if ''go'' \<in> set langs then ''go test ./...''
         else if ''dotnet'' \<in> set pms \<or> ''csharp'' \<in> set langs then ''dotnet test''
         else if ''maven'' \<in> set pms \<or> ''java'' \<in> set langs then ''mvn test -q''
         else []))"

definition suggest_lint_command :: "project_profile option \<Rightarrow> string" where
  "suggest_lint_command prof = (case prof of None \<Rightarrow> [] | Some p \<Rightarrow>
     (let linters = map lower (prof_linter_tools p); langs = map lower (prof_languages p)
      in if list_ex (\<lambda>x. has_sub x ''ruff'') linters \<or> ''python'' \<in> set langs then ''ruff check .''
         else if list_ex (\<lambda>x. has_sub x ''eslint'') linters then ''npx eslint .''
         else if ''rust'' \<in> set langs then ''cargo clippy -- -D warnings''
         else []))"

section \<open>What scoping does\<close>

text \<open>
  Scoping only appends: the command is unchanged, or it was a bare \<^verbatim>\<open>pytest\<close> run and gets between
  one and 24 of the touched test files.
\<close>

lemma scope_pytest_cases:
  obtains "scope_pytest_command command files = command"
  | parts where "shlex_split command = Some parts" "is_pytest_command command"
      "list_all (\<lambda>a. starts_with a ''-'') (tl parts)" "touched_tests files \<noteq> []"
      "scope_pytest_command command files = join '' '' (parts @ take 24 (touched_tests files))"
proof (cases "scope_pytest_command command files = command")
  case False
  then obtain parts where "shlex_split command = Some parts" "is_pytest_command command"
      "\<not> list_ex (\<lambda>a. \<not> starts_with a ''-'') (tl parts)" "touched_tests files \<noteq> []"
    by (auto simp: scope_pytest_command_def split: if_splits option.splits)
  moreover have "command \<noteq> [] \<and> files \<noteq> []" using False by (auto simp: scope_pytest_command_def)
  ultimately show ?thesis
    by (intro that(2)) (auto simp: scope_pytest_command_def list_ex_iff list_all_iff)
qed

text \<open>With names that need no quoting the scoped run is the bare run on those files.\<close>

lemma scope_pytest_argv:
  assumes "shlex_split command = Some parts" "\<forall>w \<in> set parts. plain_word w"
    and "is_pytest_command command" "list_all (\<lambda>a. starts_with a ''-'') (tl parts)"
    and "\<forall>f \<in> set (touched_tests files). plain_word f"
  shows "shlex_split (scope_pytest_command command files)
    = Some (parts @ take 24 (touched_tests files))"
proof (cases "touched_tests files = []")
  case True
  then show ?thesis using assms(1,4) by (auto simp: scope_pytest_command_def list_ex_iff list_all_iff)
next
  case False
  then have "files \<noteq> []" by (auto simp: touched_tests_def sorted_set_def)
  moreover have "command \<noteq> []" using assms(3) by (auto simp: is_pytest_command_def strip_def)
  ultimately have "scope_pytest_command command files = join '' '' (parts @ take 24 (touched_tests files))"
    using assms(1,3,4) False by (auto simp: scope_pytest_command_def list_ex_iff list_all_iff)
  moreover have "\<forall>w \<in> set (parts @ take 24 (touched_tests files)). plain_word w"
    using assms(2,5) by (auto dest: in_set_takeD)
  ultimately show ?thesis by (simp only: shlex_split_join)
qed

text \<open>
  Outside those names it is not: the words are joined without quoting, so a test file whose
  name has a blank becomes two arguments.
\<close>

lemma scope_pytest_splits_names:
  "shlex_split (scope_pytest_command ''pytest -q'' [''test_a b.py'']) = Some [''pytest'', ''-q'', ''test_a'', ''b.py'']"
  by code_simp

end
