(* ===== verification/Verify_Git.thy ===== *)
theory Verify_Git
  imports Plan_Suggest
begin

text \<open>
  \<^verbatim>\<open>src/voly/plan/verify_git.py\<close> and \<^verbatim>\<open>verify_types.py\<close>: the evidence of a verification and where
  it comes from.  The world outside the process (file system, \<^verbatim>\<open>git\<close>, child processes, regular
  expressions that a plan supplies, \<^verbatim>\<open>repr\<close>) is the record \<open>verify_env\<close>.
\<close>

datatype run_outcome =
    Exited int string string
  | ExecutableNotFound string
  | TimedOut
  | RunOsError string

record verify_env =
  ve_resolve :: "string \<Rightarrow> string"
  ve_exists :: "string \<Rightarrow> bool"
  ve_is_file :: "string \<Rightarrow> bool"
  ve_is_dir :: "string \<Rightarrow> bool"
  ve_read :: "string \<Rightarrow> string + string"
  ve_git_status :: "string \<Rightarrow> string option"
  ve_run :: "string list \<Rightarrow> string \<Rightarrow> rat \<Rightarrow> run_outcome"
  ve_regex :: "bool \<Rightarrow> string \<Rightarrow> string + (string \<Rightarrow> bool)"
  ve_repr :: "json \<Rightarrow> string"
  ve_shlex_error :: "string \<Rightarrow> string"

record verify_result =
  vr_type :: string
  vr_ok :: bool
  vr_message :: string
  vr_detail :: "(string \<times> json) list"

definition result_to_dict :: "verify_result \<Rightarrow> json" where
  "result_to_dict r = JObj [(''type'', JStr (vr_type r)), (''ok'', JBool (vr_ok r)),
     (''message'', JStr (vr_message r)), (''detail'', JObj (vr_detail r))]"

record verify_ctx =
  vc_cwd :: string
  vc_output :: string
  vc_files_touched :: "string list"
  vc_git_before :: "(string \<times> string) list"
  vc_git_after :: "(string \<times> string) list"
  vc_command_timeout :: rat
  vc_approved_limit :: int
  vc_scope_pytest :: bool

definition DEFAULT_COMMAND_TIMEOUT :: rat where "DEFAULT_COMMAND_TIMEOUT = 60"

definition empty_ctx :: verify_ctx where
  "empty_ctx = \<lparr>vc_cwd = [], vc_output = [], vc_files_touched = [], vc_git_before = [],
     vc_git_after = [], vc_command_timeout = DEFAULT_COMMAND_TIMEOUT, vc_approved_limit = 0,
     vc_scope_pytest = True\<rparr>"

section \<open>Paths\<close>

text \<open>\<^verbatim>\<open>target.relative_to(base)\<close> succeeds: both are resolved absolute POSIX paths.\<close>

definition path_under :: "string \<Rightarrow> string \<Rightarrow> bool" where
  "path_under base target \<longleftrightarrow> target = base \<or> base = ''/'' \<or> starts_with target (base @ ''/'')"

definition safe_join :: "verify_env \<Rightarrow> string \<Rightarrow> string \<Rightarrow> string + string" where
  "safe_join E cwd rel =
     (if cwd = [] then Inl ''cwd is required for path-based checks''
      else let base = ve_resolve E cwd;
               target = (if starts_with rel ''/'' then ve_resolve E rel else ve_resolve E (base @ ''/'' @ rel))
           in if path_under base target then Inr target
              else Inl (''path escapes cwd: '' @ ve_repr E (JStr rel)))"

lemma safe_join_jail: "safe_join E cwd rel = Inr target \<Longrightarrow> path_under (ve_resolve E cwd) target"
  by (auto simp: safe_join_def Let_def split: if_splits)

section \<open>Porcelain snapshots\<close>

text \<open>\<^verbatim>\<open>path.split(" -> ")[-1]\<close>: \<open>piece\<close> is the text from the start of the current piece.\<close>

function last_piece :: "string \<Rightarrow> string \<Rightarrow> string" where
  "last_piece piece [] = piece"
| "last_piece piece (c # cs) =
     (if starts_with (c # cs) '' -> '' then last_piece (drop 3 cs) (drop 3 cs) else last_piece piece cs)"
  by pat_completeness auto
termination by (relation "measure (\<lambda>(piece, s). length s)") auto

definition porcelain_entry :: "string \<Rightarrow> (string \<times> string) option" where
  "porcelain_entry line =
     (if length line < 4 then None
      else let path = strip (drop 3 line)
           in Some (last_piece path path, str_or (strip (take 2 line)) ''?''))"

definition parse_porcelain :: "string \<Rightarrow> (string \<times> string) list" where
  "parse_porcelain out = fold (\<lambda>line d. case porcelain_entry line of
     None \<Rightarrow> d | Some (p, st) \<Rightarrow> dict_set p st d) (splitlines out) []"

definition git_porcelain :: "verify_env \<Rightarrow> string \<Rightarrow> (string \<times> string) list" where
  "git_porcelain E cwd =
     (if cwd = [] \<or> \<not> ve_is_dir E cwd then []
      else case ve_git_status E cwd of None \<Rightarrow> [] | Some out \<Rightarrow> parse_porcelain out)"

lemma porcelain_distinct: "distinct (map fst (parse_porcelain out))"
proof -
  have "distinct (map fst d) \<Longrightarrow> distinct (map fst (fold (\<lambda>line d. case porcelain_entry line of
     None \<Rightarrow> d | Some (p, st) \<Rightarrow> dict_set p st d) ls d))" for ls d
    by (induction ls arbitrary: d) (auto simp: dict_set_distinct split: option.splits)
  then show ?thesis by (simp add: parse_porcelain_def)
qed

text \<open>No entry of a snapshot has an empty status, which is what \<^verbatim>\<open>git_before.get(p, "")\<close> means by absent.\<close>

lemma porcelain_status_nonempty: "dict_get (parse_porcelain out) p = Some st \<Longrightarrow> st \<noteq> []"
proof -
  have step: "(\<forall>p st. dict_get d p = Some st \<longrightarrow> st \<noteq> []) \<Longrightarrow>
      dict_get (fold (\<lambda>line d. case porcelain_entry line of
        None \<Rightarrow> d | Some (p, st) \<Rightarrow> dict_set p st d) ls d) p = Some st \<Longrightarrow> st \<noteq> []" for ls d p st
  proof (induction ls arbitrary: d)
    case (Cons l ls)
    show ?case
    proof (cases "porcelain_entry l")
      case (Some e)
      then have "snd e \<noteq> []"
        by (auto simp: porcelain_entry_def Let_def str_or_nonempty split: if_splits)
      then have "\<forall>p st. dict_get (dict_set (fst e) (snd e) d) p = Some st \<longrightarrow> st \<noteq> []"
        using Cons.prems(1) by (simp add: dict_get_set)
      from Cons.IH [OF this] show ?thesis using Cons.prems(2) Some by (simp add: case_prod_beta)
    qed (use Cons in auto)
  qed auto
  show "dict_get (parse_porcelain out) p = Some st \<Longrightarrow> st \<noteq> []"
    using step [of "[]" "splitlines out" p st] by (simp add: parse_porcelain_def dict_get_def)
qed

section \<open>Fingerprints and changed paths\<close>

text \<open>\<open>fp\<close> is \<^verbatim>\<open>path_fingerprint(cwd, rel)\<close> (a hash of size, time and bytes; empty on an error).\<close>

definition untracked_or_added :: "string \<Rightarrow> bool" where
  "untracked_or_added st \<longleftrightarrow> CHR ''?'' \<in> set st \<or> CHR ''A'' \<in> set st"

definition fingerprint_untracked ::
  "(string \<Rightarrow> string) \<Rightarrow> (string \<times> string) list \<Rightarrow> (string \<times> string) list" where
  "fingerprint_untracked fp porcelain =
     filter (\<lambda>(_, f). f \<noteq> []) (map (\<lambda>(rel, _). (rel, fp rel))
       (filter (\<lambda>(_, st). untracked_or_added st) porcelain))"

definition status_changed :: "(string \<times> string) list \<Rightarrow> (string \<times> string) list \<Rightarrow> string \<Rightarrow> bool" where
  "status_changed before after p \<longleftrightarrow> dict_get before p \<noteq> dict_get after p"

definition content_changed ::
  "(string \<times> string) list \<Rightarrow> (string \<times> string) list \<Rightarrow> (string \<times> string) list \<Rightarrow> (string \<times> string) list
     \<Rightarrow> string \<Rightarrow> bool" where
  "content_changed before after fb fa p =
     (let before_st = (case dict_get before p of Some s \<Rightarrow> s | None \<Rightarrow> []);
          after_st = (case dict_get after p of Some s \<Rightarrow> s | None \<Rightarrow> [])
      in if before_st \<noteq> [] \<and> after_st \<noteq> [] \<and> before_st = after_st
         then untracked_or_added after_st \<and> dict_get fb p \<noteq> dict_get fa p
         else dict_get fa p \<noteq> None \<and> dict_get fb p = None \<and> untracked_or_added after_st)"

text \<open>The set of changed paths, as the sorted list its readers use.\<close>

definition changed_paths_fp ::
  "(string \<times> string) list \<Rightarrow> (string \<times> string) list \<Rightarrow>
   ((string \<times> string) list \<times> (string \<times> string) list) option \<Rightarrow> string list" where
  "changed_paths_fp before after fps =
     (let out = filter (status_changed before after) (map fst before @ map fst after)
      in sorted_set (case fps of
           None \<Rightarrow> out
         | Some (fb, fa) \<Rightarrow> out @ filter (\<lambda>p. p \<notin> set out \<and> content_changed before after fb fa p)
                                   (map fst fb @ map fst fa)))"

definition changed_paths :: "(string \<times> string) list \<Rightarrow> (string \<times> string) list \<Rightarrow> string list" where
  "changed_paths before after = changed_paths_fp before after None"

lemma dict_get_None: "dict_get d p = None \<longleftrightarrow> p \<notin> set (map fst d)"
  by (simp add: dict_get_def map_of_eq_None_iff)

lemma changed_paths_iff: "p \<in> set (changed_paths before after) \<longleftrightarrow> dict_get before p \<noteq> dict_get after p"
proof -
  have "p \<in> set (map fst before) \<or> p \<in> set (map fst after)" if "dict_get before p \<noteq> dict_get after p"
    using that dict_get_None by metis
  then show ?thesis by (auto simp: changed_paths_def changed_paths_fp_def status_changed_def)
qed

text \<open>
  With fingerprints a path that stays untracked or added counts as changed exactly when its
  content did.
\<close>

lemma changed_paths_fp_untracked:
  assumes "dict_get before p = Some st" "dict_get after p = Some st" "st \<noteq> []" "untracked_or_added st"
  shows "p \<in> set (changed_paths_fp before after (Some (fb, fa))) \<longleftrightarrow> dict_get fb p \<noteq> dict_get fa p"
proof -
  have "p \<in> set (map fst fb) \<or> p \<in> set (map fst fa)" if "dict_get fb p \<noteq> dict_get fa p"
    using that dict_get_None by metis
  then show ?thesis using assms
    by (auto simp: changed_paths_fp_def Let_def status_changed_def content_changed_def)
qed

end
