(* ===== verification/Plan_Codec.thy ===== *)
theory Plan_Codec
  imports Plan_Types
begin

text \<open>
  \<^verbatim>\<open>to_dict\<close>/\<^verbatim>\<open>from_dict\<close> of \<^verbatim>\<open>src/voly/plan/types.py\<close> and \<^verbatim>\<open>src/voly/plan/loader.py\<close>: the JSON form
  of checks, steps and plans, and which values survive a round trip.  \<open>B\<close> are Python's
  \<^verbatim>\<open>str\<close>/\<^verbatim>\<open>int\<close>/\<^verbatim>\<open>float\<close>; \<open>crit\<close> is \<^verbatim>\<open>compile_success_criteria\<close> (a regex heuristic of
  \<^verbatim>\<open>plan/criteria.py\<close> that is not modelled; \<open>None\<close> when it raises).
\<close>

section \<open>Reading fields\<close>

definition jfield :: "py_builtins \<Rightarrow> (string \<times> json) list \<Rightarrow> string \<Rightarrow> string \<Rightarrow> string" where
  "jfield B d k dflt = py_str B (jor (jget d k) (JStr dflt))"

text \<open>Iterating over \<^verbatim>\<open>d.get(k) or []\<close>.\<close>

definition jseq :: "json \<Rightarrow> plan_error + json list" where
  "jseq v = (if \<not> truthy v then Inr [] else case v of
       JList xs \<Rightarrow> Inr xs
     | JStr s \<Rightarrow> Inr (map (\<lambda>c. JStr [c]) s)
     | JObj kvs \<Rightarrow> Inr (map (\<lambda>kv. JStr (fst kv)) kvs)
     | _ \<Rightarrow> Inl (Raised PyTypeError))"

definition jstrs :: "py_builtins \<Rightarrow> (string \<times> json) list \<Rightarrow> string \<Rightarrow> plan_error + string list" where
  "jstrs B d k = map_sum id (map (py_str B)) (jseq (jget d k))"

definition jint :: "py_builtins \<Rightarrow> json \<Rightarrow> plan_error + int" where
  "jint B v = map_sum Raised id (py_int B v)"

definition jfloat :: "py_builtins \<Rightarrow> json \<Rightarrow> plan_error + rat" where
  "jfloat B v = map_sum Raised id (py_float B v)"

definition bind_err :: "'e + 'a \<Rightarrow> ('a \<Rightarrow> 'e + 'b) \<Rightarrow> 'e + 'b" where
  "bind_err m f = (case m of Inl e \<Rightarrow> Inl e | Inr x \<Rightarrow> f x)"

lemma bind_err_simps [simp]: "bind_err (Inl e) f = Inl e" "bind_err (Inr x) f = f x"
  by (simp_all add: bind_err_def)

section \<open>Acceptance checks\<close>

definition check_to_dict :: "acceptance_check \<Rightarrow> (string \<times> json) list" where
  "check_to_dict c =
     [(''type'', JStr (check_type c))] @
     (if paths c \<noteq> [] then [(''paths'', JList (map JStr (paths c)))] else []) @
     (if run_cmd c \<noteq> [] then [(''run'', JStr (run_cmd c)), (''expect_exit'', JInt (expect_exit c))] else []) @
     (if pattern c \<noteq> [] then [(''pattern'', JStr (pattern c))] else []) @
     (if max_lines c > 0 then [(''max_lines'', JInt (max_lines c))] else []) @
     (if approved_max_lines c > 0 then [(''approved_max_lines'', JInt (approved_max_lines c))] else []) @
     (if exclude_patterns c \<noteq> [] then [(''exclude_patterns'', JList (map JStr (exclude_patterns c)))] else [])"

definition check_from_dict :: "py_builtins \<Rightarrow> json \<Rightarrow> plan_error + acceptance_check" where
  "check_from_dict B v = (case v of
     JObj d \<Rightarrow>
       if \<not> truthy (jget d ''type'') then Inl (PlanValidationError InvalidAcceptanceCheck)
       else bind_err (jstrs B d ''paths'') (\<lambda>ps.
            bind_err (jint B (jget_default d ''expect_exit'' (JInt 0))) (\<lambda>ee.
            bind_err (jint B (jget_default d ''max_lines'' (JInt 0))) (\<lambda>ml.
            bind_err (jint B (jget_default d ''approved_max_lines'' (JInt 0))) (\<lambda>aml.
            bind_err (jstrs B d ''exclude_patterns'') (\<lambda>ex.
              Inr \<lparr>check_type = py_str B (jget d ''type''), paths = ps, run_cmd = jfield B d ''run'' [],
                   expect_exit = ee, pattern = jfield B d ''pattern'' [], max_lines = ml,
                   approved_max_lines = aml, exclude_patterns = ex\<rparr>)))))
   | _ \<Rightarrow> Inl (PlanValidationError InvalidAcceptanceCheck))"

section \<open>Steps\<close>

definition step_to_dict :: "plan_step \<Rightarrow> (string \<times> json) list" where
  "step_to_dict s =
     [(''id'', JStr (step_id s)), (''role'', JStr (step_role s)), (''mode'', JStr (step_mode s)),
      (''status'', JStr (step_status s)), (''depends_on'', JList (map JStr (depends_on s))),
      (''acceptance'', JList (map (\<lambda>c. JObj (check_to_dict c)) (acceptance s))),
      (''task'', JStr (step_task s)), (''success_criteria'', JStr (success_criteria s)),
      (''error'', JStr (step_error s)), (''output'', JStr (step_output s)),
      (''verify_log'', JList (verify_log s)), (''files_touched'', JList (map JStr (files_touched s))),
      (''executor'', JStr (step_executor s)), (''model'', JStr (step_model s)),
      (''provider'', JStr (step_provider s)), (''tier'', JStr (step_tier s)),
      (''cost_usd'', JFloat (cost_usd s)), (''duration_ms'', JFloat (duration_ms s)),
      (''started_at'', JFloat (started_at s))]"

definition step_from_dict ::
  "py_builtins \<Rightarrow> (string \<Rightarrow> acceptance_check list option) \<Rightarrow> json \<Rightarrow> plan_error + plan_step" where
  "step_from_dict B crit v = (case v of
     JObj d \<Rightarrow>
       if \<not> truthy (jget d ''id'') then Inl (PlanValidationError InvalidPlanStep)
       else (case jor (jget d ''acceptance'') (JList []) of
         JList raw \<Rightarrow>
           (let task = jor (jor (jor (jget d ''task'') (jget d ''description'')) (jget d ''prompt'')) (JStr []);
                criteria = py_str B (jor (jor (jor (jget d ''success_criteria'') (jget d ''criteria''))
                             (jget d ''acceptance_criteria'')) (JStr []))
            in bind_err (try_map (check_from_dict B) raw) (\<lambda>checks.
               let acc = (if checks = [] \<and> strip criteria \<noteq> []
                          then (case crit criteria of Some cs \<Rightarrow> cs | None \<Rightarrow> []) else checks)
               in bind_err (jstrs B d ''depends_on'') (\<lambda>deps.
                  bind_err (jseq (jget d ''verify_log'')) (\<lambda>vlog.
                  bind_err (jstrs B d ''files_touched'') (\<lambda>files.
                  bind_err (jfloat B (jor (jget d ''cost_usd'') (JFloat 0))) (\<lambda>cost.
                  bind_err (jfloat B (jor (jget d ''duration_ms'') (JFloat 0))) (\<lambda>dur.
                  bind_err (jfloat B (jor (jget d ''started_at'') (JFloat 0))) (\<lambda>started.
                    Inr \<lparr>step_id = py_str B (jget d ''id''), step_role = jfield B d ''role'' ''developer'',
                         step_mode = jfield B d ''mode'' MODE_CHAT,
                         step_status = jfield B d ''status'' PENDING, depends_on = deps,
                         acceptance = acc, step_task = py_str B task, success_criteria = criteria,
                         step_error = jfield B d ''error'' [], step_output = jfield B d ''output'' [],
                         verify_log = vlog, files_touched = files,
                         step_executor = jfield B d ''executor'' [], step_model = jfield B d ''model'' [],
                         step_provider = jfield B d ''provider'' [], step_tier = jfield B d ''tier'' [],
                         cost_usd = cost, duration_ms = dur, started_at = started\<rparr>))))))))
       | _ \<Rightarrow> Inl (PlanValidationError (AcceptanceNotAList (py_str B (jget d ''id'')))))
   | _ \<Rightarrow> Inl (PlanValidationError InvalidPlanStep))"

section \<open>Plans\<close>

definition plan_to_dict :: "plan \<Rightarrow> (string \<times> json) list" where
  "plan_to_dict p =
     [(''schema_version'', JInt (schema_version p)), (''plan_id'', JStr (plan_id p)),
      (''task_id'', JStr (task_id p)), (''cwd'', JStr (plan_cwd p)), (''status'', JStr (plan_status p)),
      (''task'', JStr (plan_task p)), (''created_at'', JFloat (created_at p)),
      (''updated_at'', JFloat (updated_at p)), (''error'', JStr (plan_err p)),
      (''metadata'', JObj (metadata p)),
      (''steps'', JList (map (\<lambda>s. JObj (step_to_dict s)) (steps p)))]"

definition jdict :: "py_builtins \<Rightarrow> json \<Rightarrow> plan_error + (string \<times> json) list" where
  "jdict B v = (if truthy v then map_sum Raised id (py_dict B v) else Inr [])"

definition plan_from_dict ::
  "py_builtins \<Rightarrow> (string \<Rightarrow> acceptance_check list option) \<Rightarrow> json \<Rightarrow> plan_error + plan" where
  "plan_from_dict B crit v = (case v of
     JObj d \<Rightarrow>
       if \<not> truthy (jget d ''plan_id'') then Inl (PlanValidationError MissingPlanId)
       else (case jor (jget d ''steps'') (JList []) of
         JList raw \<Rightarrow>
           bind_err (jint B (jor (jget d ''schema_version'') (JInt SCHEMA_VERSION))) (\<lambda>ver.
           bind_err (try_map (step_from_dict B crit) raw) (\<lambda>ss.
           bind_err (jfloat B (jor (jget d ''created_at'') (JFloat 0))) (\<lambda>created.
           bind_err (jfloat B (jor (jget d ''updated_at'') (JFloat 0))) (\<lambda>updated.
           bind_err (jdict B (jget d ''metadata'')) (\<lambda>meta.
             Inr \<lparr>plan_id = py_str B (jget d ''plan_id''), task_id = jfield B d ''task_id'' [],
                  plan_cwd = jfield B d ''cwd'' [], plan_status = jfield B d ''status'' PLAN_PENDING,
                  schema_version = ver, steps = ss, plan_task = jfield B d ''task'' [],
                  created_at = created, updated_at = updated, plan_err = jfield B d ''error'' [],
                  metadata = meta\<rparr>)))))
       | _ \<Rightarrow> Inl (PlanValidationError StepsNotAList))
   | _ \<Rightarrow> Inl (PlanValidationError MissingPlanId))"

section \<open>The loader\<close>

definition reset_step :: "plan_step \<Rightarrow> plan_step" where
  "reset_step s = s\<lparr>step_status := ''pending'', step_error := [], verify_log := []\<rparr>"

definition load_plan_dict ::
  "py_builtins \<Rightarrow> (string \<Rightarrow> acceptance_check list option) \<Rightarrow> json \<Rightarrow> string \<Rightarrow> plan_error + plan" where
  "load_plan_dict B crit v default_cwd = (case v of
     JObj d \<Rightarrow>
       bind_err (plan_from_dict B crit v) (\<lambda>p.
         let p1 = (if default_cwd \<noteq> [] \<and> plan_cwd p = [] then p\<lparr>plan_cwd := default_cwd\<rparr> else p)
         in Inr (if truthy (jget d ''keep_status'') then p1
                 else p1\<lparr>steps := map reset_step (steps p1)\<rparr>))
   | _ \<Rightarrow> Inl (PlanValidationError PlanDocumentNotAMapping))"

text \<open>\<^verbatim>\<open>_verify_ok\<close>: \<^verbatim>\<open>None\<close> without a log; an entry that is not a dictionary has no \<^verbatim>\<open>get\<close>.\<close>

fun all_entries_ok :: "json list \<Rightarrow> plan_error + bool" where
  "all_entries_ok [] = Inr True"
| "all_entries_ok (JObj d # es) = (if truthy (jget d ''ok'') then all_entries_ok es else Inr False)"
| "all_entries_ok (_ # es) = Inl (Raised PyAttributeError)"

definition verify_ok :: "plan_step \<Rightarrow> plan_error + json" where
  "verify_ok s = (if verify_log s = [] then Inr JNull else map_sum id JBool (all_entries_ok (verify_log s)))"

definition summary_row :: "plan_step \<Rightarrow> plan_error + json" where
  "summary_row s = map_sum id (\<lambda>ok. JObj
     [(''id'', JStr (step_id s)), (''role'', JStr (step_role s)), (''mode'', JStr (step_mode s)),
      (''status'', JStr (step_status s)), (''depends_on'', JList (map JStr (depends_on s))),
      (''error'', JStr (take 200 (step_error s))), (''verify_ok'', ok)]) (verify_ok s)"

definition plan_summary :: "plan \<Rightarrow> plan_error + json" where
  "plan_summary p = map_sum id (\<lambda>rows. JObj
     [(''plan_id'', JStr (plan_id p)), (''status'', JStr (plan_status p)), (''cwd'', JStr (plan_cwd p)),
      (''steps'', JList rows),
      (''verified'', JInt (int (length (filter (\<lambda>s. step_status s = ''verified'') (steps p))))),
      (''failed'', JInt (int (length (filter (\<lambda>s. step_status s = ''failed'') (steps p))))),
      (''total'', JInt (int (length (steps p))))]) (try_map summary_row (steps p))"

section \<open>What survives a round trip\<close>

definition check_storable :: "acceptance_check \<Rightarrow> bool" where
  "check_storable c \<longleftrightarrow> check_type c \<noteq> [] \<and> (run_cmd c = [] \<longrightarrow> expect_exit c = 0) \<and>
     max_lines c \<ge> 0 \<and> approved_max_lines c \<ge> 0"

definition step_storable :: "(string \<Rightarrow> acceptance_check list option) \<Rightarrow> plan_step \<Rightarrow> bool" where
  "step_storable crit s \<longleftrightarrow> step_id s \<noteq> [] \<and> step_role s \<noteq> [] \<and> step_mode s \<noteq> [] \<and>
     step_status s \<noteq> [] \<and> (\<forall>c \<in> set (acceptance s). check_storable c) \<and>
     (acceptance s = [] \<and> strip (success_criteria s) \<noteq> [] \<longrightarrow>
        crit (success_criteria s) \<in> {None, Some []})"

definition plan_storable :: "(string \<Rightarrow> acceptance_check list option) \<Rightarrow> plan \<Rightarrow> bool" where
  "plan_storable crit p \<longleftrightarrow> plan_id p \<noteq> [] \<and> plan_status p \<noteq> [] \<and> schema_version p \<noteq> 0 \<and>
     (\<forall>s \<in> set (steps p). step_storable crit s)"

lemma jseq_strs [simp]: "py_builtins_ok B \<Longrightarrow> map_sum id (map (py_str B)) (jseq (JList (map JStr xs))) = Inr xs"
  by (auto simp: jseq_def comp_def)

lemma map_py_str [simp]: "py_builtins_ok B \<Longrightarrow> map (py_str B \<circ> JStr) xs = xs"
  by (induction xs) auto

lemma jseq_list [simp]: "jseq (JList xs) = Inr xs"
  by (simp add: jseq_def)

lemma jor_str [simp]: "py_builtins_ok B \<Longrightarrow> py_str B (jor (JStr s) (JStr t)) = str_or s t"
  by (simp add: jor_def str_or_def)

lemma jfloat_zero [simp]: "py_builtins_ok B \<Longrightarrow> jfloat B (jor (JFloat r) (JFloat 0)) = Inr r"
  by (simp add: jor_def jfloat_def)

lemma jseq_null [simp]: "jseq JNull = Inr []"
  by (simp add: jseq_def)

lemma jdict_obj [simp]: "py_builtins_ok B \<Longrightarrow> jdict B (JObj kvs) = Inr kvs"
  by (simp add: jdict_def)

lemma jget_Cons: "jget ((k, v) # d) k' = (if k' = k then v else jget d k')"
  by (simp add: jget_def)

lemma check_dict_fields:
  assumes "py_builtins_ok B"
  shows "jget (check_to_dict c) ''type'' = JStr (check_type c)"
    "jstrs B (check_to_dict c) ''paths'' = Inr (paths c)"
    "jstrs B (check_to_dict c) ''exclude_patterns'' = Inr (exclude_patterns c)"
    "jfield B (check_to_dict c) ''run'' [] = run_cmd c"
    "jfield B (check_to_dict c) ''pattern'' [] = pattern c"
    "jint B (jget_default (check_to_dict c) ''expect_exit'' (JInt 0))
       = Inr (if run_cmd c = [] then 0 else expect_exit c)"
    "jint B (jget_default (check_to_dict c) ''max_lines'' (JInt 0))
       = Inr (if max_lines c > 0 then max_lines c else 0)"
    "jint B (jget_default (check_to_dict c) ''approved_max_lines'' (JInt 0))
       = Inr (if approved_max_lines c > 0 then approved_max_lines c else 0)"
  using assms
  by (simp_all add: check_to_dict_def jget_def jget_default_def jstrs_def jfield_def jint_def jor_def)

text \<open>Exactly the storable checks survive: an exit code without a command and a negative bound are lost.\<close>

lemma check_roundtrip_iff:
  assumes B: "py_builtins_ok B"
  shows "check_from_dict B (JObj (check_to_dict c)) = Inr c \<longleftrightarrow> check_storable c"
  by (cases c) (auto simp: check_from_dict_def check_dict_fields [OF B] check_storable_def B)

lemma str_or_self [simp]: "str_or s [] = s"
  by (simp add: str_or_def)

lemma jor_chain [simp]: "jor (jor (jor (JStr s) JNull) JNull) (JStr []) = JStr s"
  by (simp add: jor_def)

lemma step_roundtrip:
  assumes B: "py_builtins_ok B" and ok: "step_storable crit s"
  shows "step_from_dict B crit (JObj (step_to_dict s)) = Inr s"
proof -
  have checks: "try_map (check_from_dict B) (map (\<lambda>c. JObj (check_to_dict c)) (acceptance s)) = Inr (acceptance s)"
    using ok check_roundtrip_iff [OF B]
    by (subst try_map_map_Inr [where h = id]) (auto simp: step_storable_def)
  have raw: "jor (JList (map (\<lambda>c. JObj (check_to_dict c)) (acceptance s))) (JList [])
      = JList (map (\<lambda>c. JObj (check_to_dict c)) (acceptance s))"
    by (simp add: jor_def)
  show ?thesis
    using B ok checks raw
    by (cases s) (auto simp: step_from_dict_def step_to_dict_def jget_Cons jget_def [of "[]"]
        step_storable_def jstrs_def jfield_def Let_def)
qed

lemma plan_roundtrip:
  assumes B: "py_builtins_ok B" and ok: "plan_storable crit p"
  shows "plan_from_dict B crit (JObj (plan_to_dict p)) = Inr p"
proof -
  have ss: "try_map (step_from_dict B crit) (map (\<lambda>s. JObj (step_to_dict s)) (steps p)) = Inr (steps p)"
    using ok step_roundtrip [OF B]
    by (subst try_map_map_Inr [where h = id]) (auto simp: plan_storable_def)
  have raw: "jor (JList (map (\<lambda>s. JObj (step_to_dict s)) (steps p))) (JList [])
      = JList (map (\<lambda>s. JObj (step_to_dict s)) (steps p))"
    by (simp add: jor_def)
  have ver: "jint B (jor (JInt (schema_version p)) (JInt SCHEMA_VERSION)) = Inr (schema_version p)"
    using B ok by (simp add: jor_def jint_def plan_storable_def)
  show ?thesis
    using B ok ss raw ver
    by (cases p) (auto simp: plan_from_dict_def plan_to_dict_def jget_Cons plan_storable_def jfield_def)
qed

end
