(* ===== verification/Dep_Graph.thy ===== *)
theory Dep_Graph
  imports Voly_Prelude
begin

text \<open>
  The dependency graphs of the plan engine (\<^verbatim>\<open>plan/engine.py\<close>) and of the multi-agent wave
  scheduler (\<^verbatim>\<open>a2a/waves.py\<close>): what it means for an execution order to respect dependencies,
  and the interface \<open>dep_graph\<close> that both interpret.
\<close>

definition deps_first :: "('n \<Rightarrow> 'n list) \<Rightarrow> 'n list \<Rightarrow> bool" where
  "deps_first deps seq \<longleftrightarrow>
     (\<forall>k < length seq. set (deps (seq ! k)) \<subseteq> set (take k seq))"

definition dep_edges :: "'n list \<Rightarrow> ('n \<Rightarrow> 'n list) \<Rightarrow> ('n \<times> 'n) set" where
  "dep_edges nodes deps = {(d, x). x \<in> set nodes \<and> d \<in> set (deps x)}"

lemma deps_first_Nil [simp]: "deps_first deps []"
  by (simp add: deps_first_def)

lemma deps_first_snoc [simp]:
  "deps_first deps (seq @ [x]) \<longleftrightarrow> deps_first deps seq \<and> set (deps x) \<subseteq> set seq"
  by (auto simp: deps_first_def nth_append less_Suc_eq)

lemma deps_first_append:
  assumes "deps_first deps seq" "\<And>x. x \<in> set w \<Longrightarrow> set (deps x) \<subseteq> set seq"
  shows "deps_first deps (seq @ w)"
  using assms(2)
proof (induction w rule: rev_induct)
  case Nil
  then show ?case using assms(1) by simp
next
  case (snoc x w)
  then have "deps_first deps (seq @ w)" and "set (deps x) \<subseteq> set seq" by auto
  then show ?case by (subst append_assoc [symmetric]) (simp only: deps_first_snoc, auto)
qed

lemma deps_first_dep_before:
  assumes "deps_first deps seq" "i < length seq" "d \<in> set (deps (seq ! i))"
  shows "\<exists>j < i. seq ! j = d"
  using assms by (fastforce simp: deps_first_def in_set_conv_nth)

lemma deps_first_acyclic:
  assumes "distinct seq" "deps_first deps seq"
  shows "acyclic (dep_edges seq deps)"
proof -
  define idx where "idx x = (LEAST k. k < length seq \<and> seq ! k = x)" for x
  have idx: "idx (seq ! k) = k" if "k < length seq" for k
    unfolding idx_def using that assms(1)
    by (intro Least_equality) (auto simp: nth_eq_iff_index_eq)
  have "dep_edges seq deps \<subseteq> measure idx"
  proof (clarsimp simp: dep_edges_def)
    fix d x assume "x \<in> set seq" "d \<in> set (deps x)"
    then obtain k where k: "k < length seq" "seq ! k = x" by (auto simp: in_set_conv_nth)
    then obtain j where "j < k" "seq ! j = d"
      using deps_first_dep_before [OF assms(2) k(1)] \<open>d \<in> set (deps x)\<close> by auto
    then show "idx d < idx x" using idx [of j] idx [of k] k by simp
  qed
  then show ?thesis by (meson acyclic_subset wf_acyclic wf_measure)
qed

section \<open>The interface\<close>

locale dep_graph =
  fixes nodes :: "'p \<Rightarrow> 'n list"
    and deps :: "'p \<Rightarrow> 'n \<Rightarrow> 'n list"
    and wf_graph :: "'p \<Rightarrow> bool"
  assumes distinct_nodes: "wf_graph p \<Longrightarrow> distinct (nodes p)"
    and deps_closed: "wf_graph p \<Longrightarrow> x \<in> set (nodes p) \<Longrightarrow> set (deps p x) \<subseteq> set (nodes p)"
begin

lemma finite_edges: "wf_graph p \<Longrightarrow> finite (dep_edges (nodes p) (deps p))"
  by (rule finite_subset [of _ "set (nodes p) \<times> set (nodes p)"])
    (use deps_closed in \<open>auto simp: dep_edges_def\<close>)

text \<open>A set of nodes that each wait for a member of the set is a cycle.\<close>

lemma waiting_set_cyclic:
  assumes "wf_graph p" "S \<subseteq> set (nodes p)" "S \<noteq> {}"
    and waits: "\<And>x. x \<in> S \<Longrightarrow> \<exists>d \<in> set (deps p x). d \<in> S"
  shows "\<not> acyclic (dep_edges (nodes p) (deps p))"
proof
  assume "acyclic (dep_edges (nodes p) (deps p))"
  then have "wf (dep_edges (nodes p) (deps p))"
    using finite_edges [OF assms(1)] finite_acyclic_wf by blast
  moreover obtain a where "a \<in> S" using assms(3) by blast
  ultimately obtain z where z: "z \<in> S" "\<And>y. (y, z) \<in> dep_edges (nodes p) (deps p) \<Longrightarrow> y \<notin> S"
    by (rule wfE_min) blast
  from waits [OF z(1)] obtain d where "d \<in> set (deps p z)" "d \<in> S" by blast
  then show False using z assms(2) by (auto simp: dep_edges_def)
qed

lemma complete_order_acyclic:
  assumes "distinct seq" "set seq = set (nodes p)" "deps_first (deps p) seq"
  shows "acyclic (dep_edges (nodes p) (deps p))"
proof -
  have "dep_edges (nodes p) (deps p) = dep_edges seq (deps p)"
    using assms(2) by (simp add: dep_edges_def)
  then show ?thesis using deps_first_acyclic [OF assms(1,3)] by simp
qed

text \<open>Some unfinished node has only finished dependencies: a scheduler is never stuck.\<close>

lemma some_ready:
  assumes "wf_graph p" "acyclic (dep_edges (nodes p) (deps p))" "x \<in> set (nodes p)" "\<not> fin x"
  shows "\<exists>y \<in> set (nodes p). \<not> fin y \<and> (\<forall>d \<in> set (deps p y). fin d)"
proof (rule ccontr)
  assume none: "\<not> ?thesis"
  let ?S = "{y \<in> set (nodes p). \<not> fin y}"
  have "\<exists>d \<in> set (deps p y). d \<in> ?S" if "y \<in> ?S" for y
    using none that deps_closed [OF assms(1)] by blast
  then have "\<not> acyclic (dep_edges (nodes p) (deps p))"
    using waiting_set_cyclic [OF assms(1), of ?S] assms(3,4) by blast
  then show False using assms(2) by blast
qed

end

end
