(* ===== verification/Plan_Topo.thy ===== *)
theory Plan_Topo
  imports Plan_Types Dep_Graph
begin

text \<open>
  \<^verbatim>\<open>PlanEngine.topo_order\<close> of \<^verbatim>\<open>src/voly/plan/engine.py\<close> (Kahn's algorithm over the step list)
  and its correctness: the order it returns contains every step once, with dependencies
  first, and it returns one exactly for acyclic plans.
\<close>

section \<open>Topological order\<close>

definition children_of :: "plan_step list \<Rightarrow> string \<Rightarrow> string list" where
  "children_of ss d =
     concat (map (\<lambda>s. map (\<lambda>_. step_id s) (filter (\<lambda>x. x = d) (depends_on s))) ss)"

definition indegree_of :: "plan_step list \<Rightarrow> string \<Rightarrow> int" where
  "indegree_of ss i = (\<Sum>s\<leftarrow>ss. if step_id s = i then int (length (depends_on s)) else 0)"

text \<open>The inner loop: decrement every child, append those that reach zero to the queue.\<close>

fun relax :: "string list \<Rightarrow> (string \<Rightarrow> int) \<Rightarrow> string list \<Rightarrow> (string \<Rightarrow> int) \<times> string list" where
  "relax [] ind q = (ind, q)"
| "relax (c # cs) ind q =
     (let ind' = ind(c := ind c - 1)
      in relax cs ind' (if ind' c = 0 then q @ [c] else q))"

lemma children_of_subset: "set (children_of ss d) \<subseteq> step_id ` set ss"
  by (auto simp: children_of_def)

lemma relax_measure:
  assumes "relax cs ind q = (ind', q')" "set cs \<subseteq> I" "finite I"
  shows "length q' + card {i \<in> I. ind' i > 0} \<le> length q + card {i \<in> I. ind i > 0}"
  using assms
proof (induction cs arbitrary: ind q)
  case Nil
  then show ?case by simp
next
  case (Cons c cs)
  define ind2 where "ind2 = ind(c := ind c - 1)"
  define q2 where "q2 = (if ind2 c = 0 then q @ [c] else q)"
  have eq: "relax cs ind2 q2 = (ind', q')"
    using Cons.prems(1) by (simp only: relax.simps Let_def ind2_def q2_def)
  have IH: "length q' + card {i \<in> I. ind' i > 0} \<le> length q2 + card {i \<in> I. ind2 i > 0}"
    by (rule Cons.IH [OF eq]) (use Cons.prems in simp_all)
  have sub: "{i \<in> I. ind2 i > 0} \<subseteq> {i \<in> I. ind i > 0}" by (auto simp: ind2_def)
  have "length q2 + card {i \<in> I. ind2 i > 0} \<le> length q + card {i \<in> I. ind i > 0}"
  proof (cases "ind2 c = 0")
    case True
    then have "c \<in> {i \<in> I. ind i > 0} - {i \<in> I. ind2 i > 0}"
      using Cons.prems by (auto simp: ind2_def)
    then have "{i \<in> I. ind2 i > 0} \<subset> {i \<in> I. ind i > 0}" using sub by blast
    then have "card {i \<in> I. ind2 i > 0} < card {i \<in> I. ind i > 0}"
      using Cons.prems(3) by (intro psubset_card_mono) auto
    then show ?thesis using True by (simp add: q2_def)
  next
    case False
    then show ?thesis using card_mono [OF _ sub] Cons.prems(3) by (simp add: q2_def)
  qed
  then show ?case using IH by linarith
qed

function kahn :: "plan_step list \<Rightarrow> string list \<Rightarrow> (string \<Rightarrow> int) \<Rightarrow> string list
    \<Rightarrow> string list \<times> (string \<Rightarrow> int)" where
  "kahn ss [] ind order = (order, ind)"
| "kahn ss (node # q) ind order =
     (case relax (children_of ss node) ind q of (ind', q') \<Rightarrow> kahn ss q' ind' (order @ [node]))"
  by pat_completeness auto
termination
proof (relation "measure (\<lambda>(ss, q, ind, order).
    length q + card {i \<in> step_id ` set ss. ind i > 0})", goal_cases)
  case 1
  then show ?case by simp
next
  case (2 ss node q ind order ind' q')
  then have "relax (children_of ss node) ind q = (ind', q')" by simp
  from relax_measure [OF this children_of_subset] show ?case by simp
qed

fun unknown_dep :: "string list \<Rightarrow> plan_step list \<Rightarrow> (string \<times> string) option" where
  "unknown_dep ids [] = None"
| "unknown_dep ids (s # ss) =
     (case find (\<lambda>d. d \<notin> set ids) (depends_on s) of
        Some d \<Rightarrow> Some (step_id s, d)
      | None \<Rightarrow> unknown_dep ids ss)"

definition topo_order :: "plan \<Rightarrow> plan_error + string list" where
  "topo_order p =
     (let ids = step_ids p; ind = indegree_of (steps p) in
      case unknown_dep ids (steps p) of
        Some (sid, d) \<Rightarrow> Inl (PlanValidationError (UnknownDependency sid d))
      | None \<Rightarrow>
          (case kahn (steps p) (filter (\<lambda>i. ind i = 0) ids) ind [] of (order, ind') \<Rightarrow>
             if length order \<noteq> length ids
             then Inl (PlanValidationError (DependencyCycle
                        (filter (\<lambda>i. ind' i > 0) (dict_fromkeys ids))))
             else Inr order))"


section \<open>Correctness of Kahn's algorithm\<close>

definition deps_of :: "plan_step list \<Rightarrow> string \<Rightarrow> string list" where
  "deps_of ss i = (case find (\<lambda>s. step_id s = i) ss of Some s \<Rightarrow> depends_on s | None \<Rightarrow> [])"

text \<open>The documents the correctness statements are about: ids are unique, dependencies known.\<close>

definition graph_ok :: "plan_step list \<Rightarrow> bool" where
  "graph_ok ss \<longleftrightarrow> distinct (map step_id ss) \<and>
     (\<forall>s \<in> set ss. set (depends_on s) \<subseteq> step_id ` set ss)"

lemma deps_of_step:
  "distinct (map step_id ss) \<Longrightarrow> s \<in> set ss \<Longrightarrow> deps_of ss (step_id s) = depends_on s"
  by (simp add: deps_of_def find_key_distinct)

interpretation plan_graph: dep_graph "map step_id" deps_of graph_ok
proof
  fix ss x assume ok: "graph_ok ss" and "x \<in> set (map step_id ss)"
  then obtain s where "s \<in> set ss" "x = step_id s" by auto
  then show "set (deps_of ss x) \<subseteq> set (map step_id ss)"
    using ok by (auto simp: graph_ok_def deps_of_step)
qed (simp add: graph_ok_def)

lemma deps_of_Cons: "deps_of (s # ss) i = (if step_id s = i then depends_on s else deps_of ss i)"
  by (simp add: deps_of_def)

lemma deps_of_notin: "i \<notin> step_id ` set ss \<Longrightarrow> deps_of ss i = []"
  using find_key_None [of step_id i ss] by (simp add: deps_of_def)

lemma indegree_of_eq:
  "distinct (map step_id ss) \<Longrightarrow> indegree_of ss i = int (length (deps_of ss i))"
proof (induction ss)
  case Nil
  then show ?case by (simp add: indegree_of_def deps_of_def)
next
  case (Cons s ss)
  then have IH: "indegree_of ss i = int (length (deps_of ss i))" by simp
  show ?case
  proof (cases "step_id s = i")
    case True
    then have "deps_of ss i = []" using Cons.prems by (intro deps_of_notin) auto
    then show ?thesis using IH True by (simp add: indegree_of_def deps_of_Cons)
  next
    case False
    then show ?thesis using IH by (simp add: indegree_of_def deps_of_Cons)
  qed
qed

lemma count_children_of:
  "distinct (map step_id ss) \<Longrightarrow> count_list (children_of ss d) i = count_list (deps_of ss i) d"
proof (induction ss)
  case Nil
  then show ?case by (simp add: children_of_def deps_of_def)
next
  case (Cons s ss)
  then have IH: "count_list (children_of ss d) i = count_list (deps_of ss i) d" by simp
  have one: "count_list (map (\<lambda>_. x) (filter (\<lambda>y. y = d) ds)) i
      = (if x = i then count_list ds d else 0)" for x ds
    by (induction ds) auto
  have split: "children_of (s # ss) d
      = map (\<lambda>_. step_id s) (filter (\<lambda>y. y = d) (depends_on s)) @ children_of ss d"
    by (simp add: children_of_def)
  show ?case
  proof (cases "step_id s = i")
    case True
    then have "deps_of ss i = []" using Cons.prems by (intro deps_of_notin) auto
    then show ?thesis using IH True by (simp add: split one deps_of_Cons)
  next
    case False
    then show ?thesis using IH by (simp add: split one deps_of_Cons)
  qed
qed

lemma relax_spec:
  assumes "relax cs ind q = (ind', q')" "\<And>c. c \<in> set cs \<Longrightarrow> int (count_list cs c) \<le> ind c"
    and "distinct q" "set q \<inter> set cs = {}"
  shows "(\<forall>i. ind' i = ind i - int (count_list cs i)) \<and> distinct q' \<and>
    set q' = set q \<union> {c \<in> set cs. ind c = int (count_list cs c)}"
  using assms
proof (induction cs arbitrary: ind q)
  case Nil
  then show ?case by simp
next
  case (Cons c cs)
  define ind2 where "ind2 = ind(c := ind c - 1)"
  define q2 where "q2 = (if ind2 c = 0 then q @ [c] else q)"
  have eq: "relax cs ind2 q2 = (ind', q')"
    using Cons.prems(1) by (simp only: relax.simps Let_def ind2_def q2_def)
  have cnt: "int (count_list cs x) \<le> ind2 x" if "x \<in> set cs" for x
    using Cons.prems(2) [of x] that by (auto simp: ind2_def split: if_splits)
  have notin: "c \<notin> set cs" if "ind2 c = 0"
  proof
    assume "c \<in> set cs"
    then show False using cnt [of c] that by (simp add: count_list_0_iff)
  qed
  have "distinct q2" "set q2 \<inter> set cs = {}"
    using Cons.prems(3,4) notin by (auto simp: q2_def)
  note IH = Cons.IH [OF eq cnt this]
  have c0: "ind2 c = 0 \<longleftrightarrow> ind c = 1" by (simp add: ind2_def)
  have zero: "count_list cs c = 0 \<longleftrightarrow> c \<notin> set cs" by (simp add: count_list_0_iff)
  show ?case
  proof (intro conjI)
    show "\<forall>i. ind' i = ind i - int (count_list (c # cs) i)"
      using IH by (auto simp: ind2_def)
    show "distinct q'" using IH by blast
    have "{x \<in> set cs. ind2 x = int (count_list cs x)} \<union> (if ind2 c = 0 then {c} else {})
        = {x \<in> set (c # cs). ind x = int (count_list (c # cs) x)}"
      using notin zero c0 by (auto simp: ind2_def split: if_splits)
    moreover have "set q' = set q \<union> (if ind2 c = 0 then {c} else {})
        \<union> {x \<in> set cs. ind2 x = int (count_list cs x)}"
      using IH by (simp add: q2_def)
    ultimately show "set q' = set q \<union> {x \<in> set (c # cs). ind x = int (count_list (c # cs) x)}"
      by blast
  qed
qed

text \<open>The loop invariant of Kahn's algorithm.\<close>

definition kahn_inv :: "plan_step list \<Rightarrow> string list \<Rightarrow> (string \<Rightarrow> int) \<Rightarrow> string list \<Rightarrow> bool" where
  "kahn_inv ss q ind seq \<longleftrightarrow>
     distinct (seq @ q) \<and> set (seq @ q) \<subseteq> step_id ` set ss \<and>
     (\<forall>i \<in> step_id ` set ss. ind i = int (length (filter (\<lambda>d. d \<notin> set seq) (deps_of ss i)))) \<and>
     (\<forall>i \<in> step_id ` set ss. i \<in> set (seq @ q) \<longleftrightarrow> ind i = 0) \<and>
     deps_first (deps_of ss) seq"

lemma filter_notin_snoc:
  "n \<notin> S \<Longrightarrow> length (filter (\<lambda>d. d \<notin> S) ds)
     = length (filter (\<lambda>d. d \<notin> insert n S) ds) + count_list ds n"
  by (induction ds) auto

lemma kahn_inv_step:
  assumes ok: "graph_ok ss" and inv: "kahn_inv ss (n # q) ind seq"
    and rel: "relax (children_of ss n) ind q = (ind', q')"
  shows "kahn_inv ss q' ind' (seq @ [n])"
proof -
  let ?I = "step_id ` set ss" and ?cs = "children_of ss n"
  have dist: "distinct (map step_id ss)" using ok by (simp add: graph_ok_def)
  have n: "n \<notin> set seq" "n \<in> ?I" "n \<notin> set q" and dq: "distinct (seq @ q)"
    using inv by (auto simp: kahn_inv_def)
  have old: "ind i = int (length (filter (\<lambda>d. d \<notin> set seq) (deps_of ss i)))"
    if "i \<in> ?I" for i
    using inv that unfolding kahn_inv_def by blast
  have ind: "ind i = int (length (filter (\<lambda>d. d \<notin> set (seq @ [n])) (deps_of ss i)))
      + int (count_list ?cs i)" if "i \<in> ?I" for i
    using old [OF that] filter_notin_snoc [OF n(1), of "deps_of ss i"] count_children_of [OF dist]
    by simp
  have zero: "i \<in> set (seq @ n # q) \<longleftrightarrow> ind i = 0" if "i \<in> ?I" for i
    using inv that by (auto simp: kahn_inv_def)
  have disj: "(set seq \<union> insert n (set q)) \<inter> set ?cs = {}"
  proof (rule ccontr)
    assume "\<not> ?thesis"
    then obtain c where c: "c \<in> set ?cs" "c \<in> set (seq @ n # q)" by auto
    then have "c \<in> ?I" using children_of_subset by blast
    then have "count_list ?cs c = 0" using ind [of c] zero [of c] c(2) by simp
    then show False using c(1) by (simp add: count_list_0_iff)
  qed
  have "int (count_list ?cs c) \<le> ind c" if "c \<in> set ?cs" for c
    using ind [of c] that children_of_subset by fastforce
  from relax_spec [OF rel this] have spec:
    "(\<forall>i. ind' i = ind i - int (count_list ?cs i)) \<and> distinct q' \<and>
      set q' = set q \<union> {c \<in> set ?cs. ind c = int (count_list ?cs c)}"
    using dq disj by auto
  show ?thesis
    unfolding kahn_inv_def
  proof (intro conjI ballI)
    show "distinct ((seq @ [n]) @ q')"
      using spec dq n disj by auto
    show "set ((seq @ [n]) @ q') \<subseteq> ?I"
      using spec inv children_of_subset [of ss n] by (auto simp: kahn_inv_def)
    show "deps_first (deps_of ss) (seq @ [n])"
    proof -
      have "ind n = 0" using zero [OF n(2)] by simp
      then have "filter (\<lambda>d. d \<notin> set seq) (deps_of ss n) = []"
        using old [OF n(2)] by simp
      then have "set (deps_of ss n) \<subseteq> set seq" by (auto simp: filter_empty_conv)
      then show ?thesis using inv by (simp add: kahn_inv_def)
    qed
  next
    fix i assume i: "i \<in> ?I"
    show eq: "ind' i = int (length (filter (\<lambda>d. d \<notin> set (seq @ [n])) (deps_of ss i)))"
      using spec ind [OF i] i by simp
    have "ind' i = 0 \<longleftrightarrow> ind i = 0 \<or> (i \<in> set ?cs \<and> ind i = int (count_list ?cs i))"
    proof (cases "i \<in> set ?cs")
      case True
      then have "count_list ?cs i > 0" by (simp add: count_list_0_iff zero_less_iff_neq_zero)
      then show ?thesis using True spec ind [OF i] by simp
    next
      case False
      then show ?thesis using spec by (simp add: count_list_0_iff)
    qed
    then show "i \<in> set ((seq @ [n]) @ q') \<longleftrightarrow> ind' i = 0"
      using zero [OF i] spec by auto
  qed
qed

lemma kahn_inv_final:
  "kahn ss q ind seq = (order, ind') \<Longrightarrow> graph_ok ss \<Longrightarrow> kahn_inv ss q ind seq \<Longrightarrow>
     kahn_inv ss [] ind' order"
proof (induction ss q ind seq rule: kahn.induct)
  case (1 ss ind seq)
  then show ?case by simp
next
  case (2 ss n q ind seq)
  obtain ind1 q1 where rel: "relax (children_of ss n) ind q = (ind1, q1)"
    by (cases "relax (children_of ss n) ind q")
  show ?case
    using "2.IH" [OF rel [symmetric]] "2.prems" kahn_inv_step [OF "2.prems"(2,3) rel] rel
    by simp
qed

lemma kahn_inv_init:
  assumes "graph_ok ss"
  shows "kahn_inv ss (filter (\<lambda>i. indegree_of ss i = 0) (map step_id ss)) (indegree_of ss) []"
  using assms indegree_of_eq [of ss] by (auto simp: kahn_inv_def graph_ok_def)

lemma unknown_dep_None: "unknown_dep ids ss = None \<longleftrightarrow> (\<forall>s \<in> set ss. set (depends_on s) \<subseteq> set ids)"
  by (induction ss) (auto simp: find_None_iff dest: find_SomeD split: option.splits)

lemma topo_order_cases:
  assumes "graph_ok (steps p)"
  obtains order ind' where "kahn_inv (steps p) [] ind' order"
    and "topo_order p =
      (if length order \<noteq> length (step_ids p)
       then Inl (PlanValidationError (DependencyCycle
              (filter (\<lambda>i. ind' i > 0) (dict_fromkeys (step_ids p)))))
       else Inr order)"
proof -
  obtain order ind' where k: "kahn (steps p)
      (filter (\<lambda>i. indegree_of (steps p) i = 0) (map step_id (steps p)))
      (indegree_of (steps p)) [] = (order, ind')"
    by fastforce
  have "unknown_dep (step_ids p) (steps p) = None"
    using assms by (auto simp: unknown_dep_None graph_ok_def step_ids_def)
  then show ?thesis
    using that kahn_inv_final [OF k assms kahn_inv_init [OF assms]] k
    by (simp add: topo_order_def step_ids_def Let_def)
qed

text \<open>What the callers of \<^verbatim>\<open>topo_order\<close> rely on, without assuming unknown ids away.\<close>

lemma topo_order_known:
  "topo_order p = Inr order \<Longrightarrow> s \<in> set (steps p) \<Longrightarrow> set (depends_on s) \<subseteq> set (step_ids p)"
  by (auto simp: topo_order_def unknown_dep_None Let_def split: option.splits prod.splits if_splits)

lemma topo_order_graph_ok:
  "topo_order p = Inr order \<Longrightarrow> distinct (step_ids p) \<Longrightarrow> graph_ok (steps p)"
  using topo_order_known by (fastforce simp: graph_ok_def step_ids_def)

lemma topo_order_result:
  assumes "topo_order p = Inr order" "distinct (step_ids p)"
  shows "distinct order" "set order = set (step_ids p)" "deps_first (deps_of (steps p)) order"
proof -
  have ok: "graph_ok (steps p)" using topo_order_graph_ok [OF assms] .
  then obtain order' ind' where inv: "kahn_inv (steps p) [] ind' order'"
    and "topo_order p = (if length order' \<noteq> length (step_ids p)
       then Inl (PlanValidationError (DependencyCycle
              (filter (\<lambda>i. ind' i > 0) (dict_fromkeys (step_ids p)))))
       else Inr order')"
    by (rule topo_order_cases)
  then have "order' = order" "length order = length (step_ids p)"
    using assms(1) by (auto split: if_splits)
  then have "distinct order" "set order \<subseteq> set (step_ids p)" "card (set order) = card (set (step_ids p))"
    using inv distinct_card [OF assms(2)] by (auto simp: kahn_inv_def step_ids_def distinct_card)
  then show "distinct order" "set order = set (step_ids p)"
    by (simp_all add: card_subset_eq)
  show "deps_first (deps_of (steps p)) order"
    using inv \<open>order' = order\<close> by (simp add: kahn_inv_def)
qed

lemma topo_order_exists:
  assumes ok: "graph_ok (steps p)"
    and ac: "acyclic (dep_edges (step_ids p) (deps_of (steps p)))"
  shows "\<exists>order. topo_order p = Inr order"
proof -
  obtain order ind' where inv: "kahn_inv (steps p) [] ind' order"
    and res: "topo_order p = (if length order \<noteq> length (step_ids p)
       then Inl (PlanValidationError (DependencyCycle
              (filter (\<lambda>i. ind' i > 0) (dict_fromkeys (step_ids p)))))
       else Inr order)"
    by (rule topo_order_cases [OF ok])
  let ?I = "set (map step_id (steps p))"
  have "?I \<subseteq> set order"
  proof (rule ccontr)
    assume "\<not> ?I \<subseteq> set order"
    then have ne: "?I - set order \<noteq> {}" by blast
    have "\<exists>d \<in> set (deps_of (steps p) x). d \<in> ?I - set order" if x: "x \<in> ?I - set order" for x
    proof -
      have "ind' x \<noteq> 0" "ind' x = int (length (filter (\<lambda>d. d \<notin> set order) (deps_of (steps p) x)))"
        using inv x unfolding kahn_inv_def by auto
      then have "filter (\<lambda>d. d \<notin> set order) (deps_of (steps p) x) \<noteq> []" by auto
      then obtain d where "d \<in> set (deps_of (steps p) x)" "d \<notin> set order"
        by (auto simp: filter_empty_conv)
      then show ?thesis using plan_graph.deps_closed [OF ok] x by blast
    qed
    then show False
      using plan_graph.waiting_set_cyclic [OF ok _ ne] ac by (auto simp: step_ids_def)
  qed
  then have "set order = ?I" using inv by (auto simp: kahn_inv_def)
  then have "length order = length (step_ids p)"
    using inv ok by (metis distinct_append distinct_card graph_ok_def kahn_inv_def length_map step_ids_def)
  then show ?thesis using res by simp
qed

end
