(* ===== verification/Plan_Engine.thy ===== *)
theory Plan_Engine
  imports Plan_Topo
begin

text \<open>
  \<^verbatim>\<open>src/voly/plan/engine.py\<close>: validation of a plan document, the dependency gate, the guarded status transitions and the plan-level status.  A method that
  mutates the plan returns the new plan; a raise before any mutation is \<open>Inl\<close>.
\<close>

section \<open>Validation\<close>

definition validate_step :: "plan_step \<Rightarrow> string list \<Rightarrow> validation_reason option" where
  "validate_step s seen =
     (if strip (step_id s) = [] then Some StepIdRequired
      else if step_id s \<in> set seen then Some (DuplicateStepId (step_id s))
      else if step_status s \<notin> set STEP_STATUSES
        then Some (InvalidStepStatus (step_id s) (step_status s))
      else if step_mode s \<notin> set STEP_MODES
        then Some (InvalidStepMode (step_id s) (step_mode s))
      else None)"

fun validate_steps :: "string list \<Rightarrow> plan_step list \<Rightarrow> validation_reason option" where
  "validate_steps seen [] = None"
| "validate_steps seen (s # ss) =
     (case validate_step s seen of
        Some e \<Rightarrow> Some e
      | None \<Rightarrow> validate_steps (step_id s # seen) ss)"

fun check_deps :: "string list \<Rightarrow> string \<Rightarrow> string list \<Rightarrow> validation_reason option" where
  "check_deps ids sid [] = None"
| "check_deps ids sid (d # ds) =
     (if d \<notin> set ids then Some (UnknownDependency sid d)
      else if d = sid then Some (SelfDependency sid)
      else check_deps ids sid ds)"

fun check_all_deps :: "string list \<Rightarrow> plan_step list \<Rightarrow> validation_reason option" where
  "check_all_deps ids [] = None"
| "check_all_deps ids (s # ss) =
     (case check_deps ids (step_id s) (depends_on s) of
        Some e \<Rightarrow> Some e
      | None \<Rightarrow> check_all_deps ids ss)"

definition validate :: "plan \<Rightarrow> plan_error + unit" where
  "validate p =
     (if strip (plan_id p) = [] then Inl (PlanValidationError PlanIdRequired)
      else if plan_status p \<notin> set PLAN_STATUSES
        then Inl (PlanValidationError (InvalidPlanStatus (plan_status p)))
      else if steps p = [] then Inl (PlanValidationError NoSteps)
      else case validate_steps [] (steps p) of
        Some e \<Rightarrow> Inl (PlanValidationError e)
      | None \<Rightarrow>
          (case check_all_deps (step_ids p) (steps p) of
             Some e \<Rightarrow> Inl (PlanValidationError e)
           | None \<Rightarrow> (case topo_order p of Inl e \<Rightarrow> Inl e | Inr _ \<Rightarrow> Inr ())))"

section \<open>The dependency gate\<close>

definition unmet_of :: "plan \<Rightarrow> plan_step \<Rightarrow> string list" where
  "unmet_of p s = filter (\<lambda>d. case step_map p d of
     None \<Rightarrow> True | Some t \<Rightarrow> step_status t \<noteq> VERIFIED) (depends_on s)"

definition unmet_deps :: "plan \<Rightarrow> string \<Rightarrow> plan_error + string list" where
  "unmet_deps p sid = map_sum id (unmet_of p) (get_step p sid)"

definition can_start :: "plan \<Rightarrow> string \<Rightarrow> plan_error + bool" where
  "can_start p sid = map_sum id
     (\<lambda>s. step_status s \<in> {PENDING, FAILED} \<and> unmet_of p s = []) (get_step p sid)"

definition runnable_steps :: "plan \<Rightarrow> plan_error + string list" where
  "runnable_steps p =
     map_sum id (filter (\<lambda>sid. can_start p sid = Inr True)) (topo_order p)"

definition is_terminal_step :: "string \<Rightarrow> bool" where
  "is_terminal_step st \<longleftrightarrow> st = VERIFIED \<or> st = SKIPPED"

definition all_steps_terminal :: "plan \<Rightarrow> bool" where
  "all_steps_terminal p \<longleftrightarrow> list_all (\<lambda>s. is_terminal_step (step_status s)) (steps p)"

definition any_step_failed :: "plan \<Rightarrow> bool" where
  "any_step_failed p \<longleftrightarrow> list_ex (\<lambda>s. step_status s = FAILED) (steps p)"

section \<open>Transitions\<close>

definition derived_status :: "string list \<Rightarrow> string" where
  "derived_status sts =
     (if sts = [] then PLAN_PENDING
      else if list_all (\<lambda>s. s \<in> {VERIFIED, SKIPPED}) sts
        then (if list_ex (\<lambda>s. s = VERIFIED) sts then PLAN_COMPLETED else PLAN_FAILED)
      else if list_ex (\<lambda>s. s \<in> {RUNNING, DONE, VERIFYING}) sts then PLAN_RUNNING
      else if list_ex (\<lambda>s. s = FAILED) sts
           \<and> \<not> list_ex (\<lambda>s. s \<in> {RUNNING, DONE, VERIFYING, PENDING}) sts
           \<and> \<not> list_ex (\<lambda>s. s = PENDING) sts
        then PLAN_FAILED
      else if list_ex (\<lambda>s. s = FAILED) sts then PLAN_RUNNING
      else if list_all (\<lambda>s. s = PENDING) sts then PLAN_PENDING
      else PLAN_RUNNING)"

definition recompute_plan_status :: "plan \<Rightarrow> plan" where
  "recompute_plan_status p =
     (if plan_status p = PLAN_ABORTED then p
      else p\<lparr>plan_status := derived_status (map step_status (steps p))\<rparr>)"

definition apply_status :: "string \<Rightarrow> string \<Rightarrow> rat \<Rightarrow> plan_step \<Rightarrow> plan_step" where
  "apply_status to_status error now s =
     (let s1 = s\<lparr>step_status := to_status\<rparr>;
          s2 = (if to_status = RUNNING then s1\<lparr>started_at := now\<rparr> else s1)
      in if to_status = FAILED
           then s2\<lparr>step_error := take 2000 (str_or error (str_or (step_error s) ''failed''))\<rparr>
         else if error \<noteq> [] then s2\<lparr>step_error := take 2000 error\<rparr>
         else if to_status \<in> {RUNNING, PENDING, VERIFIED, DONE, SKIPPED}
           then s2\<lparr>step_error := []\<rparr>
         else s2)"

definition transition ::
  "plan \<Rightarrow> string \<Rightarrow> string \<Rightarrow> string \<Rightarrow> bool \<Rightarrow> bool \<Rightarrow> rat \<Rightarrow> plan_error + plan" where
  "transition p sid to_status error allow_skip force now =
     (case get_step p sid of
        Inl e \<Rightarrow> Inl e
      | Inr s \<Rightarrow>
          (let from_status = step_status s; illegal = (\<lambda>r. Inl (IllegalTransition sid from_status to_status r))
           in if to_status \<notin> set STEP_STATUSES then illegal UnknownTargetStatus
              else if to_status = SKIPPED \<and> \<not> allow_skip \<and> \<not> force then illegal SkipNotAllowed
              else if \<not> force \<and> \<not> is_legal_transition from_status to_status then illegal NotInTable
              else if to_status = RUNNING \<and> \<not> force \<and> unmet_of p s \<noteq> []
                then illegal (UnmetDependencies (unmet_of p s))
              else if to_status = RUNNING \<and> \<not> force \<and> from_status \<notin> {PENDING, FAILED}
                then illegal OnlyPendingFailedMayStart
              else if to_status = VERIFIED \<and> from_status = DONE \<and> acceptance s \<noteq> [] \<and> \<not> force
                then illegal HasAcceptanceChecks
              else if to_status = VERIFYING \<and> from_status = DONE \<and> acceptance s = [] \<and> \<not> force
                then illegal NoAcceptanceChecks
              else Inr (recompute_plan_status (upd_step sid (apply_status to_status error now) p))))"

text \<open>
  A caller sees the writes to the step even when the transition after them raises, so the
  result is the plan and the exception, if any.
\<close>

definition mark_execution_finished ::
  "plan \<Rightarrow> string \<Rightarrow> bool \<Rightarrow> string \<Rightarrow> string \<Rightarrow> string list option \<Rightarrow> rat
     \<Rightarrow> plan \<times> plan_error option" where
  "mark_execution_finished p sid success error out touched now =
     (case get_step p sid of
        Inl e \<Rightarrow> (p, Some e)
      | Inr _ \<Rightarrow>
          (let p1 = (if out \<noteq> [] then upd_step sid (\<lambda>s. s\<lparr>step_output := take 50000 out\<rparr>) p else p);
               p2 = (case touched of None \<Rightarrow> p1
                     | Some fs \<Rightarrow> upd_step sid (\<lambda>s. s\<lparr>files_touched := fs\<rparr>) p1)
           in case (if success then transition p2 sid DONE [] False False now
                    else transition p2 sid FAILED (str_or error ''execution failed'') False False now) of
                Inl e \<Rightarrow> (p2, Some e)
              | Inr p3 \<Rightarrow> (p3, None)))"

definition advance_after_done :: "plan \<Rightarrow> string \<Rightarrow> rat \<Rightarrow> plan_error + plan" where
  "advance_after_done p sid now =
     (case get_step p sid of
        Inl e \<Rightarrow> Inl e
      | Inr s \<Rightarrow>
          if step_status s \<noteq> DONE
            then Inl (IllegalTransition sid (step_status s)
                       (if acceptance s \<noteq> [] then VERIFYING else VERIFIED) AdvanceRequiresDone)
          else if acceptance s \<noteq> [] then transition p sid VERIFYING [] False False now
          else transition p sid VERIFIED [] False False now)"

definition abort :: "plan \<Rightarrow> string \<Rightarrow> plan" where
  "abort p error = p\<lparr>plan_status := PLAN_ABORTED, plan_err := take 2000 (str_or error ''aborted'')\<rparr>"

definition create_plan ::
  "string \<Rightarrow> plan_step list \<Rightarrow> string \<Rightarrow> string \<Rightarrow> string \<Rightarrow> bool \<Rightarrow> plan_error + plan" where
  "create_plan pid ss tid cwd task do_validate =
     (let p = (new_plan pid)\<lparr>task_id := tid, plan_cwd := cwd, plan_task := task, steps := ss\<rparr>
      in if do_validate
         then (case validate p of Inl e \<Rightarrow> Inl e | Inr _ \<Rightarrow> Inr (recompute_plan_status p))
         else Inr p)"

section \<open>Validation accepts exactly the well-formed plans\<close>

definition step_ok :: "plan_step \<Rightarrow> bool" where
  "step_ok s \<longleftrightarrow> strip (step_id s) \<noteq> [] \<and> step_status s \<in> set STEP_STATUSES \<and>
     step_mode s \<in> set STEP_MODES"

definition well_formed :: "plan \<Rightarrow> bool" where
  "well_formed p \<longleftrightarrow> strip (plan_id p) \<noteq> [] \<and> plan_status p \<in> set PLAN_STATUSES \<and>
     steps p \<noteq> [] \<and> (\<forall>s \<in> set (steps p). step_ok s) \<and> graph_ok (steps p) \<and>
     acyclic (dep_edges (step_ids p) (deps_of (steps p)))"

lemma validate_step_None: "validate_step s seen = None \<longleftrightarrow> step_ok s \<and> step_id s \<notin> set seen"
  by (auto simp: validate_step_def step_ok_def)

lemma validate_steps_None:
  "validate_steps seen ss = None \<longleftrightarrow>
     (\<forall>s \<in> set ss. step_ok s) \<and> distinct (map step_id ss) \<and> set seen \<inter> step_id ` set ss = {}"
proof (induction ss arbitrary: seen)
  case Nil
  then show ?case by simp
next
  case (Cons s ss)
  show ?case
    by (cases "validate_step s seen") (use Cons.IH validate_step_None [of s seen] in auto)
qed

lemma check_deps_None:
  "check_deps ids sid ds = None \<longleftrightarrow> set ds \<subseteq> set ids \<and> sid \<notin> set ds"
  by (induction ds) auto

lemma check_all_deps_None:
  "check_all_deps ids ss = None \<longleftrightarrow>
     (\<forall>s \<in> set ss. set (depends_on s) \<subseteq> set ids \<and> step_id s \<notin> set (depends_on s))"
proof (induction ss)
  case Nil
  then show ?case by simp
next
  case (Cons s ss)
  show ?case
    by (cases "check_deps ids (step_id s) (depends_on s)")
      (use Cons.IH check_deps_None [of ids "step_id s" "depends_on s"] in auto)
qed

lemma topo_order_iff_acyclic:
  assumes "graph_ok (steps p)"
  shows "(\<exists>order. topo_order p = Inr order) \<longleftrightarrow>
    acyclic (dep_edges (step_ids p) (deps_of (steps p)))"
proof
  assume "\<exists>order. topo_order p = Inr order"
  then obtain order where o: "topo_order p = Inr order" ..
  have "distinct (step_ids p)" using assms by (simp add: graph_ok_def step_ids_def)
  from topo_order_result [OF o this] show "acyclic (dep_edges (step_ids p) (deps_of (steps p)))"
    using plan_graph.complete_order_acyclic [of order "steps p"] by (simp add: step_ids_def)
qed (rule topo_order_exists [OF assms])

lemma acyclic_no_self:
  assumes "graph_ok (steps p)" "acyclic (dep_edges (step_ids p) (deps_of (steps p)))"
    and "s \<in> set (steps p)"
  shows "step_id s \<notin> set (depends_on s)"
proof
  assume "step_id s \<in> set (depends_on s)"
  then have "(step_id s, step_id s) \<in> dep_edges (step_ids p) (deps_of (steps p))"
    using assms deps_of_step [of "steps p" s] by (auto simp: dep_edges_def step_ids_def graph_ok_def)
  then show False using assms(2) by (auto simp: acyclic_def)
qed

lemma validate_accepts_iff: "validate p = Inr () \<longleftrightarrow> well_formed p"
proof
  assume "validate p = Inr ()"
  then have v: "strip (plan_id p) \<noteq> []" "plan_status p \<in> set PLAN_STATUSES" "steps p \<noteq> []"
      "validate_steps [] (steps p) = None" "check_all_deps (step_ids p) (steps p) = None"
    and "\<exists>order. topo_order p = Inr order"
    by (auto simp: validate_def split: if_splits option.splits sum.splits)
  moreover have "graph_ok (steps p)"
    using v by (auto simp: graph_ok_def validate_steps_None check_all_deps_None step_ids_def)
  ultimately show "well_formed p"
    by (auto simp: well_formed_def topo_order_iff_acyclic validate_steps_None)
next
  assume w: "well_formed p"
  then obtain order where "topo_order p = Inr order"
    using topo_order_iff_acyclic unfolding well_formed_def by blast
  moreover have "check_all_deps (step_ids p) (steps p) = None"
    using w acyclic_no_self [of p] by (auto simp: check_all_deps_None well_formed_def graph_ok_def step_ids_def)
  moreover have "validate_steps [] (steps p) = None"
    using w by (simp add: validate_steps_None well_formed_def graph_ok_def)
  ultimately show "validate p = Inr ()" using w by (simp add: validate_def well_formed_def)
qed

section \<open>What a transition changes\<close>

lemma derived_status_in: "derived_status sts \<in> set PLAN_STATUSES"
  by (simp add: derived_status_def PLAN_STATUSES_def)

lemma recompute_frame [simp, frame]:
  "steps (recompute_plan_status p) = steps p" "plan_id (recompute_plan_status p) = plan_id p"
  "plan_cwd (recompute_plan_status p) = plan_cwd p" "plan_err (recompute_plan_status p) = plan_err p"
  "plan_task (recompute_plan_status p) = plan_task p" "task_id (recompute_plan_status p) = task_id p"
  "metadata (recompute_plan_status p) = metadata p" "created_at (recompute_plan_status p) = created_at p"
  by (simp_all add: recompute_plan_status_def)

lemma recompute_idem [simp]:
  "recompute_plan_status (recompute_plan_status p) = recompute_plan_status p"
  by (simp add: recompute_plan_status_def)

lemma recompute_lookup [simp]:
  "get_step (recompute_plan_status p) sid = get_step p sid"
  "step_map (recompute_plan_status p) = step_map p"
  "step_ids (recompute_plan_status p) = step_ids p"
  "unmet_of (recompute_plan_status p) s = unmet_of p s"
  by (simp_all add: get_step_def step_map_def step_ids_def unmet_of_def)

lemma apply_status_frame [simp, frame]:
  "step_id (apply_status t e now s) = step_id s"
  "step_status (apply_status t e now s) = t"
  "depends_on (apply_status t e now s) = depends_on s"
  "acceptance (apply_status t e now s) = acceptance s"
  "step_mode (apply_status t e now s) = step_mode s"
  "step_role (apply_status t e now s) = step_role s"
  "step_output (apply_status t e now s) = step_output s"
  "step_task (apply_status t e now s) = step_task s"
  "verify_log (apply_status t e now s) = verify_log s"
  "files_touched (apply_status t e now s) = files_touched s"
  by (simp_all add: apply_status_def Let_def)

text \<open>The gate a successful transition has passed.\<close>

definition passes_gate :: "plan \<Rightarrow> plan_step \<Rightarrow> string \<Rightarrow> bool \<Rightarrow> bool" where
  "passes_gate p s to_status allow_skip \<longleftrightarrow>
     is_legal_transition (step_status s) to_status \<and>
     (to_status = SKIPPED \<longrightarrow> allow_skip) \<and>
     (to_status = RUNNING \<longrightarrow> unmet_of p s = []) \<and>
     (step_status s = DONE \<longrightarrow> (to_status = VERIFIED \<longleftrightarrow> acceptance s = []))"

lemma legal_target: "is_legal_transition f t \<Longrightarrow> t \<in> set STEP_STATUSES"
  by (auto simp: legal_transition_iff STEP_STATUSES_def)

lemma transition_iff:
  "transition p sid to_status err allow_skip force now = Inr p' \<longleftrightarrow>
     (\<exists>s. get_step p sid = Inr s \<and> to_status \<in> set STEP_STATUSES \<and>
        (force \<or> passes_gate p s to_status allow_skip) \<and>
        p' = recompute_plan_status (upd_step sid (apply_status to_status err now) p))"
proof (cases "get_step p sid")
  case (Inl e)
  then show ?thesis by (simp add: transition_def)
next
  case (Inr s)
  then show ?thesis
    using legal_target [of "step_status s" to_status]
    by (cases force)
      (auto simp: transition_def Let_def passes_gate_def legal_transition_iff STEP_STATUSES_def)
qed

lemma transition_frame:
  assumes "transition p sid t e sk f now = Inr p'"
  shows "step_ids p' = step_ids p" "plan_id p' = plan_id p" "plan_cwd p' = plan_cwd p"
    "plan_task p' = plan_task p" "map depends_on (steps p') = map depends_on (steps p)"
    "map acceptance (steps p') = map acceptance (steps p)"
    "map step_mode (steps p') = map step_mode (steps p)"
    "other \<noteq> sid \<Longrightarrow> get_step p' other = get_step p other"
  using assms by (auto simp: transition_iff map_upd_step get_step_upd_other)

lemma transition_result:
  assumes "transition p sid t e sk f now = Inr p'"
  obtains s where "get_step p sid = Inr s" "get_step p' sid = Inr (apply_status t e now s)"
  using assms by (auto simp: transition_iff get_step_upd_same)

lemma transition_aborted:
  "transition p sid t e sk f now = Inr p' \<Longrightarrow> plan_status p = PLAN_ABORTED \<Longrightarrow>
     plan_status p' = PLAN_ABORTED"
  by (auto simp: transition_iff recompute_plan_status_def)

end
