(* ===== verification/Plan_Gate.thy ===== *)
theory Plan_Gate
  imports Plan_Engine
begin

text \<open>
  The dependency gate as a contract.  \<open>step_gate\<close> is the interface between whatever moves
  steps (the engine's transitions, the runner's soft opening, the approval service) and
  the guarantee a reader of a plan relies on: a step that ever started has all its
  dependencies verified.  It is interpreted on the moves of the plan state machine.
\<close>

definition past_gate :: "string \<Rightarrow> bool" where
  "past_gate st \<longleftrightarrow> st \<in> {RUNNING, DONE, VERIFYING, VERIFIED, FAILED}"

lemma past_gate_simps [simp]:
  "past_gate RUNNING" "past_gate DONE" "past_gate VERIFYING" "past_gate VERIFIED" "past_gate FAILED"
  "\<not> past_gate PENDING" "\<not> past_gate SKIPPED"
  by (simp_all add: past_gate_def)

definition gate_holds :: "('p \<Rightarrow> 'i \<Rightarrow> string option) \<Rightarrow> ('p \<Rightarrow> 'i \<Rightarrow> 'i list) \<Rightarrow> 'p \<Rightarrow> bool" where
  "gate_holds status_of needs p \<longleftrightarrow>
     (\<forall>i st. status_of p i = Some st \<longrightarrow> past_gate st \<longrightarrow>
        (\<forall>d \<in> set (needs p i). status_of p d = Some VERIFIED))"

locale step_gate =
  fixes status_of :: "'p \<Rightarrow> 'i \<Rightarrow> string option"
    and needs :: "'p \<Rightarrow> 'i \<Rightarrow> 'i list"
    and move :: "'p \<Rightarrow> 'p \<Rightarrow> bool"
    and sane :: "'p \<Rightarrow> bool"
  assumes sane_move: "sane p \<Longrightarrow> move p q \<Longrightarrow> sane q"
    and needs_fixed: "sane p \<Longrightarrow> move p q \<Longrightarrow> needs q i = needs p i"
    and verified_kept:
      "sane p \<Longrightarrow> move p q \<Longrightarrow> status_of p i = Some VERIFIED \<Longrightarrow> status_of q i = Some VERIFIED"
    and entered: "sane p \<Longrightarrow> move p q \<Longrightarrow> status_of q i = Some st \<Longrightarrow> past_gate st \<Longrightarrow>
      (\<exists>st0. status_of p i = Some st0 \<and> past_gate st0) \<or>
      (\<forall>d \<in> set (needs p i). status_of p d = Some VERIFIED)"
begin

lemma gate_move:
  assumes "sane p" "move p q" "gate_holds status_of needs p"
  shows "gate_holds status_of needs q"
  unfolding gate_holds_def
proof (intro allI impI ballI)
  fix i st d assume i: "status_of q i = Some st" "past_gate st" and d: "d \<in> set (needs q i)"
  have "status_of p d = Some VERIFIED"
    using entered [OF assms(1,2) i] assms(3) d needs_fixed [OF assms(1,2)]
    unfolding gate_holds_def by auto
  then show "status_of q d = Some VERIFIED" by (rule verified_kept [OF assms(1,2)])
qed

lemma sane_moves: "move\<^sup>*\<^sup>* p q \<Longrightarrow> sane p \<Longrightarrow> sane q"
  by (induction rule: rtranclp_induct) (auto intro: sane_move)

lemma gate_moves:
  "move\<^sup>*\<^sup>* p q \<Longrightarrow> sane p \<Longrightarrow> gate_holds status_of needs p \<Longrightarrow> gate_holds status_of needs q"
  by (induction rule: rtranclp_induct) (auto intro: gate_move sane_moves)

lemma verified_forever:
  "move\<^sup>*\<^sup>* p q \<Longrightarrow> sane p \<Longrightarrow> status_of p i = Some VERIFIED \<Longrightarrow> status_of q i = Some VERIFIED"
  by (induction rule: rtranclp_induct) (auto intro: verified_kept sane_moves)

lemma needs_forever: "move\<^sup>*\<^sup>* p q \<Longrightarrow> sane p \<Longrightarrow> needs q i = needs p i"
  by (induction rule: rtranclp_induct) (auto simp: needs_fixed [OF sane_moves])

text \<open>Verified dependencies have started themselves, so the gate holds transitively.\<close>

lemma gate_transitive:
  assumes "gate_holds status_of needs p" "(d, i) \<in> {(d, i). d \<in> set (needs p i)}\<^sup>+"
    and "status_of p i = Some st" "past_gate st"
  shows "status_of p d = Some VERIFIED"
proof -
  from assms(2) have "\<forall>st. status_of p i = Some st \<longrightarrow> past_gate st \<longrightarrow> status_of p d = Some VERIFIED"
  proof (induction rule: trancl_induct)
    case (base i)
    then show ?case using assms(1) by (auto simp: gate_holds_def)
  next
    case (step j i)
    then show ?case using assms(1) by (auto simp: gate_holds_def)
  qed
  then show ?thesis using assms(3,4) by blast
qed

end

section \<open>The moves of a plan\<close>

definition status_of :: "plan \<Rightarrow> string \<Rightarrow> string option" where
  "status_of p i = map_option step_status (find (\<lambda>s. step_id s = i) (steps p))"

definition needs_of :: "plan \<Rightarrow> string \<Rightarrow> string list" where
  "needs_of p i = deps_of (steps p) i"

text \<open>
  \<open>soft\<close> is the soft opening of a failed gate: the runner's \<^verbatim>\<open>on_fail=continue\<close> (a forced
  transition) and its shadow mode (a direct write of the status).  \<open>evidence\<close> is any write to
  a step that leaves its id, status and dependencies alone, \<open>bookkeeping\<close> any write to the
  plan that leaves its steps alone.
\<close>

inductive plan_move :: "plan \<Rightarrow> plan \<Rightarrow> bool" where
  engine: "transition p sid t err sk False now = Inr q \<Longrightarrow> plan_move p q"
| soft: "get_step p sid = Inr s \<Longrightarrow> step_status s = FAILED \<Longrightarrow>
    (\<And>s. step_id (f s) = step_id s \<and> depends_on (f s) = depends_on s \<and>
       step_status (f s) = VERIFIED) \<Longrightarrow> plan_move p (upd_step sid f p)"
| evidence: "(\<And>s. step_id (f s) = step_id s \<and> depends_on (f s) = depends_on s \<and>
       step_status (f s) = step_status s) \<Longrightarrow> plan_move p (upd_step sid f p)"
| bookkeeping: "steps q = steps p \<Longrightarrow> plan_move p q"

inductive_cases plan_moveE: "plan_move p q"

abbreviation plan_moves :: "plan \<Rightarrow> plan \<Rightarrow> bool" where
  "plan_moves \<equiv> plan_move\<^sup>*\<^sup>*"

abbreviation ids_distinct :: "plan \<Rightarrow> bool" where
  "ids_distinct p \<equiv> distinct (step_ids p)"

lemma status_of_get: "get_step p i = Inr s \<Longrightarrow> status_of p i = Some (step_status s)"
  by (simp add: status_of_def get_step_Inr_iff)

lemma status_of_Some_iff:
  "status_of p i = Some st \<longleftrightarrow> (\<exists>s. get_step p i = Inr s \<and> step_status s = st)"
  by (auto simp: status_of_def get_step_Inr_iff)

lemma needs_of_get: "get_step p i = Inr s \<Longrightarrow> needs_of p i = depends_on s"
  by (simp add: needs_of_def deps_of_def get_step_Inr_iff)

lemma status_of_upd:
  assumes "\<And>s. step_id (f s) = step_id s"
  shows "status_of (upd_step sid f p) i =
    (if i = sid then map_option (\<lambda>s. step_status (f s)) (find (\<lambda>s. step_id s = i) (steps p))
     else status_of p i)"
  using assms
  by (auto simp: status_of_def upd_step_def find_upd_first_same find_upd_first_other option.map_comp comp_def)

lemma status_of_evidence:
  assumes "\<And>s. step_id (f s) = step_id s \<and> depends_on (f s) = depends_on s \<and>
       step_status (f s) = step_status s"
  shows "status_of (upd_step sid f p) i = status_of p i"
  using assms by (subst status_of_upd) (auto simp: status_of_def)

lemma status_of_soft:
  assumes "get_step p sid = Inr s"
    and "\<And>s. step_id (f s) = step_id s \<and> depends_on (f s) = depends_on s \<and>
       step_status (f s) = VERIFIED"
  shows "status_of (upd_step sid f p) i = (if i = sid then Some VERIFIED else status_of p i)"
  using assms by (subst status_of_upd) (auto simp: get_step_Inr_iff)

lemma needs_of_upd:
  assumes "\<And>s. step_id (f s) = step_id s" "\<And>s. depends_on (f s) = depends_on s"
  shows "needs_of (upd_step sid f p) i = needs_of p i"
proof (cases "i = sid")
  case True
  then show ?thesis using assms
    by (auto simp: needs_of_def deps_of_def upd_step_def find_upd_first_same split: option.splits)
next
  case False
  then show ?thesis using assms
    by (auto simp: needs_of_def deps_of_def upd_step_def find_upd_first_other split: option.splits)
qed

lemma lookup_recompute [simp]:
  "status_of (recompute_plan_status p) i = status_of p i"
  "needs_of (recompute_plan_status p) i = needs_of p i"
  by (simp_all add: status_of_def needs_of_def)

lemma unmet_of_iff:
  assumes "ids_distinct p"
  shows "unmet_of p s = [] \<longleftrightarrow> (\<forall>d \<in> set (depends_on s). status_of p d = Some VERIFIED)"
  using assms
  by (auto simp: unmet_of_def filter_empty_conv status_of_def step_map_distinct split: option.splits)

lemma transition_status_of:
  assumes "transition p sid t err sk f now = Inr q"
  shows "status_of q i = (if i = sid then Some t else status_of p i)" "needs_of q i = needs_of p i"
proof -
  obtain s where s: "get_step p sid = Inr s"
    and q: "q = recompute_plan_status (upd_step sid (apply_status t err now) p)"
    using assms by (auto simp: transition_iff)
  show "status_of q i = (if i = sid then Some t else status_of p i)"
    using s by (simp add: q status_of_upd get_step_Inr_iff)
  show "needs_of q i = needs_of p i" by (simp add: q needs_of_upd)
qed

lemma plan_move_ids: "plan_move p q \<Longrightarrow> step_ids q = step_ids p"
  by (erule plan_moveE) (auto simp: step_ids_def upd_step_def map_upd_first transition_iff)

interpretation plan_gate: step_gate status_of needs_of plan_move ids_distinct
proof
  fix p q :: plan and i st
  assume d: "ids_distinct p" and m: "plan_move p q"
  show "ids_distinct q" using d plan_move_ids [OF m] by simp
  show "needs_of q i = needs_of p i"
    using m by cases (auto simp: transition_status_of needs_of_upd, simp add: needs_of_def)
  show "status_of q i = Some VERIFIED" if v: "status_of p i = Some VERIFIED"
    using m
  proof cases
    case (engine sid t err sk now)
    then have "is_legal_transition VERIFIED t" if "i = sid"
      using v that by (auto simp: transition_iff passes_gate_def status_of_Some_iff)
    then show ?thesis using engine v by (auto simp: transition_status_of legal_transition_iff)
  next
    case (soft sid s f)
    then show ?thesis using v by (simp add: status_of_soft)
  next
    case (evidence f sid)
    then show ?thesis using v by (simp add: status_of_evidence)
  qed (use v in \<open>simp add: status_of_def\<close>)
  show "(\<exists>st0. status_of p i = Some st0 \<and> past_gate st0) \<or>
      (\<forall>d \<in> set (needs_of p i). status_of p d = Some VERIFIED)"
    if st: "status_of q i = Some st" "past_gate st"
    using m
  proof cases
    case (engine sid t err sk now)
    show ?thesis
    proof (cases "i = sid")
      case True
      then obtain s where s: "get_step p i = Inr s" "passes_gate p s t sk" "t = st"
        using engine st by (auto simp: transition_iff transition_status_of [OF engine])
      then have "t = RUNNING \<Longrightarrow> \<forall>d \<in> set (needs_of p i). status_of p d = Some VERIFIED"
        using unmet_of_iff [OF d] by (auto simp: passes_gate_def needs_of_get)
      moreover have "t \<noteq> RUNNING \<Longrightarrow> past_gate (step_status s)"
        using s st(2) by (auto simp: passes_gate_def legal_transition_iff)
      ultimately show ?thesis using s(1) status_of_get by blast
    qed (use st engine in \<open>auto simp: transition_status_of\<close>)
  next
    case (soft sid s f)
    then show ?thesis using st by (cases "i = sid") (auto simp: status_of_soft status_of_get)
  next
    case (evidence f sid)
    then show ?thesis using st by (auto simp: status_of_evidence)
  qed (use st in \<open>auto simp: status_of_def\<close>)
qed

section \<open>Progress\<close>

text \<open>
  A plan whose steps are pending, failed or verified, not all verified, always has a step
  that may start: the gate cannot deadlock a valid plan.
\<close>

lemma can_start_iff:
  "can_start p sid = Inr True \<longleftrightarrow>
     (\<exists>s. get_step p sid = Inr s \<and> step_status s \<in> {PENDING, FAILED} \<and> unmet_of p s = [])"
  by (cases "get_step p sid") (auto simp: can_start_def)

lemma runnable_steps_iff:
  assumes "runnable_steps p = Inr r" "ids_distinct p"
  shows "sid \<in> set r \<longleftrightarrow> can_start p sid = Inr True"
proof -
  obtain order where o: "topo_order p = Inr order" and r: "r = filter (\<lambda>i. can_start p i = Inr True) order"
    using assms(1) by (cases "topo_order p") (auto simp: runnable_steps_def)
  have "sid \<in> set (step_ids p)" if "can_start p sid = Inr True"
    using that get_step_ex_iff by (auto simp: can_start_iff)
  then show ?thesis using topo_order_result(2) [OF o assms(2)] r by auto
qed

lemma well_formed_runnable:
  assumes "well_formed p"
  obtains r where "runnable_steps p = Inr r"
  using assms topo_order_iff_acyclic [of p] by (auto simp: well_formed_def runnable_steps_def)

lemma some_runnable:
  assumes wf: "well_formed p"
    and sts: "\<And>s. s \<in> set (steps p) \<Longrightarrow> step_status s \<in> {PENDING, FAILED, VERIFIED}"
    and open_step: "s0 \<in> set (steps p)" "step_status s0 \<noteq> VERIFIED"
    and r: "runnable_steps p = Inr r"
  shows "r \<noteq> []"
proof -
  have ok: "graph_ok (steps p)" and dist: "ids_distinct p"
    using wf by (auto simp: well_formed_def graph_ok_def step_ids_def)
  let ?fin = "\<lambda>i. status_of p i = Some VERIFIED"
  have "\<not> ?fin (step_id s0)"
    using open_step get_step_distinct [OF dist] by (auto simp: status_of_Some_iff)
  then obtain y where y: "y \<in> set (map step_id (steps p))" "\<not> ?fin y"
      "\<forall>d \<in> set (deps_of (steps p) y). ?fin d"
    using plan_graph.some_ready [OF ok, of "step_id s0" ?fin] open_step(1) wf
    by (auto simp: well_formed_def step_ids_def)
  then obtain s where s: "s \<in> set (steps p)" "step_id s = y" by auto
  then have g: "get_step p y = Inr s" using get_step_distinct [OF dist] by auto
  have "step_status s \<in> {PENDING, FAILED}" using sts [OF s(1)] y(2) g by (auto simp: status_of_get)
  moreover have "unmet_of p s = []"
    using y(3) needs_of_get [OF g] by (simp add: unmet_of_iff [OF dist] needs_of_def)
  ultimately have "can_start p y = Inr True" using g by (auto simp: can_start_iff)
  then show ?thesis using runnable_steps_iff [OF r dist] by force
qed

end
