(* ===== verification/Plan_Store.thy ===== *)
theory Plan_Store
  imports Plan_Codec Plan_Gate
begin

text \<open>
  \<^verbatim>\<open>src/voly/plan/store.py\<close> and \<^verbatim>\<open>src/voly/plan/approval.py\<close>: the directory of plan documents, with
  one JSON file per plan, and the human approval of a step.  The directory is an association
  list from file stems to contents; a file whose text is not JSON is \<open>None\<close>.  \<open>disk_ok\<close> says
  whether the write of a document succeeds: a failed write raises and leaves the file it was to
  replace.
\<close>

type_synonym plan_dir = "(string \<times> json option) list"

section \<open>The directory of documents\<close>

text \<open>
  What the store asks of a directory: \<^verbatim>\<open>os.replace\<close> on a file name, \<^verbatim>\<open>os.path.isfile\<close> and
  reading, \<^verbatim>\<open>os.unlink\<close>, \<^verbatim>\<open>os.listdir\<close> sorted.
\<close>

definition get_doc :: "'k \<Rightarrow> ('k \<times> 'v) list \<Rightarrow> 'v option" where
  "get_doc k d = dict_get d k"

definition doc_names :: "('k::linorder \<times> 'v) list \<Rightarrow> 'k list" where
  "doc_names d = sorted_set (map fst d)"

locale doc_dir =
  fixes put :: "'k::linorder \<Rightarrow> 'v \<Rightarrow> 'd \<Rightarrow> 'd"
    and get :: "'k \<Rightarrow> 'd \<Rightarrow> 'v option"
    and del :: "'k \<Rightarrow> 'd \<Rightarrow> 'd"
    and names :: "'d \<Rightarrow> 'k list"
  assumes get_put: "get k' (put k v d) = (if k' = k then Some v else get k' d)"
    and get_del: "get k' (del k d) = (if k' = k then None else get k' d)"
    and names_iff: "k \<in> set (names d) \<longleftrightarrow> get k d \<noteq> None"
    and names_sorted: "sorted (names d)"
    and names_distinct: "distinct (names d)"
begin

lemma names_put: "set (names (put k v d)) = insert k (set (names d))"
  by (auto simp: names_iff get_put split: if_splits)

lemma names_del: "set (names (del k d)) = set (names d) - {k}"
  by (auto simp: names_iff get_del split: if_splits)

text \<open>Two directories with the same contents list the same names in the same order.\<close>

lemma names_determined:
  assumes "\<And>k. get k d = get k e"
  shows "names d = names e"
proof (rule sorted_distinct_set_unique)
  show "set (names d) = set (names e)" by (rule set_eqI) (simp add: names_iff assms)
qed (simp_all add: names_sorted names_distinct)

lemma put_absent_del:
  assumes "get k d = None"
  shows "names (del k (put k v d)) = names d"
proof (rule names_determined)
  show "get k' (del k (put k v d)) = get k' d" for k' using assms by (simp add: get_del get_put)
qed

text \<open>A document that is already there is replaced in its place.\<close>

lemma names_put_present:
  assumes "get k d \<noteq> None"
  shows "names (put k v d) = names d"
proof (rule sorted_distinct_set_unique)
  show "set (names (put k v d)) = set (names d)" using assms names_iff by (auto simp: names_put)
qed (simp_all add: names_sorted names_distinct)

lemma get_puts:
  "get k (fold (\<lambda>(k, v). put k v) kvs d) = (case map_of (rev kvs) k of Some v \<Rightarrow> Some v | None \<Rightarrow> get k d)"
  by (induction kvs rule: rev_induct) (auto simp: get_put split: option.splits)

end

interpretation dir: doc_dir dict_set get_doc dict_del doc_names
proof
  fix k k' :: "'k::linorder" and d :: "('k \<times> 'v) list" and v :: 'v
  show "get_doc k' (dict_set k v d) = (if k' = k then Some v else get_doc k' d)"
    by (simp add: get_doc_def dict_get_def)
  show "get_doc k' (dict_del k d) = (if k' = k then None else get_doc k' d)"
    by (simp add: get_doc_def dict_get_def)
  show "k \<in> set (doc_names d) \<longleftrightarrow> get_doc k d \<noteq> None"
    by (force simp: doc_names_def get_doc_def dict_get_def map_of_eq_None_iff)
qed (simp_all add: doc_names_def)


section \<open>PlanStore\<close>

datatype disk = DiskOk | MkdirFails | WriteFails

definition store_path :: "string \<Rightarrow> plan_error + string" where
  "store_path pid =
     (if pid = [] \<or> CHR ''/'' \<in> set pid \<or> CHR 0x5C \<in> set pid \<or> pid = ''.'' \<or> pid = ''..''
      then Inl (PlanValidationError (InvalidPlanIdForPath pid)) else Inr pid)"

definition stamp :: "rat \<Rightarrow> plan \<Rightarrow> plan" where
  "stamp now p = (let p1 = p\<lparr>updated_at := now\<rparr>
     in if created_at p1 \<le> 0 then p1\<lparr>created_at := now\<rparr> else p1)"

definition save_plan :: "disk \<Rightarrow> rat \<Rightarrow> plan_dir \<Rightarrow> plan \<Rightarrow> plan_dir \<times> plan \<times> plan_error option" where
  "save_plan disk now d p =
     (let p1 = stamp now p
      in if disk = MkdirFails then (d, p1, Some (Raised PyOSError))
         else case store_path (plan_id p1) of
           Inl e \<Rightarrow> (d, p1, Some e)
         | Inr f \<Rightarrow> (if disk = WriteFails then (d, p1, Some (Raised PyOSError))
                     else (dict_set f (Some (JObj (plan_to_dict p1))) d, p1, None)))"

definition load_plan ::
  "py_builtins \<Rightarrow> (string \<Rightarrow> acceptance_check list option) \<Rightarrow> plan_dir \<Rightarrow> string
     \<Rightarrow> plan_error + plan option" where
  "load_plan B crit d pid =
     bind_err (store_path pid) (\<lambda>f. case get_doc f d of
         None \<Rightarrow> Inr None
       | Some None \<Rightarrow> Inl (Raised PyValueError)
       | Some (Some (JObj kvs)) \<Rightarrow> map_sum id Some (plan_from_dict B crit (JObj kvs))
       | Some (Some _) \<Rightarrow> Inl (PlanValidationError (PlanFileNotAnObject f)))"

definition plan_exists :: "plan_dir \<Rightarrow> string \<Rightarrow> plan_error + bool" where
  "plan_exists d pid = map_sum id (\<lambda>f. get_doc f d \<noteq> None) (store_path pid)"

definition delete_plan :: "plan_dir \<Rightarrow> string \<Rightarrow> plan_error + (plan_dir \<times> bool)" where
  "delete_plan d pid = bind_err (store_path pid) (\<lambda>f.
     if get_doc f d = None then Inr (d, False) else Inr (dict_del f d, True))"

text \<open>
  \<^verbatim>\<open>list()\<close> skips a document that raises \<^verbatim>\<open>OSError\<close>, \<^verbatim>\<open>ValueError\<close> or \<^verbatim>\<open>PlanValidationError\<close>; any other
  exception leaves it.  The sort is stable and, reversed, puts the most recent first.
\<close>

fun skipped_by_list :: "plan_error \<Rightarrow> bool" where
  "skipped_by_list (Raised PyTypeError) = False"
| "skipped_by_list (Raised PyAttributeError) = False"
| "skipped_by_list _ = True"

fun load_all ::
  "py_builtins \<Rightarrow> (string \<Rightarrow> acceptance_check list option) \<Rightarrow> plan_dir \<Rightarrow> string list
     \<Rightarrow> plan_error + plan list" where
  "load_all B crit d [] = Inr []"
| "load_all B crit d (pid # pids) = (case load_plan B crit d pid of
     Inl e \<Rightarrow> (if skipped_by_list e then load_all B crit d pids else Inl e)
   | Inr None \<Rightarrow> load_all B crit d pids
   | Inr (Some p) \<Rightarrow> map_sum id (Cons p) (load_all B crit d pids))"

definition recency :: "plan \<Rightarrow> rat" where
  "recency p = (if updated_at p \<noteq> 0 then updated_at p else created_at p)"

definition list_plans ::
  "py_builtins \<Rightarrow> (string \<Rightarrow> acceptance_check list option) \<Rightarrow> plan_dir \<Rightarrow> plan_error + plan list" where
  "list_plans B crit d = map_sum id (sort_key (\<lambda>p. - recency p)) (load_all B crit d (doc_names d))"

fun save_many :: "(rat \<times> plan) list \<Rightarrow> plan_dir \<Rightarrow> plan_dir \<times> plan_error option" where
  "save_many [] d = (d, None)"
| "save_many ((now, p) # ps) d = (case save_plan DiskOk now d p of
     (d', _, None) \<Rightarrow> save_many ps d'
   | (d', _, Some e) \<Rightarrow> (d', Some e))"


lemma stamp_fields [simp]:
  "plan_id (stamp now p) = plan_id p" "steps (stamp now p) = steps p"
  "plan_status (stamp now p) = plan_status p" "plan_err (stamp now p) = plan_err p"
  "schema_version (stamp now p) = schema_version p" "updated_at (stamp now p) = now"
  "plan_cwd (stamp now p) = plan_cwd p" "task_id (stamp now p) = task_id p"
  "plan_task (stamp now p) = plan_task p"
  by (simp_all add: stamp_def Let_def)

lemma plan_storable_stamp [simp]: "plan_storable crit (stamp now p) = plan_storable crit p"
  by (simp add: plan_storable_def)

lemma stamp_move: "plan_move p (stamp now p)"
  by (rule bookkeeping) simp

lemma save_plan_result:
  "save_plan disk now d p = (d', q, e) \<Longrightarrow> q = stamp now p \<and>
     (e = None \<longleftrightarrow> disk = DiskOk \<and> (\<exists>f. store_path (plan_id p) = Inr f)) \<and>
     (e \<noteq> None \<longrightarrow> d' = d) \<and>
     (e = None \<longrightarrow> d' = dict_set (plan_id p) (Some (JObj (plan_to_dict q))) d)"
  by (cases disk) (auto simp: save_plan_def Let_def store_path_def split: if_splits)

lemma store_path_Inr: "store_path pid = Inr f \<Longrightarrow> f = pid"
  by (auto simp: store_path_def split: if_splits)

lemma load_after_save:
  assumes B: "py_builtins_ok B" and ok: "plan_storable crit p"
    and saved: "save_plan disk now d p = (d', q, None)"
  shows "load_plan B crit d' (plan_id p) = Inr (Some (stamp now p))"
    and "other \<noteq> plan_id p \<Longrightarrow> load_plan B crit d' other = load_plan B crit d other"
proof -
  have d': "d' = dict_set (plan_id p) (Some (JObj (plan_to_dict (stamp now p)))) d"
    and path: "store_path (plan_id p) = Inr (plan_id p)"
    using save_plan_result [OF saved] store_path_Inr by fastforce+
  have "plan_from_dict B crit (JObj (plan_to_dict (stamp now p))) = Inr (stamp now p)"
    by (rule plan_roundtrip) (simp_all add: B ok)
  then show "load_plan B crit d' (plan_id p) = Inr (Some (stamp now p))"
    by (simp add: load_plan_def path d' dir.get_put)
  show "load_plan B crit d' other = load_plan B crit d other" if "other \<noteq> plan_id p"
    using that by (auto simp: load_plan_def d' bind_err_def dir.get_put store_path_def)
qed

text \<open>\<^verbatim>\<open>list()\<close> returns every document that loads, most recently updated first.\<close>

lemma load_all_set:
  "load_all B crit d pids = Inr ps \<Longrightarrow>
     p \<in> set ps \<longleftrightarrow> (\<exists>pid \<in> set pids. load_plan B crit d pid = Inr (Some p))"
proof (induction pids arbitrary: ps)
  case (Cons pid pids)
  show ?case
  proof (cases "load_plan B crit d pid")
    case (Inl e)
    then show ?thesis using Cons by (auto split: if_splits)
  next
    case (Inr r)
    then show ?thesis using Cons
      by (cases r; cases "load_all B crit d pids") auto
  qed
qed simp

lemma load_plan_some_name:
  "load_plan B crit d pid = Inr (Some p) \<Longrightarrow> pid \<in> set (doc_names d)"
  by (cases "store_path pid")
    (auto simp: load_plan_def dir.names_iff dest: store_path_Inr split: option.splits)

lemma list_plans_result:
  assumes "list_plans B crit d = Inr ps"
  shows "p \<in> set ps \<longleftrightarrow> (\<exists>pid. load_plan B crit d pid = Inr (Some p))"
    and "sorted_wrt (\<lambda>p q. recency p \<ge> recency q) ps"
proof -
  obtain qs where qs: "load_all B crit d (doc_names d) = Inr qs"
      and ps: "ps = sort_key (\<lambda>p. - recency p) qs"
    using assms by (cases "load_all B crit d (doc_names d)") (auto simp: list_plans_def)
  show "p \<in> set ps \<longleftrightarrow> (\<exists>pid. load_plan B crit d pid = Inr (Some p))"
    using load_all_set [OF qs] load_plan_some_name by (fastforce simp: ps)
  have "sorted (map (\<lambda>p. - recency p) ps)" by (simp add: ps)
  then show "sorted_wrt (\<lambda>p q. recency p \<ge> recency q) ps"
    by (simp add: sorted_wrt_map)
qed

section \<open>Approval of a step by a human\<close>

definition CHECK_HUMAN_REVIEW :: string where "CHECK_HUMAN_REVIEW = ''human_review''"
definition CHECK_ACTION_SUCCEEDED :: string where "CHECK_ACTION_SUCCEEDED = ''action_succeeded''"

record approval_result =
  ap_plan :: plan
  ap_decision :: string
  ap_changed :: bool

definition require_human_review_step :: "plan \<Rightarrow> string \<Rightarrow> plan_error + plan_step" where
  "require_human_review_step p sid = bind_err (get_step p sid) (\<lambda>s.
     if list_ex (\<lambda>c. check_type c = CHECK_HUMAN_REVIEW) (acceptance s) then Inr s
     else Inl (ApprovalError sid (plan_id p)))"

text \<open>The dash of the message is U+2014, here as its UTF-8 bytes.\<close>

definition decision_log :: "string \<Rightarrow> string \<Rightarrow> json" where
  "decision_log decision comment = JObj
     [(''type'', JStr CHECK_HUMAN_REVIEW), (''ok'', JBool (decision = ''approve'')),
      (''message'', JStr (''human decision: '' @ decision @
          (if comment = [] then [] else '' '' @ [CHR 0xE2, CHR 0x80, CHR 0x94] @ '' '' @ comment))),
      (''detail'', JObj [(''comment'', JStr (take 2000 comment))])]"

definition decide ::
  "py_builtins \<Rightarrow> (string \<Rightarrow> acceptance_check list option) \<Rightarrow> disk \<Rightarrow> rat \<Rightarrow> plan_dir \<Rightarrow> string
     \<Rightarrow> string \<Rightarrow> string \<Rightarrow> string \<Rightarrow> plan_dir \<times> (plan_error + approval_result)" where
  "decide B crit disk now d pid sid decision comment =
     (if decision \<notin> {''approve'', ''reject''} then (d, Inl (Raised PyValueError))
      else case load_plan B crit d pid of
        Inl e \<Rightarrow> (d, Inl e)
      | Inr None \<Rightarrow> (d, Inl (Raised (PyFileNotFoundError pid)))
      | Inr (Some p) \<Rightarrow> (case require_human_review_step p sid of
          Inl e \<Rightarrow> (d, Inl e)
        | Inr s \<Rightarrow>
            (let desired = (if decision = ''approve'' then VERIFIED else FAILED);
                 label = (if decision = ''approve'' then ''approved'' else ''rejected'')
             in if step_status s = desired then (d, Inr \<lparr>ap_plan = p, ap_decision = label, ap_changed = False\<rparr>)
                else if step_status s \<noteq> VERIFYING then (d, Inl (ApprovalConflictError sid (step_status s)))
                else case transition p sid desired
                       (if decision = ''reject'' then ''rejected by human'' else []) False False now of
                  Inl e \<Rightarrow> (d, Inl e)
                | Inr p1 \<Rightarrow>
                    (let p2 = upd_step sid (\<lambda>s. s\<lparr>verify_log := [decision_log decision comment]\<rparr>) p1
                     in case save_plan disk now d p2 of
                       (d', p3, Some e) \<Rightarrow> (d', Inl e)
                     | (d', p3, None) \<Rightarrow> (d', Inr \<lparr>ap_plan = p3, ap_decision = label, ap_changed = True\<rparr>)))))"


definition desired_status :: "string \<Rightarrow> string" where
  "desired_status decision = (if decision = ''approve'' then VERIFIED else FAILED)"

lemma decide_error:
  "decide B crit disk now d pid sid decision comment = (d', Inl e) \<Longrightarrow> d' = d"
  by (auto simp: decide_def Let_def dest: save_plan_result
      split: if_splits sum.splits option.splits prod.splits)

lemma decide_unchanged:
  "decide B crit disk now d pid sid decision comment = (d', Inr r) \<Longrightarrow> \<not> ap_changed r \<Longrightarrow>
     d' = d \<and> status_of (ap_plan r) sid = Some (desired_status decision)"
  by (auto simp: decide_def Let_def desired_status_def require_human_review_step_def bind_err_def
      status_of_get split: if_splits sum.splits option.splits prod.splits)

text \<open>A decision that changes something found the step in \<^verbatim>\<open>verifying\<close>, under a human-review check.\<close>

lemma decide_changed:
  assumes "decide B crit disk now d pid sid decision comment = (d', Inr r)" "ap_changed r"
  shows "\<exists>p s p1. load_plan B crit d pid = Inr (Some p) \<and> get_step p sid = Inr s \<and>
    step_status s = VERIFYING \<and> list_ex (\<lambda>c. check_type c = CHECK_HUMAN_REVIEW) (acceptance s) \<and>
    transition p sid (desired_status decision)
       (if decision = ''reject'' then ''rejected by human'' else []) False False now = Inr p1 \<and>
    save_plan disk now d (upd_step sid (\<lambda>s. s\<lparr>verify_log := [decision_log decision comment]\<rparr>) p1)
       = (d', ap_plan r, None)"
  using assms
  by (auto simp: decide_def Let_def desired_status_def require_human_review_step_def bind_err_def
      split: if_splits sum.splits option.splits prod.splits)

lemma log_move: "plan_move p (upd_step sid (\<lambda>s. s\<lparr>verify_log := l\<rparr>) p)"
  by (rule evidence) simp

lemma decide_moves:
  assumes "decide B crit disk now d pid sid decision comment = (d', Inr r)"
  shows "\<exists>p. load_plan B crit d pid = Inr (Some p) \<and> plan_moves p (ap_plan r)"
proof (cases "ap_changed r")
  case True
  from decide_changed [OF assms True] obtain p p1 where p: "load_plan B crit d pid = Inr (Some p)"
    and t: "transition p sid (desired_status decision)
       (if decision = ''reject'' then ''rejected by human'' else []) False False now = Inr p1"
    and w: "save_plan disk now d (upd_step sid (\<lambda>s. s\<lparr>verify_log := [decision_log decision comment]\<rparr>) p1)
       = (d', ap_plan r, None)"
    by blast
  have "plan_moves p p1" using engine [OF t] by blast
  also have "plan_moves p1 (upd_step sid (\<lambda>s. s\<lparr>verify_log := [decision_log decision comment]\<rparr>) p1)"
    using log_move by blast
  also have "plan_moves \<dots> (ap_plan r)" using save_plan_result [OF w] stamp_move by auto
  finally show ?thesis using p by blast
next
  case False
  then show ?thesis using assms
    by (auto simp: decide_def Let_def split: if_splits sum.splits option.splits prod.splits)
qed

text \<open>A transition keeps a plan storable.\<close>

lemma step_storable_apply:
  "step_storable crit s \<Longrightarrow> t \<in> set STEP_STATUSES \<Longrightarrow> step_storable crit (apply_status t e now s)"
  by (auto simp: step_storable_def apply_status_def Let_def STEP_STATUSES_def status_defs)

lemma plan_storable_upd:
  assumes "plan_storable crit p" "\<And>s. step_storable crit s \<Longrightarrow> step_storable crit (f s)"
  shows "plan_storable crit (upd_step sid f p)"
  using assms by (auto simp: plan_storable_def upd_step_def dest!: in_set_upd_first)

lemma plan_status_nonempty: "derived_status sts \<noteq> []"
  by (simp add: derived_status_def status_defs)

lemma plan_storable_recompute: "plan_storable crit p \<Longrightarrow> plan_storable crit (recompute_plan_status p)"
  by (auto simp: plan_storable_def recompute_plan_status_def plan_status_nonempty)

lemma plan_storable_transition:
  "plan_storable crit p \<Longrightarrow> transition p sid t e sk f now = Inr q \<Longrightarrow> plan_storable crit q"
  by (auto simp: transition_iff intro!: plan_storable_recompute plan_storable_upd step_storable_apply)

lemma plan_storable_log:
  "plan_storable crit p \<Longrightarrow> plan_storable crit (upd_step sid (\<lambda>s. s\<lparr>verify_log := l\<rparr>) p)"
  by (rule plan_storable_upd) (auto simp: step_storable_def)

text \<open>
  The contract of an approval: after a decision was accepted, the stored plan carries it, the
  same decision again changes nothing and the opposite one is refused.
\<close>

lemma decide_stored:
  assumes B: "py_builtins_ok B"
    and p: "load_plan B crit d pid = Inr (Some p)" "plan_id p = pid" "plan_storable crit p"
    and r: "decide B crit disk now d pid sid decision comment = (d', Inr r)"
  shows "load_plan B crit d' pid = Inr (Some (ap_plan r))"
    "status_of (ap_plan r) sid = Some (desired_status decision)"
    "\<exists>s. get_step (ap_plan r) sid = Inr s \<and> list_ex (\<lambda>c. check_type c = CHECK_HUMAN_REVIEW) (acceptance s)"
    "other \<noteq> sid \<Longrightarrow> get_step (ap_plan r) other = get_step p other"
proof -
  let ?log = "\<lambda>s. s\<lparr>verify_log := [decision_log decision comment]\<rparr>"
  have "load_plan B crit d' pid = Inr (Some (ap_plan r)) \<and>
    status_of (ap_plan r) sid = Some (desired_status decision) \<and>
    (\<exists>s. get_step (ap_plan r) sid = Inr s \<and> list_ex (\<lambda>c. check_type c = CHECK_HUMAN_REVIEW) (acceptance s)) \<and>
    (other \<noteq> sid \<longrightarrow> get_step (ap_plan r) other = get_step p other)"
  proof (cases "ap_changed r")
    case True
    obtain s p1 where s: "get_step p sid = Inr s"
        "list_ex (\<lambda>c. check_type c = CHECK_HUMAN_REVIEW) (acceptance s)"
      and t: "transition p sid (desired_status decision)
         (if decision = ''reject'' then ''rejected by human'' else []) False False now = Inr p1"
      and w: "save_plan disk now d (upd_step sid ?log p1) = (d', ap_plan r, None)"
      using decide_changed [OF r True] p(1) by auto
    let ?p2 = "upd_step sid ?log p1"
    have q: "ap_plan r = stamp now ?p2" using save_plan_result [OF w] by simp
    have id2: "plan_id ?p2 = pid" using transition_frame(2) [OF t] p(2) by simp
    have "load_plan B crit d' pid = Inr (Some (stamp now ?p2))"
      using load_after_save(1) [OF B _ w] plan_storable_log [OF plan_storable_transition [OF p(3) t]] id2
      by simp
    moreover have g: "get_step (stamp now ?p2) i = get_step ?p2 i" for i by (simp add: get_step_def)
    obtain s' where s': "get_step p1 sid = Inr s'" "step_status s' = desired_status decision"
        "acceptance s' = acceptance s"
      using transition_result [OF t] s(1) by (metis Inr_inject apply_status_frame(2,4))
    have "get_step (stamp now ?p2) sid = Inr (?log s')"
      using s'(1) by (simp add: g get_step_upd_same)
    moreover have "get_step (stamp now ?p2) other = get_step p other" if "other \<noteq> sid"
      using transition_frame(8) [OF t that] that by (simp add: g get_step_upd_other)
    ultimately show ?thesis using s' s(2) by (auto simp: q status_of_get)
  next
    case False
    then have "d' = d \<and> ap_plan r = p \<and> (\<exists>s. require_human_review_step p sid = Inr s)"
      using r p(1) by (auto simp: decide_def Let_def split: if_splits sum.splits option.splits prod.splits)
    then show ?thesis using decide_unchanged [OF r False] p(1)
      by (auto simp: require_human_review_step_def bind_err_def split: sum.splits if_splits)
  qed
  then show "load_plan B crit d' pid = Inr (Some (ap_plan r))"
    "status_of (ap_plan r) sid = Some (desired_status decision)"
    "\<exists>s. get_step (ap_plan r) sid = Inr s \<and> list_ex (\<lambda>c. check_type c = CHECK_HUMAN_REVIEW) (acceptance s)"
    "other \<noteq> sid \<Longrightarrow> get_step (ap_plan r) other = get_step p other" by auto
qed

lemma decide_again:
  assumes B: "py_builtins_ok B"
    and p: "load_plan B crit d pid = Inr (Some p)" "plan_id p = pid" "plan_storable crit p"
    and r: "decide B crit disk now d pid sid decision comment = (d', Inr r)"
  shows "decide B crit disk2 now2 d' pid sid decision comment2 = (d', Inr (r\<lparr>ap_changed := False\<rparr>))"
    and "{other, decision} = {''approve'', ''reject''} \<Longrightarrow>
      decide B crit disk2 now2 d' pid sid other comment2
        = (d', Inl (ApprovalConflictError sid (desired_status decision)))"
proof -
  obtain s where s: "get_step (ap_plan r) sid = Inr s"
      "list_ex (\<lambda>c. check_type c = CHECK_HUMAN_REVIEW) (acceptance s)" "step_status s = desired_status decision"
    using decide_stored(2,3) [OF B p r] by (auto simp: status_of_get)
  have req: "require_human_review_step (ap_plan r) sid = Inr s"
    using s by (simp add: require_human_review_step_def)
  note l = decide_stored(1) [OF B p r]
  have dec: "decision \<in> {''approve'', ''reject''}"
    and lab: "ap_decision r = (if decision = ''approve'' then ''approved'' else ''rejected'')"
    using r by (auto simp: decide_def Let_def split: if_splits sum.splits option.splits prod.splits)
  show "decide B crit disk2 now2 d' pid sid decision comment2 = (d', Inr (r\<lparr>ap_changed := False\<rparr>))"
    using l req s(3) dec lab
    by (auto simp: decide_def desired_status_def Let_def)
  show "{other, decision} = {''approve'', ''reject''} \<Longrightarrow>
      decide B crit disk2 now2 d' pid sid other comment2
        = (d', Inl (ApprovalConflictError sid (desired_status decision)))"
    using l req s(3) by (auto simp: decide_def desired_status_def Let_def doubleton_eq_iff)
qed

end
