(* ===== verification/Verify_Checks.thy ===== *)
theory Verify_Checks
  imports Verify_Git Plan_Store
begin

text \<open>
  \<^verbatim>\<open>src/voly/plan/verify_checks.py\<close>: one handler per acceptance check, the dispatch that fails an
  unknown type closed, and the run over a list of checks.
\<close>

definition verdict :: "string \<Rightarrow> bool \<Rightarrow> string \<Rightarrow> (string \<times> json) list \<Rightarrow> verify_result" where
  "verdict t ok msg detail = \<lparr>vr_type = t, vr_ok = ok, vr_message = msg, vr_detail = detail\<rparr>"

lemma verdict_simps [simp]:
  "vr_type (verdict t ok m d) = t" "vr_ok (verdict t ok m d) = ok"
  "vr_message (verdict t ok m d) = m" "vr_detail (verdict t ok m d) = d"
  by (simp_all add: verdict_def)

definition jstr_list :: "string list \<Rightarrow> json" where
  "jstr_list xs = JList (map JStr xs)"

definition resolve_git_after :: "verify_env \<Rightarrow> verify_ctx \<Rightarrow> (string \<times> string) list" where
  "resolve_git_after E ctx =
     (if vc_git_after ctx \<noteq> [] then vc_git_after ctx
      else if vc_cwd ctx \<noteq> [] then git_porcelain E (vc_cwd ctx) else [])"

section \<open>Files\<close>

text \<open>The loop over declared paths: those that satisfy \<open>P\<close>, or the message of an escape.\<close>

fun scan_paths :: "verify_env \<Rightarrow> string \<Rightarrow> (string \<Rightarrow> bool) \<Rightarrow> string list \<Rightarrow> string + string list" where
  "scan_paths E cwd P [] = Inr []"
| "scan_paths E cwd P (rel # rels) = (case safe_join E cwd rel of
     Inl m \<Rightarrow> Inl m
   | Inr target \<Rightarrow> map_sum id (\<lambda>hits. if P target then rel # hits else hits) (scan_paths E cwd P rels))"

definition check_files_exist :: "verify_env \<Rightarrow> acceptance_check \<Rightarrow> verify_ctx \<Rightarrow> verify_result" where
  "check_files_exist E c ctx =
     (if paths c = [] then verdict ''files_exist'' False ''files_exist requires paths[]'' []
      else case scan_paths E (vc_cwd ctx) (\<lambda>t. \<not> ve_exists E t) (paths c) of
        Inl m \<Rightarrow> verdict ''files_exist'' False m []
      | Inr missing \<Rightarrow>
          if missing \<noteq> []
          then verdict ''files_exist'' False (''missing: '' @ ve_repr E (jstr_list missing))
                 [(''missing'', jstr_list missing)]
          else verdict ''files_exist'' True ''all paths exist'' [(''paths'', jstr_list (paths c))])"

definition check_files_missing :: "verify_env \<Rightarrow> acceptance_check \<Rightarrow> verify_ctx \<Rightarrow> verify_result" where
  "check_files_missing E c ctx =
     (if paths c = [] then verdict ''files_missing'' False ''files_missing requires paths[]'' []
      else case scan_paths E (vc_cwd ctx) (ve_exists E) (paths c) of
        Inl m \<Rightarrow> verdict ''files_missing'' False m []
      | Inr present \<Rightarrow>
          if present \<noteq> []
          then verdict ''files_missing'' False (''still present: '' @ ve_repr E (jstr_list present))
                 [(''present'', jstr_list present)]
          else verdict ''files_missing'' True ''all paths absent'' [(''paths'', jstr_list (paths c))])"

section \<open>Git evidence\<close>

definition git_changed :: "verify_env \<Rightarrow> verify_ctx \<Rightarrow> string list" where
  "git_changed E ctx =
     (let after = resolve_git_after E ctx
      in if vc_git_before ctx \<noteq> [] \<or> vc_git_after ctx \<noteq> [] then changed_paths (vc_git_before ctx) after
         else sorted_set (map fst after))"

text \<open>Without a change in git, the files the step says it touched are soft evidence.\<close>

definition changed_or_touched :: "verify_env \<Rightarrow> verify_ctx \<Rightarrow> string list" where
  "changed_or_touched E ctx =
     (if git_changed E ctx = [] \<and> vc_files_touched ctx \<noteq> [] then sorted_set (vc_files_touched ctx)
      else git_changed E ctx)"

definition in_dir :: "string \<Rightarrow> string \<Rightarrow> bool" where
  "in_dir p w \<longleftrightarrow> p = w \<or> starts_with p (rstrip_chars ''/'' w @ ''/'')"

definition check_git_diff_nonempty :: "verify_env \<Rightarrow> acceptance_check \<Rightarrow> verify_ctx \<Rightarrow> verify_result" where
  "check_git_diff_nonempty E c ctx =
     (let changed0 = changed_or_touched E ctx;
          changed = (if paths c \<noteq> [] then filter (\<lambda>p. list_ex (in_dir p) (paths c)) changed0 else changed0)
      in if changed = []
         then verdict ''git_diff_nonempty'' False ''no git changes detected'' [(''changed'', JList [])]
         else verdict ''git_diff_nonempty'' True (str_int (int (length changed)) @ '' path(s) changed'')
                [(''changed'', jstr_list changed)])"

definition check_git_diff_contains :: "verify_env \<Rightarrow> acceptance_check \<Rightarrow> verify_ctx \<Rightarrow> verify_result" where
  "check_git_diff_contains E c ctx =
     (let changed = changed_or_touched E ctx
      in if paths c \<noteq> [] then
           (let hits = sorted_set (concat (map (\<lambda>w. filter (\<lambda>p. in_dir p w \<or> has_sub p w) changed) (paths c)))
            in if hits = []
               then verdict ''git_diff_contains'' False
                      (''none of paths '' @ ve_repr E (jstr_list (paths c)) @ '' in changed='' @
                         ve_repr E (jstr_list changed)) [(''changed'', jstr_list changed)]
               else verdict ''git_diff_contains'' True (''matched paths: '' @ ve_repr E (jstr_list hits))
                      [(''hits'', jstr_list hits), (''changed'', jstr_list changed)])
         else if pattern c \<noteq> [] then
           (case ve_regex E False (pattern c) of
              Inl m \<Rightarrow> verdict ''git_diff_contains'' False (''invalid pattern: '' @ m) []
            | Inr rx \<Rightarrow>
                (let hits = filter rx changed
                 in if hits = []
                    then verdict ''git_diff_contains'' False
                           (''no changed path matches '' @ ve_repr E (JStr (pattern c)))
                           [(''changed'', jstr_list changed)]
                    else verdict ''git_diff_contains'' True (''pattern matched: '' @ ve_repr E (jstr_list hits))
                           [(''hits'', jstr_list hits)]))
         else verdict ''git_diff_contains'' False ''git_diff_contains requires paths[] or pattern'' [])"

section \<open>Commands\<close>

definition last_chars :: "nat \<Rightarrow> string \<Rightarrow> string" where
  "last_chars n s = drop (length s - n) s"

definition run_command_argv :: "verify_env \<Rightarrow> string list \<Rightarrow> verify_ctx \<Rightarrow> int \<Rightarrow> verify_result" where
  "run_command_argv E argv ctx expected =
     (let timeout = (if vc_command_timeout ctx > 0 then vc_command_timeout ctx else DEFAULT_COMMAND_TIMEOUT)
      in case ve_run E argv (vc_cwd ctx) timeout of
        ExecutableNotFound m \<Rightarrow> verdict ''command'' False (''executable not found: '' @ m)
          [(''argv'', jstr_list argv)]
      | TimedOut \<Rightarrow> verdict ''command'' False (''timeout after '' @ ve_repr E (JFloat timeout) @ ''s'')
          [(''argv'', jstr_list argv), (''timeout'', JFloat timeout)]
      | RunOsError m \<Rightarrow> verdict ''command'' False (''os error: '' @ m) [(''argv'', jstr_list argv)]
      | Exited code out err \<Rightarrow>
          (let ok = (code = expected)
           in verdict ''command'' ok
                (if ok then ''exit '' @ str_int code
                 else ''exit '' @ str_int code @ '' (expected '' @ str_int expected @ '')'')
                [(''argv'', jstr_list argv), (''returncode'', JInt code), (''expect_exit'', JInt expected),
                 (''stdout_tail'', JStr (last_chars 2000 out)), (''stderr_tail'', JStr (last_chars 2000 err))]))"

definition check_command :: "verify_env \<Rightarrow> acceptance_check \<Rightarrow> verify_ctx \<Rightarrow> verify_result" where
  "check_command E c ctx =
     (if strip (run_cmd c) = [] then verdict ''command'' False ''command requires run'' []
      else if vc_cwd ctx = [] then verdict ''command'' False ''command requires cwd'' []
      else let raw = strip (run_cmd c);
               run = (if vc_scope_pytest ctx then scope_pytest_command raw (vc_files_touched ctx) else raw)
           in case shlex_split run of
                None \<Rightarrow> verdict ''command'' False (''invalid run string: '' @ ve_shlex_error E run) []
              | Some [] \<Rightarrow> verdict ''command'' False ''empty command after split'' []
              | Some argv \<Rightarrow> run_command_argv E argv ctx (expect_exit c))"

section \<open>Output\<close>

definition check_output_nonempty :: "verify_env \<Rightarrow> acceptance_check \<Rightarrow> verify_ctx \<Rightarrow> verify_result" where
  "check_output_nonempty E c ctx =
     (if strip (vc_output ctx) \<noteq> []
      then verdict ''output_nonempty'' True (''output length='' @ str_int (int (length (vc_output ctx))))
             [(''length'', JInt (int (length (vc_output ctx))))]
      else verdict ''output_nonempty'' False ''output is empty'' [])"

definition check_output_regex :: "verify_env \<Rightarrow> acceptance_check \<Rightarrow> verify_ctx \<Rightarrow> verify_result" where
  "check_output_regex E c ctx =
     (if pattern c = [] then verdict ''output_regex'' False ''output_regex requires pattern'' []
      else case ve_regex E True (pattern c) of
        Inl m \<Rightarrow> verdict ''output_regex'' False (''invalid pattern: '' @ m) []
      | Inr rx \<Rightarrow>
          if rx (vc_output ctx) then verdict ''output_regex'' True (''matched '' @ ve_repr E (JStr (pattern c))) []
          else verdict ''output_regex'' False (''output does not match '' @ ve_repr E (JStr (pattern c)))
                 [(''output_len'', JInt (int (length (vc_output ctx))))])"

section \<open>The line limit\<close>

definition GENERATED_BASENAMES :: "string list" where
  "GENERATED_BASENAMES = [''package-lock.json'', ''yarn.lock'', ''pnpm-lock.yaml'', ''poetry.lock'',
     ''Pipfile.lock'', ''Cargo.lock'', ''go.sum'', ''composer.lock'', ''.coverage'']"

definition GENERATED_PREFIXES :: "string list" where
  "GENERATED_PREFIXES = [''node_modules/'', ''.venv/'', ''venv/'', ''__pycache__/'', ''.pytest_cache/'',
     ''.mypy_cache/'', ''.ruff_cache/'', ''.tox/'']"

definition posix_slashes :: "string \<Rightarrow> string" where
  "posix_slashes s = replace_char (CHR 0x5C) CHR ''/'' s"

definition is_generated_file :: "string \<Rightarrow> string list \<Rightarrow> bool" where
  "is_generated_file rel extra =
     (let norm = lstrip_chars ''./'' (posix_slashes rel); basename = path_name rel
      in basename \<in> set GENERATED_BASENAMES \<or>
         list_ex (\<lambda>prefix. starts_with norm prefix \<or> has_sub (''/'' @ norm) (''/'' @ prefix)) GENERATED_PREFIXES \<or>
         list_ex (\<lambda>pat. let pn = strip_chars ''/'' (posix_slashes pat)
                     in pn \<noteq> [] \<and> (basename = pn \<or> norm = pn \<or> starts_with norm (pn @ ''/'') \<or>
                                  pn \<in> set (split_on CHR ''/'' norm))) extra)"

definition NEWLINE :: char where "NEWLINE = CHR 0x0A"

definition line_count :: "string \<Rightarrow> int option" where
  "line_count raw =
     (if CHR 0x00 \<in> set raw then None
      else if raw = [] then Some 0
      else Some (int (length (filter (\<lambda>c. c = NEWLINE) raw)) + (if last raw = NEWLINE then 0 else 1)))"

definition line_limit_candidates :: "verify_env \<Rightarrow> acceptance_check \<Rightarrow> verify_ctx \<Rightarrow> string list" where
  "line_limit_candidates E c ctx =
     (if paths c \<noteq> [] then dict_fromkeys (paths c)
      else if vc_files_touched ctx \<noteq> [] then dict_fromkeys (vc_files_touched ctx)
      else git_changed E ctx)"

record line_scan =
  ls_checked :: "(string \<times> int) list"
  ls_binary :: "string list"
  ls_generated :: "string list"
  ls_violations :: "(string \<times> int) list"

text \<open>A read that fails or a path that escapes ends the scan with its message.\<close>

fun scan_lines :: "verify_env \<Rightarrow> string \<Rightarrow> string list \<Rightarrow> int \<Rightarrow> string list \<Rightarrow> string + line_scan" where
  "scan_lines E cwd extra limit [] = Inr \<lparr>ls_checked = [], ls_binary = [], ls_generated = [], ls_violations = []\<rparr>"
| "scan_lines E cwd extra limit (rel # rels) =
     (let rest = scan_lines E cwd extra limit rels
      in if is_generated_file rel extra
         then map_sum id (\<lambda>s. s\<lparr>ls_generated := rel # ls_generated s\<rparr>) rest
         else case safe_join E cwd rel of
           Inl m \<Rightarrow> Inl m
         | Inr target \<Rightarrow>
             if \<not> ve_is_file E target then rest
             else case ve_read E target of
               Inl m \<Rightarrow> Inl m
             | Inr raw \<Rightarrow> (case line_count raw of
                   None \<Rightarrow> map_sum id (\<lambda>s. s\<lparr>ls_binary := rel # ls_binary s\<rparr>) rest
                 | Some n \<Rightarrow> map_sum id (\<lambda>s. s\<lparr>ls_checked := (rel, n) # ls_checked s,
                     ls_violations := (if n > limit then (rel, n) # ls_violations s else ls_violations s)\<rparr>) rest))"

definition base_limit :: "acceptance_check \<Rightarrow> int" where
  "base_limit c = (if max_lines c = 0 then 300 else max_lines c)"

definition approved_cap :: "acceptance_check \<Rightarrow> int" where
  "approved_cap c = (if approved_max_lines c = 0 then base_limit c else approved_max_lines c)"

definition effective_limit :: "acceptance_check \<Rightarrow> verify_ctx \<Rightarrow> int" where
  "effective_limit c ctx =
     (if vc_approved_limit ctx > base_limit c then min (vc_approved_limit ctx) (approved_cap c)
      else base_limit c)"

definition jcounts :: "(string \<times> int) list \<Rightarrow> json" where
  "jcounts d = JObj (map (\<lambda>(k, n). (k, JInt n)) d)"

definition line_limit_detail :: "acceptance_check \<Rightarrow> verify_ctx \<Rightarrow> line_scan \<Rightarrow> (string \<times> json) list" where
  "line_limit_detail c ctx s =
     [(''limit'', JInt (effective_limit c ctx)), (''base_limit'', JInt (base_limit c)),
      (''architect_approved'', JBool (effective_limit c ctx > base_limit c)),
      (''checked'', jcounts (ls_checked s)), (''skipped_binary'', jstr_list (ls_binary s)),
      (''skipped_generated'', jstr_list (ls_generated s)), (''violations'', jcounts (ls_violations s))]"

definition check_file_line_limit :: "verify_env \<Rightarrow> acceptance_check \<Rightarrow> verify_ctx \<Rightarrow> verify_result" where
  "check_file_line_limit E c ctx =
     (if base_limit c \<le> 0 then verdict ''file_line_limit'' False ''max_lines must be positive'' []
      else if approved_cap c < base_limit c
        then verdict ''file_line_limit'' False ''approved_max_lines must be >= max_lines'' []
      else if vc_cwd ctx = [] then verdict ''file_line_limit'' False ''file_line_limit requires cwd'' []
      else if line_limit_candidates E c ctx = []
        then verdict ''file_line_limit'' False ''no changed files available for line-limit verification''
               [(''limit'', JInt (effective_limit c ctx)), (''checked'', JObj [])]
      else case scan_lines E (vc_cwd ctx) (exclude_patterns c) (effective_limit c ctx)
                  (line_limit_candidates E c ctx) of
        Inl m \<Rightarrow> verdict ''file_line_limit'' False m []
      | Inr s \<Rightarrow>
          if ls_violations s \<noteq> []
          then verdict ''file_line_limit'' False
                 (''file line limit '' @ str_int (effective_limit c ctx) @ '' exceeded: '' @
                  join '', '' (map (\<lambda>(p, n). p @ ''='' @ str_int n) (sort_key fst (ls_violations s))))
                 (line_limit_detail c ctx s)
          else verdict ''file_line_limit'' True
                 (str_int (int (length (ls_checked s))) @ '' text file(s) within '' @
                  str_int (effective_limit c ctx) @ '' lines'') (line_limit_detail c ctx s))"

section \<open>Dispatch\<close>

definition check_human_review :: verify_result where
  "check_human_review = verdict CHECK_HUMAN_REVIEW False
     (''human_review is resolved by an explicit decision '' @
      ''(voly.plan.approval.decide or voly.decisions.DecisionService), '' @ ''not generic verification'') []"

definition check_action_succeeded :: verify_result where
  "check_action_succeeded = verdict CHECK_ACTION_SUCCEEDED False
     ''action_succeeded is resolved by DecisionService.execute(), not generic verification'' []"

definition KNOWN_CHECK_TYPES :: "string list" where
  "KNOWN_CHECK_TYPES = [''action_succeeded'', ''command'', ''file_line_limit'', ''files_exist'', ''files_missing'',
     ''git_diff_contains'', ''git_diff_nonempty'', ''human_review'', ''output_nonempty'', ''output_regex'']"

definition run_check :: "verify_env \<Rightarrow> acceptance_check \<Rightarrow> verify_ctx \<Rightarrow> verify_result" where
  "run_check E c ctx =
     (let ctype = strip (check_type c)
      in if ctype = ''command'' then check_command E c ctx
         else if ctype = ''files_exist'' then check_files_exist E c ctx
         else if ctype = ''files_missing'' then check_files_missing E c ctx
         else if ctype = ''git_diff_nonempty'' then check_git_diff_nonempty E c ctx
         else if ctype = ''git_diff_contains'' then check_git_diff_contains E c ctx
         else if ctype = ''output_nonempty'' then check_output_nonempty E c ctx
         else if ctype = ''output_regex'' then check_output_regex E c ctx
         else if ctype = ''file_line_limit'' then check_file_line_limit E c ctx
         else if ctype = CHECK_HUMAN_REVIEW then check_human_review
         else if ctype = CHECK_ACTION_SUCCEEDED then check_action_succeeded
         else verdict (str_or ctype ''unknown'') False
                (''unknown check type: '' @ ve_repr E (JStr ctype) @ '' (fail closed)'')
                [(''known'', jstr_list KNOWN_CHECK_TYPES)])"

fun run_acceptance ::
  "verify_env \<Rightarrow> verify_ctx \<Rightarrow> bool \<Rightarrow> acceptance_check list \<Rightarrow> verify_result list" where
  "run_acceptance E ctx stop_on_fail [] = []"
| "run_acceptance E ctx stop_on_fail (c # cs) =
     (let r = run_check E c ctx
      in if stop_on_fail \<and> \<not> vr_ok r then [r] else r # run_acceptance E ctx stop_on_fail cs)"

definition all_passed :: "verify_result list \<Rightarrow> bool" where
  "all_passed rs \<longleftrightarrow> rs \<noteq> [] \<and> list_all vr_ok rs"

section \<open>What the checks establish\<close>

lemma scan_paths_none:
  "scan_paths E cwd P rels = Inr [] \<longleftrightarrow>
     (\<forall>rel \<in> set rels. \<exists>t. safe_join E cwd rel = Inr t \<and> \<not> P t)"
proof (induction rels)
  case (Cons rel rels)
  then show ?case
    by (cases "safe_join E cwd rel"; cases "scan_paths E cwd P rels") auto
qed simp

lemma files_exist_ok:
  "vr_ok (check_files_exist E c ctx) \<longleftrightarrow> paths c \<noteq> [] \<and>
     (\<forall>rel \<in> set (paths c). \<exists>t. safe_join E (vc_cwd ctx) rel = Inr t \<and> ve_exists E t)"
proof -
  have "vr_ok (check_files_exist E c ctx) \<longleftrightarrow> paths c \<noteq> [] \<and>
      scan_paths E (vc_cwd ctx) (\<lambda>t. \<not> ve_exists E t) (paths c) = Inr []"
    by (auto simp: check_files_exist_def split: sum.splits)
  then show ?thesis by (simp add: scan_paths_none)
qed

lemma files_missing_ok:
  "vr_ok (check_files_missing E c ctx) \<longleftrightarrow> paths c \<noteq> [] \<and>
     (\<forall>rel \<in> set (paths c). \<exists>t. safe_join E (vc_cwd ctx) rel = Inr t \<and> \<not> ve_exists E t)"
proof -
  have "vr_ok (check_files_missing E c ctx) \<longleftrightarrow> paths c \<noteq> [] \<and>
      scan_paths E (vc_cwd ctx) (ve_exists E) (paths c) = Inr []"
    by (auto simp: check_files_missing_def split: sum.splits)
  then show ?thesis by (simp add: scan_paths_none)
qed

lemma command_ok:
  "vr_ok (check_command E c ctx) \<longleftrightarrow> strip (run_cmd c) \<noteq> [] \<and> vc_cwd ctx \<noteq> [] \<and>
     (\<exists>argv out err. argv \<noteq> [] \<and>
        shlex_split (if vc_scope_pytest ctx then scope_pytest_command (strip (run_cmd c)) (vc_files_touched ctx)
                     else strip (run_cmd c)) = Some argv \<and>
        ve_run E argv (vc_cwd ctx) (if vc_command_timeout ctx > 0 then vc_command_timeout ctx
                                     else DEFAULT_COMMAND_TIMEOUT) = Exited (expect_exit c) out err)"
  by (auto simp: check_command_def run_command_argv_def Let_def
      split: option.splits list.splits run_outcome.splits)

lemma no_check_ok_without_evidence:
  assumes "vr_ok (run_check E c ctx)"
  shows "strip (check_type c) \<in> set KNOWN_CHECK_TYPES"
    "strip (check_type c) \<noteq> CHECK_HUMAN_REVIEW" "strip (check_type c) \<noteq> CHECK_ACTION_SUCCEEDED"
  using assms
  by (auto simp: run_check_def Let_def KNOWN_CHECK_TYPES_def check_human_review_def check_action_succeeded_def
      CHECK_HUMAN_REVIEW_def CHECK_ACTION_SUCCEEDED_def split: if_splits)

lemma run_acceptance_all: "run_acceptance E ctx False cs = map (\<lambda>c. run_check E c ctx) cs"
  by (induction cs) (auto simp: Let_def)

lemma run_acceptance_empty [simp]: "run_acceptance E ctx stop cs = [] \<longleftrightarrow> cs = []"
  by (cases cs) (auto simp: Let_def)

text \<open>Stopping at the first failure saves work, never a verdict.\<close>

lemma all_passed_run:
  "all_passed (run_acceptance E ctx stop cs) \<longleftrightarrow> cs \<noteq> [] \<and> (\<forall>c \<in> set cs. vr_ok (run_check E c ctx))"
proof -
  have "list_all vr_ok (run_acceptance E ctx stop cs) \<longleftrightarrow> (\<forall>c \<in> set cs. vr_ok (run_check E c ctx))"
    by (induction cs) (auto simp: Let_def)
  then show ?thesis by (auto simp: all_passed_def)
qed

lemma human_review_never_passes:
  assumes "c \<in> set cs" "strip (check_type c) \<in> {CHECK_HUMAN_REVIEW, CHECK_ACTION_SUCCEEDED}"
  shows "\<not> all_passed (run_acceptance E ctx stop cs)"
proof -
  have "\<not> vr_ok (run_check E c ctx)"
    using assms(2) no_check_ok_without_evidence(2,3) by blast
  then show ?thesis using assms(1) by (auto simp: all_passed_run)
qed

subsection \<open>The line limit\<close>

lemma line_count_bounds: "line_count raw = Some n \<Longrightarrow> 0 \<le> n \<and> n \<le> int (length raw)"
proof -
  have "length (filter (\<lambda>c. c = NEWLINE) raw) < length raw" if "raw \<noteq> []" "last raw \<noteq> NEWLINE"
    using that length_filter_less [of "last raw" raw "\<lambda>c. c = NEWLINE"] by simp
  moreover have "length (filter (\<lambda>c. c = NEWLINE) raw) \<le> length raw" by simp
  ultimately show "line_count raw = Some n \<Longrightarrow> 0 \<le> n \<and> n \<le> int (length raw)"
    by (auto simp: line_count_def split: if_splits)
qed

text \<open>The number of lines is that of \<open>split_on NEWLINE\<close>, not counting an empty last one.\<close>

lemma line_count_split:
  assumes "CHR 0x00 \<notin> set raw"
  shows "line_count raw = Some (int (length (split_on NEWLINE raw)) - (if raw = [] \<or> last raw = NEWLINE then 1 else 0))"
proof -
  have "length (split_acc NEWLINE acc raw) = Suc (length (filter (\<lambda>c. c = NEWLINE) raw))" for acc
    by (induction raw arbitrary: acc) auto
  then show ?thesis using assms by (auto simp: line_count_def split_on_def)
qed

definition line_ok :: "verify_env \<Rightarrow> string \<Rightarrow> string list \<Rightarrow> int \<Rightarrow> string \<Rightarrow> bool" where
  "line_ok E cwd extra limit rel \<longleftrightarrow> is_generated_file rel extra \<or>
     (\<exists>t. safe_join E cwd rel = Inr t \<and>
        (ve_is_file E t \<longrightarrow> (\<exists>raw. ve_read E t = Inr raw \<and>
           (\<forall>n. line_count raw = Some n \<longrightarrow> n \<le> limit))))"

lemma scan_lines_head:
  "(\<exists>s. scan_lines E cwd extra limit (rel # rels) = Inr s \<and> ls_violations s = []) \<longleftrightarrow>
     line_ok E cwd extra limit rel \<and> (\<exists>s. scan_lines E cwd extra limit rels = Inr s \<and> ls_violations s = [])"
proof (cases "is_generated_file rel extra")
  case True
  then show ?thesis
    by (cases "scan_lines E cwd extra limit rels") (auto simp: line_ok_def)
next
  case gen: False
  show ?thesis
  proof (cases "safe_join E cwd rel")
    case (Inl m)
    then show ?thesis using gen by (simp add: line_ok_def)
  next
    case (Inr t)
    show ?thesis
    proof (cases "ve_is_file E t")
      case True
      then show ?thesis using gen Inr
        by (cases "ve_read E t"; cases "scan_lines E cwd extra limit rels")
          (auto simp: line_ok_def Let_def not_less split: option.splits)
    next
      case False
      then show ?thesis using gen Inr by (simp add: line_ok_def)
    qed
  qed
qed

lemma scan_lines_ok:
  "(\<exists>s. scan_lines E cwd extra limit rels = Inr s \<and> ls_violations s = []) \<longleftrightarrow>
     (\<forall>rel \<in> set rels. line_ok E cwd extra limit rel)"
proof (induction rels)
  case (Cons rel rels)
  then show ?case unfolding scan_lines_head by simp
qed simp

lemma file_line_limit_ok:
  "vr_ok (check_file_line_limit E c ctx) \<longleftrightarrow>
     0 < base_limit c \<and> base_limit c \<le> approved_cap c \<and> vc_cwd ctx \<noteq> [] \<and>
     line_limit_candidates E c ctx \<noteq> [] \<and>
     (\<forall>rel \<in> set (line_limit_candidates E c ctx).
        line_ok E (vc_cwd ctx) (exclude_patterns c) (effective_limit c ctx) rel)"
  unfolding scan_lines_ok [symmetric]
  by (cases "scan_lines E (vc_cwd ctx) (exclude_patterns c) (effective_limit c ctx) (line_limit_candidates E c ctx)")
    (auto simp: check_file_line_limit_def)

text \<open>An approval raises the limit at most to the cap, and never lowers it.\<close>

lemma effective_limit_bounds:
  "base_limit c \<le> approved_cap c \<Longrightarrow>
     base_limit c \<le> effective_limit c ctx \<and> effective_limit c ctx \<le> approved_cap c"
  by (auto simp: effective_limit_def)

text \<open>
  \<^verbatim>\<open>lstrip("./")\<close> strips characters, not a prefix: it also takes the dot of a hidden directory, so
  four of the listed prefixes never match at the root of the tree.
\<close>

lemma hidden_cache_not_generated:
  "\<not> is_generated_file ''.pytest_cache/README.md'' []" "is_generated_file ''pkg/.pytest_cache/README.md'' []"
  "\<not> is_generated_file ''.tox/py311/log.txt'' []" "is_generated_file ''.venv/lib/x.py'' []"
  by code_simp+

end
