(* ===== verification/Plan_Verify.thy ===== *)
theory Plan_Verify
  imports Verify_Checks
begin

text \<open>
  \<^verbatim>\<open>src/voly/plan/verify.py\<close>: the line limit an architect approved upstream, the verification of
  one step, and the transition its verdict causes.
\<close>

section \<open>Approval markers of an architect\<close>

definition LINE_LIMIT_MARKER :: regex where
  "LINE_LIMIT_MARKER = cats [Bol, spaces, liti ''FILE_LINE_LIMIT:'', spaces, Group 1 digits, spaces, Eol]"

definition LINE_LIMIT_REASON :: regex where
  "LINE_LIMIT_REASON = cats
     [Bol, spaces, liti ''FILE_LINE_LIMIT_REASON:'', spaces,
      Group 1 (cats ([Chr (\<lambda>c. \<not> is_space c)] @ replicate 9 any_char @ [Star True any_char])), spaces, Eol]"

definition int_of_digits :: "string \<Rightarrow> int" where
  "int_of_digits ds = fold (\<lambda>c n. 10 * n + (int (of_char c) - 48)) ds 0"

definition approval_of :: "plan_step \<Rightarrow> int option" where
  "approval_of s =
     (if lower (strip (step_role s)) \<noteq> ''architect'' then None
      else case re_search LINE_LIMIT_MARKER (step_output s) of
        None \<Rightarrow> None
      | Some caps \<Rightarrow> (if re_test LINE_LIMIT_REASON (step_output s)
                      then Some (int_of_digits (group caps 1)) else None))"

text \<open>\<^verbatim>\<open>pending\<close> is popped at its end; an id without a step is only remembered as visited.\<close>

definition raise_limit :: "int \<Rightarrow> plan_step \<Rightarrow> int" where
  "raise_limit approved s = (case approval_of s of None \<Rightarrow> approved | Some n \<Rightarrow> max approved n)"

function approval_walk :: "plan \<Rightarrow> string list \<Rightarrow> string list \<Rightarrow> int \<Rightarrow> int" where
  "approval_walk p pending visited approved =
     (if pending = [] then approved
      else let sid = last pending; rest = butlast pending
           in if sid \<in> set visited then approval_walk p rest visited approved
              else case step_map p sid of
                None \<Rightarrow> approval_walk p rest (sid # visited) approved
              | Some s \<Rightarrow> approval_walk p (rest @ depends_on s) (sid # visited) (raise_limit approved s))"
  by pat_completeness auto

definition all_deps :: "plan \<Rightarrow> string set" where
  "all_deps p = (\<Union>s \<in> set (steps p). set (depends_on s))"

lemma step_map_in: "step_map p sid = Some s \<Longrightarrow> s \<in> set (steps p) \<and> step_id s = sid"
  by (auto simp: step_map_def dest!: map_of_SomeD)

lemma deps_in_all: "step_map p sid = Some s \<Longrightarrow> set (depends_on s) \<subseteq> all_deps p"
  using step_map_in by (auto simp: all_deps_def)

lemma finite_all_deps [simp]: "finite (all_deps p)"
  by (simp add: all_deps_def)

termination approval_walk
proof (relation "measures [\<lambda>(p, pending, visited, _). card (set pending \<union> all_deps p - set visited),
    \<lambda>(p, pending, _). length pending]", goal_cases)
  case (2 p pending visited approved sid rest)
  have "set rest \<subseteq> set pending" using 2(3) by (auto dest: in_set_butlastD)
  then have "set rest \<union> all_deps p - set visited \<subseteq> set pending \<union> all_deps p - set visited"
    by blast
  then have "card (set rest \<union> all_deps p - set visited) \<le> card (set pending \<union> all_deps p - set visited)"
    by (intro card_mono) auto
  moreover have "length rest < length pending" using 2(1,3) by simp
  ultimately show ?case by (simp add: le_less)
next
  case (3 p pending visited approved sid rest)
  have "set rest \<subseteq> set pending" "sid \<in> set pending"
    using 3(1-3) by (auto dest: in_set_butlastD)
  then have "set rest \<union> all_deps p - set (sid # visited) \<subset> set pending \<union> all_deps p - set visited"
    using 3(4) by auto
  then have "card (set rest \<union> all_deps p - set (sid # visited)) < card (set pending \<union> all_deps p - set visited)"
    by (intro psubset_card_mono) auto
  then show ?case by simp
next
  case (4 p pending visited approved sid rest s)
  have "set rest \<subseteq> set pending" "sid \<in> set pending"
    using 4(1-3) by (auto dest: in_set_butlastD)
  moreover have "set (depends_on s) \<subseteq> all_deps p" by (rule deps_in_all [OF 4(5)])
  ultimately have "set (rest @ depends_on s) \<union> all_deps p - set (sid # visited)
      \<subset> set pending \<union> all_deps p - set visited"
    using 4(4) by auto
  then have "card (set (rest @ depends_on s) \<union> all_deps p - set (sid # visited))
      < card (set pending \<union> all_deps p - set visited)"
    by (intro psubset_card_mono) auto
  then show ?case by simp
qed simp

declare approval_walk.simps [simp del]

definition architect_approved_line_limit :: "plan \<Rightarrow> plan_step \<Rightarrow> int" where
  "architect_approved_line_limit p s = approval_walk p (depends_on s) [] 0"

section \<open>Verifying a step\<close>

definition merged_ctx :: "plan \<Rightarrow> plan_step \<Rightarrow> verify_ctx \<Rightarrow> verify_ctx" where
  "merged_ctx p s base =
     \<lparr>vc_cwd = str_or (vc_cwd base) (plan_cwd p), vc_output = str_or (vc_output base) (step_output s),
      vc_files_touched = (if vc_files_touched base \<noteq> [] then vc_files_touched base else files_touched s),
      vc_git_before = vc_git_before base, vc_git_after = vc_git_after base,
      vc_command_timeout = vc_command_timeout base,
      vc_approved_limit = (if vc_approved_limit base \<noteq> 0 then vc_approved_limit base
                           else architect_approved_line_limit p s),
      vc_scope_pytest = True\<rparr>"

definition verify_step ::
  "verify_env \<Rightarrow> plan \<Rightarrow> string \<Rightarrow> verify_ctx \<Rightarrow> bool \<Rightarrow> plan_error + (plan \<times> verify_result list)" where
  "verify_step E p sid base stop_on_fail = bind_err (get_step p sid) (\<lambda>s.
     if acceptance s = [] then Inr (p, [])
     else let rs = run_acceptance E (merged_ctx p s base) stop_on_fail (acceptance s)
          in Inr (upd_step sid (\<lambda>t. t\<lparr>verify_log := map result_to_dict rs\<rparr>) p, rs))"

definition failure_summary :: "verify_result list \<Rightarrow> string" where
  "failure_summary rs = take 2000 (join ''; '' (map (\<lambda>r. vr_type r @ '': '' @ vr_message r)
     (filter (\<lambda>r. \<not> vr_ok r) rs)))"

text \<open>The plan a raise leaves behind is returned with it.\<close>

definition complete_verification ::
  "verify_env \<Rightarrow> plan \<Rightarrow> string \<Rightarrow> verify_ctx \<Rightarrow> bool \<Rightarrow> rat
     \<Rightarrow> plan \<times> (plan_error + verify_result list)" where
  "complete_verification E p sid base stop_on_fail now =
     (case get_step p sid of
        Inl e \<Rightarrow> (p, Inl e)
      | Inr s \<Rightarrow>
          if step_status s \<noteq> VERIFYING
          then (p, Inl (IllegalTransition sid (step_status s) VERIFIED CompleteRequiresVerifying))
          else case verify_step E p sid base stop_on_fail of
            Inl e \<Rightarrow> (p, Inl e)
          | Inr (p1, rs) \<Rightarrow>
              (case (if rs = [] \<or> all_passed rs then transition p1 sid VERIFIED [] False False now
                     else transition p1 sid FAILED (str_or (failure_summary rs) ''verification failed'')
                            False False now) of
                 Inl e \<Rightarrow> (p1, Inl e)
               | Inr p2 \<Rightarrow> (p2, Inr rs)))"

section \<open>The approved limit\<close>

text \<open>The steps a step depends on, transitively, as the walk finds them.\<close>

inductive reaches :: "plan \<Rightarrow> string list \<Rightarrow> string \<Rightarrow> bool" for p roots where
  root: "d \<in> set roots \<Longrightarrow> reaches p roots d"
| dep: "reaches p roots d \<Longrightarrow> step_map p d = Some s \<Longrightarrow> e \<in> set (depends_on s) \<Longrightarrow> reaches p roots e"

definition approval_at :: "plan \<Rightarrow> string \<Rightarrow> int option" where
  "approval_at p d = Option.bind (step_map p d) approval_of"

lemma raise_limit_cases: "raise_limit a s = a \<or> approval_of s = Some (raise_limit a s)"
  by (auto simp: raise_limit_def max_def split: option.splits)

lemma raise_limit_ge: "a \<le> raise_limit a s" "approval_of s = Some n \<Longrightarrow> n \<le> raise_limit a s"
  by (auto simp: raise_limit_def split: option.splits)

lemma approval_walk_sound:
  "(\<And>d. d \<in> set pending \<Longrightarrow> reaches p roots d) \<Longrightarrow>
     approval_walk p pending visited approved = approved \<or>
     (\<exists>d. reaches p roots d \<and> approval_at p d = Some (approval_walk p pending visited approved))"
proof (induction p pending visited approved rule: approval_walk.induct)
  case (1 p pending visited approved)
  show ?case
  proof (cases "pending = []")
    case False
    let ?sid = "last pending" let ?rest = "butlast pending"
    have r: "\<And>d. d \<in> set ?rest \<Longrightarrow> reaches p roots d" and l: "reaches p roots ?sid"
      using 1(4) False by (auto dest: in_set_butlastD)
    show ?thesis
    proof (cases "?sid \<in> set visited")
      case True
      then show ?thesis using 1(1) [OF False refl refl True] r False
        by (simp add: approval_walk.simps [of p pending])
    next
      case new: False
      show ?thesis
      proof (cases "step_map p ?sid")
        case None
        then show ?thesis using 1(2) [OF False refl refl new None] r False new
          by (simp add: approval_walk.simps [of p pending])
      next
        case (Some s)
        have "reaches p roots d" if "d \<in> set (?rest @ depends_on s)" for d
          using that r dep [OF l Some] by auto
        from 1(3) [OF False refl refl new Some this] have
          "approval_walk p pending visited approved = raise_limit approved s \<or>
           (\<exists>d. reaches p roots d \<and> approval_at p d = Some (approval_walk p pending visited approved))"
          using False new Some by (simp add: approval_walk.simps [of p pending])
        then show ?thesis
          using raise_limit_cases [of approved s] l Some by (auto simp: approval_at_def)
      qed
    qed
  qed (simp add: approval_walk.simps)
qed

text \<open>
  Complete: at every point the steps already visited have all their dependencies visited or
  pending, and their approvals counted.
\<close>

definition walk_inv :: "plan \<Rightarrow> string list \<Rightarrow> string list \<Rightarrow> string list \<Rightarrow> int \<Rightarrow> bool" where
  "walk_inv p roots pending visited approved \<longleftrightarrow>
     set roots \<subseteq> set visited \<union> set pending \<and>
     (\<forall>d \<in> set visited. \<forall>s. step_map p d = Some s \<longrightarrow> set (depends_on s) \<subseteq> set visited \<union> set pending) \<and>
     (\<forall>d \<in> set visited. \<forall>n. approval_at p d = Some n \<longrightarrow> n \<le> approved)"

lemma set_last_butlast: "xs \<noteq> [] \<Longrightarrow> set xs = insert (last xs) (set (butlast xs))"
  by (metis append_butlast_last_id list.simps(15) rotate1.simps(2) set_rotate1)

lemma approval_walk_complete:
  "walk_inv p roots pending visited approved \<Longrightarrow> reaches p roots d \<Longrightarrow> approval_at p d = Some n \<Longrightarrow>
     n \<le> approval_walk p pending visited approved"
proof (induction p pending visited approved rule: approval_walk.induct)
  case (1 p pending visited approved)
  show ?case
  proof (cases "pending = []")
    case True
    from 1(5) have "d \<in> set visited"
      by induction (use 1(4) True in \<open>auto simp: walk_inv_def\<close>)
    then show ?thesis using 1(4,6) True by (simp add: walk_inv_def approval_walk.simps)
  next
    case False
    let ?sid = "last pending" let ?rest = "butlast pending"
    note pend = set_last_butlast [OF False]
    show ?thesis
    proof (cases "?sid \<in> set visited")
      case True
      have eq: "set visited \<union> set ?rest = set visited \<union> set pending" using True by (auto simp: pend)
      have "walk_inv p roots ?rest visited approved"
        using 1(4) unfolding walk_inv_def eq .
      from 1(1) [OF False refl refl True this 1(5,6)] show ?thesis
        using False True by (simp add: approval_walk.simps [of p pending])
    next
      case new: False
      show ?thesis
      proof (cases "step_map p ?sid")
        case None
        have eq: "set (?sid # visited) \<union> set ?rest = set visited \<union> set pending" by (auto simp: pend)
        have "walk_inv p roots ?rest (?sid # visited) approved"
          using 1(4) None unfolding walk_inv_def eq by (simp add: approval_at_def)
        from 1(2) [OF False refl refl new None this 1(5,6)] show ?thesis
          using False new None by (simp add: approval_walk.simps [of p pending])
      next
        case (Some s)
        have "n \<le> raise_limit approved s" if "d \<in> insert ?sid (set visited)" "approval_at p d = Some n" for d n
          using that 1(4) Some raise_limit_ge(1) [of approved s] raise_limit_ge(2) [of s _ approved] unfolding walk_inv_def
          by (auto simp: approval_at_def)
        moreover have eq: "set (?sid # visited) \<union> set (?rest @ depends_on s)
            = set visited \<union> set pending \<union> set (depends_on s)" by (auto simp: pend)
        have "set roots \<subseteq> set (?sid # visited) \<union> set (?rest @ depends_on s)"
          using 1(4) unfolding walk_inv_def eq by blast
        moreover have "set (depends_on t) \<subseteq> set (?sid # visited) \<union> set (?rest @ depends_on s)"
          if "d \<in> set (?sid # visited)" "step_map p d = Some t" for d t
          using that 1(4) Some unfolding walk_inv_def eq by auto
        ultimately have "walk_inv p roots (?rest @ depends_on s) (?sid # visited) (raise_limit approved s)"
          unfolding walk_inv_def by simp
        from 1(3) [OF False refl refl new Some this 1(5,6)] show ?thesis
          using False new Some by (simp add: approval_walk.simps [of p pending])
      qed
    qed
  qed
qed

lemma approved_limit_upper:
  assumes "reaches p (depends_on s) d" "approval_at p d = Some n"
  shows "n \<le> architect_approved_line_limit p s"
  using approval_walk_complete [OF _ assms] by (simp add: architect_approved_line_limit_def walk_inv_def)

lemma approved_limit_witnessed:
  "architect_approved_line_limit p s = 0 \<or>
     (\<exists>d. reaches p (depends_on s) d \<and> approval_at p d = Some (architect_approved_line_limit p s))"
  unfolding architect_approved_line_limit_def by (rule approval_walk_sound) (rule root)

section \<open>What a verification does\<close>

definition acceptance_passes :: "verify_env \<Rightarrow> plan \<Rightarrow> plan_step \<Rightarrow> verify_ctx \<Rightarrow> bool" where
  "acceptance_passes E p s base \<longleftrightarrow> (\<forall>c \<in> set (acceptance s). vr_ok (run_check E c (merged_ctx p s base)))"

lemma verify_step_Inr:
  assumes "get_step p sid = Inr s" "acceptance s \<noteq> []"
  shows "\<exists>rs. rs \<noteq> [] \<and> verify_step E p sid base stop =
      Inr (upd_step sid (\<lambda>t. t\<lparr>verify_log := map result_to_dict rs\<rparr>) p, rs) \<and>
    (all_passed rs \<longleftrightarrow> acceptance_passes E p s base)"
  using assms
  by (auto simp: verify_step_def Let_def acceptance_passes_def all_passed_run)

lemma log_status_of: "status_of (upd_step sid (\<lambda>t. t\<lparr>verify_log := l\<rparr>) p) i = status_of p i"
  by (rule status_of_evidence) simp

lemma verify_step_moves:
  assumes "verify_step E p sid base stop = Inr (q, rs)"
  shows "plan_moves p q" "status_of q i = status_of p i"
proof -
  have q: "q = p \<or> (\<exists>l. q = upd_step sid (\<lambda>t. t\<lparr>verify_log := l\<rparr>) p)"
    using assms by (cases "get_step p sid") (auto simp: verify_step_def Let_def split: if_splits)
  then show "plan_moves p q" using log_move by blast
  show "status_of q i = status_of p i" using q log_status_of by auto
qed

lemma plan_moves_transition: "plan_moves p q \<Longrightarrow> transition q sid t e sk False now = Inr r \<Longrightarrow> plan_moves p r"
  using engine by (meson rtranclp.rtrancl_into_rtrancl)

lemma complete_verification_moves: "plan_moves p (fst (complete_verification E p sid base stop now))"
proof -
  have "plan_moves p q" if "complete_verification E p sid base stop now = (q, r)" for q r
    using that verify_step_moves(1) plan_moves_transition
    by (auto simp: complete_verification_def split: sum.splits prod.splits if_splits) blast+
  then show ?thesis by (metis prod.collapse)
qed

text \<open>
  A verification of a step in \<^verbatim>\<open>verifying\<close> always returns, verifies it exactly when every check
  passes, and fails it otherwise; the log holds one entry per check that ran.
\<close>

lemma complete_verification_verdict:
  assumes s: "get_step p sid = Inr s" "step_status s = VERIFYING" "acceptance s \<noteq> []"
  shows "\<exists>q rs. complete_verification E p sid base stop now = (q, Inr rs) \<and> rs \<noteq> [] \<and>
    (all_passed rs \<longleftrightarrow> acceptance_passes E p s base) \<and>
    status_of q sid = Some (if acceptance_passes E p s base then VERIFIED else FAILED) \<and>
    (\<forall>other. other \<noteq> sid \<longrightarrow> get_step q other = get_step p other) \<and>
    (\<exists>t. get_step q sid = Inr t \<and> verify_log t = map result_to_dict rs \<and>
       (\<not> acceptance_passes E p s base \<longrightarrow> step_error t \<noteq> []))"
proof -
  obtain rs where rs: "rs \<noteq> []" "all_passed rs \<longleftrightarrow> acceptance_passes E p s base"
    and v: "verify_step E p sid base stop =
      Inr (upd_step sid (\<lambda>t. t\<lparr>verify_log := map result_to_dict rs\<rparr>) p, rs)"
    using verify_step_Inr [OF s(1,3)] by blast
  let ?p1 = "upd_step sid (\<lambda>t. t\<lparr>verify_log := map result_to_dict rs\<rparr>) p"
  let ?to = "if all_passed rs then VERIFIED else FAILED"
  let ?err = "if all_passed rs then [] else str_or (failure_summary rs) ''verification failed''"
  have g: "get_step ?p1 sid = Inr (s\<lparr>verify_log := map result_to_dict rs\<rparr>)"
    using s(1) by (simp add: get_step_upd_same)
  have t: "transition ?p1 sid ?to ?err False False now
      = Inr (recompute_plan_status (upd_step sid (apply_status ?to ?err now) ?p1))" (is "_ = Inr ?q")
    using g s(2) by (subst transition_iff) (auto simp: passes_gate_def legal_transition_iff STEP_STATUSES_def)
  have c: "complete_verification E p sid base stop now = (?q, Inr rs)"
    using s(1,2) v t rs(1) by (cases "all_passed rs") (simp_all add: complete_verification_def)
  have q: "get_step ?q sid = Inr (apply_status ?to ?err now (s\<lparr>verify_log := map result_to_dict rs\<rparr>))"
    using g by (simp add: get_step_upd_same)
  have "step_error (apply_status FAILED e now x) \<noteq> []" if "e \<noteq> []" for e x
    using that by (cases e) (simp_all add: apply_status_def Let_def)
  then have "\<not> all_passed rs \<Longrightarrow> step_error (apply_status ?to ?err now (s\<lparr>verify_log := map result_to_dict rs\<rparr>)) \<noteq> []"
    by (simp add: str_or_nonempty)
  moreover have "get_step ?q other = get_step p other" if "other \<noteq> sid" for other
    using that by (simp add: get_step_upd_other)
  ultimately show ?thesis
    using c q rs by (intro exI [of _ ?q] exI [of _ rs]) (simp add: status_of_get)
qed

end
