(* ===== verification/Plan_Criteria.thy ===== *)
theory Plan_Criteria
  imports Plan_Codec Py_Regex
begin

text \<open>
  \<^verbatim>\<open>src/voly/plan/criteria.py\<close>: free-text success criteria compiled into draft acceptance checks.
  Text is ASCII; the Russian keywords are their UTF-8 bytes, so they match a text in lower case.
  A note is a value with what its text interpolates.
\<close>

datatype criteria_note =
    EmptyCriteria
  | DraftCommand string
  | DraftFilesExist "string list"
  | BarePaths
  | VagueCriterion string
  | UnmappedCriterion string
  | NoStructuredChecks
  | DraftHeader nat nat

record criteria_draft =
  draft_checks :: "acceptance_check list"
  draft_notes :: "criteria_note list"
  source_lines :: "string list"
  review_required :: bool

section \<open>Lines and paths\<close>

definition path_char :: regex where
  "path_char = Chr (\<lambda>c. is_word c \<or> c = CHR ''.'' \<or> c = CHR ''-'')"

definition PATH_RE :: regex where
  "PATH_RE = cats
     [Group 1 (cats [Star True (cats [plus path_char, ch CHR ''/'']), plus path_char, ch CHR ''.'',
        alts (map liti [''py'', ''ts'', ''tsx'', ''js'', ''jsx'', ''go'', ''rs'', ''java'', ''cs'', ''md'', ''yml'', ''yaml'',
          ''json'', ''toml'', ''sql'', ''css'', ''html'', ''sh''])]),
      WordB]"

definition BULLET_RE :: regex where
  "BULLET_RE = cats
     [Bos, spaces,
      alts [ch CHR ''-'', ch CHR ''*'', lit (utf8 [0xE2, 0x80, 0xA2]),
            cats [digits, Chr (\<lambda>c. c = CHR ''.'' \<or> c = CHR '')'')]],
      plus (Chr is_space)]"

definition drop_bullet :: "string \<Rightarrow> string" where
  "drop_bullet s = (case match_at BULLET_RE [] s of Some (_, rest, _) \<Rightarrow> rest | None \<Rightarrow> s)"

definition split_criteria :: "string \<Rightarrow> string list" where
  "split_criteria text =
     (let raw = strip text;
          lines = filter (\<lambda>s. s \<noteq> []) (map (\<lambda>s. strip (drop_bullet s))
                    (filter (\<lambda>s. s \<noteq> []) (map strip (splitlines raw))))
      in if raw = [] then [] else if lines = [] then [raw] else lines)"

definition paths_in :: "string \<Rightarrow> string list" where
  "paths_in line = map (\<lambda>caps. group caps 1) (re_finditer PATH_RE [] line)"

section \<open>One criterion\<close>

definition TEST_WORDS :: "string list" where
  "TEST_WORDS = [''tests pass'', ''test pass'', ''pytest'', ''npm test'', ''unit test'', ''all tests'',
     utf8 [209, 130, 208, 181, 209, 129, 209, 130, 209, 139, 32, 208, 191, 209, 128, 208, 190, 209,
       133, 208, 190, 208, 180, 209, 143, 209, 130],
     utf8 [208, 191, 209, 128, 208, 190, 208, 179, 208, 190, 208, 189, 32, 209, 130, 208, 181, 209,
       129, 209, 130]]"

definition CREATE_WORDS :: "string list" where
  "CREATE_WORDS = [''exist'', ''create'', ''add file'', ''write'', ''implement'',
     utf8 [208, 180, 208, 190, 208, 177, 208, 176, 208, 178],
     utf8 [209, 129, 208, 190, 208, 183, 208, 180, 208, 176],
     utf8 [209, 132, 208, 176, 208, 185, 208, 187], ''present'']"

definition REMOVE_WORDS :: "string list" where
  "REMOVE_WORDS = [''delete'', ''remove'', ''must not exist'', ''absent'',
     utf8 [209, 131, 208, 180, 208, 176, 208, 187]]"

definition DIFF_WORDS :: "string list" where
  "DIFF_WORDS = [''git diff'', ''code change'', ''changed files'', ''diff non'',
     utf8 [208, 184, 208, 183, 208, 188, 208, 181, 208, 189, 208, 181, 208, 189],
     utf8 [208, 184, 208, 183, 208, 188, 208, 181, 208, 189, 208, 181, 208, 189, 208, 184, 209, 143,
       32, 208, 178], ''touch'']"

definition MODIFY_WORDS :: "string list" where
  "MODIFY_WORDS = [''modify'', ''update'', ''refactor'',
     utf8 [208, 184, 208, 183, 208, 188, 208, 181, 208, 189, 208, 184]]"

definition VAGUE_WORDS :: "string list" where
  "VAGUE_WORDS = [''review'', ''document'', ''explain'', ''summary'',
     utf8 [209, 128, 208, 181, 208, 178, 209, 142], utf8 [208, 190, 208, 191, 208, 184, 209, 129],
     ''done'', ''complete'',
     utf8 [209, 131, 209, 129, 208, 191, 208, 181, 209, 136, 208, 189]]"

definition is_quote :: "char \<Rightarrow> bool" where
  "is_quote c \<longleftrightarrow> c \<in> {CHR 0x60, CHR 0x27, CHR 0x22}"

definition QUOTED_RE :: regex where
  "QUOTED_RE = cats [Chr is_quote, Group 1 (plus (Chr (\<lambda>c. \<not> is_quote c))), Chr is_quote]"

definition dquote_opt :: regex where
  "dquote_opt = opt (Chr (\<lambda>c. c = CHR 0x22 \<or> c = CHR 0x27))"

definition OUTPUT_RE :: regex where
  "OUTPUT_RE = cats
     [alts (map liti [''output'', ''report'', ''response'',
        utf8 [208, 190, 209, 130, 208, 178, 208, 181, 209, 130]]), plus (Chr is_space),
      alts [Cat (liti ''contain'') (opt (liti ''s'')), Cat (liti ''include'') (opt (liti ''s'')),
        Cat (liti ''mention'') (opt (liti ''s'')),
        liti (utf8 [209, 129, 208, 190, 208, 180, 208, 181, 209, 128, 208, 182, 208, 184, 209, 130])],
      plus (Chr is_space), dquote_opt, Group 1 (Cat any_char (Star False any_char)), dquote_opt,
      spaces, Eos]"

definition REGEX_RE :: regex where
  "REGEX_RE = cats
     [liti ''regex'', plus (Chr (\<lambda>c. c = CHR '':'' \<or> is_space c)), opt (Chr is_quote),
      Group 1 (Cat any_char (Star False any_char)), opt (Chr is_quote), spaces, Eos]"

definition test_command :: "string \<Rightarrow> string" where
  "test_command line =
     (let low = lower line;
          cmd = (if has_any [''npm'', ''jest'', ''vitest''] low then ''npm test -- --watchAll=false''
                 else if has_sub low ''cargo'' then ''cargo test''
                 else if has_sub low ''go test'' then ''go test ./...''
                 else ''pytest -q'')
      in case re_search QUOTED_RE line of
           Some caps \<Rightarrow> (if has_any [''pytest'', ''npm'', ''cargo'', ''go '', ''make ''] (group caps 1)
                         then strip (group caps 1) else cmd)
         | None \<Rightarrow> cmd)"

definition path_check :: "string \<Rightarrow> string list \<Rightarrow> acceptance_check" where
  "path_check t ps = (new_check t)\<lparr>paths := dict_fromkeys ps\<rparr>"

definition compile_line :: "string \<Rightarrow> acceptance_check list \<times> criteria_note list" where
  "compile_line line =
     (let low = lower line;
          ps = paths_in line;
          tests = (if has_any TEST_WORDS low then [test_command line] else []);
          creates = (ps \<noteq> [] \<and> has_any CREATE_WORDS low);
          c1 = map (\<lambda>cmd. (new_check ''command'')\<lparr>run_cmd := cmd, expect_exit := 0\<rparr>) tests;
          c2 = (if creates then [path_check ''files_exist'' ps] else []);
          c3 = (if ps \<noteq> [] \<and> has_any REMOVE_WORDS low then [path_check ''files_missing'' ps] else []);
          c4 = (if has_any DIFF_WORDS low \<or> (ps \<noteq> [] \<and> has_any MODIFY_WORDS low)
                then (if ps \<noteq> [] then [path_check ''git_diff_contains'' ps] else [new_check ''git_diff_nonempty''])
                else []);
          c5 = (case re_search OUTPUT_RE line of
                  Some caps \<Rightarrow> [(new_check ''output_regex'')
                     \<lparr>pattern := re_escape (rstrip_chars ''.'' (strip (group caps 1)))\<rparr>]
                | None \<Rightarrow> []);
          c6 = (case re_search REGEX_RE line of
                  Some caps \<Rightarrow> [(new_check ''output_regex'')\<lparr>pattern := strip (group caps 1)\<rparr>]
                | None \<Rightarrow> []);
          cs = c1 @ c2 @ c3 @ c4 @ c5 @ c6;
          bare = (ps \<noteq> [] \<and> cs = []);
          cs' = (if bare then [path_check ''files_exist'' ps] else cs);
          vague = (cs' = [] \<and> has_any VAGUE_WORDS low);
          cs'' = (if vague then [new_check ''output_nonempty''] else cs')
      in (cs'', map DraftCommand tests @ (if creates then [DraftFilesExist ps] else []) @
                (if bare then [BarePaths] else []) @ (if vague then [VagueCriterion (take 80 line)] else []) @
                (if cs'' = [] then [UnmappedCriterion (take 120 line)] else [])))"

section \<open>The draft\<close>

text \<open>Two checks have one JSON text (sorted keys) exactly when they have one \<^verbatim>\<open>to_dict\<close>.\<close>

fun add_new_checks :: "acceptance_check list \<Rightarrow> acceptance_check list \<Rightarrow> acceptance_check list" where
  "add_new_checks acc [] = acc"
| "add_new_checks acc (c # cs) =
     (if check_to_dict c \<in> set (map check_to_dict acc) then add_new_checks acc cs
      else add_new_checks (acc @ [c]) cs)"

definition compile_success_criteria :: "string \<Rightarrow> criteria_draft" where
  "compile_success_criteria text =
     (let lines = split_criteria text;
          compiled = map compile_line lines;
          cs = add_new_checks [] (concat (map fst compiled));
          notes = concat (map snd compiled)
      in if lines = []
         then \<lparr>draft_checks = [], draft_notes = [EmptyCriteria], source_lines = [], review_required = True\<rparr>
         else \<lparr>draft_checks = cs,
               draft_notes = (if cs = [] then notes @ [NoStructuredChecks]
                              else DraftHeader (length cs) (length lines) # notes),
               source_lines = lines, review_required = True\<rparr>)"

definition criteria_to_acceptance :: "string \<Rightarrow> acceptance_check list" where
  "criteria_to_acceptance text = draft_checks (compile_success_criteria text)"

section \<open>What a draft contains\<close>

lemma set_add_new_checks: "set (add_new_checks acc cs) \<subseteq> set acc \<union> set cs"
  by (induction acc cs rule: add_new_checks.induct) auto

lemma distinct_add_new_checks:
  "distinct (map check_to_dict acc) \<Longrightarrow> distinct (map check_to_dict (add_new_checks acc cs))"
  by (induction acc cs rule: add_new_checks.induct) auto

lemma dicts_add_new_checks:
  "check_to_dict ` set (add_new_checks acc cs) = check_to_dict ` (set acc \<union> set cs)"
  by (induction acc cs rule: add_new_checks.induct) auto

definition DRAFT_TYPES :: "string list" where
  "DRAFT_TYPES = [''command'', ''files_exist'', ''files_missing'', ''git_diff_contains'', ''git_diff_nonempty'',
     ''output_regex'', ''output_nonempty'']"

lemma check_fields [simp]:
  "check_type (new_check t) = t" "run_cmd (new_check t) = []" "expect_exit (new_check t) = 0"
  "paths (new_check t) = []" "pattern (new_check t) = []" "exclude_patterns (new_check t) = []"
  "max_lines (new_check t) = 0" "approved_max_lines (new_check t) = 0"
  by (simp_all add: new_check_def)

lemma compile_line_ok:
  "c \<in> set (fst (compile_line line)) \<Longrightarrow> check_type c \<in> set DRAFT_TYPES \<and> check_storable c"
  by (auto simp: compile_line_def Let_def DRAFT_TYPES_def check_storable_def path_check_def
      split: if_splits option.splits)

lemma compile_checks:
  "draft_checks (compile_success_criteria text)
     = add_new_checks [] (concat (map (\<lambda>l. fst (compile_line l)) (split_criteria text)))"
  by (simp add: compile_success_criteria_def Let_def comp_def)

lemma draft_check_ok:
  assumes "c \<in> set (criteria_to_acceptance text)"
  shows "check_type c \<in> set DRAFT_TYPES" "check_storable c"
  using assms set_add_new_checks [of "[]" "concat (map (\<lambda>l. fst (compile_line l)) (split_criteria text))"]
    compile_line_ok
  by (fastforce simp: criteria_to_acceptance_def compile_checks)+

lemma draft_distinct: "distinct (criteria_to_acceptance text)"
proof -
  have "distinct (map check_to_dict (criteria_to_acceptance text))"
    by (simp add: criteria_to_acceptance_def compile_checks distinct_add_new_checks)
  then show ?thesis by (simp add: distinct_map)
qed

text \<open>Every line is accounted for: its checks are in the draft, or a note says it has none.\<close>

lemma draft_covers:
  assumes "line \<in> set (split_criteria text)"
  shows "(\<exists>c \<in> set (fst (compile_line line)). \<exists>c' \<in> set (criteria_to_acceptance text).
            check_to_dict c' = check_to_dict c) \<or>
         UnmappedCriterion (take 120 line) \<in> set (draft_notes (compile_success_criteria text))"
proof (cases "fst (compile_line line)")
  case Nil
  then have "UnmappedCriterion (take 120 line) \<in> set (snd (compile_line line))"
    by (simp add: compile_line_def Let_def)
  then show ?thesis using assms by (auto simp: compile_success_criteria_def Let_def)
next
  case (Cons c cs)
  then have "check_to_dict c \<in> check_to_dict ` set (criteria_to_acceptance text)"
    using assms by (force simp: criteria_to_acceptance_def compile_checks dicts_add_new_checks)
  then show ?thesis using Cons by force
qed

end
