(* ===== verification/Plan_Runner.thy ===== *)
theory Plan_Runner
  imports Plan_Verify Plan_Criteria
begin

text \<open>
  \<^verbatim>\<open>src/voly/plan/runner.py\<close>: the loop that runs the steps of a plan, with waves of chat steps,
  verification, retries, cancellation by another process and recovery of stale steps.

  A method is a computation on the runner's state (its plan in memory, the store on disk, the
  retry counters and a clock of external events) that returns a value or raises; a raise keeps
  what was mutated before it.  What the outside does at the \<open>n\<close>-th event (a model's reply, a
  write to the store by another process, the time, \<^verbatim>\<open>git\<close>) is a function of \<open>n\<close>.
\<close>

section \<open>The world and the state\<close>

text \<open>
  A reply of \<^verbatim>\<open>_exec_chat\<close>/\<^verbatim>\<open>_exec_executor\<close>: success, output, error, files touched, and the cost
  and duration it records on its own step, if it does.
\<close>

datatype exec_outcome =
    Reply bool string string "string list" "(rat \<times> rat) option"
  | RaisesException string

record run_cfg =
  rc_mode :: string
  rc_max_retries :: int
  rc_on_fail :: string
  rc_command_timeout :: rat
  rc_sdk_enabled :: bool
  rc_max_parallel :: int
  rc_stale_seconds :: rat
  rc_default_cwd :: string

record run_env =
  re_chat :: "nat \<Rightarrow> plan_step \<Rightarrow> plan \<Rightarrow> string \<Rightarrow> exec_outcome"
  re_exec :: "nat \<Rightarrow> plan_step \<Rightarrow> plan \<Rightarrow> string \<Rightarrow> exec_outcome"
  re_now :: "nat \<Rightarrow> rat"
  re_mono :: "nat \<Rightarrow> rat"
  re_disk :: "nat \<Rightarrow> disk"
  re_others :: "nat \<Rightarrow> plan_dir \<Rightarrow> plan_dir"
  re_world :: "nat \<Rightarrow> verify_env"
  re_schedule :: "nat \<Rightarrow> string list \<Rightarrow> string list"
  re_task_id :: string
  re_str :: "plan_error \<Rightarrow> string"
  re_builtins :: py_builtins

record run_state =
  rs_plan :: plan
  rs_dir :: plan_dir
  rs_tick :: nat
  rs_retries :: "string \<Rightarrow> nat"

type_synonym 'a run = "run_state \<Rightarrow> run_state \<times> (plan_error + 'a)"

definition ret :: "'a \<Rightarrow> 'a run" where
  "ret x = (\<lambda>s. (s, Inr x))"

definition bindR :: "'a run \<Rightarrow> ('a \<Rightarrow> 'b run) \<Rightarrow> 'b run" where
  "bindR m f = (\<lambda>s. case m s of (s', Inl e) \<Rightarrow> (s', Inl e) | (s', Inr x) \<Rightarrow> f x s')"

definition get_plan :: "plan run" where
  "get_plan = (\<lambda>s. (s, Inr (rs_plan s)))"

definition mod_plan :: "(plan \<Rightarrow> plan) \<Rightarrow> unit run" where
  "mod_plan f = (\<lambda>s. (s\<lparr>rs_plan := f (rs_plan s)\<rparr>, Inr ()))"

text \<open>An engine call that returns a new plan, one that also keeps its writes when it raises, an event.\<close>

definition engineR :: "(nat \<Rightarrow> plan \<Rightarrow> plan_error + plan) \<Rightarrow> unit run" where
  "engineR f = (\<lambda>s. case f (rs_tick s) (rs_plan s) of
     Inl e \<Rightarrow> (s\<lparr>rs_tick := Suc (rs_tick s)\<rparr>, Inl e)
   | Inr p \<Rightarrow> (s\<lparr>rs_plan := p, rs_tick := Suc (rs_tick s)\<rparr>, Inr ()))"

definition engine2R :: "(nat \<Rightarrow> plan \<Rightarrow> plan \<times> (plan_error + 'a)) \<Rightarrow> 'a run" where
  "engine2R f = (\<lambda>s. case f (rs_tick s) (rs_plan s) of
     (p, r) \<Rightarrow> (s\<lparr>rs_plan := p, rs_tick := Suc (rs_tick s)\<rparr>, r))"

definition ask :: "(nat \<Rightarrow> 'a) \<Rightarrow> 'a run" where
  "ask f = (\<lambda>s. (s\<lparr>rs_tick := Suc (rs_tick s)\<rparr>, Inr (f (rs_tick s))))"

definition raiseR :: "plan_error + 'a \<Rightarrow> 'a run" where
  "raiseR r = (\<lambda>s. (s, r))"

definition transitionR :: "run_env \<Rightarrow> string \<Rightarrow> string \<Rightarrow> string \<Rightarrow> bool \<Rightarrow> unit run" where
  "transitionR N sid to err force = engineR (\<lambda>n p. transition p sid to err False force (re_now N n))"

definition draft_criteria :: "string \<Rightarrow> acceptance_check list option" where
  "draft_criteria text = Some (criteria_to_acceptance text)"

text \<open>Every access to the store sees what other processes did to it before.\<close>

definition saveR :: "run_env \<Rightarrow> unit run" where
  "saveR N = (\<lambda>s. let n = rs_tick s in
     case save_plan (re_disk N n) (re_now N n) (re_others N n (rs_dir s)) (rs_plan s) of
       (d, p, e) \<Rightarrow> (s\<lparr>rs_plan := p, rs_dir := d, rs_tick := Suc n\<rparr>,
                     case e of None \<Rightarrow> Inr () | Some x \<Rightarrow> Inl x))"

definition external_abort :: "run_env \<Rightarrow> bool run" where
  "external_abort N = (\<lambda>s. let n = rs_tick s; d = re_others N n (rs_dir s);
       s1 = s\<lparr>rs_dir := d, rs_tick := Suc n\<rparr>
     in case load_plan (re_builtins N) draft_criteria d (plan_id (rs_plan s)) of
       Inr (Some fresh) \<Rightarrow>
         if plan_status fresh = PLAN_ABORTED
         then (s1\<lparr>rs_plan := (rs_plan s)\<lparr>plan_status := PLAN_ABORTED,
                    plan_err := str_or (plan_err fresh) (plan_err (rs_plan s))\<rparr>\<rparr>, Inr True)
         else (s1, Inr False)
     | _ \<Rightarrow> (s1, Inr False))"

section \<open>Instructions\<close>

definition NL :: string where "NL = [CHR 0x0A]"

definition dependency_block :: "plan \<Rightarrow> string \<Rightarrow> string option" where
  "dependency_block p dep = (case get_step p dep of
     Inl _ \<Rightarrow> None
   | Inr d \<Rightarrow> if step_output d = [] then None
             else Some (''### '' @ dep @ NL @ take 4000 (step_output d)))"

definition with_dependency_context :: "plan \<Rightarrow> plan_step \<Rightarrow> string \<Rightarrow> string" where
  "with_dependency_context p s instruction =
     (let blocks = List.map_filter (dependency_block p) (depends_on s)
      in if depends_on s = [] \<or> blocks = [] then instruction
         else ''Context from completed steps:'' @ NL @ NL @ join (NL @ NL) blocks @ NL @ NL @
              ''---'' @ NL @ NL @ instruction)"

definition step_instruction :: "plan \<Rightarrow> plan_step \<Rightarrow> string" where
  "step_instruction p s =
     with_dependency_context p s
       (str_or (strip (str_or (step_task s) (plan_task p)))
          (''Perform role='' @ step_role s @ '' for plan '' @ plan_id p))"

definition step_run_mode :: "plan_step \<Rightarrow> string" where
  "step_run_mode s = lower (str_or (step_mode s) MODE_CHAT)"

section \<open>One step\<close>

definition EXTERNALLY_RESOLVED :: "string list" where
  "EXTERNALLY_RESOLVED = [CHECK_HUMAN_REVIEW, CHECK_ACTION_SUCCEEDED]"

definition externally_resolved :: "plan_step \<Rightarrow> bool" where
  "externally_resolved s \<longleftrightarrow> list_ex (\<lambda>c. check_type c \<in> set EXTERNALLY_RESOLVED) (acceptance s)"

definition verify_ctx_of :: "run_cfg \<Rightarrow> plan \<Rightarrow> plan_step \<Rightarrow> (string \<times> string) list \<Rightarrow> (string \<times> string) list \<Rightarrow> verify_ctx" where
  "verify_ctx_of C p s before after = empty_ctx\<lparr>vc_cwd := plan_cwd p, vc_output := step_output s,
     vc_files_touched := files_touched s, vc_git_before := before, vc_git_after := after,
     vc_command_timeout := rc_command_timeout C\<rparr>"

definition verifyR ::
  "run_cfg \<Rightarrow> run_env \<Rightarrow> string \<Rightarrow> string \<Rightarrow> (string \<times> string) list \<Rightarrow> (string \<times> string) list \<Rightarrow> bool run" where
  "verifyR C N run_mode sid before after =
     bindR get_plan (\<lambda>p. bindR (raiseR (get_step p sid)) (\<lambda>s.
       let ctx = verify_ctx_of C p s before after
       in if externally_resolved s
          then bindR (engineR (\<lambda>n q. map_sum id fst (verify_step (re_world N n) q sid ctx False)))
                 (\<lambda>_. ret False)
          else bindR (engine2R (\<lambda>n q. complete_verification (re_world N n) q sid ctx False (re_now N n)))
                 (\<lambda>results. bindR get_plan (\<lambda>q. bindR (raiseR (get_step q sid)) (\<lambda>t.
                    if all_passed results \<or> results = [] then ret (step_status t = VERIFIED)
                    else if run_mode = ''shadow''
                    then bindR (mod_plan (\<lambda>q. recompute_plan_status
                                  (upd_step sid (\<lambda>s. s\<lparr>step_status := VERIFIED\<rparr>) q))) (\<lambda>_. ret True)
                    else ret False)))))"

definition record_reply :: "string \<Rightarrow> string \<Rightarrow> (rat \<times> rat) option \<Rightarrow> plan \<Rightarrow> plan" where
  "record_reply sid out costs = upd_step sid (\<lambda>s.
     (case costs of None \<Rightarrow> s | Some (c, ms) \<Rightarrow> s\<lparr>cost_usd := c, duration_ms := ms\<rparr>)
       \<lparr>step_output := take 50000 out\<rparr>)"

text \<open>What follows a successful execution, in a wave and outside of one.\<close>

definition finish_execution ::
  "run_cfg \<Rightarrow> run_env \<Rightarrow> string \<Rightarrow> string \<Rightarrow> string \<Rightarrow> string list \<Rightarrow>
   (string \<times> string) list \<Rightarrow> (string \<times> string) list \<Rightarrow> bool run" where
  "finish_execution C N run_mode sid out files before after =
     bindR (engine2R (\<lambda>n p. case mark_execution_finished p sid True [] out (Some files) (re_now N n) of
              (q, None) \<Rightarrow> (q, Inr ()) | (q, Some e) \<Rightarrow> (q, Inl e))) (\<lambda>_.
     bindR (engineR (\<lambda>n p. advance_after_done p sid (re_now N n))) (\<lambda>_.
     bindR get_plan (\<lambda>p. bindR (raiseR (get_step p sid)) (\<lambda>s.
       if step_status s = VERIFIED then ret True
       else if step_status s = VERIFYING then verifyR C N run_mode sid before after
       else ret (step_status s \<in> {VERIFIED, SKIPPED})))))"

definition snapshotR :: "run_env \<Rightarrow> (string \<times> string) list run" where
  "snapshotR N = bindR get_plan (\<lambda>p. ask (\<lambda>n. git_porcelain (re_world N n) (plan_cwd p)))"

definition BUSINESS_ERROR :: string where
  "BUSINESS_ERROR = ''mode=business steps must run via DecisionService, not PlanRunner''"

definition run_one_step :: "run_cfg \<Rightarrow> run_env \<Rightarrow> string \<Rightarrow> string \<Rightarrow> bool \<Rightarrow> bool run" where
  "run_one_step C N run_mode sid already_running =
     bindR (if already_running then ret ()
            else bindR (transitionR N sid RUNNING [] False) (\<lambda>_. saveR N)) (\<lambda>_.
     bindR get_plan (\<lambda>p. bindR (raiseR (get_step p sid)) (\<lambda>s.
     bindR (snapshotR N) (\<lambda>before.
       if step_run_mode s = MODE_BUSINESS
       then bindR (transitionR N sid FAILED BUSINESS_ERROR False) (\<lambda>_. ret False)
       else bindR (ask (\<lambda>n. if step_run_mode s = MODE_EXECUTOR then re_exec N n s p (step_instruction p s)
                          else case re_chat N n s p (step_instruction p s) of
                                 Reply ok out err _ costs \<Rightarrow> Reply ok out err [] costs
                               | RaisesException m \<Rightarrow> RaisesException m)) (\<lambda>outcome.
         let (ok, out, err, files, costs) = (case outcome of
               Reply ok out err files costs \<Rightarrow> (ok, out, err, files, costs)
             | RaisesException m \<Rightarrow> (False, [], m, [], None))
         in bindR (mod_plan (record_reply sid out costs)) (\<lambda>_.
            bindR (mod_plan (upd_step sid (\<lambda>s. if files \<noteq> [] then s\<lparr>files_touched := files\<rparr> else s))) (\<lambda>_.
            bindR (snapshotR N) (\<lambda>after.
            bindR (mod_plan (upd_step sid (\<lambda>s. if files_touched s = []
                     then s\<lparr>files_touched := changed_paths before after\<rparr> else s))) (\<lambda>_.
              if \<not> ok then bindR (transitionR N sid FAILED (str_or err ''step execution failed'') False) (\<lambda>_. ret False)
              else bindR get_plan (\<lambda>q. bindR (raiseR (get_step q sid)) (\<lambda>t.
                     finish_execution C N run_mode sid out (files_touched t) before after)))))))))))"

section \<open>A wave of chat steps\<close>

text \<open>
  Each worker thread writes the output of its own step only, whatever order the replies come
  in: \<open>re_schedule\<close> is that order.  The steps a worker reads (its dependencies) are verified and
  nobody's to write.
\<close>

definition wave_body :: "run_env \<Rightarrow> nat \<Rightarrow> plan \<Rightarrow> string \<Rightarrow> exec_outcome" where
  "wave_body N n p sid = (case get_step p sid of
     Inl _ \<Rightarrow> RaisesException []
   | Inr s \<Rightarrow> re_chat N n s p (step_instruction p s))"

definition outcome_output :: "exec_outcome \<Rightarrow> string" where
  "outcome_output r = (case r of Reply _ out _ _ _ \<Rightarrow> out | RaisesException _ \<Rightarrow> [])"

definition outcome_costs :: "exec_outcome \<Rightarrow> (rat \<times> rat) option" where
  "outcome_costs r = (case r of Reply _ _ _ _ costs \<Rightarrow> costs | RaisesException _ \<Rightarrow> None)"

definition outcome_ok :: "exec_outcome \<Rightarrow> bool" where
  "outcome_ok r = (case r of Reply ok _ _ _ _ \<Rightarrow> ok | RaisesException _ \<Rightarrow> False)"

definition outcome_error :: "exec_outcome \<Rightarrow> string" where
  "outcome_error r = (case r of Reply _ _ err _ _ \<Rightarrow> err | RaisesException m \<Rightarrow> m)"

definition run_workers :: "(string \<Rightarrow> exec_outcome) \<Rightarrow> string list \<Rightarrow> plan \<Rightarrow> plan" where
  "run_workers reply order = fold (\<lambda>sid. record_reply sid (outcome_output (reply sid)) (outcome_costs (reply sid))) order"

definition finalize_chat_step :: "run_cfg \<Rightarrow> run_env \<Rightarrow> string \<Rightarrow> string \<Rightarrow> exec_outcome \<Rightarrow> bool run" where
  "finalize_chat_step C N run_mode sid r =
     bindR get_plan (\<lambda>p. bindR (raiseR (get_step p sid)) (\<lambda>s.
       if \<not> outcome_ok r
       then bindR (transitionR N sid FAILED (str_or (outcome_error r) ''step execution failed'') False) (\<lambda>_. ret False)
       else finish_execution C N run_mode sid (step_output s) [] [] []))"

fun forR :: "'a list \<Rightarrow> ('a \<Rightarrow> 'b run) \<Rightarrow> 'b list run" where
  "forR [] f = ret []"
| "forR (x # xs) f = bindR (f x) (\<lambda>y. bindR (forR xs f) (\<lambda>ys. ret (y # ys)))"

definition schedule_of :: "run_env \<Rightarrow> nat \<Rightarrow> string list \<Rightarrow> string list" where
  "schedule_of N n sids =
     (let order = re_schedule N n sids in if distinct order \<and> set order = set sids then order else sids)"

definition run_chat_wave :: "run_cfg \<Rightarrow> run_env \<Rightarrow> string \<Rightarrow> string list \<Rightarrow> bool list run" where
  "run_chat_wave C N run_mode sids =
     bindR (forR sids (\<lambda>sid. transitionR N sid RUNNING [] False)) (\<lambda>_.
     bindR (saveR N) (\<lambda>_.
     bindR get_plan (\<lambda>p.
     bindR (ask (\<lambda>n sid. wave_body N n p sid)) (\<lambda>reply.
     bindR (ask (\<lambda>n. schedule_of N n sids)) (\<lambda>order.
     bindR (mod_plan (run_workers reply order)) (\<lambda>_.
       forR sids (\<lambda>sid. finalize_chat_step C N run_mode sid (reply sid))))))))"

section \<open>Retry, soft failure, stop\<close>

definition get_retries :: "string \<Rightarrow> nat run" where
  "get_retries sid = (\<lambda>s. (s, Inr (rs_retries s sid)))"

definition count_retry :: "string \<Rightarrow> unit run" where
  "count_retry sid = (\<lambda>s. (s\<lparr>rs_retries := (rs_retries s)(sid := Suc (rs_retries s sid))\<rparr>, Inr ()))"

definition hard_stop :: "string \<Rightarrow> bool run" where
  "hard_stop sid = bindR get_plan (\<lambda>p. bindR (raiseR (get_step p sid)) (\<lambda>s.
     bindR (mod_plan (\<lambda>q. q\<lparr>plan_status := PLAN_FAILED,
                       plan_err := str_or (step_error s) (''step '' @ sid @ '' failed'')\<rparr>)) (\<lambda>_. ret False)))"

definition soft_fail :: "run_env \<Rightarrow> string \<Rightarrow> bool run" where
  "soft_fail N sid =
     bindR (transitionR N sid VERIFIED [] True) (\<lambda>_.
     bindR (mod_plan (upd_step sid (\<lambda>s. s\<lparr>step_error := take 2000 (str_or (step_error s) ''continue after fail'')\<rparr>))) (\<lambda>_.
     bindR (saveR N) (\<lambda>_. ret True)))"

definition after_attempts :: "run_env \<Rightarrow> string \<Rightarrow> string \<Rightarrow> bool run" where
  "after_attempts N on_fail sid =
     bindR get_plan (\<lambda>p. bindR (raiseR (get_step p sid)) (\<lambda>s.
       if on_fail = ''continue'' \<and> step_status s = FAILED then soft_fail N sid else hard_stop sid))"

definition handle_step_outcome ::
  "run_cfg \<Rightarrow> run_env \<Rightarrow> string \<Rightarrow> string \<Rightarrow> nat \<Rightarrow> string \<Rightarrow> bool \<Rightarrow> bool run" where
  "handle_step_outcome C N run_mode on_fail max_retries sid ok =
     (if ok then ret True
      else bindR get_plan (\<lambda>p. bindR (raiseR (get_step p sid)) (\<lambda>s.
        if step_status s \<noteq> FAILED then ret True
        else bindR (get_retries sid) (\<lambda>k.
          if on_fail = ''retry'' \<and> k < max_retries
          then bindR (count_retry sid) (\<lambda>_. bindR (transitionR N sid RUNNING [] False) (\<lambda>_.
               bindR (run_one_step C N run_mode sid True) (\<lambda>ok2.
               bindR (external_abort N) (\<lambda>aborted. bindR (saveR N) (\<lambda>_.
                 if aborted then ret False else if ok2 then ret True
                 else after_attempts N on_fail sid)))))
          else after_attempts N on_fail sid))))"

fun handle_wave ::
  "run_cfg \<Rightarrow> run_env \<Rightarrow> string \<Rightarrow> string \<Rightarrow> nat \<Rightarrow> (string \<times> bool) list \<Rightarrow> bool run" where
  "handle_wave C N run_mode on_fail max_retries [] = ret True"
| "handle_wave C N run_mode on_fail max_retries ((sid, ok) # rest) =
     bindR (handle_step_outcome C N run_mode on_fail max_retries sid ok) (\<lambda>go.
       if go then handle_wave C N run_mode on_fail max_retries rest else ret False)"

section \<open>The loop\<close>

datatype loop_step = Continue | Break | TimeOut

record run_params =
  rp_mode :: string
  rp_on_fail :: string
  rp_max_retries :: nat
  rp_max_parallel :: nat
  rp_timeout :: "rat option"
  rp_t0 :: rat

definition BLOCKED :: string where "BLOCKED = ''blocked: unmet verified dependencies''"

text \<open>What the loop does to the plan when no step can start.\<close>

definition no_runnable :: "plan \<Rightarrow> plan" where
  "no_runnable p =
     (if all_steps_terminal p then recompute_plan_status p
      else if list_ex (\<lambda>s. step_status s \<in> {RUNNING, DONE, VERIFYING}) (steps p) then recompute_plan_status p
      else if list_ex (\<lambda>s. step_status s = PENDING) (steps p)
      then p\<lparr>plan_status := PLAN_FAILED, plan_err := str_or (plan_err p) BLOCKED\<rparr>
      else recompute_plan_status p)"

definition chat_ids :: "plan \<Rightarrow> string list \<Rightarrow> string list" where
  "chat_ids p = filter (\<lambda>sid. case get_step p sid of
     Inr s \<Rightarrow> step_run_mode s = MODE_CHAT | Inl _ \<Rightarrow> False)"

definition run_steps :: "run_cfg \<Rightarrow> run_env \<Rightarrow> run_params \<Rightarrow> plan \<Rightarrow> string list \<Rightarrow> loop_step run" where
  "run_steps C N R p runnable =
     (let chats = chat_ids p runnable
      in if length chats > 1 \<and> rp_max_parallel R > 1
         then (let wave = take (rp_max_parallel R) chats
               in bindR (run_chat_wave C N (rp_mode R) wave) (\<lambda>outcomes.
                  bindR (external_abort N) (\<lambda>aborted. bindR (saveR N) (\<lambda>_.
                    if aborted then ret Break
                    else bindR (handle_wave C N (rp_mode R) (rp_on_fail R) (rp_max_retries R) (zip wave outcomes))
                           (\<lambda>go. ret (if go then Continue else Break))))))
         else bindR (run_one_step C N (rp_mode R) (hd runnable) False) (\<lambda>ok.
              bindR (external_abort N) (\<lambda>aborted. bindR (saveR N) (\<lambda>_.
                if aborted then ret Break
                else bindR (handle_step_outcome C N (rp_mode R) (rp_on_fail R) (rp_max_retries R) (hd runnable) ok)
                       (\<lambda>go. ret (if go then Continue else Break))))))"

definition expired :: "run_env \<Rightarrow> run_params \<Rightarrow> bool run" where
  "expired N R = (case rp_timeout R of
     None \<Rightarrow> ret False
   | Some t \<Rightarrow> ask (\<lambda>n. re_mono N n - rp_t0 R > t))"

definition loop_body :: "run_cfg \<Rightarrow> run_env \<Rightarrow> run_params \<Rightarrow> loop_step run" where
  "loop_body C N R =
     bindR get_plan (\<lambda>p0.
       if plan_status p0 = PLAN_ABORTED then ret Break
       else bindR (external_abort N) (\<lambda>aborted.
         if aborted then ret Break
         else bindR (expired N R) (\<lambda>late.
           if late then ret TimeOut
           else bindR get_plan (\<lambda>p. bindR (raiseR (runnable_steps p)) (\<lambda>runnable.
             if runnable = [] then bindR (mod_plan no_runnable) (\<lambda>_. ret Break)
             else run_steps C N R p runnable)))))"

text \<open>\<open>None\<close>: the fuel is used up.  The result says whether the loop ended by its time limit.\<close>

fun run_loop :: "nat \<Rightarrow> run_cfg \<Rightarrow> run_env \<Rightarrow> run_params \<Rightarrow> run_state \<Rightarrow> (run_state \<times> (plan_error + bool)) option" where
  "run_loop 0 C N R s = None"
| "run_loop (Suc fuel) C N R s = (case loop_body C N R s of
     (s', Inl e) \<Rightarrow> Some (s', Inl e)
   | (s', Inr Continue) \<Rightarrow> run_loop fuel C N R s'
   | (s', Inr Break) \<Rightarrow> Some (s', Inr False)
   | (s', Inr TimeOut) \<Rightarrow> Some (s', Inr True))"

section \<open>run, resume, cancel\<close>

definition recover_one :: "run_env \<Rightarrow> rat \<Rightarrow> rat \<Rightarrow> string \<Rightarrow> unit run" where
  "recover_one N threshold now sid =
     bindR get_plan (\<lambda>p. bindR (raiseR (get_step p sid)) (\<lambda>s.
       if step_status s = RUNNING \<and> started_at s \<noteq> 0 \<and> now - started_at s > threshold
       then transitionR N sid FAILED
              (''stale: stuck in running for over '' @ str_int \<lfloor>now - started_at s\<rfloor> @ ''s (process likely crashed)'') False
       else ret ()))"

definition recover_stale :: "run_cfg \<Rightarrow> run_env \<Rightarrow> unit run" where
  "recover_stale C N =
     (if rc_stale_seconds C \<le> 0 then ret ()
      else bindR (ask (re_now N)) (\<lambda>now. bindR get_plan (\<lambda>p.
        bindR (forR (step_ids p) (recover_one N (rc_stale_seconds C) now)) (\<lambda>_. ret ()))))"

definition effective_mode :: "run_cfg \<Rightarrow> string \<Rightarrow> string" where
  "effective_mode C mode =
     (let m = lower (str_or mode (str_or (rc_mode C) ''shadow'')) in if m = ''off'' then ''shadow'' else m)"

definition params_of :: "run_cfg \<Rightarrow> string \<Rightarrow> rat option \<Rightarrow> rat \<Rightarrow> run_params" where
  "params_of C mode timeout t0 = \<lparr>rp_mode = effective_mode C mode,
     rp_on_fail = lower (str_or (rc_on_fail C) ''stop''), rp_max_retries = nat (rc_max_retries C),
     rp_max_parallel = (if rc_sdk_enabled C
        then nat (max 1 (if rc_max_parallel C = 0 then 1 else rc_max_parallel C)) else 1),
     rp_timeout = timeout, rp_t0 = t0\<rparr>"

definition prepare_plan :: "run_cfg \<Rightarrow> run_env \<Rightarrow> string \<Rightarrow> plan \<Rightarrow> plan" where
  "prepare_plan C N cwd p =
     (let p1 = p\<lparr>plan_cwd := (if cwd \<noteq> [] then cwd else str_or (plan_cwd p) (rc_default_cwd C))\<rparr>
      in p1\<lparr>task_id := str_or (task_id p1) (re_task_id N)\<rparr>)"

text \<open>After the loop: the error of a crash or of the time limit, and the final status.\<close>

definition conclude :: "run_env \<Rightarrow> rat option \<Rightarrow> plan_error + bool \<Rightarrow> plan \<Rightarrow> plan" where
  "conclude N timeout r p =
     (let p1 = (case r of
            Inl e \<Rightarrow> p\<lparr>plan_status := PLAN_FAILED, plan_err := take 2000 (re_str N e)\<rparr>
          | Inr timed_out \<Rightarrow>
              if timed_out \<and> plan_status p \<notin> {PLAN_COMPLETED, PLAN_FAILED, PLAN_ABORTED}
              then p\<lparr>plan_err := ''workflow-level timeout after '' @
                       ve_repr (re_world N 0) (JFloat (case timeout of Some t \<Rightarrow> t | None \<Rightarrow> 0)) @ ''s''\<rparr>
              else p);
          p2 = recompute_plan_status p1
      in if plan_status p2 \<in> {PLAN_COMPLETED, PLAN_FAILED, PLAN_ABORTED} then p2
         else if all_steps_terminal p2 \<and> list_ex (\<lambda>s. step_status s = VERIFIED) (steps p2)
         then p2\<lparr>plan_status := PLAN_COMPLETED\<rparr>
         else if list_ex (\<lambda>s. step_status s = FAILED) (steps p2) then p2\<lparr>plan_status := PLAN_FAILED\<rparr>
         else p2)"

record run_result =
  rr_plan :: plan
  rr_success :: bool
  rr_error :: string
  rr_summary :: json

definition setup_run :: "run_cfg \<Rightarrow> run_env \<Rightarrow> string \<Rightarrow> unit run" where
  "setup_run C N cwd =
     bindR (mod_plan (prepare_plan C N cwd)) (\<lambda>_.
     bindR get_plan (\<lambda>p. bindR (raiseR (validate p)) (\<lambda>_.
     bindR (recover_stale C N) (\<lambda>_.
     bindR (mod_plan (\<lambda>p. p\<lparr>plan_status := PLAN_RUNNING\<rparr>)) (\<lambda>_. saveR N)))))"

definition finish_run :: "run_env \<Rightarrow> rat option \<Rightarrow> plan_error + bool \<Rightarrow> run_result run" where
  "finish_run N timeout r =
     bindR (mod_plan (conclude N timeout r)) (\<lambda>_.
     bindR (saveR N) (\<lambda>_.
     bindR get_plan (\<lambda>p. bindR (raiseR (plan_summary p)) (\<lambda>summary.
       ret \<lparr>rr_plan = p, rr_success = (plan_status p = PLAN_COMPLETED), rr_error = plan_err p,
            rr_summary = summary\<rparr>))))"

text \<open>The loop gets one unit of fuel more than the plan has steps.\<close>

definition run_plan ::
  "run_cfg \<Rightarrow> run_env \<Rightarrow> string \<Rightarrow> string \<Rightarrow> rat option \<Rightarrow> run_state
     \<Rightarrow> (run_state \<times> (plan_error + run_result)) option" where
  "run_plan C N mode cwd timeout s0 =
     (case bindR (ask (re_mono N)) (\<lambda>t0. bindR (setup_run C N cwd) (\<lambda>_. ret t0)) (s0\<lparr>rs_retries := (\<lambda>_. 0)\<rparr>) of
        (s1, Inl e) \<Rightarrow> Some (s1, Inl e)
      | (s1, Inr t0) \<Rightarrow>
          map_option (\<lambda>(s2, r). finish_run N timeout r s2)
            (run_loop (Suc (length (steps (rs_plan s1)))) C N (params_of C mode timeout t0) s1))"

definition resume ::
  "run_cfg \<Rightarrow> run_env \<Rightarrow> string \<Rightarrow> string \<Rightarrow> rat option \<Rightarrow> run_state
     \<Rightarrow> (run_state \<times> (plan_error + run_result)) option" where
  "resume C N pid mode timeout s0 =
     (let n = rs_tick s0; d = re_others N n (rs_dir s0); s1 = s0\<lparr>rs_dir := d, rs_tick := Suc n\<rparr>
      in case load_plan (re_builtins N) draft_criteria d pid of
           Inl e \<Rightarrow> Some (s1, Inl e)
         | Inr None \<Rightarrow> Some (s1, Inl (Raised (PyFileNotFoundError pid)))
         | Inr (Some p) \<Rightarrow> run_plan C N mode (plan_cwd p) timeout (s1\<lparr>rs_plan := p\<rparr>))"

definition cancel ::
  "py_builtins \<Rightarrow> disk \<Rightarrow> rat \<Rightarrow> plan_dir \<Rightarrow> string \<Rightarrow> string \<Rightarrow> plan_dir \<times> (plan_error + plan)" where
  "cancel B disk now d pid error =
     (case load_plan B draft_criteria d pid of
        Inl e \<Rightarrow> (d, Inl e)
      | Inr None \<Rightarrow> (d, Inl (Raised (PyFileNotFoundError pid)))
      | Inr (Some p) \<Rightarrow> (case save_plan disk now d (abort p error) of
            (d', q, Some e) \<Rightarrow> (d', Inl e)
          | (d', q, None) \<Rightarrow> (d', Inr q)))"

end
