(* ===== verification/Runner_Safety.thy ===== *)
theory Runner_Safety
  imports Plan_Runner
begin

text \<open>
  What every run of \<^verbatim>\<open>Plan_Runner\<close> preserves.  \<open>plan_relation\<close> is the contract: a reflexive and
  transitive relation on plans that the primitive writes of the runner respect; inside it every
  method of the runner is shown to respect it.  It is interpreted twice: on the moves of the plan
  state machine, which carry the dependency gate, and on the human gate.
\<close>

definition effect :: "(plan \<Rightarrow> plan \<Rightarrow> bool) \<Rightarrow> 'a run \<Rightarrow> bool" where
  "effect R m \<longleftrightarrow> (\<forall>s. R (rs_plan s) (rs_plan (fst (m s))))"

lemma effectD: "effect R m \<Longrightarrow> m s = (s', r) \<Longrightarrow> R (rs_plan s) (rs_plan s')"
  unfolding effect_def by (metis fst_conv)

text \<open>The writes that concern neither the identity, the dependencies, the status nor the checks of a step.\<close>

definition quiet :: "(plan_step \<Rightarrow> plan_step) \<Rightarrow> bool" where
  "quiet f \<longleftrightarrow> (\<forall>s. step_id (f s) = step_id s \<and> depends_on (f s) = depends_on s \<and>
     step_status (f s) = step_status s \<and> acceptance (f s) = acceptance s)"

lemma verify_step_get:
  assumes "verify_step E p sid base stop = Inr (q, rs)" "get_step p sid = Inr s"
  shows "\<exists>l. get_step q sid = Inr (s\<lparr>verify_log := l\<rparr>)"
proof (cases "q = p")
  case True
  then show ?thesis using assms(2) by (intro exI [of _ "verify_log s"]) simp
next
  case False
  then obtain l where "q = upd_step sid (\<lambda>t. t\<lparr>verify_log := l\<rparr>) p"
    using assms by (auto simp: verify_step_def Let_def split: if_splits)
  then show ?thesis using assms(2) by (intro exI [of _ l]) (simp add: get_step_upd_same)
qed

text \<open>A verification that returns failing results has moved its step to \<^verbatim>\<open>failed\<close>.\<close>

lemma complete_verification_Inr:
  assumes "complete_verification E p sid base stop now = (q, Inr rs)" "get_step p sid = Inr s"
  shows "\<exists>t. get_step q sid = Inr t \<and> acceptance t = acceptance s \<and>
    step_status t = (if rs = [] \<or> all_passed rs then VERIFIED else FAILED)"
proof -
  obtain p1 err where v: "verify_step E p sid base stop = Inr (p1, rs)"
    and t: "transition p1 sid (if rs = [] \<or> all_passed rs then VERIFIED else FAILED) err False False now = Inr q"
    using assms by (auto simp: complete_verification_def split: sum.splits prod.splits if_splits)
  obtain l where "get_step p1 sid = Inr (s\<lparr>verify_log := l\<rparr>)"
    using verify_step_get [OF v assms(2)] by blast
  moreover obtain s1 where "get_step p1 sid = Inr s1" and q: "get_step q sid = Inr (apply_status
      (if rs = [] \<or> all_passed rs then VERIFIED else FAILED) err now s1)"
    by (rule transition_result [OF t])
  ultimately have "acceptance s1 = acceptance s" by simp
  then show ?thesis using q by simp
qed

locale plan_relation =
  fixes R :: "plan \<Rightarrow> plan \<Rightarrow> bool" and forced :: bool and ids :: "string set"
  assumes R_trans: "R p q \<Longrightarrow> R q r \<Longrightarrow> R p r"
    and R_book: "steps q = steps p \<Longrightarrow> R p q"
    and R_write: "sid \<in> ids \<Longrightarrow> quiet f \<Longrightarrow> R p (upd_step sid f p)"
    and R_move: "sid \<in> ids \<Longrightarrow> transition p sid t err False False now = Inr q \<Longrightarrow> t \<noteq> VERIFIED \<Longrightarrow> R p q"
    and R_pass: "sid \<in> ids \<Longrightarrow> transition p sid VERIFIED err False False now = Inr q \<Longrightarrow> get_step p sid = Inr s \<Longrightarrow>
      \<not> externally_resolved s \<Longrightarrow> R p q"
    and R_shadow: "sid \<in> ids \<Longrightarrow> get_step p sid = Inr s \<Longrightarrow> step_status s = FAILED \<Longrightarrow> \<not> externally_resolved s \<Longrightarrow>
      R p (upd_step sid (\<lambda>s. s\<lparr>step_status := VERIFIED\<rparr>) p)"
    and R_soft: "forced \<Longrightarrow> sid \<in> ids \<Longrightarrow> get_step p sid = Inr s \<Longrightarrow> step_status s = FAILED \<Longrightarrow>
      transition p sid VERIFIED [] False True now = Inr q \<Longrightarrow> R p q"
begin

lemma R_refl: "R p p"
  by (rule R_book) simp

lemma effect_ret: "effect R (ret x)" and effect_get: "effect R get_plan"
  and effect_raise: "effect R (raiseR r)" and effect_ask: "effect R (ask f)"
  and effect_retries: "effect R (get_retries sid)" "effect R (count_retry sid)"
  by (simp_all add: effect_def ret_def get_plan_def raiseR_def ask_def get_retries_def count_retry_def R_refl)

lemma effect_bind:
  assumes "effect R m" "\<And>x. effect R (f x)"
  shows "effect R (bindR m f)"
  unfolding effect_def
proof
  fix s
  obtain s' r where m: "m s = (s', r)" by (cases "m s")
  have "R (rs_plan s) (rs_plan s')" by (rule effectD [OF assms(1) m])
  moreover have "R (rs_plan s') (rs_plan (fst (f x s')))" for x
    using assms(2) unfolding effect_def by blast
  ultimately show "R (rs_plan s) (rs_plan (fst (bindR m f s)))"
    by (cases r) (auto simp: bindR_def m intro: R_trans)
qed

lemma effect_mod: "(\<And>p. R p (f p)) \<Longrightarrow> effect R (mod_plan f)"
  by (simp add: effect_def mod_plan_def)

lemma effect_engine: "(\<And>n p q. f n p = Inr q \<Longrightarrow> R p q) \<Longrightarrow> effect R (engineR f)"
  by (simp add: effect_def engineR_def R_refl split: sum.splits)

lemma effect_engine2: "(\<And>n p. R p (fst (f n p))) \<Longrightarrow> effect R (engine2R f)"
  unfolding effect_def engine2R_def
proof
  fix s assume h: "\<And>n p. R p (fst (f n p))"
  show "R (rs_plan s) (rs_plan (fst (case f (rs_tick s) (rs_plan s) of
      (p, r) \<Rightarrow> (s\<lparr>rs_plan := p, rs_tick := Suc (rs_tick s)\<rparr>, r))))"
    using h [of "rs_plan s" "rs_tick s"] by (simp add: case_prod_beta)
qed

lemma effect_transition: "sid \<in> ids \<Longrightarrow> t \<noteq> VERIFIED \<Longrightarrow> effect R (transitionR N sid t err False)"
  unfolding transitionR_def by (rule effect_engine) (rule R_move)

lemma effect_save: "effect R (saveR N)"
  unfolding effect_def saveR_def
  by (auto simp: Let_def intro!: R_book split: prod.splits dest!: save_plan_result)

lemma effect_abort: "effect R (external_abort N)"
  unfolding effect_def external_abort_def
  by (auto simp: Let_def intro!: R_book split: sum.splits option.splits)

lemma effect_for: "(\<And>x. x \<in> set xs \<Longrightarrow> effect R (f x)) \<Longrightarrow> effect R (forR xs f)"
  by (induction xs) (auto intro!: effect_bind effect_ret)

lemma effect_snapshot: "effect R (snapshotR N)"
  unfolding snapshotR_def by (intro effect_bind effect_get effect_ask)

lemmas effects = effect_bind effect_ret effect_get effect_raise effect_ask effect_retries effect_save
  effect_abort effect_snapshot effect_for

lemma R_recompute: "R p (recompute_plan_status p)"
  by (rule R_book) simp

lemma R_verify_step: "sid \<in> ids \<Longrightarrow> verify_step E p sid base stop = Inr (q, rs) \<Longrightarrow> R p q"
  by (cases "get_step p sid")
    (auto simp: verify_step_def Let_def quiet_def intro: R_refl R_write split: if_splits)

lemma R_complete:
  assumes sid: "sid \<in> ids" and "get_step p sid = Inr s" "\<not> externally_resolved s"
  shows "R p (fst (complete_verification E p sid base stop now))"
proof -
  have "R p r" if v: "verify_step E p sid base stop = Inr (q, rs)"
    and t: "transition q sid VERIFIED [] False False now = Inr r" for q rs r
  proof -
    obtain l where "get_step q sid = Inr (s\<lparr>verify_log := l\<rparr>)"
      using verify_step_get [OF v assms(2)] by blast
    then show ?thesis
      using R_trans [OF R_verify_step [OF sid v] R_pass [OF sid t]] assms(3) by (simp add: externally_resolved_def)
  qed
  moreover have "R p r" if "verify_step E p sid base stop = Inr (q, rs)"
    "transition q sid FAILED err False False now = Inr r" for q rs r err
    by (rule R_trans [OF R_verify_step [OF sid that(1)] R_move [OF sid that(2)]]) simp
  ultimately show ?thesis
    by (auto simp: complete_verification_def intro: R_refl R_verify_step [OF sid]
        split: sum.splits prod.splits if_splits)
qed


lemma R_shadow_open:
  assumes "sid \<in> ids" "get_step p sid = Inr s" "step_status s = FAILED" "\<not> externally_resolved s"
  shows "R p (recompute_plan_status (upd_step sid (\<lambda>s. s\<lparr>step_status := VERIFIED\<rparr>) p))"
  by (rule R_trans [OF R_shadow [OF assms] R_recompute])

lemma effect_verify:
  assumes sid: "sid \<in> ids"
  shows "effect R (verifyR C N run_mode sid before after)"
  unfolding effect_def
proof
  fix st :: run_state
  let ?p = "rs_plan st"
  show "R ?p (rs_plan (fst (verifyR C N run_mode sid before after st)))"
  proof (cases "get_step ?p sid")
    case (Inl e)
    then show ?thesis by (simp add: verifyR_def bindR_def get_plan_def raiseR_def R_refl)
  next
    case (Inr s)
    show ?thesis
    proof (cases "externally_resolved s")
      case True
      have "effect R (bindR (engineR (\<lambda>n q. map_sum id fst
          (verify_step (re_world N n) q sid (verify_ctx_of C ?p s before after) False))) (\<lambda>_. ret False))"
        by (intro effect_bind effect_ret effect_engine) (auto intro: R_verify_step [OF sid]
            simp: map_sum_def split: sum.splits)
      then show ?thesis using Inr True
        by (simp add: verifyR_def bindR_def get_plan_def raiseR_def Let_def effect_def)
    next
      case False
      let ?n = "rs_tick st"
      obtain q r where c: "complete_verification (re_world N ?n) ?p sid (verify_ctx_of C ?p s before after)
          False (re_now N ?n) = (q, r)" by fastforce
      have q: "R ?p q" using R_complete [OF sid Inr False] c by (metis fst_conv)
      show ?thesis
      proof (cases r)
        case (Inl e)
        then show ?thesis using \<open>get_step ?p sid = Inr s\<close> False c q
          by (simp add: verifyR_def bindR_def get_plan_def raiseR_def engine2R_def Let_def)
      next
        case rs: (Inr results)
        obtain t where t: "get_step q sid = Inr t" "acceptance t = acceptance s"
            "step_status t = (if results = [] \<or> all_passed results then VERIFIED else FAILED)"
          using complete_verification_Inr [OF c [unfolded rs] Inr] by blast
        have ext: "\<not> externally_resolved t" using False t(2) by (simp add: externally_resolved_def)
        show ?thesis using \<open>get_step ?p sid = Inr s\<close> False c q rs t R_trans [OF q R_shadow_open [OF sid t(1) _ ext]]
          by (simp add: verifyR_def bindR_def get_plan_def raiseR_def engine2R_def mod_plan_def ret_def Let_def)
      qed
    qed
  qed
qed

lemma R_mark:
  assumes sid: "sid \<in> ids"
  shows "R p (fst (case mark_execution_finished p sid True [] out (Some files) now of
     (q, None) \<Rightarrow> (q, Inr ()) | (q, Some e) \<Rightarrow> (q, Inl e)))"
proof -
  let ?p1 = "if out \<noteq> [] then upd_step sid (\<lambda>s. s\<lparr>step_output := take 50000 out\<rparr>) p else p"
  let ?p2 = "upd_step sid (\<lambda>s. s\<lparr>files_touched := files\<rparr>) ?p1"
  have "R p ?p1" by (auto simp: quiet_def sid intro: R_write R_refl)
  moreover have "R ?p1 ?p2" by (rule R_write [OF sid]) (simp add: quiet_def)
  ultimately have p2: "R p ?p2" by (rule R_trans)
  moreover have "R p q" if "transition ?p2 sid DONE [] False False now = Inr q" for q
    by (rule R_trans [OF p2 R_move [OF sid that]]) simp
  ultimately show ?thesis
    by (auto simp: mark_execution_finished_def Let_def R_refl split: sum.splits)
qed

lemma R_advance: "sid \<in> ids \<Longrightarrow> advance_after_done p sid now = Inr q \<Longrightarrow> R p q"
  by (cases "get_step p sid")
    (auto simp: advance_after_done_def externally_resolved_def intro: R_move R_pass split: if_splits)

lemma effect_if: "effect R a \<Longrightarrow> effect R b \<Longrightarrow> effect R (if c then a else b)"
  by simp

lemma effect_finish: "sid \<in> ids \<Longrightarrow> effect R (finish_execution C N run_mode sid out files before after)"
  unfolding finish_execution_def
  by (intro effect_bind effect_if effects effect_verify effect_engine effect_engine2 R_mark)
    (auto intro: R_advance)

lemma R_record: "sid \<in> ids \<Longrightarrow> R p (record_reply sid out costs p)"
  unfolding record_reply_def by (rule R_write) (auto simp: quiet_def split: option.splits)

lemma effect_one_step:
  assumes sid: "sid \<in> ids"
  shows "effect R (run_one_step C N run_mode sid already)"
proof -
  have files: "R p (upd_step sid (\<lambda>s. if files \<noteq> [] then s\<lparr>files_touched := files\<rparr> else s) p)"
    "R p (upd_step sid (\<lambda>s. if files_touched s = [] then s\<lparr>files_touched := fs\<rparr> else s) p)" for p files fs
    by (rule R_write [OF sid], simp add: quiet_def)+
  show ?thesis
    unfolding run_one_step_def Let_def case_prod_beta
    by (intro effect_bind effect_if effects effect_finish effect_mod effect_transition R_record files sid) simp_all
qed

lemma effect_finalize: "sid \<in> ids \<Longrightarrow> effect R (finalize_chat_step C N run_mode sid r)"
  unfolding finalize_chat_step_def
  by (intro effect_bind effect_if effects effect_finish effect_transition) simp_all

lemma R_workers: "set order \<subseteq> ids \<Longrightarrow> R p (run_workers reply order p)"
  unfolding run_workers_def by (induction order arbitrary: p) (auto intro: R_refl R_trans [OF R_record])

lemma set_schedule: "set (schedule_of N n sids) = set sids"
  by (simp add: schedule_of_def Let_def)

lemma ask_bind: "bindR (ask f) g s = g (f (rs_tick s)) (s\<lparr>rs_tick := Suc (rs_tick s)\<rparr>)"
  by (simp add: bindR_def ask_def)

lemma effect_ask_bind:
  assumes "\<And>n. effect R (g (f n))"
  shows "effect R (bindR (ask f) g)"
  unfolding effect_def ask_bind
proof
  fix s :: run_state
  show "R (rs_plan s) (rs_plan (fst (g (f (rs_tick s)) (s\<lparr>rs_tick := Suc (rs_tick s)\<rparr>))))"
    using assms [of "rs_tick s"] unfolding effect_def by (metis run_state.select_convs(1) run_state.surjective run_state.update_convs(3))
qed

lemma effect_wave:
  assumes "set sids \<subseteq> ids"
  shows "effect R (run_chat_wave C N run_mode sids)"
proof -
  have "x \<in> ids" if "x \<in> set sids" for x using that assms by blast
  moreover have "set (schedule_of N n sids) \<subseteq> ids" for n using assms by (simp add: set_schedule)
  ultimately show ?thesis
    unfolding run_chat_wave_def
    by (intro effect_bind [of "forR _ _"] effect_bind [of "saveR _"] effect_bind [of get_plan]
        effect_bind [of "mod_plan _"] effect_ask_bind effect_save effect_get effect_for effect_finalize
        effect_transition effect_mod R_workers) simp_all
qed

lemma effect_hard_stop: "effect R (hard_stop sid)"
  unfolding hard_stop_def by (intro effect_bind effects effect_mod R_book) simp

lemma effect_soft_fail:
  assumes "forced" and sid: "sid \<in> ids" and "get_step (rs_plan st) sid = Inr s" "step_status s = FAILED"
  shows "R (rs_plan st) (rs_plan (fst (soft_fail N sid st)))"
proof -
  have "effect R (bindR (mod_plan (upd_step sid (\<lambda>s. s\<lparr>step_error :=
      take 2000 (str_or (step_error s) ''continue after fail'')\<rparr>))) (\<lambda>_. bindR (saveR N) (\<lambda>_. ret True)))" (is "effect R ?m")
    by (intro effect_bind effects effect_mod R_write sid) (simp add: quiet_def)
  then have rest: "R (rs_plan s') (rs_plan (fst (?m s')))" for s' unfolding effect_def by blast
  show ?thesis
  proof (cases "transition (rs_plan st) sid VERIFIED [] False True (re_now N (rs_tick st))")
    case (Inl e)
    then show ?thesis by (simp add: soft_fail_def bindR_def transitionR_def engineR_def R_refl)
  next
    case (Inr q)
    have "R (rs_plan st) q" by (rule R_soft [OF assms Inr])
    moreover have "soft_fail N sid st = ?m (st\<lparr>rs_plan := q, rs_tick := Suc (rs_tick st)\<rparr>)"
      using Inr by (simp only: soft_fail_def) (subst bindR_def, simp add: transitionR_def engineR_def)
    moreover have "R q (rs_plan (fst (?m (st\<lparr>rs_plan := q, rs_tick := Suc (rs_tick st)\<rparr>))))"
      using rest [of "st\<lparr>rs_plan := q, rs_tick := Suc (rs_tick st)\<rparr>"] by simp
    ultimately show ?thesis using R_trans by simp
  qed
qed

lemma effect_after_attempts:
  assumes "on_fail = ''continue'' \<Longrightarrow> forced" and sid: "sid \<in> ids"
  shows "effect R (after_attempts N on_fail sid)"
  unfolding effect_def
proof
  fix st :: run_state
  have h: "R (rs_plan st) (rs_plan (fst (hard_stop sid st)))" using effect_hard_stop unfolding effect_def by blast
  show "R (rs_plan st) (rs_plan (fst (after_attempts N on_fail sid st)))"
    using h effect_soft_fail [of sid st] assms
    by (cases "get_step (rs_plan st) sid")
      (auto simp: after_attempts_def bindR_def get_plan_def raiseR_def R_refl)
qed

lemma effect_handle:
  assumes "on_fail = ''continue'' \<Longrightarrow> forced" and "sid \<in> ids"
  shows "effect R (handle_step_outcome C N run_mode on_fail max_retries sid ok)"
  unfolding handle_step_outcome_def
  by (intro effect_bind effect_if effects effect_one_step effect_after_attempts effect_transition assms) simp_all

lemma effect_handle_wave:
  assumes cont: "on_fail = ''continue'' \<Longrightarrow> forced"
  shows "fst ` set outcomes \<subseteq> ids \<Longrightarrow> effect R (handle_wave C N run_mode on_fail max_retries outcomes)"
proof (induction outcomes)
  case (Cons x outcomes)
  then show ?case
    by (cases x) (auto intro!: effect_bind effect_handle effect_ret cont)
qed (simp add: effect_ret)

lemma R_no_runnable: "R p (no_runnable p)"
  by (rule R_book) (simp add: no_runnable_def)

lemma effect_body:
  assumes cont: "rp_on_fail P = ''continue'' \<Longrightarrow> forced" and UNIV: "ids = UNIV"
  shows "effect R (loop_body C N P)"
proof -
  have "effect R (run_steps C N P p runnable)" for p runnable
    unfolding run_steps_def Let_def
    by (intro effect_if effect_bind effects effect_wave effect_one_step effect_handle effect_handle_wave cont)
      (simp_all add: UNIV)
  moreover have "effect R (expired N P)"
    by (cases "rp_timeout P") (simp_all add: expired_def effects)
  ultimately show ?thesis
    unfolding loop_body_def by (intro effect_bind effect_if effects effect_mod R_no_runnable)
qed

lemma loop_respects:
  assumes "rp_on_fail P = ''continue'' \<Longrightarrow> forced" "ids = UNIV"
  shows "run_loop fuel C N P s = Some (s', r) \<Longrightarrow> R (rs_plan s) (rs_plan s')"
proof (induction fuel arbitrary: s)
  case (Suc fuel)
  obtain s1 b where b: "loop_body C N P s = (s1, b)" by fastforce
  have s1: "R (rs_plan s) (rs_plan s1)" by (rule effectD [OF effect_body [OF assms] b])
  then show ?case
    using Suc.prems Suc.IH [of s1] R_trans [OF s1] b by (auto split: sum.splits loop_step.splits)
qed simp

lemma effect_setup:
  assumes UNIV: "ids = UNIV"
  shows "effect R (setup_run C N cwd)"
proof -
  have rec: "effect R (recover_stale C N)"
    unfolding recover_stale_def recover_one_def
    by (intro effect_if effect_bind effects effect_transition) (simp_all add: UNIV)
  have prep: "R p (prepare_plan C N cwd p)" for p by (rule R_book) (simp add: prepare_plan_def Let_def)
  have "R p (p\<lparr>plan_status := PLAN_RUNNING\<rparr>)" for p by (rule R_book) simp
  then show ?thesis
    unfolding setup_run_def by (intro effect_bind effects effect_mod rec prep)
qed

lemma steps_conclude [simp]: "steps (conclude N timeout r p) = steps p"
  by (auto simp: conclude_def Let_def split: sum.splits)

lemma effect_finish_run: "effect R (finish_run N timeout r)"
  unfolding finish_run_def by (intro effect_bind effects effect_mod R_book) simp

text \<open>A whole run respects the relation, whatever it returns.\<close>

theorem run_respects:
  assumes forced: "lower (rc_on_fail C) = ''continue'' \<Longrightarrow> forced" and UNIV: "ids = UNIV"
    and run: "run_plan C N mode cwd timeout s = Some (s', r)"
  shows "R (rs_plan s) (rs_plan s')"
proof -
  let ?prepared = "bindR (ask (re_mono N)) (\<lambda>t0. bindR (setup_run C N cwd) (\<lambda>_. ret t0))"
  let ?s = "s\<lparr>rs_retries := (\<lambda>_. 0)\<rparr>"
  obtain s1 r1 where s1: "?prepared ?s = (s1, r1)" by fastforce
  have "effect R ?prepared" by (intro effect_bind effects effect_setup UNIV)
  from effectD [OF this s1] have R1: "R (rs_plan s) (rs_plan s1)" by simp
  show ?thesis
  proof (cases r1)
    case (Inl e)
    then show ?thesis using run s1 R1 by (simp add: run_plan_def)
  next
    case (Inr t0)
    have cont: "rp_on_fail (params_of C mode timeout t0) = ''continue'' \<Longrightarrow> forced"
      using forced by (auto simp: params_of_def str_or_def lower_def split: if_splits)
    obtain s2 r2 where l: "run_loop (Suc (length (steps (rs_plan s1)))) C N (params_of C mode timeout t0) s1
          = Some (s2, r2)" and f: "finish_run N timeout r2 s2 = (s', r)"
      using run s1 Inr by (auto simp: run_plan_def)
    have "R (rs_plan s1) (rs_plan s2)" by (rule loop_respects [OF cont UNIV l])
    moreover have "R (rs_plan s2) (rs_plan s')" by (rule effectD [OF effect_finish_run f])
    ultimately show ?thesis using R1 R_trans by blast
  qed
qed

end

section \<open>The dependency gate\<close>

lemma forced_is_soft:
  assumes "get_step p sid = Inr s" "step_status s = FAILED"
    and t: "transition p sid VERIFIED [] False True now = Inr q"
  shows "plan_moves p q"
proof -
  have "plan_move p (upd_step sid (apply_status VERIFIED [] now) p)"
    by (rule soft [OF assms(1,2)]) simp
  moreover have "plan_move (upd_step sid (apply_status VERIFIED [] now) p) q"
    using t by (intro bookkeeping) (auto simp: transition_iff)
  ultimately show ?thesis by (meson converse_rtranclp_into_rtranclp r_into_rtranclp)
qed

interpretation moves: plan_relation plan_moves True UNIV
proof
  fix p q r :: plan and f :: "plan_step \<Rightarrow> plan_step" and sid t err now s
  show "plan_moves p q \<Longrightarrow> plan_moves q r \<Longrightarrow> plan_moves p r" by (rule rtranclp_trans)
  show "steps q = steps p \<Longrightarrow> plan_moves p q" using bookkeeping by blast
  show "quiet f \<Longrightarrow> plan_moves p (upd_step sid f p)"
    by (intro r_into_rtranclp evidence) (simp add: quiet_def)
  show "transition p sid t err False False now = Inr q \<Longrightarrow> plan_moves p q"
    "transition p sid VERIFIED err False False now = Inr q \<Longrightarrow> plan_moves p q"
    using engine by blast+
  show "get_step p sid = Inr s \<Longrightarrow> step_status s = FAILED \<Longrightarrow>
      plan_moves p (upd_step sid (\<lambda>s. s\<lparr>step_status := VERIFIED\<rparr>) p)"
    by (rule r_into_rtranclp, rule soft) auto
  show "get_step p sid = Inr s \<Longrightarrow> step_status s = FAILED \<Longrightarrow>
      transition p sid VERIFIED [] False True now = Inr q \<Longrightarrow> plan_moves p q"
    by (rule forced_is_soft)
qed

lemma run_moves: "run_plan C N mode cwd timeout s = Some (s', r) \<Longrightarrow> plan_moves (rs_plan s) (rs_plan s')"
  by (rule moves.run_respects) simp_all

section \<open>The human gate\<close>

text \<open>
  \<open>human_kept\<close>: an open step whose checks are decided outside (by a human or a business action)
  is still open.  Everything the runner does respects it, except the forced opening of a failed
  step under \<^verbatim>\<open>on_fail=continue\<close>.
\<close>

definition awaits_decision :: "plan \<Rightarrow> string \<Rightarrow> bool" where
  "awaits_decision p i \<longleftrightarrow>
     (\<exists>s. get_step p i = Inr s \<and> externally_resolved s \<and> step_status s \<noteq> VERIFIED)"

definition human_kept :: "plan \<Rightarrow> plan \<Rightarrow> bool" where
  "human_kept p q \<longleftrightarrow> (\<forall>i. awaits_decision p i \<longrightarrow> awaits_decision q i)"

lemma human_kept_upd:
  assumes "\<And>s. step_id (f s) = step_id s" "\<And>s. acceptance (f s) = acceptance s"
    and "\<And>s. get_step p sid = Inr s \<Longrightarrow> externally_resolved s \<Longrightarrow> step_status s \<noteq> VERIFIED \<Longrightarrow>
      step_status (f s) \<noteq> VERIFIED"
  shows "human_kept p (upd_step sid f p)"
  unfolding human_kept_def
proof (intro allI impI)
  fix i assume "awaits_decision p i"
  then obtain s where s: "get_step p i = Inr s" "externally_resolved s" "step_status s \<noteq> VERIFIED"
    by (auto simp: awaits_decision_def)
  show "awaits_decision (upd_step sid f p) i"
  proof (cases "i = sid")
    case True
    then show ?thesis using s assms
      by (auto simp: awaits_decision_def get_step_upd_same externally_resolved_def)
  next
    case False
    then show ?thesis using s assms(1) by (auto simp: awaits_decision_def get_step_upd_other)
  qed
qed

lemma human_kept_same: "steps q = steps p \<Longrightarrow> human_kept p q"
  by (simp add: human_kept_def awaits_decision_def get_step_def)

lemma human_kept_trans: "human_kept p q \<Longrightarrow> human_kept q r \<Longrightarrow> human_kept p r"
  by (simp add: human_kept_def)

lemma human_kept_transition:
  assumes t: "transition p sid t err False False now = Inr q"
    and ok: "\<And>s. get_step p sid = Inr s \<Longrightarrow> externally_resolved s \<Longrightarrow> t \<noteq> VERIFIED"
  shows "human_kept p q"
proof -
  have "human_kept p (upd_step sid (apply_status t err now) p)"
    by (rule human_kept_upd) (use ok in auto)
  moreover have "steps q = steps (upd_step sid (apply_status t err now) p)"
    using t by (auto simp: transition_iff)
  ultimately show ?thesis using human_kept_trans human_kept_same by blast
qed

interpretation human: plan_relation human_kept False UNIV
proof
  fix p q r :: plan and f :: "plan_step \<Rightarrow> plan_step" and sid t err now s
  show "human_kept p q \<Longrightarrow> human_kept q r \<Longrightarrow> human_kept p r" by (rule human_kept_trans)
  show "steps q = steps p \<Longrightarrow> human_kept p q" by (rule human_kept_same)
  show "quiet f \<Longrightarrow> human_kept p (upd_step sid f p)"
    by (rule human_kept_upd) (simp_all add: quiet_def)
  show "transition p sid t err False False now = Inr q \<Longrightarrow> t \<noteq> VERIFIED \<Longrightarrow> human_kept p q"
    by (rule human_kept_transition)
  show "transition p sid VERIFIED err False False now = Inr q \<Longrightarrow> get_step p sid = Inr s \<Longrightarrow>
      \<not> externally_resolved s \<Longrightarrow> human_kept p q"
    by (rule human_kept_transition) auto
  show "get_step p sid = Inr s \<Longrightarrow> step_status s = FAILED \<Longrightarrow> \<not> externally_resolved s \<Longrightarrow>
      human_kept p (upd_step sid (\<lambda>s. s\<lparr>step_status := VERIFIED\<rparr>) p)"
    by (rule human_kept_upd) auto
qed simp

lemma run_human_gate:
  assumes "run_plan C N mode cwd timeout s = Some (s', r)" "lower (rc_on_fail C) \<noteq> ''continue''"
    and "awaits_decision (rs_plan s) i"
  shows "awaits_decision (rs_plan s') i"
proof -
  have "human_kept (rs_plan s) (rs_plan s')"
    by (rule human.run_respects [OF _ _ assms(1)]) (use assms(2) in simp_all)
  then show ?thesis using assms(3) by (simp add: human_kept_def)
qed

end
