(* ===== verification/Runner_Progress.thy ===== *)
theory Runner_Progress
  imports Runner_Safety
begin

text \<open>
  The runner's loop ends, and what its result means.  Every pass of the loop that goes on closes
  a step that could start: the number of pending and failed steps bounds the number of passes.
\<close>

section \<open>What an operation leaves alone\<close>

definition frame_on :: "string set \<Rightarrow> plan \<Rightarrow> plan \<Rightarrow> bool" where
  "frame_on S p q \<longleftrightarrow> step_ids q = step_ids p \<and> (\<forall>i. i \<notin> S \<longrightarrow> status_of q i = status_of p i)"

lemma frame_on_transition:
  "sid \<in> S \<Longrightarrow> transition p sid t err sk force now = Inr q \<Longrightarrow> frame_on S p q"
  by (auto simp: frame_on_def transition_frame transition_status_of)

lemma frame_on_upd:
  assumes "sid \<in> S" "\<And>s. step_id (f s) = step_id s"
  shows "frame_on S p (upd_step sid f p)"
  using assms by (auto simp: frame_on_def status_of_upd)

interpretation frame: plan_relation "frame_on S" True S for S
proof
  fix p q r :: plan and f :: "plan_step \<Rightarrow> plan_step" and sid t err now s
  show "frame_on S p q \<Longrightarrow> frame_on S q r \<Longrightarrow> frame_on S p r" by (auto simp: frame_on_def)
  show "steps q = steps p \<Longrightarrow> frame_on S p q" by (simp add: frame_on_def step_ids_def status_of_def)
  show "sid \<in> S \<Longrightarrow> quiet f \<Longrightarrow> frame_on S p (upd_step sid f p)"
    by (rule frame_on_upd) (simp_all add: quiet_def)
  show "sid \<in> S \<Longrightarrow> frame_on S p (upd_step sid (\<lambda>s. s\<lparr>step_status := VERIFIED\<rparr>) p)"
    by (rule frame_on_upd) simp_all
qed (erule (1) frame_on_transition)+

section \<open>Outcomes\<close>

lemma bindR_Inr:
  "bindR m f s = (s', Inr y) \<longleftrightarrow> (\<exists>s1 x. m s = (s1, Inr x) \<and> f x s1 = (s', Inr y))"
  by (auto simp: bindR_def split: prod.splits sum.splits)

lemma run_prims:
  "ret x s = (s', Inr y) \<longleftrightarrow> s' = s \<and> y = x"
  "get_plan s = (s', Inr p) \<longleftrightarrow> s' = s \<and> p = rs_plan s"
  "raiseR v s = (s', Inr y) \<longleftrightarrow> s' = s \<and> v = Inr y"
  "mod_plan g s = (s', Inr u) \<longleftrightarrow> s' = s\<lparr>rs_plan := g (rs_plan s)\<rparr>"
  by (auto simp: ret_def get_plan_def raiseR_def mod_plan_def)

lemma get_retries_Inr: "get_retries sid s = (s', Inr k) \<longleftrightarrow> s' = s \<and> k = rs_retries s sid"
  by (auto simp: get_retries_def)

lemma ask_Inr: "ask h s = (s', Inr y) \<longleftrightarrow> s' = s\<lparr>rs_tick := Suc (rs_tick s)\<rparr> \<and> y = h (rs_tick s)"
  by (auto simp: ask_def)

lemma engineR_Inr:
  "engineR f s = (s', Inr u) \<longleftrightarrow>
     (\<exists>q. f (rs_tick s) (rs_plan s) = Inr q \<and> s' = s\<lparr>rs_plan := q, rs_tick := Suc (rs_tick s)\<rparr>)"
  by (auto simp: engineR_def split: sum.splits)

lemma engine2R_Inr:
  "engine2R f s = (s', Inr y) \<longleftrightarrow>
     (\<exists>q. f (rs_tick s) (rs_plan s) = (q, Inr y) \<and> s' = s\<lparr>rs_plan := q, rs_tick := Suc (rs_tick s)\<rparr>)"
  by (auto simp: engine2R_def split: prod.splits)

lemmas run_Inr = bindR_Inr run_prims get_retries_Inr ask_Inr engineR_Inr engine2R_Inr

text \<open>An attempt on a step: verified, failed or waiting for a verdict; verified when it says so.\<close>

definition attempted :: "plan \<Rightarrow> string \<Rightarrow> bool \<Rightarrow> bool" where
  "attempted p i ok \<longleftrightarrow>
     (if ok then status_of p i = Some VERIFIED else status_of p i \<in> {Some FAILED, Some VERIFYING})"

lemma attempted_mono: "status_of q i = status_of p i \<Longrightarrow> attempted q i ok = attempted p i ok"
  by (simp add: attempted_def)

lemma transition_to: "transition p sid t e sk f now = Inr q \<Longrightarrow> status_of q sid = Some t"
  by (simp add: transition_status_of)

lemma transitionR_to:
  "transitionR N sid t e f s = (s', Inr u) \<Longrightarrow> status_of (rs_plan s') sid = Some t"
  by (auto simp: transitionR_def engineR_Inr transition_to)

lemma advance_status:
  "advance_after_done p sid now = Inr q \<Longrightarrow> status_of q sid \<in> {Some VERIFYING, Some VERIFIED}"
  by (cases "get_step p sid") (auto simp: advance_after_done_def transition_to split: if_splits)

lemma verifyR_attempted:
  assumes "verifyR C N run_mode sid before after s = (s', Inr ok)"
    and v: "status_of (rs_plan s) sid = Some VERIFYING"
  shows "attempted (rs_plan s') sid ok"
proof -
  obtain t where t: "get_step (rs_plan s) sid = Inr t"
    using v by (auto simp: status_of_Some_iff)
  show ?thesis
  proof (cases "externally_resolved t")
    case True
    then obtain q rs where "verify_step (re_world N (rs_tick s)) (rs_plan s) sid
        (verify_ctx_of C (rs_plan s) t before after) False = Inr (q, rs)" "rs_plan s' = q" "\<not> ok"
      using assms(1) t by (auto simp: verifyR_def run_Inr Let_def map_sum_def split: sum.splits)
    then show ?thesis using verify_step_moves(2) v by (simp add: attempted_def)
  next
    case False
    let ?verdict = "\<lambda>results u. if all_passed results \<or> results = [] then ret (step_status u = VERIFIED)
        else if run_mode = ''shadow''
        then bindR (mod_plan (\<lambda>q. recompute_plan_status (upd_step sid (\<lambda>s. s\<lparr>step_status := VERIFIED\<rparr>) q)))
               (\<lambda>_. ret True)
        else ret False"
    obtain s2 results where e: "engine2R (\<lambda>n q. complete_verification (re_world N n) q sid
          (verify_ctx_of C (rs_plan s) t before after) False (re_now N n)) s = (s2, Inr results)"
      and rest: "bindR get_plan (\<lambda>q. bindR (raiseR (get_step q sid)) (?verdict results)) s2 = (s', Inr ok)"
      using assms(1) t False
      by (auto simp: verifyR_def Let_def bindR_Inr [of get_plan] bindR_Inr [of "raiseR _"]
          bindR_Inr [of "engine2R _"] run_prims(2,3) split del: if_split)
    from e have c: "complete_verification (re_world N (rs_tick s)) (rs_plan s) sid
        (verify_ctx_of C (rs_plan s) t before after) False (re_now N (rs_tick s)) = (rs_plan s2, Inr results)"
      by (auto simp: engine2R_Inr)
    obtain u where u: "get_step (rs_plan s2) sid = Inr u" and s': "?verdict results u s2 = (s', Inr ok)"
      using rest by (auto simp: bindR_Inr [of get_plan] bindR_Inr [of "raiseR _"] run_prims(2,3) split del: if_split)
    have "step_status u = (if results = [] \<or> all_passed results then VERIFIED else FAILED)"
      using complete_verification_Inr [OF c t] u by auto
    moreover have "status_of (rs_plan s2) sid = Some (step_status u)" by (rule status_of_get [OF u])
    moreover have "status_of (upd_step sid (\<lambda>s. s\<lparr>step_status := VERIFIED\<rparr>) (rs_plan s2)) sid = Some VERIFIED"
      using u by (simp add: status_of_upd get_step_Inr_iff)
    ultimately show ?thesis using s' by (auto simp: attempted_def run_Inr split: if_splits)
  qed
qed

lemma finish_attempted:
  assumes "finish_execution C N run_mode sid out files before after s = (s', Inr ok)"
  shows "attempted (rs_plan s') sid ok"
proof -
  obtain s0 s1 t where e: "engineR (\<lambda>n p. advance_after_done p sid (re_now N n)) s0 = (s1, Inr ())"
    and t: "get_step (rs_plan s1) sid = Inr t"
    and rest: "(if step_status t = VERIFIED then ret True
       else if step_status t = VERIFYING then verifyR C N run_mode sid before after
       else ret (step_status t \<in> {VERIFIED, SKIPPED})) s1 = (s', Inr ok)"
    using assms
    by (auto simp: finish_execution_def bindR_Inr [of get_plan] bindR_Inr [of "raiseR _"]
        bindR_Inr [of "engine2R _"] bindR_Inr [of "engineR _"] run_prims(2,3) split del: if_split)
  from e have st: "status_of (rs_plan s1) sid \<in> {Some VERIFYING, Some VERIFIED}"
    by (auto simp: engineR_Inr dest!: advance_status)
  have "status_of (rs_plan s1) sid = Some (step_status t)" by (rule status_of_get [OF t])
  then show ?thesis using st rest verifyR_attempted
    by (auto simp: run_Inr attempted_def [of _ _ True] split: if_splits)
qed

lemma one_step_attempted:
  assumes "run_one_step C N run_mode sid already s = (s', Inr ok)"
  shows "attempted (rs_plan s') sid ok"
proof -
  have "(\<exists>s1 e u. transitionR N sid FAILED e False s1 = (s', Inr u) \<and> \<not> ok) \<or>
      (\<exists>s1 out files before after. finish_execution C N run_mode sid out files before after s1 = (s', Inr ok))"
    using assms unfolding run_one_step_def Let_def case_prod_beta
    by (auto simp: bindR_Inr run_prims ask_Inr snapshotR_def split: if_splits)
  then show ?thesis
    by (elim disjE exE conjE) (auto simp: attempted_def [of _ _ False] dest: transitionR_to intro: finish_attempted)
qed

lemma finalize_attempted:
  assumes "finalize_chat_step C N run_mode sid r s = (s', Inr ok)"
  shows "attempted (rs_plan s') sid ok"
proof -
  have "(\<exists>s1 e u. transitionR N sid FAILED e False s1 = (s', Inr u) \<and> \<not> ok) \<or>
      (\<exists>s1 out files before after. finish_execution C N run_mode sid out files before after s1 = (s', Inr ok))"
    using assms unfolding finalize_chat_step_def
    by (auto simp: bindR_Inr run_prims split: if_splits)
  then show ?thesis
    by (elim disjE exE conjE) (auto simp: attempted_def [of _ _ False] dest: transitionR_to intro: finish_attempted)
qed


section \<open>Retries and waves\<close>

lemma save_steps: "saveR N s = (s', r) \<Longrightarrow> steps (rs_plan s') = steps (rs_plan s)"
  by (auto simp: saveR_def Let_def dest!: save_plan_result split: prod.splits)

lemma abort_steps: "external_abort N s = (s', r) \<Longrightarrow> steps (rs_plan s') = steps (rs_plan s)"
  by (auto simp: external_abort_def Let_def split: sum.splits option.splits if_splits)

lemma status_of_steps: "steps q = steps p \<Longrightarrow> status_of q = status_of p"
  by (simp add: status_of_def fun_eq_iff)

text \<open>A step is closed when it is neither pending nor failed: the loop will not pick it again.\<close>

definition open_step :: "plan \<Rightarrow> string \<Rightarrow> bool" where
  "open_step p i \<longleftrightarrow> status_of p i = Some PENDING \<or> status_of p i = Some FAILED"

lemma attempted_open: "attempted p i ok \<Longrightarrow> open_step p i \<Longrightarrow> \<not> ok \<and> status_of p i = Some FAILED"
  by (auto simp: attempted_def open_step_def split: if_splits)

lemma soft_fail_closes:
  assumes "soft_fail N sid s = (s', Inr go)"
  shows "\<not> open_step (rs_plan s') sid"
proof -
  let ?f = "\<lambda>s. s\<lparr>step_error := take 2000 (str_or (step_error s) ''continue after fail'')\<rparr>"
  obtain s1 s2 where t: "transitionR N sid VERIFIED [] True s = (s1, Inr ())"
    and w: "s2 = s1\<lparr>rs_plan := upd_step sid ?f (rs_plan s1)\<rparr>"
    and v: "saveR N s2 = (s', Inr ())"
    using assms by (auto simp: soft_fail_def bindR_Inr run_prims)
  have "status_of (upd_step sid ?f (rs_plan s1)) sid = status_of (rs_plan s1) sid"
    by (rule status_of_evidence) simp
  then show ?thesis
    using transitionR_to [OF t] status_of_steps [OF save_steps [OF v]] w by (simp add: open_step_def)
qed

lemma hard_stop_False: "hard_stop sid s = (s', Inr go) \<Longrightarrow> \<not> go"
  by (auto simp: hard_stop_def bindR_Inr run_prims)

lemma after_attempts_closes:
  "after_attempts N on_fail sid s = (s', Inr True) \<Longrightarrow> \<not> open_step (rs_plan s') sid"
  by (auto simp: after_attempts_def bindR_Inr run_prims soft_fail_closes dest: hard_stop_False split: if_splits)

lemma handle_closes:
  assumes "handle_step_outcome C N run_mode on_fail max_retries sid ok s = (s', Inr True)"
    and att: "attempted (rs_plan s) sid ok"
  shows "\<not> open_step (rs_plan s') sid"
proof (cases "open_step (rs_plan s) sid")
  case False
  then show ?thesis
    using assms by (auto simp: handle_step_outcome_def bindR_Inr run_prims open_step_def status_of_get split: if_splits)
next
  case True
  then have "\<not> ok" and failed: "status_of (rs_plan s) sid = Some FAILED" using attempted_open att by blast+
  then obtain k s0 where s0: "rs_plan s0 = rs_plan s" and "(if on_fail = ''retry'' \<and> k < max_retries
      then bindR (count_retry sid) (\<lambda>_. bindR (transitionR N sid RUNNING [] False) (\<lambda>_.
           bindR (run_one_step C N run_mode sid True) (\<lambda>ok2.
           bindR (external_abort N) (\<lambda>aborted. bindR (saveR N) (\<lambda>_.
             if aborted then ret False else if ok2 then ret True
             else after_attempts N on_fail sid)))))
      else after_attempts N on_fail sid) s0 = (s', Inr True)"
    using assms(1)
    by (auto simp: handle_step_outcome_def bindR_Inr [of get_plan] bindR_Inr [of "raiseR _"]
        bindR_Inr [of "get_retries _"] get_retries_Inr run_prims(2,3) status_of_get split del: if_split)
  then consider "after_attempts N on_fail sid s0 = (s', Inr True)"
    | s1 s2 s3 ok2 aborted where "run_one_step C N run_mode sid True s1 = (s2, Inr ok2)"
        "external_abort N s2 = (s3, Inr aborted)" "saveR N s3 = (s', Inr ())" "ok2"
    | s4 where "after_attempts N on_fail sid s4 = (s', Inr True)"
    by (auto simp: bindR_Inr run_prims split: if_splits)
  then show ?thesis
  proof cases
    case 2
    then have "attempted (rs_plan s2) sid True" using one_step_attempted by metis
    moreover have "status_of (rs_plan s') = status_of (rs_plan s2)"
      using 2 by (metis abort_steps save_steps status_of_steps)
    ultimately show ?thesis by (simp add: attempted_def open_step_def)
  qed (auto dest: after_attempts_closes)
qed

text \<open>What an operation on other steps does to a step: nothing.\<close>

lemma frame_keeps: "effect (frame_on S) m \<Longrightarrow> m s = (s', r) \<Longrightarrow> i \<notin> S \<Longrightarrow>
    status_of (rs_plan s') i = status_of (rs_plan s) i"
  by (drule (1) effectD) (simp add: frame_on_def)

lemma finalize_wave_attempted:
  assumes "forR sids (\<lambda>sid. finalize_chat_step C N run_mode sid (reply sid)) s = (s', Inr oks)" "distinct sids"
  shows "length oks = length sids \<and> (\<forall>(i, ok) \<in> set (zip sids oks). attempted (rs_plan s') i ok)"
  using assms
proof (induction sids arbitrary: s oks)
  case (Cons i sids)
  obtain s1 ok oks' where f: "finalize_chat_step C N run_mode i (reply i) s = (s1, Inr ok)"
    and r: "forR sids (\<lambda>sid. finalize_chat_step C N run_mode sid (reply sid)) s1 = (s', Inr oks')"
    and oks: "oks = ok # oks'"
    using Cons.prems(1) by (auto simp: bindR_Inr run_prims)
  have "effect (frame_on (set sids)) (forR sids (\<lambda>sid. finalize_chat_step C N run_mode sid (reply sid)))"
    by (intro frame.effect_for frame.effect_finalize)
  then have "status_of (rs_plan s') i = status_of (rs_plan s1) i"
    using frame_keeps r Cons.prems(2) by fastforce
  then have "attempted (rs_plan s') i ok"
    using finalize_attempted [OF f] attempted_mono by blast
  then show ?case using Cons.IH [OF r] Cons.prems(2) by (auto simp: oks)
qed (auto simp: run_prims)

lemma wave_attempted:
  assumes "run_chat_wave C N run_mode sids s = (s', Inr oks)" "distinct sids"
  shows "length oks = length sids \<and> (\<forall>(i, ok) \<in> set (zip sids oks). attempted (rs_plan s') i ok)"
proof -
  obtain s1 reply where "forR sids (\<lambda>sid. finalize_chat_step C N run_mode sid (reply sid)) s1 = (s', Inr oks)"
    using assms(1) by (auto simp: run_chat_wave_def bindR_Inr)
  then show ?thesis by (rule finalize_wave_attempted [OF _ assms(2)])
qed

lemma handle_wave_closes:
  assumes "handle_wave C N run_mode on_fail max_retries outcomes s = (s', Inr True)"
    and "distinct (map fst outcomes)" "\<forall>(i, ok) \<in> set outcomes. attempted (rs_plan s) i ok"
  shows "\<forall>(i, ok) \<in> set outcomes. \<not> open_step (rs_plan s') i"
  using assms
proof (induction outcomes arbitrary: s)
  case (Cons x outcomes)
  obtain i ok where x: "x = (i, ok)" by fastforce
  obtain s1 where h: "handle_step_outcome C N run_mode on_fail max_retries i ok s = (s1, Inr True)"
    and r: "handle_wave C N run_mode on_fail max_retries outcomes s1 = (s', Inr True)"
    using Cons.prems(1) by (auto simp: x bindR_Inr run_prims split: if_splits)
  have keep1: "status_of (rs_plan s1) j = status_of (rs_plan s) j" if "j \<noteq> i" for j
    using frame_keeps [OF frame.effect_handle h] that by auto
  have keep2: "status_of (rs_plan s') j = status_of (rs_plan s1) j" if "j \<notin> fst ` set outcomes" for j
    using frame_keeps [OF frame.effect_handle_wave r] that by auto
  have "\<not> open_step (rs_plan s1) i" using handle_closes [OF h] Cons.prems(3) x by auto
  then have "\<not> open_step (rs_plan s') i"
    using keep2 Cons.prems(2) x by (auto simp: open_step_def)
  moreover have att: "\<forall>(j, ok) \<in> set outcomes. attempted (rs_plan s1) j ok"
  proof clarify
    fix j ok assume j: "(j, ok) \<in> set outcomes"
    then have "j \<noteq> i" using Cons.prems(2) x by force
    then show "attempted (rs_plan s1) j ok"
      using Cons.prems(3) j attempted_mono [OF keep1] x by auto
  qed
  moreover have "\<forall>(j, ok) \<in> set outcomes. \<not> open_step (rs_plan s') j"
    using Cons.IH [OF r _ att] Cons.prems(2) x by simp
  ultimately show ?case using x by auto
qed simp


section \<open>The loop ends\<close>

definition open_ids :: "plan \<Rightarrow> string set" where
  "open_ids p = {i. open_step p i}"

lemma open_ids_steps: "open_ids p \<subseteq> set (step_ids p)"
  using get_step_ex_iff by (auto simp: open_ids_def open_step_def status_of_Some_iff)

lemma finite_open [simp]: "finite (open_ids p)"
  using open_ids_steps finite_subset by blast

lemma card_open: "card (open_ids p) \<le> length (steps p)"
proof -
  have "card (open_ids p) \<le> card (set (step_ids p))" by (intro card_mono open_ids_steps) simp
  also have "\<dots> \<le> length (step_ids p)" by (rule card_length)
  finally show ?thesis by (simp add: step_ids_def)
qed

lemma open_ids_same:
  assumes "steps q = steps p"
  shows "open_ids q = open_ids p"
  using status_of_steps [OF assms] by (simp add: open_ids_def open_step_def)

text \<open>Steps of \<open>S\<close> that were open and are closed, nothing else touched: fewer open steps.\<close>

lemma open_decreases:
  assumes "\<And>i. i \<notin> S \<Longrightarrow> status_of q i = status_of p i" "\<And>i. i \<in> S \<Longrightarrow> \<not> open_step q i"
    and "i0 \<in> S" "open_step p i0"
  shows "card (open_ids q) < card (open_ids p)"
proof (rule psubset_card_mono)
  have "open_step p i" if "open_step q i" for i
  proof (cases "i \<in> S")
    case True
    then show ?thesis using that assms(2) by blast
  next
    case False
    then show ?thesis using that by (simp add: open_step_def assms(1))
  qed
  then show "open_ids q \<subset> open_ids p"
    using assms(2) [OF assms(3)] assms(4) by (auto simp: open_ids_def)
qed simp

lemma runnable_open: "runnable_steps p = Inr r \<Longrightarrow> i \<in> set r \<Longrightarrow> open_step p i"
  by (cases "topo_order p") (auto simp: runnable_steps_def can_start_iff open_step_def status_of_get)

lemma runnable_distinct: "runnable_steps p = Inr r \<Longrightarrow> ids_distinct p \<Longrightarrow> distinct r"
  by (cases "topo_order p") (auto simp: runnable_steps_def topo_order_result)

lemma saved_status:
  assumes "external_abort N s1 = (s2, r2)" "saveR N s2 = (s3, r3)"
  shows "status_of (rs_plan s3) = status_of (rs_plan s1)"
  by (rule status_of_steps) (simp add: save_steps [OF assms(2)] abort_steps [OF assms(1)])

lemma run_steps_progress:
  assumes r: "runnable_steps (rs_plan s) = Inr runnable" "runnable \<noteq> []" and dist: "ids_distinct (rs_plan s)"
    and go: "run_steps C N P (rs_plan s) runnable s = (s', Inr Continue)"
  shows "card (open_ids (rs_plan s')) < card (open_ids (rs_plan s))"
proof (cases "length (chat_ids (rs_plan s) runnable) > 1 \<and> rp_max_parallel P > 1")
  case True
  let ?wave = "take (rp_max_parallel P) (chat_ids (rs_plan s) runnable)"
  have wave: "set ?wave \<subseteq> set runnable" "distinct ?wave" "?wave \<noteq> []"
    using True runnable_distinct [OF r(1) dist] by (auto simp: chat_ids_def dest: in_set_takeD)
  obtain s1 oks s2 s3 where w: "run_chat_wave C N (rp_mode P) ?wave s = (s1, Inr oks)"
    and a: "external_abort N s1 = (s2, Inr False)" and v: "saveR N s2 = (s3, Inr ())"
    and h: "handle_wave C N (rp_mode P) (rp_on_fail P) (rp_max_retries P) (zip ?wave oks) s3 = (s', Inr True)"
    using go True by (auto simp: run_steps_def Let_def bindR_Inr run_prims split: if_splits)
  note att = wave_attempted [OF w wave(2)]
  have ids: "map fst (zip ?wave oks) = ?wave" "fst ` set (zip ?wave oks) = set ?wave"
    using att by (simp_all add: set_map [symmetric])
  have "attempted (rs_plan s3) i ok = attempted (rs_plan s1) i ok" for i ok
    by (rule attempted_mono) (simp add: saved_status [OF a v])
  then have "\<forall>(i, ok) \<in> set (zip ?wave oks). attempted (rs_plan s3) i ok" using att by simp
  from handle_wave_closes [OF h _ this] have "\<forall>(i, ok) \<in> set (zip ?wave oks). \<not> open_step (rs_plan s') i"
    using ids(1) wave(2) by simp
  then have "\<forall>i \<in> fst ` set (zip ?wave oks). \<not> open_step (rs_plan s') i" by auto
  then have closed: "\<not> open_step (rs_plan s') i" if "i \<in> set ?wave" for i
    using that unfolding ids(2) by blast
  have "status_of (rs_plan s') i = status_of (rs_plan s) i" if "i \<notin> set ?wave" for i
  proof -
    have "status_of (rs_plan s') i = status_of (rs_plan s3) i"
      using that ids(2) by (intro frame_keeps [where S = "set ?wave", OF frame.effect_handle_wave h]) simp_all
    also have "\<dots> = status_of (rs_plan s1) i" using saved_status [OF a v] by simp
    also have "\<dots> = status_of (rs_plan s) i"
      using that by (intro frame_keeps [where S = "set ?wave", OF frame.effect_wave w]) simp_all
    finally show ?thesis .
  qed
  moreover have "hd ?wave \<in> set ?wave" using wave(3) by (rule hd_in_set)
  ultimately show ?thesis
    using open_decreases [of "set ?wave" "rs_plan s'" "rs_plan s" "hd ?wave"] closed
      runnable_open [OF r(1)] wave(1) by (meson subsetD)
next
  case False
  let ?i = "hd runnable"
  obtain s1 ok s2 s3 where w: "run_one_step C N (rp_mode P) ?i False s = (s1, Inr ok)"
    and a: "external_abort N s1 = (s2, Inr False)" and v: "saveR N s2 = (s3, Inr ())"
    and h: "handle_step_outcome C N (rp_mode P) (rp_on_fail P) (rp_max_retries P) ?i ok s3 = (s', Inr True)"
    using go False by (auto simp: run_steps_def Let_def bindR_Inr run_prims split: if_splits)
  have "attempted (rs_plan s3) ?i ok"
    using one_step_attempted [OF w] by (auto simp: attempted_def saved_status [OF a v] split: if_splits)
  then have closed: "\<not> open_step (rs_plan s') ?i" using handle_closes [OF h] by blast
  have "status_of (rs_plan s') i = status_of (rs_plan s) i" if "i \<noteq> ?i" for i
    using frame_keeps [where S = "{?i}", OF frame.effect_handle h] frame_keeps [where S = "{?i}", OF frame.effect_one_step w]
      that saved_status [OF a v] by auto
  then show ?thesis
    using open_decreases [of "{?i}" "rs_plan s'" "rs_plan s" ?i] closed runnable_open [OF r(1)] r(2) by auto
qed

lemma loop_body_progress:
  assumes b: "loop_body C N P s = (s', Inr Continue)" and dist: "ids_distinct (rs_plan s)"
  shows "card (open_ids (rs_plan s')) < card (open_ids (rs_plan s))"
proof -
  obtain s1 s2 late runnable where a: "external_abort N s = (s1, Inr False)"
    and e: "expired N P s1 = (s2, Inr late)"
    and r: "runnable_steps (rs_plan s2) = Inr runnable" "runnable \<noteq> []"
    and go: "run_steps C N P (rs_plan s2) runnable s2 = (s', Inr Continue)"
    using b by (auto simp: loop_body_def bindR_Inr run_prims split: if_splits)
  have "steps (rs_plan s2) = steps (rs_plan s)"
    using e abort_steps [OF a] by (auto simp: expired_def run_prims ask_Inr split: option.splits)
  note same = this
  have "open_ids (rs_plan s2) = open_ids (rs_plan s)" by (rule open_ids_same [OF same])
  moreover have "ids_distinct (rs_plan s2)" using dist by (simp add: step_ids_def same)
  ultimately show ?thesis using run_steps_progress [OF r _ go] by simp
qed

lemma plan_moves_ids: "plan_moves p q \<Longrightarrow> step_ids q = step_ids p"
  by (induction rule: rtranclp_induct) (auto dest: plan_move_ids)

lemma body_moves: "loop_body C N P s = (s', r) \<Longrightarrow> plan_moves (rs_plan s) (rs_plan s')"
  by (rule effectD [OF moves.effect_body]) simp_all

lemma run_loop_ends:
  "ids_distinct (rs_plan s) \<Longrightarrow> card (open_ids (rs_plan s)) < fuel \<Longrightarrow> \<exists>res. run_loop fuel C N P s = Some res"
proof (induction fuel arbitrary: s)
  case (Suc fuel)
  obtain s1 b where b: "loop_body C N P s = (s1, b)" by fastforce
  show ?case
  proof (cases b)
    case (Inr l)
    show ?thesis
    proof (cases l)
      case Continue
      then have body: "loop_body C N P s = (s1, Inr Continue)" using b Inr by simp
      have "card (open_ids (rs_plan s1)) < fuel"
        using loop_body_progress [OF body Suc.prems(1)] Suc.prems(2) by simp
      moreover have "ids_distinct (rs_plan s1)"
        using plan_moves_ids [OF body_moves [OF body]] Suc.prems(1) by simp
      ultimately show ?thesis using Suc.IH body by simp
    qed (use b Inr in simp_all)
  qed (use b in simp)
qed simp

text \<open>Validation makes the ids distinct, so every run returns.\<close>

lemma setup_distinct:
  assumes "setup_run C N cwd s = (s', Inr u)"
  shows "ids_distinct (rs_plan s')" "step_ids (rs_plan s') = step_ids (rs_plan s)"
proof -
  have "validate (prepare_plan C N cwd (rs_plan s)) = Inr ()"
    using assms by (auto simp: setup_run_def bindR_Inr run_prims)
  then have "ids_distinct (prepare_plan C N cwd (rs_plan s))"
    by (auto simp: validate_accepts_iff well_formed_def graph_ok_def step_ids_def)
  moreover show "step_ids (rs_plan s') = step_ids (rs_plan s)"
    using plan_moves_ids [OF effectD [OF moves.effect_setup assms]] by simp
  ultimately show "ids_distinct (rs_plan s')" by (simp add: prepare_plan_def Let_def step_ids_def)
qed

theorem run_plan_ends: "\<exists>s' r. run_plan C N mode cwd timeout s = Some (s', r)"
proof -
  let ?prepared = "bindR (ask (re_mono N)) (\<lambda>t0. bindR (setup_run C N cwd) (\<lambda>_. ret t0))"
  obtain s1 r1 where s1: "?prepared (s\<lparr>rs_retries := (\<lambda>_. 0)\<rparr>) = (s1, r1)" by fastforce
  show ?thesis
  proof (cases r1)
    case (Inr t0)
    then have "ids_distinct (rs_plan s1)"
      using s1 setup_distinct(1) by (auto simp: bindR_Inr run_prims)
    then have "\<exists>res. run_loop (Suc (length (steps (rs_plan s1)))) C N (params_of C mode timeout t0) s1 = Some res"
      by (rule run_loop_ends) (simp add: card_open less_Suc_eq_le)
    then show ?thesis using s1 Inr by (auto simp: run_plan_def)
  qed (use s1 in \<open>simp add: run_plan_def\<close>)
qed

end
