(* ===== verification/Runner_Results.thy ===== *)
theory Runner_Results
  imports Runner_Progress "HOL-Library.Multiset"
begin

text \<open>
  What a run reports and what its parts guarantee: the final status, cancellation from another
  process, waves whose replies come in any order, recovery of stale steps, and where the code
  departs from what it says.
\<close>

section \<open>The final status\<close>

definition some_status :: "string \<Rightarrow> plan \<Rightarrow> bool" where
  "some_status st p \<longleftrightarrow> st \<in> set (map step_status (steps p))"

lemma all_terminal_iff: "all_steps_terminal p \<longleftrightarrow> set (map step_status (steps p)) \<subseteq> {VERIFIED, SKIPPED}"
  by (auto simp: all_steps_terminal_def is_terminal_step_def list_all_iff)

lemma derived_completed: "derived_status sts = PLAN_COMPLETED \<longleftrightarrow> set sts \<subseteq> {VERIFIED, SKIPPED} \<and> VERIFIED \<in> set sts"
  by (auto simp: derived_status_def list_all_iff list_ex_iff)

lemma derived_failed: "derived_status sts = PLAN_FAILED \<longleftrightarrow> (sts \<noteq> [] \<and> set sts \<subseteq> {SKIPPED}) \<or>
     (FAILED \<in> set sts \<and> set sts \<inter> {RUNNING, DONE, VERIFYING, PENDING} = {})"
  by (auto simp: derived_status_def list_all_iff list_ex_iff)

lemma derived_not_aborted [simp]: "derived_status sts \<noteq> PLAN_ABORTED"
  by (simp add: derived_status_def)

lemmas derived_iffs = derived_completed [of "map step_status (steps p)" for p, folded all_terminal_iff some_status_def]
  derived_failed [of "map step_status (steps p)" for p]

definition final_status :: "bool \<Rightarrow> plan \<Rightarrow> string" where
  "final_status aborted p =
     (if aborted then PLAN_ABORTED
      else if all_steps_terminal p \<and> some_status VERIFIED p then PLAN_COMPLETED
      else if some_status FAILED p \<or> (steps p \<noteq> [] \<and> set (map step_status (steps p)) \<subseteq> {SKIPPED}) then PLAN_FAILED
      else derived_status (map step_status (steps p)))"

lemma final_status_derived:
  "(let d = derived_status (map step_status (steps p))
    in if d \<in> {PLAN_COMPLETED, PLAN_FAILED, PLAN_ABORTED} then d
       else if all_steps_terminal p \<and> list_ex (\<lambda>s. step_status s = VERIFIED) (steps p) then PLAN_COMPLETED
       else if list_ex (\<lambda>s. step_status s = FAILED) (steps p) then PLAN_FAILED else d) = final_status False p"
proof -
  have "some_status FAILED p \<Longrightarrow> \<not> all_steps_terminal p" by (auto simp: some_status_def all_terminal_iff)
  moreover have "list_ex (\<lambda>s. step_status s = st) (steps p) = some_status st p" for st
    by (auto simp: some_status_def list_ex_iff)
  ultimately show ?thesis
    using derived_iffs [of p] by (auto simp: final_status_def Let_def some_status_def)
qed

lemma final_status_steps:
  assumes "steps q = steps p"
  shows "final_status b q = final_status b p"
proof -
  have "all_steps_terminal q = all_steps_terminal p" "some_status st q = some_status st p" for st
    by (simp_all add: all_steps_terminal_def some_status_def assms)
  then show ?thesis by (simp only: final_status_def assms)
qed

text \<open>The status a run ends with: an abort seen before a crash is the only thing that outranks the steps.\<close>

lemma conclude_status:
  "plan_status (conclude N timeout r p) = final_status (\<not> isl r \<and> plan_status p = PLAN_ABORTED) p"
proof -
  have fin: "plan_status (let p2 = recompute_plan_status p1
        in if plan_status p2 \<in> {PLAN_COMPLETED, PLAN_FAILED, PLAN_ABORTED} then p2
           else if all_steps_terminal p2 \<and> list_ex (\<lambda>s. step_status s = VERIFIED) (steps p2)
           then p2\<lparr>plan_status := PLAN_COMPLETED\<rparr>
           else if list_ex (\<lambda>s. step_status s = FAILED) (steps p2) then p2\<lparr>plan_status := PLAN_FAILED\<rparr>
           else p2) = final_status (plan_status p1 = PLAN_ABORTED) p1" for p1
    using final_status_derived [of p1]
    by (auto simp: recompute_plan_status_def Let_def all_steps_terminal_def final_status_def [of True])
  show ?thesis
    unfolding conclude_def Let_def [of "case r of Inl e \<Rightarrow> _ e | Inr t \<Rightarrow> _ t"] fin
    by (cases r) (auto intro: final_status_steps)
qed

lemma finish_run_result:
  assumes "finish_run N timeout r s = (s', Inr res)"
  shows "rr_plan res = rs_plan s'" "steps (rs_plan s') = steps (rs_plan s)"
    "plan_status (rs_plan s') = final_status (\<not> isl r \<and> plan_status (rs_plan s) = PLAN_ABORTED) (rs_plan s)"
    "rr_success res = (plan_status (rs_plan s') = PLAN_COMPLETED)"
    "plan_err (rs_plan s') = plan_err (conclude N timeout r (rs_plan s))"
proof -
  obtain s1 where w: "saveR N (s\<lparr>rs_plan := conclude N timeout r (rs_plan s)\<rparr>) = (s1, Inr ())"
    and "s' = s1" "rr_plan res = rs_plan s'" "rr_success res = (plan_status (rs_plan s') = PLAN_COMPLETED)"
    using assms by (auto simp: finish_run_def bindR_Inr run_prims)
  moreover have "\<exists>now. rs_plan s1 = stamp now (conclude N timeout r (rs_plan s))"
    using w by (auto simp: saveR_def Let_def dest!: save_plan_result split: prod.splits)
  ultimately show "rr_plan res = rs_plan s'" "steps (rs_plan s') = steps (rs_plan s)"
    "plan_status (rs_plan s') = final_status (\<not> isl r \<and> plan_status (rs_plan s) = PLAN_ABORTED) (rs_plan s)"
    "rr_success res = (plan_status (rs_plan s') = PLAN_COMPLETED)"
    "plan_err (rs_plan s') = plan_err (conclude N timeout r (rs_plan s))"
    by (auto simp: conclude_status)
qed

theorem run_reports:
  assumes "run_plan C N mode cwd timeout s = Some (s', Inr res)"
  shows "rr_plan res = rs_plan s' \<and>
    (rr_success res \<longleftrightarrow> plan_status (rr_plan res) = PLAN_COMPLETED) \<and>
    plan_status (rr_plan res)
      = final_status (plan_status (rr_plan res) = PLAN_ABORTED) (rr_plan res)"
proof -
  obtain s2 r2 where f: "finish_run N timeout r2 s2 = (s', Inr res)"
    using assms by (auto simp: run_plan_def split: prod.splits sum.splits)
  note fr = finish_run_result [OF f]
  have "final_status b (rs_plan s') = final_status b (rs_plan s2)" for b
    by (rule final_status_steps [OF fr(2)])
  moreover have "final_status b q = PLAN_ABORTED \<longleftrightarrow> b" for b q
    by (simp add: final_status_def)
  ultimately show ?thesis using fr by simp
qed

section \<open>Cancellation\<close>

lemma cancel_stored:
  assumes B: "py_builtins_ok B" and p: "load_plan B draft_criteria d pid = Inr (Some p)" "plan_id p = pid"
      "plan_storable draft_criteria p"
    and c: "cancel B disk now d pid error = (d', Inr q)"
  shows "load_plan B draft_criteria d' pid = Inr (Some q) \<and> plan_status q = PLAN_ABORTED \<and> steps q = steps p"
proof -
  have w: "save_plan disk now d (abort p error) = (d', q, None)"
    using c p(1) by (auto simp: cancel_def split: prod.splits option.splits)
  have "plan_storable draft_criteria (abort p error)"
    using p(3) by (simp add: plan_storable_def abort_def status_defs)
  then show ?thesis
    using load_after_save(1) [OF B _ w] save_plan_result [OF w] p(2) by (simp add: abort_def)
qed

text \<open>
  A runner that finds its plan aborted on disk stops before it starts another step, and reports
  the abort whatever its own steps say.
\<close>

lemma abort_seen:
  assumes "load_plan (re_builtins N) draft_criteria (re_others N (rs_tick s) (rs_dir s)) (plan_id (rs_plan s)) = Inr (Some q)"
    and "plan_status q = PLAN_ABORTED"
  shows "\<exists>s1. external_abort N s = (s1, Inr True) \<and> plan_status (rs_plan s1) = PLAN_ABORTED \<and>
    steps (rs_plan s1) = steps (rs_plan s)"
  using assms by (simp add: external_abort_def Let_def)

lemma abort_stops_loop:
  assumes "load_plan (re_builtins N) draft_criteria (re_others N (rs_tick s) (rs_dir s)) (plan_id (rs_plan s)) = Inr (Some q)"
    and "plan_status q = PLAN_ABORTED"
  shows "\<exists>s1. run_loop (Suc fuel) C N P s = Some (s1, Inr False) \<and> steps (rs_plan s1) = steps (rs_plan s) \<and>
    plan_status (conclude N timeout (Inr False) (rs_plan s1)) = PLAN_ABORTED"
proof -
  obtain s1 where a: "external_abort N s = (s1, Inr True)" "plan_status (rs_plan s1) = PLAN_ABORTED"
      "steps (rs_plan s1) = steps (rs_plan s)"
    using abort_seen [OF assms] by blast
  show ?thesis
  proof (cases "plan_status (rs_plan s) = PLAN_ABORTED")
    case True
    then have "loop_body C N P s = (s, Inr Break)"
      by (simp add: loop_body_def bindR_def get_plan_def ret_def)
    then show ?thesis using True by (simp add: conclude_status final_status_def)
  next
    case False
    then have "loop_body C N P s = (s1, Inr Break)"
      using a(1) by (simp add: loop_body_def bindR_def get_plan_def ret_def)
    then show ?thesis using a by (simp add: conclude_status final_status_def)
  qed
qed

section \<open>Waves\<close>

lemma upd_first_commute:
  assumes "\<And>x. k (f x) = k x" "\<And>x. k (g x) = k x" "a \<noteq> b"
  shows "upd_first (\<lambda>x. k x = a) f (upd_first (\<lambda>x. k x = b) g xs)
    = upd_first (\<lambda>x. k x = b) g (upd_first (\<lambda>x. k x = a) f xs)"
  using assms by (induction xs) auto

lemma upd_step_commute:
  assumes "\<And>s. step_id (f s) = step_id s" "\<And>s. step_id (g s) = step_id s" "a \<noteq> b"
  shows "upd_step a f (upd_step b g p) = upd_step b g (upd_step a f p)"
  using upd_first_commute [of step_id f g a b] assms by (simp add: upd_step_def)

lemma record_reply_commute:
  "a \<noteq> b \<Longrightarrow> record_reply a o1 c1 (record_reply b o2 c2 p) = record_reply b o2 c2 (record_reply a o1 c1 p)"
  unfolding record_reply_def by (rule upd_step_commute) (auto split: option.splits)

text \<open>The plan after a wave does not depend on the order in which the replies came in.\<close>

lemma run_workers_order:
  assumes "distinct order1" "distinct order2" "set order1 = set order2"
  shows "run_workers reply order1 p = run_workers reply order2 p"
proof -
  let ?f = "\<lambda>sid. record_reply sid (outcome_output (reply sid)) (outcome_costs (reply sid))"
  have eq: "mset order1 = mset order2" using assms set_eq_iff_mset_eq_distinct by blast
  have "?f a \<circ> ?f b = ?f b \<circ> ?f a" for a b
  proof (cases "a = b")
    case False
    show ?thesis unfolding comp_def by (rule ext) (rule record_reply_commute [OF False])
  qed simp
  then have "fold ?f order1 = fold ?f order2" by (intro fold_multiset_equiv eq)
  then show ?thesis by (simp add: run_workers_def)
qed

lemma schedule_irrelevant:
  assumes "distinct sids"
  shows "run_workers reply (schedule_of N n sids) p = run_workers reply sids p"
  by (rule run_workers_order) (simp_all add: schedule_of_def Let_def assms)

section \<open>Stale steps\<close>

definition is_stale :: "rat \<Rightarrow> rat \<Rightarrow> plan_step \<Rightarrow> bool" where
  "is_stale threshold now s \<longleftrightarrow> step_status s = RUNNING \<and> started_at s \<noteq> 0 \<and> now - started_at s > threshold"

lemma recover_one_result:
  assumes g: "get_step (rs_plan s) i = Inr t"
  shows "\<exists>s'. recover_one N threshold now i s = (s', Inr ()) \<and>
    status_of (rs_plan s') i = Some (if is_stale threshold now t then FAILED else step_status t) \<and>
    (\<forall>j. j \<noteq> i \<longrightarrow> get_step (rs_plan s') j = get_step (rs_plan s) j)"
proof (cases "is_stale threshold now t")
  case False
  then show ?thesis using g
    by (auto simp: recover_one_def bindR_def get_plan_def raiseR_def ret_def is_stale_def status_of_get)
next
  case True
  let ?err = "''stale: stuck in running for over '' @ str_int \<lfloor>now - started_at t\<rfloor> @ ''s (process likely crashed)''"
  obtain q where q: "transition (rs_plan s) i FAILED ?err False False (re_now N (rs_tick s)) = Inr q"
    using g True by (auto simp: transition_iff is_stale_def passes_gate_def legal_transition_iff STEP_STATUSES_def)
  have "recover_one N threshold now i s = (s\<lparr>rs_plan := q, rs_tick := Suc (rs_tick s)\<rparr>, Inr ())"
    using g True q
    by (simp add: recover_one_def bindR_def get_plan_def raiseR_def transitionR_def engineR_def is_stale_def)
  then show ?thesis using True transition_to [OF q] transition_frame(8) [OF q] by simp
qed

lemma recover_all_result:
  assumes "distinct is" "\<And>i. i \<in> set is \<Longrightarrow> \<exists>t. get_step (rs_plan s) i = Inr t"
  shows "\<exists>s' us. forR is (recover_one N threshold now) s = (s', Inr us) \<and>
    (\<forall>i t. get_step (rs_plan s) i = Inr t \<longrightarrow> status_of (rs_plan s') i =
       Some (if i \<in> set is \<and> is_stale threshold now t then FAILED else step_status t))"
  using assms
proof (induction "is" arbitrary: s)
  case Nil
  then show ?case by (simp add: ret_def status_of_get)
next
  case (Cons i "is")
  obtain t where t: "get_step (rs_plan s) i = Inr t" using Cons.prems(2) by auto
  obtain s1 where s1: "recover_one N threshold now i s = (s1, Inr ())"
    and st: "status_of (rs_plan s1) i = Some (if is_stale threshold now t then FAILED else step_status t)"
    and other: "\<And>j. j \<noteq> i \<Longrightarrow> get_step (rs_plan s1) j = get_step (rs_plan s) j"
    using recover_one_result [OF t] by blast
  have "\<exists>u. get_step (rs_plan s1) j = Inr u" if "j \<in> set is" for j
    using that Cons.prems other by (cases "j = i") auto
  then obtain s' us where r: "forR is (recover_one N threshold now) s1 = (s', Inr us)"
    and rest: "\<And>j u. get_step (rs_plan s1) j = Inr u \<Longrightarrow> status_of (rs_plan s') j =
       Some (if j \<in> set is \<and> is_stale threshold now u then FAILED else step_status u)"
    using Cons.IH [of s1] Cons.prems(1) by auto
  have "forR (i # is) (recover_one N threshold now) s = (s', Inr (() # us))"
    using s1 r by (simp add: bindR_def ret_def)
  moreover have "status_of (rs_plan s') j = Some (if j \<in> set (i # is) \<and> is_stale threshold now u then FAILED else step_status u)"
    if u: "get_step (rs_plan s) j = Inr u" for j u
  proof (cases "j = i")
    case True
    obtain v where v: "get_step (rs_plan s1) i = Inr v" using st by (auto simp: status_of_Some_iff)
    then have "status_of (rs_plan s') i = Some (step_status v)"
      using rest [OF v] Cons.prems(1) by simp
    then show ?thesis using st v True u t by (auto simp: status_of_get)
  next
    case False
    then show ?thesis using rest [of j u] other u by simp
  qed
  ultimately show ?case by blast
qed

lemma recover_stale_result:
  assumes "rc_stale_seconds C > 0" "ids_distinct (rs_plan s)"
  shows "\<exists>s'. recover_stale C N s = (s', Inr ()) \<and>
    (\<forall>i t. get_step (rs_plan s) i = Inr t \<longrightarrow> status_of (rs_plan s') i =
       Some (if is_stale (rc_stale_seconds C) (re_now N (rs_tick s)) t then FAILED else step_status t))"
proof -
  let ?s = "s\<lparr>rs_tick := Suc (rs_tick s)\<rparr>"
  have "\<exists>t. get_step (rs_plan ?s) i = Inr t" if "i \<in> set (step_ids (rs_plan s))" for i
    using that get_step_ex_iff by simp
  from recover_all_result [of "step_ids (rs_plan s)" ?s, OF assms(2) this] obtain s' us where
    r: "forR (step_ids (rs_plan s)) (recover_one N (rc_stale_seconds C) (re_now N (rs_tick s))) ?s = (s', Inr us)"
    and st: "\<And>i t. get_step (rs_plan s) i = Inr t \<Longrightarrow> status_of (rs_plan s') i =
      Some (if i \<in> set (step_ids (rs_plan s)) \<and> is_stale (rc_stale_seconds C) (re_now N (rs_tick s)) t
            then FAILED else step_status t)"
    by force
  have "recover_stale C N s = (s', Inr ())"
    using assms(1) r by (simp add: recover_stale_def bindR_def ask_def get_plan_def ret_def)
  moreover have "i \<in> set (step_ids (rs_plan s))" if "get_step (rs_plan s) i = Inr t" for i t
    using that get_step_ex_iff by blast
  ultimately show ?thesis using st by auto
qed

section \<open>Where the code departs from its comments\<close>

text \<open>
  A plan blocked behind a skipped step: the loop marks it failed, the final recomputation makes
  it \<^verbatim>\<open>running\<close> again, with the error still set.
\<close>

lemma blocked_plan_reported_running:
  assumes "\<forall>s \<in> set (steps p). step_status s \<in> {PENDING, SKIPPED, VERIFIED}"
    and "some_status PENDING p" "\<not> (\<forall>s \<in> set (steps p). step_status s = PENDING)"
    and "plan_status p \<noteq> PLAN_ABORTED"
  shows "plan_status (no_runnable p) = PLAN_FAILED"
    "plan_err (no_runnable p) = str_or (plan_err p) BLOCKED"
    "plan_status (conclude N timeout (Inr False) (no_runnable p)) = PLAN_RUNNING"
    "plan_err (conclude N timeout (Inr False) (no_runnable p)) = str_or (plan_err p) BLOCKED"
proof -
  have not_term: "\<not> all_steps_terminal p" and idle: "\<not> list_ex (\<lambda>s. step_status s \<in> {RUNNING, DONE, VERIFYING}) (steps p)"
    and pend: "list_ex (\<lambda>s. step_status s = PENDING) (steps p)"
    using assms by (force simp: some_status_def all_terminal_iff list_ex_iff)+
  then show n: "plan_status (no_runnable p) = PLAN_FAILED" "plan_err (no_runnable p) = str_or (plan_err p) BLOCKED"
    by (simp_all add: no_runnable_def)
  have "\<not> some_status FAILED p" using assms(1) by (auto simp: some_status_def)
  moreover have "\<not> set (map step_status (steps p)) \<subseteq> {SKIPPED}" using assms(2) by (auto simp: some_status_def)
  moreover have "derived_status (map step_status (steps p)) = PLAN_RUNNING"
  proof -
    obtain s where "s \<in> set (steps p)" "step_status s \<noteq> PENDING" using assms(3) by blast
    then show ?thesis using assms(1,2)
      by (auto simp: derived_status_def some_status_def list_all_iff list_ex_iff) force+
  qed
  ultimately have "final_status False p = PLAN_RUNNING" using not_term by (simp add: final_status_def)
  moreover have "final_status False (no_runnable p) = final_status False p"
    by (rule final_status_steps) (simp add: no_runnable_def)
  ultimately show "plan_status (conclude N timeout (Inr False) (no_runnable p)) = PLAN_RUNNING"
    using n(1) by (simp add: conclude_status)
  show "plan_err (conclude N timeout (Inr False) (no_runnable p)) = str_or (plan_err p) BLOCKED"
    using n(2) by (simp add: conclude_def Let_def)
qed

text \<open>
  \<^verbatim>\<open>on_fail=continue\<close>: the forced transition clears the error before it is read, so the message of
  the failure is always lost.
\<close>

lemma soft_fail_loses_error:
  assumes "soft_fail N sid s = (s', Inr go)" "get_step (rs_plan s) sid = Inr t"
  shows "\<exists>t'. get_step (rs_plan s') sid = Inr t' \<and> step_status t' = VERIFIED \<and>
    step_error t' = ''continue after fail'' \<and> acceptance t' = acceptance t"
proof -
  let ?f = "\<lambda>s. s\<lparr>step_error := take 2000 (str_or (step_error s) ''continue after fail'')\<rparr>"
  obtain s1 s2 where t: "transitionR N sid VERIFIED [] True s = (s1, Inr ())"
    and s2: "s2 = s1\<lparr>rs_plan := upd_step sid ?f (rs_plan s1)\<rparr>" and v: "saveR N s2 = (s', Inr ())"
    using assms(1) by (auto simp: soft_fail_def bindR_Inr run_prims)
  let ?q = "rs_plan s1"
  have q: "transition (rs_plan s) sid VERIFIED [] False True (re_now N (rs_tick s)) = Inr ?q"
    using t by (auto simp: transitionR_def engineR_Inr)
  have w: "rs_plan s2 = upd_step sid ?f ?q" using s2 by simp
  obtain u where u: "get_step (rs_plan s) sid = Inr u"
      "get_step ?q sid = Inr (apply_status VERIFIED [] (re_now N (rs_tick s)) u)"
    by (rule transition_result [OF q])
  have "get_step (rs_plan s') sid = get_step (upd_step sid ?f ?q) sid"
    using save_steps [OF v] w by (simp add: get_step_def)
  also have "\<dots> = Inr (?f (apply_status VERIFIED [] (re_now N (rs_tick s)) u))"
    using u(2) by (simp add: get_step_upd_same)
  finally show ?thesis using u(1) assms(2)
    by (auto simp: apply_status_def Let_def)
qed

text \<open>
  The gate of a human is keyed on the exact type, the dispatch of the checks on the stripped one:
  a step whose check is \<^verbatim>\<open>"human_review "\<close> is not parked, and shadow mode opens it.
\<close>

lemma padded_human_review_opens:
  assumes s: "get_step (rs_plan st) sid = Inr s" "step_status s = VERIFYING"
    and c: "c \<in> set (acceptance s)" "strip (check_type c) = CHECK_HUMAN_REVIEW" "\<not> externally_resolved s"
  shows "\<exists>st'. verifyR C N ''shadow'' sid before after st = (st', Inr True) \<and>
    status_of (rs_plan st') sid = Some VERIFIED"
proof -
  let ?ctx = "verify_ctx_of C (rs_plan st) s before after" and ?E = "re_world N (rs_tick st)"
  have "acceptance s \<noteq> []" using c(1) by auto
  from complete_verification_verdict [OF s this] obtain q rs where
    v: "complete_verification ?E (rs_plan st) sid ?ctx False (re_now N (rs_tick st)) = (q, Inr rs)" "rs \<noteq> []"
      "all_passed rs \<longleftrightarrow> acceptance_passes ?E (rs_plan st) s ?ctx"
    and t: "\<exists>t. get_step q sid = Inr t"
    by blast
  have "\<not> vr_ok (run_check ?E c (merged_ctx (rs_plan st) s ?ctx))"
    using no_check_ok_without_evidence(2) c(2) by blast
  then have "\<not> all_passed rs" using v(3) c(1) by (auto simp: acceptance_passes_def)
  moreover have "status_of (upd_step sid (\<lambda>s. s\<lparr>step_status := VERIFIED\<rparr>) q) sid = Some VERIFIED"
    using t by (auto simp: status_of_upd get_step_Inr_iff)
  ultimately show ?thesis using s(1) v(1,2) t c(3)
    by (auto simp: verifyR_def bindR_def get_plan_def raiseR_def engine2R_def mod_plan_def ret_def Let_def)
qed

text \<open>
  A retry that parks its step for a human is taken for a failure: the run stops with
  \<^verbatim>\<open>step ... failed\<close> although the step is in \<^verbatim>\<open>verifying\<close> (a first attempt that parks it is not).
\<close>

lemma parked_is_hard_stop:
  assumes "get_step (rs_plan st) sid = Inr s" "step_status s = VERIFYING" "step_error s = []"
  shows "\<exists>st'. after_attempts N on_fail sid st = (st', Inr False) \<and> plan_status (rs_plan st') = PLAN_FAILED \<and>
    plan_err (rs_plan st') = ''step '' @ sid @ '' failed''"
    and "handle_step_outcome C N run_mode on_fail max_retries sid False st = (st, Inr True)"
  using assms
  by (auto simp: after_attempts_def hard_stop_def handle_step_outcome_def bindR_def get_plan_def raiseR_def
      mod_plan_def ret_def)

end
