(* ===== verification/Error_Classifier.thy ===== *)
theory Error_Classifier
  imports Py_Regex Json_Value
begin

text \<open>
  \<^verbatim>\<open>src/voly/ai_gateway/error_classifier.py\<close>: the signal tables, the classification of a provider
  failure by status code and body, the terminal-billing test that drives the executor fallback
  chain, and the empty-content guard.  A body is a JSON value (\<^verbatim>\<open>JStr\<close> for error text).
\<close>

section \<open>Categories and tables\<close>

named_theorems error_type_defs

definition RATE_LIMITED :: string where [error_type_defs]: "RATE_LIMITED = ''rate_limited''"
definition QUOTA_EXHAUSTED :: string where [error_type_defs]: "QUOTA_EXHAUSTED = ''quota_exhausted''"
definition UNAUTHORIZED :: string where [error_type_defs]: "UNAUTHORIZED = ''unauthorized''"
definition ACCOUNT_DEACTIVATED :: string where [error_type_defs]: "ACCOUNT_DEACTIVATED = ''account_deactivated''"
definition OAUTH_INVALID_TOKEN :: string where [error_type_defs]: "OAUTH_INVALID_TOKEN = ''oauth_invalid_token''"
definition FORBIDDEN :: string where [error_type_defs]: "FORBIDDEN = ''forbidden''"
definition CONTEXT_OVERFLOW :: string where [error_type_defs]: "CONTEXT_OVERFLOW = ''context_overflow''"
definition SERVER_ERROR :: string where [error_type_defs]: "SERVER_ERROR = ''server_error''"
definition EMPTY_CONTENT :: string where [error_type_defs]: "EMPTY_CONTENT = ''empty_content''"

definition TERMINAL_BILLING_TYPES :: "string list" where
  "TERMINAL_BILLING_TYPES = [QUOTA_EXHAUSTED, ACCOUNT_DEACTIVATED]"

definition CREDITS_EXHAUSTED_SIGNALS :: "string list" where
  "CREDITS_EXHAUSTED_SIGNALS =
     [''insufficient_quota'', ''billing_hard_limit_reached'', ''exceeded your current quota'',
      ''exceeded your current usage quota'', ''credit_balance_too_low'',
      ''your credit balance is too low'', ''credits exhausted'', ''out of credits'',
      ''payment required'', ''free tier of the model has been exhausted'',
      ''insufficient balance'', ''insufficient_balance'', ''insufficient account balance'',
      ''credit balance is too low'', ''insufficient credits'', ''billing error'',
      ''billing issue'', ''billing problem'', ''update your billing'', ''billing details required'']"

definition ACCOUNT_DEACTIVATED_SIGNALS :: "string list" where
  "ACCOUNT_DEACTIVATED_SIGNALS =
     [''account_deactivated'', ''account has been deactivated'', ''account has been disabled'',
      ''your account has been suspended'', ''this account is deactivated'',
      ''verify your account to continue'',
      ''this service has been disabled in this account for violation'',
      ''this service has been disabled in this account'']"

definition OAUTH_INVALID_TOKEN_SIGNALS :: "string list" where
  "OAUTH_INVALID_TOKEN_SIGNALS =
     [''invalid authentication credentials'', ''oauth 2'', ''login cookie'',
      ''valid authentication credential'', ''invalid credentials'']"

definition GATEWAY_CONFIG_SIGNALS :: "string list" where
  "GATEWAY_CONFIG_SIGNALS =
     [''cf-aig-authorization'', ''cf-aig'', ''gateway authentication'', ''invalid gateway token'',
      ''provider key not found'', ''no provider key'', ''provider key not configured'', ''byok'']"

abbreviation any_run :: regex where "any_run \<equiv> Star True any_char"
abbreviation gap :: "string \<Rightarrow> string \<Rightarrow> regex" where
  "gap a b \<equiv> cats [liti a, any_run, liti b]"

definition QUOTA_PATTERNS :: "regex list" where
  "QUOTA_PATTERNS =
     [gap ''daily'' ''limit'', gap ''daily'' ''quota'',
      cats [liti ''per'', opt any_char, liti ''day'', any_run, liti ''limit''],
      gap ''monthly'' ''limit'', gap ''monthly'' ''quota'',
      cats [liti ''per'', opt any_char, liti ''month'', any_run, liti ''limit''],
      gap ''quota'' ''exceed'', gap ''exceed'' ''quota'', gap ''insufficient'' ''quota'',
      gap ''billing'' ''cap'', gap ''credit'' ''exhaust'', liti ''out of credits'',
      cats [liti ''hard'', opt any_char, liti ''limit''], gap ''plan'' ''limit'',
      liti ''individual quota reached'', liti ''enable overages'',
      liti ''insufficient_g1_credits_balance'']"

definition CONTEXT_OVERFLOW_REGEX :: regex where
  "CONTEXT_OVERFLOW_REGEX = alts
     [liti ''context overflow'', liti ''prompt too large'', liti ''context window'',
      liti ''maximum context'', liti ''exceeds context'', liti ''input too long'',
      liti ''token limit'', liti ''too many tokens'', liti ''context length'',
      gap ''exceed'' ''context'', liti ''messages exceed'']"

definition HTTP_402_REGEX :: regex where
  "HTTP_402_REGEX = Alt
     (cats [WordB,
        alts [liti ''http'', liti ''https'', Cat (liti ''status'') (opt (Cat spaces (liti ''code''))),
          cats [liti ''error'', spaces, liti ''code''], liti ''code''],
        spaces, opt (Chr (\<lambda>c. c = CHR '':'' \<or> c = CHR 0x23)), spaces, lit ''402'', WordB])
     (cats [WordB, lit ''402'', WordB, spaces, opt (Chr (\<lambda>c. c = CHR '':'' \<or> c = CHR ''-'')),
        spaces, liti ''payment required''])"

definition LEGIT_EMPTY_CLAUDE_STOP :: "string list" where
  "LEGIT_EMPTY_CLAUDE_STOP = [''max_tokens'', ''tool_use'']"

definition LEGIT_EMPTY_OPENAI_FINISH :: "string list" where
  "LEGIT_EMPTY_OPENAI_FINISH = [''length'', ''tool_calls'']"

section \<open>Text\<close>

text \<open>\<^verbatim>\<open>json.dumps(v, ensure_ascii=False)\<close>; the text of a float is the interpreter's.\<close>

definition hex_digit :: "nat \<Rightarrow> char" where
  "hex_digit n = char_of (if n < 10 then 48 + n else 87 + n)"

definition json_escape_char :: "char \<Rightarrow> string" where
  "json_escape_char c = (let n = (of_char c :: nat) in
     if c = CHR 0x22 \<or> c = CHR 0x5C then [CHR 0x5C, c]
     else if n = 10 then [CHR 0x5C, CHR ''n''] else if n = 13 then [CHR 0x5C, CHR ''r'']
     else if n = 9 then [CHR 0x5C, CHR ''t''] else if n = 8 then [CHR 0x5C, CHR ''b'']
     else if n = 12 then [CHR 0x5C, CHR ''f'']
     else if n < 32 then [CHR 0x5C, CHR ''u'', CHR ''0'', CHR ''0'', hex_digit (n div 16), hex_digit (n mod 16)]
     else [c])"

definition json_quote :: "string \<Rightarrow> string" where
  "json_quote s = [CHR 0x22] @ concat (map json_escape_char s) @ [CHR 0x22]"

fun json_dumps :: "py_builtins \<Rightarrow> json \<Rightarrow> string" where
  "json_dumps B JNull = ''null''"
| "json_dumps B (JBool b) = (if b then ''true'' else ''false'')"
| "json_dumps B (JInt i) = str_int i"
| "json_dumps B (JFloat r) = py_str B (JFloat r)"
| "json_dumps B (JStr s) = json_quote s"
| "json_dumps B (JList vs) = ''['' @ join '', '' (map (json_dumps B) vs) @ '']''"
| "json_dumps B (JObj kvs) =
     ''{'' @ join '', '' (map (\<lambda>(k, v). json_quote k @ '': '' @ json_dumps B v) kvs) @ ''}''"

definition body_text :: "py_builtins \<Rightarrow> json \<Rightarrow> string" where
  "body_text B body = (case body of JStr s \<Rightarrow> s | JNull \<Rightarrow> [] | _ \<Rightarrow> json_dumps B body)"

definition is_credits_exhausted :: "string \<Rightarrow> bool" where
  "is_credits_exhausted text = has_any CREDITS_EXHAUSTED_SIGNALS (lower text)"

definition is_account_deactivated :: "string \<Rightarrow> bool" where
  "is_account_deactivated text = has_any ACCOUNT_DEACTIVATED_SIGNALS (lower text)"

definition is_oauth_invalid_token :: "string \<Rightarrow> bool" where
  "is_oauth_invalid_token text = has_any OAUTH_INVALID_TOKEN_SIGNALS (lower text)"

definition is_gateway_config_error :: "string \<Rightarrow> bool" where
  "is_gateway_config_error text = has_any GATEWAY_CONFIG_SIGNALS (lower text)"

definition is_daily_quota_exhausted :: "string \<Rightarrow> bool" where
  "is_daily_quota_exhausted text =
     has_any [''today'' @ [CHR 0x27] @ ''s quota'', ''daily quota'', ''try again tomorrow''] (lower text)"

definition looks_like_quota_exhausted :: "py_builtins \<Rightarrow> json \<Rightarrow> bool" where
  "looks_like_quota_exhausted B body =
     (let text = body_text B body in text \<noteq> [] \<and> list_ex (\<lambda>pat. re_test pat text) QUOTA_PATTERNS)"

definition is_context_overflow :: "string \<Rightarrow> bool" where
  "is_context_overflow text = re_test CONTEXT_OVERFLOW_REGEX text"

section \<open>The empty-content guard\<close>

definition as_dict :: "json \<Rightarrow> (string \<times> json) list" where
  "as_dict v = (case v of JObj d \<Rightarrow> d | _ \<Rightarrow> [])"

definition blank :: "json \<Rightarrow> bool" where
  "blank v \<longleftrightarrow> v = JNull \<or> v = JStr []"

definition str_of :: "json \<Rightarrow> string" where
  "str_of v = (case v of JStr s \<Rightarrow> s | _ \<Rightarrow> [])"

definition openai_empty :: "json list \<Rightarrow> bool" where
  "openai_empty choices = (case choices of
     [] \<Rightarrow> True
   | first # _ \<Rightarrow> (case first of
       JObj d \<Rightarrow>
         (let message = as_dict (jget d ''message''); delta = as_dict (jget d ''delta'');
              finish = jget d ''finish_reason'';
              content = jget_default message ''content'' (jget delta ''content'');
              reasoning = jget_default message ''reasoning_content'' (jget delta ''reasoning_content'');
              tools = jor (jget message ''tool_calls'') (jget delta ''tool_calls'')
          in if (\<exists>s \<in> set LEGIT_EMPTY_OPENAI_FINISH. finish = JStr s) then False
             else blank content \<and> blank reasoning \<and> (case tools of JList (_ # _) \<Rightarrow> False | _ \<Rightarrow> True))
     | _ \<Rightarrow> True))"

definition is_empty_content_response :: "json \<Rightarrow> bool" where
  "is_empty_content_response body = (case body of
     JObj d \<Rightarrow>
       (case jget d ''choices'' of
          JList choices \<Rightarrow> openai_empty choices
        | _ \<Rightarrow>
          (case jget d ''content'' of
             JList content \<Rightarrow> content = [] \<and> str_of (jget d ''stop_reason'') \<notin> set LEGIT_EMPTY_CLAUDE_STOP
           | content \<Rightarrow>
             (case jget d ''text'' of
                JStr text \<Rightarrow> strip text = []
              | _ \<Rightarrow>
                if ''content'' \<in> fst ` set d
                then blank content \<and>
                  str_of (jget d ''stop_reason'') \<notin> set (LEGIT_EMPTY_CLAUDE_STOP @ LEGIT_EMPTY_OPENAI_FINISH)
                else False)))
   | _ \<Rightarrow> False)"

section \<open>Classification\<close>

definition quota_text :: "py_builtins \<Rightarrow> string \<Rightarrow> bool" where
  "quota_text B text = (looks_like_quota_exhausted B (JStr text) \<or> is_daily_quota_exhausted text)"

definition classify_status :: "py_builtins \<Rightarrow> int \<Rightarrow> string \<Rightarrow> string option" where
  "classify_status B status text =
     (let credits = is_credits_exhausted text; deactivated = is_account_deactivated text in
      if credits \<and> status \<in> {400, 402, 403} then Some QUOTA_EXHAUSTED
      else if status = 429 then
        (if credits \<or> quota_text B text then Some QUOTA_EXHAUSTED else Some RATE_LIMITED)
      else if status = 401 then
        (if is_oauth_invalid_token text then Some OAUTH_INVALID_TOKEN
         else if deactivated then Some ACCOUNT_DEACTIVATED else Some UNAUTHORIZED)
      else if status = 402 then Some QUOTA_EXHAUSTED
      else if status = 403 then (if deactivated then Some ACCOUNT_DEACTIVATED else Some FORBIDDEN)
      else if status \<ge> 500 then Some SERVER_ERROR
      else if status = 400 \<and> is_context_overflow text then Some CONTEXT_OVERFLOW
      else None)"

definition classify_text :: "py_builtins \<Rightarrow> string \<Rightarrow> string option" where
  "classify_text B text =
     (if is_account_deactivated text then Some ACCOUNT_DEACTIVATED
      else if is_credits_exhausted text then Some QUOTA_EXHAUSTED
      else if quota_text B text then Some QUOTA_EXHAUSTED
      else if is_oauth_invalid_token text then Some OAUTH_INVALID_TOKEN
      else if is_context_overflow text then Some CONTEXT_OVERFLOW
      else None)"

definition classify_provider_error :: "py_builtins \<Rightarrow> int option \<Rightarrow> json \<Rightarrow> string option" where
  "classify_provider_error B status_code body =
     (let text = body_text B body in
      if \<not> is_credits_exhausted text \<and> \<not> is_account_deactivated text \<and> is_gateway_config_error text
      then Some UNAUTHORIZED
      else case status_code of
        None \<Rightarrow> classify_text B text
      | Some status \<Rightarrow> (case classify_status B status text of
          Some kind \<Rightarrow> Some kind
        | None \<Rightarrow> classify_text B text))"

definition is_terminal_billing_error :: "py_builtins \<Rightarrow> string \<Rightarrow> int option \<Rightarrow> bool" where
  "is_terminal_billing_error B text status_code =
     (if status_code = Some 402 then True
      else if re_test HTTP_402_REGEX text \<or> has_sub (lower text) ''payment required'' then True
      else (case classify_provider_error B status_code (JStr text) of
        None \<Rightarrow> False | Some kind \<Rightarrow> kind \<in> set TERMINAL_BILLING_TYPES))"

section \<open>What the classification separates\<close>

lemma error_type_distinct [simp]:
  "RATE_LIMITED \<noteq> QUOTA_EXHAUSTED" "RATE_LIMITED \<noteq> UNAUTHORIZED" "RATE_LIMITED \<noteq> ACCOUNT_DEACTIVATED"
  "RATE_LIMITED \<noteq> OAUTH_INVALID_TOKEN" "RATE_LIMITED \<noteq> FORBIDDEN" "RATE_LIMITED \<noteq> CONTEXT_OVERFLOW"
  "RATE_LIMITED \<noteq> SERVER_ERROR" "UNAUTHORIZED \<noteq> QUOTA_EXHAUSTED" "UNAUTHORIZED \<noteq> ACCOUNT_DEACTIVATED"
  "OAUTH_INVALID_TOKEN \<noteq> QUOTA_EXHAUSTED" "OAUTH_INVALID_TOKEN \<noteq> ACCOUNT_DEACTIVATED"
  "FORBIDDEN \<noteq> QUOTA_EXHAUSTED" "FORBIDDEN \<noteq> ACCOUNT_DEACTIVATED"
  "CONTEXT_OVERFLOW \<noteq> QUOTA_EXHAUSTED" "CONTEXT_OVERFLOW \<noteq> ACCOUNT_DEACTIVATED"
  "SERVER_ERROR \<noteq> QUOTA_EXHAUSTED" "SERVER_ERROR \<noteq> ACCOUNT_DEACTIVATED"
  "UNAUTHORIZED \<noteq> RATE_LIMITED" "QUOTA_EXHAUSTED \<noteq> RATE_LIMITED" "ACCOUNT_DEACTIVATED \<noteq> RATE_LIMITED"
  "OAUTH_INVALID_TOKEN \<noteq> RATE_LIMITED" "FORBIDDEN \<noteq> RATE_LIMITED" "CONTEXT_OVERFLOW \<noteq> RATE_LIMITED"
  "SERVER_ERROR \<noteq> RATE_LIMITED" "QUOTA_EXHAUSTED \<noteq> ACCOUNT_DEACTIVATED" "ACCOUNT_DEACTIVATED \<noteq> QUOTA_EXHAUSTED"
  by (simp_all add: error_type_defs)

abbreviation config_only :: "string \<Rightarrow> bool" where
  "config_only text \<equiv> is_gateway_config_error text \<and> \<not> is_credits_exhausted text \<and> \<not> is_account_deactivated text"

text \<open>A rate limit is a 429 without any billing or quota signal, and nothing else is one.\<close>

lemma rate_limited_iff:
  "classify_provider_error B status body = Some RATE_LIMITED \<longleftrightarrow>
     status = Some 429 \<and> \<not> is_credits_exhausted (body_text B body) \<and> \<not> quota_text B (body_text B body) \<and>
     \<not> config_only (body_text B body)"
  by (auto simp: classify_provider_error_def classify_status_def classify_text_def Let_def split: option.splits)

definition budget_text :: "py_builtins \<Rightarrow> string \<Rightarrow> bool" where
  "budget_text B text \<longleftrightarrow> is_account_deactivated text \<or> is_credits_exhausted text \<or>
     (quota_text B text \<and> \<not> is_gateway_config_error text)"

text \<open>The executor fallback chain is entered exactly in these cases.\<close>

definition billing_spec :: "py_builtins \<Rightarrow> string \<Rightarrow> int option \<Rightarrow> bool" where
  "billing_spec B text status = (case status of
     None \<Rightarrow> budget_text B text
   | Some s \<Rightarrow>
       if s = 402 then True
       else if s = 401 then is_account_deactivated text \<and> \<not> is_oauth_invalid_token text
       else if s = 403 then is_credits_exhausted text \<or> is_account_deactivated text
       else if s = 429 then is_credits_exhausted text \<or> (quota_text B text \<and> \<not> config_only text)
       else if s \<ge> 500 then False
       else if s = 400 then is_credits_exhausted text \<or> (budget_text B text \<and> \<not> is_context_overflow text)
       else budget_text B text)"

lemma body_text_str [simp]: "body_text B (JStr s) = s"
  by (simp add: body_text_def)

lemma terminal_billing_iff:
  "is_terminal_billing_error B text status \<longleftrightarrow>
     re_test HTTP_402_REGEX text \<or> has_sub (lower text) ''payment required'' \<or> billing_spec B text status"
  by (cases status)
    (auto simp: is_terminal_billing_error_def billing_spec_def budget_text_def classify_provider_error_def
      classify_status_def classify_text_def TERMINAL_BILLING_TYPES_def Let_def)

lemma config_error_not_billing:
  assumes "config_only (body_text B body)"
  shows "classify_provider_error B status body = Some UNAUTHORIZED"
  using assms by (simp add: classify_provider_error_def Let_def)

text \<open>The normalised result of a provider adapter.\<close>

lemma empty_content_text:
  assumes "jget d ''content'' = JStr c" "\<And>cs. jget d ''choices'' \<noteq> JList cs" "\<And>t. jget d ''text'' \<noteq> JStr t"
  shows "is_empty_content_response (JObj d) \<longleftrightarrow> c = [] \<and>
    str_of (jget d ''stop_reason'') \<notin> {''max_tokens'', ''tool_use'', ''length'', ''tool_calls''}"
proof -
  have "''content'' \<in> fst ` set d"
    using assms(1) map_of_eq_None_iff [of d "''content''"] by (auto simp: jget_def split: option.splits)
  then show ?thesis
    using assms by (cases "jget d ''choices''"; cases "jget d ''text''")
      (auto simp: is_empty_content_response_def blank_def LEGIT_EMPTY_CLAUDE_STOP_def LEGIT_EMPTY_OPENAI_FINISH_def)
qed

section \<open>Letter case does not matter\<close>

fun caseless :: "regex \<Rightarrow> bool" where
  "caseless (Chr P) = (\<forall>c. P (lower_char c) = P c)"
| "caseless (Cat r s) = (caseless r \<and> caseless s)"
| "caseless (Alt r s) = (caseless r \<and> caseless s)"
| "caseless (Star g r) = caseless r"
| "caseless (Group n r) = caseless r"
| "caseless _ = True"

definition low_state :: "re_state \<Rightarrow> re_state" where
  "low_state st = (case st of (pre, suf, caps) \<Rightarrow> (lower pre, lower suf, map (\<lambda>(n, w). (n, lower w)) caps))"

lemma of_char_lower: "(of_char (lower_char c) :: nat) =
    (if 65 \<le> (of_char c :: nat) \<and> (of_char c :: nat) \<le> 90 then of_char c + 32 else of_char c)"
  by (auto simp: lower_char_def Let_def)

lemma char_eq_of: "c = d \<longleftrightarrow> (of_char c :: nat) = of_char d"
  by (metis char_of_char)

lemma lower_char_newline [simp]: "lower_char c = CHR 0x0A \<longleftrightarrow> c = CHR 0x0A"
  unfolding char_eq_of of_char_lower by simp

lemma is_word_lower [simp]: "is_word (lower_char c) = is_word c"
proof -
  have "lower_char c = CHR ''_'' \<longleftrightarrow> c = CHR ''_''" unfolding char_eq_of of_char_lower by simp
  then show ?thesis by (auto simp: is_word_def is_digit_def is_alpha_def of_char_lower Let_def split: if_splits)
qed

lemma lower_simps [simp]:
  "lower [] = []" "lower (c # s) = lower_char c # lower s" "lower s = [] \<longleftrightarrow> s = []"
  "length (lower s) = length s"
  by (auto simp: lower_def)

lemma low_state_rest [simp]: "length (fst (snd (low_state st))) = length (fst (snd st))"
  by (simp add: low_state_def split: prod.splits)

lemma word_boundary_lower [simp]: "at_word_boundary (low_state st) = at_word_boundary st"
proof (cases st)
  case (fields pre suf caps)
  then show ?thesis by (cases pre; cases suf) (simp_all add: at_word_boundary_def low_state_def)
qed

lemma re_ends_lower: "caseless r \<Longrightarrow> re_ends r (low_state st) = map low_state (re_ends r st)"
proof (induction r st rule: re_ends.induct)
  case (2 P pre suf caps)
  then show ?case by (cases suf) (auto simp: low_state_def)
next
  case (3 r s st)
  then show ?case by (simp add: map_concat comp_def cong: map_cong)
next
  case (5 greedy r st)
  have more: "concat (map (\<lambda>st'. if length (fst (snd st')) < length (fst (snd (low_state st)))
        then re_ends (Star greedy r) st' else []) (re_ends r (low_state st))) =
      map low_state (concat (map (\<lambda>st'. if length (fst (snd st')) < length (fst (snd st))
        then re_ends (Star greedy r) st' else []) (re_ends r st)))"
    using 5 by (auto simp: map_concat comp_def intro!: arg_cong [of _ _ concat])
  show ?case
    unfolding re_ends.simps(5) [of greedy r "low_state st"] re_ends.simps(5) [of greedy r st] Let_def more by simp
next
  case (6 n r pre suf caps)
  have "re_ends r (lower pre, lower suf, map (\<lambda>(n, w). (n, lower w)) caps) = map low_state (re_ends r (pre, suf, caps))"
    using 6 by (simp add: low_state_def)
  then show ?case by (auto simp: low_state_def lower_def take_map)
next
  case (7 pre suf caps)
  then show ?case by (cases pre) (simp_all add: low_state_def)
next
  case (8 pre suf caps)
  then show ?case by (cases suf) (simp_all add: low_state_def)
next
  case (10 pre suf caps)
  then show ?case by (cases suf; cases "tl suf") (auto simp: low_state_def)
next
  case (11 st)
  then show ?case by simp
qed (simp_all add: low_state_def)

lemma re_test_lower: "caseless r \<Longrightarrow> re_test r (lower s) = re_test r s"
proof -
  assume r: "caseless r"
  have ends: "re_ends r (rev (lower a), lower b, []) \<noteq> [] \<longleftrightarrow> re_ends r (rev a, b, []) \<noteq> []" for a b
    using re_ends_lower [OF r, of "(rev a, b, [])"] by (simp add: low_state_def lower_def rev_map)
  have "(\<exists>a b. lower s = a @ b \<and> re_ends r (rev a, b, []) \<noteq> []) \<longleftrightarrow>
      (\<exists>a b. s = a @ b \<and> re_ends r (rev (lower a), lower b, []) \<noteq> [])"
    unfolding lower_def by (auto simp: map_eq_append_conv)
  then show ?thesis unfolding re_test_iff ends .
qed

lemma caseless_cats [simp]: "caseless (cats rs) = list_all caseless rs"
  by (induction rs rule: cats.induct) auto

lemma caseless_alts [simp]: "caseless (alts rs) = list_all caseless rs"
  by (induction rs rule: alts.induct) auto

lemma caseless_liti [simp]: "caseless (liti s)"
  by (simp add: liti_def list_all_iff)

lemma caseless_any [simp]: "caseless any_char"
  by (simp add: any_char_def)

lemma caseless_quota: "pat \<in> set QUOTA_PATTERNS \<Longrightarrow> caseless pat"
  by (auto simp: QUOTA_PATTERNS_def)

lemma caseless_overflow: "caseless CONTEXT_OVERFLOW_REGEX"
  by (simp add: CONTEXT_OVERFLOW_REGEX_def)

lemma lower_char_sym:
  "(of_char d :: nat) < 65 \<Longrightarrow> lower_char c = d \<longleftrightarrow> c = d"
  unfolding char_eq_of of_char_lower by auto

lemma is_space_lower [simp]: "is_space (lower_char c) = is_space c"
  by (auto simp: is_space_def Let_def of_char_lower)

lemma caseless_402: "caseless HTTP_402_REGEX"
  by (simp add: HTTP_402_REGEX_def lit_def ch_def lower_char_sym)

lemma tests_lower:
  "is_credits_exhausted (lower t) = is_credits_exhausted t"
  "is_account_deactivated (lower t) = is_account_deactivated t"
  "is_oauth_invalid_token (lower t) = is_oauth_invalid_token t"
  "is_gateway_config_error (lower t) = is_gateway_config_error t"
  "is_context_overflow (lower t) = is_context_overflow t"
  "quota_text B (lower t) = quota_text B t"
proof -
  have "looks_like_quota_exhausted B (JStr (lower t)) = looks_like_quota_exhausted B (JStr t)"
    using caseless_quota re_test_lower by (auto simp: looks_like_quota_exhausted_def list_ex_iff)
  then show "quota_text B (lower t) = quota_text B t" by (simp add: quota_text_def is_daily_quota_exhausted_def)
qed (simp_all add: is_credits_exhausted_def is_account_deactivated_def is_oauth_invalid_token_def
    is_gateway_config_error_def is_context_overflow_def re_test_lower caseless_overflow)

lemma classify_lower:
  "classify_provider_error B status (JStr (lower t)) = classify_provider_error B status (JStr t)"
proof -
  have "classify_text B (lower t) = classify_text B t" "classify_status B s (lower t) = classify_status B s t" for s
    unfolding classify_text_def classify_status_def tests_lower by (rule refl)+
  note classify = this
  show ?thesis
    unfolding classify_provider_error_def body_text_str Let_def tests_lower classify by (rule refl)
qed

lemma terminal_lower: "is_terminal_billing_error B (lower t) status = is_terminal_billing_error B t status"
  by (simp add: is_terminal_billing_error_def re_test_lower caseless_402 classify_lower)

end
