(* ===== verification/Gateway_Models.thy ===== *)
theory Gateway_Models
  imports Error_Classifier
begin

text \<open>
  \<^verbatim>\<open>src/voly/ai_gateway/models.py\<close> (rate limit, spend limit, response cache, DLP scan, metrics) and
  the price table of \<^verbatim>\<open>src/voly/telemetry.py\<close>.  Money and time are exact rationals; \<^verbatim>\<open>time.time()\<close> is
  an argument, read once for an operation.  A dictionary whose order matters (the cache) is a list
  of entries in insertion order, the others are maps.
\<close>

section \<open>Prices\<close>

definition COST_RATES :: "(string \<times> rat \<times> rat) list" where
  "COST_RATES =
     [(''claude-opus-4'', 3/200, 3/40),
      (''claude-opus-4-8'', 3/200, 3/40),
      (''claude-sonnet-4'', 3/1000, 3/200),
      (''claude-sonnet-4-6'', 3/1000, 3/200),
      (''claude-haiku-4'', 1/4000, 1/800),
      (''claude-haiku-4-5'', 1/4000, 1/800),
      (''claude-3-5-sonnet'', 3/1000, 3/200),
      (''claude-3-opus'', 3/200, 3/40),
      (''gpt-4o'', 1/400, 1/100),
      (''gpt-4o-mini'', 3/20000, 3/5000),
      (''gpt-4-turbo'', 1/100, 3/100),
      (''o1'', 3/200, 3/50),
      (''o3-mini'', 11/10000, 11/2500),
      (''deepseek-v4-flash'', 7/50000, 7/25000),
      (''deepseek-v4-pro'', 27/50000, 11/5000),
      (''deepseek-chat'', 27/100000, 11/10000),
      (''deepseek-coder'', 27/100000, 11/10000),
      (''gemini-1.5-pro'', 1/800, 1/200),
      (''gemini-1.5-flash'', 3/40000, 3/10000),
      (''gemini-2.0-flash'', 3/40000, 3/10000),
      (''mimo-v2.5-pro'', 1/1000, 3/1000),
      (''mimo-v2.5'', 1/2000, 3/2000),
      (''kimi-k2.6'', 1/2000, 1/500),
      (''kimi-k2.7-code'', 7/10000, 3/1000),
      (''kimi-k3'', 1/1000, 1/250),
      (''qwen3.7-plus'', 1/2500, 1/625),
      (''qwen3.7-max'', 1/1250, 2/625),
      (''minimax-m3'', 3/10000, 3/2500),
      (''glm-5.2'', 1/2500, 1/625),
      (''gpt-5.6-sol'', 1/200, 3/100),
      (''gpt-5.6-terra'', 1/500, 3/250),
      (''gpt-5.6-luna'', 1/5000, 3/2500),
      (''claude-fable-5'', 1/100, 1/20),
      (''claude-opus-5'', 1/200, 1/40),
      (''claude-sonnet-5'', 1/500, 1/100),
      (''qwen3.6-plus'', 1/2000, 3/1000),
      (''gpt-5.5'', 1/200, 3/100),
      (''gpt-5.4'', 1/400, 3/200),
      (''gpt-5.4-mini'', 3/4000, 9/2000),
      (''gemini-3.5-flash'', 3/2000, 9/1000),
      (''grok-build-0.1'', 1/1000, 1/500),
      (''@cf/meta/llama-4'', 7/250000, 7/250000),
      (''@cf/meta/llama-3'', 11/500000, 11/500000),
      (''@cf/mistral/mistral'', 11/1000000, 11/1000000),
      (''@cf/google/gemma'', 3/200000, 3/200000),
      (''@cf/qwen/qwen'', 3/200000, 3/200000),
      (''@cf/deepseek-ai/deepseek'', 9/500000, 9/500000)]"

definition DEFAULT_RATE :: "rat \<times> rat" where "DEFAULT_RATE = (1/1000, 3/1000)"

definition FREE_MODELS :: "string list" where
  "FREE_MODELS =
     [''big-pickle'',
      ''deepseek-v4-flash-free'',
      ''mimo-v2.5-free'',
      ''north-mini-code-free'',
      ''nemotron-3-ultra-free'',
      ''laguna-s-2.1-free'',
      ''ling-3.0-flash-free'',
      ''@cf/meta/llama-3.2-1b-instruct'',
      ''@cf/meta/llama-3.2-3b-instruct'',
      ''@cf/meta/llama-3.1-8b-instruct-fp8'',
      ''@cf/ibm-granite/granite-4.0-h-micro'']"

text \<open>\<^verbatim>\<open>round(x, n)\<close>: to the nearest multiple, ties to the even one.\<close>

definition round_half_even :: "rat \<Rightarrow> int" where
  "round_half_even r = (let f = \<lfloor>r\<rfloor>; d = r - of_int f in
     if d < 1/2 then f else if d > 1/2 then f + 1 else if even f then f else f + 1)"

definition round_to :: "nat \<Rightarrow> rat \<Rightarrow> rat" where
  "round_to n r = of_int (round_half_even (r * 10 ^ n)) / 10 ^ n"

definition rate_of :: "string \<Rightarrow> rat \<times> rat" where
  "rate_of model = (case find (\<lambda>(key, _). starts_with model key \<or> has_sub model key) COST_RATES of
     Some (_, r) \<Rightarrow> r | None \<Rightarrow> DEFAULT_RATE)"

definition estimate_cost :: "string \<Rightarrow> rat \<Rightarrow> rat \<Rightarrow> rat" where
  "estimate_cost model input_tokens output_tokens =
     (if has_any FREE_MODELS model then 0
      else case rate_of model of (rate_in, rate_out) \<Rightarrow>
        round_to 6 (input_tokens / 1000 * rate_in + output_tokens / 1000 * rate_out))"

section \<open>Rate and spend limits\<close>

record rate_limit =
  rl_requests_per_minute :: int
  rl_tokens_per_minute :: int
  rl_enabled :: bool

record spend_limit =
  sl_daily_budget :: rat
  sl_per_agent_budget :: "string \<rightharpoonup> rat"
  sl_enabled :: bool
  sl_spent_today :: rat
  sl_spent_per_agent :: "string \<rightharpoonup> rat"
  sl_reset_at :: rat

definition spend_check :: "rat \<Rightarrow> rat \<Rightarrow> string \<Rightarrow> spend_limit \<Rightarrow> bool \<times> spend_limit" where
  "spend_check now estimated agent s =
     (if \<not> sl_enabled s then (True, s)
      else let s1 = (if now - sl_reset_at s > 86400
                     then s\<lparr>sl_spent_today := 0, sl_spent_per_agent := Map.empty, sl_reset_at := now\<rparr> else s)
           in if sl_spent_today s1 + estimated > sl_daily_budget s1 then (False, s1)
              else (case (if agent = [] then None else sl_per_agent_budget s1 agent) of
                 Some per_agent \<Rightarrow>
                   ((case sl_spent_per_agent s1 agent of Some c \<Rightarrow> c | None \<Rightarrow> 0) + estimated \<le> per_agent, s1)
               | None \<Rightarrow> (True, s1)))"

definition spend_record :: "rat \<Rightarrow> string \<Rightarrow> spend_limit \<Rightarrow> spend_limit" where
  "spend_record cost agent s =
     (let s1 = s\<lparr>sl_spent_today := sl_spent_today s + cost\<rparr>
      in if agent \<noteq> []
         then s1\<lparr>sl_spent_per_agent := (sl_spent_per_agent s1)(agent \<mapsto>
                (case sl_spent_per_agent s1 agent of Some c \<Rightarrow> c | None \<Rightarrow> 0) + cost)\<rparr>
         else s1)"

section \<open>The response cache\<close>

text \<open>A file of the persistence directory holds an expiry and a value, or something unreadable.\<close>

datatype cache_file = Entry rat string | Unreadable

record cache =
  cc_enabled :: bool
  cc_ttl :: rat
  cc_max_entries :: int
  cc_persist :: bool
  cc_store :: "(string \<times> rat \<times> string) list"
  cc_files :: "string \<rightharpoonup> cache_file"

text \<open>
  \<open>disk_ok\<close> says whether the file system serves the call; an \<^verbatim>\<open>OSError\<close> is swallowed.  An unlink
  that fails leaves the file, a write that fails is taken to leave the old content.
\<close>

definition cache_get :: "bool \<Rightarrow> rat \<Rightarrow> string \<Rightarrow> cache \<Rightarrow> string option \<times> cache" where
  "cache_get disk_ok now key c =
     (let from_disk = (\<lambda>c1.
        if cc_persist c1 \<and> disk_ok then
          (case cc_files c1 key of
             Some (Entry expires value) \<Rightarrow>
               if now < expires
               then (Some value, c1\<lparr>cc_store := dict_set key (expires, value) (cc_store c1)\<rparr>)
               else (None, c1\<lparr>cc_files := (cc_files c1)(key := None)\<rparr>)
           | _ \<Rightarrow> (None, c1))
        else (None, c1))
      in case map_of (cc_store c) key of
           Some (expires, value) \<Rightarrow>
             if now < expires then (Some value, c) else from_disk (c\<lparr>cc_store := dict_del key (cc_store c)\<rparr>)
         | None \<Rightarrow> from_disk c)"

text \<open>\<^verbatim>\<open>min(keys, key=expiry)\<close>: the first of the smallest; it raises for an empty dictionary.\<close>

fun oldest :: "(string \<times> rat \<times> string) list \<Rightarrow> (string \<times> rat) option" where
  "oldest [] = None"
| "oldest ((k, e, _) # es) = (case oldest es of
     None \<Rightarrow> Some (k, e) | Some (k', e') \<Rightarrow> if e \<le> e' then Some (k, e) else Some (k', e'))"

definition cache_set :: "bool \<Rightarrow> rat \<Rightarrow> string \<Rightarrow> string \<Rightarrow> cache \<Rightarrow> py_exn + cache" where
  "cache_set disk_ok now key value c =
     map_sum id (\<lambda>store.
       let expires = now + cc_ttl c in
         c\<lparr>cc_store := dict_set key (expires, value) store,
           cc_files := (if cc_persist c \<and> disk_ok then (cc_files c)(key \<mapsto> Entry expires value) else cc_files c)\<rparr>)
       (if int (length (cc_store c)) \<ge> cc_max_entries c
        then (case oldest (cc_store c) of None \<Rightarrow> Inl PyValueError | Some (k, _) \<Rightarrow> Inr (dict_del k (cc_store c)))
        else Inr (cc_store c))"

definition cache_invalidate :: "bool \<Rightarrow> string \<Rightarrow> cache \<Rightarrow> cache" where
  "cache_invalidate disk_ok key c =
     c\<lparr>cc_store := dict_del key (cc_store c),
       cc_files := (if cc_persist c \<and> disk_ok then (cc_files c)(key := None) else cc_files c)\<rparr>"

definition cache_flush :: "cache \<Rightarrow> cache" where
  "cache_flush c = c\<lparr>cc_store := []\<rparr>"

definition cache_stats :: "rat \<Rightarrow> cache \<Rightarrow> int \<times> int \<times> int" where
  "cache_stats now c =
     (int (length (cc_store c)), int (length (filter (\<lambda>(_, e, _). now < e) (cc_store c))), cc_max_entries c)"

section \<open>Data-loss prevention\<close>

abbreviation alnum :: "char \<Rightarrow> bool" where "alnum c \<equiv> is_digit c \<or> is_alpha c"

fun rep :: "nat \<Rightarrow> regex \<Rightarrow> regex" where
  "rep 0 r = Eps"
| "rep (Suc n) r = Cat r (rep n r)"

abbreviation at_least :: "nat \<Rightarrow> regex \<Rightarrow> regex" where
  "at_least n r \<equiv> Cat (rep n r) (Star True r)"

definition dash_sep :: regex where "dash_sep = opt (Chr (\<lambda>c. c = CHR ''_'' \<or> c = CHR ''-''))"

definition b64_char :: regex where "b64_char = Chr (\<lambda>c. alnum c \<or> c = CHR ''_'' \<or> c = CHR ''-'')"

definition quote_opt :: regex where
  "quote_opt = opt (Chr (\<lambda>c. c \<in> {CHR 0x22, CHR 0x27, CHR 0x60}))"

definition SECRET_PATTERNS :: "regex list" where
  "SECRET_PATTERNS =
     [cats [alts [cats [liti ''api'', dash_sep, liti ''key''], cats [liti ''secret'', dash_sep, liti ''key''],
              liti ''token'', liti ''password'', cats [liti ''auth'', dash_sep, liti ''token'']],
            spaces, Chr (\<lambda>c. c = CHR '':'' \<or> c = CHR ''=''), spaces, quote_opt,
            plus (Chr (\<lambda>c. \<not> is_space c)), quote_opt],
      cats [liti ''eyJ'', at_least 10 b64_char, lit ''.'', at_least 10 b64_char, lit ''.'', Star True b64_char],
      cats [liti ''sk-'', at_least 12 (Chr alnum)],
      cats [liti ''ghp_'', at_least 12 (Chr alnum)],
      cats [liti ''xox'', Chr (\<lambda>c. lower_char c \<in> set ''baprs''), lit ''-'',
            at_least 10 (Chr (\<lambda>c. alnum c \<or> c = CHR ''-''))],
      cats [liti ''-----BEGIN'', plus (Chr is_space), alts (map liti [''RSA'', ''EC'', ''DSA'', ''OPENSSH'']),
            plus (Chr is_space), liti ''PRIVATE KEY-----'']]"

definition PII_PATTERNS :: "regex list" where
  "PII_PATTERNS =
     [cats [WordB, rep 3 (Chr is_digit), lit ''-'', rep 2 (Chr is_digit), lit ''-'', rep 4 (Chr is_digit), WordB],
      cats [WordB, rep 16 (Chr is_digit), WordB],
      cats [WordB, plus (Chr (\<lambda>c. alnum c \<or> c \<in> set ''._%+-'')), lit ''@'',
            plus (Chr (\<lambda>c. alnum c \<or> c = CHR ''.'' \<or> c = CHR ''-'')), lit ''.'',
            at_least 2 (Chr (\<lambda>c. is_alpha c \<or> c = CHR 0x7C)), WordB]]"

text \<open>
  A violation names the pattern that matched (its position in the built-in lists).  The configured
  patterns are expressions of the user's own: what they match is an argument.
\<close>

datatype violation = SecretMatched nat | PiiMatched nat | CustomMatched string

record dlp_config =
  dl_enabled :: bool
  dl_block_secrets :: bool
  dl_block_pii :: bool
  dl_block_patterns :: "string list"

definition matching :: "regex list \<Rightarrow> string \<Rightarrow> nat list" where
  "matching pats content = filter (\<lambda>i. re_test (pats ! i) content) [0..<length pats]"

definition dlp_scan :: "(string \<Rightarrow> string \<Rightarrow> bool) \<Rightarrow> dlp_config \<Rightarrow> string \<Rightarrow> violation list" where
  "dlp_scan custom d content =
     (if \<not> dl_enabled d then []
      else (if dl_block_secrets d then map SecretMatched (matching SECRET_PATTERNS content) else []) @
           (if dl_block_pii d then map PiiMatched (matching PII_PATTERNS content) else []) @
           map CustomMatched (filter (\<lambda>pat. custom pat content) (dl_block_patterns d)))"

section \<open>Metrics\<close>

record gw_metrics =
  gm_total_requests :: int
  gm_total_tokens :: rat
  gm_total_cost :: rat
  gm_cache_hits :: int
  gm_cache_misses :: int
  gm_rate_limited :: int
  gm_fallbacks_used :: int
  gm_dlp_blocks :: int
  gm_errors :: int
  gm_by_provider :: "string \<Rightarrow> int"
  gm_by_model :: "string \<Rightarrow> int"
  gm_recent :: "rat list"

definition record_request :: "rat \<Rightarrow> string \<Rightarrow> string \<Rightarrow> rat \<Rightarrow> rat \<Rightarrow> gw_metrics \<Rightarrow> gw_metrics" where
  "record_request now provider model tokens cost m =
     m\<lparr>gm_total_requests := gm_total_requests m + 1, gm_total_tokens := gm_total_tokens m + tokens,
       gm_total_cost := gm_total_cost m + cost,
       gm_by_provider := (gm_by_provider m)(provider := gm_by_provider m provider + 1),
       gm_by_model := (gm_by_model m)(model := gm_by_model m model + 1),
       gm_recent := filter (\<lambda>t. now - t < 60) (gm_recent m @ [now])\<rparr>"

definition record_cache_hit :: "gw_metrics \<Rightarrow> gw_metrics" where
  "record_cache_hit m = m\<lparr>gm_cache_hits := gm_cache_hits m + 1\<rparr>"

definition record_cache_miss :: "gw_metrics \<Rightarrow> gw_metrics" where
  "record_cache_miss m = m\<lparr>gm_cache_misses := gm_cache_misses m + 1\<rparr>"

definition record_rate_limited :: "gw_metrics \<Rightarrow> gw_metrics" where
  "record_rate_limited m = m\<lparr>gm_rate_limited := gm_rate_limited m + 1\<rparr>"

definition record_fallback :: "gw_metrics \<Rightarrow> gw_metrics" where
  "record_fallback m = m\<lparr>gm_fallbacks_used := gm_fallbacks_used m + 1\<rparr>"

definition record_dlp_block :: "gw_metrics \<Rightarrow> gw_metrics" where
  "record_dlp_block m = m\<lparr>gm_dlp_blocks := gm_dlp_blocks m + 1\<rparr>"

definition record_error :: "gw_metrics \<Rightarrow> gw_metrics" where
  "record_error m = m\<lparr>gm_errors := gm_errors m + 1\<rparr>"

definition requests_in_last_minute :: "rat \<Rightarrow> gw_metrics \<Rightarrow> int" where
  "requests_in_last_minute now m = int (length (filter (\<lambda>t. now - t < 60) (gm_recent m)))"

section \<open>Spend stays inside the budgets\<close>

definition within_budget :: "spend_limit \<Rightarrow> bool" where
  "within_budget s \<longleftrightarrow> sl_spent_today s \<le> sl_daily_budget s \<and>
     (\<forall>a b. sl_per_agent_budget s a = Some b \<longrightarrow>
        (case sl_spent_per_agent s a of Some c \<Rightarrow> c | None \<Rightarrow> 0) \<le> b)"

definition budgets_nonneg :: "spend_limit \<Rightarrow> bool" where
  "budgets_nonneg s \<longleftrightarrow> sl_daily_budget s \<ge> 0 \<and> (\<forall>a b. sl_per_agent_budget s a = Some b \<longrightarrow> b \<ge> 0)"

lemma spend_check_frame [simp]:
  "sl_daily_budget (snd (spend_check now est agent s)) = sl_daily_budget s"
  "sl_per_agent_budget (snd (spend_check now est agent s)) = sl_per_agent_budget s"
  "sl_enabled (snd (spend_check now est agent s)) = sl_enabled s"
  by (simp_all add: spend_check_def Let_def split: option.split)

lemma spend_record_frame [simp]:
  "sl_daily_budget (spend_record cost agent s) = sl_daily_budget s"
  "sl_per_agent_budget (spend_record cost agent s) = sl_per_agent_budget s"
  "sl_enabled (spend_record cost agent s) = sl_enabled s"
  "sl_spent_today (spend_record cost agent s) = sl_spent_today s + cost"
  by (simp_all add: spend_record_def Let_def)

lemma spend_check_keeps:
  "within_budget s \<Longrightarrow> budgets_nonneg s \<Longrightarrow> within_budget (snd (spend_check now est agent s))"
  by (auto simp: spend_check_def within_budget_def budgets_nonneg_def Let_def split: option.splits)

lemma spend_check_room:
  assumes "spend_check now est agent s = (True, s1)" "sl_enabled s"
  shows "sl_spent_today s1 + est \<le> sl_daily_budget s1"
    "agent \<noteq> [] \<Longrightarrow> sl_per_agent_budget s1 agent = Some b \<Longrightarrow>
      (case sl_spent_per_agent s1 agent of Some c \<Rightarrow> c | None \<Rightarrow> 0) + est \<le> b"
  using assms by (auto simp: spend_check_def Let_def split: if_splits option.splits)

text \<open>One admitted call, and any sequence of calls, that costs no more than estimated.\<close>

definition spend_step :: "rat \<times> rat \<times> rat \<times> string \<Rightarrow> spend_limit \<Rightarrow> spend_limit" where
  "spend_step op s = (case op of (now, est, cost, agent) \<Rightarrow>
     case spend_check now est agent s of (ok, s1) \<Rightarrow> if ok then spend_record cost agent s1 else s1)"

lemma spend_step_within:
  assumes "within_budget s" "budgets_nonneg s" "sl_enabled s" "cost \<le> est"
  shows "within_budget (spend_step (now, est, cost, agent) s)"
proof -
  obtain ok s1 where check: "spend_check now est agent s = (ok, s1)" by fastforce
  have s1: "within_budget s1" using spend_check_keeps [OF assms(1,2), of now est agent] check by simp
  show ?thesis
  proof (cases ok)
    case True
    then have "sl_spent_today s1 + cost \<le> sl_daily_budget s1"
      and "\<And>b. agent \<noteq> [] \<Longrightarrow> sl_per_agent_budget s1 agent = Some b \<Longrightarrow>
        (case sl_spent_per_agent s1 agent of Some c \<Rightarrow> c | None \<Rightarrow> 0) + cost \<le> b"
      using spend_check_room [of now est agent s s1] check assms(3,4) by fastforce+
    then show ?thesis
      using s1 True check by (auto simp: spend_step_def spend_record_def within_budget_def Let_def)
  qed (use s1 check in \<open>simp add: spend_step_def\<close>)
qed

lemma spend_step_frame [simp]:
  "sl_enabled (spend_step op s) = sl_enabled s" "budgets_nonneg (spend_step op s) = budgets_nonneg s"
  using spend_check_frame spend_record_frame
  by (auto simp: spend_step_def budgets_nonneg_def split_beta split: prod.splits)

lemma spend_run_within:
  "within_budget s \<Longrightarrow> budgets_nonneg s \<Longrightarrow> sl_enabled s \<Longrightarrow>
     list_all (\<lambda>(_, est, cost, _). cost \<le> est) ops \<Longrightarrow> within_budget (fold spend_step ops s)"
  by (induction ops arbitrary: s) (auto simp: spend_step_within)

section \<open>The cache returns what was stored, and only while it is fresh\<close>

lemma oldest_None: "oldest es = None \<longleftrightarrow> es = []"
  by (cases es) (auto split: option.splits if_splits)

lemma oldest_in: "oldest es = Some (k, e) \<Longrightarrow> \<exists>v. (k, e, v) \<in> set es"
proof (induction es arbitrary: k e)
  case (Cons x es)
  obtain k' e' v where "x = (k', e', v)" by (cases x)
  then show ?case using Cons by (auto split: option.splits if_splits)
qed simp

lemma cache_set_ok:
  assumes "cc_max_entries c > 0"
  shows "\<exists>c'. cache_set ok now key value c = Inr c'"
  using assms oldest_None [of "cc_store c"] by (auto simp: cache_set_def split: option.split)

lemma cache_set_shape:
  assumes "cache_set ok now key value c = Inr c'"
  obtains store where "c' = c\<lparr>cc_store := dict_set key (now + cc_ttl c, value) store,
      cc_files := (if cc_persist c \<and> ok then (cc_files c)(key \<mapsto> Entry (now + cc_ttl c) value) else cc_files c)\<rparr>"
    "(int (length (cc_store c)) \<ge> cc_max_entries c \<and> (\<exists>k e. oldest (cc_store c) = Some (k, e) \<and> store = dict_del k (cc_store c))) \<or>
      (int (length (cc_store c)) < cc_max_entries c \<and> store = cc_store c)"
  using assms
  by (cases "int (length (cc_store c)) \<ge> cc_max_entries c"; cases "oldest (cc_store c)")
    (auto simp: cache_set_def Let_def)

lemma cache_get_set:
  assumes "cache_set ok now key value c = Inr c'" "now' < now + cc_ttl c"
  shows "fst (cache_get ok' now' key c') = Some value"
proof -
  obtain store where "c' = c\<lparr>cc_store := dict_set key (now + cc_ttl c, value) store,
      cc_files := (if cc_persist c \<and> ok then (cc_files c)(key \<mapsto> Entry (now + cc_ttl c) value) else cc_files c)\<rparr>"
    using cache_set_shape [OF assms(1)] by metis
  then show ?thesis using assms(2) by (simp add: cache_get_def)
qed

text \<open>A persisted entry survives a restart, which empties the in-memory store.\<close>

lemma cache_get_restart:
  assumes "cache_set True now key value c = Inr c'" "now' < now + cc_ttl c" "cc_persist c"
  shows "fst (cache_get True now' key (c'\<lparr>cc_store := []\<rparr>)) = Some value"
proof -
  obtain store where "c' = c\<lparr>cc_store := dict_set key (now + cc_ttl c, value) store,
      cc_files := (if cc_persist c \<and> True then (cc_files c)(key \<mapsto> Entry (now + cc_ttl c) value) else cc_files c)\<rparr>"
    using cache_set_shape [OF assms(1)] by metis
  then show ?thesis using assms(2,3) by (simp add: cache_get_def)
qed

lemma cache_get_fresh:
  assumes "fst (cache_get ok now key c) = Some value"
  shows "\<exists>expires > now. map_of (cc_store c) key = Some (expires, value) \<or> cc_files c key = Some (Entry expires value)"
  using assms by (auto simp: cache_get_def Let_def split: option.splits if_splits cache_file.splits)

lemma cache_set_other:
  assumes "cache_set ok now key value c = Inr c'" "k \<noteq> key" "map_of (cc_store c') k = Some v"
  shows "map_of (cc_store c) k = Some v"
  by (rule cache_set_shape [OF assms(1)]) (use assms(2,3) in \<open>auto simp: split: if_splits\<close>)

lemma cache_set_size:
  assumes "cache_set ok now key value c = Inr c'"
  shows "int (length (cc_store c')) \<le> max (int (length (cc_store c))) (cc_max_entries c)"
proof (rule cache_set_shape [OF assms])
  fix store
  assume c': "c' = c\<lparr>cc_store := dict_set key (now + cc_ttl c, value) store,
      cc_files := (if cc_persist c \<and> ok then (cc_files c)(key \<mapsto> Entry (now + cc_ttl c) value) else cc_files c)\<rparr>"
    and "(int (length (cc_store c)) \<ge> cc_max_entries c \<and> (\<exists>k e. oldest (cc_store c) = Some (k, e) \<and> store = dict_del k (cc_store c))) \<or>
      (int (length (cc_store c)) < cc_max_entries c \<and> store = cc_store c)"
  moreover have "length (dict_del k (cc_store c)) < length (cc_store c)" if "oldest (cc_store c) = Some (k, e)" for k e
    using oldest_in [OF that] by (intro dict_del_shorter) force
  ultimately show ?thesis by (auto simp: dict_set_length)
qed

lemma cache_get_size: "\<not> cc_persist c \<Longrightarrow> length (cc_store (snd (cache_get ok now key c))) \<le> length (cc_store c)"
  by (auto simp: cache_get_def Let_def dict_del_def split: option.split)

text \<open>
  Two things the eviction does not do: overwriting a key of a full cache evicts another entry
  although no room is needed, and an entry read back from disk is added without any eviction.
\<close>

definition tiny_cache :: cache where
  "tiny_cache = \<lparr>cc_enabled = True, cc_ttl = 10, cc_max_entries = 2, cc_persist = True,
     cc_store = [(''a'', 5, ''A''), (''b'', 9, ''B'')], cc_files = [''c'' \<mapsto> Entry 20 ''C'']\<rparr>"

lemma overwrite_evicts:
  "map_sum id (\<lambda>c. map fst (cc_store c)) (cache_set True 1 ''b'' ''B2'' tiny_cache) = Inr [''b'']"
  by (simp add: cache_set_def tiny_cache_def Let_def dict_del_def)

lemma warm_load_overflows:
  "length (cc_store (snd (cache_get True 1 ''c'' tiny_cache))) = 3 \<and> cc_max_entries tiny_cache = 2"
  by (simp add: cache_get_def tiny_cache_def Let_def)

text \<open>The first matching key decides, so a longer name behind its own prefix is never reached.\<close>

lemma mini_priced_as_full: "rate_of ''gpt-4o-mini'' = (25/10000, 1/100) \<and> (''gpt-4o-mini'', 15/100000, 6/10000) \<in> set COST_RATES"
  by (simp add: rate_of_def COST_RATES_def)

section \<open>The scan finds what it is for\<close>

lemma star_ends_nonempty: "re_ends (Star g r) st \<noteq> []"
  by (simp add: re_ends.simps(5) Let_def)

lemma rep_ends_nonempty:
  "length w = n \<Longrightarrow> list_all P w \<Longrightarrow> re_ends (rep n (Chr P)) (pre, w @ rest, caps) \<noteq> []"
  by (induction n arbitrary: w pre) (auto simp: length_Suc_conv)

lemma secret_key_found:
  assumes "length w = 12" "list_all (\<lambda>c. alnum c) w"
  shows "re_test (SECRET_PATTERNS ! 2) (a @ ''sk-'' @ w @ b)"
proof -
  have sk: "re_ends (liti ''sk-'') (rev a, ''sk-'' @ w @ b, []) = [(rev ''sk-'' @ rev a, w @ b, [])]"
    by (simp add: liti_def)
  obtain st where "st \<in> set (re_ends (rep 12 (Chr alnum)) (rev ''sk-'' @ rev a, w @ b, []))"
    using rep_ends_nonempty [OF assms, of "rev ''sk-'' @ rev a" b "[]"] by (meson list.set_sel(1))
  then have "re_ends (at_least 12 (Chr alnum)) (rev ''sk-'' @ rev a, w @ b, []) \<noteq> []"
    using star_ends_nonempty [of True "Chr alnum" st] by (auto simp: re_ends.simps(3))
  then have "re_ends (SECRET_PATTERNS ! 2) (rev a, ''sk-'' @ w @ b, []) \<noteq> []"
    using sk by (simp add: SECRET_PATTERNS_def)
  then show ?thesis unfolding re_test_iff by (intro exI [of _ a] exI [of _ "''sk-'' @ w @ b"]) simp
qed

lemma matching_empty: "matching pats content = [] \<longleftrightarrow> (\<forall>r \<in> set pats. \<not> re_test r content)"
  by (auto simp: matching_def filter_empty_conv in_set_conv_nth) (metis nth_mem)

lemma dlp_scan_empty:
  "dlp_scan custom d content = [] \<longleftrightarrow>
     \<not> dl_enabled d \<or>
     ((dl_block_secrets d \<longrightarrow> (\<forall>r \<in> set SECRET_PATTERNS. \<not> re_test r content)) \<and>
      (dl_block_pii d \<longrightarrow> (\<forall>r \<in> set PII_PATTERNS. \<not> re_test r content)) \<and>
      (\<forall>pat \<in> set (dl_block_patterns d). \<not> custom pat content))"
  by (auto simp: dlp_scan_def matching_empty filter_empty_conv)

end
