(* ===== verification/Provider_Health.thy ===== *)
theory Provider_Health
  imports Complex_Main Py_Regex
begin

text \<open>
  \<^verbatim>\<open>src/voly/ai_gateway/health.py\<close> and \<^verbatim>\<open>credentials.py\<close>: which providers may be called.  The
  checker's two dictionaries are maps; the environment variables, the monotonic clock and
  \<^verbatim>\<open>float(text)\<close> are arguments.  The clock is read once for a call: the readings inside one call
  of \<^verbatim>\<open>check\<close> are taken to be equal.
\<close>

record health_env =
  he_getenv :: "string \<Rightarrow> string"
  he_now :: rat
  he_float :: "string \<Rightarrow> rat option"

record provider_status =
  ps_name :: string
  ps_healthy :: bool
  ps_reason :: string
  ps_checked_at :: rat

record health =
  hc_cache :: "string \<rightharpoonup> provider_status"
  hc_excluded :: "string \<rightharpoonup> rat"
  hc_byok_enabled :: "bool option"
  hc_byok_providers :: "string list"

definition new_health :: health where
  "new_health = \<lparr>hc_cache = Map.empty, hc_excluded = Map.empty, hc_byok_enabled = None, hc_byok_providers = []\<rparr>"

section \<open>Credentials\<close>

definition BYOK_PROVIDER_SLUGS :: "(string \<times> string) list" where
  "BYOK_PROVIDER_SLUGS =
     [(''anthropic'', ''anthropic''), (''openai'', ''openai''), (''google'', ''google-ai-studio''),
      (''google-ai-studio'', ''google-ai-studio''), (''deepseek'', ''deepseek'')]"

definition byok_provider_slug :: "string \<Rightarrow> string list \<Rightarrow> string" where
  "byok_provider_slug provider_name byok_providers =
     (case map_of BYOK_PROVIDER_SLUGS provider_name of
        None \<Rightarrow> []
      | Some slug \<Rightarrow>
          if byok_providers \<noteq> [] \<and> provider_name \<notin> set byok_providers \<and> slug \<notin> set byok_providers
          then [] else slug)"

definition ANTHROPIC_MINOR_VERSION :: regex where
  "ANTHROPIC_MINOR_VERSION = cats
     [Bos, Group 1 (cats [lit ''claude-'', plus (Chr (\<lambda>c. is_digit c \<or> (is_alpha c \<and> lower_char c = c))),
        lit ''-'', digits]), lit ''-'', Group 2 (Chr is_digit), Eos]"

definition gateway_model :: "string \<Rightarrow> string \<Rightarrow> string" where
  "gateway_model provider_slug model =
     (if provider_slug = ''anthropic'' then
        (case match_at ANTHROPIC_MINOR_VERSION [] model of
           Some (_, _, caps) \<Rightarrow> group caps 1 @ ''.'' @ group caps 2
         | None \<Rightarrow> model)
      else model)"

definition byok_active :: "health_env \<Rightarrow> bool \<Rightarrow> string \<Rightarrow> string \<Rightarrow> bool" where
  "byok_active E byok_enabled account_id api_token =
     (if \<not> byok_enabled then False
      else str_or account_id (he_getenv E ''CLOUDFLARE_ACCOUNT_ID'') \<noteq> [] \<and>
        str_or (he_getenv E ''CF_AIG_TOKEN'') (str_or api_token (he_getenv E ''CLOUDFLARE_API_TOKEN'')) \<noteq> [])"

section \<open>The checker\<close>

definition TTL :: rat where "TTL = 60"

definition RUNTIME_EXCLUDED :: string where "RUNTIME_EXCLUDED = ''runtime excluded''"

definition runtime_exclude_ttl :: "health_env \<Rightarrow> rat" where
  "runtime_exclude_ttl E =
     (let raw = strip (he_getenv E ''VOLY_PROVIDER_EXCLUDE_TTL'')
      in if raw \<noteq> [] then (case he_float E raw of Some r \<Rightarrow> r | None \<Rightarrow> 900) else 900)"

definition status_expired :: "health_env \<Rightarrow> provider_status \<Rightarrow> bool" where
  "status_expired E st \<longleftrightarrow> he_now E - ps_checked_at st > TTL"

definition PROVIDER_PRIORITY :: "string list" where
  "PROVIDER_PRIORITY =
     [''anthropic'', ''workers-ai'', ''deepseek'', ''opencode-zen'', ''mimo'', ''google'',
      ''opencode'', ''openai'']"

definition PROVIDER_KEYS :: "(string \<times> string list) list" where
  "PROVIDER_KEYS =
     [(''anthropic'', [''ANTHROPIC_API_KEY'']), (''openai'', [''OPENAI_API_KEY'']),
      (''google'', [''GOOGLE_API_KEY'']), (''deepseek'', [''DEEPSEEK_API_KEY'']),
      (''opencode'', [''OPENCODE_API_KEY'']), (''opencode-zen'', [''OPENCODE_API_KEY'']),
      (''mimo'', [''MIMO_API_KEY'']), (''mimo-anthropic'', [''MIMO_API_KEY'']),
      (''workers-ai'', [''CLOUDFLARE_API_TOKEN'']),
      (''cloudflare-dynamic'', [''CLOUDFLARE_API_TOKEN'', ''CLOUDFLARE_ACCOUNT_ID''])]"

definition byok_env_default :: "health_env \<Rightarrow> bool" where
  "byok_env_default E \<longleftrightarrow> lower (strip (he_getenv E ''VOLY_BYOK'')) \<in> {''1'', ''true'', ''yes'', ''on''}"

definition mark_unhealthy :: "health_env \<Rightarrow> health \<Rightarrow> string \<Rightarrow> string \<Rightarrow> health" where
  "mark_unhealthy E h provider0 reason =
     (let provider = strip provider0
      in if provider = [] then h
         else h\<lparr>hc_excluded := (hc_excluded h)(provider \<mapsto> he_now E),
                hc_cache := (hc_cache h)(provider \<mapsto>
                  \<lparr>ps_name = provider, ps_healthy = False, ps_reason = str_or reason RUNTIME_EXCLUDED,
                   ps_checked_at = he_now E\<rparr>)\<rparr>)"

definition configure_byok :: "health \<Rightarrow> bool \<Rightarrow> string list \<Rightarrow> health" where
  "configure_byok h enabled providers =
     h\<lparr>hc_byok_enabled := Some enabled, hc_byok_providers := providers, hc_cache := Map.empty\<rparr>"

definition byok_healthy :: "health_env \<Rightarrow> health \<Rightarrow> string \<Rightarrow> bool" where
  "byok_healthy E h provider =
     (let enabled = (case hc_byok_enabled h of Some b \<Rightarrow> b | None \<Rightarrow> byok_env_default E)
      in if \<not> enabled then False
         else if byok_provider_slug provider (hc_byok_providers h) = [] then False
         else strip (he_getenv E ''CLOUDFLARE_ACCOUNT_ID'') \<noteq> [] \<and>
           str_or (strip (he_getenv E ''CF_AIG_TOKEN'')) (strip (he_getenv E ''CLOUDFLARE_API_TOKEN'')) \<noteq> [])"

text \<open>The part of \<^verbatim>\<open>check\<close> after the caches: what the configuration says of a provider.\<close>

definition configured_status :: "health_env \<Rightarrow> health \<Rightarrow> string \<Rightarrow> provider_status" where
  "configured_status E h provider =
     (if byok_healthy E h provider
      then \<lparr>ps_name = provider, ps_healthy = True, ps_reason = ''byok: key stored in CF gateway'', ps_checked_at = he_now E\<rparr>
      else case map_of PROVIDER_KEYS provider of
        None \<Rightarrow> \<lparr>ps_name = provider, ps_healthy = True, ps_reason = ''no key required'', ps_checked_at = he_now E\<rparr>
      | Some keys \<Rightarrow>
          (let missing = filter (\<lambda>k. strip (he_getenv E k) = []) keys
           in if missing \<noteq> []
              then \<lparr>ps_name = provider, ps_healthy = False, ps_reason = ''missing env: '' @ join '', '' missing,
                    ps_checked_at = he_now E\<rparr>
              else \<lparr>ps_name = provider, ps_healthy = True, ps_reason = ''key present'', ps_checked_at = he_now E\<rparr>))"

definition still_excluded :: "health_env \<Rightarrow> health \<Rightarrow> string \<Rightarrow> bool" where
  "still_excluded E h provider = (case hc_excluded h provider of
     None \<Rightarrow> False
   | Some t0 \<Rightarrow> \<not> (runtime_exclude_ttl E > 0 \<and> he_now E - t0 > runtime_exclude_ttl E))"

definition check :: "health_env \<Rightarrow> health \<Rightarrow> string \<Rightarrow> provider_status \<times> health" where
  "check E h provider =
     (if still_excluded E h provider
      then (\<lparr>ps_name = provider, ps_healthy = False,
             ps_reason = (case hc_cache h provider of Some c \<Rightarrow> ps_reason c | None \<Rightarrow> RUNTIME_EXCLUDED),
             ps_checked_at = he_now E\<rparr>, h)
      else let h1 = (if hc_excluded h provider = None then h
                     else h\<lparr>hc_excluded := (hc_excluded h)(provider := None),
                            hc_cache := (hc_cache h)(provider := None)\<rparr>)
           in case hc_cache h1 provider of
                Some c \<Rightarrow>
                  if \<not> status_expired E c then (c, h1)
                  else (configured_status E h1 provider,
                        h1\<lparr>hc_cache := (hc_cache h1)(provider \<mapsto> configured_status E h1 provider)\<rparr>)
              | None \<Rightarrow>
                  (configured_status E h1 provider,
                   h1\<lparr>hc_cache := (hc_cache h1)(provider \<mapsto> configured_status E h1 provider)\<rparr>))"

section \<open>Choosing a provider\<close>

text \<open>The loops over \<^verbatim>\<open>check\<close>: all healthy ones, and the first healthy one.\<close>

fun keep_healthy :: "('h \<Rightarrow> string \<Rightarrow> provider_status \<times> 'h) \<Rightarrow> 'h \<Rightarrow> string list \<Rightarrow> string list \<times> 'h" where
  "keep_healthy chk h [] = ([], h)"
| "keep_healthy chk h (p # ps) =
     (case chk h p of (st, h1) \<Rightarrow> case keep_healthy chk h1 ps of (qs, h2) \<Rightarrow>
        (if ps_healthy st then p # qs else qs, h2))"

fun first_healthy :: "('h \<Rightarrow> string \<Rightarrow> provider_status \<times> 'h) \<Rightarrow> 'h \<Rightarrow> string list \<Rightarrow> string option \<times> 'h" where
  "first_healthy chk h [] = (None, h)"
| "first_healthy chk h (p # ps) =
     (case chk h p of (st, h1) \<Rightarrow> if ps_healthy st then (Some p, h1) else first_healthy chk h1 ps)"

definition healthy_providers :: "health_env \<Rightarrow> health \<Rightarrow> string list option \<Rightarrow> string list \<times> health" where
  "healthy_providers E h candidates =
     keep_healthy (check E) h (case candidates of Some cs \<Rightarrow> cs | None \<Rightarrow> PROVIDER_PRIORITY)"

definition best_provider ::
  "health_env \<Rightarrow> health \<Rightarrow> string \<Rightarrow> string list option \<Rightarrow> (string \<times> bool) \<times> health" where
  "best_provider E h preferred candidates =
     (case check E h preferred of (st, h1) \<Rightarrow>
        if ps_healthy st then ((preferred, False), h1)
        else case first_healthy (check E) h1
                    (filter (\<lambda>p. p \<noteq> preferred) (case candidates of Some cs \<Rightarrow> cs | None \<Rightarrow> PROVIDER_PRIORITY)) of
               (Some p, h2) \<Rightarrow> ((p, True), h2)
             | (None, h2) \<Rightarrow> ((preferred, False), h2))"

fun status_rows ::
  "('h \<Rightarrow> string \<Rightarrow> provider_status \<times> 'h) \<Rightarrow> 'h \<Rightarrow> string list \<Rightarrow> (string \<times> bool \<times> string) list \<times> 'h" where
  "status_rows chk h [] = ([], h)"
| "status_rows chk h (p # ps) =
     (case chk h p of (st1, h1) \<Rightarrow> case chk h1 p of (st2, h2) \<Rightarrow> case status_rows chk h2 ps of (rows, h3) \<Rightarrow>
        ((p, ps_healthy st1, ps_reason st2) # rows, h3))"

definition status_all :: "health_env \<Rightarrow> health \<Rightarrow> (string \<times> bool \<times> string) list \<times> health" where
  "status_all E h = status_rows (check E) h PROVIDER_PRIORITY"

section \<open>The interface\<close>

text \<open>
  What the callers of the checker rely on: asking about one provider does not change the answer
  for any, so a loop of checks sees one consistent picture.
\<close>

locale health_view =
  fixes chk :: "'e \<Rightarrow> 'h \<Rightarrow> string \<Rightarrow> provider_status \<times> 'h"
  assumes stable: "fst (chk E (snd (chk E h p)) q) = fst (chk E h q)"
begin

lemma keep_healthy_eq: "fst (keep_healthy (chk E) h ps) = filter (\<lambda>p. ps_healthy (fst (chk E h p))) ps"
proof (induction ps arbitrary: h)
  case (Cons p ps)
  then show ?case using stable [of E h p] by (simp add: split_beta cong: filter_cong)
qed simp

lemma first_healthy_eq: "fst (first_healthy (chk E) h ps) = find (\<lambda>p. ps_healthy (fst (chk E h p))) ps"
proof (induction ps arbitrary: h)
  case (Cons p ps)
  then show ?case using stable [of E h p] by (simp add: split_beta)
qed simp

lemma keep_healthy_view: "fst (chk E (snd (keep_healthy (chk E) h ps)) q) = fst (chk E h q)"
  by (induction ps arbitrary: h) (simp_all add: split_beta stable)

lemma first_healthy_view: "fst (chk E (snd (first_healthy (chk E) h ps)) q) = fst (chk E h q)"
  by (induction ps arbitrary: h) (simp_all add: split_beta stable)

lemma status_rows_eq:
  "fst (status_rows (chk E) h ps) = map (\<lambda>p. (p, ps_healthy (fst (chk E h p)), ps_reason (fst (chk E h p)))) ps"
proof (induction ps arbitrary: h)
  case (Cons p ps)
  then show ?case using stable [of E h p] stable [of E "snd (chk E h p)" p] by (simp add: split_beta)
qed simp

end

lemma check_other: "q \<noteq> p \<Longrightarrow>
    hc_cache (snd (check E h p)) q = hc_cache h q \<and> hc_excluded (snd (check E h p)) q = hc_excluded h q"
  by (auto simp: check_def Let_def split: option.splits)

lemma check_byok [simp]:
  "hc_byok_enabled (snd (check E h p)) = hc_byok_enabled h"
  "hc_byok_providers (snd (check E h p)) = hc_byok_providers h"
  by (auto simp: check_def Let_def split: option.splits)

lemma configured_status_cong:
  "hc_byok_enabled h = hc_byok_enabled h' \<Longrightarrow> hc_byok_providers h = hc_byok_providers h' \<Longrightarrow>
     configured_status E h p = configured_status E h' p"
  by (simp add: configured_status_def byok_healthy_def)

lemma configured_now [simp]: "ps_checked_at (configured_status E h p) = he_now E"
  by (simp add: configured_status_def Let_def split: option.split)

text \<open>What \<^verbatim>\<open>check\<close> answers, as a function of the provider's own entries.\<close>

lemma check_answer: "fst (check E h p) =
    (if still_excluded E h p
     then \<lparr>ps_name = p, ps_healthy = False,
           ps_reason = (case hc_cache h p of Some c \<Rightarrow> ps_reason c | None \<Rightarrow> RUNTIME_EXCLUDED),
           ps_checked_at = he_now E\<rparr>
     else case (if hc_excluded h p = None then hc_cache h p else None) of
       Some c \<Rightarrow> if \<not> status_expired E c then c else configured_status E h p
     | None \<Rightarrow> configured_status E h p)"
proof -
  have "configured_status E (h\<lparr>hc_excluded := a, hc_cache := b\<rparr>) p = configured_status E h p" for a b
    by (rule configured_status_cong) simp_all
  then show ?thesis by (auto simp: check_def Let_def split: option.split)
qed

lemma check_same_answer:
  assumes "hc_cache h p = hc_cache h' p" "hc_excluded h p = hc_excluded h' p"
    and "hc_byok_enabled h = hc_byok_enabled h'" "hc_byok_providers h = hc_byok_providers h'"
  shows "fst (check E h p) = fst (check E h' p)"
  unfolding check_answer still_excluded_def assms(1,2) configured_status_cong [OF assms(3,4)] ..

lemma check_stores:
  assumes "\<not> still_excluded E h p"
  shows "hc_excluded (snd (check E h p)) p = None \<and> hc_cache (snd (check E h p)) p = Some (fst (check E h p)) \<and>
    \<not> status_expired E (fst (check E h p))"
  using assms by (cases "hc_excluded h p"; cases "hc_cache h p") (simp_all add: check_def Let_def status_expired_def TTL_def)

lemma check_again: "fst (check E (snd (check E h p)) p) = fst (check E h p)"
proof (cases "still_excluded E h p")
  case False
  then show ?thesis
    using check_stores [OF False] by (simp add: check_answer [of E "snd (check E h p)"] still_excluded_def)
qed (simp add: check_def)

interpretation health: health_view check
proof
  fix E h p q
  show "fst (check E (snd (check E h p)) q) = fst (check E h q)"
  proof (cases "q = p")
    case False
    then show ?thesis using check_other [OF False, of E h] by (intro check_same_answer) simp_all
  qed (simp add: check_again)
qed

abbreviation healthy_at :: "health_env \<Rightarrow> health \<Rightarrow> string \<Rightarrow> bool" where
  "healthy_at E h p \<equiv> ps_healthy (fst (check E h p))"

lemma best_provider_result:
  "fst (best_provider E h preferred candidates) =
     (let pool = (case candidates of Some cs \<Rightarrow> cs | None \<Rightarrow> PROVIDER_PRIORITY)
      in if healthy_at E h preferred then (preferred, False)
         else case find (\<lambda>p. p \<noteq> preferred \<and> healthy_at E h p) pool of
           Some p \<Rightarrow> (p, True) | None \<Rightarrow> (preferred, False))"
proof -
  have find_filter: "find P (filter Q xs) = find (\<lambda>x. Q x \<and> P x) xs" for P Q and xs :: "string list"
    by (induction xs) auto
  let ?pool = "case candidates of Some cs \<Rightarrow> cs | None \<Rightarrow> PROVIDER_PRIORITY"
  have "fst (first_healthy (check E) (snd (check E h preferred)) (filter (\<lambda>p. p \<noteq> preferred) ?pool)) =
      find (\<lambda>p. p \<noteq> preferred \<and> healthy_at E h p) ?pool"
    unfolding health.first_healthy_eq health.stable find_filter ..
  then show ?thesis
    by (simp add: best_provider_def Let_def split_beta split: option.split prod.split)
qed

text \<open>An exclusion holds for the whole time-to-live, and then the configuration decides again.\<close>

lemma marked_excluded:
  assumes "strip p \<noteq> []" "runtime_exclude_ttl E' \<le> 0 \<or> he_now E' - he_now E \<le> runtime_exclude_ttl E'"
  shows "\<not> healthy_at E' (mark_unhealthy E h p reason) (strip p)"
    "ps_reason (fst (check E' (mark_unhealthy E h p reason) (strip p))) = str_or reason RUNTIME_EXCLUDED"
  using assms by (auto simp: check_answer still_excluded_def mark_unhealthy_def Let_def)

lemma marked_expires:
  assumes "strip p \<noteq> []" "runtime_exclude_ttl E' > 0" "he_now E' - he_now E > runtime_exclude_ttl E'"
  shows "fst (check E' (mark_unhealthy E h p reason) (strip p)) = configured_status E' h (strip p)"
proof -
  have "configured_status E' (mark_unhealthy E h p reason) (strip p) = configured_status E' h (strip p)"
    by (rule configured_status_cong) (simp_all add: mark_unhealthy_def Let_def)
  then show ?thesis using assms by (auto simp: check_answer still_excluded_def mark_unhealthy_def Let_def)
qed

lemma mark_others: "q \<noteq> strip p \<Longrightarrow> fst (check E' (mark_unhealthy E h p reason) q) = fst (check E' h q)"
  by (rule check_same_answer) (simp_all add: mark_unhealthy_def Let_def)

end
