(* ===== verification/Gateway.thy ===== *)
theory Gateway
  imports Gateway_Models Provider_Health
begin

text \<open>
  \<^verbatim>\<open>AIGateway.chat\<close> of \<^verbatim>\<open>src/voly/ai_gateway/gateway.py\<close> and what it calls: the admission checks, the
  routed, delegated and direct paths with their fallback chains, the settlement of a call.  The
  provider adapters (HTTP), the clocks, \<^verbatim>\<open>json.loads\<close>, \<^verbatim>\<open>json.dumps\<close> of a result and the hash that
  makes a cache key are an environment; an observation is taken at the gateway's tick, which every
  observation advances.  A result dictionary is its list of entries in insertion order.
\<close>

type_synonym dict = "(string \<times> json) list"

section \<open>State\<close>

record request =
  rq_text :: string
  rq_model :: string
  rq_provider :: string
  rq_system :: string
  rq_agent :: string
  rq_extra :: string
  rq_scope :: string
  rq_reroute :: bool
  rq_options :: json

record fallback_spec =
  fs_provider :: "string option"
  fs_model :: "string option"

record gw_cfg =
  gc_enabled :: bool
  gc_account_id :: string
  gc_upstream :: string
  gc_upstream_model :: string
  gc_upstream_fallback_direct :: bool
  gc_cache_scope :: string
  gc_rate_limit :: rate_limit
  gc_fallback_enabled :: bool
  gc_fallback_chain :: "fallback_spec list"
  gc_fallback_retries :: int
  gc_dlp :: dlp_config

text \<open>An adapter raises with a message (\<^verbatim>\<open>str(exc)\<close>) or returns a result dictionary.\<close>

record gw_env =
  ge_direct :: "nat \<Rightarrow> request \<Rightarrow> string \<Rightarrow> string \<Rightarrow> string + dict"
  ge_single :: "nat \<Rightarrow> request \<Rightarrow> string \<Rightarrow> string \<Rightarrow> string + dict"
  ge_now :: "nat \<Rightarrow> rat"
  ge_health :: "nat \<Rightarrow> health_env"
  ge_disk :: "nat \<Rightarrow> bool"
  ge_key :: "request \<Rightarrow> string \<Rightarrow> string \<Rightarrow> string \<Rightarrow> string"
  ge_loads :: "string \<Rightarrow> py_exn + json"
  ge_dumps :: "json \<Rightarrow> string"
  ge_custom :: "string \<Rightarrow> string \<Rightarrow> bool"
  ge_show :: "violation list \<Rightarrow> string"
  ge_builtins :: py_builtins

text \<open>\<open>gw_calls\<close> logs the provider calls made, newest last; no decision reads it.\<close>

record gw =
  gw_cache :: cache
  gw_spend :: spend_limit
  gw_metrics :: gw_metrics
  gw_health :: health
  gw_tick :: nat
  gw_calls :: "(string \<times> string) list"

definition CF_PROVIDERS :: "string list" where
  "CF_PROVIDERS = [''anthropic'', ''openai'', ''google-ai-studio'', ''deepseek'']"

text \<open>\<^verbatim>\<open>_PROVIDER_MODELS\<close> of \<^verbatim>\<open>src/voly/router.py\<close>: provider to default model and provider name.\<close>

definition PROVIDER_MODELS :: "(string \<times> string \<times> string) list" where
  "PROVIDER_MODELS =
     [(''anthropic'', ''claude-sonnet-4-6'', ''anthropic''), (''openai'', ''gpt-4o'', ''openai''),
      (''google'', ''gemini-2.5-pro'', ''google''), (''deepseek'', ''deepseek-chat'', ''deepseek''),
      (''opencode-zen'', ''big-pickle'', ''opencode-zen''), (''mimo'', ''mimo-v2.5-free'', ''mimo''),
      (''opencode'', ''deepseek-v4-flash'', ''opencode''),
      (''workers-ai'', ''@cf/meta/llama-4-scout-17b-16e-instruct'', ''workers-ai''),
      (''cloudflare-dynamic'', ''dynamic/ai_route'', ''cloudflare-dynamic''),
      (''omniroute'', ''auto'', ''omniroute'')]"

definition cloudflare_enabled :: "gw_cfg \<Rightarrow> bool" where
  "cloudflare_enabled C \<longleftrightarrow> gc_enabled C \<and> gc_account_id C \<noteq> []"

definition tick :: "gw \<Rightarrow> gw" where "tick g = g\<lparr>gw_tick := gw_tick g + 1\<rparr>"

definition on_metrics :: "(gw_metrics \<Rightarrow> gw_metrics) \<Rightarrow> gw \<Rightarrow> gw" where
  "on_metrics f g = g\<lparr>gw_metrics := f (gw_metrics g)\<rparr>"

definition health_check :: "gw_env \<Rightarrow> string \<Rightarrow> gw \<Rightarrow> provider_status \<times> gw" where
  "health_check E p g = (case check (ge_health E (gw_tick g)) (gw_health g) p of
     (st, h) \<Rightarrow> (st, tick (g\<lparr>gw_health := h\<rparr>)))"

section \<open>Marking a failing provider\<close>

text \<open>\<^verbatim>\<open>exclude_provider_on_gateway_error\<close> of \<^verbatim>\<open>src/voly/a2a/assignment.py\<close>.\<close>

definition RECOVERABLE_PROVIDER_ERRORS :: "string list" where
  "RECOVERABLE_PROVIDER_ERRORS =
     [''unauthorized'', ''quota_exhausted'', ''account_deactivated'', ''oauth_invalid_token'', ''forbidden'']"

definition exclusion_kind :: "py_builtins \<Rightarrow> string \<Rightarrow> string option" where
  "exclusion_kind B error =
     (case classify_provider_error B None (JStr error) of
        Some kind \<Rightarrow> Some kind
      | None \<Rightarrow> (let low = lower error in
          if has_any [''401'', ''unauthorized'', ''invalid x-api-key''] low then Some ''unauthorized''
          else if has_any [''quota'', ''billing'', ''credit''] low then Some ''quota_exhausted''
          else None))"

definition exclude_provider_on_gateway_error ::
  "gw_env \<Rightarrow> string \<Rightarrow> string \<Rightarrow> gw \<Rightarrow> gw" where
  "exclude_provider_on_gateway_error E provider error g =
     (if provider = [] \<or> error = [] then g
      else case exclusion_kind (ge_builtins E) error of
        Some kind \<Rightarrow>
          if kind \<in> set RECOVERABLE_PROVIDER_ERRORS
          then tick (g\<lparr>gw_health := mark_unhealthy (ge_health E (gw_tick g)) (gw_health g) provider
                        (str_or kind ''gateway error'')\<rparr>)
          else g
      | None \<Rightarrow> g)"

definition mark_provider_from_error :: "gw_env \<Rightarrow> string \<Rightarrow> json \<Rightarrow> gw \<Rightarrow> gw" where
  "mark_provider_from_error E provider error g =
     (let text = (if truthy error then py_str (ge_builtins E) error else [])
      in if provider = [] \<or> text = [] then g else exclude_provider_on_gateway_error E provider text g)"

section \<open>Calling a provider\<close>

definition has_error :: "dict \<Rightarrow> bool" where "has_error r = truthy (jget r ''error'')"

definition empty_content_error :: "dict \<Rightarrow> dict option" where
  "empty_content_error result =
     (if has_error result \<or> \<not> is_empty_content_response (JObj result) then None
      else Some [(''error'', JStr ''empty_content: provider returned no usable content''), (''content'', JStr []),
                 (''empty_content'', JBool True), (''stop_reason'', jget_default result ''stop_reason'' (JStr []))])"

definition guard_empty :: "dict \<Rightarrow> dict" where
  "guard_empty r = (case empty_content_error r of Some e \<Rightarrow> e | None \<Rightarrow> r)"

definition log_call :: "string \<Rightarrow> string \<Rightarrow> gw \<Rightarrow> gw" where
  "log_call p m g = tick (g\<lparr>gw_calls := gw_calls g @ [(p, m)]\<rparr>)"

definition single_call :: "gw_env \<Rightarrow> request \<Rightarrow> string \<Rightarrow> string \<Rightarrow> gw \<Rightarrow> (string + dict) \<times> gw" where
  "single_call E rq m p g = (ge_single E (gw_tick g) rq p m, log_call p m g)"

definition direct_call :: "gw_env \<Rightarrow> request \<Rightarrow> string \<Rightarrow> string \<Rightarrow> gw \<Rightarrow> dict \<times> gw" where
  "direct_call E rq m p g = (case ge_direct E (gw_tick g) rq p m of
     Inr r \<Rightarrow> (r, log_call p m g)
   | Inl msg \<Rightarrow> ([(''error'', JStr msg), (''content'', JStr [])], on_metrics record_error (log_call p m g)))"

text \<open>The routed path: the primary model and the chain, at most \<^verbatim>\<open>retries\<close> of them after the first.\<close>

definition probe :: "gw_env \<Rightarrow> string \<Rightarrow> gw \<Rightarrow> bool \<times> gw" where
  "probe E p g = (if p = [] then (True, g) else case health_check E p g of (st, h) \<Rightarrow> (ps_healthy st, h))"

fun try_models ::
  "gw_env \<Rightarrow> gw_cfg \<Rightarrow> request \<Rightarrow> string \<Rightarrow> string \<Rightarrow> int \<Rightarrow> json \<Rightarrow> fallback_spec list \<Rightarrow> gw \<Rightarrow> dict \<times> gw" where
  "try_models E C rq p0 m0 attempt last_error [] g =
     ([(''error'', JStr (''All models failed. Last: '' @ py_str (ge_builtins E) last_error)), (''content'', JStr [])],
      on_metrics record_error g)"
| "try_models E C rq p0 m0 attempt last_error (spec # specs) g =
     (let p = (case fs_provider spec of Some p \<Rightarrow> p | None \<Rightarrow> p0);
          m = (case fs_model spec of Some m \<Rightarrow> m | None \<Rightarrow> m0);
          (healthy, g1) = probe E p g
      in if \<not> healthy
         then try_models E C rq p0 m0 (attempt + 1) (JStr (''provider '' @ p @ '' unhealthy'')) specs g1
         else let g2 = (if attempt > 0 then on_metrics record_fallback g1 else g1)
              in case single_call E rq m p g2 of (out, g3) \<Rightarrow>
                case map_sum id guard_empty out of
                  Inr r \<Rightarrow>
                    if \<not> has_error r
                    then (if attempt > 0
                          then dict_set ''fallback_model'' (JStr m) (dict_set ''fallback_provider'' (JStr p)
                                 (dict_set ''fallback_used'' (JBool True) r))
                          else r, g3)
                    else let err = jget r ''error''; g4 = mark_provider_from_error E p err g3
                         in if attempt \<ge> gc_fallback_retries C then try_models E C rq p0 m0 attempt err [] g4
                            else try_models E C rq p0 m0 (attempt + 1) err specs g4
                | Inl msg \<Rightarrow>
                    let g4 = mark_provider_from_error E p (JStr msg) g3
                    in if attempt \<ge> gc_fallback_retries C then try_models E C rq p0 m0 attempt (JStr msg) [] g4
                       else try_models E C rq p0 m0 (attempt + 1) (JStr msg) specs g4)"

definition gateway_call :: "gw_env \<Rightarrow> gw_cfg \<Rightarrow> request \<Rightarrow> string \<Rightarrow> string \<Rightarrow> gw \<Rightarrow> dict \<times> gw" where
  "gateway_call E C rq model provider g =
     try_models E C rq provider model 0 JNull
       (\<lparr>fs_provider = Some provider, fs_model = Some model\<rparr> # gc_fallback_chain C) g"

text \<open>The direct path's chain: \<^verbatim>\<open>chain[:retries]\<close>, a negative bound counting from the end.\<close>

definition py_take :: "int \<Rightarrow> 'a list \<Rightarrow> 'a list" where
  "py_take n xs = (if n \<ge> 0 then take (nat n) xs else take (length xs - nat (- n)) xs)"

definition fallback_call :: "gw_env \<Rightarrow> gw_cfg \<Rightarrow> request \<Rightarrow> string \<Rightarrow> string \<Rightarrow> gw \<Rightarrow> (string + dict) \<times> gw" where
  "fallback_call E C rq m p g =
     (if cloudflare_enabled C \<and> p \<in> set CF_PROVIDERS then single_call E rq m p g
      else case direct_call E rq m p g of (r, h) \<Rightarrow> (Inr r, h))"

fun try_direct ::
  "gw_env \<Rightarrow> gw_cfg \<Rightarrow> request \<Rightarrow> json \<Rightarrow> json \<Rightarrow> fallback_spec list \<Rightarrow> gw \<Rightarrow> dict \<times> gw" where
  "try_direct E C rq primary_error last_error [] g =
     ([(''error'', JStr (''All fallbacks failed. Last: '' @ py_str (ge_builtins E) last_error)), (''content'', JStr [])],
      on_metrics record_error g)"
| "try_direct E C rq primary_error last_error (spec # specs) g =
     (let g1 = on_metrics record_fallback g;
          p = (case fs_provider spec of Some p \<Rightarrow> p | None \<Rightarrow> []);
          m = (case fs_model spec of Some m \<Rightarrow> m | None \<Rightarrow> [])
      in if p = [] \<or> m = [] then try_direct E C rq primary_error last_error specs g1
         else case health_check E p g1 of (st, g2) \<Rightarrow>
           if \<not> ps_healthy st then try_direct E C rq primary_error last_error specs g2
           else case fallback_call E C rq m p g2 of (out, g3) \<Rightarrow>
             case map_sum id guard_empty out of
               Inr r \<Rightarrow>
                 if \<not> has_error r
                 then (dict_set ''fallback_reason'' primary_error (dict_set ''fallback_model'' (JStr m)
                         (dict_set ''fallback_provider'' (JStr p) (dict_set ''fallback_used'' (JBool True) r))), g3)
                 else try_direct E C rq primary_error (jget r ''error'') specs
                        (mark_provider_from_error E p (jget r ''error'') g3)
             | Inl msg \<Rightarrow>
                 try_direct E C rq primary_error (JStr msg) specs (mark_provider_from_error E p (JStr msg) g3))"

definition direct_fallback :: "gw_env \<Rightarrow> gw_cfg \<Rightarrow> request \<Rightarrow> dict \<Rightarrow> gw \<Rightarrow> dict \<times> gw" where
  "direct_fallback E C rq primary g =
     (let primary_error = jget_default primary ''error'' (JStr ''unknown error'')
      in try_direct E C rq primary_error primary_error (py_take (gc_fallback_retries C) (gc_fallback_chain C)) g)"

definition direct_with_model_fallback ::
  "gw_env \<Rightarrow> gw_cfg \<Rightarrow> request \<Rightarrow> string \<Rightarrow> string \<Rightarrow> gw \<Rightarrow> dict \<times> gw" where
  "direct_with_model_fallback E C rq model provider g =
     (case direct_call E rq model provider g of (r, g1) \<Rightarrow>
        let result = guard_empty r
        in if has_error result \<and> gc_fallback_enabled C \<and> gc_fallback_chain C \<noteq> []
           then direct_fallback E C rq result g1 else (result, g1))"

definition delegated_or_direct ::
  "gw_env \<Rightarrow> gw_cfg \<Rightarrow> request \<Rightarrow> string \<Rightarrow> string \<Rightarrow> gw \<Rightarrow> dict \<times> gw" where
  "delegated_or_direct E C rq model provider g =
     (if gc_upstream C \<noteq> [] \<and> provider \<noteq> gc_upstream C then
        (case direct_call E rq (str_or (gc_upstream_model C) model) (gc_upstream C) g of (r, g1) \<Rightarrow>
           let result = guard_empty r
           in if \<not> has_error result \<or> \<not> gc_upstream_fallback_direct C
              then (dict_set ''upstream'' (JStr (gc_upstream C)) result, g1)
              else case direct_with_model_fallback E C rq model provider (on_metrics record_fallback g1) of (d, g2) \<Rightarrow>
                (if \<not> has_error d then dict_set ''upstream_fallback'' (JBool True) d else d, g2))
      else direct_with_model_fallback E C rq model provider g)"

section \<open>The main entry point\<close>

text \<open>The reroute away from a provider known to be unhealthy.\<close>

definition reroute :: "gw_env \<Rightarrow> request \<Rightarrow> gw \<Rightarrow> (string \<times> string) \<times> gw" where
  "reroute E rq g =
     (if rq_reroute rq \<and> rq_provider rq \<noteq> [] then
        (case health_check E (rq_provider rq) g of (st, g1) \<Rightarrow>
           if ps_healthy st then ((rq_provider rq, rq_model rq), g1)
           else case best_provider (ge_health E (gw_tick g1)) (gw_health g1) (rq_provider rq) None of
             ((alt, is_fb), h) \<Rightarrow>
               (if is_fb \<and> alt \<noteq> rq_provider rq
                then (alt, case map_of PROVIDER_MODELS alt of Some (m, _) \<Rightarrow> m | None \<Rightarrow> rq_model rq)
                else (rq_provider rq, rq_model rq), tick (g1\<lparr>gw_health := h\<rparr>)))
      else ((rq_provider rq, rq_model rq), g))"

datatype admission = Admitted rat | Refused "py_exn + json"

definition mark_hit :: "json \<Rightarrow> json" where
  "mark_hit v = (case v of JObj d \<Rightarrow> JObj (dict_set ''cache_hit'' (JBool True) d) | _ \<Rightarrow> v)"

definition refusal :: "string \<Rightarrow> string \<Rightarrow> json" where
  "refusal msg flag = JObj [(''error'', JStr msg), (''content'', JStr []), (flag, JBool True)]"

text \<open>Cache, rate limit and spend limit, in this order.\<close>

definition admit :: "gw_env \<Rightarrow> gw_cfg \<Rightarrow> request \<Rightarrow> string \<Rightarrow> string \<Rightarrow> gw \<Rightarrow> admission \<times> gw" where
  "admit E C rq model key g =
     (case (if cc_enabled (gw_cache g)
            then (case cache_get (ge_disk E (gw_tick g)) (ge_now E (gw_tick g)) key (gw_cache g) of
                    (hit, c) \<Rightarrow> (hit, tick (g\<lparr>gw_cache := c\<rparr>)))
            else (None, g)) of (hit, g1) \<Rightarrow>
        case (if hit = Some [] then None else hit) of
          Some text \<Rightarrow> (Refused (map_sum id mark_hit (ge_loads E text)), on_metrics record_cache_hit g1)
        | None \<Rightarrow>
            let g2 = on_metrics record_cache_miss g1; now = ge_now E (gw_tick g2); g3 = tick g2
            in if rl_enabled (gc_rate_limit C) \<and>
                  requests_in_last_minute now (gw_metrics g3) \<ge> rl_requests_per_minute (gc_rate_limit C)
               then (Refused (Inr (refusal ''Rate limit exceeded'' ''rate_limited'')), on_metrics record_rate_limited g3)
               else let est = estimate_cost model (of_int (int (length (rq_text rq) div 4))) 0
                    in case spend_check (ge_now E (gw_tick g3)) est (rq_agent rq) (gw_spend g3) of (ok, s) \<Rightarrow>
                         let g4 = tick (g3\<lparr>gw_spend := s\<rparr>)
                         in if ok then (Admitted est, g4)
                            else (Refused (Inr (refusal ''Spend limit exceeded'' ''spend_limited'')), g4))"

definition dispatch :: "gw_env \<Rightarrow> gw_cfg \<Rightarrow> request \<Rightarrow> string \<Rightarrow> string \<Rightarrow> gw \<Rightarrow> dict \<times> gw" where
  "dispatch E C rq model provider g =
     (if cloudflare_enabled C \<and> provider \<in> set CF_PROVIDERS then gateway_call E C rq model provider g
      else delegated_or_direct E C rq model provider g)"

text \<open>Usage numbers; anything that is not a number raises in the arithmetic.\<close>

definition jnum :: "json \<Rightarrow> py_exn + rat" where
  "jnum v = (case v of JInt i \<Rightarrow> Inr (of_int i) | JFloat r \<Rightarrow> Inr r | JBool b \<Rightarrow> Inr (of_bool b) | _ \<Rightarrow> Inl PyTypeError)"

definition calculate_cost :: "string \<Rightarrow> dict \<Rightarrow> py_exn + rat" where
  "calculate_cost model usage =
     (if has_any FREE_MODELS model then Inr 0
      else case jnum (jget_default usage ''input_tokens'' (JInt 0)) of
        Inl e \<Rightarrow> Inl e
      | Inr i \<Rightarrow> map_sum id (estimate_cost model i) (jnum (jget_default usage ''output_tokens'' (JInt 0))))"

definition charge :: "gw_env \<Rightarrow> request \<Rightarrow> string \<Rightarrow> string \<Rightarrow> rat \<Rightarrow> dict \<Rightarrow> gw \<Rightarrow> (py_exn + unit) \<times> gw" where
  "charge E rq model provider est result g =
     (case jor (jget result ''usage'') (JObj []) of
        JObj usage \<Rightarrow>
          (case calculate_cost model usage of
             Inl e \<Rightarrow> (Inl e, g)
           | Inr cost \<Rightarrow>
               let has_tokens = truthy (jget usage ''input_tokens'') \<or> truthy (jget usage ''output_tokens'') \<or>
                                truthy (jget usage ''total_tokens'');
                   spend = (if has_tokens then cost else est);
                   g1 = g\<lparr>gw_spend := spend_record spend (rq_agent rq) (gw_spend g)\<rparr>
               in case jnum (jget_default usage ''total_tokens'' (JInt 0)) of
                    Inl e \<Rightarrow> (Inl e, on_metrics (\<lambda>m. m\<lparr>gm_total_requests := gm_total_requests m + 1\<rparr>) g1)
                  | Inr tokens \<Rightarrow>
                      (Inr (), tick (on_metrics (record_request (ge_now E (gw_tick g1)) provider model tokens spend) g1)))
      | _ \<Rightarrow> (Inl PyAttributeError, g))"

definition settle ::
  "gw_env \<Rightarrow> request \<Rightarrow> string \<Rightarrow> string \<Rightarrow> string \<Rightarrow> rat \<Rightarrow> dict \<Rightarrow> gw \<Rightarrow> (py_exn + json) \<times> gw" where
  "settle E rq model provider key est result g =
     (if has_error result
      then (Inr (JObj result),
            if \<not> truthy (jget result ''spend_limited'') \<and> \<not> truthy (jget result ''dlp_blocked'')
            then mark_provider_from_error E provider (jget result ''error'') g else g)
      else case charge E rq model provider est result g of
        (Inl e, g1) \<Rightarrow> (Inl e, g1)
      | (Inr _, g1) \<Rightarrow>
          if cc_enabled (gw_cache g1)
          then (case cache_set (ge_disk E (gw_tick g1)) (ge_now E (gw_tick g1)) key (ge_dumps E (JObj result)) (gw_cache g1) of
                  Inl e \<Rightarrow> (Inl e, g1)
                | Inr c \<Rightarrow> (Inr (JObj result), tick (g1\<lparr>gw_cache := c\<rparr>)))
          else (Inr (JObj result), g1))"

definition dlp_refusal :: "gw_env \<Rightarrow> violation list \<Rightarrow> json" where
  "dlp_refusal E vs = refusal (''DLP blocked: '' @ ge_show E vs) ''dlp_blocked''"

definition chat :: "gw_env \<Rightarrow> gw_cfg \<Rightarrow> request \<Rightarrow> gw \<Rightarrow> (py_exn + json) \<times> gw" where
  "chat E C rq g =
     (if \<not> gc_enabled C
      then (case direct_call E rq (rq_model rq) (rq_provider rq) g of (r, g1) \<Rightarrow> (Inr (JObj r), g1))
      else let violations = dlp_scan (ge_custom E) (gc_dlp C) (rq_text rq)
           in if violations \<noteq> []
              then (Inr (dlp_refusal E violations), on_metrics record_dlp_block g)
              else case reroute E rq g of ((provider, model), g1) \<Rightarrow>
                let key = ge_key E rq provider model (str_or (rq_scope rq) (gc_cache_scope C))
                in case admit E C rq model key g1 of
                     (Refused res, g2) \<Rightarrow> (res, g2)
                   | (Admitted est, g2) \<Rightarrow>
                       (case dispatch E C rq model provider g2 of (result, g3) \<Rightarrow>
                          settle E rq model provider key est result g3))"

section \<open>What every path keeps\<close>

text \<open>
  The paths are built from few steps: a health check, a mark, a metrics update and a provider call.
  A relation that holds for these steps and composes holds for every path; \<open>allowed\<close> is what a
  call needs, and a positive health check gives it.
\<close>

locale call_relation =
  fixes E :: gw_env and R :: "gw \<Rightarrow> gw \<Rightarrow> bool" and allowed :: "gw \<Rightarrow> string \<Rightarrow> bool"
  assumes refl: "R g g" and trans: "R g1 g2 \<Longrightarrow> R g2 g3 \<Longrightarrow> R g1 g3"
    and check_step: "R g (snd (health_check E p g))"
    and mark_step: "R g (mark_provider_from_error E p err g)"
    and metrics_step: "R g (on_metrics f g)"
    and call_step: "allowed g p \<Longrightarrow> R g (log_call p m g)"
    and checked: "ps_healthy (fst (health_check E p g)) \<Longrightarrow> allowed (snd (health_check E p g)) p"
    and unnamed: "allowed g []"
    and allowed_metrics: "allowed (on_metrics f g) p = allowed g p"
begin

lemma single_step: "allowed g p \<Longrightarrow> R g (snd (single_call E rq m p g))"
  by (simp add: single_call_def call_step)

lemma direct_step: "allowed g p \<Longrightarrow> R g (snd (direct_call E rq m p g))"
  using trans [OF call_step metrics_step] call_step by (auto simp: direct_call_def split: sum.split)

lemma fallback_step: "allowed g p \<Longrightarrow> R g (snd (fallback_call E C rq m p g))"
  using single_step direct_step by (simp add: fallback_call_def split_beta)

lemma try_models_respects: "R g (snd (try_models E C rq p0 m0 attempt last_error specs g))"
proof (induction specs arbitrary: attempt last_error g)
  case Nil
  then show ?case by (simp add: metrics_step)
next
  case (Cons spec specs)
  define p where "p = (case fs_provider spec of Some p \<Rightarrow> p | None \<Rightarrow> p0)"
  define m where "m = (case fs_model spec of Some m \<Rightarrow> m | None \<Rightarrow> m0)"
  define hc where "hc = probe E p g"
  define g2 where "g2 = (if attempt > 0 then on_metrics record_fallback (snd hc) else snd hc)"
  have hc: "R g (snd hc)" "fst hc \<Longrightarrow> allowed (snd hc) p"
    using check_step [of g p] checked [of p g] refl unnamed by (auto simp: hc_def probe_def split: prod.splits if_splits)
  have g2: "R g g2" "fst hc \<Longrightarrow> allowed g2 p"
    using hc trans [OF _ metrics_step] allowed_metrics by (auto simp: g2_def)
  have call: "R g (snd (single_call E rq m p g2))" if "fst hc"
    using trans [OF g2(1) single_step] g2(2) that by blast
  have failed: "R g (snd (try_models E C rq p0 m0 a' err ss (mark_provider_from_error E p err' (snd (single_call E rq m p g2)))))"
    if "fst hc" "ss = [] \<or> ss = specs" for a' err err' ss
    using trans [OF trans [OF call [OF that(1)] mark_step] Cons.IH] that(2)
      trans [OF trans [OF call [OF that(1)] mark_step] metrics_step] by auto
  have skip: "R g (snd (try_models E C rq p0 m0 a' err specs (snd hc)))" for a' err
    by (rule trans [OF hc(1) Cons.IH])
  show ?case
    using call failed skip
    by (simp only: try_models.simps(2) Let_def p_def [symmetric] m_def [symmetric] hc_def [symmetric] split_beta
        g2_def [symmetric]) (simp add: split_beta del: try_models.simps split: sum.split)
qed

lemma gateway_call_respects: "R g (snd (gateway_call E C rq m p g))"
  by (simp only: gateway_call_def try_models_respects)

lemma try_direct_respects: "R g (snd (try_direct E C rq primary last_error specs g))"
proof (induction specs arbitrary: last_error g)
  case Nil
  then show ?case by (simp add: metrics_step)
next
  case (Cons spec specs)
  define p where "p = (case fs_provider spec of Some p \<Rightarrow> p | None \<Rightarrow> [])"
  define m where "m = (case fs_model spec of Some m \<Rightarrow> m | None \<Rightarrow> [])"
  define g1 where "g1 = on_metrics record_fallback g"
  define hc where "hc = health_check E p g1"
  define out where "out = fallback_call E C rq m p (snd hc)"
  have g1: "R g g1" by (simp add: g1_def metrics_step)
  have hc: "R g (snd hc)" unfolding hc_def by (rule trans [OF g1 check_step])
  have call: "R g (snd out)" if "ps_healthy (fst hc)"
    using trans [OF hc fallback_step] checked [of p g1] that unfolding out_def hc_def by blast
  have next1: "R g (snd (try_direct E C rq primary err specs g1))" for err by (rule trans [OF g1 Cons.IH])
  have next2: "R g (snd (try_direct E C rq primary err specs (snd hc)))" for err by (rule trans [OF hc Cons.IH])
  have next3: "R g (snd (try_direct E C rq primary err specs (mark_provider_from_error E p err' (snd out))))"
    if "ps_healthy (fst hc)" for err err'
    by (rule trans [OF trans [OF call [OF that] mark_step] Cons.IH])
  show ?case
    using call next1 next2 next3
    by (simp only: try_direct.simps(2) Let_def p_def [symmetric] m_def [symmetric] g1_def [symmetric]
        hc_def [symmetric] split_beta out_def [symmetric])
      (simp add: split_beta del: try_direct.simps split: sum.split)
qed

lemma direct_fallback_respects: "R g (snd (direct_fallback E C rq primary g))"
  by (simp only: direct_fallback_def Let_def try_direct_respects)

lemma direct_with_model_fallback_respects:
  "allowed g p \<Longrightarrow> R g (snd (direct_with_model_fallback E C rq m p g))"
  using direct_step [of g p rq m] trans [OF direct_step direct_fallback_respects]
  by (auto simp: direct_with_model_fallback_def Let_def split_beta)

end

interpretation money: call_relation E "\<lambda>g g'. gw_cache g' = gw_cache g \<and> gw_spend g' = gw_spend g" "\<lambda>g p. True" for E
  by unfold_locales
    (auto simp: health_check_def mark_provider_from_error_def exclude_provider_on_gateway_error_def on_metrics_def
      log_call_def tick_def Let_def split_beta split: option.split)

lemma dispatch_keeps:
  "gw_cache (snd (dispatch E C rq m p g)) = gw_cache g \<and> gw_spend (snd (dispatch E C rq m p g)) = gw_spend g"
proof -
  have delegated: "gw_cache (snd (delegated_or_direct E C rq m p g)) = gw_cache g \<and>
      gw_spend (snd (delegated_or_direct E C rq m p g)) = gw_spend g"
    using money.direct_step [OF TrueI, where g = g and E = E and rq = rq and p = "gc_upstream C"
        and m = "str_or (gc_upstream_model C) m"]
      money.direct_with_model_fallback_respects [OF TrueI, where E = E and C = C and rq = rq and m = m and p = p]
    by (simp add: delegated_or_direct_def Let_def split_beta on_metrics_def)
  show ?thesis
    unfolding dispatch_def using delegated money.gateway_call_respects [where g = g and E = E and C = C and rq = rq and m = m and p = p] by simp
qed

section \<open>Excluded providers are left alone\<close>

definition calls_to :: "string \<Rightarrow> gw \<Rightarrow> nat" where
  "calls_to p g = length (filter (\<lambda>c. fst c = p) (gw_calls g))"

definition excluded_since :: "rat \<Rightarrow> gw \<Rightarrow> string \<Rightarrow> bool" where
  "excluded_since t0 g p \<longleftrightarrow> (\<exists>t \<ge> t0. hc_excluded (gw_health g) p = Some t)"

text \<open>Every reading of the clock is within one time-to-live of \<open>t0\<close> (or exclusions never expire).\<close>

definition within_ttl :: "gw_env \<Rightarrow> rat \<Rightarrow> bool" where
  "within_ttl E t0 \<longleftrightarrow> (\<forall>n. t0 \<le> he_now (ge_health E n) \<and>
     (runtime_exclude_ttl (ge_health E n) \<le> 0 \<or> he_now (ge_health E n) \<le> t0 + runtime_exclude_ttl (ge_health E n)))"

lemma excluded_since_still:
  "within_ttl E t0 \<Longrightarrow> excluded_since t0 g p \<Longrightarrow> still_excluded (ge_health E n) (gw_health g) p"
proof -
  assume "within_ttl E t0" and ex: "excluded_since t0 g p"
  then have "runtime_exclude_ttl (ge_health E n) \<le> 0 \<or> he_now (ge_health E n) \<le> t0 + runtime_exclude_ttl (ge_health E n)"
    unfolding within_ttl_def by blast
  moreover obtain t where "t0 \<le> t" "hc_excluded (gw_health g) p = Some t" using ex by (auto simp: excluded_since_def)
  ultimately show ?thesis by (auto simp: still_excluded_def)
qed

lemma gw_calls_simps [simp]:
  "gw_calls (on_metrics f g) = gw_calls g" "gw_calls (tick g) = gw_calls g"
  "gw_calls (snd (health_check E p g)) = gw_calls g" "gw_calls (snd (probe E p g)) = gw_calls g"
  "gw_calls (mark_provider_from_error E p err g) = gw_calls g" "gw_calls (log_call p m g) = gw_calls g @ [(p, m)]"
  by (auto simp: on_metrics_def tick_def health_check_def probe_def mark_provider_from_error_def log_call_def
      exclude_provider_on_gateway_error_def Let_def split: prod.splits option.splits)

lemma health_check_excluded:
  assumes "within_ttl E t0"
  shows "excluded_since t0 g q \<Longrightarrow> excluded_since t0 (snd (health_check E p g)) q"
    and "ps_healthy (fst (health_check E p g)) \<Longrightarrow> \<not> excluded_since t0 (snd (health_check E p g)) p"
proof -
  let ?E = "ge_health E (gw_tick g)" and ?h = "gw_health g"
  have state: "gw_health (snd (health_check E p g)) = snd (check ?E ?h p)"
    by (simp add: health_check_def tick_def split_beta)
  show "excluded_since t0 (snd (health_check E p g)) q" if q: "excluded_since t0 g q"
  proof (cases "q = p")
    case True
    then have "snd (check ?E ?h p) = ?h"
      using excluded_since_still [OF assms q, of "gw_tick g"] by (simp add: check_def)
    then show ?thesis using q state by (simp add: excluded_since_def)
  next
    case False
    then show ?thesis using q state check_other [OF False] by (simp add: excluded_since_def)
  qed
  show "\<not> excluded_since t0 (snd (health_check E p g)) p" if "ps_healthy (fst (health_check E p g))"
  proof -
    have "ps_healthy (fst (check ?E ?h p))" using that by (simp add: health_check_def split_beta)
    then have "\<not> still_excluded ?E ?h p" by (auto simp: check_answer)
    then have "hc_excluded (snd (check ?E ?h p)) p = None" using check_stores by blast
    then show ?thesis using state by (simp add: excluded_since_def)
  qed
qed

lemma mark_excluded:
  assumes "within_ttl E t0" "excluded_since t0 g q"
  shows "excluded_since t0 (mark_provider_from_error E p err g) q"
proof -
  have "t0 \<le> he_now (ge_health E (gw_tick g))" using assms(1) by (simp add: within_ttl_def)
  then show ?thesis
    using assms(2) by (auto simp: excluded_since_def mark_provider_from_error_def exclude_provider_on_gateway_error_def
        mark_unhealthy_def tick_def Let_def split: option.split)
qed

interpretation quarantine: call_relation E
  "\<lambda>g g'. within_ttl E t0 \<longrightarrow> (\<forall>p. p \<noteq> [] \<and> excluded_since t0 g p \<longrightarrow> excluded_since t0 g' p \<and> calls_to p g' = calls_to p g)"
  "\<lambda>g p. within_ttl E t0 \<longrightarrow> p = [] \<or> \<not> excluded_since t0 g p" for E t0
proof (unfold_locales, goal_cases)
  case (3 g p)
  then show ?case using health_check_excluded by (simp add: calls_to_def)
next
  case (4 g p err)
  then show ?case using mark_excluded by (simp add: calls_to_def)
next
  case (7 p g)
  then show ?case using health_check_excluded by blast
qed (auto simp: calls_to_def excluded_since_def on_metrics_def log_call_def tick_def)

section \<open>How many calls a chain makes\<close>

lemma try_models_calls:
  "length (gw_calls (snd (try_models E C rq p0 m0 attempt last_error specs g)))
     \<le> length (gw_calls g) + (if specs = [] then 0 else nat (gc_fallback_retries C - attempt) + 1)"
proof (induction specs arbitrary: attempt last_error g)
  case (Cons spec specs)
  define p where "p = (case fs_provider spec of Some p \<Rightarrow> p | None \<Rightarrow> p0)"
  define m where "m = (case fs_model spec of Some m \<Rightarrow> m | None \<Rightarrow> m0)"
  define g2 where "g2 = (if attempt > 0 then on_metrics record_fallback (snd (probe E p g)) else snd (probe E p g))"
  define g3 where "g3 = snd (single_call E rq m p g2)"
  let ?n = "nat (gc_fallback_retries C - attempt) + 1"
  have calls: "length (gw_calls g3) = length (gw_calls g) + 1" "gw_calls (snd (probe E p g)) = gw_calls g"
    by (simp_all add: g3_def g2_def single_call_def)
  have skip: "length (gw_calls (snd (try_models E C rq p0 m0 (attempt + 1) err specs (snd (probe E p g))))) \<le> length (gw_calls g) + ?n" for err
    by (rule order_trans [OF Cons.IH]) (auto simp: calls intro: nat_mono)
  have stop: "length (gw_calls (snd (try_models E C rq p0 m0 a err [] (mark_provider_from_error E p err' g3)))) = length (gw_calls g) + 1" for a err err'
    by (simp add: calls)
  have more: "length (gw_calls (snd (try_models E C rq p0 m0 (attempt + 1) err specs (mark_provider_from_error E p err' g3)))) \<le> length (gw_calls g) + ?n"
    if "attempt < gc_fallback_retries C" for err err'
  proof -
    have "nat (gc_fallback_retries C - (attempt + 1)) + 1 = nat (gc_fallback_retries C - attempt)" using that by linarith
    then show ?thesis by (intro order_trans [OF Cons.IH]) (simp add: calls)
  qed
  show ?case
    using skip stop more calls
    by (simp only: try_models.simps(2) Let_def p_def [symmetric] m_def [symmetric] split_beta g2_def [symmetric] g3_def [symmetric])
      (simp add: split_beta not_le del: try_models.simps split: sum.split)
qed simp

lemma gateway_call_calls:
  "length (gw_calls (snd (gateway_call E C rq m p g))) \<le> length (gw_calls g) + nat (gc_fallback_retries C) + 1"
  using try_models_calls [of E C rq p m 0 JNull "\<lparr>fs_provider = Some p, fs_model = Some m\<rparr> # gc_fallback_chain C" g]
  by (simp add: gateway_call_def)

section \<open>No silent empty answer\<close>

definition answered :: "dict \<Rightarrow> bool" where
  "answered r \<longleftrightarrow> has_error r \<or> \<not> is_empty_content_response (JObj r)"

lemma answered_guard: "answered (guard_empty r)"
  by (auto simp: answered_def guard_empty_def empty_content_error_def has_error_def jget_def)

lemma jget_set: "jget (dict_set k v d) k' = (if k' = k then v else jget d k')"
  by (simp add: jget_def)

lemma answered_set [simp]:
  assumes "k \<notin> {''error'', ''choices'', ''content'', ''text'', ''stop_reason''}"
  shows "answered (dict_set k v d) = answered d" "has_error (dict_set k v d) = has_error d"
proof -
  have keys: "''content'' \<in> fst ` set (dict_set k v d) \<longleftrightarrow> ''content'' \<in> fst ` set d"
    using dict_set_keys [of k v d] assms by auto
  have same: "jget (dict_set k v d) ''error'' = jget d ''error''" "jget (dict_set k v d) ''choices'' = jget d ''choices''"
    "jget (dict_set k v d) ''content'' = jget d ''content''" "jget (dict_set k v d) ''text'' = jget d ''text''"
    "jget (dict_set k v d) ''stop_reason'' = jget d ''stop_reason''"
    using assms unfolding jget_set by auto
  show "has_error (dict_set k v d) = has_error d" by (simp only: has_error_def same)
  then show "answered (dict_set k v d) = answered d"
    by (simp only: answered_def is_empty_content_response_def json.case same keys)
qed

lemma answered_error: "answered ((''error'', JStr (c # cs)) # r)"
  by (simp add: answered_def has_error_def jget_def)

lemma guard_sum: "map_sum id guard_empty out = Inr r \<Longrightarrow> answered r"
  by (cases out) (auto simp: answered_guard)

lemma try_models_answered: "answered (fst (try_models E C rq p0 m0 attempt last_error specs g))"
proof (induction specs arbitrary: attempt last_error g)
  case (Cons spec specs)
  define p where "p = (case fs_provider spec of Some p \<Rightarrow> p | None \<Rightarrow> p0)"
  define m where "m = (case fs_model spec of Some m \<Rightarrow> m | None \<Rightarrow> m0)"
  define g2 where "g2 = (if attempt > 0 then on_metrics record_fallback (snd (probe E p g)) else snd (probe E p g))"
  define out where "out = map_sum id guard_empty (fst (single_call E rq m p g2))"
  have stop: "answered (fst (try_models E C rq p0 m0 a err [] h))" for a err h by (simp add: answered_error)
  have ok: "out = Inr r \<Longrightarrow> answered r" for r unfolding out_def by (rule guard_sum)
  show ?case
    unfolding try_models.simps(2) Let_def p_def [symmetric] m_def [symmetric] split_beta g2_def [symmetric] out_def [symmetric]
    apply (cases out)
     apply (simp add: Cons.IH stop del: try_models.simps)
    apply (simp add: Cons.IH stop ok del: try_models.simps)
    done
qed (simp add: answered_error)

lemma try_direct_answered: "answered (fst (try_direct E C rq primary last_error specs g))"
proof (induction specs arbitrary: last_error g)
  case (Cons spec specs)
  define p where "p = (case fs_provider spec of Some p \<Rightarrow> p | None \<Rightarrow> [])"
  define m where "m = (case fs_model spec of Some m \<Rightarrow> m | None \<Rightarrow> [])"
  define hc where "hc = health_check E p (on_metrics record_fallback g)"
  define out where "out = map_sum id guard_empty (fst (fallback_call E C rq m p (snd hc)))"
  have ok: "out = Inr r \<Longrightarrow> answered r" for r unfolding out_def by (rule guard_sum)
  show ?case
    unfolding try_direct.simps(2) Let_def p_def [symmetric] m_def [symmetric] split_beta hc_def [symmetric] out_def [symmetric]
    by (cases out) (use Cons.IH ok in \<open>simp_all del: try_direct.simps\<close>)
qed (simp add: answered_error)

lemma direct_with_model_fallback_answered: "answered (fst (direct_with_model_fallback E C rq m p g))"
  by (simp add: direct_with_model_fallback_def direct_fallback_def Let_def split_beta try_direct_answered answered_guard)

lemma dispatch_answered: "answered (fst (dispatch E C rq m p g))"
  by (auto simp: dispatch_def gateway_call_def try_models_answered delegated_or_direct_def Let_def split_beta
      answered_guard direct_with_model_fallback_answered simp del: try_models.simps)

section \<open>Admission, settlement and the whole call\<close>

lemma keep_simps [simp]:
  "gw_cache (tick g) = gw_cache g" "gw_spend (tick g) = gw_spend g"
  "gw_cache (on_metrics f g) = gw_cache g" "gw_spend (on_metrics f g) = gw_spend g"
  "gw_metrics (tick g) = gw_metrics g" "gw_tick (on_metrics f g) = gw_tick g"
  "gw_cache (mark_provider_from_error E p err g) = gw_cache g"
  "gw_spend (mark_provider_from_error E p err g) = gw_spend g"
  using money.mark_step [where g = g and E = E and p = p and err = err] by (simp_all add: tick_def on_metrics_def)

lemma reroute_keeps [simp]:
  "gw_cache (snd (reroute E rq g)) = gw_cache g" "gw_spend (snd (reroute E rq g)) = gw_spend g"
  "gw_calls (snd (reroute E rq g)) = gw_calls g"
  by (simp_all add: reroute_def health_check_def tick_def split_beta)

definition fresh_spend :: "spend_limit \<Rightarrow> spend_limit \<Rightarrow> bool" where
  "fresh_spend s s' \<longleftrightarrow> sl_spent_today s' \<in> {sl_spent_today s, 0}"

lemma spend_check_fresh: "fresh_spend s (snd (spend_check now est agent s))"
  by (simp add: fresh_spend_def spend_check_def Let_def split: option.split)

lemma admit_keeps:
  "gw_calls (snd (admit E C rq m key g)) = gw_calls g"
  "fresh_spend (gw_spend g) (gw_spend (snd (admit E C rq m key g)))"
  using spend_check_fresh
  by (simp_all add: admit_def Let_def split_beta tick_def on_metrics_def fresh_spend_def split: option.split)

text \<open>A refusal: no provider is called, and nothing is charged.\<close>

lemma chat_refused:
  assumes "gc_enabled C" "dlp_scan (ge_custom E) (gc_dlp C) (rq_text rq) \<noteq> []"
  shows "fst (chat E C rq g) = Inr (dlp_refusal E (dlp_scan (ge_custom E) (gc_dlp C) (rq_text rq)))"
    "gw_calls (snd (chat E C rq g)) = gw_calls g" "gw_spend (snd (chat E C rq g)) = gw_spend g"
    "gw_cache (snd (chat E C rq g)) = gw_cache g"
  using assms by (simp_all add: chat_def Let_def)

text \<open>The admitted call as one expression.\<close>

lemma chat_cases:
  assumes "gc_enabled C" "dlp_scan (ge_custom E) (gc_dlp C) (rq_text rq) = []"
  obtains (refused) m key g1 res g2 where "g1 = snd (reroute E rq g)" "admit E C rq m key g1 = (Refused res, g2)"
      "chat E C rq g = (res, g2)"
    | (called) p m key g1 est g2 r g3 where "g1 = snd (reroute E rq g)" "admit E C rq m key g1 = (Admitted est, g2)"
      "dispatch E C rq m p g2 = (r, g3)" "chat E C rq g = settle E rq m p key est r g3"
proof -
  obtain p m g1 where r: "reroute E rq g = ((p, m), g1)" by (metis prod.exhaust)
  define key where "key = ge_key E rq p m (str_or (rq_scope rq) (gc_cache_scope C))"
  obtain a g2 where a: "admit E C rq m key g1 = (a, g2)" by fastforce
  have chat: "chat E C rq g = (case admit E C rq m key g1 of
      (Refused res, g2) \<Rightarrow> (res, g2)
    | (Admitted est, g2) \<Rightarrow> (case dispatch E C rq m p g2 of (result, g3) \<Rightarrow> settle E rq m p key est result g3))"
    unfolding chat_def key_def Let_def using assms r by simp
  show thesis
  proof (cases a)
    case (Refused res)
    then show thesis using refused [of g1 m key res g2] r a chat by simp
  next
    case (Admitted est)
    obtain res g3 where "dispatch E C rq m p g2 = (res, g3)" by fastforce
    then show thesis using called [of g1 m key est g2 p res g3] r a chat Admitted by simp
  qed
qed

lemma settle_error:
  assumes "settle E rq m p key est r g = (Inr (JObj d), g')" "has_error d"
  shows "gw_spend g' = gw_spend g" "gw_cache g' = gw_cache g"
  using assms by (auto simp: settle_def split: if_splits prod.splits sum.splits)

lemma settle_result:
  assumes "settle E rq m p key est r g = (Inr v, g')"
  shows "v = JObj r"
  using assms by (auto simp: settle_def split: if_splits prod.splits sum.splits)

text \<open>A failed call is not charged.\<close>

lemma failed_call_free:
  assumes "chat E C rq g = (Inr (JObj d), g')" "has_error d"
  shows "fresh_spend (gw_spend g) (gw_spend g')"
proof (cases "gc_enabled C \<and> dlp_scan (ge_custom E) (gc_dlp C) (rq_text rq) = []")
  case True
  then have on: "gc_enabled C" "dlp_scan (ge_custom E) (gc_dlp C) (rq_text rq) = []" by auto
  show ?thesis
  proof (cases rule: chat_cases [OF on, of g])
    case (1 m key g1 res g2)
    then show ?thesis using assms(1) admit_keeps(2) [of g1 E C rq m key] by simp
  next
    case (2 p m key g1 est g2 r g3)
    then have "settle E rq m p key est r g3 = (Inr (JObj d), g')" using assms(1) by simp
    then have "gw_spend g' = gw_spend g3" by (rule settle_error(1) [OF _ assms(2)])
    moreover have "gw_spend g3 = gw_spend g2" using dispatch_keeps [of E C rq m p g2] 2(3) by simp
    ultimately show ?thesis using admit_keeps(2) [of g1 E C rq m key] 2(1,2) by simp
  qed
next
  case False
  then have "gw_spend g' = gw_spend g"
    using assms(1) money.direct_step [OF TrueI, where g = g and E = E and rq = rq and p = "rq_provider rq" and m = "rq_model rq"]
      chat_refused(3) [of C E rq g] by (cases "gc_enabled C") (auto simp: chat_def split_beta)
  then show ?thesis by (simp add: fresh_spend_def)
qed

text \<open>A fresh answer is never silently empty.\<close>

lemma chat_answered:
  assumes "chat E C rq g = (Inr (JObj d), g')" "gc_enabled C" "gw_calls g' \<noteq> gw_calls g"
  shows "answered d"
proof -
  have on: "dlp_scan (ge_custom E) (gc_dlp C) (rq_text rq) = []"
    using chat_refused(2) [OF assms(2), of E rq g] assms(1,3) by auto
  show ?thesis
  proof (cases rule: chat_cases [OF assms(2) on, of g])
    case (1 m key g1 res g2)
    then have "gw_calls g' = gw_calls g" using assms(1) admit_keeps(1) [of E C rq m key g1] by simp
    then show ?thesis using assms(3) by simp
  next
    case (2 p m key g1 est g2 r g3)
    then have "JObj d = JObj r" using assms(1) settle_result [of E rq m p key est r g3 "JObj d" g'] by simp
    then show ?thesis using dispatch_answered [of E C rq m p g2] 2(3) by simp
  qed
qed

text \<open>A successful answer is served again from the cache, without a call, until it expires.\<close>

lemma charge_cache [simp]: "gw_cache (snd (charge E rq m p est r g)) = gw_cache g"
  by (simp add: charge_def Let_def on_metrics_def split: json.split sum.split)

lemma settle_stores:
  assumes "settle E rq m p key est r g = (Inr (JObj r), g')" "\<not> has_error r" "cc_enabled (gw_cache g)"
  shows "\<exists>n n'. cache_set (ge_disk E n') (ge_now E n) key (ge_dumps E (JObj r)) (gw_cache g) = Inr (gw_cache g')"
proof -
  obtain g1 where "charge E rq m p est r g = (Inr (), g1)"
    using assms(1,2) by (auto simp: settle_def split: prod.splits sum.splits)
  moreover have "gw_cache g1 = gw_cache g" using charge_cache [of E rq m p est r g] calculation by simp
  ultimately show ?thesis
    using assms by (auto simp: settle_def split: sum.splits intro!: exI)
qed

lemma repeat_served:
  assumes "cache_set ok t key text (gw_cache g0) = Inr (gw_cache g)" "cc_enabled (gw_cache g)" "text \<noteq> []"
    and "ge_now E (gw_tick g) < t + cc_ttl (gw_cache g0)" "ge_loads E text = Inr v"
  shows "fst (admit E C rq m key g) = Refused (Inr (mark_hit v))"
    "gw_calls (snd (admit E C rq m key g)) = gw_calls g" "gw_spend (snd (admit E C rq m key g)) = gw_spend g"
proof -
  have hit: "fst (cache_get (ge_disk E (gw_tick g)) (ge_now E (gw_tick g)) key (gw_cache g)) = Some text"
    by (rule cache_get_set [OF assms(1,4)])
  show "fst (admit E C rq m key g) = Refused (Inr (mark_hit v))"
    "gw_calls (snd (admit E C rq m key g)) = gw_calls g" "gw_spend (snd (admit E C rq m key g)) = gw_spend g"
    using hit assms(2,3,5) by (simp_all add: admit_def split_beta tick_def on_metrics_def)
qed

text \<open>With a cache of no capacity the call is made and charged before it raises.\<close>

lemma no_capacity_raises:
  assumes "charge E rq m p est r g = (Inr (), g1)" "\<not> has_error r" "cc_enabled (gw_cache g)"
    and "cc_max_entries (gw_cache g) \<le> 0" "cc_store (gw_cache g) = []"
  shows "settle E rq m p key est r g = (Inl PyValueError, g1)"
proof -
  have "gw_cache g1 = gw_cache g" using charge_cache [of E rq m p est r g] assms(1) by simp
  then show ?thesis using assms by (simp add: settle_def cache_set_def)
qed

end
