(* ===== verification/Waves.thy ===== *)
theory Waves
  imports Dep_Graph
begin

text \<open>
  \<^verbatim>\<open>src/voly/a2a/waves.py\<close> and the \<^verbatim>\<open>Assignment\<close> of \<^verbatim>\<open>a2a/assignment.py\<close>: grouping the roles of a
  multi-agent run into waves of independent calls.
\<close>

record assignment =
  as_idx :: int
  as_role :: string
  as_description :: string
  as_depends_on :: "int list"
  as_tier :: string
  as_model :: string
  as_provider :: string
  as_execution :: string
  as_content :: string
  as_ok :: bool
  as_error :: string
  as_mode :: string
  as_mode_reason :: string
  as_executor :: string
  as_files :: "string list"
  as_plan_status :: string
  as_plan_verify_ok :: "bool option"

text \<open>\<^verbatim>\<open>Assignment(idx, role, description, depends_on, tier, model, provider)\<close>: the counters kept only for reports (tokens, cost, timings) are left out.\<close>

definition new_assignment ::
  "int \<Rightarrow> string \<Rightarrow> string \<Rightarrow> int list \<Rightarrow> string \<Rightarrow> string \<Rightarrow> string \<Rightarrow> assignment" where
  "new_assignment i role descr deps tier model provider =
     \<lparr>as_idx = i, as_role = role, as_description = descr, as_depends_on = deps, as_tier = tier,
      as_model = model, as_provider = provider, as_execution = [], as_content = [], as_ok = False,
      as_error = [], as_mode = ''chat'', as_mode_reason = [], as_executor = [], as_files = [],
      as_plan_status = [], as_plan_verify_ok = None\<rparr>"

definition ready_wave :: "int list \<Rightarrow> int list \<Rightarrow> assignment list \<Rightarrow> assignment list" where
  "ready_wave idxs placed remaining =
     (let wave = filter (\<lambda>a. list_all (\<lambda>d. d \<in> set placed \<or> d \<notin> set idxs) (as_depends_on a)) remaining
      in if wave = [] then take 1 remaining else wave)"

lemma ready_wave_subset: "set (ready_wave idxs placed remaining) \<subseteq> set remaining"
  by (auto simp: ready_wave_def Let_def dest: in_set_takeD)

lemma ready_wave_nonempty: "remaining \<noteq> [] \<Longrightarrow> ready_wave idxs placed remaining \<noteq> []"
  by (auto simp: ready_wave_def Let_def)

function waves_from :: "int list \<Rightarrow> int list \<Rightarrow> assignment list \<Rightarrow> assignment list list" where
  "waves_from idxs placed remaining =
     (if remaining = [] then []
      else let wave = ready_wave idxs placed remaining;
               placed' = placed @ map as_idx wave
           in wave # waves_from idxs placed' (filter (\<lambda>a. as_idx a \<notin> set placed') remaining))"
  by pat_completeness auto
termination
proof (relation "measure (\<lambda>(idxs, placed, remaining). length remaining)", goal_cases)
  case (2 idxs placed remaining wave placed')
  obtain a where a: "a \<in> set (ready_wave idxs placed remaining)"
    using ready_wave_nonempty [OF 2(1), of idxs placed] list.set_sel(1) by blast
  then have "a \<in> set remaining" using ready_wave_subset by blast
  then have "length (filter (\<lambda>a. as_idx a \<notin> set placed') remaining) < length remaining"
    using 2(2,3) a by (intro length_filter_less [of a]) auto
  then show ?case by simp
qed simp

declare waves_from.simps [simp del]

lemma waves_from_step:
  "remaining \<noteq> [] \<Longrightarrow> waves_from idxs placed remaining = ready_wave idxs placed remaining #
     waves_from idxs (placed @ map as_idx (ready_wave idxs placed remaining))
       (filter (\<lambda>a. as_idx a \<notin> set (placed @ map as_idx (ready_wave idxs placed remaining))) remaining)"
  by (subst waves_from.simps) (simp add: Let_def)

definition build_waves :: "assignment list \<Rightarrow> assignment list list" where
  "build_waves as = waves_from (map as_idx as) [] as"

section \<open>What the waves are\<close>

text \<open>Dependencies on roles that are not in the list do not count.\<close>

definition known_deps :: "assignment list \<Rightarrow> int \<Rightarrow> int list" where
  "known_deps as i = (case find (\<lambda>a. as_idx a = i) as of
     None \<Rightarrow> [] | Some a \<Rightarrow> filter (\<lambda>d. d \<in> set (map as_idx as)) (as_depends_on a))"

definition idx_distinct :: "assignment list \<Rightarrow> bool" where
  "idx_distinct as \<longleftrightarrow> distinct (map as_idx as)"

interpretation role_graph: dep_graph "map as_idx" known_deps idx_distinct
proof
  fix as :: "assignment list" and x
  show "idx_distinct as \<Longrightarrow> distinct (map as_idx as)" by (simp add: idx_distinct_def)
  show "set (known_deps as x) \<subseteq> set (map as_idx as)" by (auto simp: known_deps_def split: option.splits)
qed

lemma known_deps_of:
  "idx_distinct as \<Longrightarrow> a \<in> set as \<Longrightarrow>
     known_deps as (as_idx a) = filter (\<lambda>d. d \<in> set (map as_idx as)) (as_depends_on a)"
  using find_key_distinct [of as_idx as a] by (simp add: known_deps_def idx_distinct_def)

text \<open>Every wave waits only for what earlier waves have done.\<close>

fun waves_ok :: "(int \<Rightarrow> int list) \<Rightarrow> int set \<Rightarrow> assignment list list \<Rightarrow> bool" where
  "waves_ok deps done [] = True"
| "waves_ok deps done (w # ws) =
     (w \<noteq> [] \<and> (\<forall>a \<in> set w. set (deps (as_idx a)) \<subseteq> done) \<and> waves_ok deps (done \<union> as_idx ` set w) ws)"

lemma placed_rest: "set placed \<inter> as_idx ` set (filter (\<lambda>a. as_idx a \<notin> set placed) as) = {}"
  by (induction as) auto

lemma waves_from_covers:
  assumes "idx_distinct remaining" "set placed \<inter> as_idx ` set remaining = {}"
  shows "set (concat (waves_from idxs placed remaining)) = set remaining \<and>
    idx_distinct (concat (waves_from idxs placed remaining)) \<and> [] \<notin> set (waves_from idxs placed remaining)"
  using assms
proof (induction idxs placed remaining rule: waves_from.induct)
  case (1 idxs placed remaining)
  show ?case
  proof (cases "remaining = []")
    case False
    let ?wave = "ready_wave idxs placed remaining"
    let ?placed = "placed @ map as_idx ?wave"
    let ?rest = "filter (\<lambda>a. as_idx a \<notin> set ?placed) remaining"
    have sub: "set ?wave \<subseteq> set remaining" by (rule ready_wave_subset)
    have inj: "inj_on as_idx (set remaining)" and dist: "distinct remaining"
      using 1(2) by (simp_all add: idx_distinct_def distinct_map)
    have wave_dist: "idx_distinct ?wave"
      using 1(2) by (auto simp: idx_distinct_def ready_wave_def Let_def distinct_map_filter take_map [symmetric]
          intro: distinct_take)
    have rest: "set ?rest = set remaining - set ?wave"
      using sub inj 1(3) by (auto simp: inj_on_def)
    let ?tail = "waves_from idxs ?placed ?rest"
    have "idx_distinct ?rest" using 1(2) unfolding idx_distinct_def by (rule distinct_map_filter)
    moreover have "set ?placed \<inter> as_idx ` set ?rest = {}" by (rule placed_rest)
    ultimately have IH: "set (concat ?tail) = set ?rest" "idx_distinct (concat ?tail)" "[] \<notin> set ?tail"
      using 1(1) [OF False refl refl] by blast+
    have "as_idx ` set ?wave \<inter> as_idx ` set ?rest = {}"
      using placed_rest [of ?placed remaining] by (simp add: Int_Un_distrib2)
    then have "idx_distinct (?wave @ concat ?tail)"
      using wave_dist IH(2) unfolding idx_distinct_def map_append distinct_append set_map IH(1) by blast
    moreover have "set (?wave @ concat ?tail) = set remaining"
      using sub IH(1) rest by (metis set_append Un_Diff_cancel sup.absorb2)
    moreover have "[] \<notin> set (?wave # ?tail)" using IH(3) ready_wave_nonempty [OF False, of idxs placed] by auto
    ultimately show ?thesis unfolding waves_from_step [OF False] concat.simps by blast
  qed (simp add: waves_from.simps idx_distinct_def)
qed

lemma waves_from_ok:
  assumes "idx_distinct as" "acyclic (dep_edges (map as_idx as) (known_deps as))"
    and "set remaining \<subseteq> set as" "as_idx ` set as \<subseteq> set placed \<union> as_idx ` set remaining"
    and "set placed \<inter> as_idx ` set remaining = {}"
  shows "waves_ok (known_deps as) (set placed) (waves_from (map as_idx as) placed remaining)"
  using assms(3-5)
proof (induction "map as_idx as" placed remaining rule: waves_from.induct)
  case (1 placed remaining)
  show ?case
  proof (cases "remaining = []")
    case False
    let ?wave = "ready_wave (map as_idx as) placed remaining"
    let ?placed = "placed @ map as_idx ?wave"
    let ?rest = "filter (\<lambda>a. as_idx a \<notin> set ?placed) remaining"
    let ?ready = "\<lambda>a. list_all (\<lambda>d. d \<in> set placed \<or> d \<notin> set (map as_idx as)) (as_depends_on a)"
    have ready_iff: "?ready a \<longleftrightarrow> set (known_deps as (as_idx a)) \<subseteq> set placed" if a: "a \<in> set remaining" for a
    proof -
      have "known_deps as (as_idx a) = filter (\<lambda>d. d \<in> set (map as_idx as)) (as_depends_on a)"
        using known_deps_of [OF assms(1)] 1(2) a by blast
      then show ?thesis by (auto simp: list_all_iff)
    qed
    obtain b where "b \<in> set remaining" using False by (meson list.set_sel(1))
    then have "as_idx b \<notin> set placed" "as_idx b \<in> set (map as_idx as)" using 1(2,4) by auto
    then obtain y where y: "y \<in> set (map as_idx as)" "y \<notin> set placed" "set (known_deps as y) \<subseteq> set placed"
      using role_graph.some_ready [OF assms(1,2), of "as_idx b" "\<lambda>i. i \<in> set placed"] by auto
    then obtain c where "c \<in> set remaining" "as_idx c = y" using 1(3) by auto
    then have "filter ?ready remaining \<noteq> []" using ready_iff y(3) by (auto simp: filter_empty_conv)
    then have w: "?wave = filter ?ready remaining" by (simp add: ready_wave_def Let_def)
    have wave: "\<forall>a \<in> set ?wave. set (known_deps as (as_idx a)) \<subseteq> set placed"
      unfolding w using ready_iff by auto
    have rest: "set ?rest \<subseteq> set as" using 1(2) by auto
    have cover: "as_idx ` set as \<subseteq> set ?placed \<union> as_idx ` set ?rest"
    proof
      fix i assume "i \<in> as_idx ` set as"
      then have "i \<in> set placed \<union> as_idx ` set remaining" using 1(3) by blast
      then show "i \<in> set ?placed \<union> as_idx ` set ?rest" by (cases "i \<in> set ?placed") auto
    qed
    have fresh: "set ?placed \<inter> as_idx ` set ?rest = {}" by (rule placed_rest)
    have "waves_ok (known_deps as) (set ?placed) (waves_from (map as_idx as) ?placed ?rest)"
      by (rule 1(1) [OF False refl refl rest cover fresh])
    then show ?thesis
      unfolding waves_from_step [OF False] using wave ready_wave_nonempty [OF False] by simp
  qed (simp add: waves_from.simps)
qed

lemma build_waves_covers:
  assumes "idx_distinct as"
  shows "set (concat (build_waves as)) = set as" "idx_distinct (concat (build_waves as))" "[] \<notin> set (build_waves as)"
  using waves_from_covers [OF assms, of "[]" "map as_idx as"] by (simp_all add: build_waves_def)

lemma build_waves_ok:
  assumes "idx_distinct as" "acyclic (dep_edges (map as_idx as) (known_deps as))"
  shows "waves_ok (known_deps as) {} (build_waves as)"
  using waves_from_ok [OF assms, of as "[]"] by (simp add: build_waves_def)

text \<open>In particular no role depends on one of its own wave, and the concatenation is an execution order.\<close>

lemma waves_ok_deps_first:
  "waves_ok deps (set seq) ws \<Longrightarrow> deps_first deps seq \<Longrightarrow>
     deps_first deps (seq @ map as_idx (concat ws))"
proof (induction ws arbitrary: seq)
  case (Cons w ws)
  have "deps_first deps (seq @ map as_idx w)"
    using Cons.prems by (intro deps_first_append) auto
  then show ?case using Cons.IH [of "seq @ map as_idx w"] Cons.prems(1) by simp
qed simp

lemma build_waves_order:
  assumes "idx_distinct as" "acyclic (dep_edges (map as_idx as) (known_deps as))"
  shows "deps_first (known_deps as) (map as_idx (concat (build_waves as)))"
  using waves_ok_deps_first [of "known_deps as" "[]" "build_waves as"] build_waves_ok [OF assms] by simp

end
