(* ===== verification/Role_Models.thy ===== *)
theory Role_Models
  imports Gateway Waves
begin

text \<open>
  Which model, provider and mode a role of a multi-agent run gets: \<^verbatim>\<open>src/voly/a2a/roles.py\<close> (the
  fields that decide), \<^verbatim>\<open>assignment.py\<close> (tiers, provider exclusions, the outcome of a run),
  \<^verbatim>\<open>hybrid.py\<close> (chat or executor) and \<^verbatim>\<open>chat_fallback.py\<close> (the provider loop over the gateway).
  The environment variables and the clock are those of the health checker.
\<close>

section \<open>Roles and tiers\<close>

record role_definition =
  rd_id :: string
  rd_tier :: string
  rd_mode :: string
  rd_default_executor :: string
  rd_provider_offset :: nat

definition role_def :: "string \<Rightarrow> string \<Rightarrow> string \<Rightarrow> string \<Rightarrow> nat \<Rightarrow> role_definition" where
  "role_def i tier mode executor offset = \<lparr>rd_id = i, rd_tier = tier, rd_mode = mode, rd_default_executor = executor,
     rd_provider_offset = offset\<rparr>"

definition ROLE_REGISTRY :: "role_definition list" where
  "ROLE_REGISTRY =
     [role_def ''architect'' ''standard'' ''chat'' [] 0,
      role_def ''developer'' ''standard'' ''executor'' ''cursor'' 1,
      role_def ''tester'' ''standard'' ''executor'' ''cursor'' 2,
      role_def ''reviewer'' ''premium'' ''chat'' [] 1,
      role_def ''devops'' ''cheap'' ''executor'' ''cursor'' 0,
      role_def ''security'' ''premium'' ''chat'' [] 0,
      role_def ''bugfixer'' ''standard'' ''executor'' ''deepseek'' 2,
      role_def ''ui_architect'' ''standard'' ''chat'' [] 0,
      role_def ''visual_reviewer'' ''premium'' ''chat'' [] 1,
      role_def ''browser_tester'' ''standard'' ''executor'' ''cursor'' 2,
      role_def ''ux_reviewer'' ''cheap'' ''chat'' [] 0]"

definition role_lookup :: "string \<Rightarrow> role_definition option" where
  "role_lookup role = find (\<lambda>r. rd_id r = role) ROLE_REGISTRY"

definition ROLE_TIER :: "string \<Rightarrow> string option" where
  "ROLE_TIER role = map_option rd_tier (role_lookup role)"

definition ROLE_PROVIDER_OFFSET :: "string \<Rightarrow> nat" where
  "ROLE_PROVIDER_OFFSET role = (case role_lookup role of None \<Rightarrow> 0 | Some r \<Rightarrow> rd_provider_offset r)"

definition STRONG :: "string list" where
  "STRONG = [''cloudflare-dynamic'', ''deepseek'', ''opencode'', ''mimo'', ''anthropic'']"
definition STANDARD :: "string list" where
  "STANDARD = [''cloudflare-dynamic'', ''deepseek'', ''workers-ai'', ''anthropic'']"
definition WEAK :: "string list" where
  "WEAK = [''workers-ai'', ''deepseek'', ''mimo'', ''opencode-zen'', ''omniroute'']"

definition TIER_PROVIDERS :: "string \<Rightarrow> string list" where
  "TIER_PROVIDERS tier =
     (if tier \<in> {''premium'', ''strong''} then STRONG else if tier = ''standard'' then STANDARD else WEAK)"

definition VALID_TIERS :: "string list" where "VALID_TIERS = [''premium'', ''standard'', ''cheap'']"

definition IMPLEMENT_ROLES :: "string list" where "IMPLEMENT_ROLES = [''developer'', ''bugfixer'']"

definition role_key :: "string \<Rightarrow> string" where "role_key role = lower (strip role)"

section \<open>Choosing a model\<close>

definition excluded_providers :: "health_env \<Rightarrow> string list" where
  "excluded_providers E =
     filter (\<lambda>p. p \<noteq> []) (map strip (split_on (CHR '','') (he_getenv E ''VOLY_A2A_EXCLUDE_PROVIDERS'')))"

definition apply_env_provider_exclusions :: "health_env \<Rightarrow> health \<Rightarrow> string list \<times> health" where
  "apply_env_provider_exclusions E h =
     (let marked = sorted_set (excluded_providers E)
      in (marked, fold (\<lambda>p h. mark_unhealthy E h p ''VOLY_A2A_EXCLUDE_PROVIDERS'') marked h))"

definition allowed :: "health_env \<Rightarrow> string \<Rightarrow> bool" where
  "allowed E p \<longleftrightarrow> p \<notin> set (excluded_providers E)"

definition known :: "string \<Rightarrow> bool" where "known p \<longleftrightarrow> map_of PROVIDER_MODELS p \<noteq> None"

definition model_pair :: "string \<Rightarrow> string \<times> string" where
  "model_pair p = the (map_of PROVIDER_MODELS p)"

definition healthy_providers_for_tier :: "health_env \<Rightarrow> health \<Rightarrow> string \<Rightarrow> string list \<times> health" where
  "healthy_providers_for_tier E h tier =
     keep_healthy (check E) h (filter (\<lambda>p. allowed E p \<and> known p) (TIER_PROVIDERS tier))"

definition resolve_tier_model :: "health_env \<Rightarrow> health \<Rightarrow> string \<Rightarrow> (string \<times> string) \<times> health" where
  "resolve_tier_model E h tier =
     (case healthy_providers_for_tier E h tier of
        (p # ps, h1) \<Rightarrow> (model_pair p, h1)
      | ([], h1) \<Rightarrow>
          (case first_healthy (check E) h1 (filter (\<lambda>p. known p \<and> allowed E p) (TIER_PROVIDERS tier)) of
             (Some p, h2) \<Rightarrow> (model_pair p, h2)
           | (None, h2) \<Rightarrow>
               (case first_healthy (check E) h2 (filter (allowed E) (map fst PROVIDER_MODELS)) of
                  (Some p, h3) \<Rightarrow> (model_pair p, h3)
                | (None, h3) \<Rightarrow> (model_pair ''anthropic'', h3))))"

definition tier_of :: "string option \<Rightarrow> string \<Rightarrow> string" where
  "tier_of tier role = (case tier of Some t \<Rightarrow> if t \<noteq> [] then t else (case ROLE_TIER (role_key role) of Some t \<Rightarrow> t | None \<Rightarrow> ''standard'')
     | None \<Rightarrow> (case ROLE_TIER (role_key role) of Some t \<Rightarrow> t | None \<Rightarrow> ''standard''))"

definition resolve_role_model :: "health_env \<Rightarrow> health \<Rightarrow> string \<Rightarrow> string option \<Rightarrow> (string \<times> string) \<times> health" where
  "resolve_role_model E h role tier =
     (case healthy_providers_for_tier E h (tier_of tier role) of
        ([], h1) \<Rightarrow> resolve_tier_model E h1 (tier_of tier role)
      | (ps, h1) \<Rightarrow> (model_pair (ps ! (ROLE_PROVIDER_OFFSET (role_key role) mod length ps)), h1))"

definition chat_fallback_providers :: "health_env \<Rightarrow> health \<Rightarrow> string \<Rightarrow> string \<Rightarrow> string list \<times> health" where
  "chat_fallback_providers E h tier role =
     (case healthy_providers_for_tier E h tier of
        ([], h1) \<Rightarrow> ([], h1)
      | (ps, h1) \<Rightarrow> (let start = ROLE_PROVIDER_OFFSET (role_key role) mod length ps in (drop start ps @ take start ps, h1)))"

section \<open>What the choice guarantees\<close>

definition usable :: "health_env \<Rightarrow> health \<Rightarrow> string \<Rightarrow> bool" where
  "usable E h p \<longleftrightarrow> allowed E p \<and> known p \<and> healthy_at E h p"

lemma tier_pool: "fst (healthy_providers_for_tier E h tier) = filter (usable E h) (TIER_PROVIDERS tier)"
  unfolding healthy_providers_for_tier_def health.keep_healthy_eq filter_filter
  by (rule filter_cong) (auto simp: usable_def)

lemma tier_pool_view: "healthy_at E (snd (healthy_providers_for_tier E h tier)) p = healthy_at E h p"
  by (simp add: healthy_providers_for_tier_def health.keep_healthy_view)

lemma model_pair_provider: "known p \<Longrightarrow> snd (model_pair p) = p"
  unfolding known_def model_pair_def PROVIDER_MODELS_def by (auto split: if_splits)

lemma model_pair_known: "known p \<Longrightarrow> (p, model_pair p) \<in> set PROVIDER_MODELS"
  by (auto simp: known_def model_pair_def dest: map_of_SomeD)

lemma known_iff: "known p \<longleftrightarrow> p \<in> set (map fst PROVIDER_MODELS)"
  unfolding known_def using map_of_eq_None_iff [of PROVIDER_MODELS p] by simp

lemma anthropic_known [simp]: "known ''anthropic''"
  by (simp add: known_def PROVIDER_MODELS_def)

text \<open>The second loop over the tier cannot find what the first did not.\<close>

lemma tier_second_pass:
  assumes "healthy_providers_for_tier E h tier = ([], h1)"
  shows "fst (first_healthy (check E) h1 (filter (\<lambda>p. known p \<and> allowed E p) (TIER_PROVIDERS tier))) = None"
proof -
  have "filter (usable E h) (TIER_PROVIDERS tier) = []" using assms tier_pool [of E h tier] by simp
  then have "\<not> healthy_at E h p" if "p \<in> set (TIER_PROVIDERS tier)" "known p" "allowed E p" for p
    using that by (auto simp: usable_def filter_empty_conv)
  moreover have "healthy_at E h1 p = healthy_at E h p" for p using tier_pool_view [of E h tier p] assms by simp
  ultimately show ?thesis by (auto simp: health.first_healthy_eq find_None_iff)
qed

lemma resolve_tier_result:
  "fst (resolve_tier_model E h tier) =
    (case filter (usable E h) (TIER_PROVIDERS tier) of
       p # ps \<Rightarrow> model_pair p
     | [] \<Rightarrow> (case find (usable E h) (map fst PROVIDER_MODELS) of
         Some p \<Rightarrow> model_pair p
       | None \<Rightarrow> model_pair ''anthropic''))"
proof -
  obtain pool h1 where 1: "healthy_providers_for_tier E h tier = (pool, h1)" by (cases "healthy_providers_for_tier E h tier")
  have pool: "pool = filter (usable E h) (TIER_PROVIDERS tier)" using tier_pool [of E h tier] 1 by simp
  show ?thesis
  proof (cases pool)
    case Nil
    note second = tier_second_pass [OF 1 [unfolded Nil]]
    obtain h2 where 2: "first_healthy (check E) h1 (filter (\<lambda>p. known p \<and> allowed E p) (TIER_PROVIDERS tier)) = (None, h2)"
      using second by (metis prod.collapse)
    have view: "healthy_at E h2 p = healthy_at E h p" for p
      using health.first_healthy_view [of E h1 "filter (\<lambda>p. known p \<and> allowed E p) (TIER_PROVIDERS tier)" p]
        tier_pool_view [of E h tier p] 1 2 by simp
    obtain x h3 where 3: "first_healthy (check E) h2 (filter (allowed E) (map fst PROVIDER_MODELS)) = (x, h3)" by fastforce
    have "find P (filter Q xs) = find (\<lambda>y. Q y \<and> P y) xs" for P Q :: "string \<Rightarrow> bool" and xs
      by (induction xs) auto
    then have "x = find (\<lambda>p. allowed E p \<and> healthy_at E h p) (map fst PROVIDER_MODELS)"
      using health.first_healthy_eq [of E h2 "filter (allowed E) (map fst PROVIDER_MODELS)"] 3 view by simp
    also have "\<dots> = find (usable E h) (map fst PROVIDER_MODELS)"
      by (rule find_cong) (auto simp: usable_def known_iff)
    finally show ?thesis using Nil 1 2 3 pool by (simp add: resolve_tier_model_def split: option.split)
  next
    case (Cons p ps)
    then show ?thesis using 1 pool by (simp add: resolve_tier_model_def)
  qed
qed

text \<open>A usable provider is found whenever there is one, in the tier if the tier has one.\<close>

lemma resolve_tier_usable:
  assumes "usable E h p"
  shows "usable E h (snd (fst (resolve_tier_model E h tier)))"
    and "p \<in> set (TIER_PROVIDERS tier) \<Longrightarrow> snd (fst (resolve_tier_model E h tier)) \<in> set (TIER_PROVIDERS tier)"
proof -
  have us: "usable E h (snd (model_pair q)) \<and> snd (model_pair q) = q" if "usable E h q" for q
    using that model_pair_provider [of q] by (simp add: usable_def)
  show "usable E h (snd (fst (resolve_tier_model E h tier)))"
  proof (cases "filter (usable E h) (TIER_PROVIDERS tier)")
    case Nil
    obtain q where q: "find (usable E h) (map fst PROVIDER_MODELS) = Some q"
      using assms find_None_iff [of "usable E h" "map fst PROVIDER_MODELS"] known_iff [of p] by (auto simp: usable_def)
    then show ?thesis using us [of q] find_SomeD [OF q] by (simp add: resolve_tier_result Nil)
  next
    case (Cons q qs)
    then have "usable E h q" by (auto simp: filter_eq_Cons_iff)
    then show ?thesis using us by (simp add: resolve_tier_result Cons)
  qed
  show "snd (fst (resolve_tier_model E h tier)) \<in> set (TIER_PROVIDERS tier)" if mem: "p \<in> set (TIER_PROVIDERS tier)"
  proof -
    obtain q qs where q: "filter (usable E h) (TIER_PROVIDERS tier) = q # qs"
      using mem assms by (cases "filter (usable E h) (TIER_PROVIDERS tier)") (auto simp: filter_empty_conv)
    then have "q \<in> set (TIER_PROVIDERS tier) \<and> usable E h q" by (auto simp: filter_eq_Cons_iff)
    then show ?thesis using us [of q] by (simp add: resolve_tier_result q)
  qed
qed

lemma role_model_result:
  assumes "filter (usable E h) (TIER_PROVIDERS (tier_of tier role)) = ps" "ps \<noteq> []"
  shows "fst (resolve_role_model E h role tier) = model_pair (ps ! (ROLE_PROVIDER_OFFSET (role_key role) mod length ps))"
  using assms tier_pool [of E h "tier_of tier role"]
  by (cases "healthy_providers_for_tier E h (tier_of tier role)") (auto simp: resolve_role_model_def split: list.split)

text \<open>The fallback list is the pool of the tier turned to start at the role's own provider.\<close>

lemma fallback_rotation:
  fixes E h tier
  defines "ps \<equiv> filter (usable E h) (TIER_PROVIDERS tier)"
  shows "fst (chat_fallback_providers E h tier role) = rotate (ROLE_PROVIDER_OFFSET (role_key role)) ps"
proof -
  obtain h1 where "healthy_providers_for_tier E h tier = (ps, h1)"
    using tier_pool [of E h tier] unfolding ps_def by (metis prod.collapse)
  then show ?thesis
    by (cases ps) (simp_all add: chat_fallback_providers_def rotate_drop_take Let_def)
qed

lemma fallback_starts_at_role:
  assumes "tier \<noteq> []" "fst (chat_fallback_providers E h tier role) \<noteq> []"
  shows "fst (resolve_role_model E h role (Some tier)) = model_pair (hd (fst (chat_fallback_providers E h tier role)))"
proof -
  let ?ps = "filter (usable E h) (TIER_PROVIDERS tier)"
  have ne: "?ps \<noteq> []" using assms(2) by (auto simp: fallback_rotation)
  have "hd (rotate n ?ps) = ?ps ! (n mod length ?ps)" for n
    using ne by (simp add: hd_conv_nth nth_rotate)
  then show ?thesis using role_model_result [of E h "Some tier" role ?ps] ne assms(1)
    by (simp add: fallback_rotation tier_of_def)
qed

section \<open>Chat or executor\<close>

definition DEFAULT_EXECUTOR_ROLES :: "string list" where
  "DEFAULT_EXECUTOR_ROLES = [''developer'', ''bugfixer'', ''tester'', ''devops'']"

definition executor_capable :: "string \<Rightarrow> bool" where
  "executor_capable role \<longleftrightarrow> (\<exists>r \<in> set ROLE_REGISTRY. rd_id r = role \<and> rd_mode r = ''executor'')"

definition ROLE_EXECUTOR :: "string \<Rightarrow> string option" where
  "ROLE_EXECUTOR role = (case role_lookup role of
     None \<Rightarrow> None | Some r \<Rightarrow> if rd_default_executor r = [] then None else Some (rd_default_executor r))"

definition effective_executor_roles :: "string list \<Rightarrow> string list" where
  "effective_executor_roles roles =
     (if roles \<noteq> [] then map strip (filter (\<lambda>r. r \<noteq> [] \<and> strip r \<noteq> []) roles) else DEFAULT_EXECUTOR_ROLES)"

definition hybrid_active :: "bool \<Rightarrow> bool \<Rightarrow> bool \<Rightarrow> bool" where
  "hybrid_active hybrid_code_gen has_cwd hybrid_require_cwd \<longleftrightarrow>
     hybrid_code_gen \<and> \<not> (hybrid_require_cwd \<and> \<not> has_cwd)"

definition EXECUTOR_DEFAULT_SENTINEL :: string where "EXECUTOR_DEFAULT_SENTINEL = ''claude-code''"

definition upper :: "string \<Rightarrow> string" where
  "upper s = map (\<lambda>c. let n = (of_char c :: nat) in if 97 \<le> n \<and> n \<le> 122 then char_of (n - 32) else c) s"

definition resolve_role_executor :: "health_env \<Rightarrow> string \<Rightarrow> string \<Rightarrow> string" where
  "resolve_role_executor E role fallback =
     (let override = strip (he_getenv E (''VOLY_A2A_EXECUTOR_'' @ upper (role_key role)))
      in if override \<noteq> [] then override
         else if fallback \<noteq> [] \<and> fallback \<noteq> EXECUTOR_DEFAULT_SENTINEL then fallback
         else case ROLE_EXECUTOR (role_key role) of
                Some e \<Rightarrow> e
              | None \<Rightarrow> str_or fallback EXECUTOR_DEFAULT_SENTINEL)"

text \<open>\<open>exact\<close>: the caller passed a frozen set, used as it is; otherwise a list or nothing.\<close>

definition resolve_role_mode ::
  "string \<Rightarrow> bool \<Rightarrow> bool \<Rightarrow> string \<Rightarrow> bool \<Rightarrow> string list \<Rightarrow> string \<times> string" where
  "resolve_role_mode role hybrid_enabled requires_code_gen lead_execution exact executor_roles =
     (let rk = role_key role; lead = lower (strip lead_execution)
      in if \<not> hybrid_enabled then (''chat'', ''hybrid_disabled'')
         else if lead_execution \<noteq> [] \<and> lead \<in> {''chat'', ''executor''}
              then (if lead = ''executor'' \<and> \<not> executor_capable rk then (''chat'', ''lead_executor_denied'')
                    else (lead, ''lead_override''))
         else let roles = (if exact then executor_roles else effective_executor_roles executor_roles)
              in if rk = ''tester'' \<and> \<not> requires_code_gen then (''chat'', ''tester_text_only'')
                 else if rk \<in> set roles \<and> executor_capable rk then (''executor'', ''role_map'')
                 else (''chat'', ''role_map_chat''))"

text \<open>No configuration and no lead makes a role that may not write files an executor.\<close>

lemma role_mode_safe:
  "fst (resolve_role_mode role hybrid code_gen lead exact roles) \<in> {''chat'', ''executor''}"
  "fst (resolve_role_mode role hybrid code_gen lead exact roles) = ''executor'' \<Longrightarrow> hybrid \<and> executor_capable (role_key role)"
  unfolding resolve_role_mode_def Let_def by (auto split: if_splits)

section \<open>The outcome of a run\<close>

definition assignment_active :: "assignment \<Rightarrow> bool" where
  "assignment_active a \<longleftrightarrow> as_plan_status a \<notin> {''skipped'', ''blocked''} \<and> \<not> starts_with (as_error a) ''skipped:''"

definition impl_ok :: "assignment \<Rightarrow> bool" where
  "impl_ok a \<longleftrightarrow> as_ok a \<or> list_ex (\<lambda>f. f \<noteq> [] \<and> \<not> starts_with f ''.voly/'') (as_files a)"

definition is_impl :: "assignment \<Rightarrow> bool" where
  "is_impl a \<longleftrightarrow> as_mode a = ''executor'' \<or> as_role a \<in> set IMPLEMENT_ROLES"

definition evaluate_multiagent_outcome :: "assignment list \<Rightarrow> bool \<Rightarrow> bool \<times> string" where
  "evaluate_multiagent_outcome as requires_code_gen =
     (let active = filter assignment_active as; impl = filter is_impl as
      in if as = [] then (False, ''failed'')
         else if active = [] then (False, ''failed'')
         else if \<not> list_ex as_ok active then (False, ''failed'')
         else if requires_code_gen \<and> impl \<noteq> [] \<and> \<not> list_ex impl_ok impl then (False, ''partial'')
         else if list_all as_ok active then (True, ''completed'')
         else (False, ''partial''))"

lemma outcome_result:
  fixes as code_gen
  defines "res \<equiv> evaluate_multiagent_outcome as code_gen"
  shows "fst res \<longleftrightarrow> snd res = ''completed''"
    and "snd res = ''failed'' \<longleftrightarrow> \<not> (\<exists>a \<in> set as. assignment_active a \<and> as_ok a)"
    and "snd res = ''completed'' \<longleftrightarrow> (\<exists>a \<in> set as. assignment_active a) \<and> (\<forall>a \<in> set as. assignment_active a \<longrightarrow> as_ok a) \<and>
      (code_gen \<longrightarrow> (\<forall>a \<in> set as. \<not> is_impl a) \<or> (\<exists>a \<in> set as. is_impl a \<and> impl_ok a))"
    and "snd res \<in> {''failed'', ''partial'', ''completed''}"
  unfolding res_def evaluate_multiagent_outcome_def Let_def list_ex_iff list_all_iff filter_empty_conv
  by (auto simp: filter_empty_conv)

text \<open>A run with no implement role at all counts as completed, also when code was to be generated.\<close>

lemma completed_without_implement:
  "evaluate_multiagent_outcome [(new_assignment 0 ''reviewer'' [] [] ''premium'' [] [])\<lparr>as_ok := True\<rparr>] True = (True, ''completed'')"
  by (simp add: evaluate_multiagent_outcome_def new_assignment_def assignment_active_def is_impl_def IMPLEMENT_ROLES_def)

section \<open>The provider loop of a chat role\<close>

text \<open>\<^verbatim>\<open>str(e)\<close> of an exception the gateway raises is the environment's.\<close>

definition role_request :: "request \<Rightarrow> assignment \<Rightarrow> string \<Rightarrow> string \<Rightarrow> request" where
  "role_request rq a provider model =
     rq\<lparr>rq_model := model, rq_provider := provider, rq_agent := as_role a, rq_reroute := False\<rparr>"

definition model_for :: "assignment \<Rightarrow> string \<Rightarrow> string" where
  "model_for a provider = (case map_of PROVIDER_MODELS provider of Some (m, _) \<Rightarrow> m | None \<Rightarrow> as_model a)"

definition moved_to :: "assignment \<Rightarrow> string \<Rightarrow> assignment" where
  "moved_to a provider =
     (if provider = as_provider a then a
      else a\<lparr>as_provider := provider, as_model := model_for a provider,
             as_mode_reason := (if as_mode_reason a \<noteq> [] then as_mode_reason a @ ''+provider_fallback''
                                else ''provider_fallback'')\<rparr>)"

definition chat_order :: "gw_env \<Rightarrow> assignment \<Rightarrow> gw \<Rightarrow> string list \<times> gw" where
  "chat_order E a g =
     (case chat_fallback_providers (ge_health E (gw_tick g)) (gw_health g) (as_tier a) (as_role a) of
        (ps, h) \<Rightarrow>
          let g1 = tick (g\<lparr>gw_health := h\<rparr>); assigned = as_provider a
          in if assigned \<noteq> []
             then (case health_check E assigned g1 of (st, g2) \<Rightarrow>
                     let rest = filter (\<lambda>p. p \<noteq> assigned) ps;
                         order = (if ps_healthy st then assigned # rest else rest)
                     in (if order = [] then [assigned] else order, g2))
             else (ps, g1))"

fun try_providers ::
  "gw_env \<Rightarrow> gw_cfg \<Rightarrow> (py_exn \<Rightarrow> string) \<Rightarrow> request \<Rightarrow> assignment \<Rightarrow> string \<Rightarrow> string list \<Rightarrow> gw \<Rightarrow> json \<times> assignment \<times> gw" where
  "try_providers E C show_exn rq a last_err [] g =
     (JObj [(''error'', JStr (str_or last_err ''all chat providers failed'')), (''content'', JStr [])], a, g)"
| "try_providers E C show_exn rq a last_err (p # ps) g =
     (case chat E C (role_request rq a p (model_for a p)) g of
        (Inl e, g1) \<Rightarrow>
          try_providers E C show_exn rq a (show_exn e) ps (exclude_provider_on_gateway_error E p (show_exn e) g1)
      | (Inr resp, g1) \<Rightarrow>
          (let err = jget (as_dict resp) ''error''
           in if truthy err
              then (if truthy (jget (as_dict resp) ''spend_limited'') then (resp, a, g1)
                    else let msg = py_str (ge_builtins E) err
                         in try_providers E C show_exn rq a msg ps (exclude_provider_on_gateway_error E p msg g1))
              else (resp, moved_to a p, g1)))"

definition chat_with_provider_fallback ::
  "gw_env \<Rightarrow> gw_cfg \<Rightarrow> (py_exn \<Rightarrow> string) \<Rightarrow> request \<Rightarrow> assignment \<Rightarrow> gw \<Rightarrow> json \<times> assignment \<times> gw" where
  "chat_with_provider_fallback E C show_exn rq a g =
     (case chat_order E a g of (ps, g1) \<Rightarrow> try_providers E C show_exn rq a [] ps g1)"

definition reply_failed :: "json \<Rightarrow> bool" where
  "reply_failed resp \<longleftrightarrow> truthy (jget (as_dict resp) ''error'')"

lemma moved_frame [simp]:
  "as_idx (moved_to a p) = as_idx a" "as_role (moved_to a p) = as_role a" "as_tier (moved_to a p) = as_tier a"
  "as_ok (moved_to a p) = as_ok a" "as_provider (moved_to a p) = p"
  by (simp_all add: moved_to_def)

lemma try_providers_result:
  assumes "try_providers E C show_exn rq a last_err ps g = (resp, a', g')"
  shows "if reply_failed resp then a' = a else \<exists>p \<in> set ps. a' = moved_to a p"
  using assms
proof (induction ps arbitrary: last_err g)
  case (Cons p ps)
  obtain res g1 where c: "chat E C (role_request rq a p (model_for a p)) g = (res, g1)"
    by (cases "chat E C (role_request rq a p (model_for a p)) g")
  show ?case
  proof (cases "\<exists>last g2. try_providers E C show_exn rq a last ps g2 = (resp, a', g')")
    case True
    then show ?thesis using Cons.IH by fastforce
  next
    case False
    then show ?thesis using Cons.prems c
      by (cases res) (auto simp: reply_failed_def Let_def split: if_splits)
  qed
qed (auto simp: reply_failed_def as_dict_def jget_def str_or_def split: if_splits)

text \<open>A spent budget ends the loop; any other failure goes on with the next provider.\<close>

lemma try_providers_spend_limit:
  assumes "chat E C (role_request rq a p (model_for a p)) g = (Inr resp, g1)"
    "reply_failed resp" "truthy (jget (as_dict resp) ''spend_limited'')"
  shows "try_providers E C show_exn rq a last_err (p # ps) g = (resp, a, g1)"
  using assms by (simp add: reply_failed_def Let_def)

lemma try_providers_first:
  assumes "chat E C (role_request rq a p (model_for a p)) g = (Inr resp, g1)" "\<not> reply_failed resp"
  shows "try_providers E C show_exn rq a last_err (p # ps) g = (resp, moved_to a p, g1)"
  using assms by (simp add: reply_failed_def Let_def)

lemma chat_order_set:
  assumes "chat_order E a g = (ps, g1)"
  shows "distinct (TIER_PROVIDERS (as_tier a)) \<Longrightarrow> distinct ps"
    and "set ps \<subseteq> insert (as_provider a) (set (TIER_PROVIDERS (as_tier a)))"
    and "ps = [] \<Longrightarrow> as_provider a = []"
proof -
  let ?h = "ge_health E (gw_tick g)"
  obtain fb h where fb: "chat_fallback_providers ?h (gw_health g) (as_tier a) (as_role a) = (fb, h)" by fastforce
  then have rot: "fb = rotate (ROLE_PROVIDER_OFFSET (role_key (as_role a))) (filter (usable ?h (gw_health g)) (TIER_PROVIDERS (as_tier a)))"
    using fallback_rotation [of ?h "gw_health g" "as_tier a" "as_role a"] by simp
  then have fbset: "set fb \<subseteq> set (TIER_PROVIDERS (as_tier a))" by auto
  have cases: "ps = (if as_provider a = [] then fb else as_provider a # filter (\<lambda>p. p \<noteq> as_provider a) fb) \<or>
      ps = filter (\<lambda>p. p \<noteq> as_provider a) fb \<and> ps \<noteq> [] \<or> ps = [as_provider a] \<and> as_provider a \<noteq> []"
    using assms unfolding chat_order_def fb Let_def by (auto split: prod.splits if_splits)
  show "distinct ps" if "distinct (TIER_PROVIDERS (as_tier a))" using cases that rot by (auto split: if_splits)
  show "set ps \<subseteq> insert (as_provider a) (set (TIER_PROVIDERS (as_tier a)))"
    using cases fbset by (auto split: if_splits)
  show "as_provider a = []" if "ps = []" using cases that by (auto split: if_splits)
qed

lemma tier_distinct: "distinct (TIER_PROVIDERS tier)"
  by (simp add: TIER_PROVIDERS_def STRONG_def STANDARD_def WEAK_def)

end
