(* ===== verification/Capability_Profile.thy ===== *)
theory Capability_Profile
  imports Plan_Codec
begin

text \<open>
  \<^verbatim>\<open>src/voly/capability/schema.py\<close>, \<^verbatim>\<open>scorer.py\<close> and \<^verbatim>\<open>calibration.py\<close>: the profile of an
  executor or a model provider, its dictionary form, the hard gates and the routing score.
  Scores are exact rationals.
\<close>

section \<open>Profiles\<close>

record capability_domain =
  cd_score :: rat
  cd_confidence :: rat
  cd_sub_scores :: "(string \<times> rat) list"
  cd_strengths :: "string list"
  cd_weaknesses :: "string list"

record constraints_info =
  ci_context_window :: int
  ci_file_tools :: bool
  ci_browser_tools :: bool
  ci_image_input :: bool
  ci_max_output_tokens :: int

record evidence_info =
  ei_internal_runs :: int
  ei_successful_runs :: int
  ei_last_evaluated_at :: json
  ei_benchmark_sources :: "json list"

record operational_info =
  oi_avg_latency_ms :: rat
  oi_completion_rate :: rat
  oi_retry_rate :: rat
  oi_cost_per_task_usd :: rat
  oi_total_runs :: int

record capability_profile =
  cp_id :: string
  cp_kind :: string
  cp_provider :: string
  cp_model :: string
  cp_capabilities :: "(string \<times> capability_domain) list"
  cp_constraints :: constraints_info
  cp_evidence :: evidence_info
  cp_operational :: operational_info

definition unknown_profile :: "string \<Rightarrow> capability_profile" where
  "unknown_profile executor_id = \<lparr>cp_id = executor_id, cp_kind = ''executor'', cp_provider = [], cp_model = [],
     cp_capabilities = [],
     cp_constraints = \<lparr>ci_context_window = 0, ci_file_tools = True, ci_browser_tools = False, ci_image_input = False,
       ci_max_output_tokens = 0\<rparr>,
     cp_evidence = \<lparr>ei_internal_runs = 0, ei_successful_runs = 0, ei_last_evaluated_at = JNull, ei_benchmark_sources = []\<rparr>,
     cp_operational = \<lparr>oi_avg_latency_ms = 0, oi_completion_rate = 1, oi_retry_rate = 0, oi_cost_per_task_usd = 0,
       oi_total_runs = 0\<rparr>\<rparr>"

section \<open>The dictionary form\<close>

text \<open>What reading a profile raises; a missing \<^verbatim>\<open>id\<close> is a \<^verbatim>\<open>KeyError\<close>.\<close>

datatype profile_error = MissingKey string | ProfileRaises py_exn

definition domain_to_dict :: "capability_domain \<Rightarrow> json" where
  "domain_to_dict c = JObj
     [(''score'', JFloat (cd_score c)), (''confidence'', JFloat (cd_confidence c)),
      (''sub_scores'', JObj (map (\<lambda>(k, v). (k, JFloat v)) (cd_sub_scores c))),
      (''strengths'', JList (map JStr (cd_strengths c))), (''weaknesses'', JList (map JStr (cd_weaknesses c)))]"

definition profile_to_dict :: "capability_profile \<Rightarrow> (string \<times> json) list" where
  "profile_to_dict p =
     [(''id'', JStr (cp_id p)), (''kind'', JStr (cp_kind p)), (''provider'', JStr (cp_provider p)),
      (''model'', JStr (cp_model p)),
      (''capabilities'', JObj (map (\<lambda>(k, c). (k, domain_to_dict c)) (cp_capabilities p))),
      (''constraints'', JObj (let c = cp_constraints p in
         [(''context_window'', JInt (ci_context_window c)), (''file_tools'', JBool (ci_file_tools c)),
          (''browser_tools'', JBool (ci_browser_tools c)), (''image_input'', JBool (ci_image_input c)),
          (''max_output_tokens'', JInt (ci_max_output_tokens c))])),
      (''evidence'', JObj (let e = cp_evidence p in
         [(''internal_runs'', JInt (ei_internal_runs e)), (''successful_runs'', JInt (ei_successful_runs e)),
          (''last_evaluated_at'', ei_last_evaluated_at e), (''benchmark_sources'', JList (ei_benchmark_sources e))])),
      (''operational'', JObj (let r = cp_operational p in
         [(''avg_latency_ms'', JFloat (oi_avg_latency_ms r)), (''completion_rate'', JFloat (oi_completion_rate r)),
          (''retry_rate'', JFloat (oi_retry_rate r)), (''cost_per_task_usd'', JFloat (oi_cost_per_task_usd r)),
          (''total_runs'', JInt (oi_total_runs r))]))]"

text \<open>\<^verbatim>\<open>d.get(k) or {}\<close> that is then used as a dictionary; iterating over \<^verbatim>\<open>d.get(k) or []\<close>; numbers.\<close>

definition mapping_at :: "(string \<times> json) list \<Rightarrow> string \<Rightarrow> profile_error + (string \<times> json) list" where
  "mapping_at d k = (let v = jget d k in
     if \<not> truthy v then Inr [] else case v of JObj kvs \<Rightarrow> Inr kvs | _ \<Rightarrow> Inl (ProfileRaises PyAttributeError))"

definition items_at :: "(string \<times> json) list \<Rightarrow> string \<Rightarrow> profile_error + json list" where
  "items_at d k = map_sum (\<lambda>_. ProfileRaises PyTypeError) id (jseq (jget d k))"

definition int_at :: "py_builtins \<Rightarrow> (string \<times> json) list \<Rightarrow> string \<Rightarrow> profile_error + int" where
  "int_at B d k = map_sum ProfileRaises id (py_int B (jor (jget d k) (JInt 0)))"

definition num_of :: "py_builtins \<Rightarrow> json \<Rightarrow> profile_error + rat" where
  "num_of B v = map_sum ProfileRaises id (py_float B v)"

abbreviation num_at :: "py_builtins \<Rightarrow> (string \<times> json) list \<Rightarrow> string \<Rightarrow> profile_error + rat" where
  "num_at B d k \<equiv> num_of B (jor (jget d k) (JFloat 0))"

definition domain_from_dict :: "py_builtins \<Rightarrow> json \<Rightarrow> profile_error + capability_domain" where
  "domain_from_dict B v = (case v of
     JObj d \<Rightarrow>
       bind_err (num_of B (jget_default d ''score'' (JFloat (1/2)))) (\<lambda>score.
       bind_err (num_of B (jget_default d ''confidence'' (JFloat 0))) (\<lambda>conf.
       bind_err (mapping_at d ''sub_scores'') (\<lambda>subs.
       bind_err (try_map (\<lambda>(k, x). map_sum id (Pair k) (num_of B x)) subs) (\<lambda>sub_scores.
       bind_err (items_at d ''strengths'') (\<lambda>strong.
       bind_err (items_at d ''weaknesses'') (\<lambda>weak.
         Inr \<lparr>cd_score = score, cd_confidence = conf, cd_sub_scores = sub_scores,
              cd_strengths = map (py_str B) strong, cd_weaknesses = map (py_str B) weak\<rparr>))))))
   | _ \<Rightarrow> Inl (ProfileRaises PyAttributeError))"

definition constraints_from_dict :: "py_builtins \<Rightarrow> (string \<times> json) list \<Rightarrow> profile_error + constraints_info" where
  "constraints_from_dict B d =
     bind_err (int_at B d ''context_window'') (\<lambda>window.
     bind_err (int_at B d ''max_output_tokens'') (\<lambda>toks.
       Inr \<lparr>ci_context_window = window, ci_file_tools = truthy (jget_default d ''file_tools'' (JBool True)),
            ci_browser_tools = truthy (jget_default d ''browser_tools'' (JBool False)),
            ci_image_input = truthy (jget_default d ''image_input'' (JBool False)), ci_max_output_tokens = toks\<rparr>))"

definition evidence_from_dict :: "py_builtins \<Rightarrow> (string \<times> json) list \<Rightarrow> profile_error + evidence_info" where
  "evidence_from_dict B d =
     bind_err (int_at B d ''internal_runs'') (\<lambda>runs.
     bind_err (int_at B d ''successful_runs'') (\<lambda>good.
     bind_err (items_at d ''benchmark_sources'') (\<lambda>srcs.
       Inr \<lparr>ei_internal_runs = runs, ei_successful_runs = good,
            ei_last_evaluated_at = jget d ''last_evaluated_at'', ei_benchmark_sources = srcs\<rparr>)))"

definition operational_from_dict :: "py_builtins \<Rightarrow> (string \<times> json) list \<Rightarrow> profile_error + operational_info" where
  "operational_from_dict B d =
     bind_err (num_at B d ''avg_latency_ms'') (\<lambda>lat.
     bind_err (num_of B (jget_default d ''completion_rate'' (JFloat 1))) (\<lambda>done_rate.
     bind_err (num_at B d ''retry_rate'') (\<lambda>retry.
     bind_err (num_at B d ''cost_per_task_usd'') (\<lambda>cost.
     bind_err (int_at B d ''total_runs'') (\<lambda>runs.
       Inr \<lparr>oi_avg_latency_ms = lat, oi_completion_rate = done_rate, oi_retry_rate = retry,
            oi_cost_per_task_usd = cost, oi_total_runs = runs\<rparr>)))))"

definition profile_from_dict :: "py_builtins \<Rightarrow> (string \<times> json) list \<Rightarrow> profile_error + capability_profile" where
  "profile_from_dict B d =
     bind_err (mapping_at d ''capabilities'') (\<lambda>raw.
     bind_err (try_map (\<lambda>(k, v). map_sum id (Pair k) (domain_from_dict B v)) raw) (\<lambda>caps.
     bind_err (case map_of d ''id'' of None \<Rightarrow> Inl (MissingKey ''id'') | Some v \<Rightarrow> Inr (py_str B v)) (\<lambda>ident.
     bind_err (bind_err (mapping_at d ''constraints'') (constraints_from_dict B)) (\<lambda>cons.
     bind_err (bind_err (mapping_at d ''evidence'') (evidence_from_dict B)) (\<lambda>evid.
     bind_err (bind_err (mapping_at d ''operational'') (operational_from_dict B)) (\<lambda>oper.
       Inr \<lparr>cp_id = ident, cp_kind = jfield B d ''kind'' ''executor'', cp_provider = jfield B d ''provider'' [],
            cp_model = jfield B d ''model'' [], cp_capabilities = caps, cp_constraints = cons,
            cp_evidence = evid, cp_operational = oper\<rparr>))))))"

lemma bool_default [simp]: "truthy (JBool b) = b" "\<not> truthy (JObj [])" "\<not> truthy (JList [])"
  by simp_all

lemma mapping_at_obj: "map_of d k = Some (JObj kvs) \<Longrightarrow> mapping_at d k = Inr kvs"
  by (simp add: mapping_at_def jget_def Let_def)

lemma items_at_list: "map_of d k = Some (JList xs) \<Longrightarrow> items_at d k = Inr xs"
  by (simp add: items_at_def jseq_def jget_def)

lemma int_at_int: "py_builtins_ok B \<Longrightarrow> map_of d k = Some (JInt i) \<Longrightarrow> int_at B d k = Inr i"
  by (simp add: int_at_def jget_def jor_def)

lemma num_of_float [simp]: "py_builtins_ok B \<Longrightarrow> num_of B (JFloat r) = Inr r"
  by (simp add: num_of_def)

lemma num_at_float: "py_builtins_ok B \<Longrightarrow> map_of d k = Some (JFloat r) \<Longrightarrow> num_at B d k = Inr r"
  by (simp add: jget_def jor_def)

lemmas codec_simps = mapping_at_obj items_at_list int_at_int num_at_float jget_default_def

lemma domain_roundtrip: "py_builtins_ok B \<Longrightarrow> domain_from_dict B (domain_to_dict c) = Inr c"
  by (simp add: domain_from_dict_def domain_to_dict_def codec_simps comp_def case_prod_beta
      try_map_map_Inr [where h = id])

text \<open>A kind is never empty once read; nothing else is lost by writing a profile and reading it.\<close>

lemma profile_codec_roundtrip:
  assumes "py_builtins_ok B" "cp_kind p \<noteq> []"
  shows "profile_from_dict B (profile_to_dict p) = Inr p"
proof -
  have caps: "try_map (\<lambda>(k, v). map_sum id (Pair k) (domain_from_dict B v))
      (map (\<lambda>(k, c). (k, domain_to_dict c)) cs) = Inr cs" for cs
    by (subst try_map_map_Inr [where h = id]) (auto simp: domain_roundtrip assms(1))
  show ?thesis using assms
    by (simp add: profile_from_dict_def profile_to_dict_def codec_simps caps constraints_from_dict_def
        evidence_from_dict_def operational_from_dict_def jfield_def jget_def jor_def Let_def)
qed

section \<open>The hard gates and the routing score\<close>

record score_weights =
  w_capability :: rat
  w_history :: rat
  w_tools :: rat
  w_stack :: rat
  w_available :: rat
  w_cost :: rat
  w_latency :: rat

definition ROUTING_SCORE_WEIGHTS :: score_weights where
  "ROUTING_SCORE_WEIGHTS = \<lparr>w_capability = 40/100, w_history = 20/100, w_tools = 15/100, w_stack = 10/100,
     w_available = 5/100, w_cost = 5/100, w_latency = 5/100\<rparr>"

definition ROUTING_POLICY_WEIGHTS :: "(string \<times> score_weights) list" where
  "ROUTING_POLICY_WEIGHTS =
     [(''balanced'', ROUTING_SCORE_WEIGHTS),
      (''quality_first'', \<lparr>w_capability = 50/100, w_history = 25/100, w_tools = 10/100, w_stack = 10/100,
         w_available = 3/100, w_cost = 1/100, w_latency = 1/100\<rparr>),
      (''budget_first'', \<lparr>w_capability = 20/100, w_history = 10/100, w_tools = 10/100, w_stack = 10/100,
         w_available = 5/100, w_cost = 35/100, w_latency = 10/100\<rparr>)]"

definition FEATURE_MAP :: "(string \<times> string) list" where
  "FEATURE_MAP =
     [(''react'', ''frontend''), (''svelte'', ''frontend''), (''vue'', ''frontend''), (''next.js'', ''frontend''),
      (''fastapi'', ''backend''), (''django'', ''backend''), (''flask'', ''backend''), (''pytest'', ''testing''),
      (''jest'', ''testing''), (''vitest'', ''testing''), (''docker'', ''devops''), (''kubernetes'', ''devops''),
      (''terraform'', ''devops''), (''typescript'', ''frontend''), (''python'', ''backend''), (''go'', ''backend'')]"

definition LATENCY_CAP_MS :: rat where "LATENCY_CAP_MS = 120000"

definition feature_to_dimension :: "string \<Rightarrow> string option" where
  "feature_to_dimension feature = map_of FEATURE_MAP (lower (strip feature))"

definition clamp :: "rat \<Rightarrow> rat" where "clamp x = max 0 (min 1 x)"

definition capability_match :: "capability_profile \<Rightarrow> string \<Rightarrow> rat" where
  "capability_match p dimension =
     (case map_of (cp_capabilities p) dimension of None \<Rightarrow> 1/2 | Some c \<Rightarrow> cd_score c)"

definition historical_success :: "capability_profile \<Rightarrow> rat" where
  "historical_success p =
     of_int (ei_successful_runs (cp_evidence p)) / of_int (max 1 (ei_internal_runs (cp_evidence p)))"

definition project_stack_match :: "string \<Rightarrow> string list \<Rightarrow> rat" where
  "project_stack_match dimension features =
     (if features = [] then 1/2
      else of_nat (length (filter (\<lambda>f. feature_to_dimension f = Some dimension) features)) / of_nat (length features))"

definition cost_efficiency :: "capability_profile \<Rightarrow> rat" where
  "cost_efficiency p = (let cost = oi_cost_per_task_usd (cp_operational p) in if cost = 0 then 1 else clamp (1 - cost))"

definition latency_score :: "capability_profile \<Rightarrow> rat" where
  "latency_score p = clamp (1 - oi_avg_latency_ms (cp_operational p) / LATENCY_CAP_MS)"

definition policy_weights :: "string \<Rightarrow> score_weights" where
  "policy_weights routing_policy =
     (case map_of ROUTING_POLICY_WEIGHTS (lower (strip (str_or routing_policy ''balanced''))) of
        Some w \<Rightarrow> w | None \<Rightarrow> ROUTING_SCORE_WEIGHTS)"

text \<open>No features is the empty list: both are falsy in the source.\<close>

definition routing_score :: "capability_profile \<Rightarrow> string \<Rightarrow> string list \<Rightarrow> string \<Rightarrow> rat" where
  "routing_score p dimension features routing_policy =
     (let w = policy_weights routing_policy
      in clamp (capability_match p dimension * w_capability w + historical_success p * w_history w
                + of_bool (ci_file_tools (cp_constraints p)) * w_tools w
                + project_stack_match dimension features * w_stack w + 1 * w_available w
                + cost_efficiency p * w_cost w + latency_score p * w_latency w))"

definition hard_exclude :: "capability_profile \<Rightarrow> bool \<Rightarrow> bool \<Rightarrow> string option" where
  "hard_exclude p requires_file_tools requires_browser_tools =
     (if requires_file_tools \<and> \<not> ci_file_tools (cp_constraints p) then Some ''missing_file_tools''
      else if requires_browser_tools \<and> \<not> ci_browser_tools (cp_constraints p) then Some ''missing_browser_tools''
      else None)"

section \<open>The score is a weighted mean\<close>

definition weights_ok :: "score_weights \<Rightarrow> bool" where
  "weights_ok w \<longleftrightarrow> 0 \<le> w_capability w \<and> 0 \<le> w_history w \<and> 0 \<le> w_tools w \<and> 0 \<le> w_stack w \<and> 0 \<le> w_available w \<and>
     0 \<le> w_cost w \<and> 0 \<le> w_latency w \<and>
     w_capability w + w_history w + w_tools w + w_stack w + w_available w + w_cost w + w_latency w = 1"

lemma policy_weights_ok: "weights_ok (policy_weights routing_policy)"
  by (simp add: policy_weights_def ROUTING_POLICY_WEIGHTS_def ROUTING_SCORE_WEIGHTS_def weights_ok_def)

definition unit :: "rat \<Rightarrow> bool" where "unit x \<longleftrightarrow> 0 \<le> x \<and> x \<le> 1"

lemma unit_clamp [simp]: "unit (clamp x)"
  by (simp add: unit_def clamp_def)

lemma clamp_unit [simp]: "unit x \<Longrightarrow> clamp x = x"
  by (simp add: unit_def clamp_def)

lemma clamp_mono: "x \<le> y \<Longrightarrow> clamp x \<le> clamp y"
  by (auto simp: clamp_def)

lemma unit_stack: "unit (project_stack_match dimension features)"
  by (simp add: unit_def project_stack_match_def divide_le_eq)

lemma unit_cost [simp]: "unit (cost_efficiency p)" and unit_latency [simp]: "unit (latency_score p)"
  by (simp_all add: cost_efficiency_def latency_score_def Let_def) (simp add: unit_def)

text \<open>Profiles whose score and history are proportions: the clamp does nothing for them.\<close>

definition profile_proper :: "capability_profile \<Rightarrow> bool" where
  "profile_proper p \<longleftrightarrow> (\<forall>c \<in> snd ` set (cp_capabilities p). unit (cd_score c)) \<and>
     0 \<le> ei_successful_runs (cp_evidence p) \<and> ei_successful_runs (cp_evidence p) \<le> max 1 (ei_internal_runs (cp_evidence p))"

lemma unit_match: "profile_proper p \<Longrightarrow> unit (capability_match p dimension)"
  by (force simp: profile_proper_def capability_match_def unit_def dest: map_of_SomeD split: option.split)

lemma unit_history: "profile_proper p \<Longrightarrow> unit (historical_success p)"
proof -
  assume a: "profile_proper p"
  let ?d = "of_int (max 1 (ei_internal_runs (cp_evidence p))) :: rat"
  have "(of_int (ei_successful_runs (cp_evidence p)) :: rat) \<le> ?d"
    using a unfolding profile_proper_def of_int_le_iff by blast
  moreover have "0 < ?d" by simp
  ultimately show ?thesis using a by (simp add: unit_def historical_success_def profile_proper_def divide_le_eq)
qed

definition routing_terms :: "capability_profile \<Rightarrow> string \<Rightarrow> string list \<Rightarrow> score_weights \<Rightarrow> (rat \<times> rat) list" where
  "routing_terms p dimension features w =
     [(capability_match p dimension, w_capability w), (historical_success p, w_history w),
      (of_bool (ci_file_tools (cp_constraints p)), w_tools w), (project_stack_match dimension features, w_stack w),
      (1, w_available w), (cost_efficiency p, w_cost w), (latency_score p, w_latency w)]"

lemma weighted_mean:
  fixes ts :: "(rat \<times> rat) list"
  assumes "\<forall>(x, w) \<in> set ts. lo \<le> x \<and> x \<le> hi \<and> 0 \<le> w"
  shows "lo * sum_list (map snd ts) \<le> (\<Sum>(x, w) \<leftarrow> ts. x * w)" "(\<Sum>(x, w) \<leftarrow> ts. x * w) \<le> hi * sum_list (map snd ts)"
  using assms by (induction ts) (auto simp: distrib_left intro!: add_mono mult_right_mono)

lemma routing_score_mean:
  "routing_score p dimension features pol =
     clamp (\<Sum>(x, w) \<leftarrow> routing_terms p dimension features (policy_weights pol). x * w)"
  by (simp add: routing_score_def routing_terms_def Let_def add_ac)

lemma routing_terms_sum: "sum_list (map snd (routing_terms p dimension features (policy_weights pol))) = 1"
  using policy_weights_ok [of pol] by (simp add: routing_terms_def weights_ok_def add_ac)

lemma routing_terms_ok:
  assumes "profile_proper p" "(x, w) \<in> set (routing_terms p dimension features (policy_weights pol))"
  shows "unit x" "0 \<le> w"
  using assms policy_weights_ok [of pol] unit_match [OF assms(1)] unit_history [OF assms(1)] unit_stack
  by (auto simp: routing_terms_def weights_ok_def) (simp_all add: unit_def)

lemma score_is_mean:
  assumes "profile_proper p"
  shows "routing_score p dimension features pol =
    (\<Sum>(x, w) \<leftarrow> routing_terms p dimension features (policy_weights pol). x * w)"
proof -
  have "\<forall>(x, w) \<in> set (routing_terms p dimension features (policy_weights pol)). 0 \<le> x \<and> x \<le> 1 \<and> 0 \<le> w"
    using routing_terms_ok [OF assms] unfolding unit_def by blast
  note weighted_mean [OF this]
  then show ?thesis by (simp add: routing_score_mean routing_terms_sum unit_def)
qed

lemma score_unit: "unit (routing_score p dimension features pol)"
  by (simp add: routing_score_def Let_def)

text \<open>A better capability never lowers the score.\<close>

lemma score_mono:
  assumes "capability_match p dimension \<le> capability_match q dimension"
    "historical_success p \<le> historical_success q" "ci_file_tools (cp_constraints p) \<longrightarrow> ci_file_tools (cp_constraints q)"
    "cp_operational p = cp_operational q"
  shows "routing_score p dimension features pol \<le> routing_score q dimension features pol"
proof -
  have "(of_bool (ci_file_tools (cp_constraints p)) :: rat) \<le> of_bool (ci_file_tools (cp_constraints q))"
    using assms(3) by simp
  then show ?thesis
    using assms policy_weights_ok [of pol] unfolding routing_score_def Let_def weights_ok_def
    by (intro clamp_mono add_mono mult_right_mono) (simp_all add: cost_efficiency_def latency_score_def)
qed

section \<open>Calibration from benchmarks\<close>

definition BENCHMARK_TO_DIMS :: "(string \<times> (string \<times> rat) list) list" where
  "BENCHMARK_TO_DIMS =
     [(''swe_bench'', [(''backend'', 95/100), (''testing'', 85/100), (''frontend'', 55/100), (''architecture'', 70/100)]),
      (''terminal_bench'', [(''devops'', 90/100), (''backend'', 75/100), (''testing'', 70/100)]),
      (''livecode_bench'', [(''backend'', 85/100), (''testing'', 80/100), (''architecture'', 65/100)])]"

definition BENCHMARK_CONFIDENCE :: rat where "BENCHMARK_CONFIDENCE = 1/4"

definition calibrated_domain :: "rat \<Rightarrow> capability_domain" where
  "calibrated_domain score = \<lparr>cd_score = score, cd_confidence = BENCHMARK_CONFIDENCE, cd_sub_scores = [],
     cd_strengths = [], cd_weaknesses = []\<rparr>"

definition raise_domain :: "rat \<Rightarrow> string \<times> rat \<Rightarrow> (string \<times> capability_domain) list \<Rightarrow> (string \<times> capability_domain) list" where
  "raise_domain raw dw domains = (case dw of (dmn, weight) \<Rightarrow>
     (let score = weight * raw
      in case dict_get domains dmn of
           None \<Rightarrow> dict_set dmn (calibrated_domain score) domains
         | Some existing \<Rightarrow> if score > cd_score existing then dict_set dmn (calibrated_domain score) domains else domains))"

text \<open>A benchmark gives its dimensions their weights, and a raw score; an unknown one gives none.\<close>

definition read_benchmark :: "py_builtins \<Rightarrow> (string \<times> json) list \<Rightarrow> profile_error + (string \<times> rat) list \<times> rat" where
  "read_benchmark B bench =
     (case map_of BENCHMARK_TO_DIMS (jfield B bench ''name'' []) of
        None \<Rightarrow> Inr ([], 0)
      | Some mapping \<Rightarrow> map_sum id (Pair mapping) (num_of B (jget_default bench ''raw_score'' (JFloat 0))))"

definition calibrate_one ::
  "(string \<times> rat) list \<times> rat \<Rightarrow> (string \<times> capability_domain) list \<Rightarrow> (string \<times> capability_domain) list" where
  "calibrate_one bench domains = (case bench of (mapping, raw) \<Rightarrow> fold (raise_domain raw) mapping domains)"

definition calibrate ::
  "py_builtins \<Rightarrow> (string \<times> json) list list \<Rightarrow> profile_error + (string \<times> capability_domain) list" where
  "calibrate B benchmarks = map_sum id (\<lambda>bs. fold calibrate_one bs []) (try_map (read_benchmark B) benchmarks)"

text \<open>The evidence for one dimension: every score the benchmarks give it.\<close>

definition dim_scores :: "((string \<times> rat) list \<times> rat) list \<Rightarrow> string \<Rightarrow> rat list" where
  "dim_scores benchmarks dmn =
     concat (map (\<lambda>(mapping, raw). map (\<lambda>dw. snd dw * raw) (filter (\<lambda>dw. fst dw = dmn) mapping)) benchmarks)"

definition best_of :: "rat list \<Rightarrow> capability_domain option" where
  "best_of xs = (if xs = [] then None else Some (calibrated_domain (Max (set xs))))"

lemma best_of_snoc:
  "best_of (xs @ [y]) = Some (calibrated_domain (if xs = [] then y else max (Max (set xs)) y))"
  by (simp add: best_of_def max.commute)

lemma raise_domain_get:
  assumes "fst dw \<noteq> dmn"
  shows "dict_get (raise_domain raw dw ds) dmn = dict_get ds dmn"
  using assms by (cases dw) (auto simp: raise_domain_def Let_def dict_get_set split: option.split)

lemma raise_domain_hit:
  assumes "dict_get ds dmn = best_of xs"
  shows "dict_get (raise_domain raw (dmn, w) ds) dmn = best_of (xs @ [w * raw])"
proof (cases "xs = []")
  case True
  then show ?thesis using assms by (simp add: raise_domain_def best_of_def dict_get_set Let_def)
next
  case False
  obtain m where m: "Max (set xs) = m" by blast
  have "dict_get ds dmn = Some (calibrated_domain m)" using assms False m by (simp add: best_of_def)
  then show ?thesis
    using False by (simp add: raise_domain_def Let_def dict_get_set best_of_snoc m max_def calibrated_domain_def)
qed

lemma raise_domains_get:
  assumes "dict_get ds dmn = best_of xs"
  shows "dict_get (fold (raise_domain raw) ms ds) dmn
    = best_of (xs @ map (\<lambda>dw. snd dw * raw) (filter (\<lambda>dw. fst dw = dmn) ms))"
  using assms
proof (induction ms arbitrary: ds xs)
  case (Cons m ms)
  show ?case
  proof (cases "fst m = dmn")
    case True
    then obtain w where m: "m = (dmn, w)" by (cases m) auto
    show ?thesis using Cons.IH [OF raise_domain_hit [OF Cons.prems], of raw w] m by simp
  next
    case False
    then show ?thesis using Cons.IH [of "raise_domain raw m ds" xs] raise_domain_get [OF False] Cons.prems by simp
  qed
qed simp

lemma calibrate_from:
  assumes "dict_get ds dmn = best_of xs"
  shows "dict_get (fold calibrate_one bs ds) dmn = best_of (xs @ dim_scores bs dmn)"
  using assms
proof (induction bs arbitrary: ds xs)
  case (Cons b bs)
  obtain mapping raw where b: "b = (mapping, raw)" by (cases b)
  show ?case
    using Cons.IH [OF raise_domains_get [OF Cons.prems, of raw mapping]] by (simp add: b dim_scores_def calibrate_one_def)
qed (simp add: dim_scores_def)

text \<open>Each dimension gets the best of its benchmark scores, whatever the order of the benchmarks.\<close>

lemma calibrate_best:
  assumes "calibrate B benchmarks = Inr domains"
  obtains bs where "try_map (read_benchmark B) benchmarks = Inr bs" "\<And>dmn. dict_get domains dmn = best_of (dim_scores bs dmn)"
proof -
  obtain bs where bs: "try_map (read_benchmark B) benchmarks = Inr bs" "domains = fold calibrate_one bs []"
    using assms unfolding calibrate_def by (cases "try_map (read_benchmark B) benchmarks") auto
  then have "dict_get domains dmn = best_of (dim_scores bs dmn)" for dmn
    using calibrate_from [of "[]" dmn "[]" bs] by (simp add: best_of_def dict_get_def)
  then show ?thesis using bs that by blast
qed

end
