(* ===== verification/Capability_Match.thy ===== *)
theory Capability_Match
  imports Capability_Profile "HOL-Library.Multiset" "HOL-Library.Product_Lexorder"
begin

text \<open>
  \<^verbatim>\<open>src/voly/capability/registry.py\<close>, \<^verbatim>\<open>matcher.py\<close>, \<^verbatim>\<open>fallback.py\<close> and \<^verbatim>\<open>routing.py\<close>: the
  directory of profiles over the packaged seeds, the ranking of the executors for a request, with
  the hosted matcher's reply when there is one, and the chain of executors to fall back on.  A
  directory is a dictionary from file stems to parsed documents, one per suffix; the hosted matcher
  is a function from the request and its URL to the decoded reply (\<open>None\<close> for any failure).
\<close>

section \<open>The registry\<close>

type_synonym profile_doc = "py_exn + (string \<times> json) list"

record registry =
  rg_yaml :: "(string \<times> profile_doc) list"
  rg_yml :: "(string \<times> profile_doc) list"
  rg_seed_yaml :: "(string \<times> profile_doc) list"
  rg_seed_yml :: "(string \<times> profile_doc) list"
  rg_writable :: bool

definition read_profile :: "py_builtins \<Rightarrow> profile_doc \<Rightarrow> profile_error + capability_profile" where
  "read_profile B doc = (case doc of Inl e \<Rightarrow> Inl (ProfileRaises e) | Inr d \<Rightarrow> profile_from_dict B d)"

definition seed_doc :: "registry \<Rightarrow> string \<Rightarrow> profile_doc option" where
  "seed_doc r executor_id =
     (case dict_get (rg_seed_yaml r) executor_id of Some d \<Rightarrow> Some d | None \<Rightarrow> dict_get (rg_seed_yml r) executor_id)"

definition reg_save :: "capability_profile \<Rightarrow> registry \<Rightarrow> registry \<times> (profile_error + unit)" where
  "reg_save p r =
     (if rg_writable r then (r\<lparr>rg_yaml := dict_set (cp_id p) (Inr (profile_to_dict p)) (rg_yaml r)\<rparr>, Inr ())
      else (r, Inl (ProfileRaises PyOSError)))"

definition reg_load :: "py_builtins \<Rightarrow> registry \<Rightarrow> string \<Rightarrow> registry \<times> (profile_error + capability_profile)" where
  "reg_load B r executor_id =
     (case dict_get (rg_yaml r) executor_id of
        Some doc \<Rightarrow> (r, read_profile B doc)
      | None \<Rightarrow>
          (case seed_doc r executor_id of
             None \<Rightarrow> (r, Inr (unknown_profile executor_id))
           | Some doc \<Rightarrow>
               (case read_profile B doc of
                  Inl e \<Rightarrow> (r, Inl e)
                | Inr p \<Rightarrow> (case reg_save p r of (r', Inl e) \<Rightarrow> (r', Inl e) | (r', Inr u) \<Rightarrow> (r', Inr p)))))"

definition list_ids :: "registry \<Rightarrow> string list" where
  "list_ids r = sorted_set (map fst (rg_yaml r @ rg_yml r @ rg_seed_yaml r @ rg_seed_yml r))"

definition reg_reset :: "string \<Rightarrow> registry \<Rightarrow> registry" where
  "reg_reset executor_id r = r\<lparr>rg_yaml := dict_del executor_id (rg_yaml r)\<rparr>"

definition reg_reset_all :: "registry \<Rightarrow> registry" where
  "reg_reset_all r = r\<lparr>rg_yaml := [], rg_yml := []\<rparr>"

text \<open>Loading one profile after the other; the first failure ends it.\<close>

fun load_each :: "('r \<Rightarrow> 'i \<Rightarrow> 'r \<times> ('e + 'p)) \<Rightarrow> 'r \<Rightarrow> 'i list \<Rightarrow> 'r \<times> ('e + ('i \<times> 'p) list)" where
  "load_each ld r [] = (r, Inr [])"
| "load_each ld r (i # is) = (case ld r i of
     (r1, Inl e) \<Rightarrow> (r1, Inl e)
   | (r1, Inr p) \<Rightarrow> (case load_each ld r1 is of
       (r2, Inl e) \<Rightarrow> (r2, Inl e)
     | (r2, Inr ps) \<Rightarrow> (r2, Inr ((i, p) # ps))))"

section \<open>What a reader of profiles relies on\<close>

text \<open>A source whose answers do not change while it is read, although reading may store seeds.\<close>

locale profile_source =
  fixes load :: "'r \<Rightarrow> 'i \<Rightarrow> 'r \<times> ('e + 'p)"
    and view :: "'r \<Rightarrow> 'i \<Rightarrow> 'p"
    and good :: "'r \<Rightarrow> bool"
  assumes load_view: "good r \<Longrightarrow> \<exists>r'. load r i = (r', Inr (view r i)) \<and> good r' \<and> view r' = view r"
begin

lemma load_each_view:
  assumes "good r"
  shows "\<exists>r'. load_each load r is = (r', Inr (map (\<lambda>i. (i, view r i)) is)) \<and> good r' \<and> view r' = view r"
  using assms
proof (induction "is" arbitrary: r)
  case (Cons i "is")
  obtain r1 where 1: "load r i = (r1, Inr (view r i))" "good r1" "view r1 = view r"
    using load_view [OF Cons.prems] by blast
  obtain r2 where "load_each load r1 is = (r2, Inr (map (\<lambda>i. (i, view r1 i)) is))" "good r2" "view r2 = view r1"
    using Cons.IH [OF 1(2)] by blast
  then show ?case using 1 by simp
qed simp

end

definition reg_view :: "py_builtins \<Rightarrow> registry \<Rightarrow> string \<Rightarrow> capability_profile" where
  "reg_view B r i = (case snd (reg_load B r i) of Inr p \<Rightarrow> p | Inl _ \<Rightarrow> unknown_profile i)"

text \<open>A healthy registry: every document reads as the profile its file is named after.\<close>

definition reg_ok :: "py_builtins \<Rightarrow> registry \<Rightarrow> bool" where
  "reg_ok B r \<longleftrightarrow> py_builtins_ok B \<and> rg_writable r \<and>
     (\<forall>i doc. (dict_get (rg_yaml r) i = Some doc \<or> seed_doc r i = Some doc) \<longrightarrow>
        (\<exists>p. read_profile B doc = Inr p \<and> cp_id p = i \<and> cp_kind p \<noteq> []))"

lemma reg_load_ok:
  assumes "reg_ok B r"
  shows "\<exists>r'. reg_load B r i = (r', Inr (reg_view B r i)) \<and> reg_ok B r' \<and> reg_view B r' = reg_view B r"
proof (cases "dict_get (rg_yaml r) i")
  case (Some doc)
  then show ?thesis using assms by (fastforce simp: reg_ok_def reg_load_def reg_view_def)
next
  case None
  show ?thesis
  proof (cases "seed_doc r i")
    case None2: None
    then show ?thesis using assms None by (simp add: reg_load_def reg_view_def)
  next
    case (Some doc)
    then obtain p where p: "read_profile B doc = Inr p" "cp_id p = i" "cp_kind p \<noteq> []"
      using assms unfolding reg_ok_def by blast
    let ?r = "r\<lparr>rg_yaml := dict_set i (Inr (profile_to_dict p)) (rg_yaml r)\<rparr>"
    have ok: "py_builtins_ok B" "rg_writable r" using assms by (auto simp: reg_ok_def)
    have rd: "read_profile B (Inr (profile_to_dict p)) = Inr p"
      using profile_codec_roundtrip [OF ok(1) p(3)] by (simp add: read_profile_def)
    have load: "reg_load B r i = (?r, Inr p)"
      using None Some p ok by (simp add: reg_load_def reg_save_def)
    have seeds: "seed_doc ?r = seed_doc r" by (auto simp: fun_eq_iff seed_doc_def split: option.split)
    have "reg_ok B ?r"
      using assms p rd seeds by (auto simp: reg_ok_def dict_get_set split: if_splits)
    moreover have "reg_view B ?r j = reg_view B r j" for j
      using load rd seeds None by (cases "j = i") (simp_all add: reg_view_def reg_load_def dict_get_set reg_save_def
          split: option.split sum.split)
    ultimately show ?thesis using load by (auto simp: reg_view_def)
  qed
qed

interpretation reg: profile_source "reg_load B" "reg_view B" "reg_ok B" for B
  by unfold_locales (rule reg_load_ok)

text \<open>A \<^verbatim>\<open>.yml\<close> profile is listed and never read.\<close>

lemma yml_profile_ignored:
  assumes "dict_get (rg_yaml r) i = None" "seed_doc r i = None" "i \<in> set (map fst (rg_yml r))"
  shows "i \<in> set (list_ids r)" "snd (reg_load B r i) = Inr (unknown_profile i)"
  using assms by (auto simp: list_ids_def reg_load_def)

section \<open>Requests and results\<close>

record match_request =
  mr_dimension :: string
  mr_available :: "string list option"
  mr_features :: "string list"
  mr_kind :: string
  mr_file_tools :: bool
  mr_browser_tools :: bool
  mr_worker_url :: string
  mr_policy :: string

record match_result =
  mt_recommended :: "capability_profile option"
  mt_score :: rat
  mt_fallbacks :: "(capability_profile \<times> rat) list"
  mt_excluded :: "(string \<times> string) list"
  mt_degraded :: bool

type_synonym worker = "match_request \<Rightarrow> string \<Rightarrow> json option"

definition no_match :: "(string \<times> string) list \<Rightarrow> bool \<Rightarrow> match_result" where
  "no_match excluded degraded = \<lparr>mt_recommended = None, mt_score = 0, mt_fallbacks = [], mt_excluded = excluded,
     mt_degraded = degraded\<rparr>"

definition kind_of :: "capability_profile \<Rightarrow> string" where
  "kind_of p = str_or (cp_kind p) ''executor''"

definition filter_result_by_kind :: "match_result \<Rightarrow> string \<Rightarrow> match_result option" where
  "filter_result_by_kind res kind0 =
     (let kind = strip kind0
      in if kind = [] then Some res
         else let keep = filter (\<lambda>(p, s). kind_of p = kind) (mt_fallbacks res)
              in case mt_recommended res of
                   Some p \<Rightarrow> if kind_of p = kind then Some (res\<lparr>mt_fallbacks := keep\<rparr>)
                             else (case keep of [] \<Rightarrow> None
                                   | (q, s) # others \<Rightarrow> Some (res\<lparr>mt_recommended := Some q, mt_score := s, mt_fallbacks := others\<rparr>))
                 | None \<Rightarrow> (case keep of [] \<Rightarrow> None
                                   | (q, s) # others \<Rightarrow> Some (res\<lparr>mt_recommended := Some q, mt_score := s, mt_fallbacks := others\<rparr>)))"

section \<open>The hosted matcher\<close>

definition parse_excluded :: "py_builtins \<Rightarrow> json \<Rightarrow> (string \<times> string) list" where
  "parse_excluded B raw = (case raw of
     JList es \<Rightarrow> List.map_filter (\<lambda>e. case e of
         JObj d \<Rightarrow> (case map_of d ''executor_id'' of
             None \<Rightarrow> None | Some v \<Rightarrow> Some (py_str B v, py_str B (jget_default d ''reason'' (JStr []))))
       | _ \<Rightarrow> None) es
   | _ \<Rightarrow> [])"

definition reply_score :: "py_builtins \<Rightarrow> (string \<times> json) list \<Rightarrow> profile_error + rat" where
  "reply_score B d = num_of B (jget_default d ''routing_score'' (jget_default d ''score'' (JFloat 0)))"

fun parse_fallbacks ::
  "py_builtins \<Rightarrow> registry \<Rightarrow> json list \<Rightarrow> registry \<times> (profile_error + (capability_profile \<times> rat) list)" where
  "parse_fallbacks B r [] = (r, Inr [])"
| "parse_fallbacks B r (e # es) = (case e of
     JObj d \<Rightarrow> (case map_of d ''executor_id'' of
        None \<Rightarrow> parse_fallbacks B r es
      | Some v \<Rightarrow> (case reg_load B r (py_str B v) of
          (r1, Inl x) \<Rightarrow> (r1, Inl x)
        | (r1, Inr p) \<Rightarrow> (case reply_score B d of
            Inl x \<Rightarrow> (r1, Inl x)
          | Inr s \<Rightarrow> (case parse_fallbacks B r1 es of
              (r2, Inl x) \<Rightarrow> (r2, Inl x)
            | (r2, Inr ps) \<Rightarrow> (r2, Inr ((p, s) # ps))))))
   | _ \<Rightarrow> parse_fallbacks B r es)"

definition read_reply ::
  "py_builtins \<Rightarrow> registry \<Rightarrow> (string \<times> json) list \<Rightarrow> (string \<times> json) list \<Rightarrow> registry \<times> match_result option" where
  "read_reply B r data best =
     (case map_of best ''executor_id'' of
        None \<Rightarrow> (r, None)
      | Some v \<Rightarrow> (case reply_score B best of
          Inl x \<Rightarrow> (r, None)
        | Inr s \<Rightarrow> (case reg_load B r (py_str B v) of
            (r1, Inl x) \<Rightarrow> (r1, None)
          | (r1, Inr p) \<Rightarrow>
              (case parse_fallbacks B r1 (case jget data ''fallbacks'' of JList es \<Rightarrow> es | _ \<Rightarrow> []) of
                 (r2, Inl x) \<Rightarrow> (r2, None)
               | (r2, Inr fb) \<Rightarrow> (r2, Some \<lparr>mt_recommended = Some p, mt_score = s, mt_fallbacks = fb,
                   mt_excluded = parse_excluded B (jget data ''excluded''), mt_degraded = False\<rparr>)))))"

definition remote_match ::
  "py_builtins \<Rightarrow> worker \<Rightarrow> registry \<Rightarrow> match_request \<Rightarrow> string \<Rightarrow> registry \<times> match_result option" where
  "remote_match B W r req url =
     (case W req url of
        Some (JObj data) \<Rightarrow>
          (let raw = jget data ''recommended''
           in if \<not> truthy raw then (r, Some (no_match (parse_excluded B (jget data ''excluded'')) False))
              else case raw of JObj best \<Rightarrow> read_reply B r data best | _ \<Rightarrow> (r, None))
      | _ \<Rightarrow> (r, None))"

section \<open>The local matcher\<close>

definition gate :: "match_request \<Rightarrow> capability_profile \<Rightarrow> string option" where
  "gate req p = hard_exclude p (mr_file_tools req) (mr_browser_tools req)"

definition request_score :: "match_request \<Rightarrow> capability_profile \<Rightarrow> rat" where
  "request_score req p = routing_score p (mr_dimension req) (mr_features req) (mr_policy req)"

definition rank :: "match_request \<Rightarrow> (string \<times> capability_profile) list \<Rightarrow> match_result" where
  "rank req ps =
     (let excluded = List.map_filter (\<lambda>(i, p). map_option (Pair i) (gate req p)) ps;
          included = map (\<lambda>(i, p). (p, request_score req p)) (filter (\<lambda>(i, p). gate req p = None) ps)
      in case sort_key (\<lambda>x. - snd x) included of
           [] \<Rightarrow> no_match excluded True
         | (p, s) # others \<Rightarrow> \<lparr>mt_recommended = Some p, mt_score = s, mt_fallbacks = others, mt_excluded = excluded,
             mt_degraded = False\<rparr>)"

definition allowed_ids :: "registry \<Rightarrow> match_request \<Rightarrow> string list" where
  "allowed_ids r req =
     (case mr_available req of None \<Rightarrow> list_ids r | Some av \<Rightarrow> filter (\<lambda>i. i \<in> set av) (list_ids r))"

definition kind_ids ::
  "py_builtins \<Rightarrow> registry \<Rightarrow> match_request \<Rightarrow> registry \<times> (profile_error + string list)" where
  "kind_ids B r req =
     (if mr_kind req = [] then (r, Inr (allowed_ids r req))
      else case load_each (reg_load B) r (allowed_ids r req) of
             (r1, Inl e) \<Rightarrow> (r1, Inl e)
           | (r1, Inr ps) \<Rightarrow> (r1, Inr (map fst (filter (\<lambda>(i, p). cp_kind p = mr_kind req) ps))))"

definition local_match ::
  "py_builtins \<Rightarrow> registry \<Rightarrow> match_request \<Rightarrow> registry \<times> (profile_error + match_result)" where
  "local_match B r req =
     (case kind_ids B r req of
        (r1, Inl e) \<Rightarrow> (r1, Inl e)
      | (r1, Inr ids) \<Rightarrow> (case load_each (reg_load B) r1 ids of
          (r2, Inl e) \<Rightarrow> (r2, Inl e)
        | (r2, Inr ps) \<Rightarrow> (r2, Inr (rank req ps))))"

definition use_remote :: "string \<Rightarrow> match_request \<Rightarrow> bool" where
  "use_remote url req \<longleftrightarrow> url \<noteq> [] \<and> lower (strip (str_or (mr_policy req) ''balanced'')) \<in> {[], ''balanced''}"

definition find_executors ::
  "py_builtins \<Rightarrow> worker \<Rightarrow> string \<Rightarrow> registry \<Rightarrow> match_request \<Rightarrow> registry \<times> (profile_error + match_result)" where
  "find_executors B W own_url r req =
     (let url = rstrip_chars ''/'' (str_or (mr_worker_url req) (rstrip_chars ''/'' own_url))
      in if use_remote url req
         then case remote_match B W r req url of
                (r1, None) \<Rightarrow> local_match B r1 req
              | (r1, Some res) \<Rightarrow> (case filter_result_by_kind res (mr_kind req) of
                    None \<Rightarrow> local_match B r1 req
                  | Some res' \<Rightarrow> (r1, Inr res'))
         else local_match B r req)"

section \<open>What the local matcher answers\<close>

definition eligible :: "py_builtins \<Rightarrow> registry \<Rightarrow> match_request \<Rightarrow> string list" where
  "eligible B r req =
     filter (\<lambda>i. mr_kind req = [] \<or> cp_kind (reg_view B r i) = mr_kind req) (allowed_ids r req)"

definition view_pairs :: "py_builtins \<Rightarrow> registry \<Rightarrow> string list \<Rightarrow> (string \<times> capability_profile) list" where
  "view_pairs B r is = map (\<lambda>i. (i, reg_view B r i)) is"

lemma kind_ids_view:
  assumes "reg_ok B r"
  shows "\<exists>r'. kind_ids B r req = (r', Inr (eligible B r req)) \<and> reg_ok B r' \<and> reg_view B r' = reg_view B r"
proof (cases "mr_kind req = []")
  case True
  then show ?thesis using assms by (simp add: kind_ids_def eligible_def)
next
  case False
  obtain r' where r': "load_each (reg_load B) r (allowed_ids r req)
      = (r', Inr (map (\<lambda>i. (i, reg_view B r i)) (allowed_ids r req)))" "reg_ok B r'" "reg_view B r' = reg_view B r"
    using reg.load_each_view [OF assms] by blast
  have "map fst (filter (\<lambda>(i, p). cp_kind p = mr_kind req) (map (\<lambda>i. (i, reg_view B r i)) is))
      = filter (\<lambda>i. cp_kind (reg_view B r i) = mr_kind req) is" for "is"
    by (induction "is") auto
  then show ?thesis using r' False by (simp add: kind_ids_def eligible_def)
qed

lemma local_match_rank:
  assumes "reg_ok B r"
  shows "\<exists>r'. local_match B r req = (r', Inr (rank req (view_pairs B r (eligible B r req)))) \<and> reg_ok B r' \<and>
    reg_view B r' = reg_view B r"
proof -
  obtain r1 where 1: "kind_ids B r req = (r1, Inr (eligible B r req))" "reg_ok B r1" "reg_view B r1 = reg_view B r"
    using kind_ids_view [OF assms] by blast
  obtain r2 where "load_each (reg_load B) r1 (eligible B r req)
      = (r2, Inr (map (\<lambda>i. (i, reg_view B r1 i)) (eligible B r req)))" "reg_ok B r2" "reg_view B r2 = reg_view B r1"
    using reg.load_each_view [OF 1(2)] by blast
  then show ?thesis using 1 by (simp add: local_match_def view_pairs_def)
qed

text \<open>The ranking as one list, best first.\<close>

definition ranking :: "match_result \<Rightarrow> (capability_profile \<times> rat) list" where
  "ranking res = (case mt_recommended res of None \<Rightarrow> [] | Some p \<Rightarrow> (p, mt_score res) # mt_fallbacks res)"

lemma rank_ranking: "ranking (rank req ps) =
    sort_key (\<lambda>x. - snd x) (map (\<lambda>(i, p). (p, request_score req p)) (filter (\<lambda>(i, p). gate req p = None) ps))"
  by (auto simp: rank_def ranking_def no_match_def Let_def split: list.split)

lemma rank_excluded: "mt_excluded (rank req ps) = List.map_filter (\<lambda>(i, p). map_option (Pair i) (gate req p)) ps"
  by (simp add: rank_def no_match_def Let_def split: list.split)

lemma rank_degraded: "mt_degraded (rank req ps) \<longleftrightarrow> ranking (rank req ps) = []"
  by (simp add: rank_def ranking_def no_match_def Let_def split: list.split)

lemma ranking_result:
  assumes "res = rank req (view_pairs B r is)"
  shows "mset (map fst (ranking res)) = mset (map (reg_view B r) (filter (\<lambda>i. gate req (reg_view B r i) = None) is))"
    and "sorted_wrt (\<lambda>x y. snd x \<ge> snd y) (ranking res)"
    and "\<forall>(p, s) \<in> set (ranking res). s = request_score req p"
    and "mt_excluded res = map (\<lambda>i. (i, the (gate req (reg_view B r i)))) (filter (\<lambda>i. gate req (reg_view B r i) \<noteq> None) is)"
    and "mt_degraded res \<longleftrightarrow> (\<forall>i \<in> set is. gate req (reg_view B r i) \<noteq> None)"
proof -
  have split: "map (\<lambda>(i, p). (p, request_score req p)) (filter (\<lambda>(i, p). gate req p = None) (view_pairs B r is))
      = map (\<lambda>i. (reg_view B r i, request_score req (reg_view B r i))) (filter (\<lambda>i. gate req (reg_view B r i) = None) is)"
    by (induction "is") (auto simp: view_pairs_def)
  note rk = rank_ranking [of req "view_pairs B r is", folded assms, unfolded split]
  show "mset (map fst (ranking res)) = mset (map (reg_view B r) (filter (\<lambda>i. gate req (reg_view B r i) = None) is))"
    by (simp add: rk multiset.map_comp comp_def)
  show "sorted_wrt (\<lambda>x y. snd x \<ge> snd y) (ranking res)"
    using sorted_sort_key [of "\<lambda>x. - snd x" "map (\<lambda>i. (reg_view B r i, request_score req (reg_view B r i)))
      (filter (\<lambda>i. gate req (reg_view B r i) = None) is)"]
    by (simp add: rk sorted_map)
  show "\<forall>(p, s) \<in> set (ranking res). s = request_score req p"
    by (auto simp: rk)
  show "mt_excluded res = map (\<lambda>i. (i, the (gate req (reg_view B r i)))) (filter (\<lambda>i. gate req (reg_view B r i) \<noteq> None) is)"
    unfolding assms rank_excluded
    by (induction "is") (auto simp: view_pairs_def List.map_filter_simps split: option.split)
  show "mt_degraded res \<longleftrightarrow> (\<forall>i \<in> set is. gate req (reg_view B r i) \<noteq> None)"
  proof -
    have "set (ranking res) = {} \<longleftrightarrow> (\<forall>i \<in> set is. gate req (reg_view B r i) \<noteq> None)" by (auto simp: rk)
    then show ?thesis by (simp add: assms rank_degraded)
  qed
qed

section \<open>With and without the hosted matcher\<close>

lemma no_worker_local:
  assumes "\<And>url. W req url = None"
  shows "find_executors B W own r req = local_match B r req"
  by (simp add: find_executors_def remote_match_def assms Let_def)

lemma policy_stays_local:
  assumes "lower (strip (mr_policy req)) \<notin> {[], ''balanced''}" "mr_policy req \<noteq> []"
  shows "find_executors B W own r req = local_match B r req"
  using assms by (simp add: find_executors_def use_remote_def Let_def)

lemma filter_kind_result:
  assumes "filter_result_by_kind res k = Some res'" "strip k \<noteq> []"
  shows "\<exists>p. mt_recommended res' = Some p \<and> kind_of p = strip k" "\<forall>(p, s) \<in> set (mt_fallbacks res'). kind_of p = strip k"
proof -
  have keep: "kind_of a = strip k \<and> (\<forall>(p, s) \<in> set ys. kind_of p = strip k)"
    if "filter (\<lambda>(p, s). kind_of p = strip k) xs = (a, b) # ys" for a b xs ys
  proof -
    have "list_all (\<lambda>(p, s). kind_of p = strip k) (filter (\<lambda>(p, s). kind_of p = strip k) xs)"
      by (simp add: list_all_iff)
    then show ?thesis unfolding that by (simp add: list_all_iff)
  qed
  show "\<exists>p. mt_recommended res' = Some p \<and> kind_of p = strip k" "\<forall>(p, s) \<in> set (mt_fallbacks res'). kind_of p = strip k"
    using assms unfolding filter_result_by_kind_def Let_def
    by (auto split: option.splits if_splits list.splits dest!: keep)
qed

lemma rank_members:
  assumes "x \<in> set (ranking (rank req ps))"
  obtains i where "(i, fst x) \<in> set ps" "gate req (fst x) = None"
  using assms unfolding rank_ranking by force

lemma load_each_members:
  assumes "load_each ld r is = (r', Inr ps)"
  shows "map fst ps = is"
  using assms by (induction "is" arbitrary: r r' ps) (auto split: prod.splits sum.splits)

text \<open>Whoever answers, a request for a kind is answered with that kind.\<close>

lemma local_kind:
  assumes "local_match B r req = (r', Inr res)" "mr_kind req \<noteq> []" "reg_ok B r" "(p, s) \<in> set (ranking res)"
  shows "cp_kind p = mr_kind req"
proof -
  have r: "res = rank req (view_pairs B r (eligible B r req))"
    using local_match_rank [OF assms(3), of req] assms(1) by auto
  obtain i where "(i, p) \<in> set (view_pairs B r (eligible B r req))"
    using rank_members [OF assms(4) [unfolded r]] by auto
  then show ?thesis using assms(2) by (auto simp: view_pairs_def eligible_def)
qed

lemma parse_fallbacks_ok:
  assumes "reg_ok B r"
  shows "reg_ok B (fst (parse_fallbacks B r es))"
  using assms
proof (induction es arbitrary: r)
  case (Cons e es)
  show ?case
  proof (cases "\<exists>d v. e = JObj d \<and> map_of d ''executor_id'' = Some v")
    case True
    then obtain d v where e: "e = JObj d" "map_of d ''executor_id'' = Some v" by blast
    obtain r1 p where "reg_load B r (py_str B v) = (r1, Inr p)" "reg_ok B r1"
      using reg_load_ok [OF Cons.prems] by blast
    then show ?thesis using e Cons.IH [of r1] by (auto split: sum.split prod.split)
  next
    case False
    then have "parse_fallbacks B r (e # es) = parse_fallbacks B r es"
      by (cases e) (auto split: option.split)
    then show ?thesis using Cons by simp
  qed
qed simp

lemma read_reply_ok:
  assumes "reg_ok B r"
  shows "reg_ok B (fst (read_reply B r data best))"
proof (cases "map_of best ''executor_id''")
  case None
  then show ?thesis using assms by (simp add: read_reply_def)
next
  case (Some v)
  obtain r1 p where l: "reg_load B r (py_str B v) = (r1, Inr p)" "reg_ok B r1"
    using reg_load_ok [OF assms] by blast
  have "reg_ok B (fst (parse_fallbacks B r1 es))" for es using parse_fallbacks_ok [OF l(2)] .
  then show ?thesis using Some l assms
    by (auto simp: read_reply_def split: sum.split prod.split) (metis fst_conv)+
qed

lemma remote_keeps_ok: "reg_ok B r \<Longrightarrow> reg_ok B (fst (remote_match B W r req url))"
  by (simp add: remote_match_def Let_def read_reply_ok split: option.split json.split)

lemma find_kind:
  assumes "find_executors B W own r req = (r', Inr res)" "reg_ok B r"
    "mr_kind req \<noteq> []" "strip (mr_kind req) = mr_kind req" "(p, s) \<in> set (ranking res)"
  shows "kind_of p = mr_kind req"
proof -
  have local_case: "kind_of p = mr_kind req" if "local_match B r1 req = (r', Inr res)" "reg_ok B r1" for r1
    using local_kind [OF that(1) assms(3) that(2) assms(5)] assms(3) by (simp add: kind_of_def)
  show ?thesis
  proof (cases "\<exists>url r1 o'. remote_match B W r req url = (r1, o') \<and>
      (case o' of None \<Rightarrow> False | Some q \<Rightarrow> filter_result_by_kind q (mr_kind req) = Some res)")
    case True
    then obtain q where "filter_result_by_kind q (mr_kind req) = Some res" by (auto split: option.splits)
    from filter_kind_result [OF this] show ?thesis using assms(3,4,5) by (auto simp: ranking_def)
  next
    case False
    have ok: "reg_ok B r1" if "remote_match B W r req url = (r1, x)" for r1 x url
      using remote_keeps_ok [OF assms(2), of W req url] that by simp
    show ?thesis using assms(1) False
      unfolding find_executors_def Let_def
      by (auto split: if_splits prod.splits option.splits intro: local_case assms(2) ok)
  qed
qed

text \<open>The hard gates are not put to a hosted answer: an executor without file tools is accepted.\<close>

definition toolless :: capability_profile where
  "toolless = (unknown_profile ''x'')\<lparr>cp_constraints := (cp_constraints (unknown_profile ''x''))\<lparr>ci_file_tools := False\<rparr>\<rparr>"

definition toolless_registry :: registry where
  "toolless_registry = \<lparr>rg_yaml = [(''x'', Inr (profile_to_dict toolless))], rg_yml = [], rg_seed_yaml = [],
     rg_seed_yml = [], rg_writable = True\<rparr>"

definition file_request :: match_request where
  "file_request = \<lparr>mr_dimension = ''backend'', mr_available = None, mr_features = [], mr_kind = ''executor'',
     mr_file_tools = True, mr_browser_tools = False, mr_worker_url = ''http://w'', mr_policy = ''balanced''\<rparr>"

lemma hosted_match_skips_gates:
  assumes "W file_request ''http://w'' = Some (JObj [(''recommended'', JObj [(''executor_id'', JStr ''x'')])])"
  shows "map_sum (\<lambda>_. ()) mt_recommended (snd (find_executors py_typed W [] toolless_registry file_request)) = Inr (Some toolless)"
    and "map_sum (\<lambda>_. ()) mt_recommended (snd (local_match py_typed toolless_registry file_request)) = Inr None"
proof -
  have rd: "read_profile py_typed (Inr (profile_to_dict toolless)) = Inr toolless"
    by (simp add: read_profile_def profile_codec_roundtrip toolless_def unknown_profile_def)
  have ld: "reg_load py_typed toolless_registry ''x'' = (toolless_registry, Inr toolless)"
    using rd by (simp add: reg_load_def toolless_registry_def dict_get_def)
  have ids: "list_ids toolless_registry = [''x'']" by (simp add: list_ids_def toolless_registry_def sorted_set_def)
  have k: "cp_kind toolless = ''executor''" "gate file_request toolless = Some ''missing_file_tools''"
    by (simp_all add: toolless_def unknown_profile_def gate_def file_request_def hard_exclude_def)
  have kind: "mr_kind file_request = ''executor''" "mr_available file_request = None" by (simp_all add: file_request_def)
  have url: "rstrip_chars ''/'' (str_or (mr_worker_url file_request) (rstrip_chars ''/'' [])) = ''http://w''"
    by (simp add: file_request_def rstrip_chars_def)
  have use: "use_remote ''http://w'' file_request"
    by (simp add: use_remote_def file_request_def strip_def is_space_def lower_def lower_char_def Let_def)
  have strip: "strip ''executor'' = ''executor''" by (simp add: strip_def is_space_def Let_def)
  have "remote_match py_typed W toolless_registry file_request ''http://w'' = (toolless_registry,
      Some \<lparr>mt_recommended = Some toolless, mt_score = 0, mt_fallbacks = [], mt_excluded = [], mt_degraded = False\<rparr>)"
    using ld by (simp add: remote_match_def assms jget_def read_reply_def reply_score_def jget_default_def
        parse_excluded_def Let_def)
  then show "map_sum (\<lambda>_. ()) mt_recommended (snd (find_executors py_typed W [] toolless_registry file_request)) = Inr (Some toolless)"
    using use k kind by (simp add: find_executors_def url filter_result_by_kind_def strip kind_of_def Let_def)
  have "kind_ids py_typed toolless_registry file_request = (toolless_registry, Inr [''x''])"
    using ids ld k kind by (simp add: kind_ids_def allowed_ids_def)
  then show "map_sum (\<lambda>_. ()) mt_recommended (snd (local_match py_typed toolless_registry file_request)) = Inr None"
    using ld k by (simp add: local_match_def rank_def no_match_def List.map_filter_simps)
qed

section \<open>The chain to fall back on\<close>

definition MINIMUM_SCORE :: rat where "MINIMUM_SCORE = 30/100"

definition profiles_only :: "registry \<Rightarrow> registry" where
  "profiles_only r = r\<lparr>rg_seed_yaml := [], rg_seed_yml := []\<rparr>"

definition has_materialized_profiles :: "registry \<Rightarrow> bool" where
  "has_materialized_profiles r \<longleftrightarrow> rg_yaml r \<noteq> [] \<or> rg_yml r \<noteq> []"

text \<open>The last position of an executor among the available ones (a repeated one overwrites).\<close>

definition position :: "string list \<Rightarrow> string \<Rightarrow> nat" where
  "position xs i = (case map_of (rev (zip xs [0..<length xs])) i of None \<Rightarrow> 999 | Some n \<Rightarrow> n)"

definition scored_chain :: "string \<Rightarrow> string list \<Rightarrow> bool \<Rightarrow> string list \<Rightarrow> (string \<times> capability_profile) list \<Rightarrow> (string \<times> rat) list" where
  "scored_chain dimension features file_tools available ps =
     sort_key (\<lambda>(i, s). (- s, position available i))
       (map (\<lambda>(i, p). (i, routing_score p dimension features ''balanced''))
         (filter (\<lambda>(i, p). hard_exclude p file_tools False = None) ps))"

definition finish_chain :: "string list \<Rightarrow> (string \<times> rat) list \<Rightarrow> string list" where
  "finish_chain static scored =
     (if scored = [] \<or> snd (hd scored) < MINIMUM_SCORE then static
      else map fst scored @ dict_fromkeys (filter (\<lambda>i. i \<notin> fst ` set scored) static))"

definition build_fallback_chain ::
  "py_builtins \<Rightarrow> registry \<Rightarrow> string \<Rightarrow> string list \<Rightarrow> string list \<Rightarrow> bool \<Rightarrow> string list \<Rightarrow> profile_error + string list" where
  "build_fallback_chain B r dimension available features file_tools static_chain =
     (let static = (if static_chain = [] then available else static_chain)
      in map_sum id (\<lambda>ps. finish_chain static (scored_chain dimension features file_tools available ps))
           (snd (load_each (reg_load B) (profiles_only r) available)))"

definition build_fallback_chain_or_static ::
  "py_builtins \<Rightarrow> registry \<Rightarrow> bool \<Rightarrow> string \<Rightarrow> string list \<Rightarrow> string list \<Rightarrow> bool \<Rightarrow> string list \<Rightarrow> profile_error + string list \<times> bool" where
  "build_fallback_chain_or_static B r enabled dimension available features file_tools static_chain =
     (if \<not> enabled \<or> \<not> has_materialized_profiles r then Inr (static_chain, False)
      else map_sum id (\<lambda>c. (c, True)) (build_fallback_chain B r dimension available features file_tools static_chain))"

lemma position_distinct:
  assumes "distinct xs" "n < length xs"
  shows "position xs (xs ! n) = n"
proof -
  have "map_of (rev (zip xs [0..<length xs])) (xs ! n) = map_of (zip xs [0..<length xs]) (xs ! n)"
    using assms(1) map_of_rev_distinct [of "zip xs [0..<length xs]"] by simp
  also have "\<dots> = Some n" using assms by (subst map_of_zip_nth) auto
  finally show ?thesis by (simp add: position_def)
qed

lemma profiles_only_ok: "reg_ok B r \<Longrightarrow> reg_ok B (profiles_only r)"
  by (simp add: reg_ok_def profiles_only_def seed_doc_def dict_get_def)

text \<open>What the chain is when the profiles can be read.\<close>

definition chain_scores ::
  "py_builtins \<Rightarrow> registry \<Rightarrow> string \<Rightarrow> string list \<Rightarrow> string list \<Rightarrow> bool \<Rightarrow> (string \<times> rat) list" where
  "chain_scores B r dimension available features file_tools =
     scored_chain dimension features file_tools available (view_pairs B (profiles_only r) available)"

lemma chain_read:
  assumes "reg_ok B r"
  shows "build_fallback_chain B r dimension available features file_tools static_chain =
    Inr (finish_chain (if static_chain = [] then available else static_chain)
          (chain_scores B r dimension available features file_tools))"
proof -
  obtain r' where "load_each (reg_load B) (profiles_only r) available
      = (r', Inr (map (\<lambda>i. (i, reg_view B (profiles_only r) i)) available))"
    using reg.load_each_view [OF profiles_only_ok [OF assms]] by blast
  then show ?thesis by (simp add: build_fallback_chain_def chain_scores_def view_pairs_def)
qed

lemma chain_scores_mset:
  "mset (chain_scores B r dimension available features file_tools) =
    mset (map (\<lambda>i. (i, routing_score (reg_view B (profiles_only r) i) dimension features ''balanced''))
      (filter (\<lambda>i. hard_exclude (reg_view B (profiles_only r) i) file_tools False = None) available))"
proof -
  have "map (\<lambda>(i, p). (i, routing_score p dimension features ''balanced''))
        (filter (\<lambda>(i, p). hard_exclude p file_tools False = None) (view_pairs B (profiles_only r) is))
      = map (\<lambda>i. (i, routing_score (reg_view B (profiles_only r) i) dimension features ''balanced''))
        (filter (\<lambda>i. hard_exclude (reg_view B (profiles_only r) i) file_tools False = None) is)" for "is"
    by (induction "is") (auto simp: view_pairs_def)
  then show ?thesis by (simp add: chain_scores_def scored_chain_def del: mset_map mset_filter)
qed

lemma chain_scores_sorted:
  "sorted_wrt (\<lambda>x y. snd x > snd y \<or> snd x = snd y \<and> position available (fst x) \<le> position available (fst y))
    (chain_scores B r dimension available features file_tools)"
proof -
  have "sorted (map (\<lambda>(i, s). (- s, position available i)) (chain_scores B r dimension available features file_tools))"
    by (simp add: chain_scores_def scored_chain_def)
  then show ?thesis
    unfolding sorted_map by (rule sorted_wrt_mono_rel [rotated]) (auto simp: case_prod_beta less_eq_prod_def)
qed

lemma finish_chain_members:
  "set (finish_chain static scored) = (if scored = [] \<or> snd (hd scored) < MINIMUM_SCORE then set static
    else fst ` set scored \<union> set static)"
  by (auto simp: finish_chain_def)

lemma finish_chain_distinct:
  assumes "distinct (map fst scored)" "distinct static"
  shows "distinct (finish_chain static scored)"
  using assms by (auto simp: finish_chain_def)

lemma dict_fromkeys_acc_distinct: "distinct xs \<Longrightarrow> set xs \<inter> set seen = {} \<Longrightarrow> dict_fromkeys_acc seen xs = xs"
  by (induction xs arbitrary: seen) auto

lemma chain_result:
  fixes B r dimension available features file_tools static_chain
  defines "static \<equiv> if static_chain = [] then available else static_chain"
    and "scored \<equiv> chain_scores B r dimension available features file_tools"
  assumes "reg_ok B r" "distinct available" "distinct static_chain"
    and "build_fallback_chain B r dimension available features file_tools static_chain = Inr chain"
  shows "distinct chain" "set static \<subseteq> set chain" "set chain \<subseteq> set available \<union> set static"
    and "scored \<noteq> [] \<Longrightarrow> snd (hd scored) \<ge> MINIMUM_SCORE \<Longrightarrow>
      chain = map fst scored @ filter (\<lambda>i. i \<notin> fst ` set scored) static"
    and "scored = [] \<or> snd (hd scored) < MINIMUM_SCORE \<Longrightarrow> chain = static"
proof -
  have chain: "chain = finish_chain static scored"
    using chain_read [OF assms(3)] assms(6) unfolding static_def scored_def by simp
  have st: "distinct static" using assms(4,5) by (simp add: static_def)
  have ms: "mset (map fst scored) = mset (filter (\<lambda>i. hard_exclude (reg_view B (profiles_only r) i) file_tools False = None) available)"
    unfolding mset_map chain_scores_mset scored_def by (simp add: multiset.map_comp comp_def)
  then have d: "distinct (map fst scored)" using assms(4) mset_eq_imp_distinct_iff by fastforce
  have sub: "fst ` set scored \<subseteq> set available" using mset_eq_setD [OF ms] by auto
  show "distinct chain" unfolding chain by (rule finish_chain_distinct [OF d st])
  show "set static \<subseteq> set chain" by (auto simp: chain finish_chain_members)
  show "set chain \<subseteq> set available \<union> set static" using sub by (auto simp: chain finish_chain_members)
  show "chain = map fst scored @ filter (\<lambda>i. i \<notin> fst ` set scored) static"
    if "scored \<noteq> []" "snd (hd scored) \<ge> MINIMUM_SCORE"
    using that st by (simp add: chain finish_chain_def dict_fromkeys_def dict_fromkeys_acc_distinct)
  show "chain = static" if "scored = [] \<or> snd (hd scored) < MINIMUM_SCORE"
    using that by (simp add: chain finish_chain_def)
qed

section \<open>The routing hint of the SDK\<close>

definition ROLE_DIMENSION :: "(string \<times> string) list" where
  "ROLE_DIMENSION =
     [(''developer'', ''backend''), (''tester'', ''testing''), (''devops'', ''devops''), (''architect'', ''architecture''),
      (''reviewer'', ''backend''), (''security'', ''backend''), (''frontend'', ''frontend''), (''bugfixer'', ''backend'')]"

definition role_to_dimension :: "string \<Rightarrow> string" where
  "role_to_dimension role = (case map_of ROLE_DIMENSION (lower (strip role)) of None \<Rightarrow> ''backend'' | Some d \<Rightarrow> d)"

text \<open>The configuration: switched on, the worker's URL and the policy; its registry is \<open>r\<close>.\<close>

record capability_cfg =
  cap_cfg_enabled :: bool
  cap_cfg_worker_url :: string
  cap_cfg_routing_policy :: string

definition capability_route ::
  "py_builtins \<Rightarrow> worker \<Rightarrow> capability_cfg \<Rightarrow> string \<Rightarrow> string \<Rightarrow> string list option \<Rightarrow> registry \<Rightarrow>
     registry \<times> (string \<times> string \<times> string) option" where
  "capability_route B W c role mode available r =
     (if \<not> cap_cfg_enabled c then (r, None)
      else let role_key = lower (strip role)
           in if role_key = [] then (r, None)
              else let kind = (if mode = ''executor'' then ''executor'' else ''model_provider'')
                   in case find_executors B W (cap_cfg_worker_url c) r
                        \<lparr>mr_dimension = role_to_dimension role_key, mr_available = available, mr_features = [], mr_kind = kind,
                         mr_file_tools = (kind = ''executor''), mr_browser_tools = False, mr_worker_url = [],
                         mr_policy = str_or (cap_cfg_routing_policy c) ''balanced''\<rparr> of
                        (r1, Inl e) \<Rightarrow> (r1, None)
                      | (r1, Inr res) \<Rightarrow> (r1, case mt_recommended res of
                            None \<Rightarrow> None
                          | Some p \<Rightarrow> if kind = ''executor'' then Some (cp_id p, [], [])
                                      else if cp_model p \<noteq> [] \<or> cp_provider p \<noteq> [] then Some ([], cp_model p, cp_provider p)
                                      else None))"

text \<open>Exactly one side of a hint is filled, by the mode alone.\<close>

lemma route_sides:
  assumes "capability_route B W c role mode available r = (r', Some (executor_id, model, provider))"
  shows "if mode = ''executor'' then model = [] \<and> provider = []
    else executor_id = [] \<and> (model \<noteq> [] \<or> provider \<noteq> [])"
  using assms unfolding capability_route_def Let_def
  by (auto split: if_splits prod.splits sum.splits option.splits)

end
