(* ===== verification/Lead_Assign.thy ===== *)
theory Lead_Assign
  imports Role_Models Capability_Match
begin

text \<open>
  \<^verbatim>\<open>LeadOrchestrator\<close> of \<^verbatim>\<open>src/voly/a2a/lead.py\<close>: a strong model proposes a tier, skills and a mode
  for each sub-task, the code accepts what is valid, and the capability matcher may override the
  model.  The text of the prompt, the skill registry's answers and the hosted matcher are given; the
  lead's call goes through the gateway's model.
\<close>

section \<open>State and configuration\<close>

record subtask =
  st_agent :: string
  st_description :: string
  st_depends_on :: "int list"

record lead_cfg =
  lc_mode :: string
  lc_model :: string
  lc_role_tiers :: "(string \<times> string) list"
  lc_matcher :: "(worker \<times> string) option"
  lc_features :: "string list"
  lc_policy :: string
  lc_skills :: "string \<Rightarrow> (string \<times> string) list"
  lc_prompt :: "subtask list \<Rightarrow> request"

record lead_entry =
  le_tier :: json
  le_skills :: "json list"
  le_execution :: string

type_synonym lead_plan = "(int \<times> lead_entry) list"

definition should_ask_llm :: "lead_cfg \<Rightarrow> subtask list \<Rightarrow> bool" where
  "should_ask_llm K subtasks =
     (let mode = lower (str_or (lc_mode K) ''llm'')
      in if mode = ''deterministic'' then False
         else if mode = ''llm'' then True
         else length subtasks > 5 \<or> list_ex (\<lambda>st. ROLE_TIER (role_key (st_agent st)) = None) subtasks)"

definition candidate_skills :: "lead_cfg \<Rightarrow> string \<Rightarrow> string list" where
  "candidate_skills K role = dict_fromkeys (filter (\<lambda>s. s \<noteq> []) (map fst (take 6 (lc_skills K role))))"

section \<open>The lead's answer\<close>

definition bracketed :: "string \<Rightarrow> string option" where
  "bracketed s =
     (let b = dropWhile (\<lambda>c. c \<noteq> CHR ''['') s; e = rev (dropWhile (\<lambda>c. c \<noteq> CHR '']'') (rev b))
      in if b = [] \<or> e = [] then None else Some e)"

definition read_entry :: "py_builtins \<Rightarrow> json \<Rightarrow> (int \<times> lead_entry) option" where
  "read_entry B item = (case item of
     JObj d \<Rightarrow> (case map_of d ''idx'' of
        None \<Rightarrow> None
      | Some v \<Rightarrow> (case py_int B v of
          Inl _ \<Rightarrow> None
        | Inr i \<Rightarrow>
            (let execution = lower (strip (py_str B (jor (jget d ''execution'') (JStr []))))
             in Some (i, \<lparr>le_tier = jget d ''tier'', le_skills = (case jget d ''skills'' of JList xs \<Rightarrow> xs | _ \<Rightarrow> []),
                  le_execution = (if execution \<in> {''chat'', ''executor''} then execution else [])\<rparr>))))
   | _ \<Rightarrow> None)"

definition parse_plan :: "gw_env \<Rightarrow> string \<Rightarrow> lead_plan" where
  "parse_plan E content = (case bracketed content of
     None \<Rightarrow> []
   | Some s \<Rightarrow> (case ge_loads E s of
       Inr (JList items) \<Rightarrow> fold (\<lambda>(i, e) d. dict_set i e d) (List.map_filter (read_entry (ge_builtins E)) items) []
     | _ \<Rightarrow> []))"

definition provider_for_model :: "string \<Rightarrow> string" where
  "provider_for_model model = (case find (\<lambda>kv. fst (snd kv) = model) PROVIDER_MODELS of
     Some kv \<Rightarrow> snd (snd kv) | None \<Rightarrow> ''anthropic'')"

definition ask_lead ::
  "gw_env \<Rightarrow> gw_cfg \<Rightarrow> (py_exn \<Rightarrow> string) \<Rightarrow> lead_cfg \<Rightarrow> subtask list \<Rightarrow> gw \<Rightarrow> lead_plan \<times> gw" where
  "ask_lead E C show_exn K subtasks g =
     (case (if lc_model K \<noteq> [] then ((lc_model K, provider_for_model (lc_model K)), g)
            else case resolve_role_model (ge_health E (gw_tick g)) (gw_health g) ''architect'' (Some ''premium'') of
                   (mp, h) \<Rightarrow> (mp, tick (g\<lparr>gw_health := h\<rparr>))) of
        ((model, provider), g1) \<Rightarrow>
          (case chat E C ((lc_prompt K subtasks)\<lparr>rq_model := model, rq_provider := provider, rq_agent := ''lead''\<rparr>) g1 of
             (Inl e, g2) \<Rightarrow> ([], exclude_provider_on_gateway_error E provider (show_exn e) g2)
           | (Inr resp, g2) \<Rightarrow>
               (let err = jget (as_dict resp) ''error''
                in if truthy err
                   then ([], exclude_provider_on_gateway_error E provider (py_str (ge_builtins E) err) g2)
                   else (case jor (jget (as_dict resp) ''content'') (JStr []) of
                           JStr content \<Rightarrow> (parse_plan E content, g2)
                         | _ \<Rightarrow> ([], exclude_provider_on_gateway_error E provider (show_exn PyAttributeError) g2)))))"

section \<open>The capability hint\<close>

fun healthy_ids ::
  "gw_env \<Rightarrow> string \<Rightarrow> string list \<Rightarrow> registry \<Rightarrow> gw \<Rightarrow> string list \<times> registry \<times> gw" where
  "healthy_ids E kind [] r g = ([], r, g)"
| "healthy_ids E kind (i # is) r g =
     (case reg_load (ge_builtins E) r i of
        (r1, Inl e) \<Rightarrow> healthy_ids E kind is r1 g
      | (r1, Inr p) \<Rightarrow>
          if kind \<noteq> [] \<and> kind_of p \<noteq> kind then healthy_ids E kind is r1 g
          else let provider = strip (cp_provider p)
               in case (if provider = [] then (True, g)
                        else case health_check E provider g of (st, g1) \<Rightarrow> (ps_healthy st, g1)) of
                    (ok, g1) \<Rightarrow> (case healthy_ids E kind is r1 g1 of
                      (ids, r2, g2) \<Rightarrow> (if ok then i # ids else ids, r2, g2)))"

definition available_profile_ids :: "gw_env \<Rightarrow> string \<Rightarrow> registry \<Rightarrow> gw \<Rightarrow> string list option \<times> registry \<times> gw" where
  "available_profile_ids E kind r g =
     (case healthy_ids E (strip kind) (list_ids r) r g of
        (ids, r1, g1) \<Rightarrow> (if ids = [] then None else Some ids, r1, g1))"

record capability_hint =
  ch_executor :: string
  ch_model :: string
  ch_provider :: string
  ch_execution :: string

definition hint_of :: "string \<Rightarrow> capability_profile \<Rightarrow> capability_hint" where
  "hint_of kind p =
     (if kind = ''executor'' then \<lparr>ch_executor = cp_id p, ch_model = [], ch_provider = [], ch_execution = ''executor''\<rparr>
      else if cp_model p \<noteq> [] \<or> cp_provider p \<noteq> []
      then \<lparr>ch_executor = [], ch_model = cp_model p, ch_provider = cp_provider p, ch_execution = []\<rparr>
      else \<lparr>ch_executor = cp_id p, ch_model = [], ch_provider = [], ch_execution = []\<rparr>)"

definition find_hint ::
  "gw_env \<Rightarrow> lead_cfg \<Rightarrow> string \<Rightarrow> registry \<Rightarrow> gw \<Rightarrow> capability_hint option \<times> registry \<times> gw" where
  "find_hint E K role r g =
     (let rk = role_key role
      in case lc_matcher K of
           None \<Rightarrow> (None, r, g)
         | Some (W, url) \<Rightarrow>
             if rk = [] then (None, r, g)
             else let kind = (if executor_capable rk then ''executor'' else ''model_provider'')
                  in case available_profile_ids E kind r g of
                       (available, r1, g1) \<Rightarrow>
                         (case find_executors (ge_builtins E) W url r1
                              \<lparr>mr_dimension = role_to_dimension rk, mr_available = available, mr_features = lc_features K,
                               mr_kind = kind, mr_file_tools = (kind = ''executor''),
                               mr_browser_tools = (rk = ''browser_tester''), mr_worker_url = [],
                               mr_policy = str_or (lc_policy K) ''balanced''\<rparr> of
                            (r2, Inl e) \<Rightarrow> (None, r2, g1)
                          | (r2, Inr res) \<Rightarrow> (map_option (hint_of kind) (mt_recommended res), r2, g1)))"

section \<open>One assignment\<close>

definition default_tier :: "lead_cfg \<Rightarrow> string \<Rightarrow> string" where
  "default_tier K role =
     (let rk = role_key role
      in str_or (case map_of (lc_role_tiers K) rk of Some t \<Rightarrow> t | None \<Rightarrow> [])
           (case ROLE_TIER rk of Some t \<Rightarrow> t | None \<Rightarrow> ''standard''))"

definition lead_tier :: "lead_cfg \<Rightarrow> string \<Rightarrow> json \<Rightarrow> string" where
  "lead_tier K role proposed =
     (case proposed of JStr t \<Rightarrow> if t \<in> set VALID_TIERS then t else default_tier K role | _ \<Rightarrow> default_tier K role)"

text \<open>\<^verbatim>\<open>s in valid_ids\<close> hashes \<open>s\<close>: a list or a dictionary raises.\<close>

definition pick_skill :: "string list \<Rightarrow> json \<Rightarrow> py_exn + string list" where
  "pick_skill valid s = (case s of
     JStr i \<Rightarrow> Inr (if i \<in> set valid then [i] else [])
   | JList _ \<Rightarrow> Inl PyTypeError
   | JObj _ \<Rightarrow> Inl PyTypeError
   | _ \<Rightarrow> Inr [])"

definition choose_skills :: "string list \<Rightarrow> bool \<Rightarrow> json list \<Rightarrow> py_exn + string list" where
  "choose_skills candidates lead_answered proposed =
     map_sum id (\<lambda>ss. let skills = concat ss in if skills = [] \<and> \<not> lead_answered then take 2 candidates else skills)
       (try_map (pick_skill candidates) proposed)"

definition no_entry :: lead_entry where
  "no_entry = \<lparr>le_tier = JNull, le_skills = [], le_execution = []\<rparr>"

definition assign_one ::
  "gw_env \<Rightarrow> lead_cfg \<Rightarrow> lead_plan \<Rightarrow> int \<Rightarrow> subtask \<Rightarrow> registry \<Rightarrow> gw \<Rightarrow>
     (py_exn + assignment \<times> string list) \<times> registry \<times> gw" where
  "assign_one E K plan i st r g =
     (let role = st_agent st;
          entry = (case dict_get plan i of Some e \<Rightarrow> e | None \<Rightarrow> no_entry);
          tier = lead_tier K role (le_tier entry)
      in case choose_skills (candidate_skills K role) (plan \<noteq> []) (le_skills entry) of
           Inl x \<Rightarrow> (Inl x, r, g)
         | Inr skills \<Rightarrow>
             (case resolve_role_model (ge_health E (gw_tick g)) (gw_health g) role (Some tier) of
                ((model, provider), h) \<Rightarrow>
                  (case find_hint E K role r (tick (g\<lparr>gw_health := h\<rparr>)) of
                     (hint, r1, g1) \<Rightarrow>
                       let wanted = (case hint of Some c \<Rightarrow> str_or (ch_execution c) (le_execution entry) | None \<Rightarrow> le_execution entry)
                       in (Inr ((new_assignment i role (st_description st) (st_depends_on st) tier
                              (case hint of Some c \<Rightarrow> str_or (ch_model c) model | None \<Rightarrow> model)
                              (case hint of Some c \<Rightarrow> str_or (ch_provider c) provider | None \<Rightarrow> provider))
                            \<lparr>as_execution := (if wanted = ''executor'' \<and> \<not> executor_capable (lower role) then [] else wanted),
                             as_executor := (case hint of Some c \<Rightarrow> ch_executor c | None \<Rightarrow> [])\<rparr>, skills), r1, g1))))"

fun assign_all ::
  "gw_env \<Rightarrow> lead_cfg \<Rightarrow> lead_plan \<Rightarrow> int \<Rightarrow> subtask list \<Rightarrow> registry \<Rightarrow> gw \<Rightarrow>
     (py_exn + (assignment \<times> string list) list) \<times> registry \<times> gw" where
  "assign_all E K plan i [] r g = (Inr [], r, g)"
| "assign_all E K plan i (st # sts) r g =
     (case assign_one E K plan i st r g of
        (Inl x, r1, g1) \<Rightarrow> (Inl x, r1, g1)
      | (Inr a, r1, g1) \<Rightarrow> (case assign_all E K plan (i + 1) sts r1 g1 of
          (Inl x, r2, g2) \<Rightarrow> (Inl x, r2, g2)
        | (Inr as, r2, g2) \<Rightarrow> (Inr (a # as), r2, g2)))"

definition assign ::
  "gw_env \<Rightarrow> gw_cfg \<Rightarrow> (py_exn \<Rightarrow> string) \<Rightarrow> lead_cfg \<Rightarrow> subtask list \<Rightarrow> registry \<Rightarrow> gw \<Rightarrow>
     (py_exn + (assignment \<times> string list) list) \<times> registry \<times> gw" where
  "assign E C show_exn K subtasks r g =
     (case (if should_ask_llm K subtasks then ask_lead E C show_exn K subtasks g else ([], g)) of
        (plan, g1) \<Rightarrow> assign_all E K plan 0 subtasks r g1)"

section \<open>What the lead cannot do\<close>

lemma pick_skill_valid: "pick_skill valid s = Inr ss \<Longrightarrow> set ss \<subseteq> set valid"
  by (auto simp: pick_skill_def split: json.splits if_splits)

lemma try_map_set:
  assumes "try_map f xs = Inr ys" "\<And>x y. f x = Inr y \<Longrightarrow> P y"
  shows "\<forall>y \<in> set ys. P y"
  using assms(1) by (induction xs arbitrary: ys) (auto split: sum.splits dest: assms(2))

lemma choose_skills_valid:
  assumes "choose_skills candidates replied proposed = Inr skills"
  shows "set skills \<subseteq> set candidates"
proof -
  obtain ss where ss: "try_map (pick_skill candidates) proposed = Inr ss"
    "skills = (if concat ss = [] \<and> \<not> replied then take 2 candidates else concat ss)"
    using assms unfolding choose_skills_def Let_def by (cases "try_map (pick_skill candidates) proposed") auto
  have "\<forall>y \<in> set ss. set y \<subseteq> set candidates"
    by (rule try_map_set [OF ss(1)]) (rule pick_skill_valid)
  then show ?thesis using ss(2) by (auto dest: in_set_takeD)
qed

definition tiers_ok :: "lead_cfg \<Rightarrow> bool" where
  "tiers_ok K \<longleftrightarrow> (\<forall>(r, t) \<in> set (lc_role_tiers K). t = [] \<or> t \<in> set VALID_TIERS)"

lemma registry_tiers_valid: "ROLE_TIER role = Some t \<Longrightarrow> t \<in> set VALID_TIERS \<and> t \<noteq> []"
  unfolding ROLE_TIER_def role_lookup_def ROLE_REGISTRY_def role_def_def VALID_TIERS_def by (auto split: if_splits)

lemma lead_tier_valid:
  assumes "tiers_ok K"
  shows "lead_tier K role proposed \<in> set VALID_TIERS"
proof -
  have std: "''standard'' \<in> set VALID_TIERS" by (simp add: VALID_TIERS_def)
  have "default_tier K role \<in> set VALID_TIERS"
    using assms registry_tiers_valid [of "role_key role"] std
    unfolding default_tier_def tiers_ok_def Let_def str_or_def
    by (auto split: option.split dest: map_of_SomeD)
  then show ?thesis by (auto simp: lead_tier_def split: json.split)
qed

text \<open>What one assignment owes to its sub-task, whatever the lead and the matcher replied.\<close>

definition faithful :: "lead_cfg \<Rightarrow> subtask \<Rightarrow> int \<Rightarrow> assignment \<times> string list \<Rightarrow> bool" where
  "faithful K st i x \<longleftrightarrow> (case x of (a, skills) \<Rightarrow>
     as_idx a = i \<and> as_role a = st_agent st \<and> as_description a = st_description st \<and> as_depends_on a = st_depends_on st \<and>
     (\<exists>v. as_tier a = lead_tier K (st_agent st) v) \<and> set skills \<subseteq> set (candidate_skills K (st_agent st)) \<and>
     (as_execution a = ''executor'' \<longrightarrow> executor_capable (lower (st_agent st))) \<and> \<not> as_ok a)"

lemma assign_one_faithful:
  assumes "assign_one E K plan i st r g = (Inr x, r', g')"
  shows "faithful K st i x"
proof -
  let ?entry = "case dict_get plan i of Some e \<Rightarrow> e | None \<Rightarrow> no_entry"
  obtain skills where sk: "choose_skills (candidate_skills K (st_agent st)) (plan \<noteq> []) (le_skills ?entry) = Inr skills"
    using assms unfolding assign_one_def Let_def
    by (cases "choose_skills (candidate_skills K (st_agent st)) (plan \<noteq> []) (le_skills ?entry)") auto
  show ?thesis
    using assms choose_skills_valid [OF sk] unfolding assign_one_def Let_def sk faithful_def
    by (auto simp: new_assignment_def split: prod.splits if_splits)
qed

lemma assign_all_faithful:
  assumes "assign_all E K plan i sts r g = (Inr xs, r', g')"
  shows "length xs = length sts \<and> (\<forall>k < length sts. faithful K (sts ! k) (i + int k) (xs ! k))"
  using assms
proof (induction sts arbitrary: i r g xs)
  case (Cons st sts)
  obtain x r1 g1 ys where x: "assign_one E K plan i st r g = (Inr x, r1, g1)"
    and ys: "assign_all E K plan (i + 1) sts r1 g1 = (Inr ys, r', g')" "xs = x # ys"
    using Cons.prems by (auto split: prod.splits sum.splits)
  have "faithful K ((st # sts) ! k) (i + int k) (xs ! k)" if "k < length (st # sts)" for k
    using that Cons.IH [OF ys(1)] assign_one_faithful [OF x] ys(2) by (cases k) (auto simp: add_ac)
  then show ?case using Cons.IH [OF ys(1)] ys(2) by simp
qed simp

lemma assign_faithful:
  assumes "assign E C show_exn K subtasks r g = (Inr xs, r', g')"
  shows "length xs = length subtasks" "k < length subtasks \<Longrightarrow> faithful K (subtasks ! k) (int k) (xs ! k)"
proof -
  obtain plan g1 where a: "assign_all E K plan 0 subtasks r g1 = (Inr xs, r', g')"
    using assms unfolding assign_def by (auto split: prod.splits)
  show "length xs = length subtasks" using assign_all_faithful [OF a] by simp
  show "faithful K (subtasks ! k) (int k) (xs ! k)" if "k < length subtasks"
    using assign_all_faithful [OF a] that by simp
qed

section \<open>Without the lead\<close>

lemma calls_frame [simp]:
  "gw_calls (tick g) = gw_calls g" "gw_calls (snd (health_check E p g)) = gw_calls g"
  by (simp_all add: tick_def health_check_def split: prod.split)

lemma healthy_ids_calls: "healthy_ids E kind is r g = (ids, r', g') \<Longrightarrow> gw_calls g' = gw_calls g"
proof (induction "is" arbitrary: r g ids r' g')
  case (Cons i "is")
  have hc: "gw_calls g2 = gw_calls g1" if "health_check E p g1 = (st, g2)" for p g1 st g2
    using calls_frame(2) [of E p g1] that by simp
  show ?case using Cons.prems
    by (auto simp: Let_def split: prod.splits sum.splits if_splits dest!: Cons.IH hc)
qed simp

lemma find_hint_calls: "find_hint E K role r g = (hint, r', g') \<Longrightarrow> gw_calls g' = gw_calls g"
  unfolding find_hint_def available_profile_ids_def Let_def
  by (auto split: option.splits prod.splits if_splits sum.splits dest: healthy_ids_calls)

lemma assign_one_calls: "assign_one E K plan i st r g = (x, r', g') \<Longrightarrow> gw_calls g' = gw_calls g"
  unfolding assign_one_def Let_def
  by (auto split: sum.splits prod.splits dest!: find_hint_calls)

lemma assign_all_calls: "assign_all E K plan i sts r g = (xs, r', g') \<Longrightarrow> gw_calls g' = gw_calls g"
  by (induction sts arbitrary: i r g xs) (auto split: prod.splits sum.splits dest!: assign_one_calls)

lemma choose_nothing: "choose_skills candidates replied [] = Inr (if replied then [] else take 2 candidates)"
  by (simp add: choose_skills_def)

lemma assign_one_no_plan: "\<exists>x r' g'. assign_one E K [] i st r g = (Inr x, r', g')"
  by (simp add: assign_one_def dict_get_def no_entry_def choose_nothing Let_def split: prod.split)

lemma assign_all_no_plan: "\<exists>xs r' g'. assign_all E K [] i sts r g = (Inr xs, r', g')"
proof (induction sts arbitrary: i r g)
  case (Cons st sts)
  obtain x r1 g1 where "assign_one E K [] i st r g = (Inr x, r1, g1)" using assign_one_no_plan by blast
  moreover obtain xs r2 g2 where "assign_all E K [] (i + 1) sts r1 g1 = (Inr xs, r2, g2)" using Cons.IH by blast
  ultimately show ?case by simp
qed simp

lemma assign_deterministic:
  assumes "\<not> should_ask_llm K subtasks" "assign E C show_exn K subtasks r g = (xs, r', g')"
  shows "gw_calls g' = gw_calls g" "\<exists>ys. xs = Inr ys"
proof -
  have a: "assign_all E K [] 0 subtasks r g = (xs, r', g')" using assms by (simp add: assign_def)
  show "gw_calls g' = gw_calls g" by (rule assign_all_calls [OF a])
  show "\<exists>ys. xs = Inr ys" using assign_all_no_plan [of E K 0 subtasks r g] a by auto
qed

text \<open>A lead that proposes a list for a skill ends the assignment with an exception.\<close>

lemma lead_skill_crash:
  "assign_one E K [(i, \<lparr>le_tier = JNull, le_skills = [JList []], le_execution = []\<rparr>)] i st r g = (Inl PyTypeError, r, g)"
  by (simp add: assign_one_def dict_get_def choose_skills_def pick_skill_def)

end
