(* ===== verification/Plan_Bridge.thy ===== *)
theory Plan_Bridge
  imports Waves Plan_Engine Plan_Codec
begin

text \<open>
  \<^verbatim>\<open>src/voly/plan/bridge.py\<close>: the plan that mirrors a multi-agent run, one step for each
  \<^verbatim>\<open>Assignment\<close>, and the copy of a step's outcome back onto it.  An assignment has all the fields of
  the dataclass, so the \<^verbatim>\<open>getattr\<close> defaults of the source never apply.
\<close>

record plan_cfg =
  pc_enabled :: bool
  pc_mode :: string
  pc_a2a_attach :: bool
  pc_chat_require_output :: bool
  pc_executor_require_git_diff :: bool
  pc_executor_file_line_limit :: int
  pc_architect_approved_limit :: int
  pc_tester_command :: string
  pc_exclude_patterns :: "string list"
  pc_command_timeout :: rat

definition default_plan_cfg :: plan_cfg where
  "default_plan_cfg = \<lparr>pc_enabled = False, pc_mode = ''shadow'', pc_a2a_attach = True,
     pc_chat_require_output = True, pc_executor_require_git_diff = False,
     pc_executor_file_line_limit = 300, pc_architect_approved_limit = 500,
     pc_tester_command = [], pc_exclude_patterns = [], pc_command_timeout = 120\<rparr>"

definition assignment_step_id :: "int \<Rightarrow> string \<Rightarrow> string" where
  "assignment_step_id idx role = str_int idx @ '':'' @ role"

definition default_acceptance_for_role :: "string \<Rightarrow> string \<Rightarrow> plan_cfg option \<Rightarrow> acceptance_check list" where
  "default_acceptance_for_role role mode plan_cfg =
     (let cfg = (case plan_cfg of Some c \<Rightarrow> c | None \<Rightarrow> default_plan_cfg);
          role_key = lower (strip role);
          mode_key = lower (strip (str_or mode MODE_CHAT))
      in (if mode_key = MODE_CHAT \<and> pc_chat_require_output cfg then [new_check ''output_nonempty''] else []) @
         (if mode_key = MODE_EXECUTOR \<and> pc_executor_require_git_diff cfg
          then [new_check ''git_diff_nonempty''] else []) @
         (if mode_key = MODE_EXECUTOR \<and> pc_executor_file_line_limit cfg > 0
          then [(new_check ''file_line_limit'')
                  \<lparr>max_lines := pc_executor_file_line_limit cfg,
                   approved_max_lines := max (pc_executor_file_line_limit cfg) (pc_architect_approved_limit cfg),
                   exclude_patterns := pc_exclude_patterns cfg\<rparr>] else []) @
         (if role_key = ''tester'' \<and> strip (pc_tester_command cfg) \<noteq> []
          then [(new_check ''command'')\<lparr>run_cmd := strip (pc_tester_command cfg), expect_exit := 0\<rparr>] else []))"

text \<open>\<^verbatim>\<open>by_idx\<close>, a dictionary comprehension: of two assignments with one index the later wins.\<close>

definition by_idx :: "assignment list \<Rightarrow> int \<rightharpoonup> assignment" where
  "by_idx items = map_of (rev (map (\<lambda>a. (as_idx a, a)) items))"

definition dep_step_ids :: "assignment list \<Rightarrow> assignment \<Rightarrow> string list" where
  "dep_step_ids items a = List.map_filter
     (\<lambda>d. map_option (\<lambda>prior. assignment_step_id d (as_role prior)) (by_idx items d)) (as_depends_on a)"

definition bridge_mode :: "(int \<rightharpoonup> string) \<Rightarrow> assignment \<Rightarrow> string" where
  "bridge_mode role_modes a =
     (let mode = str_or (case role_modes (as_idx a) of Some m \<Rightarrow> m | None \<Rightarrow> [])
                   (str_or (as_mode a) MODE_CHAT)
      in if mode \<notin> {MODE_CHAT, MODE_EXECUTOR} then MODE_CHAT else mode)"

definition bridge_step ::
  "string \<Rightarrow> assignment list \<Rightarrow> plan_cfg option \<Rightarrow> (int \<rightharpoonup> string) \<Rightarrow> assignment \<Rightarrow> plan_step" where
  "bridge_step task items plan_cfg role_modes a =
     (let role = str_or (as_role a) ''developer''; mode = bridge_mode role_modes a
      in (new_step (assignment_step_id (as_idx a) role))
           \<lparr>step_role := role, step_mode := mode, depends_on := dep_step_ids items a,
            acceptance := default_acceptance_for_role role mode plan_cfg,
            step_task := str_or (as_description a) task, step_executor := as_executor a,
            step_model := as_model a, step_provider := as_provider a, step_tier := as_tier a\<rparr>)"

definition assignments_to_plan ::
  "string \<Rightarrow> assignment list \<Rightarrow> string \<Rightarrow> string \<Rightarrow> string \<Rightarrow> plan_cfg option \<Rightarrow> (int \<rightharpoonup> string) \<Rightarrow> plan" where
  "assignments_to_plan task items pid tid cwd plan_cfg role_modes =
     (new_plan (str_or pid (''a2a-'' @ str_or tid ''run'')))
       \<lparr>task_id := tid, plan_cwd := cwd, plan_task := take 2000 task,
        steps := map (bridge_step task items plan_cfg role_modes) items\<rparr>"

definition plan_gates_enabled :: "plan_cfg option \<Rightarrow> bool" where
  "plan_gates_enabled cfg = (case cfg of
     None \<Rightarrow> False
   | Some c \<Rightarrow> pc_enabled c \<and> pc_a2a_attach c \<and>
       lower (str_or (pc_mode c) ''off'') \<in> {''shadow'', ''active''})"

definition sync_assignment_plan_fields :: "assignment \<Rightarrow> plan_step \<Rightarrow> plan_error + assignment" where
  "sync_assignment_plan_fields a s =
     map_sum id (\<lambda>ok. let a' = a\<lparr>as_plan_status := step_status s, as_plan_verify_ok := ok\<rparr>
                     in if step_error s \<noteq> [] \<and> as_error a' = [] then a'\<lparr>as_error := step_error s\<rparr> else a')
       (if verify_log s \<noteq> [] then map_sum id Some (all_entries_ok (verify_log s))
        else Inr (if acceptance s = [] then None else Some True))"

section \<open>Step ids\<close>

text \<open>A decimal numeral reads back, so equal step ids have equal indices.\<close>

definition nat_of_digits :: "string \<Rightarrow> nat" where
  "nat_of_digits s = foldl (\<lambda>n c. 10 * n + (of_char c - 48)) 0 s"

lemma digits_of_chars: "c \<in> set (digits_of n) \<Longrightarrow> 48 \<le> (of_char c :: nat) \<and> (of_char c :: nat) \<le> 57"
proof (induction n rule: digits_of.induct)
  case (1 n)
  have "(48 + n) mod 256 = 48 + n" if "n < 10" using that by simp
  moreover have "(48 + n mod 10) mod 256 = 48 + n mod 10"
    by (rule mod_less) (use mod_less_divisor [of 10 n] in linarith)
  ultimately show ?case
    using 1 mod_less_divisor [of 10 n] by (subst (asm) (2) digits_of.simps) (auto split: if_splits)
qed

lemma nat_of_digits_of [simp]: "nat_of_digits (digits_of n) = n"
proof (induction n rule: digits_of.induct)
  case (1 n)
  have a: "(48 + n) mod 256 = 48 + n" if "n < 10" using that by simp
  have b: "(48 + n mod 10) mod 256 = 48 + n mod 10"
    by (rule mod_less) (use mod_less_divisor [of 10 n] in linarith)
  show ?case
  proof (cases "n < 10")
    case True
    then show ?thesis using a by (subst digits_of.simps) (simp add: nat_of_digits_def)
  next
    case False
    then have "nat_of_digits (digits_of n) = 10 * nat_of_digits (digits_of (n div 10)) + n mod 10"
      using b by (subst digits_of.simps) (simp add: nat_of_digits_def)
    then show ?thesis using 1 [OF False] by simp
  qed
qed

lemma digits_of_inj: "digits_of m = digits_of n \<Longrightarrow> m = n"
  using nat_of_digits_of by metis

lemma str_int_chars: "c \<in> set (str_int i) \<Longrightarrow> 45 \<le> (of_char c :: nat) \<and> (of_char c :: nat) \<le> 57"
  using digits_of_chars [of c] by (fastforce simp: str_int_def split: if_splits)

lemma str_int_no_colon: "CHR '':'' \<notin> set (str_int i)"
  using str_int_chars [of "CHR '':''" i] by auto

lemma digits_of_no_minus: "digits_of n \<noteq> CHR ''-'' # s"
  using digits_of_chars [of "CHR ''-''" n] by auto

lemma str_int_inj: "str_int i = str_int j \<Longrightarrow> i = j"
  using digits_of_no_minus digits_of_inj
  by (auto simp: str_int_def split: if_splits dest!: digits_of_inj sym [of "_ # _"])

lemma assignment_step_id_inj:
  assumes "assignment_step_id i r = assignment_step_id j r'"
  shows "i = j"
proof -
  have "takeWhile (\<lambda>c. c \<noteq> CHR '':'') (assignment_step_id k s) = str_int k" for k s
    using str_int_no_colon [of k] unfolding assignment_step_id_def
    by (subst takeWhile_append2) (auto simp: takeWhile_append)
  then have "str_int i = str_int j" using assms by metis
  then show ?thesis by (rule str_int_inj)
qed

lemma strip_eq_Nil: "strip s = [] \<longleftrightarrow> (\<forall>c \<in> set s. is_space c)"
proof
  assume "strip s = []"
  then have "\<forall>c \<in> set (dropWhile is_space s). is_space c"
    by (simp add: strip_def dropWhile_eq_Nil_conv)
  then have "dropWhile is_space s = []"
    by (metis hd_dropWhile list.set_sel(1))
  then show "\<forall>c \<in> set s. is_space c" by (simp add: dropWhile_eq_Nil_conv)
qed (auto simp: strip_def dropWhile_eq_Nil_conv dest: set_dropWhileD)

lemma step_id_not_blank: "strip (assignment_step_id i r) \<noteq> []"
proof -
  have "\<not> is_space (CHR '':'')" by (simp add: is_space_def)
  then show ?thesis by (auto simp: strip_eq_Nil assignment_step_id_def)
qed

section \<open>The bridged plan is well formed\<close>

definition roles_named :: "assignment list \<Rightarrow> bool" where
  "roles_named items \<longleftrightarrow> (\<forall>a \<in> set items. as_role a \<noteq> [])"

definition sid_of :: "assignment list \<Rightarrow> int \<Rightarrow> string" where
  "sid_of items i = assignment_step_id i (case find (\<lambda>a. as_idx a = i) items of Some a \<Rightarrow> as_role a | None \<Rightarrow> [])"

lemma sid_of_inj: "inj (sid_of items)"
  by (rule injI) (simp add: sid_of_def assignment_step_id_inj)

lemma sid_of_member: "idx_distinct items \<Longrightarrow> a \<in> set items \<Longrightarrow>
    sid_of items (as_idx a) = assignment_step_id (as_idx a) (as_role a)"
  using find_key_distinct [of as_idx items a] by (simp add: sid_of_def idx_distinct_def)

lemma by_idx_find: "idx_distinct items \<Longrightarrow> by_idx items i = find (\<lambda>a. as_idx a = i) items"
proof -
  assume "idx_distinct items"
  then have "by_idx items = map_of (map (\<lambda>a. (as_idx a, a)) items)"
    unfolding by_idx_def by (intro map_of_rev_distinct) (simp add: idx_distinct_def comp_def)
  moreover have "map_of (map (\<lambda>a. (as_idx a, a)) xs) i = find (\<lambda>a. as_idx a = i) xs" for xs
    by (induction xs) auto
  ultimately show ?thesis by simp
qed

lemma dep_step_ids_known:
  assumes "idx_distinct items" "a \<in> set items"
  shows "dep_step_ids items a = map (sid_of items) (known_deps items (as_idx a))"
proof -
  have opt: "map_option (\<lambda>prior. assignment_step_id d (as_role prior)) (by_idx items d) =
      (if d \<in> set (map as_idx items) then Some (sid_of items d) else None)" for d
    using by_idx_find [OF assms(1), of d] find_key_None [of as_idx d items]
    by (cases "find (\<lambda>a. as_idx a = d) items") (auto simp: sid_of_def)
  have "List.map_filter (\<lambda>d. map_option (\<lambda>prior. assignment_step_id d (as_role prior)) (by_idx items d)) ds =
      map (sid_of items) (filter (\<lambda>d. d \<in> set (map as_idx items)) ds)" for ds
    unfolding opt by (induction ds) (simp_all add: map_filter_simps)
  then show ?thesis unfolding dep_step_ids_def known_deps_of [OF assms] .
qed

lemma bridge_step_id:
  assumes "idx_distinct items" "roles_named items" "a \<in> set items"
  shows "step_id (bridge_step task items cfg modes a) = sid_of items (as_idx a)"
  using assms sid_of_member [of items a]
  by (simp add: bridge_step_def Let_def new_step_def roles_named_def)

lemma bridge_depends [simp]: "depends_on (bridge_step task items cfg modes a) = dep_step_ids items a"
  by (simp add: bridge_step_def Let_def)

lemma bridge_plan_ids:
  assumes "idx_distinct items" "roles_named items"
  shows "step_ids (assignments_to_plan task items pid tid cwd cfg modes) = map (sid_of items) (map as_idx items)"
  using bridge_step_id [OF assms] by (simp add: step_ids_def assignments_to_plan_def)

lemma bridge_graph_ok:
  assumes "idx_distinct items" "roles_named items"
  shows "graph_ok (map (bridge_step task items cfg modes) items)"
proof -
  have ids: "map step_id (map (bridge_step task items cfg modes) items) = map (sid_of items) (map as_idx items)"
    using bridge_step_id [OF assms] by simp
  have "distinct (map (sid_of items) (map as_idx items))"
    using assms(1) inj_on_subset [OF sid_of_inj subset_UNIV] unfolding idx_distinct_def distinct_map by blast
  moreover have "set (dep_step_ids items a) \<subseteq> set (map (sid_of items) (map as_idx items))" if "a \<in> set items" for a
    using role_graph.deps_closed [OF assms(1), of "as_idx a"] that
    unfolding dep_step_ids_known [OF assms(1) that] by auto
  ultimately show ?thesis unfolding graph_ok_def ids set_map [symmetric] by auto
qed

lemma bridge_deps_of:
  assumes "idx_distinct items" "roles_named items" "i \<in> set (map as_idx items)"
  shows "deps_of (map (bridge_step task items cfg modes) items) (sid_of items i) = map (sid_of items) (known_deps items i)"
proof -
  obtain a where a: "a \<in> set items" "i = as_idx a" using assms(3) by auto
  have "deps_of (map (bridge_step task items cfg modes) items) (step_id (bridge_step task items cfg modes a)) =
      depends_on (bridge_step task items cfg modes a)"
    using bridge_graph_ok [OF assms(1,2)] a(1) unfolding graph_ok_def by (intro deps_of_step) auto
  then show ?thesis using bridge_step_id [OF assms(1,2) a(1)] dep_step_ids_known [OF assms(1) a(1)] a(2) by simp
qed

lemma bridge_acyclic:
  assumes "idx_distinct items" "roles_named items"
    and "acyclic (dep_edges (map as_idx items) (known_deps items))"
  shows "acyclic (dep_edges (map step_id (map (bridge_step task items cfg modes) items))
    (deps_of (map (bridge_step task items cfg modes) items)))"
proof -
  let ?ss = "map (bridge_step task items cfg modes) items"
  define seq where "seq = map as_idx (concat (build_waves items))"
  have seq: "set seq = set (map as_idx items)" "distinct seq"
    using build_waves_covers [OF assms(1)] by (simp_all add: seq_def idx_distinct_def)
  have first: "deps_first (known_deps items) seq"
    unfolding seq_def by (rule build_waves_order [OF assms(1,3)])
  have "set (deps_of ?ss (map (sid_of items) seq ! k)) \<subseteq> set (take k (map (sid_of items) seq))" if k: "k < length seq" for k
  proof -
    have "seq ! k \<in> set (map as_idx items)" using seq(1) k nth_mem by metis
    then have "set (deps_of ?ss (map (sid_of items) seq ! k)) = sid_of items ` set (known_deps items (seq ! k))"
      using bridge_deps_of [OF assms(1,2)] k by simp
    also have "\<dots> \<subseteq> sid_of items ` set (take k seq)" using first k by (intro image_mono) (simp add: deps_first_def)
    finally show ?thesis by (simp add: take_map)
  qed
  then have "deps_first (deps_of ?ss) (map (sid_of items) seq)" by (simp add: deps_first_def)
  moreover have "distinct (map (sid_of items) seq)"
    using seq(2) inj_on_subset [OF sid_of_inj subset_UNIV] unfolding distinct_map by blast
  moreover have "set (map (sid_of items) seq) = set (map step_id ?ss)"
    using bridge_step_id [OF assms(1,2)] seq(1) by auto
  ultimately show ?thesis
    by (intro plan_graph.complete_order_acyclic [of "map (sid_of items) seq"])
qed

lemma bridge_step_ok: "step_ok (bridge_step task items cfg modes a)"
  by (auto simp: step_ok_def bridge_step_def Let_def new_step_def step_id_not_blank bridge_mode_def
      STEP_STATUSES_def STEP_MODES_def)

lemma bridge_well_formed:
  assumes "idx_distinct items" "roles_named items" "items \<noteq> []"
    and "acyclic (dep_edges (map as_idx items) (known_deps items))"
    and "pid = [] \<or> strip pid \<noteq> []"
  shows "well_formed (assignments_to_plan task items pid tid cwd cfg modes)"
proof -
  let ?p = "assignments_to_plan task items pid tid cwd cfg modes"
  have "\<not> is_space (CHR ''a'')" by (simp add: is_space_def)
  then have "strip (''a2a-'' @ s) \<noteq> []" for s by (auto simp: strip_eq_Nil)
  then have "strip (plan_id ?p) \<noteq> []"
    using assms(5) by (auto simp: assignments_to_plan_def new_plan_def str_or_def)
  moreover have "plan_status ?p \<in> set PLAN_STATUSES" by (simp add: assignments_to_plan_def new_plan_def PLAN_STATUSES_def)
  moreover have ss: "steps ?p = map (bridge_step task items cfg modes) items" by (simp add: assignments_to_plan_def)
  ultimately show ?thesis
    using assms(3) bridge_graph_ok [OF assms(1,2)] bridge_acyclic [OF assms(1,2,4)]
    unfolding well_formed_def step_ids_def ss by (auto simp: bridge_step_ok)
qed

text \<open>
  With an empty role the step is called \<^verbatim>\<open>i:developer\<close> but the steps that depend on it name
  \<^verbatim>\<open>i:\<close>: the engine refuses such a plan, and the run goes on without gates.
\<close>

lemma bridge_empty_role:
  "validate (assignments_to_plan ''t'' [new_assignment 0 [] ''a'' [] [] [] [], new_assignment 1 ''tester'' ''b'' [0] [] [] []]
     ''p'' [] [] None Map.empty) = Inl (PlanValidationError (UnknownDependency ''1:tester'' ''0:''))"
  by code_simp

end
