(* ===== verification/Lead_Plan.thy ===== *)
theory Lead_Plan
  imports Lead_Assign Plan_Bridge
begin

text \<open>
  The way from the lead's assignments to a plan: what \<^verbatim>\<open>src/voly/a2a/lead.py\<close> hands to
  \<^verbatim>\<open>plan/bridge.py\<close> and \<^verbatim>\<open>a2a/waves.py\<close>.  No code of its own is modelled here; the lemmas say
  that the parts fit.
\<close>

definition subtask_deps :: "subtask list \<Rightarrow> int \<Rightarrow> int list" where
  "subtask_deps sts i =
     (if 0 \<le> i \<and> i < int (length sts) then filter (\<lambda>d. 0 \<le> d \<and> d < int (length sts)) (st_depends_on (sts ! nat i)) else [])"

definition all_faithful :: "lead_cfg \<Rightarrow> subtask list \<Rightarrow> (assignment \<times> string list) list \<Rightarrow> bool" where
  "all_faithful K sts xs \<longleftrightarrow> length xs = length sts \<and> (\<forall>k < length sts. faithful K (sts ! k) (int k) (xs ! k))"

lemma assign_all_faithfully:
  "assign E C show_exn K sts r g = (Inr xs, r', g') \<Longrightarrow> all_faithful K sts xs"
  using assign_faithful by (simp add: all_faithful_def)

lemma faithful_fields:
  assumes "all_faithful K sts xs" "k < length sts"
  shows "as_idx (fst (xs ! k)) = int k" "as_role (fst (xs ! k)) = st_agent (sts ! k)"
    "as_depends_on (fst (xs ! k)) = st_depends_on (sts ! k)"
proof -
  have "faithful K (sts ! k) (int k) (xs ! k)" using assms by (simp add: all_faithful_def)
  then show "as_idx (fst (xs ! k)) = int k" "as_role (fst (xs ! k)) = st_agent (sts ! k)"
    "as_depends_on (fst (xs ! k)) = st_depends_on (sts ! k)"
    by (cases "xs ! k"; simp add: faithful_def)+
qed

lemma faithful_indices:
  assumes "all_faithful K sts xs"
  shows "map as_idx (map fst xs) = map int [0..<length sts]"
  using assms faithful_fields(1) [OF assms] by (auto simp: all_faithful_def intro!: nth_equalityI)

lemma faithful_distinct:
  assumes "all_faithful K sts xs"
  shows "idx_distinct (map fst xs)"
  unfolding idx_distinct_def faithful_indices [OF assms] by (simp add: distinct_map)

lemma faithful_deps:
  assumes "all_faithful K sts xs"
  shows "known_deps (map fst xs) i = subtask_deps sts i"
proof -
  have idx: "set (map as_idx (map fst xs)) = {d. 0 \<le> d \<and> d < int (length sts)}"
    unfolding faithful_indices [OF assms] by (auto intro!: image_eqI [of _ int "nat _"])
  show ?thesis
  proof (cases "0 \<le> i \<and> i < int (length sts)")
    case True
    then have k: "nat i < length sts" by linarith
    then have mem: "fst (xs ! nat i) \<in> set (map fst xs)" using assms by (auto simp: all_faithful_def)
    have "as_idx (fst (xs ! nat i)) = i" using faithful_fields(1) [OF assms k] True by simp
    then show ?thesis
      using known_deps_of [OF faithful_distinct [OF assms] mem] faithful_fields(3) [OF assms k] True
      unfolding idx by (simp add: subtask_deps_def)
  next
    case False
    then have "find (\<lambda>a. as_idx a = i) (map fst xs) = None" using idx by (auto simp: find_None_iff)
    then have "known_deps (map fst xs) i = []" by (simp add: known_deps_def)
    then show ?thesis using False by (auto simp: subtask_deps_def)
  qed
qed

text \<open>Whatever the lead and the matcher replied, sub-tasks with roles and without a cycle become a valid plan.\<close>

lemma lead_plan_valid:
  assumes "assign E C show_exn K sts r g = (Inr xs, r', g')" "sts \<noteq> []" "\<forall>st \<in> set sts. st_agent st \<noteq> []"
    and "acyclic (dep_edges (map int [0..<length sts]) (subtask_deps sts))" "pid = [] \<or> strip pid \<noteq> []"
  shows "well_formed (assignments_to_plan task (map fst xs) pid tid cwd cfg modes)"
    and "waves_ok (subtask_deps sts) {} (build_waves (map fst xs))"
proof -
  note all = assign_all_faithfully [OF assms(1)]
  have deps: "known_deps (map fst xs) = subtask_deps sts" using faithful_deps [OF all] by blast
  have named: "roles_named (map fst xs)"
    unfolding roles_named_def
  proof
    fix a assume "a \<in> set (map fst xs)"
    then obtain k where "k < length sts" "a = fst (xs ! k)" using all by (auto simp: all_faithful_def in_set_conv_nth)
    then show "as_role a \<noteq> []" using faithful_fields(2) [OF all] assms(3) by auto
  qed
  have ne: "map fst xs \<noteq> []" using all assms(2) by (auto simp: all_faithful_def)
  have ac: "acyclic (dep_edges (map as_idx (map fst xs)) (known_deps (map fst xs)))"
    unfolding faithful_indices [OF all] deps by (rule assms(4))
  show "well_formed (assignments_to_plan task (map fst xs) pid tid cwd cfg modes)"
    by (rule bridge_well_formed [OF faithful_distinct [OF all] named ne ac assms(5)])
  show "waves_ok (subtask_deps sts) {} (build_waves (map fst xs))"
    using build_waves_ok [OF faithful_distinct [OF all] ac] unfolding deps .
qed

end
