(* ===== verification/Business_Decisions.thy ===== *)
theory Business_Decisions
  imports Plan_Runner
begin

text \<open>
  \<^verbatim>\<open>src/voly/decisions.py\<close>: a business option becomes a plan of two steps (a human approval, then the
  action), kept in the plan store.  What the action's executor does, what the capability matcher
  recommends, the clock, the disk, and what learning, evidence and telemetry raise are functions
  of the number of the event.  \<open>ds_runs\<close> logs the actions started; no operation reads it.
\<close>

section \<open>Signals, options and the service\<close>

record signal =
  sg_signal_id :: string
  sg_source :: string
  sg_captured_at :: string
  sg_confidence :: rat

record business_option =
  op_option_id :: string
  op_title :: string
  op_rationale :: string
  op_urgency :: string
  op_estimated_impact :: string
  op_action_kind :: string
  op_action_spec :: "(string \<times> json) list"

text \<open>\<^verbatim>\<open>executor.run\<close>: success, error and metadata, or an exception.\<close>

datatype action_outcome =
    ActionResult bool string "(string \<times> json) list"
  | ActionRaises py_exn

record decision_env =
  de_builtins :: py_builtins
  de_disk :: "nat \<Rightarrow> disk"
  de_now :: "nat \<Rightarrow> rat"
  de_run :: "nat \<Rightarrow> string \<Rightarrow> (string \<times> json) list \<Rightarrow> action_outcome"
  de_recommend :: "nat \<Rightarrow> string list \<Rightarrow> string option"
  de_after :: "nat \<Rightarrow> py_exn option"
  de_config :: bool

record decision_service =
  ds_dir :: plan_dir
  ds_tick :: nat
  ds_runs :: "(string \<times> (string \<times> json) list) list"

datatype decision_error =
    PlanFailure plan_error
  | DecisionConflictError string

record decision_result =
  dr_plan :: plan
  dr_decision :: string
  dr_changed :: bool

type_synonym 'a answer = "decision_service \<times> (decision_error + 'a)"

abbreviation raises :: "py_exn \<Rightarrow> decision_error + 'a" where
  "raises x \<equiv> Inl (PlanFailure (Raised x))"

section \<open>The executor of an action\<close>

definition ACTION_KIND_EXECUTOR_IDS :: "(string \<times> string list) list" where
  "ACTION_KIND_EXECUTOR_IDS = [(''http_call'', [''http-action'']), (''notify'', [''notify''])]"

definition build_business_executor :: "decision_env \<Rightarrow> nat \<Rightarrow> string \<Rightarrow> py_exn + string" where
  "build_business_executor E n kind =
     (case map_of ACTION_KIND_EXECUTOR_IDS kind of
        None \<Rightarrow> Inl PyValueError
      | Some candidates \<Rightarrow>
          Inr (case de_recommend E n candidates of
                 Some r \<Rightarrow> if r \<in> set candidates then r else hd candidates
               | None \<Rightarrow> hd candidates))"

section \<open>Operations\<close>

definition svc_load :: "decision_env \<Rightarrow> string \<Rightarrow> decision_service \<Rightarrow> plan_error + plan option" where
  "svc_load E pid s = load_plan (de_builtins E) draft_criteria (ds_dir s) pid"

definition svc_save :: "decision_env \<Rightarrow> plan \<Rightarrow> decision_service \<Rightarrow> plan answer" where
  "svc_save E p s =
     (case save_plan (de_disk E (ds_tick s)) (de_now E (ds_tick s)) (ds_dir s) p of
        (d, q, e) \<Rightarrow> (s\<lparr>ds_dir := d, ds_tick := Suc (ds_tick s)\<rparr>,
                      case e of None \<Rightarrow> Inr q | Some x \<Rightarrow> Inl (PlanFailure x)))"

definition is_business :: "plan \<Rightarrow> bool" where
  "is_business p \<longleftrightarrow> jget (metadata p) ''kind'' = JStr ''business_decision''"

definition meta_state :: "decision_env \<Rightarrow> plan \<Rightarrow> string \<Rightarrow> string" where
  "meta_state E p key = py_str (de_builtins E) (jor (jget (metadata p) key) (JStr ''pending''))"

definition set_meta :: "string \<Rightarrow> json \<Rightarrow> plan \<Rightarrow> plan" where
  "set_meta k v p = p\<lparr>metadata := dict_set k v (metadata p)\<rparr>"

definition decision_plan :: "signal \<Rightarrow> business_option \<Rightarrow> plan" where
  "decision_plan sg optn = (new_plan (op_option_id optn))\<lparr>
     plan_task := op_title optn, plan_status := ''running'',
     metadata :=
       [(''kind'', JStr ''business_decision''), (''signal_id'', JStr (sg_signal_id sg)),
        (''signal'', JObj [(''signal_id'', JStr (sg_signal_id sg)), (''source'', JStr (sg_source sg)),
                         (''captured_at'', JStr (sg_captured_at sg)), (''confidence'', JFloat (sg_confidence sg))]),
        (''option_id'', JStr (op_option_id optn)), (''urgency'', JStr (op_urgency optn)),
        (''action_kind'', JStr (op_action_kind optn)), (''rationale'', JStr (op_rationale optn)),
        (''estimated_impact'', JStr (op_estimated_impact optn)), (''decision'', JStr ''pending''),
        (''action_spec'', JObj (op_action_spec optn)), (''execution'', JStr ''pending'')],
     steps :=
       [(new_step ''approve-option'')\<lparr>step_role := ''reviewer'', step_mode := MODE_BUSINESS, step_status := VERIFYING,
          step_task := op_title optn, acceptance := [new_check ''human_review'']\<rparr>,
        (new_step ''execute-action'')\<lparr>step_role := ''operator'', step_mode := MODE_BUSINESS, step_status := PENDING,
          depends_on := [''approve-option''], step_task := op_title optn,
          acceptance := [new_check ''action_succeeded'']\<rparr>]\<rparr>"

definition create_decision :: "decision_env \<Rightarrow> signal \<Rightarrow> business_option \<Rightarrow> decision_service \<Rightarrow> plan answer" where
  "create_decision E sg optn s =
     (case svc_load E (op_option_id optn) s of
        Inl e \<Rightarrow> (s, Inl (PlanFailure e))
      | Inr (Some existing) \<Rightarrow> (s, Inr existing)
      | Inr None \<Rightarrow> svc_save E (decision_plan sg optn) s)"

text \<open>What runs after a plan was saved; with no configuration it does nothing.\<close>

definition afterwards :: "decision_env \<Rightarrow> 'a \<Rightarrow> decision_service \<Rightarrow> 'a answer" where
  "afterwards E x s =
     (if \<not> de_config E then (s, Inr x)
      else (s\<lparr>ds_tick := Suc (ds_tick s)\<rparr>,
            case de_after E (ds_tick s) of None \<Rightarrow> Inr x | Some e \<Rightarrow> raises e))"

definition decide_option :: "decision_env \<Rightarrow> string \<Rightarrow> string \<Rightarrow> string \<Rightarrow> decision_service \<Rightarrow> decision_result answer" where
  "decide_option E pid decision comment s =
     (if decision \<notin> {''approve'', ''reject''} then (s, raises PyValueError)
      else case svc_load E pid s of
        Inl e \<Rightarrow> (s, Inl (PlanFailure e))
      | Inr None \<Rightarrow> (s, raises (PyFileNotFoundError pid))
      | Inr (Some p) \<Rightarrow>
          if \<not> is_business p then (s, raises (PyFileNotFoundError pid))
          else let desired = (if decision = ''approve'' then ''approved'' else ''rejected'');
                   current = meta_state E p ''decision''
               in if current = desired then (s, Inr \<lparr>dr_plan = p, dr_decision = desired, dr_changed = False\<rparr>)
                  else if current \<noteq> ''pending'' then (s, Inl (DecisionConflictError current))
                  else case transition p ''approve-option'' (if decision = ''approve'' then VERIFIED else FAILED)
                              (if decision = ''reject'' then ''rejected by human'' else []) False False (de_now E (ds_tick s)) of
                    Inl e \<Rightarrow> (s, Inl (PlanFailure e))
                  | Inr p1 \<Rightarrow>
                      let p2 = set_meta ''decided_at'' (JFloat (de_now E (ds_tick s)))
                                 (set_meta ''decision_comment'' (JStr (take 2000 comment))
                                   (set_meta ''decision'' (JStr desired) p1));
                          p3 = (if decision = ''reject'' then p2\<lparr>plan_status := ''failed''\<rparr> else p2)
                      in case svc_save E p3 (s\<lparr>ds_tick := Suc (ds_tick s)\<rparr>) of
                           (s1, Inl e) \<Rightarrow> (s1, Inl e)
                         | (s1, Inr q) \<Rightarrow> afterwards E \<lparr>dr_plan = q, dr_decision = desired, dr_changed = True\<rparr> s1)"

text \<open>What a run of the executor does to the plan: three unforced moves, or a failure.\<close>

definition finish_action :: "decision_env \<Rightarrow> nat \<Rightarrow> bool \<Rightarrow> string \<Rightarrow> plan \<Rightarrow> plan_error + plan" where
  "finish_action E n success error p =
     (let move = (\<lambda>t err q. transition q ''execute-action'' t err False False (de_now E n));
          close = (\<lambda>status label q. set_meta ''execution'' (JStr label) (q\<lparr>plan_status := status\<rparr>))
      in if success
         then bind_err (move DONE [] p) (\<lambda>p1. bind_err (move VERIFYING [] p1) (\<lambda>p2.
              bind_err (move VERIFIED [] p2) (\<lambda>p3. Inr (close ''completed'' ''completed'' p3))))
         else bind_err (move FAILED error p) (\<lambda>p1. Inr (close ''failed'' ''failed'' p1)))"

definition record_action :: "decision_env \<Rightarrow> action_outcome \<Rightarrow> plan \<Rightarrow> decision_service \<Rightarrow> plan answer" where
  "record_action E outcome p s =
     (case outcome of
        ActionRaises x \<Rightarrow> (s, raises x)
      | ActionResult success error meta \<Rightarrow>
          (case finish_action E (ds_tick s) success error p of
             Inl e \<Rightarrow> (s, Inl (PlanFailure e))
           | Inr p1 \<Rightarrow>
               (case jdict (de_builtins E) (jget meta ''action_report'') of
                  Inl e \<Rightarrow> (s, Inl (PlanFailure e))
                | Inr report \<Rightarrow>
                    (case svc_save E (set_meta ''action_report'' (JObj report)
                              (set_meta ''executed_at'' (JFloat (de_now E (ds_tick s))) p1)) (s\<lparr>ds_tick := Suc (ds_tick s)\<rparr>) of
                       (s1, Inl e) \<Rightarrow> (s1, Inl e)
                     | (s1, Inr q) \<Rightarrow> afterwards E q s1))))"

text \<open>\<open>given\<close>: the caller passed an executor.\<close>

definition start_action :: "decision_env \<Rightarrow> bool \<Rightarrow> string \<Rightarrow> (string \<times> json) list \<Rightarrow> string \<Rightarrow> plan \<Rightarrow> decision_service \<Rightarrow> plan answer" where
  "start_action E given kind action pid p s =
     (case transition p ''execute-action'' RUNNING [] False False (de_now E (ds_tick s)) of
        Inl e \<Rightarrow> (s, Inl (PlanFailure e))
      | Inr p1 \<Rightarrow>
          (case svc_save E (set_meta ''execution'' (JStr ''running'') p1) (s\<lparr>ds_tick := Suc (ds_tick s)\<rparr>) of
             (s1, Inl e) \<Rightarrow> (s1, Inl e)
           | (s1, Inr q) \<Rightarrow>
               (case (if given then Inr [] else build_business_executor E (ds_tick s1) kind) of
                  Inl x \<Rightarrow> (s1, raises x)
                | Inr executor_id \<Rightarrow>
                    (let args = filter (\<lambda>kv. fst kv \<noteq> ''kind'') action
                     in record_action E (de_run E (ds_tick s1) executor_id args) q
                          (s1\<lparr>ds_tick := Suc (ds_tick s1), ds_runs := ds_runs s1 @ [(pid, args)]\<rparr>)))))"

definition execute :: "decision_env \<Rightarrow> bool \<Rightarrow> string \<Rightarrow> decision_service \<Rightarrow> plan answer" where
  "execute E given pid s =
     (case svc_load E pid s of
        Inl e \<Rightarrow> (s, Inl (PlanFailure e))
      | Inr None \<Rightarrow> (s, raises (PyFileNotFoundError pid))
      | Inr (Some p) \<Rightarrow>
          if \<not> is_business p then (s, raises (PyFileNotFoundError pid))
          else if jget (metadata p) ''decision'' \<noteq> JStr ''approved''
            then (s, Inl (DecisionConflictError ''decision must be approved before execution''))
          else let state = meta_state E p ''execution''
               in if state = ''completed'' then (s, Inr p)
                  else if state \<noteq> ''pending'' then (s, Inl (DecisionConflictError (''action execution already '' @ state)))
                  else case jdict (de_builtins E) (jget (metadata p) ''action_spec'') of
                    Inl e \<Rightarrow> (s, Inl (PlanFailure e))
                  | Inr action \<Rightarrow>
                      (case jget action ''kind'' of
                         JStr kind \<Rightarrow>
                           if kind \<notin> {''http_call'', ''notify''} then (s, raises PyValueError)
                           else if \<not> de_config E \<and> \<not> given then (s, raises PyValueError)
                           else start_action E given kind action pid p s
                       | JList _ \<Rightarrow> (s, raises PyTypeError)
                       | JObj _ \<Rightarrow> (s, raises PyTypeError)
                       | _ \<Rightarrow> (s, raises PyValueError)))"

definition list_decisions :: "decision_env \<Rightarrow> decision_service \<Rightarrow> plan_error + plan list" where
  "list_decisions E s = map_sum id (filter is_business) (list_plans (de_builtins E) draft_criteria (ds_dir s))"

section \<open>Sequences of operations\<close>

datatype decision_op =
    CreateOp signal business_option
  | DecideOp string string string
  | ExecuteOp bool string

fun perform :: "decision_env \<Rightarrow> decision_op \<Rightarrow> decision_service \<Rightarrow> decision_service" where
  "perform E (CreateOp sg optn) s = fst (create_decision E sg optn s)"
| "perform E (DecideOp pid decision comment) s = fst (decide_option E pid decision comment s)"
| "perform E (ExecuteOp given pid) s = fst (execute E given pid s)"

definition performs :: "decision_env \<Rightarrow> decision_op list \<Rightarrow> decision_service \<Rightarrow> decision_service" where
  "performs E = fold (perform E)"

section \<open>An approved action runs at most once\<close>

definition runs_of :: "string \<Rightarrow> decision_service \<Rightarrow> nat" where
  "runs_of pid s = length (filter (\<lambda>r. fst r = pid) (ds_runs s))"

definition settled :: "plan \<Rightarrow> bool" where
  "settled p \<longleftrightarrow> is_business p \<and> jget (metadata p) ''decision'' = JStr ''approved'' \<and>
     (\<exists>x. jget (metadata p) ''execution'' = JStr x \<and> x \<notin> {[], ''pending''})"

text \<open>Every stored plan is under its own id and survives storage.\<close>

definition dir_sane :: "decision_env \<Rightarrow> decision_service \<Rightarrow> bool" where
  "dir_sane E s \<longleftrightarrow> (\<forall>pid p. svc_load E pid s = Inr (Some p) \<longrightarrow> plan_id p = pid \<and> plan_storable draft_criteria p)"

definition once :: "decision_env \<Rightarrow> decision_service \<Rightarrow> bool" where
  "once E s \<longleftrightarrow> dir_sane E s \<and> (\<forall>pid. runs_of pid s \<le> 1 \<and>
     (runs_of pid s \<noteq> 0 \<longrightarrow> (\<exists>p. svc_load E pid s = Inr (Some p) \<and> settled p)))"

lemma meta_simps [simp]:
  "jget (metadata (set_meta k v p)) k' = (if k' = k then v else jget (metadata p) k')"
  "plan_id (set_meta k v p) = plan_id p" "steps (set_meta k v p) = steps p"
  "plan_status (set_meta k v p) = plan_status p"
  by (auto simp: set_meta_def jget_def)

lemma stamp_metadata [simp]: "metadata (stamp now p) = metadata p"
  by (simp add: stamp_def Let_def)

lemma set_meta_storable [simp]: "plan_storable crit (set_meta k v p) = plan_storable crit p"
  by (simp add: plan_storable_def set_meta_def)

lemma transition_meta:
  "transition p sid t e sk f now = Inr q \<Longrightarrow> metadata q = metadata p \<and> plan_id q = plan_id p"
  by (auto simp: transition_iff)

lemma svc_load_frame [simp]:
  "svc_load E pid (s\<lparr>ds_tick := n\<rparr>) = svc_load E pid s" "svc_load E pid (s\<lparr>ds_runs := r\<rparr>) = svc_load E pid s"
  by (simp_all add: svc_load_def)

lemma svc_save_cases:
  assumes "py_builtins_ok (de_builtins E)" "plan_storable draft_criteria p" "svc_save E p s = (s', r)"
  obtains (saved) q where "r = Inr q" "q = stamp (de_now E (ds_tick s)) p" "ds_runs s' = ds_runs s"
      "\<And>pid. svc_load E pid s' = (if pid = plan_id p then Inr (Some q) else svc_load E pid s)"
    | (failed) e where "r = Inl e" "ds_runs s' = ds_runs s" "\<And>pid. svc_load E pid s' = svc_load E pid s"
proof -
  obtain d q e where sv: "save_plan (de_disk E (ds_tick s)) (de_now E (ds_tick s)) (ds_dir s) p = (d, q, e)"
    using prod_cases3 by blast
  have s': "s' = s\<lparr>ds_dir := d, ds_tick := Suc (ds_tick s)\<rparr>"
      "r = (case e of None \<Rightarrow> Inr q | Some x \<Rightarrow> Inl (PlanFailure x))"
    using assms(3) sv by (auto simp: svc_save_def)
  have q: "q = stamp (de_now E (ds_tick s)) p" and unchanged: "e \<noteq> None \<Longrightarrow> d = ds_dir s"
    using save_plan_result [OF sv] by blast+
  show thesis
  proof (cases e)
    case None
    then have sv': "save_plan (de_disk E (ds_tick s)) (de_now E (ds_tick s)) (ds_dir s) p = (d, q, None)" using sv by simp
    have "svc_load E pid s' = (if pid = plan_id p then Inr (Some q) else svc_load E pid s)" for pid
      using load_after_save(1) [OF assms(1,2) sv'] load_after_save(2) [OF assms(1,2) sv', of pid] s' q
      by (simp add: svc_load_def)
    then show thesis using saved q s' None by simp
  next
    case (Some x)
    then have "svc_load E pid s' = svc_load E pid s" for pid using s' unchanged by (simp add: svc_load_def)
    then show thesis using failed s' Some by simp
  qed
qed

lemma inv_save:
  assumes B: "py_builtins_ok (de_builtins E)" and s: "once E s" and p: "plan_storable draft_criteria p"
    and keep: "runs_of (plan_id p) s \<noteq> 0 \<Longrightarrow> settled p" and sv: "svc_save E p s = (s', r)"
  shows "once E s'"
  using B p sv
proof (cases rule: svc_save_cases)
  case (saved q)
  then have "runs_of pid s' = runs_of pid s" for pid by (simp add: runs_of_def)
  moreover have "settled q = settled p" using saved(2) by (simp add: settled_def is_business_def)
  ultimately show ?thesis using s saved p keep unfolding once_def dir_sane_def by (auto split: if_splits)
next
  case (failed e)
  then show ?thesis using s by (simp add: once_def dir_sane_def runs_of_def)
qed

lemma runs_frame [simp]:
  "runs_of pid (s\<lparr>ds_tick := n\<rparr>) = runs_of pid s" "once E (s\<lparr>ds_tick := n\<rparr>) = once E s"
  by (simp_all add: runs_of_def once_def dir_sane_def)

lemma once_load:
  assumes "once E s" "svc_load E pid s = Inr (Some p)"
  shows "plan_id p = pid" "plan_storable draft_criteria p" "runs_of pid s \<noteq> 0 \<Longrightarrow> settled p"
proof -
  show "plan_id p = pid" "plan_storable draft_criteria p" using assms unfolding once_def dir_sane_def by blast+
  show "settled p" if "runs_of pid s \<noteq> 0"
    using assms that unfolding once_def by (metis option.inject sum.inject(2))
qed

lemma afterwards_once [simp]: "once E (fst (afterwards E x s)) = once E s"
  by (simp add: afterwards_def)

lemma decision_plan_storable: "op_option_id optn \<noteq> [] \<Longrightarrow> plan_storable draft_criteria (decision_plan sg optn)"
  by (simp add: decision_plan_def plan_storable_def step_storable_def check_storable_def new_plan_def new_step_def
      new_check_def SCHEMA_VERSION_def status_defs)

lemma load_none_id: "svc_load E pid s = Inr None \<Longrightarrow> pid \<noteq> []"
  by (auto simp: svc_load_def load_plan_def store_path_def bind_err_def split: if_splits)

lemma create_once:
  assumes "py_builtins_ok (de_builtins E)" "once E s"
  shows "once E (fst (create_decision E sg optn s))"
proof (cases "svc_load E (op_option_id optn) s = Inr None")
  case True
  have id: "plan_id (decision_plan sg optn) = op_option_id optn" by (simp add: decision_plan_def new_plan_def)
  have "runs_of (op_option_id optn) s = 0" using assms(2) True unfolding once_def by fastforce
  then have "once E (fst (svc_save E (decision_plan sg optn) s))"
    using inv_save [OF assms decision_plan_storable [OF load_none_id [OF True]]] id
    by (metis prod.collapse)
  then show ?thesis using True by (simp add: create_decision_def)
next
  case False
  then show ?thesis using assms(2) by (auto simp: create_decision_def split: sum.split option.split)
qed

text \<open>A plan read back, changed without losing its id, and saved.\<close>

lemma saved_once:
  assumes "py_builtins_ok (de_builtins E)" "once E s" "plan_storable draft_criteria q"
    and "runs_of (plan_id q) s \<noteq> 0 \<Longrightarrow> settled q"
  shows "once E (fst (svc_save E q s))"
  using inv_save [OF assms] by (metis prod.collapse)

lemma settled_meta: "settled p \<Longrightarrow> py_builtins_ok (de_builtins E) \<Longrightarrow>
    meta_state E p ''decision'' = ''approved'' \<and> meta_state E p ''execution'' \<noteq> ''pending''"
  by (auto simp: settled_def meta_state_def jor_def)

lemma decide_once:
  assumes B: "py_builtins_ok (de_builtins E)" and s: "once E s"
  shows "once E (fst (decide_option E pid decision comment s))"
proof (cases "\<exists>p. svc_load E pid s = Inr (Some p) \<and> is_business p \<and> decision \<in> {''approve'', ''reject''} \<and>
    meta_state E p ''decision'' = ''pending''")
  case False
  then show ?thesis using s
    by (auto simp: decide_option_def Let_def split: sum.split option.split)
next
  case True
  then obtain p where p: "svc_load E pid s = Inr (Some p)" "is_business p" "decision \<in> {''approve'', ''reject''}"
      "meta_state E p ''decision'' = ''pending''" by blast
  have idle: "runs_of pid s = 0"
    using once_load(3) [OF s p(1)] settled_meta [OF _ B, of p] p(4) by auto
  define to err where "to = (if decision = ''approve'' then VERIFIED else FAILED)"
    and "err = (if decision = ''reject'' then ''rejected by human'' else [])"
  show ?thesis
  proof (cases "transition p ''approve-option'' to err False False (de_now E (ds_tick s))")
    case (Inl e)
    then show ?thesis using p s unfolding decide_option_def Let_def to_def err_def by simp
  next
    case (Inr p1)
    let ?s = "s\<lparr>ds_tick := Suc (ds_tick s)\<rparr>"
    let ?q = "set_meta ''decided_at'' (JFloat (de_now E (ds_tick s))) (set_meta ''decision_comment'' (JStr (take 2000 comment))
        (set_meta ''decision'' (JStr (if decision = ''approve'' then ''approved'' else ''rejected'')) p1))"
    define q where "q = (if decision = ''reject'' then ?q\<lparr>plan_status := ''failed''\<rparr> else ?q)"
    have p1: "plan_id p1 = pid" "plan_storable draft_criteria p1"
      using transition_meta [OF Inr] once_load(1,2) [OF s p(1)] plan_storable_transition [OF _ Inr] by auto
    then have "plan_storable draft_criteria q" by (simp add: q_def) (simp add: plan_storable_def set_meta_def)
    moreover have "plan_id q = pid" using p1 by (simp add: q_def)
    ultimately have "once E (fst (svc_save E q ?s))" using saved_once [OF B, of ?s q] s idle by simp
    moreover obtain s1 r where "svc_save E q ?s = (s1, r)" by fastforce
    ultimately show ?thesis
      using p Inr unfolding decide_option_def Let_def to_def err_def q_def
      by (cases r) (auto simp: afterwards_once)
  qed
qed

text \<open>The end of an action changes no decision and keeps the plan's id.\<close>

lemma bind_err_Inr: "bind_err m f = Inr y \<longleftrightarrow> (\<exists>x. m = Inr x \<and> f x = Inr y)"
  by (cases m) auto

lemma plan_storable_status: "st \<noteq> [] \<Longrightarrow> plan_storable crit p \<Longrightarrow> plan_storable crit (p\<lparr>plan_status := st\<rparr>)"
  by (simp add: plan_storable_def)

lemma finish_action_result:
  assumes "finish_action E n success error p = Inr q"
  shows "plan_id q = plan_id p \<and> (plan_storable crit p \<longrightarrow> plan_storable crit q) \<and>
    jget (metadata q) k = (if k = ''execution'' then JStr (if success then ''completed'' else ''failed'') else jget (metadata p) k)"
proof (cases success)
  case True
  then obtain p1 p2 p3 where t: "transition p ''execute-action'' DONE [] False False (de_now E n) = Inr p1"
      "transition p1 ''execute-action'' VERIFYING [] False False (de_now E n) = Inr p2"
      "transition p2 ''execute-action'' VERIFIED [] False False (de_now E n) = Inr p3"
    and q: "q = set_meta ''execution'' (JStr ''completed'') (p3\<lparr>plan_status := ''completed''\<rparr>)"
    using assms by (auto simp: finish_action_def Let_def bind_err_Inr)
  have "plan_storable crit p \<longrightarrow> plan_storable crit p3"
    using plan_storable_transition [OF _ t(1)] plan_storable_transition [OF _ t(2)] plan_storable_transition [OF _ t(3)] by blast
  then show ?thesis
    using q True transition_meta [OF t(1)] transition_meta [OF t(2)] transition_meta [OF t(3)]
    by (simp add: plan_storable_status)
next
  case False
  then obtain p1 where t: "transition p ''execute-action'' FAILED error False False (de_now E n) = Inr p1"
    and q: "q = set_meta ''execution'' (JStr ''failed'') (p1\<lparr>plan_status := ''failed''\<rparr>)"
    using assms by (auto simp: finish_action_def Let_def bind_err_Inr)
  then show ?thesis
    using False transition_meta [OF t] plan_storable_transition [OF _ t] by (simp add: plan_storable_status)
qed

lemma record_action_once:
  assumes B: "py_builtins_ok (de_builtins E)" and s: "once E s"
    and p: "plan_storable draft_criteria p" "settled p"
  shows "once E (fst (record_action E outcome p s))"
proof (cases outcome)
  case (ActionResult success error meta)
  show ?thesis
  proof (cases "finish_action E (ds_tick s) success error p")
    case (Inr p1)
    let ?q = "\<lambda>report. set_meta ''action_report'' (JObj report) (set_meta ''executed_at'' (JFloat (de_now E (ds_tick s))) p1)"
    have res: "plan_id p1 = plan_id p \<and> (plan_storable draft_criteria p \<longrightarrow> plan_storable draft_criteria p1) \<and>
        jget (metadata p1) k = (if k = ''execution'' then JStr (if success then ''completed'' else ''failed'') else jget (metadata p) k)" for k
      by (rule finish_action_result [OF Inr])
    have "settled (?q report)" for report using p(2) res by (auto simp: settled_def is_business_def)
    then have saved: "once E (fst (svc_save E (?q report) (s\<lparr>ds_tick := Suc (ds_tick s)\<rparr>)))" for report
      by (intro saved_once [OF B]) (use s p(1) res in simp_all)
    show ?thesis
    proof (cases "jdict (de_builtins E) (jget meta ''action_report'')")
      case (Inl e)
      then show ?thesis using ActionResult Inr s by (simp add: record_action_def)
    next
      case report: (Inr report)
      obtain s1 r where "svc_save E (?q report) (s\<lparr>ds_tick := Suc (ds_tick s)\<rparr>) = (s1, r)" by fastforce
      then show ?thesis using saved [of report] ActionResult Inr report
        by (cases r) (simp_all add: record_action_def)
    qed
  qed (use ActionResult s in \<open>simp add: record_action_def\<close>)
qed (use s in \<open>simp add: record_action_def\<close>)

lemma log_run:
  assumes "once E s" "runs_of pid s = 0" "svc_load E pid s = Inr (Some q)" "settled q"
  shows "once E (s\<lparr>ds_tick := n, ds_runs := ds_runs s @ [(pid, a)]\<rparr>)"
proof -
  let ?t = "s\<lparr>ds_tick := n, ds_runs := ds_runs s @ [(pid, a)]\<rparr>"
  have runs: "runs_of x ?t = runs_of x s + (if x = pid then 1 else 0)" for x by (simp add: runs_of_def)
  have "runs_of x ?t \<le> 1 \<and> (runs_of x ?t \<noteq> 0 \<longrightarrow> (\<exists>p. svc_load E x s = Inr (Some p) \<and> settled p))" for x
  proof (cases "x = pid")
    case True
    then show ?thesis using assms runs by simp
  next
    case False
    then show ?thesis using assms(1) runs [of x] unfolding once_def by simp
  qed
  then show ?thesis using assms(1) unfolding once_def dir_sane_def by simp
qed

text \<open>The start: the plan is saved as running before the executor is called.\<close>

lemma start_action_once:
  assumes B: "py_builtins_ok (de_builtins E)" and s: "once E s" and p: "svc_load E pid s = Inr (Some p)"
    and biz: "is_business p" "jget (metadata p) ''decision'' = JStr ''approved''" and idle: "runs_of pid s = 0"
  shows "once E (fst (start_action E given kind action pid p s))"
proof (cases "transition p ''execute-action'' RUNNING [] False False (de_now E (ds_tick s))")
  case (Inl e)
  then show ?thesis using s by (simp add: start_action_def)
next
  case (Inr p1)
  let ?s = "s\<lparr>ds_tick := Suc (ds_tick s)\<rparr>" and ?q = "set_meta ''execution'' (JStr ''running'') p1"
  have q: "plan_storable draft_criteria ?q" "plan_id ?q = pid" "settled ?q"
    using transition_meta [OF Inr] once_load(1,2) [OF s p] plan_storable_transition [OF _ Inr] biz
    by (auto simp: settled_def is_business_def)
  obtain s1 r where sv: "svc_save E ?q ?s = (s1, r)" by fastforce
  have s1: "once E s1" using inv_save [OF B _ q(1) _ sv] q(3) s by simp
  from B q(1) sv show ?thesis
  proof (cases rule: svc_save_cases)
    case (failed e)
    then show ?thesis using s1 sv Inr by (simp add: start_action_def)
  next
    case (saved q')
    have q': "settled q'" "plan_storable draft_criteria q'" using saved(2) q by (simp_all add: settled_def is_business_def)
    have "once E (s1\<lparr>ds_tick := Suc (ds_tick s1), ds_runs := ds_runs s1 @ [(pid, a)]\<rparr>)" for a
      using log_run [OF s1 _ _ q'(1), of pid] saved(3,4) idle q(2) by (simp add: runs_of_def)
    then have "once E (fst (record_action E out q' (s1\<lparr>ds_tick := Suc (ds_tick s1), ds_runs := ds_runs s1 @ [(pid, a)]\<rparr>)))" for out a
      using record_action_once [OF B _ q'(2,1)] by blast
    then show ?thesis using s1 sv Inr saved(1) by (simp add: start_action_def Let_def split: sum.split)
  qed
qed

lemma execute_once:
  assumes B: "py_builtins_ok (de_builtins E)" and s: "once E s"
  shows "once E (fst (execute E given pid s))"
proof -
  have go: "once E (fst (start_action E given kind action pid p s))"
    if "svc_load E pid s = Inr (Some p)" "is_business p" "jget (metadata p) ''decision'' = JStr ''approved''"
      "meta_state E p ''execution'' = ''pending''" for kind action p
  proof -
    have "runs_of pid s = 0" using once_load(3) [OF s that(1)] settled_meta [OF _ B, of p] that(4) by auto
    then show ?thesis by (rule start_action_once [OF B s that(1-3)])
  qed
  show ?thesis unfolding execute_def Let_def using s go
    by (auto split: sum.split option.split json.split)
qed

theorem performs_once:
  assumes "py_builtins_ok (de_builtins E)" "once E s"
  shows "once E (performs E ops s)"
  using assms(2)
proof (induction ops arbitrary: s)
  case (Cons x ops)
  have "once E (perform E x s)"
    using create_once [OF assms(1) Cons.prems] decide_once [OF assms(1) Cons.prems] execute_once [OF assms(1) Cons.prems]
    by (cases x) auto
  then show ?case using Cons.IH by (simp add: performs_def)
qed (simp add: performs_def)

lemma once_empty: "ds_dir s = [] \<Longrightarrow> ds_runs s = [] \<Longrightarrow> once E s"
  by (auto simp: once_def dir_sane_def runs_of_def svc_load_def load_plan_def get_doc_def dict_get_def store_path_def bind_err_def
      split: if_splits)

end
