(* ===== verification/Executor_Results.thy ===== *)
theory Executor_Results
  imports Gateway_Models
begin

text \<open>
  What executors report: \<^verbatim>\<open>src/voly/executor/base.py\<close> (results, the spend of abandoned attempts, the
  class, the message and the hint of a failure, the errors in the output of the command-line
  executors), \<^verbatim>\<open>cost_policy.py\<close> (cheaper models, the budget of a task) and \<^verbatim>\<open>automation.py\<close>.
  Costs are exact rationals; text outside ASCII is UTF-8.
\<close>

section \<open>Results\<close>

record work_report =
  wr_summary :: string
  wr_files_changed :: "string list"
  wr_files_created :: "string list"
  wr_files_deleted :: "string list"
  wr_actions :: "string list"

record executor_result =
  er_success :: bool
  er_output :: string
  er_error :: string
  er_cost_usd :: rat
  er_input_tokens :: int
  er_output_tokens :: int
  er_duration_ms :: rat
  er_num_turns :: int
  er_session_id :: string
  er_metadata :: "(string \<times> json) list"
  er_report :: "work_report option"
  er_billing_error :: bool
  er_not_available :: bool

definition new_result :: "bool \<Rightarrow> executor_result" where
  "new_result success = \<lparr>er_success = success, er_output = [], er_error = [], er_cost_usd = 0, er_input_tokens = 0,
     er_output_tokens = 0, er_duration_ms = 0, er_num_turns = 0, er_session_id = [], er_metadata = [],
     er_report = None, er_billing_error = False, er_not_available = False\<rparr>"

definition set_metadata :: "string \<Rightarrow> json \<Rightarrow> executor_result \<Rightarrow> executor_result" where
  "set_metadata k v r = r\<lparr>er_metadata := dict_set k v (er_metadata r)\<rparr>"

definition fold_retry_costs :: "executor_result \<Rightarrow> executor_result list \<Rightarrow> executor_result" where
  "fold_retry_costs final abandoned =
     (if abandoned = [] then final
      else let retry_cost = sum_list (map er_cost_usd abandoned)
           in set_metadata ''retry_cost_usd'' (JFloat (round_to 6 retry_cost))
                (set_metadata ''retry_count'' (JInt (int (length abandoned)))
                  (final\<lparr>er_cost_usd := round_to 6 (er_cost_usd final + retry_cost),
                         er_input_tokens := er_input_tokens final + sum_list (map er_input_tokens abandoned),
                         er_output_tokens := er_output_tokens final + sum_list (map er_output_tokens abandoned)\<rparr>)))"

section \<open>The class of a failure\<close>

definition timed_out :: "executor_result \<Rightarrow> bool" where
  "timed_out r \<longleftrightarrow> truthy (jget (er_metadata r) ''timeout'') \<or> truthy (jget (er_metadata r) ''deadline_exhausted'')"

definition classify_failure :: "py_builtins \<Rightarrow> executor_result \<Rightarrow> string option" where
  "classify_failure B r =
     (if er_success r then None
      else if er_billing_error r then Some ''billing''
      else if er_not_available r then Some ''not_available''
      else if timed_out r then Some ''timeout''
      else Some (case classify_provider_error B None (JStr (er_error r)) of Some c \<Rightarrow> c | None \<Rightarrow> ''unrecognized''))"

definition failure_message :: "executor_result \<Rightarrow> string" where
  "failure_message r =
     (let reported = str_or (er_error r) ''no details provided''; text = strip (er_error r); low = lower text;
          has = (\<lambda>p. has_sub low p)
      in if er_success r then er_output r
         else if timed_out r then ''Executor timed out: '' @ reported
         else if er_billing_error r then ''Executor billing issue: '' @ reported
         else if er_not_available r then ''Executor service unavailable: '' @ reported
         else if text = [] then ''Executor failed without providing an error message.''
         else if has ''authentication'' \<or> has ''auth'' \<or> has ''credential'' then ''Authentication failed: '' @ text
         else if has ''not found'' \<or> has ''not installed'' \<or> has ''no such file'' then ''Executor dependency missing: '' @ text
         else if has ''timeout'' then ''Executor timed out: '' @ text
         else if has ''model'' \<and> (has ''unsupported'' \<or> has ''not supported'') then ''Unsupported model: '' @ text
         else if has_sub text ''10038'' \<or> has ''not a socket'' then ''Cursor connection failed: '' @ text
         else if has ''api key'' \<and> (has ''invalid'' \<or> has ''401'') then ''Authentication failed: '' @ text
         else text)"

definition dash :: string where "dash = utf8 [0xE2, 0x80, 0x94]"
definition dquote :: string where "dquote = [CHR 0x22]"
definition bquote :: string where "bquote = [CHR 0x60]"

definition failure_hint :: "string \<Rightarrow> string \<Rightarrow> string" where
  "failure_hint message executor_name =
     (let low = lower message; name = lower executor_name; has = (\<lambda>p. has_sub low p)
      in if name = ''claude-code'' \<or> (has ''authentication'' \<and> has ''claude'')
         then ''Run '' @ bquote @ ''claude auth login'' @ bquote @ '' in your terminal (Anthropic CLI auth is separate from ANTHROPIC_API_KEY).''
         else if name = ''cursor'' \<or> has_sub message ''10038'' \<or> has ''not a socket''
         then ''Start Cursor IDE '' @ dash @ '' the cursor executor connects to the local Cursor process via socket.''
         else if has ''cursor-sdk not installed''
         then ''Run '' @ bquote @ ''pip install -e '' @ dquote @ ''.[cursor]'' @ dquote @ bquote @ '' from the voly package directory.''
         else if name \<in> {''opencode'', ''zen''} \<and> (has ''opencode'' \<or> has ''not found'' \<or> has ''no such file'')
         then ''Install OpenCode CLI ('' @ bquote @ ''npm i -g opencode'' @ bquote @ '') and ensure '' @ bquote @ ''opencode'' @ bquote @ '' is on PATH.''
         else if has ''unsupported model'' \<or> (has ''model'' \<and> has ''not supported'')
         then ''Pick a supported free model, e.g. '' @ bquote @ ''voly run --executor opencode --model mimo-v2.5-free ''
                @ dquote @ ''task'' @ dquote @ bquote @ ''.''
         else if has ''cursor_api_key'' then ''Set CURSOR_API_KEY in voly/.env.''
         else if name = ''wrangler'' \<or> has ''wrangler''
         then ''Start '' @ bquote @ ''wrangler dev'' @ bquote @ '' in the target project before running the wrangler executor.''
         else if name = ''cf-containers'' \<or> has ''cloudflare containers''
         then (if has ''token''
               then ''Set VOLY_CF_CONTAINERS_TOKEN to a tenant JWT matching the sandbox-spike JWT_SECRET.''
               else ''Start the sandbox-spike Worker: '' @ bquote @ ''cd voly-cloud/cf-workers/sandbox-spike && ''
                      @ ''npx wrangler dev --ip 127.0.0.1 --port 8791 --local'' @ bquote @ ''.'')
         else [])"

record failure_details =
  fd_error :: string
  fd_error_message :: string
  fd_error_class :: "string option"
  fd_error_hint :: "string option"

definition executor_failure_details :: "py_builtins \<Rightarrow> executor_result \<Rightarrow> string \<Rightarrow> failure_details option" where
  "executor_failure_details B r executor_name =
     (if er_success r then None
      else let message = failure_message r; hint = failure_hint message executor_name
           in Some \<lparr>fd_error = er_error r, fd_error_message = message, fd_error_class = classify_failure B r,
                    fd_error_hint = (if hint = [] then None else Some hint)\<rparr>)"

definition format_executor_failure :: "py_builtins \<Rightarrow> executor_result \<Rightarrow> string \<Rightarrow> string" where
  "format_executor_failure B r executor_name =
     (case executor_failure_details B r executor_name of
        None \<Rightarrow> er_output r
      | Some d \<Rightarrow> (case fd_error_hint d of
          Some hint \<Rightarrow> fd_error_message d @ [CHR 0x0A] @ ''Hint: '' @ hint
        | None \<Rightarrow> fd_error_message d))"

section \<open>Errors in the output of a command-line executor\<close>

definition oc_extract :: "py_builtins \<Rightarrow> json \<Rightarrow> string \<times> string" where
  "oc_extract B v = (case v of
     JStr s \<Rightarrow> (s, [])
   | JObj d \<Rightarrow> (case jget d ''data'' of
       JObj inner \<Rightarrow> (py_str B (jor (jor (jget inner ''message'') (jget inner ''text'')) (jget_default d ''name'' (JStr ''error''))),
                      py_str B (jget_default inner ''ref'' (JStr [])))
     | _ \<Rightarrow> (py_str B (jor (jor (jor (jget d ''message'') (jget d ''text'')) (jget d ''name'')) (JStr (json_dumps B (JObj d)))),
              py_str B (jget_default d ''ref'' (JStr []))))
   | _ \<Rightarrow> (py_str B v, []))"

definition oc_show :: "string \<times> string \<Rightarrow> string" where
  "oc_show mr = (case mr of (msg, r) \<Rightarrow> if r \<noteq> [] then msg @ '' ('' @ r @ '')'' else msg)"

text \<open>The \<^verbatim>\<open>name\<close> of an event is a string, or the source's test on it raises.\<close>

definition oc_event_error :: "py_builtins \<Rightarrow> (string \<times> json) list \<Rightarrow> py_exn + string option" where
  "oc_event_error B ev =
     (if jget ev ''type'' = JStr ''error''
      then Inr (Some (oc_show (oc_extract B (jor (jor (jget ev ''error'') (jget ev ''message'')) (JObj ev)))))
      else let name = jget_default ev ''name'' (JStr [])
           in if \<not> truthy name then Inr None
              else case name of
                JStr s \<Rightarrow> Inr (if has_sub (lower s) ''error'' then Some (oc_show (oc_extract B (JObj ev))) else None)
              | _ \<Rightarrow> Inl PyAttributeError)"

text \<open>\<^verbatim>\<open>re.sub(ESC "[" [0-9;]* [A-Za-z])\<close>: colour codes are removed.\<close>

function strip_ansi :: "string \<Rightarrow> string" where
  "strip_ansi [] = []"
| "strip_ansi (c # cs) =
     (if c = CHR 0x1B \<and> cs \<noteq> [] \<and> hd cs = CHR ''[''
      then (let rest = dropWhile (\<lambda>d. is_digit d \<or> d = CHR '';'') (tl cs)
            in if rest \<noteq> [] \<and> is_alpha (hd rest) then strip_ansi (tl rest) else c # strip_ansi cs)
      else c # strip_ansi cs)"
  by pat_completeness auto
termination
proof (relation "measure length", goal_cases)
  case (2 c cs rest)
  have "length (dropWhile (\<lambda>d. is_digit d \<or> d = CHR '';'') (tl cs)) \<le> length cs"
    by (rule order_trans [OF length_dropWhile_le]) simp
  then show ?case using 2 by (auto simp: less_Suc_eq_le intro: order_trans [OF diff_le_self])
qed auto

text \<open>
  The messages of one stream: a line of JSON that is an object may be an error event, one that is
  not ends the scan with an exception, any other line is a message itself.
\<close>

fun cli_messages :: "py_builtins \<Rightarrow> (string \<Rightarrow> json option) \<Rightarrow> string list \<Rightarrow> py_exn + string list" where
  "cli_messages B loads [] = Inr []"
| "cli_messages B loads (l # ls) =
     (let line = strip l
      in if line = [] then cli_messages B loads ls
         else case (case loads line of
                      None \<Rightarrow> Inr (let clean = strip_ansi line in if clean = [] then [] else [clean])
                    | Some (JObj ev) \<Rightarrow> map_sum id (\<lambda>m. case m of Some s \<Rightarrow> if s = [] then [] else [s] | None \<Rightarrow> []) (oc_event_error B ev)
                    | Some _ \<Rightarrow> Inl PyAttributeError) of
                Inl e \<Rightarrow> Inl e
              | Inr ms \<Rightarrow> map_sum id (append ms) (cli_messages B loads ls))"

definition extract_cli_error :: "py_builtins \<Rightarrow> (string \<Rightarrow> json option) \<Rightarrow> string \<Rightarrow> string \<Rightarrow> int \<Rightarrow> py_exn + string" where
  "extract_cli_error B loads stdout stderr returncode =
     (let fallback = ''opencode exited with code '' @ str_int returncode
      in case cli_messages B loads (splitlines stdout) of
           Inl e \<Rightarrow> Inl e
         | Inr ms \<Rightarrow> if ms \<noteq> [] then Inr (join [CHR 0x0A] ms)
             else map_sum id (\<lambda>ns. if ns \<noteq> [] then join [CHR 0x0A] ns else fallback) (cli_messages B loads (splitlines stderr)))"

section \<open>The cost policy\<close>

text \<open>\<^verbatim>\<open>lower()\<close> on ASCII and on the Russian alphabet, as UTF-8.\<close>

fun lower_text :: "string \<Rightarrow> string" where
  "lower_text [] = []"
| "lower_text [c] = [lower_char c]"
| "lower_text (c # d # cs) =
     (let m = (of_char d :: nat)
      in if c = CHR 0xD0 \<and> 144 \<le> m \<and> m \<le> 159 then CHR 0xD0 # char_of (m + 32) # lower_text cs
         else if c = CHR 0xD0 \<and> 160 \<le> m \<and> m \<le> 175 then CHR 0xD1 # char_of (m - 32) # lower_text cs
         else if c = CHR 0xD0 \<and> m = 129 then CHR 0xD1 # char_of (145 :: nat) # lower_text cs
         else lower_char c # lower_text (d # cs))"

definition cyr :: "nat list \<Rightarrow> regex" where "cyr bytes = lit (utf8 bytes)"

definition whole_word :: "string \<Rightarrow> regex" where "whole_word s = cats [WordB, lit s, WordB]"

definition TASK_TYPE_PATTERNS :: "(string \<times> regex list) list" where
  "TASK_TYPE_PATTERNS =
     [(''security'',
         [whole_word ''security'', Cat WordB (lit ''vulnerab''), cats [WordB, lit ''cve-'', digits], whole_word ''owasp'',
          cats [WordB, lit ''secret'', Alt (lit ''s'') Eps, lit '' scan''],
          cyr [0xD0,0xB1,0xD0,0xB5,0xD0,0xB7,0xD0,0xBE,0xD0,0xBF,0xD0,0xB0,0xD1,0x81,0xD0,0xBD,0xD0,0xBE,0xD1,0x81,0xD1,0x82],
          cyr [0xD1,0x83,0xD1,0x8F,0xD0,0xB7,0xD0,0xB2,0xD0,0xB8,0xD0,0xBC]]),
      (''docs'',
         [lit ''document'', lit ''readme'', lit ''wiki'',
          cyr [0xD0,0xB4,0xD0,0xBE,0xD0,0xBA,0xD1,0x83,0xD0,0xBC,0xD0,0xB5,0xD0,0xBD,0xD1,0x82],
          cyr [0xD0,0xBE,0xD0,0xBF,0xD0,0xB8,0xD1,0x81,0xD0,0xB0,0xD0,0xBD,0xD0,0xB8], lit ''changelog'']),
      (''tests'',
         [whole_word ''test'', lit ''pytest'', lit ''unittest'', lit ''vitest'',
          cyr [0xD1,0x82,0xD0,0xB5,0xD1,0x81,0xD1,0x82], Cat (lit ''spec'') WordB]),
      (''summarization'',
         [lit ''summar'', lit ''summary'', cyr [0xD0,0xBA,0xD1,0x80,0xD0,0xB0,0xD1,0x82,0xD0,0xBA],
          cyr [0xD1,0x81,0xD0,0xB2,0xD0,0xBE,0xD0,0xB4,0xD0,0xBA], cyr [0xD0,0xBE,0xD0,0xB1,0xD0,0xB7,0xD0,0xBE,0xD1,0x80],
          lit ''audit report''])]"

definition detect_task_type :: "string \<Rightarrow> string option" where
  "detect_task_type task = (let text = lower_text task in
     map_option fst (find (\<lambda>(_, patterns). list_ex (\<lambda>pat. re_test pat text) patterns) TASK_TYPE_PATTERNS))"

record cost_policy =
  cp_enabled :: bool
  cp_max_task_cost_usd :: rat
  cp_stop_on_budget_exceeded :: bool
  cp_prefer_cheaper_for :: "string list"
  cp_cheaper_model :: string
  cp_cheaper_model_map :: "(string \<times> string) list"

record cost_policy_result =
  cr_task_type :: "string option"
  cr_model_override :: "string option"
  cr_provider_override :: "string option"
  cr_reason :: string

definition no_override :: "string option \<Rightarrow> cost_policy_result" where
  "no_override t = \<lparr>cr_task_type = t, cr_model_override = None, cr_provider_override = None, cr_reason = []\<rparr>"

text \<open>\<open>provider_of\<close> is the provider of \<^verbatim>\<open>config.get_model_config\<close>.\<close>

definition apply_cost_policy :: "cost_policy \<Rightarrow> (string \<Rightarrow> string) \<Rightarrow> string \<Rightarrow> string \<Rightarrow> cost_policy_result" where
  "apply_cost_policy P provider_of route_model task =
     (if \<not> cp_enabled P then no_override None
      else case detect_task_type task of
        None \<Rightarrow> no_override None
      | Some t \<Rightarrow>
          if t \<notin> set (cp_prefer_cheaper_for P) then no_override (Some t)
          else let cheaper = (case map_of (cp_cheaper_model_map P) t of Some m \<Rightarrow> m | None \<Rightarrow> cp_cheaper_model P)
               in if cheaper = route_model then no_override (Some t)
                  else \<lparr>cr_task_type = Some t, cr_model_override = Some cheaper,
                        cr_provider_override = Some (provider_of cheaper), cr_reason = ''prefer_cheaper_model_for:'' @ t\<rparr>)"

definition is_budget_exceeded :: "rat \<Rightarrow> cost_policy \<Rightarrow> bool" where
  "is_budget_exceeded cost P \<longleftrightarrow> cp_enabled P \<and> cp_stop_on_budget_exceeded P \<and> cost > cp_max_task_cost_usd P"

definition budget_status :: "rat \<Rightarrow> cost_policy \<Rightarrow> string" where
  "budget_status cost P = (if is_budget_exceeded cost P then ''budget_exceeded'' else ''completed'')"

section \<open>Automation metrics\<close>

definition EXECUTOR_BASE_SCORE :: "(string \<times> rat) list" where
  "EXECUTOR_BASE_SCORE = [(''cursor'', 92/100), (''claude-code'', 90/100), (''opencode'', 88/100), (''deepseek'', 55/100),
     (''mimo'', 50/100), (''zen'', 60/100)]"

definition STEPS_PER_TURN :: "(string \<times> int) list" where
  "STEPS_PER_TURN = [(''cursor'', 4), (''claude-code'', 4), (''opencode'', 3), (''deepseek'', 1), (''mimo'', 1), (''zen'', 2)]"

definition compute_automation_metrics :: "string \<Rightarrow> executor_result \<Rightarrow> string option \<Rightarrow> bool \<Rightarrow> rat \<times> int" where
  "compute_automation_metrics executor r task_type via_pipeline =
     (if via_pipeline
      then (let base = (if task_type \<in> {Some ''docs'', Some ''summarization''} then 45/100 else 55/100);
                turns = (if er_num_turns r = 0 then 1 else er_num_turns r)
            in if er_success r then (min 1 (base + 1/10), max 1 turns) else (base * (1/2), 0))
      else (let base = (case map_of EXECUTOR_BASE_SCORE executor of Some b \<Rightarrow> b | None \<Rightarrow> 1/2);
                turns = max (er_num_turns r) (if er_success r then 1 else 0);
                per = (case map_of STEPS_PER_TURN executor of Some n \<Rightarrow> n | None \<Rightarrow> 2)
            in if \<not> er_success r then (round_to 2 (base * (4/10)), 0)
               else (round_to 2 (min 1 (base + min (8/100) (of_int turns * (1/100)))), turns * per)))"

section \<open>Laws\<close>

lemma fold_retry_frame [simp]:
  "er_success (fold_retry_costs final abandoned) = er_success final"
  "er_output (fold_retry_costs final abandoned) = er_output final"
  "er_error (fold_retry_costs final abandoned) = er_error final"
  by (simp_all add: fold_retry_costs_def set_metadata_def Let_def)

lemma fold_retry_totals:
  "er_input_tokens (fold_retry_costs final abandoned) = er_input_tokens final + sum_list (map er_input_tokens abandoned)"
  "er_output_tokens (fold_retry_costs final abandoned) = er_output_tokens final + sum_list (map er_output_tokens abandoned)"
  "abandoned \<noteq> [] \<Longrightarrow> er_cost_usd (fold_retry_costs final abandoned)
     = round_to 6 (er_cost_usd final + sum_list (map er_cost_usd abandoned))"
  by (simp_all add: fold_retry_costs_def set_metadata_def Let_def)

text \<open>Every failure has a class and a message; a success has none.\<close>

lemma failure_classified: "classify_failure B r = None \<longleftrightarrow> er_success r"
  by (simp add: classify_failure_def)

lemma failure_message_nonempty: "\<not> er_success r \<Longrightarrow> failure_message r \<noteq> []"
  by (simp add: failure_message_def Let_def)

lemma failure_details_iff: "executor_failure_details B r name = None \<longleftrightarrow> er_success r"
  by (simp add: executor_failure_details_def Let_def)

lemma round_half_even_error: "\<bar>of_int (round_half_even r) - r\<bar> \<le> 1 / 2"
proof -
  define f where "f = \<lfloor>r\<rfloor>"
  have "of_int f \<le> r" "r < of_int f + 1" unfolding f_def by linarith+
  then show ?thesis unfolding round_half_even_def f_def [symmetric] by (auto simp: Let_def abs_if)
qed

lemma round_to_error: "\<bar>round_to n r - r\<bar> \<le> 1 / (2 * 10 ^ n)"
proof -
  have "round_to n r - r = (of_int (round_half_even (r * 10 ^ n)) - r * 10 ^ n) / 10 ^ n"
    by (simp add: round_to_def diff_divide_distrib)
  then have "\<bar>round_to n r - r\<bar> = \<bar>of_int (round_half_even (r * 10 ^ n)) - r * 10 ^ n\<bar> / 10 ^ n"
    by (simp add: abs_divide)
  also have "\<dots> \<le> (1 / 2) / 10 ^ n"
    by (rule divide_right_mono [OF round_half_even_error]) simp
  finally show ?thesis by simp
qed

lemma budget_status_iff: "budget_status c P = ''completed'' \<longleftrightarrow> \<not> is_budget_exceeded c P"
  by (simp add: budget_status_def)

text \<open>A line of output that is JSON and not an object (a number, say) ends the extraction with an exception.\<close>

lemma cli_number_line_raises:
  assumes "loads ''42'' = Some (JInt 42)"
  shows "extract_cli_error B loads ''42'' stderr code = Inl PyAttributeError"
  using assms by (simp add: extract_cli_error_def splitlines_def is_line_end_def strip_def is_space_def Let_def)

text \<open>Any error that mentions an author is presented as an authentication failure.\<close>

lemma author_is_authentication:
  "failure_message ((new_result False)\<lparr>er_error := ''unknown author''\<rparr>) = ''Authentication failed: unknown author''"
  by (simp add: failure_message_def new_result_def timed_out_def jget_def strip_def is_space_def lower_def lower_char_def Let_def)

text \<open>A billing error with the timeout marker: its class is \<^verbatim>\<open>billing\<close>, its message is that of a timeout.\<close>

lemma class_and_message_differ:
  fixes r
  defines "r \<equiv> (new_result False)\<lparr>er_error := ''x'', er_billing_error := True, er_metadata := [(''timeout'', JBool True)]\<rparr>"
  shows "classify_failure B r = Some ''billing''" "failure_message r = ''Executor timed out: x''"
  unfolding r_def by (simp_all add: classify_failure_def failure_message_def new_result_def timed_out_def jget_def)

end
