(* ===== verification/Executor_Safety.thy ===== *)
theory Executor_Safety
  imports Voly_Prelude
begin

text \<open>
  \<^verbatim>\<open>src/voly/executor/safety.py\<close>: what an executor's run may leave in the working tree.  The tree is a
  map from paths to contents; the snapshot of \<^verbatim>\<open>git stash create\<close> is another.  What git and the file
  system answer (the diff against the snapshot, whether a checkout or a removal succeeds) is a
  record of functions.
\<close>

section \<open>File name patterns\<close>

text \<open>
  \<^verbatim>\<open>fnmatch\<close> on a POSIX system: \<^verbatim>\<open>*\<close>, \<^verbatim>\<open>?\<close> and \<^verbatim>\<open>[...]\<close> (a leading \<^verbatim>\<open>!\<close> negates), where \<^verbatim>\<open>*\<close> crosses
  slashes; a bracket that is never closed is a literal.
\<close>

fun in_class :: "string \<Rightarrow> char \<Rightarrow> bool" where
  "in_class (a # b # c # rest) x =
     (if b = CHR ''-'' then (of_char a \<le> (of_char x :: nat) \<and> of_char x \<le> (of_char c :: nat)) \<or> in_class rest x
      else a = x \<or> in_class (b # c # rest) x)"
| "in_class cs x = (x \<in> set cs)"

text \<open>The text of a class and what follows its closing bracket; a bracket in first place is a member.\<close>

definition class_body :: "string \<Rightarrow> (string \<times> string) option" where
  "class_body p =
     (let start = (if p \<noteq> [] \<and> hd p = CHR ''!'' then 1 else 0);
          start' = (if drop start p \<noteq> [] \<and> hd (drop start p) = CHR '']'' then start + 1 else start);
          body = takeWhile (\<lambda>c. c \<noteq> CHR '']'') (drop start' p); n = start' + length body
      in if n < length p then Some (take n p, drop (n + 1) p) else None)"

definition class_member :: "string \<Rightarrow> char \<Rightarrow> bool" where
  "class_member body x =
     (if body \<noteq> [] \<and> hd body = CHR ''!'' then \<not> in_class (tl body) x else in_class body x)"

lemma class_body_shorter: "class_body p = Some (body, rest) \<Longrightarrow> length rest < Suc (length p)"
  by (auto simp: class_body_def Let_def split: if_splits)

function (sequential) fnmatch :: "string \<Rightarrow> string \<Rightarrow> bool" where
  "fnmatch s [] = (s = [])"
| "fnmatch s (c # p) =
     (if c = CHR ''*'' then fnmatch s p \<or> (case s of [] \<Rightarrow> False | _ # t \<Rightarrow> fnmatch t (c # p))
      else if c = CHR ''?'' then s \<noteq> [] \<and> fnmatch (tl s) p
      else if c = CHR ''['' then
        (case class_body p of
           None \<Rightarrow> s \<noteq> [] \<and> hd s = c \<and> fnmatch (tl s) p
         | Some (body, rest) \<Rightarrow> s \<noteq> [] \<and> class_member body (hd s) \<and> fnmatch (tl s) rest)
      else s \<noteq> [] \<and> hd s = c \<and> fnmatch (tl s) p)"
  by pat_completeness auto
termination
  by (relation "measure (\<lambda>(s, p). length s + length p)")
    (auto dest: class_body_shorter simp: neq_Nil_conv)

section \<open>Protected paths\<close>

definition DEFAULT_PROTECTED_PATHS :: "string list" where
  "DEFAULT_PROTECTED_PATHS =
     [''.env'', ''.env.*'', ''*.pem'', ''*.key'', ''id_rsa*'', ''id_ed25519*'', ''*.p12'', ''.git/**'']"

definition ENV_TEMPLATE_ALLOW :: "string list" where
  "ENV_TEMPLATE_ALLOW = [''.env.example'', ''.env.sample'', ''.env.template'']"

definition DIFF_PREVIEW_LIMIT :: nat where "DIFF_PREVIEW_LIMIT = 20000"

definition base_name :: "string \<Rightarrow> string" where
  "base_name path = last (split_on CHR ''/'' path)"

definition pattern_protects :: "string \<Rightarrow> string \<Rightarrow> bool" where
  "pattern_protects norm pat \<longleftrightarrow> fnmatch norm pat \<or> fnmatch (base_name norm) pat \<or>
     (ends_with pat ''/**'' \<and>
        (norm = take (length pat - 3) pat \<or> starts_with norm (take (length pat - 2) pat)))"

definition is_protected :: "string \<Rightarrow> string list \<Rightarrow> bool" where
  "is_protected path patterns \<longleftrightarrow>
     base_name path \<notin> set ENV_TEMPLATE_ALLOW \<and> list_ex (pattern_protects path) patterns"

section \<open>What a run touched\<close>

type_synonym git_status = "(string \<times> string) list"

definition status_differs :: "git_status \<Rightarrow> git_status \<Rightarrow> string \<Rightarrow> bool" where
  "status_differs before after p \<longleftrightarrow> dict_get before p \<noteq> dict_get after p"

definition newly_added :: "git_status \<Rightarrow> git_status \<Rightarrow> string \<Rightarrow> bool" where
  "newly_added before after p \<longleftrightarrow>
     dict_get before p = None \<and> dict_get after p \<in> {Some ''?'', Some ''??'', Some ''A''}"

definition run_touched_files :: "git_status \<Rightarrow> git_status \<Rightarrow> string list \<times> string list" where
  "run_touched_files before after =
     (let touched = filter (status_differs before after) (sorted_set (map fst before @ map fst after))
      in (touched, filter (newly_added before after) touched))"

type_synonym tree = "string \<rightharpoonup> string"

text \<open>\<open>te_diff\<close>: the lines of \<^verbatim>\<open>git diff --name-only\<close>, \<open>None\<close> when git fails.\<close>

record tree_env =
  te_diff :: "string list option"
  te_diff_text :: "string option"
  te_checkout :: "string \<Rightarrow> bool"
  te_remove :: "string \<Rightarrow> bool"

definition content_touched_files ::
  "tree_env \<Rightarrow> string \<Rightarrow> git_status \<Rightarrow> git_status \<Rightarrow> string list \<times> string list" where
  "content_touched_files T snapshot before after =
     (let diff = (if snapshot = [] then [] else case te_diff T of
                    None \<Rightarrow> [] | Some lines \<Rightarrow> filter (\<lambda>s. s \<noteq> []) (map strip lines));
          (delta, created) = run_touched_files before after
      in (sorted_set (diff @ delta), created))"

section \<open>Rolling back\<close>

text \<open>One path: a created file is removed, another is checked out from the snapshot \<open>snap\<close>.\<close>

definition rollback_one ::
  "tree_env \<Rightarrow> string \<Rightarrow> tree \<Rightarrow> string list \<Rightarrow> string \<Rightarrow> string list \<times> tree \<Rightarrow> string list \<times> tree" where
  "rollback_one T snapshot snap created path acc =
     (case acc of (finished, wt) \<Rightarrow>
        if path \<in> set created
        then (if wt path \<noteq> None \<and> \<not> te_remove T path then (finished, wt)
              else (finished @ [path], wt(path := None)))
        else if snapshot = [] then (finished, wt)
        else if te_checkout T path \<and> snap path \<noteq> None then (finished @ [path], wt(path := snap path))
        else (finished, wt))"

definition rollback_files ::
  "tree_env \<Rightarrow> string \<Rightarrow> tree \<Rightarrow> string list \<Rightarrow> string list \<Rightarrow> tree \<Rightarrow> string list \<times> tree" where
  "rollback_files T snapshot snap files created wt =
     fold (rollback_one T snapshot snap created) files ([], wt)"

definition capture_diff :: "tree_env \<Rightarrow> string \<Rightarrow> string list \<Rightarrow> string" where
  "capture_diff T snapshot created =
     (let parts = (case te_diff_text T of
                     Some text \<Rightarrow> if snapshot \<noteq> [] \<and> text \<noteq> [] then [text] else []
                   | None \<Rightarrow> []) @ map (\<lambda>p. ''+++ created: '' @ p) created;
          diff = join [CHR 0x0A] parts
      in if length diff > DIFF_PREVIEW_LIMIT
         then take DIFF_PREVIEW_LIMIT diff @ [CHR 0x0A] @ utf8 [0xE2, 0x80, 0xA6] @ ''(truncated)'' else diff)"

section \<open>The policy\<close>

record safety_policy =
  sp_enabled :: bool
  sp_dry_run :: bool
  sp_protected_paths :: "string list"
  sp_max_files_touched :: int

datatype safety_violation = MaxFilesTouched nat int | ProtectedModified "string list"

record safety_outcome =
  so_violations :: "safety_violation list"
  so_rolled_back :: "string list"
  so_dry_run :: bool
  so_diff_preview :: string

definition no_outcome :: safety_outcome where
  "no_outcome = \<lparr>so_violations = [], so_rolled_back = [], so_dry_run = False, so_diff_preview = []\<rparr>"

definition apply_safety_policy ::
  "tree_env \<Rightarrow> string \<Rightarrow> safety_policy option \<Rightarrow> string \<Rightarrow> tree \<Rightarrow> git_status \<Rightarrow> git_status \<Rightarrow> bool \<Rightarrow> tree
     \<Rightarrow> safety_outcome \<times> tree" where
  "apply_safety_policy T cwd policy snapshot snap before after dry_run wt =
     (case policy of
        None \<Rightarrow> (no_outcome, wt)
      | Some P \<Rightarrow>
          if \<not> sp_enabled P \<or> cwd = [] then (no_outcome, wt)
          else let dry = (dry_run \<or> sp_dry_run P);
                   (touched, created) = content_touched_files T snapshot before after
               in if snapshot = [] \<or> touched = [] then (no_outcome\<lparr>so_dry_run := dry\<rparr>, wt)
                  else let patterns = (if sp_protected_paths P \<noteq> [] then sp_protected_paths P else DEFAULT_PROTECTED_PATHS);
                           protected = filter (\<lambda>p. is_protected p patterns) touched;
                           limit = sp_max_files_touched P;
                           out = no_outcome\<lparr>so_dry_run := dry,
                                            so_diff_preview := (if dry then capture_diff T snapshot created else [])\<rparr>
                       in if limit > 0 \<and> int (length touched) > limit
                          then (case rollback_files T snapshot snap touched created wt of (finished, wt') \<Rightarrow>
                                  (out\<lparr>so_violations := [MaxFilesTouched (length touched) limit], so_rolled_back := finished\<rparr>, wt'))
                          else let violations = (if protected \<noteq> [] then [ProtectedModified (take 10 protected)] else [])
                               in if dry
                                  then (case rollback_files T snapshot snap touched created wt of (finished, wt') \<Rightarrow>
                                          (out\<lparr>so_violations := violations, so_rolled_back := finished\<rparr>, wt'))
                                  else if protected \<noteq> []
                                  then (case rollback_files T snapshot snap protected
                                               (filter (\<lambda>p. p \<in> set protected) created) wt of (finished, wt') \<Rightarrow>
                                          (out\<lparr>so_violations := violations, so_rolled_back := finished\<rparr>, wt'))
                                  else (out, wt))"

section \<open>What is touched, what is restored\<close>

lemma run_touched_iff:
  assumes "run_touched_files before after = (touched, created)"
  shows "p \<in> set touched \<longleftrightarrow> status_differs before after p"
    and "p \<in> set created \<longleftrightarrow> newly_added before after p"
proof -
  have key: "p \<in> set (map fst d)" if "dict_get d p \<noteq> None" for d :: git_status
    using that by (force simp: dict_get_def dest: map_of_SomeD)
  have "p \<in> set (map fst before) \<or> p \<in> set (map fst after)" if "status_differs before after p"
    using that key by (metis status_differs_def)
  then show touched: "p \<in> set touched \<longleftrightarrow> status_differs before after p"
    using assms by (auto simp: run_touched_files_def Let_def)
  have "newly_added before after p \<Longrightarrow> status_differs before after p" by (auto simp: newly_added_def status_differs_def)
  then show "p \<in> set created \<longleftrightarrow> newly_added before after p"
    using touched assms by (auto simp: run_touched_files_def Let_def)
qed

lemma content_touched:
  assumes "content_touched_files T snapshot before after = (touched, created)"
  shows "distinct touched" "set created \<subseteq> set touched"
    "p \<in> set created \<longleftrightarrow> newly_added before after p"
    "p \<in> set touched \<longleftrightarrow> status_differs before after p \<or>
       (snapshot \<noteq> [] \<and> p \<noteq> [] \<and> (\<exists>lines. te_diff T = Some lines \<and> p \<in> strip ` set lines))"
proof -
  obtain delta new where r: "run_touched_files before after = (delta, new)" by fastforce
  have t: "touched = sorted_set ((if snapshot = [] then [] else case te_diff T of
        None \<Rightarrow> [] | Some lines \<Rightarrow> filter (\<lambda>s. s \<noteq> []) (map strip lines)) @ delta)" and c: "created = new"
    using assms r by (auto simp: content_touched_files_def Let_def)
  show "distinct touched" by (simp add: t)
  show "p \<in> set created \<longleftrightarrow> newly_added before after p" using run_touched_iff(2) [OF r] c by simp
  have "newly_added before after q \<Longrightarrow> status_differs before after q" for q by (auto simp: newly_added_def status_differs_def)
  then show "set created \<subseteq> set touched" using run_touched_iff [OF r] c t by auto
  show "p \<in> set touched \<longleftrightarrow> status_differs before after p \<or>
       (snapshot \<noteq> [] \<and> p \<noteq> [] \<and> (\<exists>lines. te_diff T = Some lines \<and> p \<in> strip ` set lines))"
    using run_touched_iff(1) [OF r] t by (cases "te_diff T") auto
qed

text \<open>Whether git and the file system let a path be put back, and to what.\<close>

definition can_restore :: "tree_env \<Rightarrow> string \<Rightarrow> tree \<Rightarrow> string list \<Rightarrow> tree \<Rightarrow> string \<Rightarrow> bool" where
  "can_restore T snapshot snap created wt p \<longleftrightarrow>
     (if p \<in> set created then wt p = None \<or> te_remove T p
      else snapshot \<noteq> [] \<and> te_checkout T p \<and> snap p \<noteq> None)"

definition restored_to :: "tree \<Rightarrow> string list \<Rightarrow> string \<Rightarrow> string option" where
  "restored_to snap created p = (if p \<in> set created then None else snap p)"

lemma rollback_fold:
  assumes "distinct files" "\<And>p. p \<in> set files \<Longrightarrow> wt p = wt0 p"
    "fold (rollback_one T snapshot snap created) files (fin, wt) = (fin', wt')"
  shows "fin' = fin @ filter (can_restore T snapshot snap created wt0) files \<and>
    wt' = (\<lambda>p. if p \<in> set files \<and> can_restore T snapshot snap created wt0 p then restored_to snap created p else wt p)"
  using assms
proof (induction files arbitrary: fin wt)
  case (Cons f files)
  obtain fin1 wt1 where one: "rollback_one T snapshot snap created f (fin, wt) = (fin1, wt1)" by fastforce
  have wt: "wt f = wt0 f" using Cons.prems(2) by simp
  have step: "fin1 = (if can_restore T snapshot snap created wt0 f then fin @ [f] else fin) \<and>
      wt1 = (if can_restore T snapshot snap created wt0 f then wt(f := restored_to snap created f) else wt)"
    using one wt by (auto simp: rollback_one_def can_restore_def restored_to_def split: if_splits)
  have "fold (rollback_one T snapshot snap created) files (fin1, wt1) = (fin', wt')" using Cons.prems(3) one by simp
  moreover have "wt1 p = wt0 p" if "p \<in> set files" for p using that Cons.prems(1,2) step by auto
  ultimately have "fin' = fin1 @ filter (can_restore T snapshot snap created wt0) files \<and>
      wt' = (\<lambda>p. if p \<in> set files \<and> can_restore T snapshot snap created wt0 p then restored_to snap created p else wt1 p)"
    using Cons.IH [of wt1 fin1] Cons.prems(1) by simp
  then show ?case using step Cons.prems(1) by (auto simp: fun_eq_iff)
qed simp

lemma rollback_result:
  assumes "distinct files" "rollback_files T snapshot snap files created wt = (finished, wt')"
  shows "finished = filter (can_restore T snapshot snap created wt) files"
    "wt' p = (if p \<in> set finished then restored_to snap created p else wt p)"
  using rollback_fold [OF assms(1), of wt wt T snapshot snap created "[]" finished wt'] assms(2)
  by (auto simp: rollback_files_def)

section \<open>The contract of the policy\<close>

text \<open>When the policy acts, and on which paths: all that was touched, or only the protected ones.\<close>

definition active_patterns :: "safety_policy \<Rightarrow> string list" where
  "active_patterns P = (if sp_protected_paths P \<noteq> [] then sp_protected_paths P else DEFAULT_PROTECTED_PATHS)"

definition over_limit :: "safety_policy \<Rightarrow> string list \<Rightarrow> bool" where
  "over_limit P touched \<longleftrightarrow> sp_max_files_touched P > 0 \<and> int (length touched) > sp_max_files_touched P"

definition to_revert :: "safety_policy \<Rightarrow> bool \<Rightarrow> string list \<Rightarrow> string list" where
  "to_revert P dry touched =
     (if over_limit P touched \<or> dry then touched
      else filter (\<lambda>p. is_protected p (active_patterns P)) touched)"

lemma policy_result:
  assumes P: "sp_enabled P" "cwd \<noteq> []" "snapshot \<noteq> []"
    and t: "content_touched_files T snapshot before after = (touched, created)" "touched \<noteq> []"
    and r: "apply_safety_policy T cwd (Some P) snapshot snap before after dry_run wt = (out, wt')"
  defines "dry \<equiv> dry_run \<or> sp_dry_run P"
  shows "so_rolled_back out = filter (can_restore T snapshot snap created wt) (to_revert P dry touched)"
    and "wt' p = (if p \<in> set (so_rolled_back out) then restored_to snap created p else wt p)"
    and "so_violations out \<noteq> [] \<longleftrightarrow> over_limit P touched \<or> (\<exists>p \<in> set touched. is_protected p (active_patterns P))"
proof -
  let ?prot = "filter (\<lambda>p. is_protected p (active_patterns P)) touched"
  let ?c = "filter (\<lambda>p. p \<in> set ?prot) created"
  have d: "distinct touched" "distinct ?prot" using content_touched(1) [OF t(1)] by simp_all
  have same: "can_restore T snapshot snap ?c wt q = can_restore T snapshot snap created wt q"
      "restored_to snap ?c q = restored_to snap created q" if "q \<in> set ?prot" for q
    using that by (auto simp: can_restore_def restored_to_def)
  obtain f1 w1 where all: "rollback_files T snapshot snap touched created wt = (f1, w1)" by fastforce
  obtain f2 w2 where some: "rollback_files T snapshot snap ?prot ?c wt = (f2, w2)" by fastforce
  note a = rollback_result [OF d(1) all] and b = rollback_result [OF d(2) some]
  have f2: "f2 = filter (can_restore T snapshot snap created wt) ?prot"
    using b(1) same(1) filter_cong [of ?prot ?prot] by metis
  have w2: "w2 q = (if q \<in> set f2 then restored_to snap created q else wt q)" for q
    using b(2) same(2) f2 by auto
  have acts: "(out, wt') =
      (if over_limit P touched \<or> dry
       then (no_outcome\<lparr>so_dry_run := dry, so_diff_preview := (if dry then capture_diff T snapshot created else []),
               so_violations := (if over_limit P touched then [MaxFilesTouched (length touched) (sp_max_files_touched P)]
                 else if ?prot \<noteq> [] then [ProtectedModified (take 10 ?prot)] else []), so_rolled_back := f1\<rparr>, w1)
       else if ?prot \<noteq> []
       then (no_outcome\<lparr>so_dry_run := dry, so_diff_preview := [],
               so_violations := [ProtectedModified (take 10 ?prot)], so_rolled_back := f2\<rparr>, w2)
       else (no_outcome\<lparr>so_dry_run := dry, so_diff_preview := []\<rparr>, wt))"
    unfolding r [symmetric] apply_safety_policy_def over_limit_def active_patterns_def dry_def Let_def
    using P t(2) all some by (simp add: t(1) active_patterns_def no_outcome_def)
  have res: "so_rolled_back out = filter (can_restore T snapshot snap created wt) (to_revert P dry touched) \<and>
      wt' p = (if p \<in> set (so_rolled_back out) then restored_to snap created p else wt p) \<and>
      (so_violations out \<noteq> [] \<longleftrightarrow> over_limit P touched \<or> ?prot \<noteq> [])"
  proof (cases "over_limit P touched \<or> dry")
    case True
    then show ?thesis using acts a by (auto simp: to_revert_def)
  next
    case False
    then show ?thesis using acts f2 w2 by (cases "?prot = []") (simp_all add: to_revert_def no_outcome_def)
  qed
  then show "so_rolled_back out = filter (can_restore T snapshot snap created wt) (to_revert P dry touched)"
    "wt' p = (if p \<in> set (so_rolled_back out) then restored_to snap created p else wt p)"
    "so_violations out \<noteq> [] \<longleftrightarrow> over_limit P touched \<or> (\<exists>p \<in> set touched. is_protected p (active_patterns P))"
    by (auto simp: filter_empty_conv)
qed

text \<open>
  A dry run leaves the tree as it was before the run, when git sees every change and its operations
  succeed: a path that was not touched has its old content, and for a touched one the snapshot
  holds it (or it did not exist).
\<close>

lemma dry_run_restores:
  assumes P: "sp_enabled P" "cwd \<noteq> []" "snapshot \<noteq> []" "dry_run \<or> sp_dry_run P"
    and t: "content_touched_files T snapshot before after = (touched, created)" "touched \<noteq> []"
    and r: "apply_safety_policy T cwd (Some P) snapshot snap before after dry_run wt = (out, wt')"
    and ok: "\<And>p. p \<in> set touched \<Longrightarrow> can_restore T snapshot snap created wt p"
    and seen: "\<And>p. p \<notin> set touched \<Longrightarrow> wt p = wt0 p" "\<And>p. p \<in> set touched \<Longrightarrow> wt0 p = restored_to snap created p"
  shows "wt' = wt0" "so_rolled_back out = touched"
proof -
  have all: "to_revert P (dry_run \<or> sp_dry_run P) touched = touched" using P(4) by (simp add: to_revert_def)
  show rb: "so_rolled_back out = touched"
    using policy_result(1) [OF P(1-3) t r] ok by (simp add: all)
  show "wt' = wt0" using policy_result(2) [OF P(1-3) t r] rb seen by (auto simp: fun_eq_iff)
qed

text \<open>Without a dry run the protected paths are put back and reported; nothing untouched is written.\<close>

lemma protected_reverted:
  assumes P: "sp_enabled P" "cwd \<noteq> []" "snapshot \<noteq> []"
    and t: "content_touched_files T snapshot before after = (touched, created)"
    and r: "apply_safety_policy T cwd (Some P) snapshot snap before after dry_run wt = (out, wt')"
  shows "p \<in> set touched \<Longrightarrow> is_protected p (active_patterns P) \<Longrightarrow> can_restore T snapshot snap created wt p \<Longrightarrow>
      wt' p = restored_to snap created p \<and> p \<in> set (so_rolled_back out) \<and> so_violations out \<noteq> []"
    and "p \<notin> set touched \<Longrightarrow> wt' p = wt p"
proof -
  have sub: "set (to_revert P dry touched) \<subseteq> set touched" for dry by (auto simp: to_revert_def)
  show "wt' p = wt p" if "p \<notin> set touched"
  proof (cases "touched = []")
    case True
    then show ?thesis using r P t by (simp add: apply_safety_policy_def Let_def)
  next
    case False
    show ?thesis using policy_result(1,2) [OF P t False r] that sub by auto
  qed
  assume p: "p \<in> set touched" "is_protected p (active_patterns P)" "can_restore T snapshot snap created wt p"
  then have ne: "touched \<noteq> []" by auto
  have "p \<in> set (to_revert P (dry_run \<or> sp_dry_run P) touched)" using p by (simp add: to_revert_def)
  then have "p \<in> set (so_rolled_back out)" using policy_result(1) [OF P t ne r] p(3) by simp
  then show "wt' p = restored_to snap created p \<and> p \<in> set (so_rolled_back out) \<and> so_violations out \<noteq> []"
    using policy_result(2,3) [OF P t ne r] p by auto
qed

text \<open>
  The policy sees what git reports: a file that git ignores or that was untracked before and after
  the run is not touched, whatever happened to it and however protected.
\<close>

lemma unreported_change_unseen:
  assumes "dict_get before p = dict_get after p" "te_diff T = Some lines" "p \<notin> strip ` set lines"
    and "sp_enabled P" "cwd \<noteq> []" "snapshot \<noteq> []"
    and "apply_safety_policy T cwd (Some P) snapshot snap before after dry_run wt = (out, wt')"
  shows "wt' p = wt p"
proof -
  obtain touched created where t: "content_touched_files T snapshot before after = (touched, created)" by fastforce
  have "p \<notin> set touched" using content_touched(4) [OF t] assms(1-3) by (auto simp: status_differs_def)
  then show ?thesis using protected_reverted(2) [OF assms(4-6) t assms(7)] by blast
qed

lemma env_protected:
  "is_protected ''.env'' DEFAULT_PROTECTED_PATHS" "is_protected ''app/.env.prod'' DEFAULT_PROTECTED_PATHS"
  "\<not> is_protected ''.env.example'' DEFAULT_PROTECTED_PATHS" "is_protected ''.git/hooks/pre-commit'' DEFAULT_PROTECTED_PATHS"
  "is_protected ''keys/id_rsa.pub'' DEFAULT_PROTECTED_PATHS" "\<not> is_protected ''src/env.py'' DEFAULT_PROTECTED_PATHS"
  by code_simp+

text \<open>A path that is staged as new and changed again (\<^verbatim>\<open>AM\<close>) is not taken for created, so it is not deleted.\<close>

lemma staged_then_edited_not_created:
  "run_touched_files [] [(''n.py'', ''AM'')] = ([''n.py''], [])"
  by code_simp

end
