(* ===== verification/Run_Tracker.thy ===== *)
theory Run_Tracker
  imports Json_Value "HOL-Library.Multiset"
begin

text \<open>
  \<^verbatim>\<open>src/voly/runtime/runs.py\<close>: one JSON record per multi-agent run, written at the start, at every
  heartbeat and at the end, and the watchdog that marks silent runs.  The directory is the list of
  its files by task id; a file holds a record or something unreadable.  Every write may fail
  (\<open>ok\<close> false), which the tracker swallows; \<open>now\<close> is the time at which the operation runs.
\<close>

section \<open>Records\<close>

definition RUN_RUNNING :: string where "RUN_RUNNING = ''running''"
definition RUN_COMPLETED :: string where "RUN_COMPLETED = ''completed''"
definition RUN_FAILED :: string where "RUN_FAILED = ''failed''"
definition RUN_STALE :: string where "RUN_STALE = ''stale''"

type_synonym entry = "(string \<times> json) list"

record run_record =
  rn_task_id :: string
  rn_parent_task_id :: string
  rn_task :: string
  rn_status :: string
  rn_started_at :: rat
  rn_heartbeat_at :: rat
  rn_total_roles :: int
  rn_done_roles :: int
  rn_current_role :: string
  rn_roles :: "string list"
  rn_error :: string
  rn_plan_id :: string
  rn_step_statuses :: "entry list"
  rn_workflow :: string
  rn_lap :: int
  rn_max_laps :: int
  rn_active_role :: string
  rn_stop_reason :: string
  rn_latest_verdict :: string
  rn_cancel_requested :: bool
  rn_timeline :: "entry list"
  rn_workflow_metrics :: entry
  rn_graph_nodes :: "entry list"
  rn_graph_edges :: "entry list"

datatype run_file = RunDoc run_record | BadRunFile

type_synonym runs_dir = "(string \<times> run_file) list"

definition age_seconds :: "rat \<Rightarrow> run_record \<Rightarrow> rat" where
  "age_seconds now r = (if rn_heartbeat_at r \<noteq> 0 then max 0 (now - rn_heartbeat_at r) else 0)"

definition elapsed_seconds :: "rat \<Rightarrow> run_record \<Rightarrow> rat" where
  "elapsed_seconds now r = (if rn_started_at r \<noteq> 0 then max 0 (now - rn_started_at r) else 0)"

section \<open>The tracker\<close>

definition write_run :: "bool \<Rightarrow> run_record \<Rightarrow> runs_dir \<Rightarrow> runs_dir" where
  "write_run ok r d = (if ok then dict_set (rn_task_id r) (RunDoc r) d else d)"

definition load_run :: "runs_dir \<Rightarrow> string \<Rightarrow> run_record option" where
  "load_run d task_id = (case dict_get d task_id of Some (RunDoc r) \<Rightarrow> Some r | _ \<Rightarrow> None)"

definition start_run ::
  "bool \<Rightarrow> rat \<Rightarrow> string \<Rightarrow> string \<Rightarrow> string list \<Rightarrow> string \<Rightarrow> string \<Rightarrow> entry list \<Rightarrow> entry list \<Rightarrow> runs_dir
     \<Rightarrow> run_record \<times> runs_dir" where
  "start_run ok now task_id task roles plan parent nodes edges d =
     (let r = \<lparr>rn_task_id = task_id, rn_parent_task_id = parent, rn_task = take 500 task, rn_status = RUN_RUNNING,
                rn_started_at = now, rn_heartbeat_at = now, rn_total_roles = int (length roles), rn_done_roles = 0,
                rn_current_role = (if roles \<noteq> [] then hd roles else []), rn_roles = roles, rn_error = [],
                rn_plan_id = plan, rn_step_statuses = [], rn_workflow = [], rn_lap = 0, rn_max_laps = 0,
                rn_active_role = [], rn_stop_reason = [], rn_latest_verdict = [], rn_cancel_requested = False,
                rn_timeline = [], rn_workflow_metrics = [], rn_graph_nodes = nodes, rn_graph_edges = edges\<rparr>
      in (r, write_run ok r d))"

text \<open>Every update loads the record, does nothing without one, stamps the heartbeat and writes.\<close>

definition update_run :: "bool \<Rightarrow> rat \<Rightarrow> string \<Rightarrow> (run_record \<Rightarrow> run_record) \<Rightarrow> runs_dir \<Rightarrow> runs_dir" where
  "update_run ok now task_id f d = (case load_run d task_id of
     None \<Rightarrow> d | Some r \<Rightarrow> write_run ok (f (r\<lparr>rn_heartbeat_at := now\<rparr>)) d)"

definition set_if :: "'a option \<Rightarrow> ('a \<Rightarrow> run_record \<Rightarrow> run_record) \<Rightarrow> run_record \<Rightarrow> run_record" where
  "set_if v f r = (case v of None \<Rightarrow> r | Some x \<Rightarrow> f x r)"

text \<open>\<^verbatim>\<open>graph_update\<close>: the nodes by id, the last of equal ids winning; \<^verbatim>\<open>{**old, **item}\<close>.\<close>

definition node_id :: "py_builtins \<Rightarrow> entry \<Rightarrow> string" where
  "node_id B n = py_str B (jor (jget n ''id'') (JStr []))"

definition nodes_by_id :: "py_builtins \<Rightarrow> entry list \<Rightarrow> (string \<times> entry) list" where
  "nodes_by_id B nodes = fold (\<lambda>n d. dict_set (node_id B n) n d) nodes []"

definition merge_entry :: "entry \<Rightarrow> entry \<Rightarrow> entry" where
  "merge_entry old new = fold (\<lambda>(k, v) d. dict_set k v d) new old"

definition upsert_node :: "py_builtins \<Rightarrow> entry \<Rightarrow> entry list \<Rightarrow> entry list" where
  "upsert_node B item nodes =
     (let i = node_id B item
      in if i = [] then nodes
         else let by_id = nodes_by_id B nodes;
                  old = (case dict_get by_id i of Some n \<Rightarrow> n | None \<Rightarrow> []);
                  by_id' = dict_set i (merge_entry old item) by_id;
                  order = map (node_id B) nodes;
                  order' = (if i \<notin> set order then order @ [i] else order)
              in List.map_filter (\<lambda>k. dict_get by_id' k) order')"

definition graph_update ::
  "py_builtins \<Rightarrow> bool \<Rightarrow> rat \<Rightarrow> string \<Rightarrow> entry option \<Rightarrow> entry list option \<Rightarrow> runs_dir \<Rightarrow> runs_dir" where
  "graph_update B ok now task_id node edges = update_run ok now task_id (\<lambda>r.
     set_if edges (\<lambda>es r. r\<lparr>rn_graph_edges := es\<rparr>)
       (set_if node (\<lambda>n r. r\<lparr>rn_graph_nodes := upsert_node B n (rn_graph_nodes r)\<rparr>) r))"

definition heartbeat :: "bool \<Rightarrow> rat \<Rightarrow> string \<Rightarrow> string \<Rightarrow> int \<Rightarrow> entry list option \<Rightarrow> runs_dir \<Rightarrow> runs_dir" where
  "heartbeat ok now task_id role finished statuses = update_run ok now task_id (\<lambda>r.
     set_if statuses (\<lambda>ss r. r\<lparr>rn_step_statuses := ss\<rparr>) (r\<lparr>rn_current_role := role, rn_done_roles := finished\<rparr>))"

record workflow_change =
  wc_workflow :: "string option"
  wc_lap :: "int option"
  wc_max_laps :: "int option"
  wc_active_role :: "string option"
  wc_latest_verdict :: "string option"
  wc_stop_reason :: "string option"
  wc_transition :: "entry option"
  wc_metrics :: "entry option"

definition workflow_update :: "bool \<Rightarrow> rat \<Rightarrow> string \<Rightarrow> workflow_change \<Rightarrow> runs_dir \<Rightarrow> runs_dir" where
  "workflow_update ok now task_id c = update_run ok now task_id (\<lambda>r.
     set_if (wc_metrics c) (\<lambda>m r. r\<lparr>rn_workflow_metrics := m\<rparr>)
     (set_if (wc_transition c) (\<lambda>t r. r\<lparr>rn_timeline := rn_timeline r @ [t]\<rparr>)
     (set_if (wc_stop_reason c) (\<lambda>x r. r\<lparr>rn_stop_reason := x\<rparr>)
     (set_if (wc_latest_verdict c) (\<lambda>x r. r\<lparr>rn_latest_verdict := x\<rparr>)
     (set_if (wc_active_role c) (\<lambda>x r. r\<lparr>rn_active_role := x, rn_current_role := x\<rparr>)
     (set_if (wc_max_laps c) (\<lambda>x r. r\<lparr>rn_max_laps := x\<rparr>)
     (set_if (wc_lap c) (\<lambda>x r. r\<lparr>rn_lap := x\<rparr>)
     (set_if (wc_workflow c) (\<lambda>x r. r\<lparr>rn_workflow := x\<rparr>) r))))))))"

definition request_cancel :: "bool \<Rightarrow> rat \<Rightarrow> string \<Rightarrow> runs_dir \<Rightarrow> bool \<times> runs_dir" where
  "request_cancel ok now task_id d = (case load_run d task_id of
     None \<Rightarrow> (False, d)
   | Some r \<Rightarrow>
       if rn_status r \<noteq> RUN_RUNNING \<or> rn_workflow r = [] then (False, d)
       else (True, write_run ok (r\<lparr>rn_cancel_requested := True, rn_heartbeat_at := now\<rparr>) d))"

definition cancellation_requested :: "runs_dir \<Rightarrow> string \<Rightarrow> bool" where
  "cancellation_requested d task_id = (case load_run d task_id of None \<Rightarrow> False | Some r \<Rightarrow> rn_cancel_requested r)"

definition finish_run_record ::
  "bool \<Rightarrow> rat \<Rightarrow> string \<Rightarrow> string \<Rightarrow> string \<Rightarrow> entry list option \<Rightarrow> runs_dir \<Rightarrow> runs_dir" where
  "finish_run_record ok now task_id status error statuses = update_run ok now task_id (\<lambda>r.
     set_if statuses (\<lambda>ss r. r\<lparr>rn_step_statuses := ss\<rparr>)
       (r\<lparr>rn_status := status, rn_done_roles := (if status = RUN_COMPLETED then rn_total_roles r else rn_done_roles r),
          rn_current_role := [], rn_error := take 500 error\<rparr>))"

definition list_runs :: "runs_dir \<Rightarrow> run_record list" where
  "list_runs d = sort_key (\<lambda>r. - rn_started_at r) (List.map_filter (load_run d) (sorted_set (map fst d)))"

section \<open>The watchdog\<close>

definition stale_after :: "rat \<Rightarrow> rat \<Rightarrow> rat" where
  "stale_after task_timeout stale_factor = task_timeout * stale_factor"

definition is_stale_run :: "rat \<Rightarrow> rat \<Rightarrow> run_record \<Rightarrow> bool" where
  "is_stale_run limit now r \<longleftrightarrow> rn_status r = RUN_RUNNING \<and> age_seconds now r > limit"

definition scan_runs :: "rat \<Rightarrow> rat \<Rightarrow> runs_dir \<Rightarrow> run_record list" where
  "scan_runs limit now d = filter (is_stale_run limit now) (list_runs d)"

definition reap :: "bool \<Rightarrow> rat \<Rightarrow> rat \<Rightarrow> runs_dir \<Rightarrow> run_record list \<times> runs_dir" where
  "reap ok limit now d =
     (let reaped = scan_runs limit now d
      in (reaped, fold (\<lambda>r. finish_run_record ok now (rn_task_id r) RUN_STALE ''watchdog: no heartbeat'' None) reaped d))"

section \<open>The directory as a map from task ids to records\<close>

definition runs_sane :: "runs_dir \<Rightarrow> bool" where
  "runs_sane d \<longleftrightarrow> (\<forall>t r. load_run d t = Some r \<longrightarrow> rn_task_id r = t)"

lemma load_write: "load_run (write_run ok r d) t = (if ok \<and> t = rn_task_id r then Some r else load_run d t)"
  by (simp add: load_run_def write_run_def dict_get_set)

lemma set_if_frame:
  "(\<And>x r. g (f x r) = g r) \<Longrightarrow> g (set_if v f r) = g r"
  by (simp add: set_if_def split: option.split)

lemma load_update:
  assumes "runs_sane d" "\<And>r. rn_task_id (f r) = rn_task_id r"
  shows "load_run (update_run ok now t f d) x =
    (if ok \<and> x = t then map_option (\<lambda>r. f (r\<lparr>rn_heartbeat_at := now\<rparr>)) (load_run d t) else load_run d x)"
proof (cases "load_run d t")
  case (Some r)
  then have "rn_task_id (f (r\<lparr>rn_heartbeat_at := now\<rparr>)) = t" using assms unfolding runs_sane_def by simp
  then show ?thesis using Some by (simp add: update_run_def load_write)
qed (auto simp: update_run_def)

lemma sane_update:
  assumes "runs_sane d" "\<And>r. rn_task_id (f r) = rn_task_id r"
  shows "runs_sane (update_run ok now t f d)"
  using assms(1) load_update [OF assms, of ok now t] assms(2) unfolding runs_sane_def by (auto split: if_splits)

section \<open>What no operation takes back\<close>

text \<open>An operation of the tracker on existing runs; starting a run anew is not one of them.\<close>

inductive run_op :: "runs_dir \<Rightarrow> runs_dir \<Rightarrow> bool" where
  beat: "run_op d (heartbeat ok now t role n ss d)"
| graph: "run_op d (graph_update B ok now t node edges d)"
| workflow: "run_op d (workflow_update ok now t c d)"
| cancel: "run_op d (snd (request_cancel ok now t d))"
| finish: "run_op d (finish_run_record ok now t status err ss d)"
| reap: "run_op d (snd (reap ok limit now d))"

text \<open>The history of a record: what identifies it is fixed, its timeline grows, a cancellation stays.\<close>

definition extends :: "run_record \<Rightarrow> run_record \<Rightarrow> bool" where
  "extends r r' \<longleftrightarrow> rn_task_id r' = rn_task_id r \<and> rn_parent_task_id r' = rn_parent_task_id r \<and> rn_task r' = rn_task r \<and>
     rn_started_at r' = rn_started_at r \<and> rn_roles r' = rn_roles r \<and> rn_total_roles r' = rn_total_roles r \<and>
     rn_plan_id r' = rn_plan_id r \<and> (rn_cancel_requested r \<longrightarrow> rn_cancel_requested r') \<and>
     (\<exists>more. rn_timeline r' = rn_timeline r @ more)"

lemma extends_refl [simp]: "extends r r"
  by (simp add: extends_def)

lemma extends_trans: "extends r s \<Longrightarrow> extends s t \<Longrightarrow> extends r t"
  by (auto simp: extends_def)

definition keeps_history :: "runs_dir \<Rightarrow> runs_dir \<Rightarrow> bool" where
  "keeps_history d d' \<longleftrightarrow> (runs_sane d \<longrightarrow> runs_sane d' \<and>
     (\<forall>t r. load_run d t = Some r \<longrightarrow> (\<exists>r'. load_run d' t = Some r' \<and> extends r r')))"

lemma keeps_trans: "keeps_history d e \<Longrightarrow> keeps_history e f \<Longrightarrow> keeps_history d f"
  unfolding keeps_history_def using extends_trans by blast

lemma keeps_update:
  assumes "\<And>r. extends r (f r)"
  shows "keeps_history d (update_run ok now t f d)"
proof -
  have id: "rn_task_id (f r) = rn_task_id r" for r using assms by (simp add: extends_def)
  have "extends r (f (r\<lparr>rn_heartbeat_at := now\<rparr>))" for r
    by (rule extends_trans [OF _ assms]) (simp add: extends_def)
  then show ?thesis
    unfolding keeps_history_def using sane_update [OF _ id] load_update [OF _ id] by auto
qed

lemma finish_keeps: "keeps_history d (finish_run_record ok now t status err ss d)"
  unfolding finish_run_record_def by (rule keeps_update) (simp add: extends_def set_if_def split: option.split)

lemma keeps_fold: "(\<And>r d. keeps_history d (f r d)) \<Longrightarrow> keeps_history d (fold f rs d)"
proof (induction rs arbitrary: d)
  case (Cons r rs)
  then show ?case using keeps_trans [of d "f r d"] by simp
qed (simp add: keeps_history_def)

lemma run_op_keeps: "run_op d d' \<Longrightarrow> keeps_history d d'"
proof (induction rule: run_op.induct)
  case (cancel d ok now t)
  show ?case
  proof (cases "load_run d t")
    case (Some r)
    then show ?thesis
      by (auto simp: request_cancel_def keeps_history_def runs_sane_def load_write extends_def)
  qed (simp add: request_cancel_def keeps_history_def)
next
  case (reap d ok limit now)
  show ?case unfolding reap_def Let_def snd_conv by (rule keeps_fold) (rule finish_keeps)
qed (simp_all add: heartbeat_def graph_update_def workflow_update_def finish_keeps keeps_update extends_def set_if_def
    split: option.split)

lemma run_ops_keep: "run_op\<^sup>*\<^sup>* d d' \<Longrightarrow> keeps_history d d'"
  by (induction rule: rtranclp_induct) (auto simp: keeps_history_def [of d d] intro: keeps_trans run_op_keeps)

section \<open>The watchdog marks exactly the silent runs\<close>

lemma dict_get_key: "dict_get d t = Some v \<Longrightarrow> t \<in> set (map fst d)"
  by (force simp: dict_get_def dest: map_of_SomeD)

lemma list_runs_iff: "r \<in> set (list_runs d) \<longleftrightarrow> (\<exists>t. load_run d t = Some r)"
proof -
  have "t \<in> fst ` set d" if "load_run d t = Some r" for t
    using that dict_get_key [of d t] by (auto simp: load_run_def split: option.splits run_file.splits)
  then show ?thesis unfolding list_runs_def set_sort List.map_filter_def by (force simp: image_iff)
qed

lemma list_runs_distinct:
  assumes "runs_sane d"
  shows "distinct (map rn_task_id (list_runs d))"
proof -
  have "map rn_task_id (List.map_filter (load_run d) ts) = filter (\<lambda>t. load_run d t \<noteq> None) ts" for ts
    using assms by (induction ts) (auto simp: List.map_filter_simps runs_sane_def split: option.split)
  then have "distinct (map rn_task_id (List.map_filter (load_run d) (sorted_set (map fst d))))" by simp
  moreover have "mset (map rn_task_id (list_runs d))
      = mset (map rn_task_id (List.map_filter (load_run d) (sorted_set (map fst d))))"
    by (simp add: list_runs_def)
  ultimately show ?thesis using mset_eq_imp_distinct_iff by blast
qed

definition reaped_record :: "rat \<Rightarrow> run_record \<Rightarrow> run_record" where
  "reaped_record now r = r\<lparr>rn_status := RUN_STALE, rn_heartbeat_at := now, rn_current_role := [],
     rn_error := ''watchdog: no heartbeat''\<rparr>"

lemma finish_stale:
  assumes "runs_sane d"
  shows "load_run (finish_run_record True now t RUN_STALE ''watchdog: no heartbeat'' None d) x =
    (if x = t then map_option (reaped_record now) (load_run d t) else load_run d x)"
    and "runs_sane (finish_run_record True now t RUN_STALE ''watchdog: no heartbeat'' None d)"
proof -
  let ?f = "\<lambda>r. set_if None (\<lambda>ss r. r\<lparr>rn_step_statuses := ss\<rparr>)
      (r\<lparr>rn_status := RUN_STALE, rn_done_roles := (if RUN_STALE = RUN_COMPLETED then rn_total_roles r else rn_done_roles r),
         rn_current_role := [], rn_error := take 500 ''watchdog: no heartbeat''\<rparr>)"
  have id: "rn_task_id (?f r) = rn_task_id r" for r by (simp add: set_if_def)
  have f: "?f (r\<lparr>rn_heartbeat_at := now\<rparr>) = reaped_record now r" for r
    by (simp add: set_if_def reaped_record_def RUN_STALE_def RUN_COMPLETED_def)
  show "load_run (finish_run_record True now t RUN_STALE ''watchdog: no heartbeat'' None d) x =
      (if x = t then map_option (reaped_record now) (load_run d t) else load_run d x)"
    unfolding finish_run_record_def load_update [OF assms id] f by simp
  show "runs_sane (finish_run_record True now t RUN_STALE ''watchdog: no heartbeat'' None d)"
    unfolding finish_run_record_def by (rule sane_update [OF assms id])
qed

lemma finish_all_stale:
  assumes "runs_sane d" "distinct (map rn_task_id rs)"
  shows "load_run (fold (\<lambda>r. finish_run_record True now (rn_task_id r) RUN_STALE ''watchdog: no heartbeat'' None) rs d) x =
    (if x \<in> rn_task_id ` set rs then map_option (reaped_record now) (load_run d x) else load_run d x)"
  using assms
proof (induction rs arbitrary: d)
  case (Cons r rs)
  then show ?case by (auto simp: finish_stale)
qed simp

lemma reap_result:
  assumes "runs_sane d" "reap True limit now d = (rs, d')"
  shows "set rs = {r. \<exists>t. load_run d t = Some r \<and> is_stale_run limit now r}"
    and "load_run d' t = map_option (\<lambda>r. if is_stale_run limit now r then reaped_record now r else r) (load_run d t)"
proof -
  have rs: "rs = scan_runs limit now d" and d': "d' = fold (\<lambda>r. finish_run_record True now (rn_task_id r) RUN_STALE
      ''watchdog: no heartbeat'' None) rs d"
    using assms(2) by (auto simp: reap_def Let_def)
  show stale: "set rs = {r. \<exists>t. load_run d t = Some r \<and> is_stale_run limit now r}"
    using list_runs_iff by (auto simp: rs scan_runs_def)
  have "distinct (map rn_task_id rs)"
    using list_runs_distinct [OF assms(1)] by (simp add: rs scan_runs_def distinct_map_filter)
  then have "load_run d' t = (if t \<in> rn_task_id ` set rs then map_option (reaped_record now) (load_run d t) else load_run d t)"
    unfolding d' by (rule finish_all_stale [OF assms(1)])
  moreover have "t \<in> rn_task_id ` set rs \<longleftrightarrow> (\<exists>r. load_run d t = Some r \<and> is_stale_run limit now r)"
    using assms(1) unfolding stale runs_sane_def by (force simp: image_iff)
  ultimately show "load_run d' t = map_option (\<lambda>r. if is_stale_run limit now r then reaped_record now r else r) (load_run d t)"
    by (cases "load_run d t") auto
qed

text \<open>A run that was reaped and then finishes after all ends as it says, not as stale.\<close>

lemma late_finish_wins:
  assumes "runs_sane d" "load_run d t = Some r"
  shows "\<exists>r'. load_run (finish_run_record True now t RUN_COMPLETED [] None
      (snd (reap True limit now0 d))) t = Some r' \<and> rn_status r' = RUN_COMPLETED"
proof -
  let ?d = "snd (reap True limit now0 d)"
  obtain r1 where r1: "load_run ?d t = Some r1"
    using reap_result(2) [OF assms(1), of limit now0 "fst (reap True limit now0 d)" ?d t] assms(2) by simp
  have "runs_sane ?d" using run_op_keeps [OF run_op.reap, of d True limit now0] assms(1) by (simp add: keeps_history_def)
  then have "rn_task_id r1 = t" using r1 unfolding runs_sane_def by blast
  then show ?thesis
    by (simp add: finish_run_record_def update_run_def r1 load_write set_if_def)
qed

end
