(* ===== verification/Agent_Run.thy ===== *)
theory Agent_Run
  imports Executor_Results Executor_Safety Capability_Match Run_Tracker Verify_Git "HOL-Library.Sublist"
begin

text \<open>
  One run of an executor: \<^verbatim>\<open>src/voly/runner/executor_factory.py\<close> (names, the billing chain),
  \<^verbatim>\<open>work_report.py\<close> (what changed on disk) and the core of \<^verbatim>\<open>AgentRunner.run\<close> in
  \<^verbatim>\<open>agent_runner.py\<close> (attempts along the chain, the safety policy, the totals, the run record).
  What an executor answers and whether it is available are functions of the number of the event; the
  state of the working tree is observed before the first and after the last attempt.  Planning by
  DSPy, evaluation, evidence and telemetry are not part of it; \<open>ag_eval_cost\<close> is what evaluation cost.
\<close>

section \<open>Names\<close>

definition EXECUTOR_NAMES :: "string list" where
  "EXECUTOR_NAMES = [''cursor'', ''claude-code'', ''mimo'', ''opencode'', ''deepseek'', ''zen'', ''wrangler'', ''cf-containers'']"

definition BILLING_FALLBACK_CHAIN :: "string list" where
  "BILLING_FALLBACK_CHAIN = [''claude-code'', ''cursor'', ''deepseek'', ''wrangler'', ''opencode'', ''zen'']"

definition EXECUTOR_ALIASES :: "(string \<times> string) list" where
  "EXECUTOR_ALIASES = [(''claude'', ''claude-code''), (''codex'', ''claude-code'')]"

definition DEFAULT_AGENT_EXECUTOR :: "(string \<times> string) list" where
  "DEFAULT_AGENT_EXECUTOR =
     [(''cursor'', ''cursor''), (''developer'', ''cursor''), (''architect'', ''cursor''), (''bugfixer'', ''cursor''),
      (''tester'', ''mimo''), (''reviewer'', ''zen''), (''documenter'', ''deepseek''), (''security'', ''zen''),
      (''devops'', ''opencode''), (''product-analyst'', ''zen''), (''claude'', ''claude-code'')]"

text \<open>The configuration's agents and what the agent registry says of an agent (\<open>None\<close> also when it fails).\<close>

record names_cfg =
  nc_agents :: "(string \<times> string) list"
  nc_registry :: "string \<Rightarrow> string option"
  nc_default_agent :: string

definition named_executor :: "(string \<times> string) list \<Rightarrow> string \<Rightarrow> string option" where
  "named_executor agents key = (case map_of agents key of Some e \<Rightarrow> if e \<noteq> [] then Some e else None | None \<Rightarrow> None)"

definition resolve_executor :: "names_cfg \<Rightarrow> string \<Rightarrow> string \<times> string" where
  "resolve_executor N agent =
     (let key0 = strip (lower agent); key = (case map_of EXECUTOR_ALIASES key0 of Some k \<Rightarrow> k | None \<Rightarrow> key0);
          default = nc_default_agent N
      in if key \<in> set EXECUTOR_NAMES then (key, agent)
         else case named_executor (nc_agents N) key of Some e \<Rightarrow> (e, key)
         | None \<Rightarrow> (case nc_registry N key of Some e \<Rightarrow> (e, key)
         | None \<Rightarrow> (case map_of DEFAULT_AGENT_EXECUTOR key of Some e \<Rightarrow> (e, key)
         | None \<Rightarrow> if default \<in> set EXECUTOR_NAMES then (default, key)
                   else case map_of DEFAULT_AGENT_EXECUTOR default of Some e \<Rightarrow> (e, key)
                   | None \<Rightarrow> (case named_executor (nc_agents N) default of Some e \<Rightarrow> (e, key)
                   | None \<Rightarrow> (''cursor'', key)))))"

section \<open>The work report\<close>

type_synonym dir_snapshot = "(string \<times> (int \<times> rat)) list"

datatype path_fate = Changed | Created | Deleted | Untouched

definition listing_fate :: "dir_snapshot \<Rightarrow> dir_snapshot \<Rightarrow> string \<Rightarrow> path_fate" where
  "listing_fate before after p = (case (dict_get before p, dict_get after p) of
     (None, Some _) \<Rightarrow> Created
   | (Some _, None) \<Rightarrow> Deleted
   | (b, a) \<Rightarrow> if a \<noteq> b then Changed else Untouched)"

definition status_fate ::
  "git_status \<Rightarrow> git_status \<Rightarrow> ((string \<times> string) list \<times> (string \<times> string) list) option \<Rightarrow> string \<Rightarrow> path_fate" where
  "status_fate before after prints p = (case (dict_get before p, dict_get after p) of
     (None, Some a) \<Rightarrow> if CHR ''D'' \<in> set a then Deleted
                       else if starts_with a ''?'' \<or> CHR ''A'' \<in> set a then Created else Changed
   | (Some b, None) \<Rightarrow> Deleted
   | (b, a) \<Rightarrow> if a \<noteq> b then Changed
               else (case (prints, a) of
                       (Some (f, f'), Some s) \<Rightarrow>
                         if s \<noteq> [] \<and> untracked_or_added s \<and> dict_get f p \<noteq> dict_get f' p then Changed else Untouched
                     | _ \<Rightarrow> Untouched))"

text \<open>A list item or a numbered item of the output; the bullet is three bytes.\<close>

definition action_line :: "string \<Rightarrow> string option" where
  "action_line line =
     (let s = strip line; bullet = utf8 [0xE2, 0x80, 0xA2] @ '' ''
      in if (starts_with s ''- '' \<or> starts_with s ''* '') \<and> length s > 10 then Some (strip (drop 2 s))
         else if starts_with s bullet \<and> length s > 12 then Some (strip (drop 4 s))
         else if length s > 5 \<and> is_digit (hd s) \<and> s ! 1 \<in> {CHR ''.'', CHR '')'', CHR '':''} then Some (strip (drop 2 s))
         else None)"

definition SUMMARY_KEYWORDS :: "string list" where
  "SUMMARY_KEYWORDS =
     [utf8 [0xD0,0xB8,0xD1,0x82,0xD0,0xBE,0xD0,0xB3,0xD0,0xBE],
      utf8 [0xD0,0xB2,0x20,0xD0,0xB8,0xD1,0x82,0xD0,0xBE,0xD0,0xB3,0xD0,0xB5],
      utf8 [0xD0,0xB2,0xD1,0x8B,0xD0,0xBF,0xD0,0xBE,0xD0,0xBB,0xD0,0xBD,0xD0,0xB5,0xD0,0xBD,0xD0,0xBE],
      utf8 [0xD1,0x81,0xD0,0xB4,0xD0,0xB5,0xD0,0xBB,0xD0,0xB0,0xD0,0xBD,0xD0,0xBE],
      utf8 [0xD0,0xB8,0xD0,0xB7,0xD0,0xBC,0xD0,0xB5,0xD0,0xBD,0xD0,0xB5,0xD0,0xBD,0xD0,0xBE],
      ''summary'', ''in summary'', ''done'', ''completed'', ''changes made'']"

text \<open>\<^verbatim>\<open>output.split("\n\n")\<close>: \<open>piece\<close> is the current paragraph, reversed.\<close>

fun paragraphs_from :: "string \<Rightarrow> string \<Rightarrow> string list" where
  "paragraphs_from piece [] = [rev piece]"
| "paragraphs_from piece [c] = [rev (c # piece)]"
| "paragraphs_from piece (c # d # cs) =
     (if c = CHR 0x0A \<and> d = CHR 0x0A then rev piece # paragraphs_from [] cs else paragraphs_from (c # piece) (d # cs))"

definition extract_summary :: "string \<Rightarrow> string" where
  "extract_summary output =
     (let paragraphs = filter (\<lambda>p. p \<noteq> []) (map strip (paragraphs_from [] output))
      in if output = [] then [] else if paragraphs = [] then take 600 output
         else case find (\<lambda>p. has_any SUMMARY_KEYWORDS (lower_text p)) (rev paragraphs) of
                Some p \<Rightarrow> take 800 p
              | None \<Rightarrow> take 800 (last paragraphs))"

text \<open>What is seen of the working directory: git, fingerprints and a listing (\<open>None\<close> without a directory), and the tree.\<close>

record observed =
  ob_status :: git_status
  ob_prints :: "(string \<times> string) list"
  ob_listing :: "dir_snapshot option"
  ob_tree :: tree

definition path_fates :: "observed \<Rightarrow> observed \<Rightarrow> (string \<times> path_fate) list" where
  "path_fates before after =
     (case (ob_listing before, ob_listing after) of
        (Some b, Some a) \<Rightarrow>
          if ob_status before = [] \<and> ob_status after = []
          then map (\<lambda>p. (p, listing_fate b a p)) (sorted_set (map fst (b @ a)))
          else map (\<lambda>p. (p, status_fate (ob_status before) (ob_status after) (Some (ob_prints before, ob_prints after)) p))
                 (sorted_set (map fst (ob_status before @ ob_status after) @ map fst (ob_prints before @ ob_prints after)))
      | _ \<Rightarrow> map (\<lambda>p. (p, status_fate (ob_status before) (ob_status after) (Some (ob_prints before, ob_prints after)) p))
                 (sorted_set (map fst (ob_status before @ ob_status after) @ map fst (ob_prints before @ ob_prints after))))"

definition with_fate :: "path_fate \<Rightarrow> (string \<times> path_fate) list \<Rightarrow> string list" where
  "with_fate f ps = map fst (filter (\<lambda>x. snd x = f) ps)"

definition build_work_report :: "string \<Rightarrow> observed \<Rightarrow> observed \<Rightarrow> work_report" where
  "build_work_report output before after =
     (let fates = path_fates before after
      in \<lparr>wr_summary = extract_summary output, wr_files_changed = with_fate Changed fates,
          wr_files_created = with_fate Created fates, wr_files_deleted = with_fate Deleted fates,
          wr_actions = take 20 (List.map_filter action_line (splitlines output))\<rparr>)"

section \<open>The chain of attempts\<close>

record agent_env =
  ag_run :: "nat \<Rightarrow> string \<Rightarrow> executor_result"
  ag_available :: "nat \<Rightarrow> string \<Rightarrow> bool"
  ag_elapsed :: "nat \<Rightarrow> rat"
  ag_before :: observed
  ag_after :: "nat \<Rightarrow> observed"
  ag_tree_env :: tree_env
  ag_snapshot :: string
  ag_eval_cost :: rat
  ag_builtins :: py_builtins
  ag_now :: "nat \<Rightarrow> rat"
  ag_disk :: "nat \<Rightarrow> bool"

record chain_row =
  row_executor :: string
  row_model :: json
  row_status :: string
  row_duration_ms :: int
  row_cost_usd :: rat
  row_tokens :: "int \<times> int"
  row_error :: string
  row_error_class :: "string option"
  row_error_message :: "string option"
  row_error_hint :: "string option"

definition chain_status :: "executor_result \<Rightarrow> string" where
  "chain_status r = (if er_success r then ''success'' else if er_billing_error r then ''billing_error''
     else if er_not_available r then ''not_available'' else ''failed'')"

definition chain_timelog_entry :: "py_builtins \<Rightarrow> string \<Rightarrow> executor_result \<Rightarrow> chain_row" where
  "chain_timelog_entry B executor r =
     (let details = executor_failure_details B r executor
      in \<lparr>row_executor = executor, row_model = jget_default (er_metadata r) ''model'' (JStr []), row_status = chain_status r,
          row_duration_ms = round_half_even (er_duration_ms r), row_cost_usd = round_to 6 (er_cost_usd r),
          row_tokens = (er_input_tokens r, er_output_tokens r), row_error = take 200 (er_error r),
          row_error_class = classify_failure B r,
          row_error_message = map_option (\<lambda>d. take 200 (fd_error_message d)) details,
          row_error_hint = Option.bind details fd_error_hint\<rparr>)"

definition skipped_row :: "string \<Rightarrow> chain_row" where
  "skipped_row executor = \<lparr>row_executor = executor, row_model = JStr [], row_status = ''skipped'', row_duration_ms = 0,
     row_cost_usd = 0, row_tokens = (0, 0), row_error = ''service not running'', row_error_class = Some ''not_available'',
     row_error_message = Some ''Executor service unavailable: service not running'',
     row_error_hint = Some (''Start the required service before retrying (e.g. '' @ [CHR 0x60] @ ''wrangler dev'' @ [CHR 0x60] @ '' for wrangler).'')\<rparr>"

text \<open>\<open>cs_attempts\<close> logs the attempts made, newest last; no decision reads it.\<close>

record chain_state =
  cs_executor :: string
  cs_result :: executor_result
  cs_retries :: nat
  cs_retry_cost :: rat
  cs_retry_input :: int
  cs_retry_output :: int
  cs_rows :: "chain_row list"
  cs_tick :: nat
  cs_attempts :: "(string \<times> executor_result) list"

definition needs_fallback :: "executor_result \<Rightarrow> bool" where
  "needs_fallback r \<longleftrightarrow> er_billing_error r \<or> er_not_available r"

definition timed :: "agent_env \<Rightarrow> nat \<Rightarrow> executor_result \<Rightarrow> executor_result" where
  "timed E n r = (if er_duration_ms r \<le> 0 then r\<lparr>er_duration_ms := ag_elapsed E n\<rparr> else r)"

definition first_attempt :: "agent_env \<Rightarrow> string \<Rightarrow> chain_state" where
  "first_attempt E executor =
     (let r = timed E 0 (ag_run E 0 executor)
      in \<lparr>cs_executor = executor, cs_result = r, cs_retries = 0, cs_retry_cost = 0, cs_retry_input = 0, cs_retry_output = 0,
          cs_rows = [chain_timelog_entry (ag_builtins E) executor r], cs_tick = 1, cs_attempts = [(executor, r)]\<rparr>)"

definition next_attempt :: "agent_env \<Rightarrow> string \<Rightarrow> string \<Rightarrow> chain_state \<Rightarrow> chain_state" where
  "next_attempt E first_from executor s =
     (let old = cs_result s;
          r = set_metadata ''billing_fallback_to'' (JStr executor) (set_metadata ''billing_fallback_from'' (JStr first_from)
                (timed E (cs_tick s) (ag_run E (cs_tick s) executor)))
      in s\<lparr>cs_executor := executor, cs_result := r, cs_retries := cs_retries s + 1,
           cs_retry_cost := cs_retry_cost s + er_cost_usd old, cs_retry_input := cs_retry_input s + er_input_tokens old,
           cs_retry_output := cs_retry_output s + er_output_tokens old,
           cs_rows := cs_rows s @ [chain_timelog_entry (ag_builtins E) executor r],
           cs_tick := cs_tick s + 1, cs_attempts := cs_attempts s @ [(executor, r)]\<rparr>)"

fun walk_chain :: "agent_env \<Rightarrow> string \<Rightarrow> string list \<Rightarrow> chain_state \<Rightarrow> chain_state" where
  "walk_chain E first_from [] s = s"
| "walk_chain E first_from (f # fs) s =
     (if \<not> ag_available E (cs_tick s) f
      then walk_chain E first_from fs (s\<lparr>cs_rows := cs_rows s @ [skipped_row f], cs_tick := cs_tick s + 1\<rparr>)
      else let s1 = next_attempt E first_from f s
           in if needs_fallback (cs_result s1) then walk_chain E first_from fs s1 else s1)"

text \<open>The executors after the failed one in the chain.\<close>

definition candidates_after :: "string \<Rightarrow> string list \<Rightarrow> string list" where
  "candidates_after executor chain = tl (dropWhile (\<lambda>x. x \<noteq> executor) chain)"

section \<open>The safety policy on the result\<close>

definition violation_text :: "safety_violation \<Rightarrow> string" where
  "violation_text v = (case v of
     MaxFilesTouched n limit \<Rightarrow> ''max_files_touched exceeded: '' @ str_int (int n) @ '' > '' @ str_int limit
   | ProtectedModified ps \<Rightarrow> ''protected path(s) modified: '' @ join '', '' ps)"

definition safety_note :: "safety_outcome \<Rightarrow> string" where
  "safety_note s = ''safety: '' @ join ''; '' (map violation_text (so_violations s)) @
     (if so_rolled_back s \<noteq> [] then '' (rolled back: '' @ join '', '' (take 10 (so_rolled_back s)) @ '')'' else [])"

definition remaining_files :: "work_report \<Rightarrow> safety_outcome \<Rightarrow> string list" where
  "remaining_files w s =
     sorted_set (filter (\<lambda>p. p \<notin> set (so_rolled_back s)) (wr_files_changed w @ wr_files_created w))"

definition hard_violation :: "work_report \<Rightarrow> safety_outcome \<Rightarrow> bool" where
  "hard_violation w s \<longleftrightarrow>
     list_ex (\<lambda>v. has_sub (violation_text v) ''max_files_touched'') (so_violations s) \<or> remaining_files w s = []"

definition rstrip :: "string \<Rightarrow> string" where
  "rstrip s = rev (dropWhile is_space (rev s))"

definition kept_note :: "work_report \<Rightarrow> safety_outcome \<Rightarrow> string" where
  "kept_note w s = [CHR 0x0A, CHR 0x0A] @ ''[safety] protected paths rolled back ('' @ join '', '' (take 8 (so_rolled_back s)) @ ''); ''
     @ str_int (int (length (remaining_files w s))) @ '' other file(s) kept '' @ dash @ '' run continues.''"

definition jstrings :: "string list \<Rightarrow> json" where "jstrings xs = JList (map JStr xs)"

definition note_dry_run :: "safety_outcome \<Rightarrow> executor_result \<Rightarrow> executor_result" where
  "note_dry_run s r =
     (if so_dry_run s
      then (let r1 = set_metadata ''dry_run'' (JBool True) r
            in if so_diff_preview s \<noteq> [] then set_metadata ''dry_run_diff'' (JStr (so_diff_preview s)) r1 else r1)
      else r)"

definition settle_safety :: "work_report \<Rightarrow> safety_outcome \<Rightarrow> executor_result \<Rightarrow> executor_result" where
  "settle_safety w s r0 =
     (let r = note_dry_run s r0
      in if so_violations s \<noteq> []
         then (let r1 = set_metadata ''safety_violation'' (JStr (join ''; '' (map violation_text (so_violations s)))) r;
                   r2 = (if so_rolled_back s \<noteq> [] then set_metadata ''safety_rolled_back'' (jstrings (so_rolled_back s)) r1 else r1)
               in if hard_violation w s then r2\<lparr>er_success := False, er_error := safety_note s\<rparr>
                  else (set_metadata ''safety_remaining_files'' (jstrings (take 40 (remaining_files w s)))
                          (set_metadata ''safety_soft'' (JBool True) r2))
                       \<lparr>er_output := strip (rstrip (er_output r2) @ kept_note w s)\<rparr>)
         else if so_rolled_back s \<noteq> [] then set_metadata ''safety_rolled_back'' (jstrings (so_rolled_back s)) r
         else r)"

section \<open>The run\<close>

record run_request =
  rr_task :: string
  rr_agent :: string
  rr_cwd :: string
  rr_dry_run :: bool
  rr_task_id :: string
  rr_parent :: string
  rr_dimension :: string

record runner_cfg =
  ru_names :: names_cfg
  ru_cost_policy :: cost_policy
  ru_safety :: "safety_policy option"
  ru_capability :: bool
  ru_registry :: registry
  ru_track :: bool

record runner_result =
  ro_success :: bool
  ro_executor :: string
  ro_agent :: string
  ro_task_id :: string
  ro_result :: executor_result
  ro_total_cost :: rat
  ro_automation :: "rat \<times> int"
  ro_budget_exceeded :: bool
  ro_rows :: "chain_row list"

definition fallback_chain_of :: "agent_env \<Rightarrow> runner_cfg \<Rightarrow> run_request \<Rightarrow> profile_error + string list" where
  "fallback_chain_of E C q =
     map_sum id fst (build_fallback_chain_or_static (ag_builtins E) (ru_registry C) (ru_capability C) (rr_dimension q)
       BILLING_FALLBACK_CHAIN [] True BILLING_FALLBACK_CHAIN)"

definition snapshot_of :: "agent_env \<Rightarrow> runner_cfg \<Rightarrow> run_request \<Rightarrow> string" where
  "snapshot_of E C q = (case ru_safety C of None \<Rightarrow> [] | Some P \<Rightarrow> if rr_cwd q \<noteq> [] \<and> sp_enabled P then ag_snapshot E else [])"

text \<open>After the attempts: the report, the policy, the totals.\<close>

definition conclude_run :: "agent_env \<Rightarrow> runner_cfg \<Rightarrow> run_request \<Rightarrow> string \<Rightarrow> chain_state \<Rightarrow> runner_result \<times> tree" where
  "conclude_run E C q role s =
     (let after = ag_after E (cs_tick s);
          report = build_work_report (er_output (cs_result s)) (ag_before E) after;
          (safety, wt) = apply_safety_policy (ag_tree_env E) (rr_cwd q) (ru_safety C) (snapshot_of E C q)
             (ob_tree (ag_before E)) (ob_status (ag_before E)) (ob_status after) (rr_dry_run q) (ob_tree after);
          r = settle_safety report safety ((cs_result s)\<lparr>er_report := Some report\<rparr>);
          total = round_to 6 (er_cost_usd r + cs_retry_cost s + ag_eval_cost E);
          over = (er_success r \<and> is_budget_exceeded total (ru_cost_policy C))
      in (\<lparr>ro_success = (er_success r \<and> \<not> over), ro_executor = cs_executor s, ro_agent = role, ro_task_id = rr_task_id q,
           ro_result = r, ro_total_cost = total,
           ro_automation = compute_automation_metrics (cs_executor s) r (detect_task_type (rr_task q)) False,
           ro_budget_exceeded = over, ro_rows = (if length (cs_rows s) > 1 then cs_rows s else [])\<rparr>, wt))"

text \<open>\<open>d\<close> is the directory of run records; the chain is only built when it is needed.\<close>

definition agent_run ::
  "agent_env \<Rightarrow> runner_cfg \<Rightarrow> run_request \<Rightarrow> runs_dir \<Rightarrow> (profile_error + runner_result \<times> tree) \<times> runs_dir" where
  "agent_run E C q d =
     (case resolve_executor (ru_names C) (rr_agent q) of
        (executor, role) \<Rightarrow>
          let d1 = (if ru_track C
                    then snd (start_run (ag_disk E 0) (ag_now E 0) (rr_task_id q) (rr_task q) [executor] [] (rr_parent q) [] [] d)
                    else d);
              s0 = first_attempt E executor
          in case (if needs_fallback (cs_result s0) \<and> executor \<in> set BILLING_FALLBACK_CHAIN
                   then map_sum id (\<lambda>chain. walk_chain E executor (candidates_after executor chain) s0) (fallback_chain_of E C q)
                   else Inr s0) of
               Inl e \<Rightarrow> (Inl e, d1)
             | Inr s \<Rightarrow>
                 (case conclude_run E C q role s of
                    (res, wt) \<Rightarrow>
                      (Inr (res, wt),
                       if ru_track C
                       then finish_run_record (ag_disk E (cs_tick s)) (ag_now E (cs_tick s)) (rr_task_id q)
                              (if er_success (ro_result res) then RUN_COMPLETED else RUN_FAILED)
                              (if er_success (ro_result res) then [] else take 500 (er_error (ro_result res))) None d1
                       else d1)))"

section \<open>What an attempt chain spends\<close>

definition spent :: "chain_state \<Rightarrow> rat" where
  "spent s = cs_retry_cost s + er_cost_usd (cs_result s)"

definition chain_ok :: "chain_state \<Rightarrow> bool" where
  "chain_ok s \<longleftrightarrow> cs_attempts s \<noteq> [] \<and> last (cs_attempts s) = (cs_executor s, cs_result s) \<and>
     cs_retries s = length (cs_attempts s) - 1 \<and>
     spent s = sum_list (map (er_cost_usd \<circ> snd) (cs_attempts s)) \<and>
     cs_retry_input s + er_input_tokens (cs_result s) = sum_list (map (er_input_tokens \<circ> snd) (cs_attempts s)) \<and>
     cs_retry_output s + er_output_tokens (cs_result s) = sum_list (map (er_output_tokens \<circ> snd) (cs_attempts s)) \<and>
     (\<forall>a \<in> set (butlast (cs_attempts s)). needs_fallback (snd a))"

lemma first_attempt_ok [simp]: "chain_ok (first_attempt E executor)"
  by (simp add: chain_ok_def first_attempt_def Let_def spent_def)

lemma set_metadata_frame [simp]:
  "er_cost_usd (set_metadata k v r) = er_cost_usd r" "er_input_tokens (set_metadata k v r) = er_input_tokens r"
  "er_output_tokens (set_metadata k v r) = er_output_tokens r" "er_success (set_metadata k v r) = er_success r"
  "er_error (set_metadata k v r) = er_error r" "er_billing_error (set_metadata k v r) = er_billing_error r"
  "er_not_available (set_metadata k v r) = er_not_available r" "er_output (set_metadata k v r) = er_output r"
  by (simp_all add: set_metadata_def)

lemma next_attempt_ok:
  assumes "chain_ok s" "needs_fallback (cs_result s)"
  shows "chain_ok (next_attempt E from f s)"
proof -
  have "cs_attempts s = butlast (cs_attempts s) @ [(cs_executor s, cs_result s)]"
    using assms(1) unfolding chain_ok_def by (metis append_butlast_last_id)
  then have "\<forall>a \<in> set (cs_attempts s). needs_fallback (snd a)"
    using assms unfolding chain_ok_def by (metis Un_iff empty_iff insert_iff list.set(1) list.set(2) set_append snd_conv)
  then show ?thesis using assms(1)
    by (simp add: chain_ok_def next_attempt_def Let_def spent_def)
qed

lemma rows_frame [simp]:
  "chain_ok (s\<lparr>cs_rows := rows, cs_tick := n\<rparr>) = chain_ok s"
  by (simp add: chain_ok_def spent_def)

lemma walk_chain_ok: "chain_ok s \<Longrightarrow> needs_fallback (cs_result s) \<Longrightarrow> chain_ok (walk_chain E from fs s)"
  by (induction fs arbitrary: s) (simp_all add: Let_def next_attempt_ok)

text \<open>Which executors are attempted: a part of the candidates, in their order, each at most as often as it is listed.\<close>

lemma next_attempt_attempts: "map fst (cs_attempts (next_attempt E from f s)) = map fst (cs_attempts s) @ [f]"
  by (simp add: next_attempt_def Let_def)

lemma walk_chain_attempts:
  "\<exists>tried. map fst (cs_attempts (walk_chain E from fs s)) = map fst (cs_attempts s) @ tried \<and> subseq tried fs"
proof (induction fs arbitrary: s)
  case (Cons f fs)
  show ?case
  proof (cases "ag_available E (cs_tick s) f")
    case True
    let ?s = "next_attempt E from f s"
    obtain tried where "map fst (cs_attempts (walk_chain E from fs ?s)) = map fst (cs_attempts ?s) @ tried" "subseq tried fs"
      using Cons.IH by blast
    then show ?thesis using True next_attempt_attempts [of E "from" f s]
      by (intro exI [of _ "if needs_fallback (cs_result ?s) then f # tried else [f]"]) (simp add: Let_def)
  next
    case False
    then show ?thesis using Cons.IH [of "s\<lparr>cs_rows := cs_rows s @ [skipped_row f], cs_tick := cs_tick s + 1\<rparr>"]
      by (auto intro: list_emb.intros)
  qed
qed simp

text \<open>The rows of the log are the first attempt and then every candidate reached, skipped or tried.\<close>

lemma walk_chain_rows:
  "\<exists>reached rest. fs = reached @ rest \<and>
     map row_executor (cs_rows (walk_chain E from fs s)) = map row_executor (cs_rows s) @ reached \<and>
     (rest \<noteq> [] \<longrightarrow> \<not> needs_fallback (cs_result (walk_chain E from fs s)))"
proof (induction fs arbitrary: s)
  case (Cons f fs)
  show ?case
  proof (cases "ag_available E (cs_tick s) f")
    case True
    let ?s = "next_attempt E from f s"
    have rows: "map row_executor (cs_rows ?s) = map row_executor (cs_rows s) @ [f]"
      by (simp add: next_attempt_def Let_def chain_timelog_entry_def)
    show ?thesis
    proof (cases "needs_fallback (cs_result ?s)")
      case needs: True
      obtain reached rest where r: "fs = reached @ rest"
        "map row_executor (cs_rows (walk_chain E from fs ?s)) = map row_executor (cs_rows ?s) @ reached"
        "rest \<noteq> [] \<longrightarrow> \<not> needs_fallback (cs_result (walk_chain E from fs ?s))"
        using Cons.IH by blast
      then show ?thesis using True needs rows
        by (intro exI [of _ "f # reached"] exI [of _ rest]) (simp add: Let_def)
    next
      case ok: False
      then show ?thesis using True rows by (intro exI [of _ "[f]"] exI [of _ fs]) (simp add: Let_def)
    qed
  next
    case False
    let ?s = "s\<lparr>cs_rows := cs_rows s @ [skipped_row f], cs_tick := cs_tick s + 1\<rparr>"
    obtain reached rest where r: "fs = reached @ rest"
      "map row_executor (cs_rows (walk_chain E from fs ?s)) = map row_executor (cs_rows ?s) @ reached"
      "rest \<noteq> [] \<longrightarrow> \<not> needs_fallback (cs_result (walk_chain E from fs ?s))"
      using Cons.IH by blast
    then show ?thesis using False
      by (intro exI [of _ "f # reached"] exI [of _ rest]) (simp add: skipped_row_def)
  qed
qed simp

text \<open>Every attempt is what the executor answered at some event, the events in order.\<close>

definition answers :: "agent_env \<Rightarrow> nat \<Rightarrow> string \<times> executor_result \<Rightarrow> bool" where
  "answers E n a \<longleftrightarrow> er_cost_usd (snd a) = er_cost_usd (ag_run E n (fst a)) \<and>
     needs_fallback (snd a) = needs_fallback (ag_run E n (fst a))"

definition answered_chain :: "agent_env \<Rightarrow> nat list \<Rightarrow> chain_state \<Rightarrow> bool" where
  "answered_chain E ns s \<longleftrightarrow> list_all2 (answers E) ns (cs_attempts s) \<and> sorted_wrt (<) (ns @ [cs_tick s])"

lemma timed_frame [simp]:
  "er_cost_usd (timed E n r) = er_cost_usd r" "needs_fallback (timed E n r) = needs_fallback r"
  by (simp_all add: timed_def needs_fallback_def)

lemma first_attempt_answered: "answered_chain E [0] (first_attempt E executor)"
  by (simp add: answered_chain_def first_attempt_def Let_def answers_def)

lemma next_attempt_answered:
  assumes "answered_chain E ns s"
  shows "answered_chain E (ns @ [cs_tick s]) (next_attempt E from f s)"
proof -
  have "needs_fallback (set_metadata k v r) = needs_fallback r" for k v r by (simp add: needs_fallback_def)
  then show ?thesis using assms
    by (auto simp: answered_chain_def next_attempt_def Let_def answers_def sorted_wrt_append list_all2_appendI less_Suc_eq)
qed

lemma walk_chain_answered: "answered_chain E ns s \<Longrightarrow> \<exists>ns'. answered_chain E ns' (walk_chain E from fs s)"
proof (induction fs arbitrary: s ns)
  case (Cons f fs)
  have "answered_chain E ns (s\<lparr>cs_rows := rows, cs_tick := cs_tick s + 1\<rparr>)" for rows
    using Cons.prems by (auto simp: answered_chain_def sorted_wrt_append less_Suc_eq)
  note skipped = Cons.IH [OF this]
  note tried = next_attempt_answered [OF Cons.prems, of "from" f]
  show ?case
  proof (cases "ag_available E (cs_tick s) f \<and> \<not> needs_fallback (cs_result (next_attempt E from f s))")
    case True
    then show ?thesis using tried by (intro exI [of _ "ns @ [cs_tick s]"]) (simp add: Let_def)
  next
    case False
    then show ?thesis using skipped Cons.IH [OF tried] by (simp add: Let_def)
  qed
qed auto

section \<open>What a run reports\<close>

lemma settle_safety_cost [simp]: "er_cost_usd (settle_safety w s r) = er_cost_usd r"
  by (simp add: settle_safety_def note_dry_run_def Let_def)

lemma scored_chain_distinct:
  assumes "distinct (map fst ps)"
  shows "distinct (map fst (scored_chain dimension features file_tools available ps))"
proof -
  let ?ps = "filter (\<lambda>(i, p). hard_exclude p file_tools False = None) ps"
  have "mset (map fst (scored_chain dimension features file_tools available ps)) = mset (map fst ?ps)"
    by (simp add: scored_chain_def multiset.map_comp comp_def case_prod_beta)
  moreover have "distinct (map fst ?ps)" using assms by (rule distinct_map_filter)
  ultimately show ?thesis using mset_eq_imp_distinct_iff by blast
qed

lemma fallback_chain_distinct:
  assumes "fallback_chain_of E C q = Inr chain"
  shows "distinct chain"
proof -
  let ?B = "ag_builtins E" and ?r = "ru_registry C" and ?b = BILLING_FALLBACK_CHAIN
  have bill: "distinct ?b" "?b \<noteq> []" by (simp_all add: BILLING_FALLBACK_CHAIN_def)
  show ?thesis
  proof (cases "\<not> ru_capability C \<or> \<not> has_materialized_profiles ?r")
    case True
    then show ?thesis using assms bill by (auto simp: fallback_chain_of_def build_fallback_chain_or_static_def)
  next
    case False
    obtain r' x where ld: "load_each (reg_load ?B) (profiles_only ?r) ?b = (r', x)" by fastforce
    have "map_sum id fst (map_sum id (\<lambda>c. (c, True)) (map_sum id (\<lambda>ps. finish_chain ?b
        (scored_chain (rr_dimension q) [] True ?b ps)) x)) = Inr chain"
      using assms False bill(2) ld
      by (simp add: fallback_chain_of_def build_fallback_chain_or_static_def build_fallback_chain_def)
    then obtain ps where x: "x = Inr ps" and chain: "chain = finish_chain ?b (scored_chain (rr_dimension q) [] True ?b ps)"
      by (cases x) auto
    note ps = ld [unfolded x]
    have "map fst ps = ?b" using load_each_members [OF ps] .
    then show ?thesis unfolding chain using bill by (intro finish_chain_distinct scored_chain_distinct) simp_all
  qed
qed

lemma candidates_after_suffix: "executor \<in> set chain \<Longrightarrow> \<exists>before. chain = before @ executor # candidates_after executor chain"
proof -
  assume "executor \<in> set chain"
  then have "dropWhile (\<lambda>x. x \<noteq> executor) chain \<noteq> []" by simp
  then have "dropWhile (\<lambda>x. x \<noteq> executor) chain = executor # candidates_after executor chain"
    using hd_dropWhile [of "\<lambda>x. x \<noteq> executor" chain] unfolding candidates_after_def
    by (cases "dropWhile (\<lambda>x. x \<noteq> executor) chain") auto
  then show ?thesis using takeWhile_dropWhile_id [of "\<lambda>x. x \<noteq> executor" chain] by metis
qed

lemma candidates_after_distinct:
  assumes "distinct chain"
  shows "distinct (candidates_after executor chain)" "executor \<notin> set (candidates_after executor chain)"
proof -
  show "distinct (candidates_after executor chain)"
    unfolding candidates_after_def by (intro distinct_tl distinct_dropWhile assms)
  show "executor \<notin> set (candidates_after executor chain)"
  proof (cases "executor \<in> set chain")
    case True
    then obtain before where "chain = before @ executor # candidates_after executor chain"
      using candidates_after_suffix by blast
    then show ?thesis using assms by (metis distinct.simps(2) distinct_append)
  next
    case False
    have tl: "set (tl xs) \<subseteq> set xs" for xs :: "string list" by (cases xs) auto
    then have "set (candidates_after executor chain) \<subseteq> set chain"
      unfolding candidates_after_def using set_dropWhileD [of _ _ chain] by fastforce
    then show ?thesis using False by blast
  qed
qed

text \<open>An executor that the capability scores put last has nothing to fall back on.\<close>

lemma last_has_no_fallback: "executor \<notin> set others \<Longrightarrow> candidates_after executor (others @ [executor]) = []"
  by (simp add: candidates_after_def dropWhile_append)

lemma subseq_keeps: "subseq xs ys \<Longrightarrow> set xs \<subseteq> set ys \<and> (distinct ys \<longrightarrow> distinct xs)"
  by (induction xs ys rule: list_emb.induct) auto

lemma agent_run_chain:
  assumes "agent_run E C q d = (Inr (res, wt), d')"
  obtains s tried ns where "chain_ok s" "(res, wt) = conclude_run E C q (snd (resolve_executor (ru_names C) (rr_agent q))) s"
    "map fst (cs_attempts s) = fst (resolve_executor (ru_names C) (rr_agent q)) # tried"
    "distinct (map fst (cs_attempts s))" "answered_chain E ns s"
proof -
  obtain executor role where n: "resolve_executor (ru_names C) (rr_agent q) = (executor, role)" by fastforce
  let ?init = "first_attempt E executor"
  have s0: "map fst (cs_attempts ?init) = [executor]" by (simp add: first_attempt_def Let_def)
  show thesis
  proof (cases "needs_fallback (cs_result ?init) \<and> executor \<in> set BILLING_FALLBACK_CHAIN")
    case True
    then obtain chain where c: "fallback_chain_of E C q = Inr chain"
      using assms n by (cases "fallback_chain_of E C q") (auto simp: agent_run_def Let_def)
    let ?s = "walk_chain E executor (candidates_after executor chain) ?init"
    have con: "(res, wt) = conclude_run E C q role ?s"
      using assms n True c by (auto simp: agent_run_def Let_def split: prod.splits)
    obtain tried where t: "map fst (cs_attempts ?s) = executor # tried" "subseq tried (candidates_after executor chain)"
      using walk_chain_attempts [of E executor "candidates_after executor chain" ?init] unfolding s0 by auto
    note cd = candidates_after_distinct [OF fallback_chain_distinct [OF c], of executor]
    have "distinct tried" "executor \<notin> set tried"
      using t(2) cd subseq_keeps [OF t(2)] by auto
    then have "distinct (map fst (cs_attempts ?s))" using t(1) by simp
    moreover have "chain_ok ?s" by (rule walk_chain_ok [OF first_attempt_ok]) (use True in blast)
    moreover obtain ns where "answered_chain E ns ?s" using walk_chain_answered [OF first_attempt_answered] by blast
    ultimately show ?thesis using that [of ?s tried ns] con t(1) n by simp
  next
    case False
    then have con: "(res, wt) = conclude_run E C q role ?init"
      using assms n by (auto simp: agent_run_def Let_def split: prod.splits)
    show ?thesis using that [of ?init "[]" "[0]"] con n s0 first_attempt_answered by simp
  qed
qed

text \<open>
  The bill of a task: the attempts are pairs of an event and an executor; each but the last was
  abandoned, and everything they cost is paid.
\<close>

definition task_bill :: "agent_env \<Rightarrow> (nat \<times> string) list \<Rightarrow> rat" where
  "task_bill E attempts = round_to 6 ((\<Sum>(n, f) \<leftarrow> attempts. er_cost_usd (ag_run E n f)) + ag_eval_cost E)"

lemma answered_costs:
  "list_all2 (answers E) ns as \<Longrightarrow>
     (\<Sum>(n, f) \<leftarrow> zip ns (map fst as). er_cost_usd (ag_run E n f)) = sum_list (map (er_cost_usd \<circ> snd) as)"
  by (induction rule: list_all2_induct) (auto simp: answers_def)

lemma answered_fallback:
  assumes "list_all2 (answers E) ns as" "\<forall>a \<in> set (butlast as). needs_fallback (snd a)"
    "(n, f) \<in> set (butlast (zip ns (map fst as)))"
  shows "needs_fallback (ag_run E n f)"
proof -
  have len: "length ns = length as" using assms(1) by (rule list_all2_lengthD)
  obtain k where k: "k < length as - 1" "n = ns ! k" "f = fst (as ! k)"
    using assms(3) len by (auto simp: in_set_conv_nth nth_butlast)
  have "as ! k \<in> set (butlast as)" using k(1) nth_butlast [of k as] nth_mem [of k "butlast as"] by simp
  then have "needs_fallback (snd (as ! k))" using assms(2) by blast
  moreover have "answers E (ns ! k) (as ! k)" using list_all2_nthD [OF assms(1)] k(1) len by simp
  ultimately show ?thesis using k by (simp add: answers_def)
qed

lemma agent_run_bill:
  assumes "agent_run E C q d = (Inr (res, wt), d')"
  obtains attempts where "attempts \<noteq> []" "snd (hd attempts) = fst (resolve_executor (ru_names C) (rr_agent q))"
    "ro_executor res = snd (last attempts)" "distinct (map snd attempts)" "sorted_wrt (<) (map fst attempts)"
    "\<forall>(n, f) \<in> set (butlast attempts). needs_fallback (ag_run E n f)"
    "ro_total_cost res = task_bill E attempts"
proof -
  obtain s tried ns where s: "chain_ok s" "(res, wt) = conclude_run E C q (snd (resolve_executor (ru_names C) (rr_agent q))) s"
    "map fst (cs_attempts s) = fst (resolve_executor (ru_names C) (rr_agent q)) # tried" "distinct (map fst (cs_attempts s))"
    "answered_chain E ns s"
    by (rule agent_run_chain [OF assms])
  let ?as = "zip ns (map fst (cs_attempts s))"
  have all: "list_all2 (answers E) ns (cs_attempts s)" "sorted_wrt (<) ns"
    using s(5) by (simp_all add: answered_chain_def sorted_wrt_append)
  have len: "length ns = length (cs_attempts s)" using all(1) by (rule list_all2_lengthD)
  have ne: "cs_attempts s \<noteq> []" "ns \<noteq> []" using s(1) len by (auto simp: chain_ok_def)
  have "snd (hd ?as) = fst (resolve_executor (ru_names C) (rr_agent q))" using s(3) ne by (cases ns) auto
  moreover have "ro_executor res = snd (last ?as)"
    using s(1,2) ne len by (simp add: conclude_run_def Let_def chain_ok_def last_zip last_map split: prod.splits)
  moreover have "ro_total_cost res = task_bill E ?as"
    using s(1,2) answered_costs [OF all(1)]
    by (simp add: conclude_run_def Let_def spent_def chain_ok_def task_bill_def add_ac split: prod.splits)
  moreover have "\<forall>(n, f) \<in> set (butlast ?as). needs_fallback (ag_run E n f)"
    using answered_fallback [OF all(1)] s(1) unfolding chain_ok_def by blast
  moreover have "?as \<noteq> []" using ne by simp
  ultimately show thesis using that [of ?as] s(4) all(2) len by simp
qed

lemma agent_run_success:
  assumes "agent_run E C q d = (Inr (res, wt), d')"
  shows "ro_success res \<longleftrightarrow> er_success (ro_result res) \<and> \<not> is_budget_exceeded (ro_total_cost res) (ru_cost_policy C)"
proof -
  obtain s where "(res, wt) = conclude_run E C q (snd (resolve_executor (ru_names C) (rr_agent q))) s"
    by (rule agent_run_chain [OF assms])
  then show ?thesis by (auto simp: conclude_run_def Let_def split: prod.splits)
qed

text \<open>A file limit that is exceeded fails the run.\<close>

lemma limit_fails_run:
  assumes "MaxFilesTouched n limit \<in> set (so_violations s)"
  shows "\<not> er_success (settle_safety w s r)" "er_error (settle_safety w s r) = safety_note s"
proof -
  have "has_sub (violation_text (MaxFilesTouched n limit)) ''max_files_touched''"
    unfolding violation_text_def safety_violation.case has_sub_iff
    by (rule exI [of _ "[]"], rule exI [of _ "'' exceeded: '' @ str_int (int n) @ '' > '' @ str_int limit"]) simp
  then have hard: "hard_violation w s" "so_violations s \<noteq> []"
    using assms by (auto simp: hard_violation_def list_ex_iff)
  show "\<not> er_success (settle_safety w s r)" "er_error (settle_safety w s r) = safety_note s"
    using hard by (simp_all add: settle_safety_def Let_def)
qed

text \<open>Protected files put back and others kept: the executor's own verdict stands.\<close>

lemma soft_violation_keeps_verdict:
  assumes "\<not> hard_violation w s" "so_violations s \<noteq> []"
  shows "er_success (settle_safety w s r) = er_success r" "er_error (settle_safety w s r) = er_error r"
  using assms by (simp_all add: settle_safety_def note_dry_run_def Let_def)

lemma no_violation_keeps_verdict:
  assumes "so_violations s = []"
  shows "er_success (settle_safety w s r) = er_success r" "er_output (settle_safety w s r) = er_output r"
  using assms by (simp_all add: settle_safety_def note_dry_run_def Let_def)

text \<open>The record of a finished run says how it ended.\<close>

lemma start_run_loads:
  assumes "start_run True now t task roles plan parent nodes edges d = (r, d1)" "runs_sane d"
  shows "load_run d1 t = Some r" "runs_sane d1"
proof -
  have r: "rn_task_id r = t" "d1 = write_run True r d" using assms(1) by (auto simp: start_run_def Let_def)
  show "load_run d1 t = Some r" using r by (simp add: load_write)
  show "runs_sane d1" using assms(2) r unfolding runs_sane_def by (simp add: load_write)
qed

lemma run_record_closed:
  assumes "agent_run E C q d = (Inr (res, wt), d')" "ru_track C" "\<And>n. ag_disk E n" "runs_sane d"
  shows "\<exists>r. load_run d' (rr_task_id q) = Some r \<and>
    rn_status r = (if er_success (ro_result res) then RUN_COMPLETED else RUN_FAILED)"
proof -
  obtain executor role where n: "resolve_executor (ru_names C) (rr_agent q) = (executor, role)" by fastforce
  let ?d1 = "snd (start_run True (ag_now E 0) (rr_task_id q) (rr_task q) [executor] [] (rr_parent q) [] [] d)"
  obtain r1 where started: "load_run ?d1 (rr_task_id q) = Some r1" "runs_sane ?d1"
    using start_run_loads [OF _ assms(4)] prod.collapse by metis
  obtain now where fin: "d' = finish_run_record True now (rr_task_id q)
      (if er_success (ro_result res) then RUN_COMPLETED else RUN_FAILED)
      (if er_success (ro_result res) then [] else take 500 (er_error (ro_result res))) None ?d1"
    using assms(1) n assms(2,3) by (fastforce simp: agent_run_def Let_def split: sum.splits prod.splits)
  have "load_run d' (rr_task_id q) = map_option (\<lambda>r. set_if None (\<lambda>ss r. r\<lparr>rn_step_statuses := ss\<rparr>)
      ((r\<lparr>rn_heartbeat_at := now\<rparr>)\<lparr>rn_status := (if er_success (ro_result res) then RUN_COMPLETED else RUN_FAILED),
        rn_done_roles := (if (if er_success (ro_result res) then RUN_COMPLETED else RUN_FAILED) = RUN_COMPLETED
           then rn_total_roles (r\<lparr>rn_heartbeat_at := now\<rparr>) else rn_done_roles (r\<lparr>rn_heartbeat_at := now\<rparr>)),
        rn_current_role := [], rn_error := take 500 (if er_success (ro_result res) then [] else take 500 (er_error (ro_result res)))\<rparr>))
      (load_run ?d1 (rr_task_id q))"
    unfolding fin finish_run_record_def by (subst load_update [OF started(2)]) (simp_all add: set_if_def)
  then show ?thesis by (simp add: started(1) set_if_def)
qed

text \<open>A tracked file that was dirty and is reverted by the run is reported as deleted.\<close>

lemma reverted_reported_deleted:
  "dict_get before p = Some b \<Longrightarrow> dict_get after p = None \<Longrightarrow> status_fate before after prints p = Deleted"
  by (simp add: status_fate_def)

text \<open>
  The observation after \<open>n\<close> events accounts for the change: what git does not report as touched is as
  it was, and what it reports can be put back.
\<close>

definition recoverable :: "agent_env \<Rightarrow> nat \<Rightarrow> bool" where
  "recoverable E n \<longleftrightarrow>
     (case content_touched_files (ag_tree_env E) (ag_snapshot E) (ob_status (ag_before E)) (ob_status (ag_after E n)) of
        (touched, created) \<Rightarrow>
          (\<forall>p. p \<notin> set touched \<longrightarrow> ob_tree (ag_after E n) p = ob_tree (ag_before E) p) \<and>
          (\<forall>p \<in> set touched.
             can_restore (ag_tree_env E) (ag_snapshot E) (ob_tree (ag_before E)) created (ob_tree (ag_after E n)) p \<and>
             ob_tree (ag_before E) p = restored_to (ob_tree (ag_before E)) created p))"

lemma dry_run_leaves_tree:
  assumes run: "agent_run E C q d = (Inr (res, wt), d')"
    and P: "ru_safety C = Some P" "sp_enabled P" "rr_cwd q \<noteq> []" "ag_snapshot E \<noteq> []" "rr_dry_run q \<or> sp_dry_run P"
    and seen: "\<And>n. recoverable E n"
  shows "wt = ob_tree (ag_before E)"
proof -
  obtain s where "(res, wt) = conclude_run E C q (snd (resolve_executor (ru_names C) (rr_agent q))) s"
    by (rule agent_run_chain [OF run])
  then obtain safety where policy: "apply_safety_policy (ag_tree_env E) (rr_cwd q) (Some P) (ag_snapshot E)
      (ob_tree (ag_before E)) (ob_status (ag_before E)) (ob_status (ag_after E (cs_tick s))) (rr_dry_run q)
      (ob_tree (ag_after E (cs_tick s))) = (safety, wt)"
    using P by (auto simp: conclude_run_def snapshot_of_def Let_def split: prod.splits)
  obtain touched created where t: "content_touched_files (ag_tree_env E) (ag_snapshot E) (ob_status (ag_before E))
      (ob_status (ag_after E (cs_tick s))) = (touched, created)" by fastforce
  note rec = seen [of "cs_tick s", unfolded recoverable_def t prod.case]
  show ?thesis
  proof (cases "touched = []")
    case True
    then have "wt = ob_tree (ag_after E (cs_tick s))"
      using policy P(2,3) t by (auto simp: apply_safety_policy_def Let_def)
    then show ?thesis using rec True by auto
  next
    case False
    show ?thesis by (rule dry_run_restores(1) [OF P(2,3,4,5) t False policy]) (use rec in blast)+
  qed
qed

end
