(* ===== verification/Review_Loop.thy ===== *)
theory Review_Loop
  imports Role_Models Executor_Results Run_Tracker
begin

text \<open>
  \<^verbatim>\<open>src/voly/workflow/review_until_clean.py\<close>: a developer implements, a reviewer judges, and the
  developer repairs until the review is clean or a bound is reached.  The developer's run, the
  clocks, \<^verbatim>\<open>json.loads\<close> and the requests of another process to cancel are an environment read at the
  loop's tick; the review goes through the model of the gateway, and the run record is the one of
  the run tracker.
\<close>

section \<open>Verdicts and laps\<close>

datatype review_verdict = CLEAN | BLOCKING

datatype stop_reason = StopClean | MaxRounds | Deadline | ExecutorFailed | ReviewFailed | SpendLimit | Cancelled

definition stop_value :: "stop_reason \<Rightarrow> string" where
  "stop_value r = (case r of StopClean \<Rightarrow> ''clean'' | MaxRounds \<Rightarrow> ''max_rounds'' | Deadline \<Rightarrow> ''deadline''
     | ExecutorFailed \<Rightarrow> ''executor_failed'' | ReviewFailed \<Rightarrow> ''review_failed'' | SpendLimit \<Rightarrow> ''spend_limit''
     | Cancelled \<Rightarrow> ''cancelled'')"

definition verdict_value :: "review_verdict \<Rightarrow> string" where
  "verdict_value v = (case v of CLEAN \<Rightarrow> ''clean'' | BLOCKING \<Rightarrow> ''blocking'')"

record review_lap =
  lp_number :: nat
  lp_task_id :: string
  lp_executor :: string
  lp_output :: string
  lp_files :: "string list"
  lp_reviewer_provider :: string
  lp_reviewer_model :: string
  lp_reviewer_output :: string
  lp_verdict :: "review_verdict option"
  lp_findings :: "string list"
  lp_developer_cost :: rat
  lp_reviewer_cost :: rat
  lp_cost :: rat
  lp_developer_ms :: rat
  lp_reviewer_ms :: rat
  lp_ms :: rat
  lp_error :: string

record review_result =
  rv_success :: bool
  rv_stop :: stop_reason
  rv_laps :: "review_lap list"
  rv_error :: string

definition total_cost_usd :: "review_result \<Rightarrow> rat" where
  "total_cost_usd res = round_to 6 (sum_list (map lp_cost (rv_laps res)))"

definition total_ms :: "review_result \<Rightarrow> rat" where
  "total_ms res = round_to 1 (sum_list (map lp_ms (rv_laps res)))"

section \<open>The verdict of the reviewer\<close>

definition fence :: string where "fence = [CHR 0x60, CHR 0x60, CHR 0x60]"

text \<open>
  A fenced block: three backquotes, an optional \<^verbatim>\<open>json\<close>, the text, three backquotes; what remains is
  stripped.  The text of the smallest match is everything between the outer fences.
\<close>

definition unfence :: "string \<Rightarrow> string" where
  "unfence raw =
     (let body = drop 3 raw; inner = (if starts_with body ''json'' then drop 4 body else body)
      in if starts_with raw fence \<and> ends_with inner fence then strip (take (length inner - 3) inner) else raw)"

datatype verdict_error = InvalidJson | NotAnObject | UnknownVerdict | FindingsNotAList | BlockingWithoutFindings | CleanWithFindings

definition verdict_of :: "string \<Rightarrow> review_verdict option" where
  "verdict_of s = (if s = ''clean'' then Some CLEAN else if s = ''blocking'' then Some BLOCKING else None)"

definition parse_review_verdict ::
  "py_builtins \<Rightarrow> (string \<Rightarrow> json option) \<Rightarrow> string \<Rightarrow> verdict_error + review_verdict \<times> string list" where
  "parse_review_verdict B loads content =
     (case loads (unfence (strip content)) of
        None \<Rightarrow> Inl InvalidJson
      | Some (JObj d) \<Rightarrow>
          (case verdict_of (lower (py_str B (jor (jget d ''verdict'') (JStr [])))) of
             None \<Rightarrow> Inl UnknownVerdict
           | Some v \<Rightarrow> (case jor (jget d ''findings'') (JList []) of
               JList items \<Rightarrow>
                 (let findings = filter (\<lambda>s. s \<noteq> []) (map (\<lambda>i. strip (py_str B i)) items)
                  in if v = BLOCKING \<and> findings = [] then Inl BlockingWithoutFindings
                     else if v = CLEAN \<and> findings \<noteq> [] then Inl CleanWithFindings
                     else Inr (v, findings))
             | _ \<Rightarrow> Inl FindingsNotAList))
      | Some _ \<Rightarrow> Inl NotAnObject)"

definition verdict_message :: "verdict_error \<Rightarrow> string" where
  "verdict_message e = (case e of
     InvalidJson \<Rightarrow> ''reviewer returned invalid JSON''
   | NotAnObject \<Rightarrow> ''reviewer verdict must be a JSON object''
   | UnknownVerdict \<Rightarrow> ''reviewer verdict must be clean or blocking''
   | FindingsNotAList \<Rightarrow> ''reviewer findings must be a list''
   | BlockingWithoutFindings \<Rightarrow> ''blocking verdict requires at least one finding''
   | CleanWithFindings \<Rightarrow> ''clean verdict cannot include blocking findings'')"

section \<open>The environment and the state\<close>

record developer_run =
  dv_success :: bool
  dv_task_id :: string
  dv_executor :: string
  dv_budget_exceeded :: bool
  dv_result :: executor_result

record review_env =
  rl_clock :: "nat \<Rightarrow> rat"
  rl_now :: "nat \<Rightarrow> rat"
  rl_disk :: "nat \<Rightarrow> bool"
  rl_develop :: "nat \<Rightarrow> string \<Rightarrow> int \<Rightarrow> developer_run"
  rl_others :: "nat \<Rightarrow> runs_dir \<Rightarrow> runs_dir"
  rl_gateway :: gw_env
  rl_gateway_cfg :: gw_cfg
  rl_prompt :: "string \<Rightarrow> review_lap \<Rightarrow> request"
  rl_loads :: "string \<Rightarrow> json option"
  rl_builtins :: py_builtins

record review_cfg =
  rf_task :: string
  rf_cwd :: string
  rf_max_rounds :: nat
  rf_deadline :: rat
  rf_executor_timeout :: int
  rf_model :: string
  rf_provider :: string
  rf_tracked :: bool
  rf_workflow_id :: string

record review_state =
  rs_moment :: nat
  rs_runs :: runs_dir
  rs_gw :: gw
  rs_laps :: "review_lap list"

text \<open>Reading the clock; \<open>dir\<close> is the directory of run records after what others did to it.\<close>

definition clock :: "review_env \<Rightarrow> review_state \<Rightarrow> rat \<times> review_state" where
  "clock E s = (rl_clock E (rs_moment s), s\<lparr>rs_moment := rs_moment s + 1\<rparr>)"

definition watched :: "review_cfg \<Rightarrow> bool" where
  "watched F \<longleftrightarrow> rf_tracked F \<and> rf_workflow_id F \<noteq> []"

definition on_runs :: "review_cfg \<Rightarrow> (bool \<Rightarrow> rat \<Rightarrow> runs_dir \<Rightarrow> runs_dir) \<Rightarrow> review_env \<Rightarrow> review_state \<Rightarrow> review_state" where
  "on_runs F f E s =
     (if watched F then s\<lparr>rs_runs := f (rl_disk E (rs_moment s)) (rl_now E (rs_moment s)) (rs_runs s), rs_moment := rs_moment s + 1\<rparr>
      else s)"

definition cancelled :: "review_env \<Rightarrow> review_cfg \<Rightarrow> review_state \<Rightarrow> bool \<times> review_state" where
  "cancelled E F s =
     (if watched F
      then (let d = rl_others E (rs_moment s) (rs_runs s)
            in (cancellation_requested d (rf_workflow_id F), s\<lparr>rs_runs := d, rs_moment := rs_moment s + 1\<rparr>))
      else (False, s))"

definition no_change :: workflow_change where
  "no_change = \<lparr>wc_workflow = None, wc_lap = None, wc_max_laps = None, wc_active_role = None, wc_latest_verdict = None,
     wc_stop_reason = None, wc_transition = None, wc_metrics = None\<rparr>"

definition move :: "review_env \<Rightarrow> review_cfg \<Rightarrow> nat \<Rightarrow> string \<Rightarrow> string \<Rightarrow> string \<Rightarrow> review_state \<Rightarrow> review_state" where
  "move E F lap source target reason s =
     on_runs F (\<lambda>ok now d. graph_update (rl_builtins E) ok now (rf_workflow_id F)
         (Some [(''id'', JStr target), (''role'', JStr target), (''status'', JStr ''running'')]) None
         (workflow_update ok now (rf_workflow_id F) (no_change\<lparr>wc_lap := Some (int lap), wc_active_role := Some target,
            wc_transition := Some [(''lap'', JInt (int lap)), (''from'', JStr source), (''to'', JStr target),
              (''reason'', JStr reason), (''at'', JFloat now)]\<rparr>) d)) E s"

definition jfiles :: "string list \<Rightarrow> json" where "jfiles xs = JList (map JStr xs)"

definition record_developer_node :: "review_env \<Rightarrow> review_cfg \<Rightarrow> review_lap \<Rightarrow> bool \<Rightarrow> review_state \<Rightarrow> review_state" where
  "record_developer_node E F lap success s =
     on_runs F (\<lambda>ok now d. graph_update (rl_builtins E) ok now (rf_workflow_id F)
         (Some [(''id'', JStr ''developer''), (''role'', JStr ''developer''),
            (''status'', JStr (if success then ''completed'' else ''failed'')), (''executor'', JStr (lp_executor lap)),
            (''duration_ms'', JFloat (round_to 1 (lp_developer_ms lap))), (''cost_usd'', JFloat (round_to 6 (lp_developer_cost lap))),
            (''files_touched'', jfiles (lp_files lap)), (''error'', JStr (lp_error lap)), (''lap'', JInt (int (lp_number lap)))]) None d) E s"

definition record_reviewer_node :: "review_env \<Rightarrow> review_cfg \<Rightarrow> review_lap \<Rightarrow> string \<Rightarrow> review_state \<Rightarrow> review_state" where
  "record_reviewer_node E F lap status s =
     on_runs F (\<lambda>ok now d. graph_update (rl_builtins E) ok now (rf_workflow_id F)
         (Some [(''id'', JStr ''reviewer''), (''role'', JStr ''reviewer''), (''status'', JStr status),
            (''provider'', JStr (lp_reviewer_provider lap)), (''model'', JStr (lp_reviewer_model lap)),
            (''duration_ms'', JFloat (round_to 1 (lp_reviewer_ms lap))), (''cost_usd'', JFloat (round_to 6 (lp_reviewer_cost lap))),
            (''error'', JStr (lp_error lap)),
            (''verdict'', JStr (case lp_verdict lap of Some v \<Rightarrow> verdict_value v | None \<Rightarrow> [])),
            (''findings'', jfiles (lp_findings lap)), (''lap'', JInt (int (lp_number lap)))]) None d) E s"

definition loop_metrics :: "review_result \<Rightarrow> bool \<Rightarrow> (string \<times> json) list" where
  "loop_metrics res interrupted =
     [(''laps'', JInt (int (length (rv_laps res)))),
      (''repair_laps'', JInt (int (length (filter (\<lambda>l. lp_verdict l = Some BLOCKING) (rv_laps res))))),
      (''verified_completion'', JBool (rv_stop res = StopClean)),
      (''manual_interventions'', JInt (if interrupted then 1 else 0)),
      (''cost_usd'', JFloat (total_cost_usd res)), (''duration_ms'', JFloat (total_ms res)),
      (''files_touched'', JInt (int (length (dict_fromkeys (concat (map lp_files (rv_laps res))))))),
      (''stop_reason'', JStr (stop_value (rv_stop res)))]"

definition finish_loop :: "review_env \<Rightarrow> review_cfg \<Rightarrow> bool \<Rightarrow> stop_reason \<Rightarrow> string \<Rightarrow> review_state \<Rightarrow> review_result \<times> review_state" where
  "finish_loop E F success reason error s =
     (let res = \<lparr>rv_success = success, rv_stop = reason, rv_laps = rs_laps s, rv_error = error\<rparr>
      in (res, on_runs F (\<lambda>ok now d.
           (let interrupted = cancellation_requested d (rf_workflow_id F)
            in finish_run_record ok now (rf_workflow_id F) (if success then RUN_COMPLETED else RUN_FAILED) error None
                 (workflow_update ok now (rf_workflow_id F)
                   (no_change\<lparr>wc_active_role := Some [], wc_stop_reason := Some (stop_value reason),
                      wc_metrics := Some (loop_metrics res interrupted)\<rparr>) d))) E s))"

section \<open>One lap\<close>

definition developer_task :: "string \<Rightarrow> nat \<Rightarrow> string list \<Rightarrow> string" where
  "developer_task task number findings =
     (if number = 1 then task
      else ''Continue the original task and repair every blocking review finding.'' @ [CHR 0x0A, CHR 0x0A]
        @ ''## Original task'' @ [CHR 0x0A] @ task @ [CHR 0x0A, CHR 0x0A]
        @ ''## Blocking findings from the previous review'' @ [CHR 0x0A]
        @ join [CHR 0x0A] (map (\<lambda>f. ''- '' @ f) findings) @ [CHR 0x0A, CHR 0x0A]
        @ ''Inspect the current working tree, make the fixes, and run focused checks. Do not revert unrelated user changes.'')"

definition lap_from_run :: "nat \<Rightarrow> developer_run \<Rightarrow> review_lap" where
  "lap_from_run number run =
     (let r = dv_result run;
          files = (case er_report r of None \<Rightarrow> []
            | Some w \<Rightarrow> dict_fromkeys (wr_files_changed w @ wr_files_created w @ wr_files_deleted w))
      in \<lparr>lp_number = number, lp_task_id = dv_task_id run, lp_executor = dv_executor run, lp_output = er_output r,
          lp_files = files, lp_reviewer_provider = [], lp_reviewer_model = [], lp_reviewer_output = [],
          lp_verdict = None, lp_findings = [], lp_developer_cost = er_cost_usd r, lp_reviewer_cost = 0,
          lp_cost = er_cost_usd r, lp_developer_ms = er_duration_ms r, lp_reviewer_ms = 0, lp_ms = 0, lp_error = []\<rparr>)"

definition review_cost :: "py_builtins \<Rightarrow> (string \<times> json) list \<Rightarrow> rat" where
  "review_cost B review =
     (case py_float B (jor (jget_default review ''cost_usd'' (jget_default review ''cost'' (JFloat 0))) (JFloat 0)) of
        Inr x \<Rightarrow> x | Inl _ \<Rightarrow> 0)"

definition set_last :: "'a \<Rightarrow> 'a list \<Rightarrow> 'a list" where "set_last x xs = butlast xs @ [x]"

text \<open>The lap with the answer of the reviewer; \<open>elapsed\<close> are the times of the review and of the lap.\<close>

definition reviewed_lap :: "py_builtins \<Rightarrow> string \<Rightarrow> string \<Rightarrow> (string \<times> json) list \<Rightarrow> rat \<times> rat \<Rightarrow> review_lap \<Rightarrow> review_lap" where
  "reviewed_lap B provider model review elapsed lap =
     lap\<lparr>lp_reviewer_provider := py_str B (jor (jget review ''provider'') (JStr provider)),
         lp_reviewer_model := py_str B (jor (jget review ''model'') (JStr model)),
         lp_reviewer_output := py_str B (jor (jget review ''content'') (JStr [])),
         lp_reviewer_cost := review_cost B review, lp_cost := lp_cost lap + review_cost B review,
         lp_reviewer_ms := max 0 (fst elapsed * 1000), lp_ms := max 0 (snd elapsed * 1000)\<rparr>"

text \<open>How a lap ends: the loop is over, or another lap has to repair the findings.\<close>

datatype lap_end = Stop bool stop_reason string | Repair "string list"

definition judge_lap ::
  "review_env \<Rightarrow> review_cfg \<Rightarrow> (string \<times> json) list \<Rightarrow> review_lap \<Rightarrow> review_state \<Rightarrow> lap_end \<times> review_state" where
  "judge_lap E F review lap s =
     (let err = jget review ''error''
      in if truthy err
         then (let lap1 = lap\<lparr>lp_error := py_str (rl_builtins E) err\<rparr>
               in (Stop False (if truthy (jget review ''spend_limited'') then SpendLimit else ReviewFailed) (lp_error lap1),
                   record_reviewer_node E F lap1 ''failed'' (s\<lparr>rs_laps := set_last lap1 (rs_laps s)\<rparr>)))
         else case parse_review_verdict (rl_builtins E) (rl_loads E) (lp_reviewer_output lap) of
           Inl e \<Rightarrow>
             (let lap1 = lap\<lparr>lp_error := verdict_message e\<rparr>
              in (Stop False ReviewFailed (lp_error lap1),
                  record_reviewer_node E F lap1 ''failed'' (s\<lparr>rs_laps := set_last lap1 (rs_laps s)\<rparr>)))
         | Inr (v, findings) \<Rightarrow>
             (let lap1 = lap\<lparr>lp_verdict := Some v, lp_findings := findings\<rparr>;
                  s1 = on_runs F (\<lambda>ok now. workflow_update ok now (rf_workflow_id F)
                         (no_change\<lparr>wc_lap := Some (int (lp_number lap)), wc_latest_verdict := Some (verdict_value v)\<rparr>)) E
                         (s\<lparr>rs_laps := set_last lap1 (rs_laps s)\<rparr>);
                  s2 = record_reviewer_node E F lap1 (if v = CLEAN then ''verified'' else ''blocked'') s1
              in (if v = CLEAN then Stop True StopClean [] else Repair findings, s2)))"

text \<open>An exception of the gateway is not caught.\<close>

definition review_step ::
  "review_env \<Rightarrow> review_cfg \<Rightarrow> string \<times> string \<Rightarrow> rat \<Rightarrow> review_lap \<Rightarrow> review_state \<Rightarrow> (py_exn + lap_end) \<times> review_state" where
  "review_step E F route lap_started lap s =
     (case clock E s of (review_started, s1) \<Rightarrow>
        (case chat (rl_gateway E) (rl_gateway_cfg E)
                ((rl_prompt E (rf_task F) lap)\<lparr>rq_model := fst route, rq_provider := snd route, rq_agent := ''reviewer''\<rparr>) (rs_gw s1) of
           (Inl e, g) \<Rightarrow> (Inl e, s1\<lparr>rs_gw := g\<rparr>)
         | (Inr resp, g) \<Rightarrow>
             (case clock E (s1\<lparr>rs_gw := g\<rparr>) of (t1, s2) \<Rightarrow>
              case clock E s2 of (t2, s3) \<Rightarrow>
                (case judge_lap E F (as_dict resp)
                        (reviewed_lap (rl_builtins E) (snd route) (fst route) (as_dict resp) (t1 - review_started, t2 - lap_started) lap) s3 of
                   (fin, s4) \<Rightarrow> (Inr fin, s4)))))"

definition executor_seconds :: "review_cfg \<Rightarrow> rat \<Rightarrow> int" where
  "executor_seconds F remaining = max 1 (min (rf_executor_timeout F) \<lceil>remaining\<rceil>)"

definition run_lap ::
  "review_env \<Rightarrow> review_cfg \<Rightarrow> string \<times> string \<Rightarrow> rat \<Rightarrow> nat \<Rightarrow> string list \<Rightarrow> review_state \<Rightarrow> (py_exn + lap_end) \<times> review_state" where
  "run_lap E F route started number findings s =
     (case cancelled E F s of (stop, s1) \<Rightarrow>
      if stop then (Inr (Stop False Cancelled []), s1)
      else case clock E s1 of (t, s2) \<Rightarrow>
        (let remaining = rf_deadline F - (t - started)
         in if remaining \<le> 0 then (Inr (Stop False Deadline []), s2)
            else case clock E (move E F number (if number > 1 then ''reviewer'' else ''start'') ''developer''
                       (if number = 1 then ''initial_task'' else ''blocking_findings'') s2) of (lap_started, s3) \<Rightarrow>
              (let run = rl_develop E (rs_moment s3) (developer_task (rf_task F) number findings) (executor_seconds F remaining);
                   lap = lap_from_run number run;
                   s4 = record_developer_node E F lap (dv_success run)
                          (s3\<lparr>rs_moment := rs_moment s3 + 1, rs_laps := rs_laps s3 @ [lap]\<rparr>)
               in if \<not> dv_success run
                  then (case clock E s4 of (t2, s5) \<Rightarrow>
                          let lap1 = lap\<lparr>lp_error := str_or (er_error (dv_result run)) ''developer executor failed'',
                                         lp_ms := max 0 ((t2 - lap_started) * 1000)\<rparr>
                          in (Inr (Stop False (if dv_budget_exceeded run then SpendLimit else ExecutorFailed) (lp_error lap1)),
                              record_developer_node E F lap1 False (s5\<lparr>rs_laps := set_last lap1 (rs_laps s5)\<rparr>)))
                  else case clock E s4 of (t2, s5) \<Rightarrow>
                    if rf_deadline F - (t2 - started) \<le> 0
                    then (case clock E s5 of (t3, s6) \<Rightarrow>
                            (Inr (Stop False Deadline []),
                             s6\<lparr>rs_laps := set_last (lap\<lparr>lp_ms := max 0 ((t3 - lap_started) * 1000)\<rparr>) (rs_laps s6)\<rparr>))
                    else case cancelled E F s5 of (stop2, s6) \<Rightarrow>
                      if stop2 then (Inr (Stop False Cancelled []), s6)
                      else review_step E F route lap_started lap
                             (move E F number ''developer'' ''reviewer'' ''implementation_ready'' s6))))"

section \<open>The loop\<close>

text \<open>\<open>left\<close> is the number of rounds that remain.\<close>

fun review_loop ::
  "review_env \<Rightarrow> review_cfg \<Rightarrow> string \<times> string \<Rightarrow> rat \<Rightarrow> nat \<Rightarrow> nat \<Rightarrow> string list \<Rightarrow> review_state \<Rightarrow> (py_exn + review_result) \<times> review_state" where
  "review_loop E F route started 0 number findings s = map_prod Inr id (finish_loop E F False MaxRounds [] s)"
| "review_loop E F route started (Suc left) number findings s =
     (case run_lap E F route started number findings s of
        (Inl e, s1) \<Rightarrow> (Inl e, s1)
      | (Inr (Stop success reason error), s1) \<Rightarrow> map_prod Inr id (finish_loop E F success reason error s1)
      | (Inr (Repair findings1), s1) \<Rightarrow> review_loop E F route started left (number + 1) findings1 s1)"

definition reviewer_route :: "review_env \<Rightarrow> review_cfg \<Rightarrow> review_state \<Rightarrow> (string \<times> string) \<times> review_state" where
  "reviewer_route E F s =
     (if rf_model F \<noteq> [] \<and> rf_provider F \<noteq> [] then ((rf_model F, rf_provider F), s)
      else case resolve_role_model (ge_health (rl_gateway E) (gw_tick (rs_gw s))) (gw_health (rs_gw s)) ''reviewer'' (Some ''standard'') of
             ((model, provider), h) \<Rightarrow>
               ((str_or (rf_model F) model, str_or (rf_provider F) provider), s\<lparr>rs_gw := (rs_gw s)\<lparr>gw_health := h\<rparr>\<rparr>))"

definition open_record :: "review_env \<Rightarrow> review_cfg \<Rightarrow> review_state \<Rightarrow> review_state" where
  "open_record E F s =
     on_runs F (\<lambda>ok now d.
       (let w = rf_workflow_id F; B = rl_builtins E; node = (\<lambda>role status. [(''id'', JStr role), (''role'', JStr role), (''status'', JStr status)]);
            edge = (\<lambda>a b kind. [(''from'', JStr a), (''to'', JStr b), (''kind'', JStr kind)])
        in graph_update B ok now w (Some (node ''reviewer'' ''pending'')) None
            (graph_update B ok now w (Some (node ''developer'' ''running'')) None
              (graph_update B ok now w None
                (Some [edge ''developer'' ''reviewer'' ''implementation'', edge ''reviewer'' ''developer'' ''blocking_findings''])
                (workflow_update ok now w (no_change\<lparr>wc_workflow := Some ''review-until-clean'',
                    wc_max_laps := Some (int (rf_max_rounds F)), wc_active_role := Some ''developer''\<rparr>)
                  (snd (start_run ok now w (rf_task F) [''developer'', ''reviewer''] [] [] [] [] d))))))) E s"

definition review_until_clean :: "review_env \<Rightarrow> review_cfg \<Rightarrow> review_state \<Rightarrow> (py_exn + review_result) \<times> review_state" where
  "review_until_clean E F s =
     (if strip (rf_task F) = [] \<or> strip (rf_cwd F) = [] \<or> \<not> (1 \<le> rf_max_rounds F \<and> rf_max_rounds F \<le> 20) \<or> rf_deadline F \<le> 0
      then (Inl PyValueError, s)
      else case reviewer_route E F s of (route, s1) \<Rightarrow>
        (case clock E s1 of (started, s2) \<Rightarrow>
           review_loop E F route started (rf_max_rounds F) 1 [] (open_record E F s2)))"

section \<open>The verdict is fail-closed\<close>

lemma parse_fail_closed: "parse_review_verdict B loads content = Inr (v, findings) \<Longrightarrow> v = CLEAN \<longleftrightarrow> findings = []"
  by (cases v) (auto simp: parse_review_verdict_def Let_def split: option.splits json.splits if_splits)

lemma parse_from_object:
  "parse_review_verdict B loads content = Inr (v, findings) \<Longrightarrow>
     \<exists>d. loads (unfence (strip content)) = Some (JObj d) \<and> verdict_value v = lower (py_str B (jor (jget d ''verdict'') (JStr [])))"
  by (auto simp: parse_review_verdict_def Let_def verdict_of_def verdict_value_def split: option.splits json.splits if_splits)

section \<open>What a lap leaves behind\<close>

lemma set_last_snoc [simp]: "set_last x (xs @ [y]) = xs @ [x]"
  by (simp add: set_last_def)

lemma on_runs_frame [simp]: "rs_laps (on_runs F f E s) = rs_laps s" "rs_gw (on_runs F f E s) = rs_gw s"
  by (simp_all add: on_runs_def)

lemma marks_frame [simp]:
  "rs_laps (record_developer_node E F lap ok s) = rs_laps s" "rs_laps (record_reviewer_node E F lap st s) = rs_laps s"
  "rs_laps (move E F n a b r s) = rs_laps s" "rs_laps (open_record E F s) = rs_laps s"
  by (simp_all add: record_developer_node_def record_reviewer_node_def move_def open_record_def)

lemma clock_laps [simp]: "rs_laps (snd (clock E s)) = rs_laps s"
  by (simp add: clock_def)

lemma cancelled_laps [simp]: "rs_laps (snd (cancelled E F s)) = rs_laps s"
  by (simp add: cancelled_def Let_def)

lemma clock_eq: "clock E s = (t, s1) \<Longrightarrow> rs_laps s1 = rs_laps s"
  by (auto simp: clock_def)

lemma cancelled_eq: "cancelled E F s = (b, s1) \<Longrightarrow> rs_laps s1 = rs_laps s"
  using cancelled_laps [of E F s] by simp

lemmas tick_eqs = clock_eq cancelled_eq

text \<open>A lap's cost is what its two parts cost, and only a reviewed lap has a verdict.\<close>

definition lap_sane :: "review_lap \<Rightarrow> bool" where
  "lap_sane l \<longleftrightarrow> lp_cost l = lp_developer_cost l + lp_reviewer_cost l \<and>
     (lp_verdict l = Some CLEAN \<longrightarrow> lp_findings l = []) \<and> (lp_verdict l = Some BLOCKING \<longrightarrow> lp_findings l \<noteq> []) \<and>
     (lp_verdict l = None \<longrightarrow> lp_findings l = [])"

text \<open>The laps \<open>ls'\<close> after lap \<open>n\<close> on \<open>ls\<close>, by the way the lap ends.\<close>

definition lap_outcome :: "nat \<Rightarrow> review_lap list \<Rightarrow> lap_end \<Rightarrow> review_lap list \<Rightarrow> bool" where
  "lap_outcome n ls fin ls' \<longleftrightarrow> (case fin of
     Repair fs \<Rightarrow> (\<exists>l. ls' = ls @ [l] \<and> lp_number l = n \<and> lap_sane l \<and> lp_verdict l = Some BLOCKING \<and> lp_findings l = fs)
   | Stop ok r err \<Rightarrow> (ok \<longleftrightarrow> r = StopClean) \<and> r \<noteq> MaxRounds \<and>
       (ls' = ls \<and> \<not> ok \<or> (\<exists>l. ls' = ls @ [l] \<and> lp_number l = n \<and> lap_sane l \<and> lp_verdict l = (if ok then Some CLEAN else None))))"

lemma judge_outcome:
  assumes "rs_laps s = ls @ [old]" "lp_number lap = n" "lap_sane lap" "lp_verdict lap = None"
    "judge_lap E F review lap s = (fin, s1)"
  shows "lap_outcome n ls fin (rs_laps s1)"
proof (cases "truthy (jget review ''error'')")
  case True
  then show ?thesis using assms by (auto simp: judge_lap_def Let_def lap_outcome_def lap_sane_def)
next
  case open_review: False
  show ?thesis
  proof (cases "parse_review_verdict (rl_builtins E) (rl_loads E) (lp_reviewer_output lap)")
    case (Inl e)
    then show ?thesis using assms open_review by (auto simp: judge_lap_def Let_def lap_outcome_def lap_sane_def)
  next
    case (Inr vf)
    obtain v fs where vf: "vf = (v, fs)" by (cases vf)
    then show ?thesis using assms open_review Inr parse_fail_closed [of "rl_builtins E" "rl_loads E" "lp_reviewer_output lap" v fs]
      by (cases v) (auto simp: judge_lap_def Let_def lap_outcome_def lap_sane_def)
  qed
qed

lemma reviewed_sane: "lap_sane lap \<Longrightarrow> lp_reviewer_cost lap = 0 \<Longrightarrow> lap_sane (reviewed_lap B p m review el lap)"
  by (simp add: lap_sane_def reviewed_lap_def)

lemma reviewed_frame [simp]: "lp_number (reviewed_lap B p m review el lap) = lp_number lap"
  "lp_verdict (reviewed_lap B p m review el lap) = lp_verdict lap"
  by (simp_all add: reviewed_lap_def)

lemma review_step_outcome:
  assumes "rs_laps s = ls @ [old]" "lp_number lap = n" "lap_sane lap" "lp_verdict lap = None" "lp_reviewer_cost lap = 0"
    "review_step E F route t0 lap s = (Inr fin, s1)"
  shows "lap_outcome n ls fin (rs_laps s1)"
  using assms(6) unfolding review_step_def
  by (auto split: prod.splits sum.splits dest!: tick_eqs
      elim!: judge_outcome [where old = old, rotated -1] simp: assms(1-5) reviewed_sane)

lemma lap_from_run_frame [simp]: "lp_number (lap_from_run n run) = n" "lap_sane (lap_from_run n run)"
  "lp_verdict (lap_from_run n run) = None" "lp_reviewer_cost (lap_from_run n run) = 0"
  by (simp_all add: lap_from_run_def lap_sane_def Let_def)

lemma stop_without_lap: "r \<noteq> StopClean \<Longrightarrow> r \<noteq> MaxRounds \<Longrightarrow> lap_outcome n ls (Stop False r err) ls"
  by (simp add: lap_outcome_def)

lemma stop_with_lap:
  "r \<noteq> StopClean \<Longrightarrow> r \<noteq> MaxRounds \<Longrightarrow> lap_sane l \<Longrightarrow> lp_number l = n \<Longrightarrow> lp_verdict l = None
     \<Longrightarrow> lap_outcome n ls (Stop False r err) (ls @ [l])"
  by (auto simp: lap_outcome_def)

lemma timed_sane:
  "lap_sane l \<Longrightarrow> lap_sane (l\<lparr>lp_ms := x\<rparr>)" "lap_sane l \<Longrightarrow> lap_sane (l\<lparr>lp_error := err, lp_ms := x\<rparr>)"
  by (simp_all add: lap_sane_def)

lemma run_lap_outcome:
  assumes "run_lap E F route t0 n fs s = (Inr fin, s1)"
  shows "lap_outcome n (rs_laps s) fin (rs_laps s1)"
proof -
  obtain stop sa where a: "cancelled E F s = (stop, sa)" by fastforce
  obtain t sb where b: "clock E sa = (t, sb)" by fastforce
  define sm where "sm = move E F n (if n > 1 then ''reviewer'' else ''start'') ''developer''
      (if n = 1 then ''initial_task'' else ''blocking_findings'') sb"
  obtain t1 sc where c: "clock E sm = (t1, sc)" by fastforce
  define run where "run = rl_develop E (rs_moment sc) (developer_task (rf_task F) n fs) (executor_seconds F (rf_deadline F - (t - t0)))"
  define lap where "lap = lap_from_run n run"
  define sd where "sd = record_developer_node E F lap (dv_success run) (sc\<lparr>rs_moment := rs_moment sc + 1, rs_laps := rs_laps sc @ [lap]\<rparr>)"
  obtain t2 se where e: "clock E sd = (t2, se)" by fastforce
  obtain t3 sf where f: "clock E se = (t3, sf)" by fastforce
  obtain stop2 sg where g: "cancelled E F se = (stop2, sg)" by fastforce
  note laps = a [THEN cancelled_eq] b [THEN clock_eq] c [THEN clock_eq] e [THEN clock_eq] f [THEN clock_eq] g [THEN cancelled_eq]
  have ls: "rs_laps sc = rs_laps s" "rs_laps sd = rs_laps s @ [lap]" using laps by (simp_all add: sm_def sd_def)
  have sane: "lap_sane lap" "lp_number lap = n" "lp_verdict lap = None" "lp_reviewer_cost lap = 0" by (simp_all add: lap_def)
  have eq: "run_lap E F route t0 n fs s =
    (if stop then (Inr (Stop False Cancelled []), sa)
     else if rf_deadline F - (t - t0) \<le> 0 then (Inr (Stop False Deadline []), sb)
     else if \<not> dv_success run
     then (let lap1 = lap\<lparr>lp_error := str_or (er_error (dv_result run)) ''developer executor failed'', lp_ms := max 0 ((t2 - t1) * 1000)\<rparr>
           in (Inr (Stop False (if dv_budget_exceeded run then SpendLimit else ExecutorFailed) (lp_error lap1)),
               record_developer_node E F lap1 False (se\<lparr>rs_laps := set_last lap1 (rs_laps se)\<rparr>)))
     else if rf_deadline F - (t2 - t0) \<le> 0
     then (Inr (Stop False Deadline []), sf\<lparr>rs_laps := set_last (lap\<lparr>lp_ms := max 0 ((t3 - t1) * 1000)\<rparr>) (rs_laps sf)\<rparr>)
     else if stop2 then (Inr (Stop False Cancelled []), sg)
     else review_step E F route t1 lap (move E F n ''developer'' ''reviewer'' ''implementation_ready'' sg))"
    unfolding run_lap_def
    by (simp only: a b prod.case sm_def [symmetric] c Let_def run_def [symmetric] lap_def [symmetric] sd_def [symmetric] e f g)
  show ?thesis
  proof (cases "\<not> stop \<and> \<not> rf_deadline F - (t - t0) \<le> 0 \<and> dv_success run \<and> \<not> rf_deadline F - (t2 - t0) \<le> 0 \<and> \<not> stop2")
    case True
    then have "review_step E F route t1 lap (move E F n ''developer'' ''reviewer'' ''implementation_ready'' sg) = (Inr fin, s1)"
      using assms unfolding eq by simp
    then show ?thesis by (rule review_step_outcome [where old = lap, rotated -1]) (simp_all add: ls laps sane)
  next
    case False
    then show ?thesis using assms laps ls unfolding eq
      by (auto simp: sane Let_def intro!: stop_without_lap stop_with_lap timed_sane split: if_splits)
  qed
qed

section \<open>The loop\<close>

lemma finish_loop_result:
  "fst (finish_loop E F ok r err s) = \<lparr>rv_success = ok, rv_stop = r, rv_laps = rs_laps s, rv_error = err\<rparr>"
  by (simp add: finish_loop_def Let_def)

text \<open>The laps before the last one all ended with findings to repair, and are numbered from one.\<close>

definition laps_repaired :: "review_lap list \<Rightarrow> bool" where
  "laps_repaired ls \<longleftrightarrow> map lp_number ls = [1..<Suc (length ls)] \<and> (\<forall>l\<in>set ls. lap_sane l \<and> lp_verdict l = Some BLOCKING)"

definition loop_result_ok :: "nat \<Rightarrow> review_result \<Rightarrow> bool" where
  "loop_result_ok bound res \<longleftrightarrow>
     (rv_success res \<longleftrightarrow> rv_stop res = StopClean) \<and> length (rv_laps res) \<le> bound \<and>
     map lp_number (rv_laps res) = [1..<Suc (length (rv_laps res))] \<and> (\<forall>l\<in>set (rv_laps res). lap_sane l) \<and>
     (\<forall>l\<in>set (butlast (rv_laps res)). lp_verdict l = Some BLOCKING) \<and>
     (rv_success res \<longrightarrow> rv_laps res \<noteq> [] \<and> lp_verdict (last (rv_laps res)) = Some CLEAN) \<and>
     (\<not> rv_success res \<longrightarrow> (\<forall>l\<in>set (rv_laps res). lp_verdict l \<noteq> Some CLEAN)) \<and>
     (rv_stop res = MaxRounds \<longrightarrow> length (rv_laps res) = bound \<and> laps_repaired (rv_laps res))"

lemma repaired_snoc:
  "laps_repaired ls \<Longrightarrow> lap_sane l \<Longrightarrow> lp_number l = Suc (length ls) \<Longrightarrow> lp_verdict l = Some BLOCKING
     \<Longrightarrow> laps_repaired (ls @ [l])"
  by (auto simp: laps_repaired_def)

lemma stopped_ok:
  assumes "laps_repaired ls" "lap_outcome (Suc (length ls)) ls (Stop ok r err) ls'" "length ls < bound"
  shows "loop_result_ok bound \<lparr>rv_success = ok, rv_stop = r, rv_laps = ls', rv_error = e\<rparr>"
proof -
  have bl: "\<forall>l\<in>set (butlast ls). lp_verdict l = Some BLOCKING" using assms(1) in_set_butlastD by (fastforce simp: laps_repaired_def)
  have r: "ok \<longleftrightarrow> r = StopClean" "r \<noteq> MaxRounds" using assms(2) by (auto simp: lap_outcome_def)
  consider "ls' = ls" "\<not> ok" | l where "ls' = ls @ [l]" "lp_number l = Suc (length ls)" "lap_sane l"
      "lp_verdict l = (if ok then Some CLEAN else None)"
    using assms(2) by (auto simp: lap_outcome_def)
  then show ?thesis
  proof cases
    case 1
    then show ?thesis using assms bl r by (auto simp: loop_result_ok_def laps_repaired_def)
  next
    case 2
    then show ?thesis using assms r by (auto simp: loop_result_ok_def laps_repaired_def)
  qed
qed

lemma review_loop_ok:
  assumes "laps_repaired (rs_laps s)" "n = Suc (length (rs_laps s))"
    "review_loop E F route t0 left n fs s = (Inr res, s1)"
  shows "loop_result_ok (length (rs_laps s) + left) res"
  using assms
proof (induction left arbitrary: n fs s)
  case 0
  then have "res = \<lparr>rv_success = False, rv_stop = MaxRounds, rv_laps = rs_laps s, rv_error = []\<rparr>"
    using finish_loop_result [of E F False MaxRounds "[]" s] by (cases "finish_loop E F False MaxRounds [] s") simp
  moreover have "\<forall>l\<in>set (butlast (rs_laps s)). lp_verdict l = Some BLOCKING"
    using 0(1) in_set_butlastD by (fastforce simp: laps_repaired_def)
  ultimately show ?case using 0(1) by (auto simp: loop_result_ok_def laps_repaired_def)
next
  case (Suc left)
  obtain fin sl where lap: "run_lap E F route t0 n fs s = (Inr fin, sl)"
    using Suc.prems(3) by (auto split: prod.splits sum.splits)
  note out = run_lap_outcome [OF lap, unfolded Suc.prems(2)]
  show ?case
  proof (cases fin)
    case (Stop ok r err)
    then have "res = \<lparr>rv_success = ok, rv_stop = r, rv_laps = rs_laps sl, rv_error = err\<rparr>"
      using Suc.prems(3) lap finish_loop_result [of E F ok r err sl] by (cases "finish_loop E F ok r err sl") simp
    then show ?thesis using stopped_ok [OF Suc.prems(1)] out Stop by simp
  next
    case (Repair fs1)
    obtain l where l: "rs_laps sl = rs_laps s @ [l]" "lap_sane l" "lp_number l = Suc (length (rs_laps s))" "lp_verdict l = Some BLOCKING"
      using out Repair by (auto simp: lap_outcome_def)
    have "review_loop E F route t0 left (n + 1) fs1 sl = (Inr res, s1)" using Suc.prems(3) lap Repair by simp
    then show ?thesis using Suc.IH [of sl "n + 1" fs1] repaired_snoc [OF Suc.prems(1) l(2-4)] l(1) Suc.prems(2) by simp
  qed
qed

lemma reviewer_route_laps: "reviewer_route E F s = (route, s1) \<Longrightarrow> rs_laps s1 = rs_laps s"
  by (auto simp: reviewer_route_def split: if_splits prod.splits)

lemma review_until_clean_ok:
  assumes "rs_laps s = []" "review_until_clean E F s = (Inr res, s1)"
  shows "loop_result_ok (rf_max_rounds F) res" and "1 \<le> rf_max_rounds F" and "rf_max_rounds F \<le> 20"
proof -
  have ok: "\<not> (strip (rf_task F) = [] \<or> strip (rf_cwd F) = [] \<or> \<not> (1 \<le> rf_max_rounds F \<and> rf_max_rounds F \<le> 20) \<or> rf_deadline F \<le> 0)"
    using assms(2) by (auto simp: review_until_clean_def split: if_splits)
  obtain route sa where a: "reviewer_route E F s = (route, sa)" by fastforce
  obtain t0 sb where b: "clock E sa = (t0, sb)" by fastforce
  have "rs_laps (open_record E F sb) = []" using assms(1) reviewer_route_laps [OF a] clock_eq [OF b] by simp
  moreover have "review_loop E F route t0 (rf_max_rounds F) 1 [] (open_record E F sb) = (Inr res, s1)"
    using assms(2) ok by (simp add: review_until_clean_def a b)
  ultimately show "loop_result_ok (rf_max_rounds F) res"
    using review_loop_ok [of "open_record E F sb"] by (simp add: laps_repaired_def)
  show "1 \<le> rf_max_rounds F" "rf_max_rounds F \<le> 20" using ok by auto
qed

lemma review_bad_arguments:
  "strip (rf_task F) = [] \<or> strip (rf_cwd F) = [] \<or> rf_max_rounds F = 0 \<or> rf_max_rounds F > 20 \<or> rf_deadline F \<le> 0
     \<Longrightarrow> review_until_clean E F s = (Inl PyValueError, s)"
  by (auto simp: review_until_clean_def)

section \<open>The run record at the end\<close>

text \<open>Whatever the directory was, after the loop's last write the record is closed with the result.\<close>

lemma load_written:
  assumes "load_run d t = Some r" "rn_task_id (f (r\<lparr>rn_heartbeat_at := now\<rparr>)) = t"
  shows "load_run (update_run True now t f d) t = Some (f (r\<lparr>rn_heartbeat_at := now\<rparr>))"
  using assms by (simp add: update_run_def load_write)

lemma finish_loop_record:
  assumes "watched F" "runs_sane (rs_runs s)" "load_run (rs_runs s) (rf_workflow_id F) = Some r" "rl_disk E (rs_moment s)"
    "finish_loop E F ok reason err s = (res, s1)"
  shows "\<exists>r'. load_run (rs_runs s1) (rf_workflow_id F) = Some r' \<and>
     rn_status r' = (if ok then RUN_COMPLETED else RUN_FAILED) \<and> rn_stop_reason r' = stop_value reason \<and>
     rn_active_role r' = [] \<and> rn_error r' = take 500 err \<and>
     rn_workflow_metrics r' = loop_metrics res (rn_cancel_requested r) \<and> rn_timeline r' = rn_timeline r"
proof -
  have id: "rn_task_id r = rf_workflow_id F" using assms(2,3) by (simp add: runs_sane_def)
  have c: "cancellation_requested (rs_runs s) (rf_workflow_id F) = rn_cancel_requested r"
    by (simp add: cancellation_requested_def assms(3))
  show ?thesis using assms(5)
    by (auto simp: finish_loop_def on_runs_def assms(1,3,4) Let_def c workflow_update_def no_change_def set_if_def
        finish_run_record_def update_run_def load_write id RUN_COMPLETED_def RUN_FAILED_def)
qed

end
