(* ===== verification/Demo_World.thy ===== *)
theory Demo_World
  imports Runner_Results Lead_Plan Business_Decisions Agent_Run Review_Loop
begin

text \<open>
  One concrete world in which the properties of the root theory are applied: a directory
  \<^verbatim>\<open>/r\<close> with one file, commands that succeed, models that answer \<^verbatim>\<open>ok\<close>, a plan of two steps, a
  gateway with a cache and a budget.
\<close>

definition demo_world :: verify_env where
  "demo_world = \<lparr>ve_resolve = (\<lambda>p. p), ve_exists = (\<lambda>p. p = ''/r/a.py''), ve_is_file = (\<lambda>p. p = ''/r/a.py''),
     ve_is_dir = (\<lambda>p. p = ''/r''), ve_read = (\<lambda>p. if p = ''/r/a.py'' then Inr ''x'' else Inl ''missing''),
     ve_git_status = (\<lambda>_. Some []), ve_run = (\<lambda>_ _ _. Exited 0 [] []), ve_regex = (\<lambda>_ _. Inl ''bad''),
     ve_repr = (\<lambda>_. []), ve_shlex_error = (\<lambda>_. ''No closing quotation'')\<rparr>"

definition demo_ctx :: verify_ctx where
  "demo_ctx = empty_ctx\<lparr>vc_cwd := ''/r'', vc_output := ''ok'', vc_files_touched := [''a.py'']\<rparr>"

definition demo_env :: run_env where
  "demo_env = \<lparr>re_chat = (\<lambda>_ _ _ _. Reply True ''ok'' [] [] None), re_exec = (\<lambda>_ _ _ _. Reply True ''ok'' [] [] None),
     re_now = (\<lambda>_. 1), re_mono = (\<lambda>_. 0), re_disk = (\<lambda>_. DiskOk), re_others = (\<lambda>_ d. d),
     re_world = (\<lambda>_. demo_world), re_schedule = (\<lambda>_ ids. rev ids), re_task_id = ''t'', re_str = (\<lambda>_. ''error''),
     re_builtins = py_typed\<rparr>"

definition demo_cfg :: run_cfg where
  "demo_cfg = \<lparr>rc_mode = ''enforce'', rc_max_retries = 1, rc_on_fail = ''stop'', rc_command_timeout = 60,
     rc_sdk_enabled = False, rc_max_parallel = 1, rc_stale_seconds = 0, rc_default_cwd = ''/r''\<rparr>"

definition step_a :: plan_step where
  "step_a = (new_step ''a'')\<lparr>acceptance := [new_check ''output_nonempty'']\<rparr>"

definition step_b :: plan_step where
  "step_b = (new_step ''b'')\<lparr>depends_on := [''a''], acceptance := [new_check ''human_review'']\<rparr>"

definition demo_plan :: plan where
  "demo_plan = (new_plan ''p'')\<lparr>steps := [step_a, step_b]\<rparr>"

definition demo_state :: run_state where
  "demo_state = \<lparr>rs_plan = demo_plan, rs_dir = [], rs_tick = 0, rs_retries = (\<lambda>_. 0)\<rparr>"

lemma demo_steps [simp]:
  "step_id step_a = ''a''" "step_status step_a = PENDING" "depends_on step_a = []"
  "acceptance step_a = [new_check ''output_nonempty'']"
  "step_id step_b = ''b''" "step_status step_b = PENDING" "depends_on step_b = [''a'']"
  "acceptance step_b = [new_check ''human_review'']"
  by (simp_all add: step_a_def step_b_def new_step_def)

lemma demo_plan_simps [simp]:
  "steps demo_plan = [step_a, step_b]" "plan_id demo_plan = ''p''" "plan_status demo_plan = PLAN_PENDING"
  "rs_plan demo_state = demo_plan" "step_ids demo_plan = [''a'', ''b'']"
  by (simp_all add: demo_plan_def demo_state_def new_plan_def step_ids_def)

lemma demo_lookup [simp]:
  "get_step demo_plan ''a'' = Inr step_a" "get_step demo_plan ''b'' = Inr step_b"
  by (simp_all add: get_step_def)

lemma demo_status [simp]:
  "status_of demo_plan i = (if i = ''a'' \<or> i = ''b'' then Some PENDING else None)"
  by (auto simp: status_of_def get_step_def)

lemma demo_gate: "gate_holds status_of needs_of demo_plan"
  by (auto simp: gate_holds_def split: if_splits)

lemma demo_well_formed: "well_formed demo_plan"
  unfolding validate_accepts_iff [symmetric] by code_simp

lemma demo_storable: "plan_storable draft_criteria demo_plan"
  by (simp add: plan_storable_def step_storable_def check_storable_def new_check_def demo_plan_def new_plan_def
      SCHEMA_VERSION_def status_defs step_a_def step_b_def new_step_def)

definition demo_dir :: plan_dir where
  "demo_dir = [(''p'', Some (JObj (plan_to_dict (stamp 1 demo_plan))))]"

lemma demo_saved: "save_plan DiskOk 1 [] demo_plan = (demo_dir, stamp 1 demo_plan, None)"
  by (simp add: save_plan_def store_path_def demo_dir_def Let_def)

lemma demo_loads: "load_plan py_typed draft_criteria demo_dir ''p'' = Inr (Some (stamp 1 demo_plan))"
  using load_after_save(1) [OF py_typed_ok demo_storable demo_saved] by simp

lemma demo_cancels: "\<exists>d' q. cancel py_typed DiskOk 2 demo_dir ''p'' ''stop'' = (d', Inr q)"
  by (simp add: cancel_def demo_loads save_plan_def store_path_def abort_def Let_def)

text \<open>The same plan when its second step waits for a human.\<close>

definition waiting_plan :: plan where
  "waiting_plan = stamp 1 (demo_plan\<lparr>steps := [step_a\<lparr>step_status := VERIFIED\<rparr>, step_b\<lparr>step_status := VERIFYING\<rparr>]\<rparr>)"

definition waiting_dir :: plan_dir where
  "waiting_dir = [(''p'', Some (JObj (plan_to_dict waiting_plan)))]"

lemma waiting_id [simp]: "plan_id waiting_plan = ''p''"
  by (simp add: waiting_plan_def)

lemma waiting_storable: "plan_storable draft_criteria waiting_plan"
  using demo_storable
  by (simp add: waiting_plan_def plan_storable_def step_storable_def status_defs)

lemma waiting_loads: "load_plan py_typed draft_criteria waiting_dir ''p'' = Inr (Some waiting_plan)"
  using plan_roundtrip [OF py_typed_ok waiting_storable]
  by (simp add: load_plan_def store_path_def get_doc_def dict_get_def waiting_dir_def)

lemma waiting_approves:
  "\<exists>d' r. decide py_typed draft_criteria DiskOk 3 waiting_dir ''p'' ''b'' ''approve'' [] = (d', Inr r)"
proof -
  have s: "get_step waiting_plan ''b'' = Inr (step_b\<lparr>step_status := VERIFYING\<rparr>)"
    by (simp_all add: waiting_plan_def get_step_def)
  have r: "require_human_review_step waiting_plan ''b'' = Inr (step_b\<lparr>step_status := VERIFYING\<rparr>)"
    using s by (simp add: require_human_review_step_def new_check_def CHECK_HUMAN_REVIEW_def)
  obtain q where t: "transition waiting_plan ''b'' VERIFIED [] False False 3 = Inr q"
    using s by (auto simp: transition_iff passes_gate_def STEP_STATUSES_def legal_transition_iff)
  have "plan_id q = ''p''" using transition_frame(2) [OF t] by simp
  then show ?thesis
    by (simp add: decide_def waiting_loads r t save_plan_def store_path_def Let_def)
qed

section \<open>A gateway\<close>

text \<open>Every provider answers \<^verbatim>\<open>ok\<close>, except for the model \<^verbatim>\<open>down\<close>.\<close>

definition demo_gw_env :: gw_env where
  "demo_gw_env = \<lparr>ge_direct = (\<lambda>_ _ _ m. if m = ''down'' then Inl ''down'' else Inr [(''content'', JStr ''ok'')]),
     ge_single = (\<lambda>_ _ _ m. if m = ''down'' then Inl ''down'' else Inr [(''content'', JStr ''ok'')]),
     ge_now = (\<lambda>_. 20), ge_health = (\<lambda>_. \<lparr>he_getenv = (\<lambda>_. []), he_now = 20, he_float = (\<lambda>_. None)\<rparr>),
     ge_disk = (\<lambda>_. True), ge_key = (\<lambda>_ _ _ _. ''k''), ge_loads = (\<lambda>_. Inr (JObj [])), ge_dumps = (\<lambda>_. ''{}''),
     ge_custom = (\<lambda>_ _. False), ge_show = (\<lambda>_. ''secret''), ge_builtins = py_typed\<rparr>"

definition demo_gw_cfg :: gw_cfg where
  "demo_gw_cfg = \<lparr>gc_enabled = True, gc_account_id = ''acc'', gc_upstream = [], gc_upstream_model = [],
     gc_upstream_fallback_direct = False, gc_cache_scope = [],
     gc_rate_limit = \<lparr>rl_requests_per_minute = 60, rl_tokens_per_minute = 0, rl_enabled = False\<rparr>,
     gc_fallback_enabled = True, gc_fallback_chain = [\<lparr>fs_provider = Some ''openai'', fs_model = Some ''m2''\<rparr>],
     gc_fallback_retries = 1,
     gc_dlp = \<lparr>dl_enabled = True, dl_block_secrets = True, dl_block_pii = False, dl_block_patterns = []\<rparr>\<rparr>"

definition demo_request :: request where
  "demo_request = \<lparr>rq_text = ''hello'', rq_model = ''m'', rq_provider = ''openai'', rq_system = [], rq_agent = [],
     rq_extra = [], rq_scope = [], rq_reroute = False, rq_options = JNull\<rparr>"

definition demo_gw :: gw where
  "demo_gw = \<lparr>gw_cache = \<lparr>cc_enabled = True, cc_ttl = 3600, cc_max_entries = 4, cc_persist = False, cc_store = [],
       cc_files = Map.empty\<rparr>,
     gw_spend = \<lparr>sl_daily_budget = 5, sl_per_agent_budget = Map.empty, sl_enabled = True, sl_spent_today = 0,
       sl_spent_per_agent = Map.empty, sl_reset_at = 0\<rparr>,
     gw_metrics = \<lparr>gm_total_requests = 0, gm_total_tokens = 0, gm_total_cost = 0, gm_cache_hits = 0, gm_cache_misses = 0,
       gm_rate_limited = 0, gm_fallbacks_used = 0, gm_dlp_blocks = 0, gm_errors = 0, gm_by_provider = (\<lambda>_. 0),
       gm_by_model = (\<lambda>_. 0), gm_recent = []\<rparr>,
     gw_health = \<lparr>hc_cache = Map.empty, hc_excluded = Map.empty, hc_byok_enabled = None, hc_byok_providers = []\<rparr>,
     gw_tick = 0, gw_calls = []\<rparr>"

lemma demo_alnum: "list_all (\<lambda>c. alnum c) ''abcdefghijkl''"
  by code_simp

lemma demo_down:
  "\<exists>d g'. chat demo_gw_env (demo_gw_cfg\<lparr>gc_enabled := False\<rparr>) (demo_request\<lparr>rq_model := ''down''\<rparr>) demo_gw = (Inr (JObj d), g') \<and>
     has_error d"
  by (simp add: chat_def demo_gw_env_def demo_gw_cfg_def demo_request_def direct_call_def has_error_def jget_def split_beta)

section \<open>A business decision\<close>

text \<open>An executor that succeeds, no recommendations, a disk that works.\<close>

definition demo_decisions :: decision_env where
  "demo_decisions = \<lparr>de_builtins = py_typed, de_disk = (\<lambda>_. DiskOk), de_now = (\<lambda>_. 7),
     de_run = (\<lambda>_ _ _. ActionResult True [] []), de_recommend = (\<lambda>_ _. None), de_after = (\<lambda>_. None), de_config = True\<rparr>"

definition demo_option :: business_option where
  "demo_option = \<lparr>op_option_id = ''o1'', op_title = ''notify'', op_rationale = [], op_urgency = ''low'', op_estimated_impact = [],
     op_action_kind = ''business'', op_action_spec = [(''kind'', JStr ''notify''), (''to'', JStr ''ops'')]\<rparr>"

definition demo_signal :: signal where
  "demo_signal = \<lparr>sg_signal_id = ''s1'', sg_source = ''crm'', sg_captured_at = [], sg_confidence = 1\<rparr>"

definition no_decisions :: decision_service where
  "no_decisions = \<lparr>ds_dir = [], ds_tick = 0, ds_runs = []\<rparr>"

definition demo_ops :: "decision_op list" where
  "demo_ops = [CreateOp demo_signal demo_option, ExecuteOp False ''o1'', DecideOp ''o1'' ''approve'' [],
     ExecuteOp False ''o1'', DecideOp ''o1'' ''reject'' [], ExecuteOp False ''o1'']"

lemma demo_action_runs: "ds_runs (performs demo_decisions demo_ops no_decisions) = [(''o1'', [(''to'', JStr ''ops'')])]"
  by code_simp

section \<open>A run of an executor\<close>

text \<open>\<^verbatim>\<open>cursor\<close> has no credits, \<^verbatim>\<open>deepseek\<close> takes over and writes to the one file of the tree.\<close>

definition demo_tree :: "string \<Rightarrow> observed" where
  "demo_tree text = \<lparr>ob_status = (if text = ''x'' then [] else [(''a.py'', ''M'')]), ob_prints = [], ob_listing = None,
     ob_tree = [''a.py'' \<mapsto> text]\<rparr>"

definition demo_agent :: agent_env where
  "demo_agent = \<lparr>ag_run = (\<lambda>n f. if f = ''cursor'' then (new_result False)\<lparr>er_cost_usd := 1/100, er_billing_error := True\<rparr>
       else (new_result True)\<lparr>er_cost_usd := 2/100, er_output := ''Done.''\<rparr>),
     ag_available = (\<lambda>_ _. True), ag_elapsed = (\<lambda>_. 5), ag_before = demo_tree ''x'', ag_after = (\<lambda>_. demo_tree ''y''),
     ag_tree_env = \<lparr>te_diff = Some [''a.py''], te_diff_text = None, te_checkout = (\<lambda>_. True), te_remove = (\<lambda>_. True)\<rparr>,
     ag_snapshot = ''s'', ag_eval_cost = 0, ag_builtins = py_typed, ag_now = (\<lambda>_. 1), ag_disk = (\<lambda>_. True)\<rparr>"

definition demo_policy :: safety_policy where
  "demo_policy = \<lparr>sp_enabled = True, sp_dry_run = False, sp_protected_paths = [], sp_max_files_touched = 5\<rparr>"

definition empty_registry :: registry where
  "empty_registry = \<lparr>rg_yaml = [], rg_yml = [], rg_seed_yaml = [], rg_seed_yml = [], rg_writable = True\<rparr>"

definition demo_runner :: runner_cfg where
  "demo_runner = \<lparr>ru_names = \<lparr>nc_agents = [], nc_registry = (\<lambda>_. None), nc_default_agent = []\<rparr>,
     ru_cost_policy = \<lparr>cp_enabled = True, cp_max_task_cost_usd = 1, cp_stop_on_budget_exceeded = True,
       cp_prefer_cheaper_for = [], cp_cheaper_model = [], cp_cheaper_model_map = []\<rparr>,
     ru_safety = Some demo_policy, ru_capability = False, ru_registry = empty_registry, ru_track = False\<rparr>"

definition demo_run :: run_request where
  "demo_run = \<lparr>rr_task = ''fix'', rr_agent = ''developer'', rr_cwd = ''/r'', rr_dry_run = False, rr_task_id = ''t'',
     rr_parent = [], rr_dimension = ''backend''\<rparr>"

lemma demo_attempts:
  "fst (agent_run demo_agent demo_runner q d) = Inr (conclude_run demo_agent demo_runner q ''developer''
     (next_attempt demo_agent ''cursor'' ''deepseek'' (first_attempt demo_agent ''cursor'')))" if "rr_agent q = ''developer''"
proof -
  have n: "resolve_executor (ru_names demo_runner) ''developer'' = (''cursor'', ''developer'')" by code_simp
  have c: "fallback_chain_of demo_agent demo_runner q = Inr BILLING_FALLBACK_CHAIN"
    by (simp add: fallback_chain_of_def build_fallback_chain_or_static_def demo_runner_def)
  have after: "candidates_after ''cursor'' BILLING_FALLBACK_CHAIN = [''deepseek'', ''wrangler'', ''opencode'', ''zen'']" by code_simp
  have f: "needs_fallback (cs_result (first_attempt demo_agent ''cursor''))"
    "\<not> needs_fallback (cs_result (next_attempt demo_agent ''cursor'' ''deepseek'' (first_attempt demo_agent ''cursor'')))"
    by (simp_all add: first_attempt_def next_attempt_def demo_agent_def Let_def needs_fallback_def timed_def new_result_def)
  have av: "ag_available demo_agent k e" "\<not> ru_track demo_runner" "''cursor'' \<in> set BILLING_FALLBACK_CHAIN" for k e
    by (simp_all add: demo_agent_def demo_runner_def BILLING_FALLBACK_CHAIN_def)
  show ?thesis by (simp add: agent_run_def that n c after f av Let_def split: prod.split)
qed

lemma demo_touched:
  "content_touched_files (ag_tree_env demo_agent) (ag_snapshot demo_agent) (ob_status (ag_before demo_agent))
      (ob_status (ag_after demo_agent n)) = ([''a.py''], [])"
  unfolding demo_agent_def demo_tree_def by code_simp

lemma demo_agent_runs:
  "\<exists>res wt d'. agent_run demo_agent demo_runner demo_run [] = (Inr (res, wt), d') \<and>
     ro_executor res = ''deepseek'' \<and> er_success (ro_result res)"
proof -
  let ?s = "next_attempt demo_agent ''cursor'' ''deepseek'' (first_attempt demo_agent ''cursor'')"
  have a: "fst (agent_run demo_agent demo_runner demo_run []) = Inr (conclude_run demo_agent demo_runner demo_run ''developer'' ?s)"
    by (rule demo_attempts) (simp add: demo_run_def)
  have P: "ru_safety demo_runner = Some demo_policy" "rr_cwd demo_run = ''/r''" "ag_snapshot demo_agent = ''s''" "\<not> rr_dry_run demo_run"
    by (simp_all add: demo_runner_def demo_run_def demo_agent_def)
  have "\<not> is_protected ''a.py'' DEFAULT_PROTECTED_PATHS" by code_simp
  then have quiet: "apply_safety_policy (ag_tree_env demo_agent) ''/r'' (Some demo_policy) ''s'' (ob_tree (ag_before demo_agent))
      (ob_status (ag_before demo_agent)) (ob_status (ag_after demo_agent n)) False wt = (no_outcome, wt)" for n wt
    using demo_touched [of n] P(3) by (simp add: apply_safety_policy_def demo_policy_def no_outcome_def Let_def)
  have s: "cs_executor ?s = ''deepseek''" "er_success (cs_result ?s)"
    by (simp_all add: next_attempt_def first_attempt_def demo_agent_def timed_def new_result_def Let_def)
  have snap: "snapshot_of demo_agent demo_runner demo_run = ''s''"
    using P by (simp add: snapshot_of_def demo_policy_def)
  have "ro_executor (fst (conclude_run demo_agent demo_runner demo_run ''developer'' ?s)) = ''deepseek''"
    "er_success (ro_result (fst (conclude_run demo_agent demo_runner demo_run ''developer'' ?s)))"
    using s P by (simp_all add: conclude_run_def Let_def quiet snap no_violation_keeps_verdict no_outcome_def)
  then show ?thesis using a
    by (cases "agent_run demo_agent demo_runner demo_run []"; cases "conclude_run demo_agent demo_runner demo_run ''developer'' ?s") auto
qed

lemma demo_agent_recoverable: "recoverable demo_agent n"
  using demo_touched [of n] by (simp add: recoverable_def demo_agent_def demo_tree_def can_restore_def restored_to_def)

lemma demo_dry_runs:
  "\<exists>res wt d'. agent_run demo_agent demo_runner (demo_run\<lparr>rr_dry_run := True\<rparr>) [] = (Inr (res, wt), d')"
proof -
  have "fst (agent_run demo_agent demo_runner (demo_run\<lparr>rr_dry_run := True\<rparr>) []) = Inr (conclude_run demo_agent demo_runner
      (demo_run\<lparr>rr_dry_run := True\<rparr>) ''developer''
      (next_attempt demo_agent ''cursor'' ''deepseek'' (first_attempt demo_agent ''cursor'')))"
    by (rule demo_attempts) (simp add: demo_run_def)
  then show ?thesis
    by (cases "agent_run demo_agent demo_runner (demo_run\<lparr>rr_dry_run := True\<rparr>) []"; cases "conclude_run demo_agent demo_runner
      (demo_run\<lparr>rr_dry_run := True\<rparr>) ''developer''
      (next_attempt demo_agent ''cursor'' ''deepseek'' (first_attempt demo_agent ''cursor''))") auto
qed

section \<open>A review loop\<close>

text \<open>The developer succeeds and the reviewer finds nothing to repair.\<close>

definition demo_review :: review_env where
  "demo_review = \<lparr>rl_clock = of_nat, rl_now = of_nat, rl_disk = (\<lambda>_. True),
     rl_develop = (\<lambda>_ _ _. \<lparr>dv_success = True, dv_task_id = ''t'', dv_executor = ''cursor'', dv_budget_exceeded = False,
       dv_result = (new_result True)\<lparr>er_cost_usd := 2/100\<rparr>\<rparr>),
     rl_others = (\<lambda>_ d. d), rl_gateway = demo_gw_env, rl_gateway_cfg = demo_gw_cfg\<lparr>gc_enabled := False\<rparr>,
     rl_prompt = (\<lambda>_ _. demo_request), rl_loads = (\<lambda>_. Some (JObj [(''verdict'', JStr ''clean'')])), rl_builtins = py_typed\<rparr>"

definition demo_review_cfg :: review_cfg where
  "demo_review_cfg = \<lparr>rf_task = ''fix'', rf_cwd = ''/r'', rf_max_rounds = 3, rf_deadline = 900, rf_executor_timeout = 300,
     rf_model = ''m'', rf_provider = ''openai'', rf_tracked = False, rf_workflow_id = []\<rparr>"

definition demo_review_start :: review_state where
  "demo_review_start = \<lparr>rs_moment = 0, rs_runs = [], rs_gw = demo_gw, rs_laps = []\<rparr>"

lemma demo_chat:
  "rq_model rq = ''m'' \<Longrightarrow> chat demo_gw_env (demo_gw_cfg\<lparr>gc_enabled := False\<rparr>) rq g
     = (Inr (JObj [(''content'', JStr ''ok'')]), log_call (rq_provider rq) ''m'' g)"
  by (simp add: chat_def demo_gw_env_def demo_gw_cfg_def direct_call_def)

lemma demo_unwatched [simp]: "on_runs demo_review_cfg f E s = s" "cancelled E demo_review_cfg s = (False, s)"
  by (simp_all add: on_runs_def cancelled_def watched_def demo_review_cfg_def)

lemma demo_verdict: "parse_review_verdict py_typed (rl_loads demo_review) content = Inr (CLEAN, [])"
  by (simp add: parse_review_verdict_def demo_review_def jget_def jor_def verdict_of_def py_typed_def lower_def lower_char_def)

lemma demo_judge:
  "fst (judge_lap demo_review demo_review_cfg [(''content'', JStr ''ok'')] lap s) = Stop True StopClean []"
proof -
  have "rl_builtins demo_review = py_typed" by (simp add: demo_review_def)
  then show ?thesis by (simp add: judge_lap_def jget_def demo_verdict Let_def)
qed

lemma demo_lap:
  "fst (run_lap demo_review demo_review_cfg (''m'', ''openai'') t0 1 [] s) = Inr (Stop True StopClean [])"
  if "of_nat (rs_moment s) - t0 < 900" "of_nat (rs_moment s) + 3 - t0 < 900"
proof -
  note gate = that
  have env: "rl_gateway demo_review = demo_gw_env" "rl_gateway_cfg demo_review = demo_gw_cfg\<lparr>gc_enabled := False\<rparr>"
    "rl_clock demo_review = of_nat" "\<And>n task k. dv_success (rl_develop demo_review n task k)" "rf_deadline demo_review_cfg = 900"
    by (simp_all add: demo_review_def demo_review_cfg_def)
  show ?thesis
    using gate
    by (simp add: run_lap_def clock_def move_def record_developer_node_def Let_def env review_step_def demo_chat as_dict_def
        demo_judge split_beta)
qed

lemma demo_review_runs:
  "\<exists>res s1. review_until_clean demo_review demo_review_cfg demo_review_start = (Inr res, s1) \<and> rv_stop res = StopClean"
proof -
  have route: "reviewer_route demo_review demo_review_cfg demo_review_start = ((''m'', ''openai''), demo_review_start)"
    "rf_max_rounds demo_review_cfg = Suc 2"
    by (simp_all add: reviewer_route_def demo_review_cfg_def)
  have args: "strip (rf_task demo_review_cfg) \<noteq> []" "strip (rf_cwd demo_review_cfg) \<noteq> []" "rf_deadline demo_review_cfg > 0"
    by (simp_all add: demo_review_cfg_def strip_def is_space_def)
  let ?lap = "run_lap demo_review demo_review_cfg (''m'', ''openai'') 0 1 [] (demo_review_start\<lparr>rs_moment := 1\<rparr>)"
  have "fst ?lap = Inr (Stop True StopClean [])" by (rule demo_lap) simp_all
  then obtain s1 where lap: "?lap = (Inr (Stop True StopClean []), s1)" by (cases ?lap) simp
  have c: "clock demo_review demo_review_start = (0, demo_review_start\<lparr>rs_moment := 1\<rparr>)"
    by (simp add: clock_def demo_review_def demo_review_start_def)
  have loop: "review_loop demo_review demo_review_cfg (''m'', ''openai'') 0 3 (Suc 0) [] (demo_review_start\<lparr>rs_moment := Suc 0\<rparr>)
      = map_prod Inr id (finish_loop demo_review demo_review_cfg True StopClean [] s1)"
    using lap by (simp add: numeral_3_eq_3)
  have "\<not> rf_deadline demo_review_cfg \<le> 0" using args(3) by simp
  then show ?thesis
    using finish_loop_result [of demo_review demo_review_cfg True StopClean "[]" s1]
    by (cases "finish_loop demo_review demo_review_cfg True StopClean [] s1")
      (simp add: review_until_clean_def route args c open_record_def loop del: review_loop.simps)
qed

section \<open>Profiles, roles, sub-tasks and run records\<close>

lemma toolless_registry_ok: "reg_ok py_typed toolless_registry"
proof -
  have "read_profile py_typed (Inr (profile_to_dict toolless)) = Inr toolless"
    by (simp add: read_profile_def profile_codec_roundtrip toolless_def unknown_profile_def)
  then show ?thesis
    by (auto simp: reg_ok_def toolless_registry_def dict_get_def seed_doc_def toolless_def unknown_profile_def split: if_splits)
qed

lemma toolless_eligible: "''x'' \<in> set (eligible py_typed toolless_registry (file_request\<lparr>mr_file_tools := False, mr_policy := pol\<rparr>))"
proof -
  have "read_profile py_typed (Inr (profile_to_dict toolless)) = Inr toolless"
    by (simp add: read_profile_def profile_codec_roundtrip toolless_def unknown_profile_def)
  then have "reg_view py_typed toolless_registry ''x'' = toolless"
    by (simp add: reg_view_def reg_load_def toolless_registry_def dict_get_def)
  then show ?thesis
    by (simp add: eligible_def allowed_ids_def list_ids_def toolless_registry_def file_request_def sorted_set_def
        toolless_def unknown_profile_def)
qed

definition demo_keys :: health_env where
  "demo_keys = \<lparr>he_getenv = (\<lambda>k. if k = ''DEEPSEEK_API_KEY'' then ''sk-demo-key-1234567890'' else []), he_now = 20, he_float = (\<lambda>_. None)\<rparr>"

definition demo_health :: health where
  "demo_health = \<lparr>hc_cache = Map.empty, hc_excluded = Map.empty, hc_byok_enabled = None, hc_byok_providers = []\<rparr>"

lemma demo_usable: "usable demo_keys demo_health ''deepseek''"
  unfolding demo_keys_def demo_health_def by code_simp

definition demo_subtasks :: "subtask list" where
  "demo_subtasks = [\<lparr>st_agent = ''architect'', st_description = ''design'', st_depends_on = []\<rparr>,
     \<lparr>st_agent = ''developer'', st_description = ''build'', st_depends_on = [0]\<rparr>]"

definition demo_lead :: lead_cfg where
  "demo_lead = \<lparr>lc_mode = ''deterministic'', lc_model = [], lc_role_tiers = [], lc_matcher = None, lc_features = [],
     lc_policy = [], lc_skills = (\<lambda>_. []), lc_prompt = (\<lambda>_. demo_request)\<rparr>"

lemma demo_assigns:
  "\<exists>xs r' g'. assign demo_gw_env demo_gw_cfg (\<lambda>_. []) demo_lead demo_subtasks empty_registry demo_gw = (Inr xs, r', g')"
proof -
  have "\<not> should_ask_llm demo_lead demo_subtasks"
    by (simp add: should_ask_llm_def demo_lead_def lower_def lower_char_def Let_def)
  then show ?thesis using assign_deterministic(2) by (metis prod_cases3)
qed

lemma demo_subtasks_acyclic: "acyclic (dep_edges (map int [0..<length demo_subtasks]) (subtask_deps demo_subtasks))"
proof -
  have "dep_edges (map int [0..<length demo_subtasks]) (subtask_deps demo_subtasks) \<subseteq> {(x, y). x < y}"
    by (auto simp: dep_edges_def demo_subtasks_def subtask_deps_def)
  moreover have "acyclic {(x :: int, y). x < y}" by (auto intro!: acyclicI simp: trancl_def)
  ultimately show ?thesis by (rule acyclic_subset [rotated])
qed

definition demo_record :: run_record where
  "demo_record = fst (start_run True 5 ''t'' ''fix'' [''developer''] [] [] [] [] [])"

definition demo_runs :: runs_dir where "demo_runs = [(''t'', RunDoc demo_record)]"

lemma demo_runs_facts:
  "load_run demo_runs ''t'' = Some demo_record \<and> runs_sane demo_runs \<and> is_stale_run 60 100 demo_record"
  by (auto simp: load_run_def demo_runs_def dict_get_def runs_sane_def demo_record_def start_run_def Let_def is_stale_run_def
      age_seconds_def split: if_splits)

end
