(* ===== verification/Instincts.thy ===== *)
theory Instincts
  imports Gateway Plan_Bridge
begin

text \<open>
  Learned instincts: \<^verbatim>\<open>src/voly/learning/instincts.py\<close>.  The store is the list of instincts in its file;
  a write replaces the file or fails and leaves it.  The hash that makes an id is a function.  Dates are
  rationals; texts are ASCII for \<^verbatim>\<open>lower\<close> and word characters.  The JSON form of the file is left out.
\<close>

section \<open>Evidence and instincts\<close>

definition PROTECTED_PATTERNS :: "string list" where
  "PROTECTED_PATTERNS = [''ignore policy'', ''override policy'', ''bypass security'', ''disable security'', ''ignore system'',
     ''reveal secret'']"

definition POSITIVE_EVIDENCE :: "string list" where
  "POSITIVE_EVIDENCE = [''test_passed'', ''review_accepted'', ''user_accepted'', ''verified_outcome'']"

definition NEGATIVE_EVIDENCE :: "string list" where
  "NEGATIVE_EVIDENCE = [''rollback'', ''contradiction'', ''user_correction'', ''test_failed'', ''retry'']"

definition CONTRADICTING :: "string list" where
  "CONTRADICTING = [''rollback'', ''contradiction'', ''user_correction'']"

datatype instinct_scope = InProject | InOrganization | IsGlobal
datatype instinct_lifecycle = Candidate | Approved | Suspended | Retired

record instinct_evidence =
  ie_kind :: string
  ie_source :: string
  ie_project :: string
  ie_outcome :: string
  ie_created :: rat

definition is_positive :: "instinct_evidence \<Rightarrow> bool" where
  "is_positive e \<longleftrightarrow> ie_kind e \<in> set POSITIVE_EVIDENCE"

definition is_negative :: "instinct_evidence \<Rightarrow> bool" where
  "is_negative e \<longleftrightarrow> ie_kind e \<in> set NEGATIVE_EVIDENCE"

record instinct =
  in_id :: string
  in_trigger :: string
  in_action :: string
  in_scope :: instinct_scope
  in_scope_id :: string
  in_confidence :: rat
  in_evidence :: "instinct_evidence list"
  in_contradictions :: "string list"
  in_lifecycle :: instinct_lifecycle
  in_created :: rat
  in_updated :: rat

definition new_instinct :: "string \<Rightarrow> string \<Rightarrow> string \<Rightarrow> string \<Rightarrow> rat \<Rightarrow> instinct" where
  "new_instinct key trigger action project now =
     \<lparr>in_id = key, in_trigger = trigger, in_action = action, in_scope = InProject, in_scope_id = project,
      in_confidence = 1/4, in_evidence = [], in_contradictions = [], in_lifecycle = Candidate,
      in_created = now, in_updated = now\<rparr>"

datatype instinct_error =
    MissingContent
  | ProtectedContent
  | NoInstinct string
  | NeedsPositiveEvidence
  | NeedsTwoProjects
  | NeedsApproval
  | FileFailed

type_synonym instincts = "instinct list"
type_synonym 'a instinct_result = "instincts \<times> (instinct_error + 'a)"

definition validate_content :: "string \<Rightarrow> string \<Rightarrow> instinct_error option" where
  "validate_content trigger action =
     (if strip trigger = [] \<or> strip action = [] then Some MissingContent
      else if has_any PROTECTED_PATTERNS (lower action) then Some ProtectedContent else None)"

section \<open>The operations of the store\<close>

definition save_instincts :: "bool \<Rightarrow> instincts \<Rightarrow> 'a \<Rightarrow> instincts \<Rightarrow> 'a instinct_result" where
  "save_instincts disk_ok s' r s = (if disk_ok then (s', Inr r) else (s, Inl FileFailed))"

definition find_instinct :: "string \<Rightarrow> instincts \<Rightarrow> instinct option" where
  "find_instinct key s = find (\<lambda>i. in_id i = key) s"

definition put_instinct :: "instinct \<Rightarrow> instincts \<Rightarrow> instincts" where
  "put_instinct i s = upd_first (\<lambda>j. in_id j = in_id i) (\<lambda>_. i) s"

definition knows :: "instinct \<Rightarrow> instinct_evidence \<Rightarrow> bool" where
  "knows i e \<longleftrightarrow> list_ex (\<lambda>row. ie_kind row = ie_kind e \<and> ie_source row = ie_source e) (in_evidence i)"

text \<open>The part \<^verbatim>\<open>propose\<close> and \<^verbatim>\<open>add_evidence\<close> share: a new piece of evidence.\<close>

definition take_evidence :: "rat \<Rightarrow> instinct_evidence \<Rightarrow> instinct \<Rightarrow> instinct" where
  "take_evidence now e i =
     (let i1 = i\<lparr>in_evidence := in_evidence i @ [e]\<rparr>;
          i2 = (if is_positive e then i1\<lparr>in_confidence := min 1 (in_confidence i + 15/100)\<rparr>
                else if is_negative e
                then (let i3 = i1\<lparr>in_confidence := max 0 (in_confidence i - 20/100)\<rparr>
                      in if ie_kind e \<in> set CONTRADICTING
                         then i3\<lparr>in_contradictions := in_contradictions i @ [ie_source e],
                                 in_lifecycle := (if in_lifecycle i = Approved then Suspended else in_lifecycle i)\<rparr>
                         else i3)
                else i1)
      in i2\<lparr>in_updated := now\<rparr>)"

definition instinct_key :: "(string \<Rightarrow> string) \<Rightarrow> string \<Rightarrow> string \<Rightarrow> string \<Rightarrow> string" where
  "instinct_key H project trigger action = H (project @ ''|'' @ lower (strip trigger) @ ''|'' @ lower (strip action))"

definition propose ::
  "(string \<Rightarrow> string) \<Rightarrow> bool \<Rightarrow> rat \<Rightarrow> string \<Rightarrow> string \<Rightarrow> string \<Rightarrow> instinct_evidence \<Rightarrow> instincts \<Rightarrow> instinct instinct_result" where
  "propose H disk_ok now trigger action project e s =
     (case validate_content trigger action of
        Some err \<Rightarrow> (s, Inl err)
      | None \<Rightarrow>
          (let key = instinct_key H project trigger action
           in case find_instinct key s of
                None \<Rightarrow> (let i = take_evidence now e (new_instinct key (strip trigger) (strip action) project now)
                         in save_instincts disk_ok (s @ [i]) i s)
              | Some i0 \<Rightarrow> (let i = (if knows i0 e then i0 else take_evidence now e i0)
                            in save_instincts disk_ok (put_instinct i s) i s)))"

definition approve :: "bool \<Rightarrow> rat \<Rightarrow> string \<Rightarrow> instincts \<Rightarrow> instinct instinct_result" where
  "approve disk_ok now key s = (case find_instinct key s of
     None \<Rightarrow> (s, Inl (NoInstinct key))
   | Some i \<Rightarrow>
       if \<not> list_ex is_positive (in_evidence i) then (s, Inl NeedsPositiveEvidence)
       else let j = i\<lparr>in_lifecycle := Approved, in_updated := now\<rparr> in save_instincts disk_ok (put_instinct j s) j s)"

definition add_evidence :: "bool \<Rightarrow> rat \<Rightarrow> string \<Rightarrow> instinct_evidence \<Rightarrow> instincts \<Rightarrow> instinct instinct_result" where
  "add_evidence disk_ok now key e s = (case find_instinct key s of
     None \<Rightarrow> (s, Inl (NoInstinct key))
   | Some i \<Rightarrow> if knows i e then (s, Inr i)
             else let j = take_evidence now e i in save_instincts disk_ok (put_instinct j s) j s)"

definition remove_instinct :: "bool \<Rightarrow> string \<Rightarrow> instincts \<Rightarrow> bool instinct_result" where
  "remove_instinct disk_ok key s =
     (let remaining = filter (\<lambda>i. in_id i \<noteq> key) s
      in if length remaining = length s then (s, Inr False) else save_instincts disk_ok remaining True s)"

definition positive_projects :: "instinct \<Rightarrow> string list" where
  "positive_projects i = dict_fromkeys (map ie_project (filter is_positive (in_evidence i)))"

definition promote_global :: "bool \<Rightarrow> rat \<Rightarrow> string \<Rightarrow> instincts \<Rightarrow> instinct instinct_result" where
  "promote_global disk_ok now key s = (case find_instinct key s of
     None \<Rightarrow> (s, Inl (NoInstinct key))
   | Some i \<Rightarrow>
       if length (positive_projects i) < 2 then (s, Inl NeedsTwoProjects)
       else if in_lifecycle i \<noteq> Approved then (s, Inl NeedsApproval)
       else let j = i\<lparr>in_scope := IsGlobal, in_scope_id := ''global'', in_updated := now\<rparr>
            in save_instincts disk_ok (put_instinct j s) j s)"

section \<open>Selection\<close>

text \<open>\<^verbatim>\<open>re.findall(r"[\w-]{4,}", text)\<close>: the maximal runs of word characters and dashes, the long ones.\<close>

definition term_char :: "char \<Rightarrow> bool" where "term_char c \<longleftrightarrow> is_word c \<or> c = CHR ''-''"

fun runs_acc :: "string \<Rightarrow> string \<Rightarrow> string list" where
  "runs_acc acc [] = [rev acc]"
| "runs_acc acc (c # cs) = (if term_char c then runs_acc (c # acc) cs else rev acc # runs_acc [] cs)"

definition terms_of :: "string \<Rightarrow> string list" where
  "terms_of text = filter (\<lambda>t. length t \<ge> 4) (runs_acc [] text)"

definition in_reach :: "string \<Rightarrow> instinct \<Rightarrow> bool" where
  "in_reach project i \<longleftrightarrow> in_lifecycle i = Approved \<and>
     (in_scope i = IsGlobal \<or> in_scope i = InProject \<and> in_scope_id i = project)"

definition term_hits :: "string list \<Rightarrow> instinct \<Rightarrow> int" where
  "term_hits terms i = int (length (filter (has_sub (lower (in_trigger i))) terms))"

text \<open>The sort key is a tuple: three stable sorts, the last component first.\<close>

definition sort_instincts :: "(int \<times> instinct) list \<Rightarrow> (int \<times> instinct) list" where
  "sort_instincts rows = sort_key (\<lambda>(n, i). - n) (sort_key (\<lambda>(n, i). - in_confidence i) (sort_key (\<lambda>(n, i). in_id i) rows))"

definition shadow_select :: "string \<Rightarrow> string \<Rightarrow> int \<Rightarrow> instincts \<Rightarrow> instinct list" where
  "shadow_select task project limit s =
     (let terms = dict_fromkeys (terms_of (lower task));
          scored = sort_instincts (map (\<lambda>i. (term_hits terms i, i)) (filter (in_reach project) s))
      in py_take limit (map snd (filter (\<lambda>(n, i). n > 0) scored)))"

record skill_candidate =
  sc_skill_id :: string
  sc_instinct_ids :: "string list"

definition topic_of :: "instinct \<Rightarrow> string" where
  "topic_of i = (case terms_of (lower (in_trigger i)) of [] \<Rightarrow> ''general'' | t # ts \<Rightarrow> t)"

definition skill_candidates :: "rat \<Rightarrow> instincts \<Rightarrow> skill_candidate list" where
  "skill_candidates min_confidence s =
     (let ripe = filter (\<lambda>i. in_lifecycle i = Approved \<and> in_confidence i \<ge> min_confidence \<and> in_contradictions i = []) s
      in map (\<lambda>topic. \<lparr>sc_skill_id = ''learned-'' @ topic @ ''-v1'',
                 sc_instinct_ids = map in_id (filter (\<lambda>i. topic_of i = topic) ripe)\<rparr>)
           (sorted_set (map topic_of ripe)))"

section \<open>Evidence from other parts\<close>

text \<open>What the three \<^verbatim>\<open>ingest_*\<close> methods make of a task event, an evidence record, a business decision.\<close>

definition task_event_kind :: "string \<Rightarrow> bool \<Rightarrow> bool \<Rightarrow> string" where
  "task_event_kind status memory_hits retries =
     (if status = ''completed'' then (if memory_hits then ''verified_outcome'' else ''observation'')
      else if retries then ''retry'' else ''test_failed'')"

definition ingest_task_event ::
  "(string \<Rightarrow> string) \<Rightarrow> bool \<Rightarrow> rat \<Rightarrow> string \<times> string \<times> int \<times> int \<Rightarrow> string \<Rightarrow> string \<Rightarrow> string \<Rightarrow> instincts \<Rightarrow> instinct instinct_result" where
  "ingest_task_event H disk_ok now event trigger action project s = (case event of (tid, status, memory_hits, retry_count) \<Rightarrow>
     propose H disk_ok now trigger action project
       \<lparr>ie_kind = task_event_kind status (memory_hits \<noteq> 0) (retry_count \<noteq> 0), ie_source = tid, ie_project = project,
        ie_outcome = status, ie_created = now\<rparr> s)"

definition feedback_kind :: "string list \<Rightarrow> string option \<Rightarrow> bool \<Rightarrow> string" where
  "feedback_kind feedback evaluation retries =
     (if list_ex (\<lambda>k. k \<in> {''reverted'', ''major_rewrite'', ''manual_fix'', ''pr_rejected''}) feedback then ''user_correction''
      else if ''accepted'' \<in> set feedback then ''user_accepted''
      else if evaluation = Some ''passed'' then ''test_passed''
      else if retries then ''retry'' else ''observation'')"

definition ingest_evidence_record ::
  "(string \<Rightarrow> string) \<Rightarrow> bool \<Rightarrow> rat \<Rightarrow> string \<times> string list \<times> string option \<times> int \<times> string \<Rightarrow> string \<Rightarrow> string \<Rightarrow> string \<Rightarrow> instincts \<Rightarrow>
     instinct instinct_result" where
  "ingest_evidence_record H disk_ok now rec trigger action project s = (case rec of (tid, feedback, evaluation, retries, state) \<Rightarrow>
     propose H disk_ok now trigger action project
       \<lparr>ie_kind = feedback_kind feedback evaluation (retries \<noteq> 0), ie_source = tid, ie_project = project,
        ie_outcome = state, ie_created = now\<rparr> s)"

definition decision_kind :: "string \<Rightarrow> string \<Rightarrow> string \<times> string" where
  "decision_kind decision execution =
     (if decision = ''rejected'' then (''user_correction'', ''rejected'')
      else if execution = ''completed'' then (''verified_outcome'', ''completed'')
      else if decision = ''approved'' then (''user_accepted'', ''approved'')
      else (''observation'', ''pending''))"

definition ingest_business_decision ::
  "(string \<Rightarrow> string) \<Rightarrow> py_builtins \<Rightarrow> bool \<Rightarrow> rat \<Rightarrow> plan \<Rightarrow> string \<Rightarrow> instincts \<Rightarrow> instinct instinct_result" where
  "ingest_business_decision H B disk_ok now p project s =
     (let meta = metadata p; text = (\<lambda>k d. py_str B (jor (jget meta k) (JStr d)));
          (kind, outcome) = decision_kind (text ''decision'' ''pending'') (text ''execution'' ''pending'')
      in propose H disk_ok now (''business signal '' @ text ''signal_id'' ''unknown'')
           (str_or (plan_task p) (text ''action_kind'' ''review business option'')) project
           \<lparr>ie_kind = kind, ie_source = plan_id p @ '':'' @ outcome, ie_project = project, ie_outcome = outcome, ie_created = now\<rparr> s)"
section \<open>What the store keeps\<close>

text \<open>A well-formed instinct: its confidence is a probability, its content was admitted, no evidence counts
  twice, its contradictions are its contradicting evidence, approval rests on positive evidence and
  global reach on positive evidence from two projects.\<close>

definition instinct_ok :: "instinct \<Rightarrow> bool" where
  "instinct_ok i \<longleftrightarrow> 0 \<le> in_confidence i \<and> in_confidence i \<le> 1 \<and>
     strip (in_trigger i) \<noteq> [] \<and> strip (in_action i) \<noteq> [] \<and> \<not> has_any PROTECTED_PATTERNS (lower (in_action i)) \<and>
     distinct (map (\<lambda>e. (ie_kind e, ie_source e)) (in_evidence i)) \<and>
     in_contradictions i = map ie_source (filter (\<lambda>e. ie_kind e \<in> set CONTRADICTING) (in_evidence i)) \<and>
     (in_lifecycle i = Approved \<longrightarrow> list_ex is_positive (in_evidence i)) \<and>
     (in_scope i = IsGlobal \<longrightarrow> length (positive_projects i) \<ge> 2)"

definition store_ok :: "instincts \<Rightarrow> bool" where
  "store_ok s \<longleftrightarrow> distinct (map in_id s) \<and> list_all instinct_ok s"

lemma strip_part: "\<exists>a b. s = a @ strip s @ b"
proof -
  have "s = takeWhile is_space s @ dropWhile is_space s" by simp
  moreover have "\<exists>b. t = rev (dropWhile is_space (rev t)) @ b" for t
    by (metis rev_append rev_rev_ident takeWhile_dropWhile_id)
  ultimately show ?thesis unfolding strip_def by metis
qed

lemma strip_strip_Nil: "strip (strip s) = [] \<longleftrightarrow> strip s = []"
proof -
  have "(\<forall>c \<in> set (strip s). is_space c) \<Longrightarrow> strip s = []"
  proof (rule ccontr)
    assume all: "\<forall>c \<in> set (strip s). is_space c" and "strip s \<noteq> []"
    then have "is_space (last (strip s))" by simp
    moreover have "\<not> is_space (last (strip s))"
      using \<open>strip s \<noteq> []\<close> hd_dropWhile [of is_space "rev (dropWhile is_space s)"]
      by (simp add: strip_def last_rev)
    ultimately show False by blast
  qed
  then show ?thesis using strip_eq_Nil [of "strip s"] strip_eq_Nil [of "[]"] by fastforce
qed

lemma has_any_part: "has_any ks (lower (strip s)) \<Longrightarrow> has_any ks (lower s)"
proof -
  assume h: "has_any ks (lower (strip s))"
  obtain a b where s: "s = a @ strip s @ b" using strip_part by blast
  have "has_sub (lower s) k" if "has_sub (lower (strip s)) k" for k
    using has_sub_appendI [OF that, of "lower a" "lower b"] s by (metis lower_append)
  then show ?thesis using h by (auto simp: has_any_def list_ex_iff)
qed

lemma evidence_disjoint: "is_positive e \<Longrightarrow> \<not> is_negative e" "ie_kind e \<in> set CONTRADICTING \<Longrightarrow> is_negative e"
  by (auto simp: is_positive_def is_negative_def POSITIVE_EVIDENCE_def NEGATIVE_EVIDENCE_def CONTRADICTING_def)

lemma take_evidence_fields [simp]:
  "in_id (take_evidence now e i) = in_id i" "in_trigger (take_evidence now e i) = in_trigger i"
  "in_action (take_evidence now e i) = in_action i" "in_scope (take_evidence now e i) = in_scope i"
  "in_scope_id (take_evidence now e i) = in_scope_id i" "in_evidence (take_evidence now e i) = in_evidence i @ [e]"
  by (simp_all add: take_evidence_def Let_def)

lemma take_evidence_lifecycle:
  "in_lifecycle (take_evidence now e i) =
     (if ie_kind e \<in> set CONTRADICTING \<and> in_lifecycle i = Approved then Suspended else in_lifecycle i)"
  using evidence_disjoint [of e] by (auto simp: take_evidence_def Let_def)

lemma take_evidence_contradictions:
  "in_contradictions (take_evidence now e i) =
     in_contradictions i @ (if ie_kind e \<in> set CONTRADICTING then [ie_source e] else [])"
  using evidence_disjoint [of e] by (auto simp: take_evidence_def Let_def)

lemma take_evidence_confidence:
  "in_confidence (take_evidence now e i) =
     (if is_positive e then min 1 (in_confidence i + 15/100)
      else if is_negative e then max 0 (in_confidence i - 20/100) else in_confidence i)"
  by (simp add: take_evidence_def Let_def)

lemma positive_projects_grow: "length (positive_projects i) \<le> length (positive_projects (take_evidence now e i))"
proof -
  have n: "length (positive_projects j) = card (ie_project ` {e \<in> set (in_evidence j). is_positive e})" for j
  proof -
    have "length (positive_projects j) = card (set (positive_projects j))"
      by (metis distinct_card distinct_dict_fromkeys positive_projects_def)
    then show ?thesis by (simp add: positive_projects_def)
  qed
  show ?thesis unfolding n by (rule card_mono) auto
qed

lemma take_evidence_ok:
  assumes "instinct_ok i" "\<not> knows i e"
  shows "instinct_ok (take_evidence now e i)"
proof -
  have "(ie_kind e, ie_source e) \<notin> (\<lambda>e. (ie_kind e, ie_source e)) ` set (in_evidence i)"
    using assms(2) by (auto simp: knows_def list_ex_iff)
  then show ?thesis
    using assms(1) positive_projects_grow [of i now e]
    by (auto simp: instinct_ok_def take_evidence_lifecycle take_evidence_contradictions take_evidence_confidence)
qed

lemma find_instinctD: "find_instinct key s = Some i \<Longrightarrow> i \<in> set s \<and> in_id i = key"
  unfolding find_instinct_def by (rule find_SomeD)

lemma put_ids: "map in_id (put_instinct i s) = map in_id s"
  unfolding put_instinct_def by (rule map_upd_first) simp

lemma put_ok: "store_ok s \<Longrightarrow> instinct_ok i \<Longrightarrow> store_ok (put_instinct i s)"
  unfolding store_ok_def put_ids unfolding put_instinct_def by (auto intro: list_all_upd_first)

lemma in_put: "j \<in> set (put_instinct i s) \<Longrightarrow> j = i \<or> j \<in> set s"
  unfolding put_instinct_def using in_set_upd_first by fastforce

lemma find_ok: "store_ok s \<Longrightarrow> find_instinct key s = Some i \<Longrightarrow> instinct_ok i"
  using find_instinctD [of key s i] by (auto simp: store_ok_def list_all_iff)

lemma new_instinct_ok:
  "validate_content trigger action = None \<Longrightarrow> instinct_ok (new_instinct key (strip trigger) (strip action) project now)"
  using has_any_part [of PROTECTED_PATTERNS action]
  by (auto simp: instinct_ok_def new_instinct_def validate_content_def strip_strip_Nil split: if_splits)

section \<open>Steps of the store\<close>

text \<open>What runs without a human: proposals and evidence; and everything.\<close>

inductive learns :: "instincts \<Rightarrow> instincts \<Rightarrow> bool" where
  proposed: "learns s (fst (propose H disk_ok now trigger action project e s))"
| observed: "learns s (fst (add_evidence disk_ok now key e s))"

inductive changes :: "instincts \<Rightarrow> instincts \<Rightarrow> bool" where
  learnt: "learns s s' \<Longrightarrow> changes s s'"
| approved: "changes s (fst (approve disk_ok now key s))"
| promoted: "changes s (fst (promote_global disk_ok now key s))"
| removed: "changes s (fst (remove_instinct disk_ok key s))"

lemma save_cases: "fst (save_instincts disk_ok s' r s) \<in> {s, s'}"
  by (simp add: save_instincts_def)

lemma propose_cases:
  obtains "fst (propose H disk_ok now trigger action project e s) = s"
  | "validate_content trigger action = None" "find_instinct (instinct_key H project trigger action) s = None"
    "fst (propose H disk_ok now trigger action project e s) =
       s @ [take_evidence now e (new_instinct (instinct_key H project trigger action) (strip trigger) (strip action) project now)]"
  | i where "find_instinct (instinct_key H project trigger action) s = Some i"
    "fst (propose H disk_ok now trigger action project e s) = put_instinct (if knows i e then i else take_evidence now e i) s"
  by (cases "validate_content trigger action"; cases "find_instinct (instinct_key H project trigger action) s"; cases disk_ok)
    (auto simp: propose_def Let_def save_instincts_def)

lemma observe_cases:
  obtains "fst (add_evidence disk_ok now key e s) = s"
  | i where "find_instinct key s = Some i" "\<not> knows i e" "fst (add_evidence disk_ok now key e s) = put_instinct (take_evidence now e i) s"
proof (cases "find_instinct key s")
  case None
  then show ?thesis using that(1) by (simp add: add_evidence_def)
next
  case (Some i)
  then show ?thesis using that by (cases "knows i e"; cases disk_ok) (simp_all add: add_evidence_def Let_def save_instincts_def)
qed

lemma learns_ok: "learns s s' \<Longrightarrow> store_ok s \<Longrightarrow> store_ok s'"
proof (induction rule: learns.induct)
  case (proposed s H disk_ok now trigger action project e)
  show ?case
  proof (rule propose_cases [of H disk_ok now trigger action project e s])
    assume v: "validate_content trigger action = None" "find_instinct (instinct_key H project trigger action) s = None"
      and s': "fst (propose H disk_ok now trigger action project e s) =
       s @ [take_evidence now e (new_instinct (instinct_key H project trigger action) (strip trigger) (strip action) project now)]"
    let ?n = "new_instinct (instinct_key H project trigger action) (strip trigger) (strip action) project now"
    have "instinct_ok (take_evidence now e ?n)"
      by (rule take_evidence_ok [OF new_instinct_ok [OF v(1)]]) (simp add: knows_def new_instinct_def)
    moreover have "in_id ?n \<notin> in_id ` set s"
      using v(2) find_key_None [of in_id "in_id ?n" s] by (simp add: find_instinct_def new_instinct_def)
    ultimately show ?thesis using proposed s' by (auto simp: store_ok_def)
  next
    fix i assume i: "find_instinct (instinct_key H project trigger action) s = Some i"
      and "fst (propose H disk_ok now trigger action project e s) = put_instinct (if knows i e then i else take_evidence now e i) s"
    then show ?thesis using proposed find_ok [OF proposed i] take_evidence_ok by (auto intro: put_ok)
  qed (use proposed in simp)
next
  case (observed s disk_ok now key e)
  show ?case
    by (rule observe_cases [of disk_ok now key e s]) (use observed find_ok take_evidence_ok in \<open>auto intro: put_ok\<close>)
qed

lemma changes_ok: "changes s s' \<Longrightarrow> store_ok s \<Longrightarrow> store_ok s'"
proof (induction rule: changes.induct)
  case (learnt s s')
  then show ?case by (rule learns_ok)
next
  case (approved s disk_ok now key)
  have "instinct_ok (i\<lparr>in_lifecycle := Approved, in_updated := now\<rparr>)"
    if "find_instinct key s = Some i" "list_ex is_positive (in_evidence i)" for i
    using find_ok [OF approved that(1)] that(2) by (simp add: instinct_ok_def positive_projects_def)
  then show ?case using approved
    by (cases "find_instinct key s") (auto simp: approve_def Let_def save_instincts_def intro: put_ok)
next
  case (promoted s disk_ok now key)
  have "instinct_ok (i\<lparr>in_scope := IsGlobal, in_scope_id := ''global'', in_updated := now\<rparr>)"
    if "find_instinct key s = Some i" "\<not> length (positive_projects i) < 2" for i
    using find_ok [OF promoted that(1)] that(2) by (simp add: instinct_ok_def positive_projects_def)
  then show ?case using promoted
    by (cases "find_instinct key s") (auto simp: promote_global_def Let_def save_instincts_def intro: put_ok)
next
  case (removed s disk_ok key)
  then show ?case
    by (auto simp: remove_instinct_def Let_def save_instincts_def store_ok_def list_all_iff distinct_map_filter)
qed

lemma reachable_ok: "changes\<^sup>*\<^sup>* [] s \<Longrightarrow> store_ok s"
proof (induction rule: rtranclp_induct)
  case base
  show ?case by (simp add: store_ok_def)
next
  case (step s s')
  then show ?case by (blast intro: changes_ok)
qed

text \<open>Evidence never approves anything: what is approved after learning was approved before, with no
  contradiction in between.\<close>

definition approved_in :: "instincts \<Rightarrow> string \<Rightarrow> bool" where
  "approved_in s key \<longleftrightarrow> (\<exists>i \<in> set s. in_id i = key \<and> in_lifecycle i = Approved)"

lemma learns_approved: "learns s s' \<Longrightarrow> approved_in s' key \<Longrightarrow> approved_in s key"
proof (induction rule: learns.induct)
  case (proposed s H disk_ok now trigger action project e)
  show ?case
    by (rule propose_cases [of H disk_ok now trigger action project e s])
      (use proposed in \<open>auto simp: approved_in_def take_evidence_lifecycle new_instinct_def
        dest!: in_put find_instinctD split: if_splits\<close>)
next
  case (observed s disk_ok now key' e)
  show ?case
    by (rule observe_cases [of disk_ok now key' e s])
      (use observed in \<open>auto simp: approved_in_def take_evidence_lifecycle dest!: in_put find_instinctD split: if_splits\<close>)
qed

lemma learning_approves_nothing: "learns\<^sup>*\<^sup>* s s' \<Longrightarrow> approved_in s' key \<Longrightarrow> approved_in s key"
  by (induction rule: rtranclp_induct) (auto dest: learns_approved)

lemma contradiction_suspends:
  assumes "add_evidence True now key e s = (s', Inr i)" "ie_kind e \<in> set CONTRADICTING" "store_ok s"
    and "\<exists>j. find_instinct key s = Some j \<and> \<not> knows j e"
  shows "\<not> approved_in s' key"
proof -
  obtain j where j: "find_instinct key s = Some j" "\<not> knows j e" using assms(4) by blast
  have s': "s' = put_instinct (take_evidence now e j) s"
    using assms(1) j by (auto simp: add_evidence_def Let_def save_instincts_def)
  have id: "in_id j = key" "j \<in> set s" using find_instinctD [OF j(1)] by simp_all
  have d: "distinct (map in_id s')" using assms(3) put_ids s' by (simp add: store_ok_def)
  have "find (\<lambda>i. in_id i = key) s' = Some (take_evidence now e j)"
    using j(1) id find_upd_first_same [of "\<lambda>i. in_id i = key" "\<lambda>_. take_evidence now e j" s]
    by (simp add: s' put_instinct_def find_instinct_def)
  moreover have "in_lifecycle (take_evidence now e j) \<noteq> Approved" using assms(2) by (simp add: take_evidence_lifecycle)
  ultimately show ?thesis
    using find_key_distinct [OF d] unfolding approved_in_def by (metis option.inject)
qed

section \<open>What is selected\<close>

lemma sort_instincts_set: "set (sort_instincts rows) = set rows"
  by (simp add: sort_instincts_def)

lemma selected_in_reach:
  "i \<in> set (shadow_select task project limit s) \<Longrightarrow>
     i \<in> set s \<and> in_reach project i \<and> (\<exists>t \<in> set (terms_of (lower task)). has_sub (lower (in_trigger i)) t)"
proof -
  assume "i \<in> set (shadow_select task project limit s)"
  then obtain n where n: "n > 0" "(n, i) \<in> set (map (\<lambda>i. (term_hits (dict_fromkeys (terms_of (lower task))) i, i)) (filter (in_reach project) s))"
    unfolding shadow_select_def Let_def py_take_def
    by (auto simp: sort_instincts_set dest!: in_set_takeD split: if_splits)
  then have "filter (has_sub (lower (in_trigger i))) (dict_fromkeys (terms_of (lower task))) \<noteq> []"
    by (auto simp: term_hits_def)
  then show ?thesis using n by (auto simp: filter_empty_conv)
qed

lemma selected_count: "limit \<ge> 0 \<Longrightarrow> length (shadow_select task project limit s) \<le> nat limit"
  by (simp add: shadow_select_def Let_def py_take_def)

end
