(* ===== verification/Model_Router.thy ===== *)
theory Model_Router
  imports Executor_Results
begin

text \<open>
  \<^verbatim>\<open>src/voly/model_router.py\<close>: the model for a task by strength, capability, price and latency.
  Prices, latencies and scores are exact rationals; the registry is a dictionary in insertion order.
\<close>

section \<open>Models\<close>

datatype task_category =
    ARCHITECTURE | CODING | REVIEW | TESTING | SEARCH | BATCH | DOCUMENTATION | SECURITY | ANALYSIS

record model_info =
  mi_name :: string
  mi_provider :: string
  mi_input_cost :: rat
  mi_output_cost :: rat
  mi_latency :: rat
  mi_context_window :: int
  mi_max_output :: int
  mi_capabilities :: "string list"
  mi_strengths :: "task_category list"

definition model_info ::
  "string \<Rightarrow> string \<Rightarrow> rat \<Rightarrow> rat \<Rightarrow> rat \<Rightarrow> int \<Rightarrow> int \<Rightarrow> string list \<Rightarrow> task_category list \<Rightarrow> model_info" where
  "model_info name provider cin cout latency window max_out caps strengths =
     \<lparr>mi_name = name, mi_provider = provider, mi_input_cost = cin, mi_output_cost = cout, mi_latency = latency,
      mi_context_window = window, mi_max_output = max_out, mi_capabilities = caps, mi_strengths = strengths\<rparr>"

definition DEFAULT_MODELS :: "model_info list" where
  "DEFAULT_MODELS =
     [model_info ''claude-opus-4-5-20250929'' ''anthropic'' 15 75 3000 200000 32768
        [''architecture'', ''complex-reasoning'', ''analysis'']
        [ARCHITECTURE, ANALYSIS, SECURITY],
      model_info ''claude-sonnet-4-5-20250929'' ''anthropic'' 3 15 1500 200000 32768
        [''coding'', ''review'', ''testing'', ''documentation'']
        [CODING, REVIEW, TESTING],
      model_info ''gpt-4o'' ''openai'' (5/2) 10 1200 128000 16384
        [''coding'', ''review'', ''search'', ''analysis'']
        [REVIEW, ANALYSIS],
      model_info ''gpt-4o-mini'' ''openai'' (3/20) (3/5) 500 128000 16384
        [''fast-search'', ''simple-coding'', ''testing'']
        [SEARCH, TESTING, BATCH],
      model_info ''gemini-2.5-pro'' ''google'' (5/4) 5 1800 1000000 65536
        [''coding'', ''review'', ''large-context'', ''analysis'']
        [CODING, ANALYSIS],
      model_info ''gemini-2.5-flash'' ''google'' (3/20) (3/5) 400 1000000 32768
        [''fast-search'', ''simple-coding'', ''batch'']
        [SEARCH, BATCH, TESTING],
      model_info ''deepseek-chat'' ''deepseek'' (27/100) (11/10) 800 64000 8192
        [''coding'', ''review'', ''simple-coding'', ''batch'']
        [CODING, REVIEW, BATCH],
      model_info ''deepseek-coder'' ''deepseek'' (7/50) (7/25) 700 64000 8192
        [''coding'', ''simple-coding'', ''testing'', ''batch'']
        [CODING, TESTING, BATCH],
      model_info ''deepseek-reasoner'' ''deepseek'' (11/20) (219/100) 3500 64000 32768
        [''complex-reasoning'', ''architecture'', ''analysis'']
        [ARCHITECTURE, ANALYSIS, SECURITY],
      model_info ''kimi-k3'' ''opencode'' 0 0 2000 256000 32768
        [''architecture'', ''complex-reasoning'', ''analysis'', ''coding'']
        [ARCHITECTURE, ANALYSIS, CODING],
      model_info ''opencode-go'' ''opencode'' 0 0 1200 128000 16384
        [''coding'', ''agentic'', ''review'', ''testing'']
        [CODING, TESTING],
      model_info ''zen'' ''zen'' 0 0 1500 128000 16384
        [''analysis'', ''architecture'', ''review'', ''documentation'']
        [ANALYSIS, ARCHITECTURE, DOCUMENTATION],
      model_info ''MiMo-7B-RL'' ''mimo'' (1/20) (1/10) 300 32000 4096
        [''fast-search'', ''simple-coding'', ''batch'']
        [BATCH, SEARCH]]"

type_synonym models = "(string \<times> model_info) list"

definition new_router :: "models option \<Rightarrow> models" where
  "new_router ms = (case ms of Some (m # ms') \<Rightarrow> m # ms' | _ \<Rightarrow> map (\<lambda>m. (mi_name m, m)) DEFAULT_MODELS)"

definition register_model :: "model_info \<Rightarrow> models \<Rightarrow> models" where
  "register_model info ms = dict_set (mi_name info) info ms"

definition get_model :: "string \<Rightarrow> models \<Rightarrow> model_info option" where "get_model name ms = dict_get ms name"

definition list_models :: "models \<Rightarrow> model_info list" where "list_models ms = map snd ms"

section \<open>Choosing\<close>

definition infer_category :: "string \<Rightarrow> task_category" where
  "infer_category task =
     (let t = lower_text task
      in if has_any [utf8 [0xD0,0xB0,0xD1,0x80,0xD1,0x85,0xD0,0xB8,0xD1,0x82,0xD0,0xB5,0xD0,0xBA,0xD1,0x82,0xD1,0x83,0xD1,0x80], ''architecture'', ''design system'', utf8 [0xD1,0x81,0xD0,0xBF,0xD1,0x80,0xD0,0xBE,0xD0,0xB5,0xD0,0xBA,0xD1,0x82,0xD0,0xB8,0xD1,0x80]] t then ARCHITECTURE
         else if has_any [''review'', utf8 [0xD1,0x80,0xD0,0xB5,0xD0,0xB2,0xD1,0x8C,0xD1,0x8E], ''audit''] t then REVIEW
         else if has_any [utf8 [0xD1,0x82,0xD0,0xB5,0xD1,0x81,0xD1,0x82], ''test'', ''pytest'', ''unittest''] t then TESTING
         else if has_any [utf8 [0xD0,0xB1,0xD0,0xB5,0xD0,0xB7,0xD0,0xBE,0xD0,0xBF,0xD0,0xB0,0xD1,0x81,0xD0,0xBD,0xD0,0xBE,0xD1,0x81,0xD1,0x82], ''security'', utf8 [0xD1,0x83,0xD1,0x8F,0xD0,0xB7,0xD0,0xB2,0xD0,0xB8,0xD0,0xBC], ''vulnerab''] t then SECURITY
         else if has_any [utf8 [0xD0,0xBD,0xD0,0xB0,0xD0,0xB9,0xD0,0xB4,0xD0,0xB8], ''search'', utf8 [0xD0,0xBD,0xD0,0xB0,0xD0,0xB9,0xD1,0x82,0xD0,0xB8], ''grep'', ''locate''] t then SEARCH
         else if has_any [utf8 [0xD0,0xB0,0xD0,0xBD,0xD0,0xB0,0xD0,0xBB,0xD0,0xB8,0xD0,0xB7], ''analysis'', ''research'', utf8 [0xD0,0xB8,0xD1,0x81,0xD1,0x81,0xD0,0xBB,0xD0,0xB5,0xD0,0xB4]] t then ANALYSIS
         else if has_any [utf8 [0xD0,0xB4,0xD0,0xBE,0xD0,0xBA,0xD1,0x83,0xD0,0xBC,0xD0,0xB5,0xD0,0xBD,0xD1,0x82], ''document'', ''readme'', ''wiki''] t then DOCUMENTATION
         else CODING)"

definition model_score :: "task_category \<Rightarrow> bool \<Rightarrow> bool \<Rightarrow> string \<Rightarrow> model_info \<Rightarrow> rat" where
  "model_score category prefer_cost prefer_speed required m =
     (if category \<in> set (mi_strengths m) then 10 else 0)
     + (if required \<noteq> [] \<and> required \<in> set (mi_capabilities m) then 5 else 0)
     + (if prefer_cost then 50 / (mi_input_cost m + mi_output_cost m + 1/100) else 0)
     + (if prefer_speed then 5000 / (mi_latency m + 1) else 0)"

definition model_candidates :: "models \<Rightarrow> string \<Rightarrow> model_info list" where
  "model_candidates ms required =
     (let cs = (if required \<noteq> [] then filter (\<lambda>m. required \<in> set (mi_capabilities m)) (list_models ms) else list_models ms)
      in if cs = [] then list_models ms else cs)"

text \<open>\<open>None\<close>: \<^verbatim>\<open>scored[0]\<close> on an empty list raises.\<close>

definition route_model :: "models \<Rightarrow> string \<Rightarrow> task_category option \<Rightarrow> bool \<Rightarrow> bool \<Rightarrow> string \<Rightarrow> model_info option" where
  "route_model ms task category prefer_cost prefer_speed required =
     (let cat = (case category of Some c \<Rightarrow> c | None \<Rightarrow> infer_category task);
          scored = map (\<lambda>m. (m, model_score cat prefer_cost prefer_speed required m)) (model_candidates ms required)
      in case sort_key (\<lambda>(m, s). - s) scored of [] \<Rightarrow> None | (m, s) # rest \<Rightarrow> Some m)"

section \<open>Costs\<close>

definition model_cost :: "models \<Rightarrow> string \<Rightarrow> int \<Rightarrow> int \<Rightarrow> rat" where
  "model_cost ms name input_tokens output_tokens = (case get_model name ms of
     None \<Rightarrow> 0
   | Some m \<Rightarrow> of_int input_tokens / 1000000 * mi_input_cost m + of_int output_tokens / 1000000 * mi_output_cost m)"

record model_row =
  mrow_model :: string
  mrow_provider :: string
  mrow_cost :: rat
  mrow_latency :: rat
  mrow_window :: int

definition compare_models :: "models \<Rightarrow> int \<Rightarrow> int \<Rightarrow> model_row list" where
  "compare_models ms input_tokens output_tokens =
     sort_key mrow_cost (map (\<lambda>m. \<lparr>mrow_model = mi_name m, mrow_provider = mi_provider m,
       mrow_cost = round_to 4 (model_cost ms (mi_name m) input_tokens output_tokens), mrow_latency = mi_latency m,
       mrow_window = mi_context_window m\<rparr>) (list_models ms))"

section \<open>What the choice guarantees\<close>

lemma new_router_nonempty: "new_router ms \<noteq> []"
  by (simp add: new_router_def DEFAULT_MODELS_def split: option.split list.split)

lemma register_get: "get_model n (register_model info ms) = (if n = mi_name info then Some info else get_model n ms)"
  by (simp add: get_model_def register_model_def dict_get_set)

lemma register_nonempty: "register_model info ms \<noteq> []"
  by (cases ms) (auto simp: register_model_def split: prod.splits if_splits)

lemma candidates_subset: "set (model_candidates ms required) \<subseteq> set (list_models ms)"
  by (auto simp: model_candidates_def Let_def split: if_splits)

lemma candidates_nonempty: "ms \<noteq> [] \<Longrightarrow> model_candidates ms required \<noteq> []"
  by (auto simp: model_candidates_def Let_def list_models_def)

lemma candidates_capable:
  assumes "m0 \<in> set (list_models ms)" "required \<in> set (mi_capabilities m0)" "m \<in> set (model_candidates ms required)" "required \<noteq> []"
  shows "required \<in> set (mi_capabilities m)"
  using assms by (auto simp: model_candidates_def Let_def filter_empty_conv split: if_splits)

lemma sort_key_head:
  assumes "sort_key f xs = y # ys"
  shows "y \<in> set xs" "\<forall>x \<in> set xs. f y \<le> f x"
proof -
  have set: "set xs = insert y (set ys)" using assms by (metis list.simps(15) set_sort)
  then show "y \<in> set xs" by simp
  have "sorted (map f (y # ys))" using sorted_sort_key [of f xs] unfolding assms .
  then show "\<forall>x \<in> set xs. f y \<le> f x" unfolding set by simp
qed

text \<open>The head of a stable sort is the first element with the least key.\<close>

lemma find_hd_filter: "filter P xs = y # ys \<Longrightarrow> find P xs = Some y"
  by (induction xs) (auto split: if_splits)

lemma sort_key_head_first:
  assumes "sort_key f xs = y # ys"
  shows "find (\<lambda>x. f x = f y) xs = Some y"
proof -
  have "filter (\<lambda>x. f x = f y) xs = filter (\<lambda>x. f x = f y) (sort_key f xs)" by (rule sort_key_stable [symmetric])
  then have "filter (\<lambda>x. f x = f y) xs = y # filter (\<lambda>x. f x = f y) ys" unfolding assms by simp
  then show ?thesis by (rule find_hd_filter)
qed

lemma route_model_result:
  fixes ms task category required
  defines "cat \<equiv> (case category of Some c \<Rightarrow> c | None \<Rightarrow> infer_category task)"
  assumes "route_model ms task category pc ps required = Some m"
  shows "m \<in> set (model_candidates ms required)"
    and "\<forall>c \<in> set (model_candidates ms required). model_score cat pc ps required c \<le> model_score cat pc ps required m"
    and "find (\<lambda>c. model_score cat pc ps required c = model_score cat pc ps required m) (model_candidates ms required) = Some m"
proof -
  let ?sc = "model_score cat pc ps required"
  let ?xs = "map (\<lambda>m. (m, ?sc m)) (model_candidates ms required)"
  obtain s rest where sorted: "sort_key (\<lambda>(m, s). - s) ?xs = (m, s) # rest"
    using assms(2) unfolding route_model_def Let_def cat_def by (auto split: list.splits)
  note head = sort_key_head [OF sorted]
  then show "m \<in> set (model_candidates ms required)" by auto
  show "\<forall>c \<in> set (model_candidates ms required). ?sc c \<le> ?sc m" using head by auto
  have f: "find P (map (\<lambda>m. (m, ?sc m)) xs) = map_option (\<lambda>m. (m, ?sc m)) (find (\<lambda>m. P (m, ?sc m)) xs)" for P xs
    by (induction xs) auto
  have s: "s = ?sc m" using head by auto
  show "find (\<lambda>c. ?sc c = ?sc m) (model_candidates ms required) = Some m"
    using sort_key_head_first [OF sorted] unfolding f s by (auto split: prod.splits)
qed

lemma route_model_total: "ms \<noteq> [] \<Longrightarrow> route_model ms task category pc ps required \<noteq> None"
proof -
  assume "ms \<noteq> []"
  then have "sort_key f (map g (model_candidates ms required)) \<noteq> []" for f :: "model_info \<times> rat \<Rightarrow> rat" and g
    using candidates_nonempty [of ms required] by (metis list.map_disc_iff set_empty set_sort)
  then show ?thesis unfolding route_model_def Let_def by (auto split: list.splits)
qed

text \<open>A price of zero outweighs everything else: with \<^verbatim>\<open>prefer_cost\<close> a free model is chosen when there is one.\<close>

lemma prefer_cost_free:
  assumes "route_model ms task category True False required = Some m"
    and "f \<in> set (model_candidates ms required)" "mi_input_cost f = 0" "mi_output_cost f = 0"
    and "\<forall>c \<in> set (model_candidates ms required). mi_input_cost c + mi_output_cost c = 0 \<or> 1/50 \<le> mi_input_cost c + mi_output_cost c"
  shows "mi_input_cost m + mi_output_cost m = 0"
proof (rule ccontr)
  let ?cat = "case category of Some c \<Rightarrow> c | None \<Rightarrow> infer_category task"
  assume "mi_input_cost m + mi_output_cost m \<noteq> 0"
  then have total: "1/50 \<le> mi_input_cost m + mi_output_cost m" using assms(5) route_model_result(1) [OF assms(1)] by blast
  then have "50 / (mi_input_cost m + mi_output_cost m + 1/100) \<le> 50 / (1/50 + 1/100)"
    by (intro divide_left_mono) auto
  then have "model_score ?cat True False required m < 5000" by (simp add: model_score_def)
  also have "5000 \<le> model_score ?cat True False required f" using assms(3,4) by (simp add: model_score_def)
  also have "\<dots> \<le> model_score ?cat True False required m" using route_model_result(2) [OF assms(1)] assms(2) by blast
  finally show False by simp
qed

text \<open>So a cheap batch never gets a batch model of the default registry.\<close>

lemma default_batch:
  "map_option mi_name (route_model (new_router None) [] (Some BATCH) True False []) = Some ''kimi-k3''"
  by (simp add: route_model_def new_router_def model_candidates_def list_models_def DEFAULT_MODELS_def model_info_def
      model_score_def Let_def)

lemma compare_models_sorted:
  "sorted (map mrow_cost (compare_models ms i out))"
  "set (map mrow_model (compare_models ms i out)) = set (map mi_name (list_models ms))"
  by (simp_all add: compare_models_def image_image)

end
