(* ===== verification/Multi_Agent.thy ===== *)
theory Multi_Agent
  imports Task_Router Plan_Verify Run_Tracker
begin

text \<open>
  \<^verbatim>\<open>run_local\<close>: the multi-agent run of \<^verbatim>\<open>src/voly/a2a/multiagent_run.py\<close>, \<^verbatim>\<open>multiagent_roles.py\<close> and
  \<^verbatim>\<open>multiagent_plan.py\<close>.  A method of \<^verbatim>\<open>_LocalRun\<close> is a computation on the run's state that returns a
  value or raises; a raise keeps what was mutated before it.

  The \<^verbatim>\<open>Assignment\<close> objects are named by their index, which the lead makes unique: \<^verbatim>\<open>self.done[i]\<close> is the
  object with index \<open>i\<close>.  What the outside does at the \<open>n\<close>-th event (the executor runner, \<^verbatim>\<open>git\<close>, the
  clock, semantic memory, the disk) is a function of \<open>n\<close>; provider calls go through the gateway's model.
  Chat calls of one wave happen one after the other in an order the environment picks.  Token counts,
  costs and durations are carried only for reports and left out, and so are the headroom proxy (part
  of the request the environment builds), memory ingestion and the emission of evidence.
\<close>

section \<open>The world and the state\<close>

text \<open>What the executor runner is given back as: it raises, returns its dictionary, or text.\<close>

record role_reply =
  rpl_content :: string
  rpl_output :: string
  rpl_ok :: "bool option"
  rpl_success :: "bool option"
  rpl_error :: string
  rpl_files :: "string list"
  rpl_executor :: string

datatype runner_outcome =
    RunnerRaises string
  | RunnerReply role_reply
  | RunnerText string

datatype chat_outcome =
    ChatRaised string
  | ChatReply json

record ma_cfg =
  mc_task :: string
  mc_task_id :: string
  mc_cwd :: string
  mc_hybrid_code_gen :: bool
  mc_hybrid_require_cwd :: bool
  mc_requires_code_gen :: bool
  mc_executor_default :: string
  mc_executor_roles :: "string list"
  mc_has_runner :: bool
  mc_skip_dependents :: bool
  mc_parallel_waves :: bool
  mc_max_parallel :: int
  mc_plan :: "plan_cfg option"
  mc_tracked :: bool
  mc_memory :: bool

record ma_env =
  me_gateway :: gw_env
  me_gateway_cfg :: gw_cfg
  me_show :: "py_exn \<Rightarrow> string"
  me_request :: "assignment \<Rightarrow> string \<Rightarrow> string \<Rightarrow> request"
  me_fault :: "nat \<Rightarrow> string option"
  me_runner :: "nat \<Rightarrow> assignment \<Rightarrow> string \<Rightarrow> string \<Rightarrow> runner_outcome"
  me_world :: "nat \<Rightarrow> verify_env"
  me_fingerprint :: "nat \<Rightarrow> string \<Rightarrow> string"
  me_recent :: "nat \<Rightarrow> string \<Rightarrow> bool"
  me_evidence :: "nat \<Rightarrow> string list \<Rightarrow> string"
  me_memory_block :: "nat \<Rightarrow> string \<Rightarrow> string"
  me_system :: "nat \<Rightarrow> assignment \<Rightarrow> string"
  me_schedule :: "nat \<Rightarrow> int list \<Rightarrow> int list"
  me_now :: "nat \<Rightarrow> rat"
  me_disk :: "nat \<Rightarrow> disk"
  me_run_disk :: "nat \<Rightarrow> bool"
  me_counters :: "nat \<Rightarrow> int \<Rightarrow> entry"
  me_repr :: "string list \<Rightarrow> string"
  me_task_hash :: string

text \<open>\<open>ma_execs\<close> logs the runs of the executor runner: index and executor.  No decision reads it.\<close>

record ma_state =
  ma_items :: "assignment list"
  ma_done :: "int list"
  ma_role_modes :: "int \<rightharpoonup> string"
  ma_notes :: "(int \<times> string list) list"
  ma_plan :: "plan option"
  ma_gates :: bool
  ma_mode :: string
  ma_dir :: plan_dir
  ma_runs :: runs_dir
  ma_gw :: gw
  ma_memory :: "(string \<times> string \<times> string) list"
  ma_execs :: "(int \<times> string) list"
  ma_tick :: nat

type_synonym 'a ma = "ma_state \<Rightarrow> ma_state \<times> (plan_error + 'a)"

definition retM :: "'a \<Rightarrow> 'a ma" where
  "retM x = (\<lambda>m. (m, Inr x))"

definition bindM :: "'a ma \<Rightarrow> ('a \<Rightarrow> 'b ma) \<Rightarrow> 'b ma" where
  "bindM f g = (\<lambda>m. case f m of (m', Inl e) \<Rightarrow> (m', Inl e) | (m', Inr x) \<Rightarrow> g x m')"

definition seqM :: "unit ma \<Rightarrow> 'b ma \<Rightarrow> 'b ma" where
  "seqM f g = bindM f (\<lambda>_. g)"

definition readM :: "(ma_state \<Rightarrow> 'a) \<Rightarrow> 'a ma" where
  "readM f = (\<lambda>m. (m, Inr (f m)))"

definition modM :: "(ma_state \<Rightarrow> ma_state) \<Rightarrow> unit ma" where
  "modM f = (\<lambda>m. (f m, Inr ()))"

definition raiseM :: "plan_error + 'a \<Rightarrow> 'a ma" where
  "raiseM r = (\<lambda>m. (m, r))"

definition askM :: "(nat \<Rightarrow> 'a) \<Rightarrow> 'a ma" where
  "askM f = (\<lambda>m. (m\<lparr>ma_tick := Suc (ma_tick m)\<rparr>, Inr (f (ma_tick m))))"

fun forM :: "'a list \<Rightarrow> ('a \<Rightarrow> 'b ma) \<Rightarrow> 'b list ma" where
  "forM [] f = retM []"
| "forM (x # xs) f = bindM (f x) (\<lambda>y. bindM (forM xs f) (\<lambda>ys. retM (y # ys)))"

section \<open>Assignments\<close>

definition cur :: "ma_state \<Rightarrow> int \<Rightarrow> assignment" where
  "cur m i = (case find (\<lambda>a. as_idx a = i) (ma_items m) of
     Some a \<Rightarrow> a | None \<Rightarrow> new_assignment i [] [] [] [] [] [])"

definition upd_item :: "int \<Rightarrow> (assignment \<Rightarrow> assignment) \<Rightarrow> unit ma" where
  "upd_item i f = modM (\<lambda>m. m\<lparr>ma_items := upd_first (\<lambda>a. as_idx a = i) f (ma_items m)\<rparr>)"

definition mark_done :: "int \<Rightarrow> unit ma" where
  "mark_done i = modM (\<lambda>m. if i \<in> set (ma_done m) then m else m\<lparr>ma_done := ma_done m @ [i]\<rparr>)"

text \<open>\<^verbatim>\<open>[self.done[d] for d in deps if d in self.done]\<close>.\<close>

definition done_items :: "ma_state \<Rightarrow> int list \<Rightarrow> assignment list" where
  "done_items m ds = map (cur m) (filter (\<lambda>d. d \<in> set (ma_done m)) ds)"

definition role_mode_of :: "ma_state \<Rightarrow> assignment \<Rightarrow> string" where
  "role_mode_of m a = (case ma_role_modes m (as_idx a) of Some mode \<Rightarrow> mode | None \<Rightarrow> str_or (as_mode a) ''chat'')"

definition project_file :: "string \<Rightarrow> bool" where
  "project_file f \<longleftrightarrow> f \<noteq> [] \<and> \<not> starts_with f ''.voly/''"

section \<open>The tracker\<close>

definition step_snapshot :: "ma_state \<Rightarrow> entry list option" where
  "step_snapshot m = map_option (\<lambda>p. map (\<lambda>s. [(''id'', JStr (step_id s)), (''status'', JStr (step_status s)),
     (''role'', JStr (step_role s))]) (steps p)) (ma_plan m)"

definition node_name :: "int \<Rightarrow> string" where "node_name i = ''agent-'' @ str_int i"

definition node_status :: "ma_state \<Rightarrow> assignment \<Rightarrow> string" where
  "node_status m a =
     (if as_idx a \<in> set (ma_done m)
      then (if as_ok a then ''completed''
            else if as_plan_status a \<in> {''blocked'', ''skipped''} then ''blocked'' else ''failed'')
      else ''pending'')"

definition graph_node :: "ma_env \<Rightarrow> ma_state \<Rightarrow> assignment \<Rightarrow> string option \<Rightarrow> entry" where
  "graph_node N m a status =
     [(''id'', JStr (node_name (as_idx a))), (''role'', JStr (as_role a)),
      (''status'', JStr (case status of Some s \<Rightarrow> s | None \<Rightarrow> node_status m a)),
      (''mode'', JStr (str_or (as_mode a) (case ma_role_modes m (as_idx a) of Some mode \<Rightarrow> mode | None \<Rightarrow> ''chat''))),
      (''executor'', JStr (as_executor a)), (''provider'', JStr (as_provider a)), (''model'', JStr (as_model a)),
      (''tier'', JStr (as_tier a)), (''files_touched'', JList (map JStr (as_files a))), (''error'', JStr (as_error a))]
     @ me_counters N (ma_tick m) (as_idx a)"

definition tracking :: "ma_cfg \<Rightarrow> bool" where
  "tracking C \<longleftrightarrow> mc_tracked C \<and> mc_task_id C \<noteq> []"

definition send_node :: "ma_cfg \<Rightarrow> ma_env \<Rightarrow> entry \<Rightarrow> ma_state \<Rightarrow> ma_state" where
  "send_node C N node m = m\<lparr>ma_runs := graph_update (ge_builtins (me_gateway N)) (me_run_disk N (ma_tick m))
     (me_now N (ma_tick m)) (mc_task_id C) (Some node) None (ma_runs m), ma_tick := Suc (ma_tick m)\<rparr>"

definition send_beat :: "ma_cfg \<Rightarrow> ma_env \<Rightarrow> int \<Rightarrow> ma_state \<Rightarrow> ma_state" where
  "send_beat C N i m = m\<lparr>ma_runs := heartbeat (me_run_disk N (ma_tick m)) (me_now N (ma_tick m)) (mc_task_id C)
     (as_role (cur m i)) (int (length (ma_done m))) (step_snapshot m) (ma_runs m), ma_tick := Suc (ma_tick m)\<rparr>"

definition beat :: "ma_cfg \<Rightarrow> ma_env \<Rightarrow> int \<Rightarrow> unit ma" where
  "beat C N i = modM (\<lambda>m. if tracking C then send_beat C N i (send_node C N (graph_node N m (cur m i) None) m) else m)"

definition activate :: "ma_cfg \<Rightarrow> ma_env \<Rightarrow> int \<Rightarrow> string \<Rightarrow> unit ma" where
  "activate C N i mode = modM (\<lambda>m. if tracking C
     then send_beat C N i (send_node C N (dict_set ''mode'' (JStr mode) (graph_node N m (cur m i) (Some ''running''))) m)
     else m)"

text \<open>\<^verbatim>\<open>self.done[a.idx] = a\<close> and the heartbeat after it.\<close>

definition finalize :: "ma_cfg \<Rightarrow> ma_env \<Rightarrow> int \<Rightarrow> unit ma" where
  "finalize C N i = seqM (mark_done i) (beat C N i)"

section \<open>The plan gate of a role\<close>

definition saveM :: "ma_env \<Rightarrow> unit ma" where
  "saveM N = (\<lambda>m. case ma_plan m of
     None \<Rightarrow> (m, Inr ())
   | Some p \<Rightarrow> (case save_plan (me_disk N (ma_tick m)) (me_now N (ma_tick m)) (ma_dir m) p of
       (d, q, e) \<Rightarrow> (m\<lparr>ma_plan := Some q, ma_dir := d, ma_tick := Suc (ma_tick m)\<rparr>,
                     case e of None \<Rightarrow> Inr () | Some x \<Rightarrow> Inl x)))"

text \<open>An engine call, which may raise; one that keeps its writes when it raises; a write to the plan.\<close>

definition engineM :: "ma_env \<Rightarrow> (rat \<Rightarrow> plan \<Rightarrow> plan_error + plan) \<Rightarrow> unit ma" where
  "engineM N f = (\<lambda>m. case ma_plan m of
     None \<Rightarrow> (m, Inr ())
   | Some p \<Rightarrow> (case f (me_now N (ma_tick m)) p of
       Inl e \<Rightarrow> (m\<lparr>ma_tick := Suc (ma_tick m)\<rparr>, Inl e)
     | Inr q \<Rightarrow> (m\<lparr>ma_plan := Some q, ma_tick := Suc (ma_tick m)\<rparr>, Inr ())))"

definition engine2M :: "ma_env \<Rightarrow> (nat \<Rightarrow> rat \<Rightarrow> plan \<Rightarrow> plan \<times> plan_error option) \<Rightarrow> unit ma" where
  "engine2M N f = (\<lambda>m. case ma_plan m of
     None \<Rightarrow> (m, Inr ())
   | Some p \<Rightarrow> (case f (ma_tick m) (me_now N (ma_tick m)) p of
       (q, e) \<Rightarrow> (m\<lparr>ma_plan := Some q, ma_tick := Suc (ma_tick m)\<rparr>, case e of None \<Rightarrow> Inr () | Some x \<Rightarrow> Inl x)))"

definition planM :: "(plan \<Rightarrow> plan) \<Rightarrow> unit ma" where
  "planM f = modM (\<lambda>m. m\<lparr>ma_plan := map_option f (ma_plan m)\<rparr>)"

definition stepM :: "string \<Rightarrow> plan_step ma" where
  "stepM sid = (\<lambda>m. case ma_plan m of
     None \<Rightarrow> (m, Inl (PlanValidationError (UnknownStepId sid))) | Some p \<Rightarrow> (m, get_step p sid))"

definition step_id_of :: "ma_state \<Rightarrow> int \<Rightarrow> string" where
  "step_id_of m i = assignment_step_id i (as_role (cur m i))"

text \<open>The files of a verification: the role's own, or those of the roles it depends on; no duplicates, no noise.\<close>

definition verify_scope :: "ma_state \<Rightarrow> int \<Rightarrow> string list" where
  "verify_scope m i =
     (let own = as_files (cur m i);
          files = (if own \<noteq> [] then own else concat (map as_files (done_items m (as_depends_on (cur m i)))));
          scoped = dict_fromkeys (filter project_file files)
      in if scoped \<noteq> [] then scoped else own)"

text \<open>\<^verbatim>\<open>sync_assignment_plan_fields(a, step)\<close>; the soft opening of a step whose verification failed.\<close>

definition sync_item :: "int \<Rightarrow> plan_step \<Rightarrow> unit ma" where
  "sync_item i s = (\<lambda>m. case sync_assignment_plan_fields (cur m i) s of
     Inl e \<Rightarrow> (m, Inl e)
   | Inr a \<Rightarrow> (m\<lparr>ma_items := upd_first (\<lambda>b. as_idx b = i) (\<lambda>_. a) (ma_items m)\<rparr>, Inr ()))"

definition shadow_open :: "string \<Rightarrow> unit ma" where
  "shadow_open sid = modM (\<lambda>m. case ma_plan m of
     None \<Rightarrow> m
   | Some p \<Rightarrow> (case get_step p sid of
       Inl _ \<Rightarrow> m
     | Inr s \<Rightarrow> if step_status s = FAILED \<and> ma_mode m = ''shadow''
              then m\<lparr>ma_plan := Some (recompute_plan_status (upd_step sid (\<lambda>s. s\<lparr>step_status := VERIFIED\<rparr>) p))\<rparr> else m))"

definition verify_role :: "ma_cfg \<Rightarrow> ma_env \<Rightarrow> int \<Rightarrow> string \<Rightarrow> string \<Rightarrow> (string \<times> string) list \<Rightarrow> unit ma" where
  "verify_role C N i sid content git_before =
     bindM (askM (\<lambda>n. git_porcelain (me_world N n) (mc_cwd C))) (\<lambda>git_after.
     bindM (readM (\<lambda>m. verify_scope m i)) (\<lambda>scope.
     seqM (engine2M N (\<lambda>n now p.
       case complete_verification (me_world N n) p sid (empty_ctx\<lparr>vc_cwd := mc_cwd C, vc_output := content,
              vc_files_touched := scope, vc_git_before := git_before, vc_git_after := git_after,
              vc_command_timeout := (case mc_plan C of None \<Rightarrow> 60
                | Some pc \<Rightarrow> if pc_command_timeout pc = 0 then 60 else pc_command_timeout pc)\<rparr>) False now of
         (q, Inl e) \<Rightarrow> (q, Some e) | (q, Inr _) \<Rightarrow> (q, None)))
     (shadow_open sid)))"

text \<open>The last lines of \<^verbatim>\<open>finish_step_plan\<close>: copy the step's outcome back, then decide.\<close>

definition settle_role :: "ma_env \<Rightarrow> int \<Rightarrow> string \<Rightarrow> unit ma" where
  "settle_role N i sid =
     bindM (stepM sid) (\<lambda>t. seqM (sync_item i t) (bindM (readM ma_mode) (\<lambda>mode.
       seqM (if step_status t = FAILED
             then upd_item i (\<lambda>a. a\<lparr>as_ok := False, as_error := (if as_error a = []
                    then str_or (step_error t) ''plan verification failed'' else as_error a)\<rparr>)
             else if step_status t = VERIFIED \<and> mode = ''shadow'' \<and> verify_log t \<noteq> [] \<and> all_entries_ok (verify_log t) \<noteq> Inr True
             then upd_item i (\<lambda>a. a\<lparr>as_ok := True\<rparr>)
             else retM ())
            (saveM N))))"

definition finish_step_plan :: "ma_cfg \<Rightarrow> ma_env \<Rightarrow> int \<Rightarrow> bool \<Rightarrow> (string \<times> string) list \<Rightarrow> unit ma" where
  "finish_step_plan C N i exec_ok git_before =
     bindM (readM (\<lambda>m. (ma_plan m, step_id_of m i, cur m i))) (\<lambda>(p, sid, a).
     if p = None then retM ()
     else bindM (stepM sid) (\<lambda>_.
     seqM (planM (upd_step sid (\<lambda>s. s\<lparr>step_output := as_content a, files_touched := as_files a\<rparr>)))
     (if \<not> exec_ok
      then bindM (stepM sid) (\<lambda>s.
           seqM (if step_status s = RUNNING
                 then engineM N (\<lambda>now p. transition p sid FAILED (str_or (as_error a) ''role failed'') False False now)
                 else retM ())
           (bindM (stepM sid) (\<lambda>s. seqM (sync_item i s) (saveM N))))
      else
        seqM (engine2M N (\<lambda>n now p. mark_execution_finished p sid True [] (as_content a) (Some (as_files a)) now))
        (seqM (engineM N (\<lambda>now p. advance_after_done p sid now))
        (bindM (stepM sid) (\<lambda>s.
         seqM (if step_status s = VERIFYING then verify_role C N i sid (as_content a) git_before else retM ())
           (settle_role N i sid)))))))"

section \<open>Before a role runs\<close>

text \<open>What a failed prior role means for a role: nothing, it runs degraded, or it is skipped.\<close>

datatype cascade_verdict =
    RunRole
  | Degraded "string list"
  | NoCode "string list"
  | PriorFailed "string list"

definition impl_has_code :: "assignment \<Rightarrow> bool" where
  "impl_has_code d \<longleftrightarrow> as_ok d \<or> list_ex project_file (as_files d)"

definition cascade :: "ma_cfg \<Rightarrow> ma_state \<Rightarrow> assignment \<Rightarrow> cascade_verdict" where
  "cascade C m a =
     (if \<not> mc_skip_dependents C \<or> as_depends_on a = [] then RunRole
      else let priors = done_items m (as_depends_on a);
               failed_priors = map as_role (filter (\<lambda>d. \<not> as_ok d) priors);
               ok_priors = map as_role (filter as_ok priors)
           in if failed_priors = [] then RunRole
              else let impl_done = filter (\<lambda>d. as_mode d = ''executor'') (done_items m (ma_done m));
                       all_impl_failed = (impl_done \<noteq> [] \<and> \<not> list_ex impl_has_code impl_done)
                   in if mc_requires_code_gen C \<and> ok_priors \<noteq> [] \<and> all_impl_failed
                      then NoCode (map as_role (filter (\<lambda>d. \<not> as_ok d) impl_done))
                      else if (if role_mode_of m a = ''executor'' then filter impl_has_code priors = [] else ok_priors = [])
                      then PriorFailed failed_priors
                      else Degraded failed_priors)"

definition skip_role :: "ma_cfg \<Rightarrow> ma_env \<Rightarrow> int \<Rightarrow> string \<Rightarrow> string \<Rightarrow> string \<Rightarrow> unit ma" where
  "skip_role C N i error mode reason =
     seqM (upd_item i (\<lambda>a. a\<lparr>as_ok := False, as_error := error, as_content := ''('' @ error @ '')'', as_mode := mode,
             as_mode_reason := reason, as_plan_status := ''skipped''\<rparr>))
       (finalize C N i)"

definition start_step :: "ma_cfg \<Rightarrow> ma_env \<Rightarrow> int \<Rightarrow> bool ma" where
  "start_step C N i =
     bindM (readM (\<lambda>m. (ma_plan m, step_id_of m i))) (\<lambda>(plan, sid).
       case plan of
         None \<Rightarrow> retM True
       | Some p \<Rightarrow> bindM (raiseM (can_start p sid)) (\<lambda>startable.
           if \<not> startable
           then bindM (raiseM (unmet_deps p sid)) (\<lambda>unmet.
                let error = ''blocked: plan deps not verified ('' @ me_repr N unmet @ '')''
                in seqM (upd_item i (\<lambda>a. a\<lparr>as_ok := False, as_error := error, as_content := ''('' @ error @ '')'',
                          as_plan_status := ''blocked''\<rparr>))
                     (seqM (finalize C N i) (retM False)))
           else seqM (engineM N (\<lambda>now p. transition p sid RUNNING [] False False now))
                (seqM (upd_item i (\<lambda>a. a\<lparr>as_plan_status := RUNNING\<rparr>))
                (seqM (saveM N) (retM True)))))"

definition nl2 :: string where "nl2 = [CHR 0x0A, CHR 0x0A]"

definition user_prompt :: "ma_cfg \<Rightarrow> ma_env \<Rightarrow> int \<Rightarrow> string ma" where
  "user_prompt C N i =
     bindM (readM (\<lambda>m. (cur m i, done_items m (as_depends_on (cur m i)), dict_get (ma_notes m) i))) (\<lambda>(a, priors, note).
       let base = inject_prior_context (as_description a)
             (map (\<lambda>d. (as_role d, as_content d, as_files d)) (filter as_ok priors)) 1400
       in bindM (if as_role a \<in> {''reviewer'', ''tester''} \<and> mc_cwd C \<noteq> []
                 then askM (\<lambda>n. me_evidence N n (concat (map as_files priors))) else retM []) (\<lambda>evidence.
          let user = (if evidence \<noteq> [] then base @ nl2 @ evidence else base);
              user1 = (case note of
                 None \<Rightarrow> user
               | Some failed \<Rightarrow> ''WARNING: previous roles did not complete ('' @ join '', '' failed @ ''). ''
                   @ ''Work from the available context (the architect'' @ [CHR 0x27] @ ''s plan). ''
                   @ ''Explicitly note in your reply that the implementation is missing or ''
                   @ ''incomplete and which steps must be re-checked once it appears.'' @ nl2 @ user)
          in bindM (askM (\<lambda>n. me_memory_block N n (as_role a @ '': '' @ as_description a))) (\<lambda>block.
             retM (if block \<noteq> [] then block @ nl2 @ user1 else user1))))"

text \<open>\<^verbatim>\<open>prepare\<close>: \<open>None\<close> when the role is finalized here, otherwise its prompts and the \<^verbatim>\<open>git\<close> snapshot.\<close>

definition prepare :: "ma_cfg \<Rightarrow> ma_env \<Rightarrow> int \<Rightarrow> (string \<times> string \<times> (string \<times> string) list) option ma" where
  "prepare C N i =
     bindM (readM (\<lambda>m. (cur m i, cascade C m (cur m i), role_mode_of m (cur m i)))) (\<lambda>(a, verdict, role_mode).
     case verdict of
       NoCode roles \<Rightarrow>
         seqM (skip_role C N i (''skipped: no code produced '' @ dash @ '' all executor roles failed ('' @ join '', '' roles @ '')'')
                 role_mode ''skipped_no_code'') (retM None)
     | PriorFailed roles \<Rightarrow>
         seqM (skip_role C N i (''skipped: prior role(s) failed ('' @ join '', '' roles @ '')'')
                 (str_or (as_mode a) ''chat'') ''skipped_prior_failed'') (retM None)
     | _ \<Rightarrow>
         seqM (case verdict of
                 Degraded roles \<Rightarrow>
                   seqM (modM (\<lambda>m. m\<lparr>ma_notes := dict_set i roles (ma_notes m)\<rparr>))
                     (upd_item i (\<lambda>a. a\<lparr>as_mode_reason := (if as_mode_reason a \<noteq> []
                        then as_mode_reason a @ ''+degraded_prior_failed'' else ''degraded_prior_failed'')\<rparr>))
               | _ \<Rightarrow> retM ())
         (bindM (start_step C N i) (\<lambda>started.
          if \<not> started then retM None
          else bindM (askM (\<lambda>n. git_porcelain (me_world N n) (mc_cwd C))) (\<lambda>git_before.
               bindM (user_prompt C N i) (\<lambda>user.
               bindM (readM (\<lambda>m. cur m i)) (\<lambda>a.
               bindM (askM (\<lambda>n. me_system N n a)) (\<lambda>system.
               retM (Some (user, system, git_before)))))))))"

section \<open>Executor roles\<close>

text \<open>\<^verbatim>\<open>delta_for_role\<close> of \<^verbatim>\<open>a2a/context.py\<close>; \<open>me_recent\<close>: not an existing file older than the role's start.\<close>

definition delta_for_role ::
  "ma_cfg \<Rightarrow> ma_env \<Rightarrow> nat \<Rightarrow> (string \<times> string) list \<Rightarrow> (string \<times> string) list \<Rightarrow> string list" where
  "delta_for_role C N n git_before fp_before =
     (let git_after = git_porcelain (me_world N n) (mc_cwd C);
          fp_after = fingerprint_untracked (me_fingerprint N n) git_after
      in filter (\<lambda>rel. project_file rel \<and> me_recent N n rel)
           (changed_paths_fp git_before git_after (Some (fp_before, fp_after))))"

text \<open>The git delta, when the role reported no files.\<close>

definition take_delta :: "ma_cfg \<Rightarrow> ma_env \<Rightarrow> int \<Rightarrow> bool \<Rightarrow> (string \<times> string) list \<Rightarrow> (string \<times> string) list \<Rightarrow> unit ma" where
  "take_delta C N i always git_before fp_before =
     bindM (readM (\<lambda>m. cur m i)) (\<lambda>a.
     if mc_cwd C \<noteq> [] \<and> (always \<or> as_files a = [])
     then bindM (askM (\<lambda>n. delta_for_role C N n git_before fp_before)) (\<lambda>delta.
          if delta \<noteq> [] then upd_item i (\<lambda>a. a\<lparr>as_files := delta\<rparr>) else retM ())
     else retM ())"

definition take_reply :: "role_reply \<Rightarrow> assignment \<Rightarrow> assignment" where
  "take_reply r a =
     (let content = str_or (rpl_content r) (rpl_output r)
      in a\<lparr>as_content := content,
           as_ok := (case rpl_ok r of Some b \<Rightarrow> b
                     | None \<Rightarrow> (case rpl_success r of Some b \<Rightarrow> b | None \<Rightarrow> strip content \<noteq> [])),
           as_error := rpl_error r, as_files := filter project_file (rpl_files r),
           as_executor := str_or (rpl_executor r) (as_executor a)\<rparr>)"

definition honest :: "ma_cfg \<Rightarrow> assignment \<Rightarrow> assignment" where
  "honest C a =
     (if mc_requires_code_gen C \<and> as_ok a \<and> as_files a = []
      then a\<lparr>as_ok := False, as_error := ''executor reported success but changed no files (executor=''
               @ str_or (as_executor a) ''unknown'' @ '')''\<rparr>
      else a)"

text \<open>After a crash of the runner, and after its reply.\<close>

definition crash_executor ::
  "ma_cfg \<Rightarrow> ma_env \<Rightarrow> int \<Rightarrow> string \<Rightarrow> (string \<times> string) list \<Rightarrow> (string \<times> string) list \<Rightarrow> unit ma" where
  "crash_executor C N i e git_before fp_before =
     seqM (upd_item i (\<lambda>a. a\<lparr>as_error := e, as_content := ''(executor failed: '' @ e @ '')'', as_ok := False\<rparr>))
     (seqM (take_delta C N i True git_before fp_before)
     (seqM (finish_step_plan C N i False git_before)
     (finalize C N i)))"

definition close_executor ::
  "ma_cfg \<Rightarrow> ma_env \<Rightarrow> int \<Rightarrow> (string \<times> string) list \<Rightarrow> (string \<times> string) list \<Rightarrow> unit ma" where
  "close_executor C N i git_before fp_before =
     seqM (take_delta C N i False git_before fp_before)
     (seqM (upd_item i (honest C))
     (bindM (readM (\<lambda>m. as_ok (cur m i))) (\<lambda>exec_ok.
      seqM (finish_step_plan C N i exec_ok git_before)
      (finalize C N i))))"

definition run_executor :: "ma_cfg \<Rightarrow> ma_env \<Rightarrow> int \<Rightarrow> string \<Rightarrow> string \<Rightarrow> (string \<times> string) list \<Rightarrow> unit ma" where
  "run_executor C N i user system git_before0 =
     bindM (askM (\<lambda>n. if mc_cwd C \<noteq> []
              then (let b = git_porcelain (me_world N n) (mc_cwd C) in (b, fingerprint_untracked (me_fingerprint N n) b))
              else (git_before0, []))) (\<lambda>(git_before, fp_before).
     bindM (readM (\<lambda>m. cur m i)) (\<lambda>a.
     seqM (modM (\<lambda>m. m\<lparr>ma_execs := ma_execs m @ [(i, as_executor a)]\<rparr>))
     (bindM (askM (\<lambda>n. me_runner N n a user system)) (\<lambda>outcome.
      case outcome of
        RunnerRaises e \<Rightarrow> crash_executor C N i e git_before fp_before
      | RunnerReply r \<Rightarrow> seqM (upd_item i (take_reply r)) (close_executor C N i git_before fp_before)
      | RunnerText t \<Rightarrow> seqM (upd_item i (\<lambda>a. a\<lparr>as_content := t, as_ok := (strip t \<noteq> [])\<rparr>))
                          (close_executor C N i git_before fp_before)))))"

section \<open>Chat roles\<close>

definition chat_call :: "ma_env \<Rightarrow> int \<Rightarrow> string \<Rightarrow> string \<Rightarrow> chat_outcome ma" where
  "chat_call N i user system =
     bindM (askM (me_fault N)) (\<lambda>fault.
     case fault of
       Some e \<Rightarrow> retM (ChatRaised e)
     | None \<Rightarrow> (\<lambda>m. case chat_with_provider_fallback (me_gateway N) (me_gateway_cfg N) (me_show N)
                        (me_request N (cur m i) user system) (cur m i) (ma_gw m) of
                (resp, a, g) \<Rightarrow> (m\<lparr>ma_items := upd_first (\<lambda>b. as_idx b = i) (\<lambda>_. a) (ma_items m), ma_gw := g\<rparr>,
                                 Inr (ChatReply resp))))"

definition excludeM :: "ma_env \<Rightarrow> int \<Rightarrow> unit ma" where
  "excludeM N i = modM (\<lambda>m. m\<lparr>ma_gw := exclude_provider_on_gateway_error (me_gateway N) (as_provider (cur m i))
     (as_error (cur m i)) (ma_gw m)\<rparr>)"

definition failed_chat :: "string \<Rightarrow> assignment \<Rightarrow> assignment" where
  "failed_chat e a = a\<lparr>as_error := e, as_content := ''(failed: '' @ e @ '')'', as_ok := False\<rparr>"

text \<open>A content that is not text has no \<^verbatim>\<open>strip\<close>.\<close>

definition reply_content :: "(string \<times> json) list \<Rightarrow> plan_error + string" where
  "reply_content d = (case jor (jget d ''content'') (JStr []) of JStr c \<Rightarrow> Inr c | _ \<Rightarrow> Inl (Raised PyAttributeError))"

definition remember :: "ma_cfg \<Rightarrow> int \<Rightarrow> (string \<times> json) list \<Rightarrow> unit ma" where
  "remember C i d = modM (\<lambda>m. let a = cur m i in
     if strip (as_content a) \<noteq> [] \<and> mc_memory C \<and> \<not> truthy (jget d ''cache_hit'')
     then m\<lparr>ma_memory := ma_memory m @ [(as_role a, ''['' @ as_role a @ ''] '' @ take 80 (as_description a), take 2000 (as_content a))]\<rparr>
     else m)"

definition finalize_chat :: "ma_cfg \<Rightarrow> ma_env \<Rightarrow> int \<Rightarrow> chat_outcome \<Rightarrow> (string \<times> string) list \<Rightarrow> bool ma" where
  "finalize_chat C N i outcome git_before = (case outcome of
     ChatRaised e \<Rightarrow>
       seqM (upd_item i (failed_chat e)) (seqM (excludeM N i)
       (seqM (finish_step_plan C N i False git_before) (seqM (finalize C N i) (retM False))))
   | ChatReply resp \<Rightarrow>
       (let d = as_dict resp
        in bindM (if truthy (jget d ''error'')
                  then seqM (upd_item i (failed_chat (py_str (ge_builtins (me_gateway N)) (jget d ''error''))))
                       (seqM (excludeM N i) (retM False))
                  else bindM (raiseM (reply_content d)) (\<lambda>content.
                       seqM (upd_item i (\<lambda>a. if strip content = []
                               then a\<lparr>as_content := content, as_ok := False, as_error := ''empty response from provider''\<rparr>
                               else a\<lparr>as_content := content, as_ok := True\<rparr>))
                       (seqM (remember C i d) (retM True)))) (\<lambda>process_ok.
           bindM (readM (\<lambda>m. if ma_gates m then process_ok else as_ok (cur m i))) (\<lambda>exec_ok.
           seqM (finish_step_plan C N i exec_ok git_before)
           (seqM (finalize C N i) (retM (truthy (jget d ''spend_limited''))))))))"

section \<open>Waves\<close>

definition use_parallel :: "ma_cfg \<Rightarrow> bool" where
  "use_parallel C \<longleftrightarrow> mc_parallel_waves C \<and> max 1 (if mc_max_parallel C = 0 then 1 else mc_max_parallel C) > 1"

text \<open>How a prepared role runs; without a runner an executor role falls back to chat.\<close>

definition dispatch_mode :: "ma_cfg \<Rightarrow> ma_env \<Rightarrow> int \<Rightarrow> string ma" where
  "dispatch_mode C N i =
     bindM (readM (\<lambda>m. str_or (as_mode (cur m i)) (case ma_role_modes m i of Some mode \<Rightarrow> mode | None \<Rightarrow> ''chat''))) (\<lambda>mode.
     if mode \<noteq> ''executor'' then retM mode
     else seqM (\<lambda>m. upd_item i (\<lambda>a. if strip (as_executor a) = []
                  then a\<lparr>as_executor := resolve_role_executor (ge_health (me_gateway N) (gw_tick (ma_gw m))) (as_role a)
                           (str_or (mc_executor_default C) ''claude-code'')\<rparr> else a) m)
          (if \<not> mc_has_runner C
           then seqM (upd_item i (\<lambda>a. a\<lparr>as_mode_reason := as_mode_reason a @ ''+chat_fallback_no_runner''\<rparr>)) (retM ''chat'')
           else retM ''executor''))"

record work_item =
  wi_idx :: int
  wi_mode :: string
  wi_user :: string
  wi_system :: string
  wi_before :: "(string \<times> string) list"

definition prepare_item :: "ma_cfg \<Rightarrow> ma_env \<Rightarrow> int \<Rightarrow> work_item option ma" where
  "prepare_item C N i =
     bindM (prepare C N i) (\<lambda>prep. case prep of
       None \<Rightarrow> retM None
     | Some (user, system, git_before) \<Rightarrow>
         bindM (dispatch_mode C N i) (\<lambda>mode.
         seqM (activate C N i mode)
         (retM (Some \<lparr>wi_idx = i, wi_mode = mode, wi_user = user, wi_system = system, wi_before = git_before\<rparr>))))"

definition schedule_items :: "ma_env \<Rightarrow> nat \<Rightarrow> int list \<Rightarrow> int list" where
  "schedule_items N n is = (let order = me_schedule N n is in if distinct order \<and> set order = set is then order else is)"

definition call_item :: "ma_env \<Rightarrow> work_item list \<Rightarrow> int \<Rightarrow> (int \<times> chat_outcome) ma" where
  "call_item N ws i = (case find (\<lambda>w. wi_idx w = i) ws of
     None \<Rightarrow> retM (i, ChatRaised [])
   | Some w \<Rightarrow> bindM (chat_call N i (wi_user w) (wi_system w)) (\<lambda>resp. retM (i, resp)))"

definition call_chats :: "ma_cfg \<Rightarrow> ma_env \<Rightarrow> work_item list \<Rightarrow> (int \<times> chat_outcome) list ma" where
  "call_chats C N ws =
     bindM (if use_parallel C \<and> length ws > 1 then askM (\<lambda>n. schedule_items N n (map wi_idx ws))
            else retM (map wi_idx ws)) (\<lambda>order.
     forM order (call_item N ws))"

definition reply_of :: "(int \<times> chat_outcome) list \<Rightarrow> int \<Rightarrow> chat_outcome" where
  "reply_of resps i = (case map_of resps i of Some r \<Rightarrow> r | None \<Rightarrow> ChatRaised [])"

text \<open>The result of a wave is the reply that hit the spend limit, the last one if several did.\<close>

definition run_wave :: "ma_cfg \<Rightarrow> ma_env \<Rightarrow> int list \<Rightarrow> chat_outcome option ma" where
  "run_wave C N wave =
     bindM (forM wave (prepare_item C N)) (\<lambda>preps.
       let ws = List.map_filter id preps;
           execs = filter (\<lambda>w. wi_mode w = ''executor'') ws; chats = filter (\<lambda>w. wi_mode w \<noteq> ''executor'') ws
       in bindM (call_chats C N chats) (\<lambda>resps.
          bindM (forM execs (\<lambda>w. run_executor C N (wi_idx w) (wi_user w) (wi_system w) (wi_before w))) (\<lambda>_.
          bindM (forM chats (\<lambda>w. finalize_chat C N (wi_idx w) (reply_of resps (wi_idx w)) (wi_before w))) (\<lambda>stops.
          retM (case rev (filter snd (zip chats stops)) of
                  [] \<Rightarrow> None | (w, _) # _ \<Rightarrow> Some (reply_of resps (wi_idx w)))))))"

definition stop_error :: "py_builtins \<Rightarrow> chat_outcome \<Rightarrow> string" where
  "stop_error B outcome = (case outcome of
     ChatReply resp \<Rightarrow> py_str B (jor (jget (as_dict resp) ''error'') (JStr ''Spend limit exceeded''))
   | ChatRaised e \<Rightarrow> str_or e ''Spend limit exceeded'')"

text \<open>A spent budget ends the chain: every role not finalized fails with the same error, without a call.\<close>

definition stop_rest :: "string \<Rightarrow> ma_state \<Rightarrow> ma_state" where
  "stop_rest error m =
     (let rest = filter (\<lambda>a. as_idx a \<notin> set (ma_done m)) (ma_items m)
      in m\<lparr>ma_items := map (\<lambda>a. if as_idx a \<in> set (ma_done m) then a else a\<lparr>as_error := error, as_ok := False\<rparr>) (ma_items m),
           ma_done := ma_done m @ dict_fromkeys (map as_idx rest)\<rparr>)"

fun run_waves :: "ma_cfg \<Rightarrow> ma_env \<Rightarrow> int list list \<Rightarrow> unit ma" where
  "run_waves C N [] = retM ()"
| "run_waves C N (w # ws) =
     bindM (run_wave C N w) (\<lambda>stop. case stop of
       Some reply \<Rightarrow> modM (stop_rest (stop_error (ge_builtins (me_gateway N)) reply))
     | None \<Rightarrow> run_waves C N ws)"

definition close_run :: "ma_cfg \<Rightarrow> ma_env \<Rightarrow> unit ma" where
  "close_run C N =
     seqM (planM recompute_plan_status)
     (seqM (saveM N)
     (modM (\<lambda>m. if tracking C
        then m\<lparr>ma_runs := finish_run_record (me_run_disk N (ma_tick m)) (me_now N (ma_tick m)) (mc_task_id C)
               (snd (evaluate_multiagent_outcome (ma_items m) True)) [] (step_snapshot m) (ma_runs m),
               ma_tick := Suc (ma_tick m)\<rparr>
        else m)))"

section \<open>The set-up and the whole run\<close>

definition has_cwd :: "ma_cfg \<Rightarrow> bool" where "has_cwd C \<longleftrightarrow> strip (mc_cwd C) \<noteq> []"

definition setup_mode :: "ma_cfg \<Rightarrow> assignment \<Rightarrow> string \<times> string" where
  "setup_mode C a =
     (let hybrid_on = hybrid_active (mc_hybrid_code_gen C) (has_cwd C) (mc_hybrid_require_cwd C);
          (mode, reason) = resolve_role_mode (as_role a) hybrid_on (mc_requires_code_gen C) (as_execution a) False (mc_executor_roles C)
      in if mode = ''executor'' \<and> \<not> has_cwd C then (''chat'', ''no_cwd'') else (mode, reason))"

definition with_modes :: "ma_cfg \<Rightarrow> assignment list \<Rightarrow> assignment list" where
  "with_modes C = map (\<lambda>a. a\<lparr>as_mode := fst (setup_mode C a), as_mode_reason := snd (setup_mode C a)\<rparr>)"

definition run_plan_id :: "ma_cfg \<Rightarrow> ma_env \<Rightarrow> string" where
  "run_plan_id C N = ''a2a-'' @ (if mc_task_id C \<noteq> [] then mc_task_id C else me_task_hash N)"

definition attach_plan :: "ma_cfg \<Rightarrow> ma_env \<Rightarrow> unit ma" where
  "attach_plan C N =
     (if \<not> plan_gates_enabled (mc_plan C) then modM (\<lambda>m. m\<lparr>ma_plan := None, ma_gates := False\<rparr>)
      else bindM (readM (\<lambda>m. assignments_to_plan (mc_task C) (ma_items m) (run_plan_id C N) (mc_task_id C) (mc_cwd C)
                    (mc_plan C) (ma_role_modes m))) (\<lambda>p.
           let mode = (case mc_plan C of None \<Rightarrow> ''shadow'' | Some pc \<Rightarrow> lower (str_or (pc_mode pc) ''shadow''))
           in case validate p of
                Inl _ \<Rightarrow> modM (\<lambda>m. m\<lparr>ma_plan := None, ma_gates := False, ma_mode := mode\<rparr>)
              | Inr _ \<Rightarrow> seqM (modM (\<lambda>m. m\<lparr>ma_plan := Some p, ma_gates := True, ma_mode := mode\<rparr>)) (saveM N)))"

definition start_tracking :: "ma_cfg \<Rightarrow> ma_env \<Rightarrow> unit ma" where
  "start_tracking C N = modM (\<lambda>m. if tracking C
     then m\<lparr>ma_runs := snd (start_run (me_run_disk N (ma_tick m)) (me_now N (ma_tick m)) (mc_task_id C) (mc_task C)
              (map as_role (ma_items m)) (case ma_plan m of Some p \<Rightarrow> plan_id p | None \<Rightarrow> []) []
              (map (\<lambda>a. graph_node N m a None) (ma_items m))
              (concat (map (\<lambda>a. map (\<lambda>d. [(''from'', JStr (node_name d)), (''to'', JStr (node_name (as_idx a))),
                 (''status'', JStr ''pending'')]) (as_depends_on a)) (ma_items m)))
              (ma_runs m)), ma_tick := Suc (ma_tick m)\<rparr>
     else m)"

definition setup_plan_and_modes :: "ma_cfg \<Rightarrow> ma_env \<Rightarrow> unit ma" where
  "setup_plan_and_modes C N =
     seqM (modM (\<lambda>m. m\<lparr>ma_gw := (ma_gw m)\<lparr>gw_health := snd (apply_env_provider_exclusions
             (ge_health (me_gateway N) (gw_tick (ma_gw m))) (gw_health (ma_gw m)))\<rparr>\<rparr>))
     (seqM (modM (\<lambda>m. m\<lparr>ma_items := with_modes C (ma_items m),
              ma_role_modes := map_of (rev (map (\<lambda>a. (as_idx a, as_mode a)) (with_modes C (ma_items m))))\<rparr>))
     (seqM (attach_plan C N) (start_tracking C N)))"

definition local_waves :: "ma_cfg \<Rightarrow> assignment list \<Rightarrow> int list list" where
  "local_waves C items = map (map as_idx) (if use_parallel C then build_waves items else map (\<lambda>a. [a]) items)"

definition run_local :: "ma_cfg \<Rightarrow> ma_env \<Rightarrow> unit ma" where
  "run_local C N =
     seqM (setup_plan_and_modes C N)
     (bindM (readM (\<lambda>m. local_waves C (ma_items m))) (\<lambda>waves.
      seqM (run_waves C N waves) (close_run C N)))"

text \<open>A new \<^verbatim>\<open>_LocalRun\<close>: the plan store, the run records and the gateway outlive it.\<close>

definition new_local_run :: "assignment list \<Rightarrow> plan_dir \<Rightarrow> runs_dir \<Rightarrow> gw \<Rightarrow> ma_state" where
  "new_local_run items d runs g = \<lparr>ma_items = items, ma_done = [], ma_role_modes = Map.empty, ma_notes = [], ma_plan = None,
     ma_gates = False, ma_mode = ''off'', ma_dir = d, ma_runs = runs, ma_gw = g, ma_memory = [], ma_execs = [], ma_tick = 0\<rparr>"

end
