(* ===== verification/Multi_Agent_Results.thy ===== *)
theory Multi_Agent_Results
  imports Multi_Agent Runner_Safety
begin

text \<open>
  What a multi-agent run guarantees.  \<open>ma_relation\<close> is the contract between the primitive steps of a
  run and the relations they respect; it is interpreted on \<open>owned S\<close> (only the roles in \<open>S\<close>, their plan
  steps and their log entries change) and on \<open>quiet\<close> (no provider call and no executor run).
\<close>

section \<open>Computations that respect a relation\<close>

definition keeps :: "(ma_state \<Rightarrow> ma_state \<Rightarrow> bool) \<Rightarrow> 'a ma \<Rightarrow> bool" where
  "keeps R f \<longleftrightarrow> (\<forall>m. R m (fst (f m)))"

lemma keepsD: "keeps R f \<Longrightarrow> f m = (m', r) \<Longrightarrow> R m m'"
  unfolding keeps_def by (metis fst_conv)

locale ma_relation =
  fixes R :: "ma_state \<Rightarrow> ma_state \<Rightarrow> bool"
  assumes R_refl: "R m m"
    and R_trans: "R m m1 \<Longrightarrow> R m1 m2 \<Longrightarrow> R m m2"
    and R_tick: "R m (m\<lparr>ma_tick := n\<rparr>)"
begin

lemma keeps_ret: "keeps R (retM x)" and keeps_raise: "keeps R (raiseM r)" and keeps_ask: "keeps R (askM f)"
  and keeps_step: "keeps R (stepM sid)" and keeps_read: "keeps R (readM h)"
  by (simp_all add: keeps_def retM_def raiseM_def askM_def stepM_def readM_def R_refl R_tick split: option.split)

lemma keeps_bind:
  assumes "keeps R f" "\<And>x. keeps R (g x)"
  shows "keeps R (bindM f g)"
  unfolding keeps_def
proof
  fix m
  obtain m1 r where f: "f m = (m1, r)" by fastforce
  have "R m m1" by (rule keepsD [OF assms(1) f])
  moreover have "R m1 (fst (g x m1))" for x using assms(2) unfolding keeps_def by blast
  ultimately show "R m (fst (bindM f g m))"
    by (cases r) (auto simp: bindM_def f intro: R_trans)
qed

lemma keeps_seq: "keeps R f \<Longrightarrow> keeps R g \<Longrightarrow> keeps R (seqM f g)"
  unfolding seqM_def by (rule keeps_bind)

text \<open>What is read is a function of the state it is read in.\<close>

lemma keeps_bind_read: "(\<And>m. keeps R (g (h m))) \<Longrightarrow> keeps R (bindM (readM h) g)"
  by (simp add: keeps_def bindM_def readM_def)

lemma keeps_mod: "(\<And>m. R m (f m)) \<Longrightarrow> keeps R (modM f)"
  by (simp add: keeps_def modM_def)

lemma keeps_for: "(\<And>x. x \<in> set xs \<Longrightarrow> keeps R (f x)) \<Longrightarrow> keeps R (forM xs f)"
  by (induction xs) (auto intro!: keeps_bind keeps_ret)

lemma keeps_if: "(b \<Longrightarrow> keeps R f) \<Longrightarrow> (\<not> b \<Longrightarrow> keeps R g) \<Longrightarrow> keeps R (if b then f else g)"
  by simp

lemma keeps_option: "keeps R f \<Longrightarrow> (\<And>x. keeps R (g x)) \<Longrightarrow> keeps R (case v of None \<Rightarrow> f | Some x \<Rightarrow> g x)"
  by (simp split: option.split)

lemmas keeps_rules = keeps_ret keeps_raise keeps_ask keeps_step keeps_bind_read keeps_bind keeps_seq keeps_if keeps_option

end

section \<open>Moves of one step of the plan\<close>

definition moves_at :: "string \<Rightarrow> plan \<Rightarrow> plan \<Rightarrow> bool" where
  "moves_at sid p q \<longleftrightarrow> plan_moves p q \<and> (\<forall>x. x \<noteq> sid \<longrightarrow> status_of q x = status_of p x)"

lemma moves_at_refl [simp]: "moves_at sid p p"
  by (simp add: moves_at_def)

lemma moves_at_trans: "moves_at sid p q \<Longrightarrow> moves_at sid q r \<Longrightarrow> moves_at sid p r"
  unfolding moves_at_def by (metis rtranclp_trans)

lemma moves_at_transition: "transition p sid t e sk False now = Inr q \<Longrightarrow> moves_at sid p q"
  unfolding moves_at_def by (auto intro: engine simp: transition_status_of)

lemma moves_at_evidence:
  "(\<And>s. step_id (f s) = step_id s \<and> depends_on (f s) = depends_on s \<and> step_status (f s) = step_status s) \<Longrightarrow>
     moves_at sid p (upd_step sid f p)"
  unfolding moves_at_def by (auto intro: evidence simp: status_of_evidence)

lemma moves_at_same: "steps q = steps p \<Longrightarrow> moves_at sid p q"
  unfolding moves_at_def by (auto intro: bookkeeping simp: status_of_def)

lemma moves_at_recompute: "moves_at sid p (recompute_plan_status p)" and moves_at_stamp: "moves_at sid p (stamp now p)"
  by (rule moves_at_same; simp)+

lemma moves_at_mark: "moves_at sid p (fst (mark_execution_finished p sid ok err out touched now))"
proof (cases "get_step p sid")
  case (Inr s)
  define p1 where "p1 = (if out \<noteq> [] then upd_step sid (\<lambda>s. s\<lparr>step_output := take 50000 out\<rparr>) p else p)"
  define p2 where "p2 = (case touched of None \<Rightarrow> p1 | Some fs \<Rightarrow> upd_step sid (\<lambda>s. s\<lparr>files_touched := fs\<rparr>) p1)"
  have "moves_at sid p p1" by (simp add: p1_def moves_at_evidence)
  moreover have "moves_at sid p1 p2" by (cases touched) (simp_all add: p2_def moves_at_evidence)
  ultimately have 2: "moves_at sid p p2" by (rule moves_at_trans)
  have "moves_at sid p r" if "transition p2 sid t e False False now = Inr r" for r t e
    by (rule moves_at_trans [OF 2 moves_at_transition [OF that]])
  then show ?thesis using 2 Inr
    by (simp add: mark_execution_finished_def flip: p1_def p2_def split: sum.split)
qed (simp add: mark_execution_finished_def)

lemma moves_at_advance: "advance_after_done p sid now = Inr q \<Longrightarrow> moves_at sid p q"
  by (auto simp: advance_after_done_def intro: moves_at_transition split: sum.splits if_splits)

lemma moves_at_complete: "moves_at sid p (fst (complete_verification E p sid base stop now))"
proof -
  have "status_of q x = status_of p x" if c: "complete_verification E p sid base stop now = (q, r)" and x: "x \<noteq> sid" for q r x
    using c x verify_step_moves(2) transition_status_of
    by (fastforce simp: complete_verification_def split: sum.splits prod.splits if_splits)
  then show ?thesis unfolding moves_at_def using complete_verification_moves by (metis prod.collapse)
qed

text \<open>The soft opening of a failed step.\<close>

lemma moves_at_soft:
  assumes "get_step p sid = Inr s" "step_status s = FAILED"
  shows "moves_at sid p (recompute_plan_status (upd_step sid (\<lambda>s. s\<lparr>step_status := VERIFIED\<rparr>) p))"
proof (rule moves_at_trans [OF _ moves_at_recompute])
  show "moves_at sid p (upd_step sid (\<lambda>s. s\<lparr>step_status := VERIFIED\<rparr>) p)"
    unfolding moves_at_def using assms soft [OF assms] by (auto simp: status_of_soft)
qed

section \<open>What belongs to one role\<close>

text \<open>
  What a run keeps of the role \<open>i\<close>: the object, whether it is finalized, whether its executor ran, and
  the status of its plan step.
\<close>

definition role_view :: "ma_state \<Rightarrow> int \<Rightarrow> assignment \<times> bool \<times> bool \<times> string option option" where
  "role_view m i = (cur m i, i \<in> set (ma_done m), i \<in> fst ` set (ma_execs m),
     map_option (\<lambda>p. status_of p (step_id_of m i)) (ma_plan m))"

definition fixed_part :: "ma_state \<Rightarrow> (int \<times> string \<times> int list) list \<times> (int \<rightharpoonup> string) \<times> bool \<times> string" where
  "fixed_part m = (map (\<lambda>a. (as_idx a, as_role a, as_depends_on a)) (ma_items m), ma_role_modes m, ma_gates m, ma_mode m)"

definition plan_rel :: "(string \<Rightarrow> bool) \<Rightarrow> plan option \<Rightarrow> plan option \<Rightarrow> bool" where
  "plan_rel mine p q = (case p of
     None \<Rightarrow> q = None
   | Some p' \<Rightarrow> (case q of None \<Rightarrow> False
       | Some q' \<Rightarrow> plan_moves p' q' \<and> (\<forall>x. \<not> mine x \<longrightarrow> status_of q' x = status_of p' x)))"

definition mine :: "int set \<Rightarrow> string \<Rightarrow> bool" where
  "mine S x \<longleftrightarrow> (\<exists>i \<in> S. \<exists>r. x = assignment_step_id i r)"

definition grows :: "int set \<Rightarrow> int set \<Rightarrow> int set \<Rightarrow> bool" where
  "grows S A B \<longleftrightarrow> A \<subseteq> B \<and> B \<subseteq> A \<union> S"

lemma grows_refl [simp]: "grows S A A"
  by (simp add: grows_def)

lemma grows_trans: "grows S A B \<Longrightarrow> grows S B D \<Longrightarrow> grows S A D"
  unfolding grows_def by blast

lemma grows_mono: "grows S A B \<Longrightarrow> S \<subseteq> T \<Longrightarrow> grows T A B"
  unfolding grows_def by blast

lemma grows_iff: "grows S A B \<Longrightarrow> i \<notin> S \<Longrightarrow> i \<in> B \<longleftrightarrow> i \<in> A"
  unfolding grows_def by blast

definition owned :: "int set \<Rightarrow> ma_state \<Rightarrow> ma_state \<Rightarrow> bool" where
  "owned S m m' \<longleftrightarrow> fixed_part m' = fixed_part m \<and> (\<forall>j. j \<notin> S \<longrightarrow> cur m' j = cur m j) \<and>
     grows S (set (ma_done m)) (set (ma_done m')) \<and> (distinct (ma_done m) \<longrightarrow> distinct (ma_done m')) \<and>
     grows S (fst ` set (ma_execs m)) (fst ` set (ma_execs m')) \<and>
     plan_rel (mine S) (ma_plan m) (ma_plan m')"

lemma plan_rel_refl [simp]: "plan_rel A p p"
  by (simp add: plan_rel_def split: option.split)

lemma plan_rel_trans: "plan_rel A p q \<Longrightarrow> plan_rel A q r \<Longrightarrow> plan_rel A p r"
  unfolding plan_rel_def by (auto split: option.splits)

lemma owned_refl [simp]: "owned S m m"
  by (simp add: owned_def)

lemma owned_trans: "owned S m m1 \<Longrightarrow> owned S m1 m2 \<Longrightarrow> owned S m m2"
  using grows_trans [of S "set (ma_done m)" "set (ma_done m1)" "set (ma_done m2)"]
    grows_trans [of S "fst ` set (ma_execs m)" "fst ` set (ma_execs m1)" "fst ` set (ma_execs m2)"]
    plan_rel_trans [of "mine S" "ma_plan m" "ma_plan m1" "ma_plan m2"]
  unfolding owned_def by simp

lemma plan_rel_mono: "plan_rel (mine S) p q \<Longrightarrow> S \<subseteq> T \<Longrightarrow> plan_rel (mine T) p q"
  unfolding plan_rel_def mine_def by (auto split: option.splits)

lemma owned_mono: "owned S m m' \<Longrightarrow> S \<subseteq> T \<Longrightarrow> owned T m m'"
  using grows_mono [of S _ _ T] plan_rel_mono [of S _ _ T] unfolding owned_def by (simp add: subset_iff) metis

interpretation owns: ma_relation "owned S" for S
proof
  show "owned S m m1 \<Longrightarrow> owned S m1 m2 \<Longrightarrow> owned S m m2" for m m1 m2 by (rule owned_trans)
  show "owned S m (m\<lparr>ma_tick := n\<rparr>)" for m n
    by (simp add: owned_def fixed_part_def cur_def)
qed simp

text \<open>No two roles share a step, so what is not in \<open>S\<close> looks the same afterwards.\<close>

lemma not_mine: "i \<notin> S \<Longrightarrow> \<not> mine S (assignment_step_id i r)"
  using assignment_step_id_inj by (fastforce simp: mine_def)

lemma owned_view:
  assumes "owned S m m'" "i \<notin> S"
  shows "role_view m' i = role_view m i"
proof -
  have c: "cur m' i = cur m i" using assms by (simp add: owned_def)
  have st: "map_option (\<lambda>p. status_of p (assignment_step_id i r)) (ma_plan m') =
      map_option (\<lambda>p. status_of p (assignment_step_id i r)) (ma_plan m)" for r
    using assms not_mine [OF assms(2)] unfolding owned_def plan_rel_def by (auto split: option.splits)
  have "(i \<in> set (ma_done m')) = (i \<in> set (ma_done m))" "(i \<in> fst ` set (ma_execs m')) = (i \<in> fst ` set (ma_execs m))"
    using assms(1) grows_iff [OF _ assms(2)] unfolding owned_def by blast+
  then show ?thesis using c st by (simp add: role_view_def step_id_of_def)
qed

section \<open>The primitive steps\<close>

lemma cur_idx [simp]: "as_idx (cur m i) = i"
  by (auto simp: cur_def new_assignment_def dest: find_SomeD split: option.split)

lemma cur_upd:
  assumes "\<And>a. as_idx a = i \<Longrightarrow> as_idx (f a) = i"
  shows "cur (m\<lparr>ma_items := upd_first (\<lambda>a. as_idx a = i) f (ma_items m)\<rparr>) j =
    (if j = i \<and> i \<in> set (map as_idx (ma_items m)) then f (cur m i) else cur m j)"
proof (cases "j = i")
  case True
  then show ?thesis
    using assms find_key_None [of as_idx i "ma_items m"]
    by (auto simp: cur_def find_upd_first_same split: option.split)
next
  case False
  then have "find (\<lambda>a. as_idx a = j) (upd_first (\<lambda>a. as_idx a = i) f (ma_items m)) = find (\<lambda>a. as_idx a = j) (ma_items m)"
    using assms by (intro find_upd_first_other) auto
  then show ?thesis using False by (simp add: cur_def)
qed

lemma map_upd_find:
  assumes "\<And>x. find P xs = Some x \<Longrightarrow> g (f x) = g x"
  shows "map g (upd_first P f xs) = map g xs"
  using assms by (induction xs) auto

definition same_identity :: "assignment \<Rightarrow> assignment \<Rightarrow> bool" where
  "same_identity a b \<longleftrightarrow> as_idx b = as_idx a \<and> as_role b = as_role a \<and> as_depends_on b = as_depends_on a"

lemma owned_items:
  assumes "\<And>a. as_idx a = i \<Longrightarrow> as_idx (f a) = i" "same_identity (cur m i) (f (cur m i))" "i \<in> S"
  shows "owned S m (m\<lparr>ma_items := upd_first (\<lambda>a. as_idx a = i) f (ma_items m)\<rparr>)"
proof -
  have "map (\<lambda>a. (as_idx a, as_role a, as_depends_on a)) (upd_first (\<lambda>a. as_idx a = i) f (ma_items m)) =
      map (\<lambda>a. (as_idx a, as_role a, as_depends_on a)) (ma_items m)"
    using assms(2) by (intro map_upd_find) (auto simp: same_identity_def cur_def)
  then show ?thesis using assms(3) by (auto simp: owned_def fixed_part_def cur_upd [OF assms(1)])
qed

lemma keeps_upd_item:
  "(\<And>a. as_idx a = i \<Longrightarrow> same_identity a (f a)) \<Longrightarrow> keeps (owned {i}) (upd_item i f)"
  unfolding upd_item_def by (intro owns.keeps_mod owned_items) (auto simp: same_identity_def)

lemma sync_frame:
  "sync_assignment_plan_fields a s = Inr a' \<Longrightarrow>
     same_identity a a' \<and> as_ok a' = as_ok a \<and> as_files a' = as_files a \<and> as_mode a' = as_mode a"
  unfolding sync_assignment_plan_fields_def
  by (cases "if verify_log s \<noteq> [] then map_sum id Some (all_entries_ok (verify_log s)) else Inr (if acceptance s = [] then None else Some True)")
    (auto simp: Let_def same_identity_def split: if_splits)

lemma keeps_sync: "keeps (owned {i}) (sync_item i s)"
  unfolding keeps_def
proof
  fix m
  show "owned {i} m (fst (sync_item i s m))"
  proof (cases "sync_assignment_plan_fields (cur m i) s")
    case (Inr a)
    have "same_identity (cur m i) a" using sync_frame [OF Inr] by simp
    then have "owned {i} m (m\<lparr>ma_items := upd_first (\<lambda>b. as_idx b = i) (\<lambda>_. a) (ma_items m)\<rparr>)"
      by (intro owned_items) (auto simp: same_identity_def)
    then show ?thesis by (simp add: sync_item_def Inr)
  qed (simp add: sync_item_def)
qed

text \<open>Writes outside the roles and the plan.\<close>

lemma owned_frame:
  "ma_items m' = ma_items m \<Longrightarrow> ma_role_modes m' = ma_role_modes m \<Longrightarrow> ma_gates m' = ma_gates m \<Longrightarrow> ma_mode m' = ma_mode m \<Longrightarrow>
   ma_done m' = ma_done m \<Longrightarrow> ma_execs m' = ma_execs m \<Longrightarrow> ma_plan m' = ma_plan m \<Longrightarrow> owned S m m'"
  by (simp add: owned_def fixed_part_def cur_def)

lemma keeps_beat: "keeps (owned S) (beat C N i)" and keeps_activate: "keeps (owned S) (activate C N i mode)"
  unfolding beat_def activate_def
  by (intro owns.keeps_mod owned_frame; simp add: send_beat_def send_node_def)+

lemma keeps_done: "keeps (owned {i}) (mark_done i)"
  unfolding mark_done_def by (intro owns.keeps_mod) (auto simp: owned_def fixed_part_def cur_def grows_def)

lemma keeps_finalize: "keeps (owned {i}) (finalize C N i)"
  unfolding finalize_def by (intro owns.keeps_seq keeps_done keeps_beat)

lemma keeps_exclude: "keeps (owned S) (excludeM N i)" and keeps_remember: "keeps (owned S) (remember C i d)"
  unfolding excludeM_def remember_def by (intro owns.keeps_mod owned_frame; simp add: Let_def)+

text \<open>Writes to the plan.\<close>

lemma owned_plan:
  assumes "ma_plan m = Some p" "moves_at sid p q" "sid = assignment_step_id i r"
  shows "owned {i} m (m\<lparr>ma_plan := Some q, ma_tick := n\<rparr>)" "owned {i} m (m\<lparr>ma_plan := Some q\<rparr>)"
  using assms by (auto simp: owned_def fixed_part_def cur_def plan_rel_def mine_def moves_at_def)

lemma keeps_save: "keeps (owned S) (saveM N)"
proof -
  have "plan_rel (mine S) (Some p) (Some (stamp now p))" for p now
    using stamp_move [of p now] by (auto simp: plan_rel_def status_of_def)
  then show ?thesis
    unfolding keeps_def saveM_def
    by (auto simp: owned_def fixed_part_def cur_def dest!: save_plan_result split: option.split prod.split)
qed

lemma keeps_engine:
  "(\<And>now p q. f now p = Inr q \<Longrightarrow> moves_at (assignment_step_id i r) p q) \<Longrightarrow> keeps (owned {i}) (engineM N f)"
  unfolding keeps_def engineM_def
  by (auto intro: owned_plan(1) owns.R_tick split: option.split sum.split)

lemma keeps_engine2:
  assumes "\<And>n now p. moves_at (assignment_step_id i r) p (fst (f n now p))"
  shows "keeps (owned {i}) (engine2M N f)"
  unfolding keeps_def
proof
  fix m
  show "owned {i} m (fst (engine2M N f m))"
  proof (cases "ma_plan m")
    case (Some p)
    obtain q e where f: "f (ma_tick m) (me_now N (ma_tick m)) p = (q, e)" by fastforce
    then have "moves_at (assignment_step_id i r) p q" using assms [of p "ma_tick m" "me_now N (ma_tick m)"] by simp
    from owned_plan(1) [OF Some this refl] show ?thesis by (simp add: engine2M_def Some f)
  qed (simp add: engine2M_def)
qed

lemma keeps_planM:
  "(\<And>p. moves_at (assignment_step_id i r) p (f p)) \<Longrightarrow> keeps (owned {i}) (planM f)"
  unfolding planM_def
proof (intro owns.keeps_mod)
  fix m assume h: "\<And>p. moves_at (assignment_step_id i r) p (f p)"
  show "owned {i} m (m\<lparr>ma_plan := map_option f (ma_plan m)\<rparr>)"
    using owned_plan(2) [of m _ "assignment_step_id i r" _ i r] h
    by (cases "ma_plan m") (auto intro: owned_frame)
qed

lemma keeps_open: "keeps (owned {i}) (shadow_open (assignment_step_id i r))"
  unfolding shadow_open_def
  by (intro owns.keeps_mod) (auto intro: owned_plan(2) [OF _ moves_at_soft refl] split: option.split sum.split)

lemma step_id_of_eq: "step_id_of m i = assignment_step_id i (as_role (cur m i))"
  by (simp add: step_id_of_def)

section \<open>The operations on one role\<close>

lemma keeps_verify: "keeps (owned {i}) (verify_role C N i (assignment_step_id i r) content before)"
  unfolding verify_role_def
  by (intro owns.keeps_rules keeps_open keeps_engine2 [where r = r])
    (simp add: case_prod_beta moves_at_complete split: sum.split)

lemma keeps_settle: "keeps (owned {i}) (settle_role N i sid)"
  unfolding settle_role_def
  by (intro owns.keeps_rules keeps_sync keeps_upd_item keeps_save) (simp_all add: same_identity_def)

lemma keeps_finish: "keeps (owned {i}) (finish_step_plan C N i exec_ok before)"
  unfolding finish_step_plan_def step_id_of_eq
  by (intro owns.keeps_bind_read, simp only: prod.case,
      intro owns.keeps_rules keeps_sync keeps_save keeps_settle keeps_verify keeps_planM keeps_engine keeps_engine2 moves_at_mark)
    (auto intro: moves_at_evidence moves_at_mark moves_at_advance moves_at_transition)

lemma keeps_skip: "keeps (owned {i}) (skip_role C N i error mode reason)"
  unfolding skip_role_def
  by (intro owns.keeps_rules keeps_upd_item keeps_finalize) (simp add: same_identity_def)

lemma keeps_start: "keeps (owned {i}) (start_step C N i)"
  unfolding start_step_def step_id_of_eq
  by (intro owns.keeps_bind_read, simp only: prod.case,
      intro owns.keeps_rules keeps_upd_item keeps_finalize keeps_save keeps_engine, unfold Let_def,
      intro owns.keeps_rules keeps_upd_item keeps_finalize)
    (auto simp: same_identity_def intro: moves_at_transition)

lemma keeps_prompt: "keeps (owned S) (user_prompt C N i)"
  unfolding user_prompt_def Let_def
  by (intro owns.keeps_bind_read, simp only: prod.case, intro owns.keeps_rules)

lemma keeps_notes: "keeps (owned S) (modM (\<lambda>m. m\<lparr>ma_notes := f m\<rparr>))"
  by (intro owns.keeps_mod owned_frame) simp_all

lemma keeps_prepare: "keeps (owned {i}) (prepare C N i)"
proof -
  have degrade: "keeps (owned {i}) (seqM (modM (\<lambda>m. m\<lparr>ma_notes := dict_set i roles (ma_notes m)\<rparr>))
      (upd_item i (\<lambda>a. a\<lparr>as_mode_reason := (if as_mode_reason a \<noteq> [] then as_mode_reason a @ ''+degraded_prior_failed''
          else ''degraded_prior_failed'')\<rparr>)))" for roles
    by (intro owns.keeps_seq keeps_notes keeps_upd_item) (simp add: same_identity_def)
  have verdict: "keeps (owned {i}) (case v of NoCode r \<Rightarrow> f r | PriorFailed r \<Rightarrow> g r | _ \<Rightarrow> h v)"
    if "\<And>r. keeps (owned {i}) (f r)" "\<And>r. keeps (owned {i}) (g r)" "keeps (owned {i}) (h v)" for v and f g h :: "_ \<Rightarrow> 'x ma"
    using that by (cases v) simp_all
  have deg: "keeps (owned {i}) (case v of Degraded r \<Rightarrow> f r | _ \<Rightarrow> retM ())" if "\<And>r. keeps (owned {i}) (f r)" for v f
    using that by (cases v) (simp_all add: owns.keeps_ret)
  show ?thesis
    unfolding prepare_def
    by (intro owns.keeps_bind_read, simp only: prod.case, rule verdict)
      (intro owns.keeps_rules keeps_skip keeps_start keeps_prompt deg degrade)+
qed

lemma keeps_delta: "keeps (owned {i}) (take_delta C N i always before fps)"
  unfolding take_delta_def
  by (intro owns.keeps_rules keeps_upd_item) (simp add: same_identity_def)

lemma take_reply_identity [simp]: "same_identity a (take_reply r a)" "same_identity a (honest C a)"
  by (simp_all add: take_reply_def honest_def same_identity_def Let_def)

lemma keeps_exec_log: "keeps (owned {i}) (modM (\<lambda>m. m\<lparr>ma_execs := ma_execs m @ [(i, e)]\<rparr>))"
  by (intro owns.keeps_mod) (auto simp: owned_def fixed_part_def cur_def grows_def)

lemma keeps_crash: "keeps (owned {i}) (crash_executor C N i e before fps)"
  unfolding crash_executor_def
  by (intro owns.keeps_rules keeps_upd_item keeps_delta keeps_finish keeps_finalize) (simp add: same_identity_def)

lemma keeps_close: "keeps (owned {i}) (close_executor C N i before fps)"
  unfolding close_executor_def
  by (intro owns.keeps_rules keeps_upd_item keeps_delta keeps_finish keeps_finalize) simp

lemma keeps_executor: "keeps (owned {i}) (run_executor C N i user system before)"
proof -
  have outcome: "keeps (owned {i}) (case v of RunnerRaises e \<Rightarrow> f e | RunnerReply r \<Rightarrow> g r | RunnerText t \<Rightarrow> h t)"
    if "\<And>e. keeps (owned {i}) (f e)" "\<And>r. keeps (owned {i}) (g r)" "\<And>t. keeps (owned {i}) (h t)" for v and f g h :: "_ \<Rightarrow> unit ma"
    using that by (cases v) simp_all
  show ?thesis
    unfolding run_executor_def
    by (intro owns.keeps_bind owns.keeps_ask, simp only: split_beta,
        intro owns.keeps_rules keeps_exec_log outcome keeps_crash keeps_close keeps_upd_item)
      (simp | simp add: same_identity_def)+
qed

lemma fallback_identity:
  assumes "chat_with_provider_fallback E C show_exn rq a g = (resp, a', g')"
  shows "same_identity a a' \<and> as_ok a' = as_ok a \<and> as_mode a' = as_mode a \<and> as_files a' = as_files a"
proof -
  have "a' = a \<or> (\<exists>p. a' = moved_to a p)"
  proof -
    obtain ps g1 where "try_providers E C show_exn rq a [] ps g1 = (resp, a', g')"
      using assms by (auto simp: chat_with_provider_fallback_def split: prod.splits)
    from try_providers_result [OF this] show ?thesis by (auto split: if_splits)
  qed
  then show ?thesis by (elim disjE exE) (simp_all add: same_identity_def moved_to_def)
qed

lemma keeps_chat: "keeps (owned {i}) (chat_call N i user system)"
proof -
  have "keeps (owned {i}) (\<lambda>m. case chat_with_provider_fallback (me_gateway N) (me_gateway_cfg N) (me_show N)
        (me_request N (cur m i) user system) (cur m i) (ma_gw m) of
      (resp, a, g) \<Rightarrow> (m\<lparr>ma_items := upd_first (\<lambda>b. as_idx b = i) (\<lambda>_. a) (ma_items m), ma_gw := g\<rparr>, Inr (ChatReply resp)))"
    unfolding keeps_def
  proof
    fix m
    obtain resp a g where c: "chat_with_provider_fallback (me_gateway N) (me_gateway_cfg N) (me_show N)
        (me_request N (cur m i) user system) (cur m i) (ma_gw m) = (resp, a, g)" by (metis prod.exhaust)
    have "same_identity (cur m i) a" using fallback_identity [OF c] by simp
    then have "owned {i} m (m\<lparr>ma_items := upd_first (\<lambda>b. as_idx b = i) (\<lambda>_. a) (ma_items m)\<rparr>)"
      by (intro owned_items) (auto simp: same_identity_def)
    then have "owned {i} m ((m\<lparr>ma_items := upd_first (\<lambda>b. as_idx b = i) (\<lambda>_. a) (ma_items m)\<rparr>)\<lparr>ma_gw := g\<rparr>)"
      by (rule owned_trans) (intro owned_frame; simp)
    then show "owned {i} m (fst (case chat_with_provider_fallback (me_gateway N) (me_gateway_cfg N) (me_show N)
        (me_request N (cur m i) user system) (cur m i) (ma_gw m) of
      (resp, a, g) \<Rightarrow> (m\<lparr>ma_items := upd_first (\<lambda>b. as_idx b = i) (\<lambda>_. a) (ma_items m), ma_gw := g\<rparr>, Inr (ChatReply resp))))"
      by (simp add: c)
  qed
  then show ?thesis unfolding chat_call_def by (intro owns.keeps_rules)
qed

lemma failed_chat_identity [simp]: "same_identity a (failed_chat e a)"
  by (simp add: failed_chat_def same_identity_def)

lemma keeps_finalize_chat: "keeps (owned {i}) (finalize_chat C N i outcome before)"
  unfolding finalize_chat_def Let_def
  by (cases outcome; simp only: chat_outcome.case; intro owns.keeps_rules keeps_upd_item keeps_exclude keeps_remember
      keeps_finish keeps_finalize) (simp | simp add: same_identity_def)+

lemma keeps_dispatch: "keeps (owned {i}) (dispatch_mode C N i)"
proof -
  have "keeps (owned {i}) (\<lambda>m. upd_item i (f m) m)" if "\<And>m a. as_idx a = i \<Longrightarrow> same_identity a (f m a)" for f
    using keeps_upd_item [of i] that unfolding keeps_def by blast
  then show ?thesis
    unfolding dispatch_mode_def
    by (intro owns.keeps_rules keeps_upd_item) (auto simp: same_identity_def)
qed

lemma keeps_prepare_item: "keeps (owned {i}) (prepare_item C N i)"
  unfolding prepare_item_def
  by (intro owns.keeps_bind keeps_prepare owns.keeps_option owns.keeps_ret, simp only: split_beta,
      intro owns.keeps_rules keeps_dispatch keeps_activate)

lemma keeps_call_item: "keeps (owned {i}) (call_item N ws i)"
  unfolding call_item_def by (intro owns.keeps_rules keeps_chat)

section \<open>Runs that return\<close>

lemma run_bind: "bindM f g m = (m', Inr y) \<longleftrightarrow> (\<exists>m1 x. f m = (m1, Inr x) \<and> g x m1 = (m', Inr y))"
  by (auto simp: bindM_def split: prod.splits sum.splits)

lemma run_seq: "seqM f g m = (m', Inr y) \<longleftrightarrow> (\<exists>m1. f m = (m1, Inr ()) \<and> g m1 = (m', Inr y))"
  by (simp add: seqM_def run_bind)

lemma run_read: "readM h m = (m', Inr y) \<longleftrightarrow> m' = m \<and> y = h m"
  by (auto simp: readM_def)

lemma run_ret: "retM x m = (m', Inr y) \<longleftrightarrow> m' = m \<and> y = x"
  by (auto simp: retM_def)

lemma run_mod: "modM f m = (m', Inr y) \<longleftrightarrow> m' = f m"
  by (auto simp: modM_def)

lemma run_raise: "raiseM r m = (m', Inr y) \<longleftrightarrow> m' = m \<and> r = Inr y"
  by (auto simp: raiseM_def)

lemma run_ask: "askM f m = (m', Inr y) \<longleftrightarrow> m' = m\<lparr>ma_tick := Suc (ma_tick m)\<rparr> \<and> y = f (ma_tick m)"
  by (auto simp: askM_def)

lemma run_step: "stepM sid m = (m', Inr t) \<longleftrightarrow> m' = m \<and> (\<exists>p. ma_plan m = Some p \<and> get_step p sid = Inr t)"
  by (auto simp: stepM_def split: option.splits)

lemmas run_simps = run_bind run_seq run_read run_ret run_mod run_raise run_ask run_step

lemma exec_simps [simp]:
  "bindM (readM h) g m = g (h m) m" "seqM (modM f) k m = k (f m)"
  "bindM (askM a) g m = g (a (ma_tick m)) (m\<lparr>ma_tick := Suc (ma_tick m)\<rparr>)"
  by (simp_all add: bindM_def seqM_def readM_def modM_def askM_def)

lemma cur_frame: "ma_items m' = ma_items m \<Longrightarrow> cur m' = cur m"
  by (simp add: cur_def fun_eq_iff)

lemma cur_tick [simp]: "cur (m\<lparr>ma_tick := n\<rparr>) = cur m" and cur_plan [simp]: "cur (m\<lparr>ma_plan := q\<rparr>) = cur m"
  by (rule cur_frame; simp)+

abbreviation idxs :: "ma_state \<Rightarrow> int set" where "idxs m \<equiv> as_idx ` set (ma_items m)"

lemma owned_idxs: "owned S m m' \<Longrightarrow> idxs m' = idxs m"
proof -
  assume "owned S m m'"
  then have "map fst (fst (fixed_part m')) = map fst (fst (fixed_part m))" by (simp add: owned_def)
  then have "map as_idx (ma_items m') = map as_idx (ma_items m)" by (simp add: fixed_part_def comp_def)
  then show ?thesis by (metis set_map)
qed

lemma owned_role: "owned S m m' \<Longrightarrow> as_role (cur m' i) = as_role (cur m i)"
proof -
  assume "owned S m m'"
  then have eq: "map (\<lambda>a. (as_idx a, as_role a, as_depends_on a)) (ma_items m') = map (\<lambda>a. (as_idx a, as_role a, as_depends_on a)) (ma_items m)"
    by (simp add: owned_def fixed_part_def)
  have "map_option as_role (find (\<lambda>a. as_idx a = i) xs) = map_option as_role (find (\<lambda>a. as_idx a = i) ys)"
    if "map (\<lambda>a. (as_idx a, as_role a, as_depends_on a)) xs = map (\<lambda>a. (as_idx a, as_role a, as_depends_on a)) ys" for xs ys
    using that by (induction xs arbitrary: ys) (auto simp: Cons_eq_map_conv)
  from this [OF eq] show ?thesis by (auto simp: cur_def new_assignment_def split: option.splits)
qed

lemma owned_plan_none: "owned S m m' \<Longrightarrow> ma_plan m' = None \<longleftrightarrow> ma_plan m = None"
  by (auto simp: owned_def plan_rel_def split: option.splits)

lemma upd_item_run:
  "upd_item i f m = (m', Inr u) \<Longrightarrow> (\<And>a. as_idx a = i \<Longrightarrow> as_idx (f a) = i) \<Longrightarrow>
     cur m' i = (if i \<in> idxs m then f (cur m i) else cur m i) \<and> ma_plan m' = ma_plan m \<and> ma_mode m' = ma_mode m \<and>
     ma_execs m' = ma_execs m \<and> ma_done m' = ma_done m"
  by (auto simp: upd_item_def run_mod cur_upd)

lemma sync_run:
  assumes "sync_item i s m = (m', Inr u)"
  shows "as_ok (cur m' i) = as_ok (cur m i)" "as_files (cur m' i) = as_files (cur m i)"
    "ma_plan m' = ma_plan m" "ma_mode m' = ma_mode m" "ma_execs m' = ma_execs m" "ma_done m' = ma_done m"
proof -
  obtain a where a: "sync_assignment_plan_fields (cur m i) s = Inr a"
    "m' = m\<lparr>ma_items := upd_first (\<lambda>b. as_idx b = i) (\<lambda>_. a) (ma_items m)\<rparr>"
    using assms by (auto simp: sync_item_def split: sum.splits)
  have f: "same_identity (cur m i) a" "as_ok a = as_ok (cur m i)" "as_files a = as_files (cur m i)" using sync_frame [OF a(1)] by auto
  then have "as_idx a = i" by (simp add: same_identity_def)
  then show "as_ok (cur m' i) = as_ok (cur m i)" "as_files (cur m' i) = as_files (cur m i)"
    using f unfolding a(2) by (simp_all add: cur_upd)
qed (use assms in \<open>auto simp: sync_item_def split: sum.splits\<close>)

lemma save_run:
  assumes "saveM N m = (m', Inr u)"
  shows "cur m' = cur m" "ma_execs m' = ma_execs m" "ma_done m' = ma_done m" "ma_mode m' = ma_mode m"
    "ma_plan m = Some p \<Longrightarrow> \<exists>q. ma_plan m' = Some q \<and> (\<forall>x. status_of q x = status_of p x)"
  using assms
  by (auto simp: saveM_def status_of_def intro!: cur_frame split: option.splits prod.splits dest!: save_plan_result)

lemma engine_run:
  assumes "engineM N f m = (m', Inr u)"
  shows "cur m' = cur m" "ma_execs m' = ma_execs m" "ma_done m' = ma_done m" "ma_mode m' = ma_mode m"
    "ma_plan m = Some p \<Longrightarrow> \<exists>q now. ma_plan m' = Some q \<and> f now p = Inr q"
  using assms by (auto simp: engineM_def intro!: cur_frame split: option.splits sum.splits)

lemma engine2_run:
  assumes "engine2M N f m = (m', Inr u)"
  shows "cur m' = cur m" "ma_execs m' = ma_execs m" "ma_done m' = ma_done m" "ma_mode m' = ma_mode m"
    "ma_plan m = Some p \<Longrightarrow> \<exists>q n now. ma_plan m' = Some q \<and> f n now p = (q, None)"
  using assms by (auto simp: engine2M_def intro!: cur_frame split: option.splits prod.splits) blast

section \<open>A finalized role is settled\<close>

text \<open>With plan gates, a role counts as successful only when its step of the plan is verified.\<close>

definition step_verified :: "plan option \<Rightarrow> string \<Rightarrow> bool" where
  "step_verified p sid \<longleftrightarrow> (\<forall>q. p = Some q \<longrightarrow> status_of q sid = Some VERIFIED)"

lemma settle_verified:
  assumes "settle_role N i sid m = (m', Inr u)" "i \<in> idxs m"
    and "ma_plan m = Some p" "status_of p sid \<in> {Some VERIFIED, Some FAILED}" "as_ok (cur m' i)"
  shows "step_verified (ma_plan m') sid"
proof -
  obtain t m1 m2 where t: "get_step p sid = Inr t" and m1: "sync_item i t m = (m1, Inr ())"
    and m2: "(if step_status t = FAILED
             then upd_item i (\<lambda>a. a\<lparr>as_ok := False, as_error := (if as_error a = []
                    then str_or (step_error t) ''plan verification failed'' else as_error a)\<rparr>)
             else if step_status t = VERIFIED \<and> ma_mode m1 = ''shadow'' \<and> verify_log t \<noteq> [] \<and> all_entries_ok (verify_log t) \<noteq> Inr True
             then upd_item i (\<lambda>a. a\<lparr>as_ok := True\<rparr>)
             else retM ()) m1 = (m2, Inr ())"
    and m3: "saveM N m2 = (m', Inr u)"
    using assms(1,3) by (auto simp: settle_role_def run_simps)
  have idx: "i \<in> idxs m1" using owned_idxs [OF keepsD [OF keeps_sync m1]] assms(2) by simp
  have p1: "ma_plan m1 = Some p" using sync_run(3) [OF m1] assms(3) by simp
  have p2: "ma_plan m2 = Some p"
    using m2 p1 by (auto simp: run_ret dest!: upd_item_run split: if_splits)
  have "step_status t \<noteq> FAILED"
  proof
    assume "step_status t = FAILED"
    then have "\<not> as_ok (cur m2 i)" using m2 idx by (auto dest!: upd_item_run)
    then show False using save_run(1) [OF m3] assms(5) by simp
  qed
  then have "status_of p sid = Some VERIFIED" using assms(4) status_of_get [OF t] by auto
  then show ?thesis using save_run(5) [OF m3 p2] by (auto simp: step_verified_def)
qed

lemma settle_files: "settle_role N i sid m = (m', Inr u) \<Longrightarrow> as_files (cur m' i) = as_files (cur m i)"
proof -
  assume r: "settle_role N i sid m = (m', Inr u)"
  obtain t m1 m2 where m1: "sync_item i t m = (m1, Inr ())"
    and m2: "(if step_status t = FAILED
             then upd_item i (\<lambda>a. a\<lparr>as_ok := False, as_error := (if as_error a = []
                    then str_or (step_error t) ''plan verification failed'' else as_error a)\<rparr>)
             else if step_status t = VERIFIED \<and> ma_mode m1 = ''shadow'' \<and> verify_log t \<noteq> [] \<and> all_entries_ok (verify_log t) \<noteq> Inr True
             then upd_item i (\<lambda>a. a\<lparr>as_ok := True\<rparr>)
             else retM ()) m1 = (m2, Inr ())"
    and m3: "saveM N m2 = (m', Inr u)"
    using r by (auto simp: settle_role_def run_simps)
  have "as_files (cur m2 i) = as_files (cur m1 i)"
    using m2 by (auto simp: run_ret dest!: upd_item_run split: if_splits)
  then show ?thesis using sync_run(2) [OF m1] save_run(1) [OF m3] by simp
qed

lemma verify_role_run:
  assumes "verify_role C N i sid content before m = (m', Inr u)" "ma_plan m = Some p" "get_step p sid = Inr s"
  shows "cur m' = cur m" "\<exists>q. ma_plan m' = Some q \<and> status_of q sid \<in> {Some VERIFIED, Some FAILED}"
proof -
  let ?m1 = "m\<lparr>ma_tick := Suc (ma_tick m)\<rparr>"
  define ctx where "ctx = empty_ctx\<lparr>vc_cwd := mc_cwd C, vc_output := content, vc_files_touched := verify_scope ?m1 i,
     vc_git_before := before, vc_git_after := git_porcelain (me_world N (ma_tick m)) (mc_cwd C),
     vc_command_timeout := (case mc_plan C of None \<Rightarrow> 60
       | Some pc \<Rightarrow> if pc_command_timeout pc = 0 then 60 else pc_command_timeout pc)\<rparr>"
  obtain m2 where v: "engine2M N (\<lambda>n now p. case complete_verification (me_world N n) p sid ctx False now of
         (q, Inl e) \<Rightarrow> (q, Some e) | (q, Inr x) \<Rightarrow> (q, None)) ?m1 = (m2, Inr ())"
    and o2: "shadow_open sid m2 = (m', Inr ())"
    using assms(1) unfolding verify_role_def run_simps ctx_def by auto
  have m1: "ma_plan ?m1 = Some p" "cur ?m1 = cur m" using assms(2) by simp_all
  obtain n now q where q': "(case complete_verification (me_world N n) p sid ctx False now of
      (q, Inl e) \<Rightarrow> (q, Some e) | (q, Inr x) \<Rightarrow> (q, None)) = (q, None)" and q2: "ma_plan m2 = Some q"
    using engine2_run(5) [OF v m1(1)] by blast
  obtain rs where "complete_verification (me_world N n) p sid ctx False now = (q, Inr rs)"
    using q' by (cases "complete_verification (me_world N n) p sid ctx False now") (auto split: sum.splits)
  note q = this q2
  obtain t where t: "get_step q sid = Inr t" "step_status t = (if rs = [] \<or> all_passed rs then VERIFIED else FAILED)"
    using complete_verification_Inr [OF q(1) assms(3)] by blast
  have c2: "cur m2 = cur m" using engine2_run(1) [OF v] m1(2) by simp
  show "cur m' = cur m"
    using o2 c2 by (auto simp: shadow_open_def run_mod split: option.splits sum.splits)
  show "\<exists>q. ma_plan m' = Some q \<and> status_of q sid \<in> {Some VERIFIED, Some FAILED}"
    using o2 q(2) t status_of_get [OF t(1)]
    by (auto simp: shadow_open_def run_mod status_of_upd get_step_Inr_iff split: if_splits)
qed

lemma plan_advance_status:
  assumes "advance_after_done p sid now = Inr q"
  shows "\<exists>s. get_step q sid = Inr s \<and> step_status s \<in> {VERIFYING, VERIFIED}"
proof -
  obtain t e where "transition p sid t e False False now = Inr q" "t \<in> {VERIFYING, VERIFIED}"
    using assms by (auto simp: advance_after_done_def split: sum.splits if_splits)
  then show ?thesis using transition_status_of(1) [of p sid t e False False now q sid] status_of_Some_iff by auto
qed

text \<open>What \<^verbatim>\<open>finish_step_plan\<close> makes of a role.\<close>

lemma finish_result:
  assumes "finish_step_plan C N i exec_ok before m = (m', Inr u)" "i \<in> idxs m"
  shows "as_files (cur m' i) = as_files (cur m i)"
    and "\<not> exec_ok \<Longrightarrow> as_ok (cur m' i) = as_ok (cur m i)"
    and "exec_ok \<Longrightarrow> as_ok (cur m' i) \<Longrightarrow> step_verified (ma_plan m') (step_id_of m i)"
    and "ma_plan m = None \<Longrightarrow> m' = m"
proof -
  let ?sid = "step_id_of m i"
  have all: "as_files (cur m' i) = as_files (cur m i) \<and> (\<not> exec_ok \<longrightarrow> as_ok (cur m' i) = as_ok (cur m i)) \<and>
      (exec_ok \<longrightarrow> as_ok (cur m' i) \<longrightarrow> step_verified (ma_plan m') ?sid) \<and> (ma_plan m = None \<longrightarrow> m' = m)"
  proof (cases "ma_plan m")
    case None
    then show ?thesis using assms(1) by (simp add: finish_step_plan_def run_simps step_verified_def)
  next
    case (Some p)
    define f where "f = upd_step ?sid (\<lambda>s. s\<lparr>step_output := as_content (cur m i), files_touched := as_files (cur m i)\<rparr>)"
    define m1 where "m1 = m\<lparr>ma_plan := Some (f p)\<rparr>"
    have m1: "planM f m = (m1, Inr ())" "cur m1 = cur m" "ma_plan m1 = Some (f p)" "idxs m1 = idxs m"
      using Some by (auto simp: planM_def modM_def m1_def)
    show ?thesis
    proof (cases exec_ok)
      case False
      define fail where "fail s = (if step_status s = RUNNING
           then engineM N (\<lambda>now p. transition p ?sid FAILED (str_or (as_error (cur m i)) ''role failed'') False False now)
           else retM ())" for s :: plan_step
      have fc: "cur m2 = cur m1" if "fail s m1 = (m2, Inr ())" for s m2
        using that by (auto simp: fail_def run_ret dest: engine_run(1) split: if_splits)
      obtain s m2 s' m3 where s: "fail s m1 = (m2, Inr ())" "sync_item i s' m2 = (m3, Inr ())" "saveM N m3 = (m', Inr u)"
        using assms(1) False by (auto simp: finish_step_plan_def run_simps Some m1(1) simp flip: f_def fail_def)
      have "cur m2 = cur m" using fc [OF s(1)] m1(2) by simp
      then show ?thesis using sync_run(1,2) [OF s(2)] save_run(1) [OF s(3)] False Some by simp
    next
      case True
      then obtain m2 m3 s m4 where 2: "engine2M N (\<lambda>n now p. mark_execution_finished p ?sid True [] (as_content (cur m i))
            (Some (as_files (cur m i))) now) m1 = (m2, Inr ())"
        and 3: "engineM N (\<lambda>now p. advance_after_done p ?sid now) m2 = (m3, Inr ())"
        and s: "\<exists>p3. ma_plan m3 = Some p3 \<and> get_step p3 ?sid = Inr s"
        and 4: "(if step_status s = VERIFYING then verify_role C N i ?sid (as_content (cur m i)) before else retM ()) m3 = (m4, Inr ())"
        and 5: "settle_role N i ?sid m4 = (m', Inr u)"
        using assms(1) by (auto simp: finish_step_plan_def run_simps Some m1(1) simp flip: f_def split del: if_split)
      obtain p2 where p2: "ma_plan m2 = Some p2" using engine2_run(5) [OF 2 m1(3)] by auto
      obtain p3 now where p3: "ma_plan m3 = Some p3" "advance_after_done p2 ?sid now = Inr p3" using engine_run(5) [OF 3 p2] by auto
      have s3: "get_step p3 ?sid = Inr s" "step_status s \<in> {VERIFYING, VERIFIED}"
        using s p3(1) plan_advance_status [OF p3(2)] by auto
      have c3: "cur m3 = cur m" using engine2_run(1) [OF 2] engine_run(1) [OF 3] m1(2) by simp
      have m4: "cur m4 = cur m \<and> (\<exists>p4. ma_plan m4 = Some p4 \<and> status_of p4 ?sid \<in> {Some VERIFIED, Some FAILED})"
      proof (cases "step_status s = VERIFYING")
        case True
        then have v: "verify_role C N i ?sid (as_content (cur m i)) before m3 = (m4, Inr ())" using 4 by simp
        show ?thesis using verify_role_run [OF v p3(1) s3(1)] c3 by simp
      next
        case False
        then show ?thesis using 4 s3 p3(1) c3 status_of_get [OF s3(1)] by (auto simp: run_ret)
      qed
      have "owned {i} m m4"
      proof -
        have "owned {i} m m1" using m1 Some by (auto simp: planM_def modM_def f_def step_id_of_eq intro!: owned_plan(2) moves_at_evidence)
        moreover have "owned {i} m1 m2" using keepsD [OF keeps_engine2 2] moves_at_mark unfolding step_id_of_eq by blast
        moreover have "owned {i} m2 m3" using keepsD [OF keeps_engine 3] moves_at_advance unfolding step_id_of_eq by blast
        moreover have "owned {i} m3 m4"
          using 4 keepsD [OF keeps_verify] unfolding step_id_of_eq by (auto simp: run_ret split: if_splits)
        ultimately show ?thesis using owned_trans by blast
      qed
      then have "i \<in> idxs m4" using owned_idxs assms(2) by blast
      then show ?thesis using m4 settle_verified [OF 5] settle_files [OF 5] True Some by auto
    qed
  qed
  then show "as_files (cur m' i) = as_files (cur m i)"
    "\<not> exec_ok \<Longrightarrow> as_ok (cur m' i) = as_ok (cur m i)"
    "exec_ok \<Longrightarrow> as_ok (cur m' i) \<Longrightarrow> step_verified (ma_plan m') (step_id_of m i)"
    "ma_plan m = None \<Longrightarrow> m' = m" by blast+
qed

section \<open>Steps without calls, steps that finalize nothing\<close>

definition quiet_step :: "ma_state \<Rightarrow> ma_state \<Rightarrow> bool" where
  "quiet_step m m' \<longleftrightarrow> ma_execs m' = ma_execs m \<and> gw_calls (ma_gw m') = gw_calls (ma_gw m)"

definition same_done :: "ma_state \<Rightarrow> ma_state \<Rightarrow> bool" where
  "same_done m m' \<longleftrightarrow> ma_execs m' = ma_execs m \<and> ma_done m' = ma_done m"

interpretation calls: ma_relation quiet_step
  by unfold_locales (auto simp: quiet_step_def)

interpretation dones: ma_relation same_done
  by unfold_locales (auto simp: same_done_def)

lemma quiet_upd: "keeps quiet_step (upd_item i f)" and quiet_planM: "keeps quiet_step (planM h)"
  and quiet_notes: "keeps quiet_step (modM (\<lambda>m. m\<lparr>ma_notes := g m\<rparr>))"
  and quiet_mark: "keeps quiet_step (mark_done i)" and quiet_beat: "keeps quiet_step (beat C N i)"
  and quiet_activate: "keeps quiet_step (activate C N i mode)"
  by (auto simp: keeps_def quiet_step_def upd_item_def planM_def modM_def mark_done_def beat_def activate_def
      send_beat_def send_node_def)

lemma quiet_engine: "keeps quiet_step (engineM N f)" and quiet_save: "keeps quiet_step (saveM N)"
  by (auto simp: keeps_def quiet_step_def engineM_def saveM_def split: option.split sum.split prod.split)

lemma done_upd: "keeps same_done (upd_item i f)" and done_planM: "keeps same_done (planM h)"
  and done_notes: "keeps same_done (modM (\<lambda>m. m\<lparr>ma_notes := g m\<rparr>))" and done_beat: "keeps same_done (beat C N i)"
  and done_activate: "keeps same_done (activate C N i mode)" and done_exclude: "keeps same_done (excludeM N i)"
  and done_remember: "keeps same_done (remember C i d)"
  by (auto simp: keeps_def same_done_def upd_item_def planM_def modM_def beat_def activate_def
      send_beat_def send_node_def excludeM_def remember_def Let_def)

lemma done_engine: "keeps same_done (engineM N f)" and done_save: "keeps same_done (saveM N)"
  by (auto simp: keeps_def same_done_def engineM_def saveM_def split: option.split sum.split prod.split)

lemma quiet_finalize: "keeps quiet_step (finalize C N i)"
  unfolding finalize_def by (intro calls.keeps_seq quiet_mark quiet_beat)

lemma quiet_prompt: "keeps quiet_step (user_prompt C N i)"
  unfolding user_prompt_def Let_def
  by (intro calls.keeps_bind_read, simp only: prod.case, intro calls.keeps_rules)

lemma quiet_start: "keeps quiet_step (start_step C N i)"
  unfolding start_step_def
  by (intro calls.keeps_bind_read, simp only: prod.case,
      intro calls.keeps_rules quiet_upd quiet_finalize quiet_save quiet_engine, unfold Let_def,
      intro calls.keeps_rules quiet_upd quiet_finalize)

lemma quiet_skip: "keeps quiet_step (skip_role C N i error mode reason)"
  unfolding skip_role_def by (intro calls.keeps_rules quiet_upd quiet_finalize)

lemma quiet_prepare: "keeps quiet_step (prepare C N i)"
proof -
  have verdict: "keeps quiet_step (case v of NoCode r \<Rightarrow> f r | PriorFailed r \<Rightarrow> g r | _ \<Rightarrow> h v)"
    if "\<And>r. keeps quiet_step (f r)" "\<And>r. keeps quiet_step (g r)" "keeps quiet_step (h v)" for v and f g h :: "_ \<Rightarrow> 'x ma"
    using that by (cases v) simp_all
  have deg: "keeps quiet_step (case v of Degraded r \<Rightarrow> f r | _ \<Rightarrow> retM ())" if "\<And>r. keeps quiet_step (f r)" for v f
    using that by (cases v) (simp_all add: calls.keeps_ret)
  show ?thesis
    unfolding prepare_def
    by (intro calls.keeps_bind_read, simp only: prod.case, rule verdict)
      (intro calls.keeps_rules quiet_skip quiet_start quiet_prompt deg quiet_notes quiet_upd)+
qed

lemma quiet_dispatch: "keeps quiet_step (dispatch_mode C N i)"
proof -
  have "keeps quiet_step (\<lambda>m. upd_item i (f m) m)" for f using quiet_upd unfolding keeps_def by blast
  then show ?thesis unfolding dispatch_mode_def by (intro calls.keeps_rules quiet_upd)
qed

lemma done_dispatch: "keeps same_done (dispatch_mode C N i)"
proof -
  have "keeps same_done (\<lambda>m. upd_item i (f m) m)" for f using done_upd unfolding keeps_def by blast
  then show ?thesis unfolding dispatch_mode_def by (intro dones.keeps_rules done_upd)
qed

lemma quiet_prepare_item: "keeps quiet_step (prepare_item C N i)"
  unfolding prepare_item_def
  by (intro calls.keeps_bind quiet_prepare calls.keeps_option calls.keeps_ret, simp only: split_beta,
      intro calls.keeps_rules quiet_dispatch quiet_activate)

lemma done_prompt: "keeps same_done (user_prompt C N i)"
  unfolding user_prompt_def Let_def
  by (intro dones.keeps_bind_read, simp only: prod.case, intro dones.keeps_rules)

lemma done_chat: "keeps same_done (chat_call N i user system)"
proof -
  have "keeps same_done (\<lambda>m. case F m of (resp, a, g) \<Rightarrow> (G m a g, Inr (ChatReply resp)))"
    if "\<And>m a g. same_done m (G m a g)" for F :: "ma_state \<Rightarrow> json \<times> assignment \<times> gw" and G
    using that by (auto simp: keeps_def split: prod.split)
  then show ?thesis unfolding chat_call_def
    by (intro dones.keeps_rules) (auto simp: same_done_def)
qed

lemma done_call_item: "keeps same_done (call_item N ws i)"
  unfolding call_item_def by (intro dones.keeps_rules done_chat)

section \<open>Every role of a wave ends settled\<close>

definition settled_view :: "ma_cfg \<Rightarrow> assignment \<times> bool \<times> bool \<times> string option option \<Rightarrow> bool" where
  "settled_view C v \<longleftrightarrow> (case v of (a, finalized, executed, st) \<Rightarrow> finalized \<and>
     (as_ok a \<longrightarrow> (\<forall>s. st = Some s \<longrightarrow> s = Some VERIFIED)) \<and>
     (mc_requires_code_gen C \<and> executed \<and> as_ok a \<longrightarrow> as_files a \<noteq> []))"

definition role_settled :: "ma_cfg \<Rightarrow> ma_state \<Rightarrow> int \<Rightarrow> bool" where
  "role_settled C m i \<longleftrightarrow> settled_view C (role_view m i)"

definition fresh_view :: "assignment \<times> bool \<times> bool \<times> string option option \<Rightarrow> bool" where
  "fresh_view v \<longleftrightarrow> (case v of (a, finalized, executed, st) \<Rightarrow> \<not> finalized \<and> \<not> executed)"

lemma role_settled_iff:
  "role_settled C m i \<longleftrightarrow> i \<in> set (ma_done m) \<and> (as_ok (cur m i) \<longrightarrow> step_verified (ma_plan m) (step_id_of m i)) \<and>
     (mc_requires_code_gen C \<and> i \<in> fst ` set (ma_execs m) \<and> as_ok (cur m i) \<longrightarrow> as_files (cur m i) \<noteq> [])"
  by (auto simp: role_settled_def settled_view_def role_view_def step_verified_def)

lemma fresh_iff: "fresh_view (role_view m i) \<longleftrightarrow> i \<notin> set (ma_done m) \<and> i \<notin> fst ` set (ma_execs m)"
  by (auto simp: fresh_view_def role_view_def)

lemma finalize_run:
  assumes "finalize C N i m = (m', Inr u)"
  shows "cur m' = cur m" "ma_plan m' = ma_plan m" "ma_execs m' = ma_execs m" "i \<in> set (ma_done m')"
  using assms
  by (auto simp: finalize_def run_simps mark_done_def beat_def send_beat_def send_node_def intro!: cur_frame)

lemma settled_not_ok: "i \<in> set (ma_done m) \<Longrightarrow> \<not> as_ok (cur m i) \<Longrightarrow> role_settled C m i"
  by (simp add: role_settled_iff)

lemma finalize_not_ok: "finalize C N i m = (m', Inr u) \<Longrightarrow> \<not> as_ok (cur m i) \<Longrightarrow> role_settled C m' i"
  using finalize_run by (intro settled_not_ok) simp_all

lemma delta_run:
  "take_delta C N i always b f m = (m', Inr u) \<Longrightarrow> as_ok (cur m' i) = as_ok (cur m i)"
  by (auto simp: take_delta_def run_simps dest!: upd_item_run split: if_splits)

lemma crash_settled:
  assumes "crash_executor C N i e gb fb m = (m', Inr u)" "i \<in> idxs m"
  shows "role_settled C m' i"
proof -
  obtain m3 m4 m5 where r: "upd_item i (\<lambda>a. a\<lparr>as_error := e, as_content := ''(executor failed: '' @ e @ '')'', as_ok := False\<rparr>) m = (m3, Inr ())"
    "take_delta C N i True gb fb m3 = (m4, Inr ())" "finish_step_plan C N i False gb m4 = (m5, Inr ())" "finalize C N i m5 = (m', Inr u)"
    using assms(1) by (auto simp: crash_executor_def run_simps)
  have "owned {i} m m3" using keepsD [OF keeps_upd_item r(1)] by (simp add: same_identity_def)
  then have "i \<in> idxs m4" using owned_idxs keepsD [OF keeps_delta r(2)] assms(2) by blast
  moreover have "\<not> as_ok (cur m3 i)" using r(1) assms(2) by (auto dest!: upd_item_run)
  ultimately have "\<not> as_ok (cur m5 i)" using delta_run [OF r(2)] finish_result(2) [OF r(3)] by simp
  then show ?thesis by (rule finalize_not_ok [OF r(4)])
qed

lemma close_settled:
  assumes "close_executor C N i gb fb m = (m', Inr u)" "i \<in> idxs m"
  shows "role_settled C m' i"
proof -
  obtain m4 m5 m6 where r: "take_delta C N i False gb fb m = (m4, Inr ())" "upd_item i (honest C) m4 = (m5, Inr ())"
    "finish_step_plan C N i (as_ok (cur m5 i)) gb m5 = (m6, Inr ())" "finalize C N i m6 = (m', Inr u)"
    using assms(1) by (auto simp: close_executor_def run_simps)
  have 4: "i \<in> idxs m4" using owned_idxs [OF keepsD [OF keeps_delta r(1)]] assms(2) by simp
  have "owned {i} m4 m5" using keepsD [OF keeps_upd_item r(2)] by simp
  then have 5: "i \<in> idxs m5" using owned_idxs 4 by blast
  have "cur m5 i = honest C (cur m4 i)"
    using upd_item_run [OF r(2)] 4 take_reply_identity(2) by (simp add: same_identity_def)
  then have hon: "mc_requires_code_gen C \<Longrightarrow> as_ok (cur m5 i) \<Longrightarrow> as_files (cur m5 i) \<noteq> []"
    by (auto simp: honest_def split: if_splits)
  have role: "step_id_of m6 i = step_id_of m5 i"
    using owned_role [OF keepsD [OF keeps_finish r(3)]] by (simp add: step_id_of_def)
  note fin = finish_result [OF r(3) 5] and f = finalize_run [OF r(4)]
  have "step_id_of m' i = step_id_of m6 i" using f(1) by (simp add: step_id_of_def)
  then show ?thesis
    using fin(1,2,3) f hon role by (cases "as_ok (cur m5 i)") (simp_all add: role_settled_iff)
qed

lemma executor_settled:
  assumes "run_executor C N i user system before m = (m', Inr u)" "i \<in> idxs m"
  shows "role_settled C m' i"
proof -
  define x where "x = (if mc_cwd C \<noteq> []
      then (let b = git_porcelain (me_world N (ma_tick m)) (mc_cwd C) in (b, fingerprint_untracked (me_fingerprint N (ma_tick m)) b))
      else (before, []))"
  define m1 where "m1 = m\<lparr>ma_tick := Suc (ma_tick m)\<rparr>"
  define e where "e = as_executor (cur m1 i)"
  define m2 where "m2 = m1\<lparr>ma_execs := ma_execs m1 @ [(i, e)]\<rparr>"
  define m3 where "m3 = m2\<lparr>ma_tick := Suc (ma_tick m1)\<rparr>"
  define outcome where "outcome = me_runner N (ma_tick m1) (cur m1 i) user system"
  have "owned {i} m m1" unfolding m1_def by (rule owns.R_tick)
  moreover have "owned {i} m1 m2" using keepsD [OF keeps_exec_log, of i e m1 m2 "Inr ()"] by (simp add: m2_def modM_def)
  moreover have "owned {i} m2 m3" unfolding m3_def by (rule owns.R_tick)
  ultimately have "owned {i} m m3" using owned_trans by blast
  then have 3: "i \<in> idxs m3" using owned_idxs assms(2) by blast
  have rest: "(case outcome of
        RunnerRaises e \<Rightarrow> crash_executor C N i e (fst x) (snd x)
      | RunnerReply r \<Rightarrow> seqM (upd_item i (take_reply r)) (close_executor C N i (fst x) (snd x))
      | RunnerText t \<Rightarrow> seqM (upd_item i (\<lambda>a. a\<lparr>as_content := t, as_ok := (strip t \<noteq> [])\<rparr>))
                          (close_executor C N i (fst x) (snd x))) m3 = (m', Inr u)"
    using assms(1) unfolding run_executor_def
    by (simp add: split_beta flip: m1_def x_def) (simp flip: e_def m2_def m3_def outcome_def)
  have close: "role_settled C m' i"
    if r: "seqM (upd_item i f) (close_executor C N i b f') m3 = (m', Inr u)" and f: "\<And>a. same_identity a (f a)" for f b f'
  proof -
    obtain m4 where m4: "upd_item i f m3 = (m4, Inr ())" "close_executor C N i b f' m4 = (m', Inr u)"
      using r by (auto simp: run_seq)
    have "owned {i} m3 m4" using keepsD [OF keeps_upd_item m4(1)] f by simp
    then have "i \<in> idxs m4" using owned_idxs 3 by blast
    then show ?thesis by (rule close_settled [OF m4(2)])
  qed
  show ?thesis
  proof (cases outcome)
    case (RunnerRaises e)
    then show ?thesis using rest crash_settled [OF _ 3] by simp
  next
    case (RunnerReply r)
    then show ?thesis using rest close take_reply_identity(1) by simp
  next
    case (RunnerText t)
    show ?thesis by (rule close) (use rest RunnerText in \<open>simp, simp add: same_identity_def\<close>)
  qed
qed

lemma exclude_run: "excludeM N i m = (m', Inr u) \<Longrightarrow> cur m' = cur m \<and> ma_execs m' = ma_execs m \<and> ma_items m' = ma_items m"
  and remember_run: "remember C i d m = (m', Inr u) \<Longrightarrow> cur m' = cur m \<and> ma_execs m' = ma_execs m \<and> ma_items m' = ma_items m"
  by (auto simp: excludeM_def remember_def run_simps Let_def intro!: cur_frame)

text \<open>The end of a chat role, once its reply is read: \<open>exec_ok\<close> is false only for a role that is not ok.\<close>

lemma chat_end_settled:
  assumes "finish_step_plan C N i exec_ok gb m = (m1, Inr ())" "finalize C N i m1 = (m', Inr u)"
    and "i \<in> idxs m" "exec_ok \<or> \<not> as_ok (cur m i)" "i \<notin> fst ` set (ma_execs m')"
  shows "role_settled C m' i"
proof -
  note fin = finish_result [OF assms(1,3)] and f = finalize_run [OF assms(2)]
  have "step_id_of m' i = step_id_of m i"
    using owned_role [OF keepsD [OF keeps_finish assms(1)]] f(1) by (simp add: step_id_of_def)
  then show ?thesis using fin(2,3) f assms(4,5) by (cases exec_ok) (simp_all add: role_settled_iff)
qed

lemma finish_execs: "finish_step_plan C N i exec_ok gb m = (m', r) \<Longrightarrow> i \<notin> fst ` set (ma_execs m) \<Longrightarrow> i \<notin> fst ` set (ma_execs m')"
proof -
  have "keeps same_done (shadow_open sid)" and "keeps same_done (sync_item j s)" and "keeps same_done (engine2M N h)" for sid j s and h
    by (auto simp: keeps_def same_done_def shadow_open_def sync_item_def engine2M_def modM_def
        split: option.split sum.split prod.split)
  then have "keeps same_done (finish_step_plan C N i exec_ok gb)"
    unfolding finish_step_plan_def verify_role_def settle_role_def
    by (intro dones.keeps_bind_read, simp only: prod.case, intro dones.keeps_rules done_planM done_engine done_upd done_save)
  from keepsD [OF this] show "finish_step_plan C N i exec_ok gb m = (m', r) \<Longrightarrow> i \<notin> fst ` set (ma_execs m) \<Longrightarrow>
      i \<notin> fst ` set (ma_execs m')"
    by (simp add: same_done_def)
qed

lemma failed_chat_not_ok [simp]: "\<not> as_ok (failed_chat e a)" "as_idx (failed_chat e a) = as_idx a"
  by (simp_all add: failed_chat_def)

lemma chat_failed_run:
  assumes "seqM (upd_item i (failed_chat e)) (seqM (excludeM N i) g) m = (m', Inr y)" "i \<in> idxs m"
  obtains m1 where "g m1 = (m', Inr y)" "\<not> as_ok (cur m1 i)" "i \<in> idxs m1" "ma_execs m1 = ma_execs m" "owned {i} m m1"
proof -
  obtain m0 m1 where 0: "upd_item i (failed_chat e) m = (m0, Inr ())" and 1: "excludeM N i m0 = (m1, Inr ())" and g: "g m1 = (m', Inr y)"
    using assms(1) by (auto simp: run_seq)
  have o: "owned {i} m m1"
    using owned_trans keepsD [OF keeps_upd_item 0] keepsD [OF keeps_exclude 1] by (metis failed_chat_identity)
  have "\<not> as_ok (cur m0 i)" "ma_execs m0 = ma_execs m" using upd_item_run [OF 0] assms(2) by auto
  then show thesis using that [OF g] exclude_run [OF 1] o owned_idxs [OF o] assms(2) by simp
qed

lemma finalize_chat_settled:
  assumes "finalize_chat C N i outcome gb m = (m', Inr b)" "i \<in> idxs m" "i \<notin> fst ` set (ma_execs m)"
  shows "role_settled C m' i"
proof (cases outcome)
  case (ChatRaised e)
  have "seqM (upd_item i (failed_chat e)) (seqM (excludeM N i)
       (seqM (finish_step_plan C N i False gb) (seqM (finalize C N i) (retM False)))) m = (m', Inr b)"
    using assms(1) by (simp add: finalize_chat_def ChatRaised)
  then obtain m1 where 1: "seqM (finish_step_plan C N i False gb) (seqM (finalize C N i) (retM False)) m1 = (m', Inr b)"
    "\<not> as_ok (cur m1 i)" "i \<in> idxs m1" "ma_execs m1 = ma_execs m" by (rule chat_failed_run [OF _ assms(2)])
  then obtain m2 where 2: "finish_step_plan C N i False gb m1 = (m2, Inr ())" "finalize C N i m2 = (m', Inr ())"
    by (auto simp: run_seq run_ret)
  have "i \<notin> fst ` set (ma_execs m')" using finish_execs [OF 2(1)] finalize_run(3) [OF 2(2)] 1(4) assms(3) by simp
  then show ?thesis using chat_end_settled [OF 2 1(3)] 1(2) by blast
next
  case (ChatReply resp)
  define d where "d = as_dict resp"
  define head where "head = (if truthy (jget d ''error'')
                  then seqM (upd_item i (failed_chat (py_str (ge_builtins (me_gateway N)) (jget d ''error''))))
                       (seqM (excludeM N i) (retM False))
                  else bindM (raiseM (reply_content d)) (\<lambda>content.
                       seqM (upd_item i (\<lambda>a. if strip content = []
                               then a\<lparr>as_content := content, as_ok := False, as_error := ''empty response from provider''\<rparr>
                               else a\<lparr>as_content := content, as_ok := True\<rparr>))
                       (seqM (remember C i d) (retM True))))"
  obtain m1 process_ok where h: "head m = (m1, Inr process_ok)"
    and r: "bindM (readM (\<lambda>m. if ma_gates m then process_ok else as_ok (cur m i))) (\<lambda>exec_ok.
           seqM (finish_step_plan C N i exec_ok gb) (seqM (finalize C N i) (retM (truthy (jget d ''spend_limited''))))) m1 = (m', Inr b)"
    using assms(1) unfolding finalize_chat_def ChatReply chat_outcome.case Let_def d_def [symmetric] head_def [symmetric]
    by (auto simp: run_bind [of head])
  have m1: "i \<in> idxs m1 \<and> ma_execs m1 = ma_execs m \<and> (\<not> process_ok \<longrightarrow> \<not> as_ok (cur m1 i))"
  proof (cases "truthy (jget d ''error'')")
    case True
    then have "seqM (upd_item i (failed_chat (py_str (ge_builtins (me_gateway N)) (jget d ''error'')))) (seqM (excludeM N i) (retM False)) m
        = (m1, Inr process_ok)" using h by (simp add: head_def)
    then obtain m2 where "retM False m2 = (m1, Inr process_ok)" "\<not> as_ok (cur m2 i)" "i \<in> idxs m2" "ma_execs m2 = ma_execs m"
      by (rule chat_failed_run [OF _ assms(2)])
    then show ?thesis by (simp add: run_ret)
  next
    case False
    define f where "f content = (\<lambda>a :: assignment. if strip content = []
        then a\<lparr>as_content := content, as_ok := False, as_error := ''empty response from provider''\<rparr>
        else a\<lparr>as_content := content, as_ok := True\<rparr>)" for content
    obtain content m2 where 2: "upd_item i (f content) m = (m2, Inr ())" and 3: "remember C i d m2 = (m1, Inr ())" and p: process_ok
      using h False by (auto simp: head_def run_simps simp flip: f_def)
    have "owned {i} m m2" using keepsD [OF keeps_upd_item 2] by (simp add: f_def same_identity_def)
    then have "i \<in> idxs m2" using owned_idxs assms(2) by blast
    moreover have "ma_execs m2 = ma_execs m" using upd_item_run [OF 2] by (simp add: f_def)
    ultimately show ?thesis using remember_run [OF 3] p by simp
  qed
  define exec_ok where "exec_ok = (if ma_gates m1 then process_ok else as_ok (cur m1 i))"
  obtain m2 where 2: "finish_step_plan C N i exec_ok gb m1 = (m2, Inr ())" "finalize C N i m2 = (m', Inr ())"
    using r by (auto simp: run_seq run_ret simp flip: exec_ok_def)
  have "i \<notin> fst ` set (ma_execs m')" using finish_execs [OF 2(1)] finalize_run(3) [OF 2(2)] m1 assms(3) by simp
  moreover have "exec_ok \<or> \<not> as_ok (cur m1 i)" using m1 by (auto simp: exec_ok_def)
  ultimately show ?thesis using chat_end_settled [OF 2] m1 by blast
qed

text \<open>A role that is skipped or blocked ends failed; one that is prepared is not finalized yet.\<close>

lemma skip_settled:
  assumes "skip_role C N i error mode reason m = (m', Inr u)" "i \<in> idxs m"
  shows "role_settled C m' i"
proof -
  obtain m1 where 1: "upd_item i (\<lambda>a. a\<lparr>as_ok := False, as_error := error, as_content := ''('' @ error @ '')'', as_mode := mode,
             as_mode_reason := reason, as_plan_status := ''skipped''\<rparr>) m = (m1, Inr ())" "finalize C N i m1 = (m', Inr u)"
    using assms(1) by (auto simp: skip_role_def run_seq)
  have "\<not> as_ok (cur m1 i)" using upd_item_run [OF 1(1)] assms(2) by simp
  then show ?thesis by (rule finalize_not_ok [OF 1(2)])
qed

lemma bind_raise: "bindM (raiseM (Inr x)) g = g x"
  by (simp add: bindM_def raiseM_def)

lemma start_result:
  assumes "start_step C N i m = (m', Inr started)" "i \<in> idxs m"
  shows "started \<Longrightarrow> same_done m m'" "\<not> started \<Longrightarrow> role_settled C m' i"
proof -
  have "(started \<longrightarrow> same_done m m') \<and> (\<not> started \<longrightarrow> role_settled C m' i)"
  proof (cases "ma_plan m")
    case None
    then show ?thesis using assms(1) by (simp add: start_step_def run_ret dones.R_refl)
  next
    case (Some p)
    obtain ok where ok: "can_start p (step_id_of m i) = Inr ok"
      using assms(1) Some by (cases "can_start p (step_id_of m i)") (auto simp: start_step_def run_simps)
    show ?thesis
    proof (cases ok)
      case True
      define f where "f sid = seqM (engineM N (\<lambda>now p. transition p sid RUNNING [] False False now))
          (seqM (upd_item i (\<lambda>a. a\<lparr>as_plan_status := RUNNING\<rparr>)) (seqM (saveM N) (retM True)))" for sid
      have f: "f (step_id_of m i) m = (m', Inr started)"
        using assms(1) Some ok True by (simp add: start_step_def bind_raise f_def)
      have "keeps same_done (f sid)" for sid unfolding f_def by (intro dones.keeps_rules done_engine done_upd done_save)
      from keepsD [OF this f] show ?thesis using f by (auto simp: f_def run_seq run_ret)
    next
      case False
      define blk where "blk e = seqM (upd_item i (\<lambda>a. a\<lparr>as_ok := False, as_error := e, as_content := ''('' @ e @ '')'',
          as_plan_status := ''blocked''\<rparr>)) (seqM (finalize C N i) (retM False))" for e
      obtain e where "blk e m = (m', Inr started)"
        using assms(1) Some ok False unfolding start_step_def Let_def blk_def [symmetric]
        by (auto simp: run_bind run_read run_raise)
      then obtain m1 where 1: "upd_item i (\<lambda>a. a\<lparr>as_ok := False, as_error := e, as_content := ''('' @ e @ '')'',
          as_plan_status := ''blocked''\<rparr>) m = (m1, Inr ())" "finalize C N i m1 = (m', Inr ())" and st: "\<not> started"
        by (auto simp: blk_def run_seq run_ret)
      have "\<not> as_ok (cur m1 i)" using upd_item_run [OF 1(1)] assms(2) by simp
      then show ?thesis using finalize_not_ok [OF 1(2)] st by blast
    qed
  qed
  then show "started \<Longrightarrow> same_done m m'" "\<not> started \<Longrightarrow> role_settled C m' i" by blast+
qed

end
