(* ===== verification/Multi_Agent_Safety.thy ===== *)
theory Multi_Agent_Safety
  imports Multi_Agent_Results
begin

text \<open>
  Waves and whole multi-agent runs: the facts on one role of \<^verbatim>\<open>Multi_Agent_Results\<close>, put together over a
  wave, over all waves and over \<^verbatim>\<open>run_local\<close>.
\<close>

section \<open>One pass over the roles of a wave\<close>

lemma same_done_fresh: "same_done m m' \<Longrightarrow> fresh_view (role_view m i) \<Longrightarrow> fresh_view (role_view m' i)"
  by (simp add: same_done_def fresh_iff)

text \<open>Each call touches its own role only, so what it establishes survives the calls of the other roles.\<close>

lemma pass_over_roles:
  assumes "forM xs f m = (m', Inr ys)" "distinct (map k xs)"
    and "\<And>x. x \<in> set xs \<Longrightarrow> keeps (owned {k x}) (f x)"
    and "\<And>x m m' y. x \<in> set xs \<Longrightarrow> k x \<in> idxs m \<Longrightarrow> P (role_view m (k x)) \<Longrightarrow> f x m = (m', Inr y) \<Longrightarrow> Q x y (role_view m' (k x))"
    and "\<And>x. x \<in> set xs \<Longrightarrow> k x \<in> idxs m \<and> P (role_view m (k x))"
  shows "owned (k ` set xs) m m' \<and> list_all2 (\<lambda>x y. Q x y (role_view m' (k x))) xs ys"
  using assms
proof (induction xs arbitrary: m ys)
  case Nil
  then show ?case by (simp add: retM_def)
next
  case (Cons x xs)
  obtain m1 y zs where 1: "f x m = (m1, Inr y)" and 2: "forM xs f m1 = (m', Inr zs)" and ys: "ys = y # zs"
    using Cons.prems(1) by (auto simp: run_bind run_ret)
  have kx: "k x \<notin> k ` set xs" using Cons.prems(2) by auto
  have o1: "owned {k x} m m1" by (rule keepsD [OF Cons.prems(3) 1]) simp
  have "k z \<in> idxs m1 \<and> P (role_view m1 (k z))" if "z \<in> set xs" for z
  proof -
    have "k z \<in> k ` set xs" using that by (rule imageI)
    then have "k z \<notin> {k x}" using kx by (metis singletonD)
    then show ?thesis using owned_view [OF o1] owned_idxs [OF o1] Cons.prems(5) [of z] that by simp
  qed
  then have ih: "owned (k ` set xs) m1 m' \<and> list_all2 (\<lambda>x y. Q x y (role_view m' (k x))) xs zs"
    using Cons.prems(2-4) by (intro Cons.IH [OF 2]) auto
  have "Q x y (role_view m1 (k x))" using Cons.prems(4) [OF _ _ _ 1] Cons.prems(5) [of x] by simp
  then have "Q x y (role_view m' (k x))" using owned_view [OF conjunct1 [OF ih] kx] by simp
  moreover have "owned (k ` set (x # xs)) m m'"
    by (rule owned_trans [OF owned_mono [OF o1] owned_mono [OF conjunct1 [OF ih]]]) auto
  ultimately show ?case using ih ys by simp
qed

lemma pass_subset:
  assumes "forM xs f m = (m', Inr ys)" "distinct (map k xs)" "k ` set xs \<subseteq> idxs m"
    and "\<And>x. x \<in> set xs \<Longrightarrow> keeps (owned {k x}) (f x)"
    and "\<And>x m m' y. x \<in> set xs \<Longrightarrow> k x \<in> idxs m \<Longrightarrow> P (role_view m (k x)) \<Longrightarrow> f x m = (m', Inr y) \<Longrightarrow> Q (role_view m' (k x))"
    and "\<And>x. x \<in> set xs \<Longrightarrow> P (role_view m (k x))"
  shows "owned (k ` set xs) m m'" "\<And>x. x \<in> set xs \<Longrightarrow> Q (role_view m' (k x))"
proof -
  have *: "owned (k ` set xs) m m' \<and> list_all2 (\<lambda>x y. Q (role_view m' (k x))) xs ys"
  proof (rule pass_over_roles [OF assms(1,2,4)])
    show "Q (role_view m' (k x))" if "x \<in> set xs" "k x \<in> idxs m" "P (role_view m (k x))" "f x m = (m', Inr y)" for x m m' y
      using assms(5) that by blast
    show "k x \<in> idxs m \<and> P (role_view m (k x))" if "x \<in> set xs" for x using assms(3,6) that by blast
  qed
  then show "owned (k ` set xs) m m'" "\<And>x. x \<in> set xs \<Longrightarrow> Q (role_view m' (k x))"
    by (auto simp: list_all2_conv_all_nth in_set_conv_nth)
qed

section \<open>Preparing a role\<close>

lemma prepare_result:
  assumes "prepare C N i m = (m', Inr prep)" "i \<in> idxs m"
  shows "case prep of None \<Rightarrow> role_settled C m' i | Some _ \<Rightarrow> same_done m m'"
proof -
  define rest where "rest = bindM (start_step C N i) (\<lambda>started.
          if \<not> started then retM None
          else bindM (askM (\<lambda>n. git_porcelain (me_world N n) (mc_cwd C))) (\<lambda>git_before.
               bindM (user_prompt C N i) (\<lambda>user.
               bindM (readM (\<lambda>m. cur m i)) (\<lambda>a.
               bindM (askM (\<lambda>n. me_system N n a)) (\<lambda>system.
               retM (Some (user, system, git_before)))))))"
  have rest: "case prep of None \<Rightarrow> role_settled C m' i | Some _ \<Rightarrow> same_done m1 m'"
    if r: "rest m1 = (m', Inr prep)" and i: "i \<in> idxs m1" for m1
  proof -
    obtain m2 started where s: "start_step C N i m1 = (m2, Inr started)"
      and r2: "(if \<not> started then retM None
          else bindM (askM (\<lambda>n. git_porcelain (me_world N n) (mc_cwd C))) (\<lambda>git_before.
               bindM (user_prompt C N i) (\<lambda>user.
               bindM (readM (\<lambda>m. cur m i)) (\<lambda>a.
               bindM (askM (\<lambda>n. me_system N n a)) (\<lambda>system.
               retM (Some (user, system, git_before))))))) m2 = (m', Inr prep)" (is "(if _ then _ else ?go) m2 = _")
      using r unfolding rest_def run_bind by blast
    show ?thesis
    proof (cases started)
      case True
      have "keeps same_done ?go" by (intro dones.keeps_rules done_prompt)
      from keepsD [OF this] have "same_done m2 m'" using r2 True by simp
      moreover have "prep \<noteq> None" using r2 True by (auto simp: run_bind run_ret)
      ultimately show ?thesis using start_result(1) [OF s i True] dones.R_trans by auto
    next
      case False
      then show ?thesis using r2 start_result(2) [OF s i] by (simp add: run_ret)
    qed
  qed
  define remark where "remark v = (case v of
                 Degraded roles \<Rightarrow>
                   seqM (modM (\<lambda>m. m\<lparr>ma_notes := dict_set i roles (ma_notes m)\<rparr>))
                     (upd_item i (\<lambda>a. a\<lparr>as_mode_reason := (if as_mode_reason a \<noteq> []
                        then as_mode_reason a @ ''+degraded_prior_failed'' else ''degraded_prior_failed'')\<rparr>))
               | _ \<Rightarrow> retM ())" for v
  have go: "case prep of None \<Rightarrow> role_settled C m' i | Some _ \<Rightarrow> same_done m m'"
    if r: "seqM (remark v) rest m = (m', Inr prep)" for v
  proof -
    obtain m1 where m1: "remark v m = (m1, Inr ())" "rest m1 = (m', Inr prep)" using r by (auto simp: run_seq)
    have "keeps same_done (remark v)"
      by (cases v) (simp_all add: remark_def dones.keeps_ret dones.keeps_seq done_notes done_upd)
    from keepsD [OF this m1(1)] have d: "same_done m m1" .
    have "keeps (owned {i}) (remark v)"
      by (cases v) (auto simp: remark_def same_identity_def intro!: owns.keeps_ret owns.keeps_seq keeps_notes keeps_upd_item)
    from owned_idxs [OF keepsD [OF this m1(1)]] have "i \<in> idxs m1" using assms(2) by simp
    from rest [OF m1(2) this] show ?thesis using dones.R_trans [OF d] by (auto split: option.splits)
  qed
  have skip: "case prep of None \<Rightarrow> role_settled C m' i | Some _ \<Rightarrow> same_done m m'"
    if r: "seqM (skip_role C N i e mode reason) (retM None) m = (m', Inr prep)" for e mode reason
    using r skip_settled [OF _ assms(2)] by (auto simp: run_seq run_ret)
  have run: "(case cascade C m (cur m i) of
       NoCode roles \<Rightarrow> seqM (skip_role C N i (''skipped: no code produced '' @ dash @ '' all executor roles failed ('' @ join '', '' roles @ '')'')
                 (role_mode_of m (cur m i)) ''skipped_no_code'') (retM None)
     | PriorFailed roles \<Rightarrow> seqM (skip_role C N i (''skipped: prior role(s) failed ('' @ join '', '' roles @ '')'')
                 (str_or (as_mode (cur m i)) ''chat'') ''skipped_prior_failed'') (retM None)
     | _ \<Rightarrow> seqM (remark (cascade C m (cur m i))) rest) m = (m', Inr prep)"
    using assms(1) unfolding prepare_def exec_simps prod.case remark_def rest_def .
  show ?thesis
  proof (cases "cascade C m (cur m i)")
    case RunRole
    show ?thesis by (rule go) (use run in \<open>unfold RunRole cascade_verdict.case\<close>)
  next
    case (Degraded roles)
    show ?thesis by (rule go) (use run in \<open>unfold Degraded cascade_verdict.case\<close>)
  next
    case (NoCode roles)
    show ?thesis by (rule skip) (use run in \<open>unfold NoCode cascade_verdict.case\<close>)
  next
    case (PriorFailed roles)
    show ?thesis by (rule skip) (use run in \<open>unfold PriorFailed cascade_verdict.case\<close>)
  qed
qed

lemma prepare_item_result:
  assumes "prepare_item C N i m = (m', Inr w)" "i \<in> idxs m" "fresh_view (role_view m i)"
  shows "case w of None \<Rightarrow> role_settled C m' i | Some w \<Rightarrow> wi_idx w = i \<and> fresh_view (role_view m' i)"
proof -
  obtain m1 prep where p: "prepare C N i m = (m1, Inr prep)"
    and r: "(case prep of None \<Rightarrow> retM None | Some (user, system, git_before) \<Rightarrow>
         bindM (dispatch_mode C N i) (\<lambda>mode. seqM (activate C N i mode)
         (retM (Some \<lparr>wi_idx = i, wi_mode = mode, wi_user = user, wi_system = system, wi_before = git_before\<rparr>)))) m1 = (m', Inr w)"
    using assms(1) unfolding prepare_item_def run_bind by blast
  show ?thesis
  proof (cases prep)
    case None
    then show ?thesis using prepare_result [OF p assms(2)] r by (simp add: run_ret)
  next
    case (Some x)
    obtain user system gb where x: "x = (user, system, gb)" by (metis prod.exhaust)
    obtain m2 mode where 2: "dispatch_mode C N i m1 = (m2, Inr mode)" "activate C N i mode m2 = (m', Inr ())"
      and w: "\<exists>v. w = Some v \<and> wi_idx v = i"
      using r Some x by (auto simp: run_bind run_seq run_ret)
    have "same_done m m1" using prepare_result [OF p assms(2)] Some by simp
    moreover have "same_done m1 m2" by (rule keepsD [OF done_dispatch 2(1)])
    moreover have "same_done m2 m'" by (rule keepsD [OF done_activate 2(2)])
    ultimately have "same_done m m'" using dones.R_trans by blast
    from same_done_fresh [OF this assms(3)] show ?thesis using w by auto
  qed
qed

section \<open>A wave\<close>

lemma prepared_items:
  assumes "list_all2 (\<lambda>i y. case y of None \<Rightarrow> A i | Some w \<Rightarrow> wi_idx w = i \<and> B i) wave preps" "distinct wave"
  shows "distinct (map wi_idx (List.map_filter id preps))" "wi_idx ` set (List.map_filter id preps) \<subseteq> set wave"
    and "\<And>i. i \<in> set wave \<Longrightarrow> if i \<in> wi_idx ` set (List.map_filter id preps) then B i else A i"
proof -
  have "distinct (map wi_idx (List.map_filter id preps)) \<and> wi_idx ` set (List.map_filter id preps) \<subseteq> set wave \<and>
      (\<forall>i \<in> set wave. if i \<in> wi_idx ` set (List.map_filter id preps) then B i else A i)"
    using assms
  proof (induction wave preps rule: list_all2_induct)
    case (Cons i wave y preps)
    then show ?case
      by (cases y) (force simp: List.map_filter_def)+
  qed (simp add: List.map_filter_def)
  then show "distinct (map wi_idx (List.map_filter id preps))" "wi_idx ` set (List.map_filter id preps) \<subseteq> set wave"
    "\<And>i. i \<in> set wave \<Longrightarrow> if i \<in> wi_idx ` set (List.map_filter id preps) then B i else A i" by blast+
qed

lemma calls_fresh:
  assumes "call_chats C N ws m = (m', Inr resps)" "distinct (map wi_idx ws)" "wi_idx ` set ws \<subseteq> idxs m"
    and "\<And>w. w \<in> set ws \<Longrightarrow> fresh_view (role_view m (wi_idx w))"
  shows "owned (wi_idx ` set ws) m m'" "\<And>w. w \<in> set ws \<Longrightarrow> fresh_view (role_view m' (wi_idx w))"
proof -
  define order where "order = (if use_parallel C \<and> length ws > 1 then schedule_items N (ma_tick m) (map wi_idx ws) else map wi_idx ws)"
  have order: "distinct order" "set order = wi_idx ` set ws"
    using assms(2) by (auto simp: order_def schedule_items_def Let_def)
  obtain m1 where o1: "owned {} m m1" and r: "forM order (call_item N ws) m1 = (m', Inr resps)"
  proof (cases "use_parallel C \<and> length ws > 1")
    case True
    then show thesis using assms(1) that [OF owns.R_tick] by (simp add: call_chats_def order_def)
  next
    case False
    then show thesis using assms(1) that [OF owned_refl] by (auto simp: call_chats_def order_def run_bind run_ret)
  qed
  have v1: "role_view m1 i = role_view m i" for i using owned_view [OF o1] by simp
  have fresh: "fresh_view (role_view m1 i)" if "i \<in> set order" for i using assms(4) order(2) that v1 by auto
  have "owned ((\<lambda>i. i) ` set order) m1 m' \<and> (\<forall>i \<in> set order. fresh_view (role_view m' i))"
  proof -
    have d: "distinct (map (\<lambda>i. i) order)" "(\<lambda>i. i) ` set order \<subseteq> idxs m1"
      using order assms(3) owned_idxs [OF o1] by simp_all
    have f: "fresh_view (role_view b i)" if "call_item N ws i a = (b, Inr y)" "fresh_view (role_view a i)" for i a b y
      by (rule same_done_fresh [OF keepsD [OF done_call_item that(1)] that(2)])
    have k: "keeps (owned {i}) (call_item N ws i)" for i by (rule keeps_call_item)
    show ?thesis using pass_subset [where k = "\<lambda>i. i" and P = fresh_view and Q = fresh_view, OF r d k _ fresh] f by blast
  qed
  then show "owned (wi_idx ` set ws) m m'" "\<And>w. w \<in> set ws \<Longrightarrow> fresh_view (role_view m' (wi_idx w))"
    using owned_trans [OF owned_mono [OF o1]] order(2) by auto
qed

text \<open>A role no call of which was logged stays so, when only other roles run.\<close>

definition unexecuted_view :: "assignment \<times> bool \<times> bool \<times> string option option \<Rightarrow> bool" where
  "unexecuted_view v \<longleftrightarrow> (case v of (a, finalized, executed, st) \<Rightarrow> \<not> executed)"

lemma unexecuted_iff: "unexecuted_view (role_view m i) \<longleftrightarrow> i \<notin> fst ` set (ma_execs m)"
  by (simp add: unexecuted_view_def role_view_def)

lemma fresh_unexecuted: "fresh_view v \<Longrightarrow> unexecuted_view v"
  by (auto simp: fresh_view_def unexecuted_view_def)

theorem wave_settled:
  assumes "run_wave C N wave m = (m', Inr stop)" "distinct wave" "set wave \<subseteq> idxs m"
    and "\<And>i. i \<in> set wave \<Longrightarrow> fresh_view (role_view m i)"
  shows "owned (set wave) m m'" "\<And>i. i \<in> set wave \<Longrightarrow> role_settled C m' i"
proof -
  obtain preps m1 where p: "forM wave (prepare_item C N) m = (m1, Inr preps)"
    and r: "(let ws = List.map_filter id preps;
           execs = filter (\<lambda>w. wi_mode w = ''executor'') ws; chats = filter (\<lambda>w. wi_mode w \<noteq> ''executor'') ws
       in bindM (call_chats C N chats) (\<lambda>resps.
          bindM (forM execs (\<lambda>w. run_executor C N (wi_idx w) (wi_user w) (wi_system w) (wi_before w))) (\<lambda>_.
          bindM (forM chats (\<lambda>w. finalize_chat C N (wi_idx w) (reply_of resps (wi_idx w)) (wi_before w))) (\<lambda>stops.
          retM (case rev (filter snd (zip chats stops)) of
                  [] \<Rightarrow> None | (w, _) # _ \<Rightarrow> Some (reply_of resps (wi_idx w))))))) m1 = (m', Inr stop)"
    using assms(1) unfolding run_wave_def run_bind by blast
  define ws where "ws = List.map_filter id preps"
  define es where "es = filter (\<lambda>w. wi_mode w = ''executor'') ws"
  define cs where "cs = filter (\<lambda>w. wi_mode w \<noteq> ''executor'') ws"
  obtain resps m2 xs m3 stops where c: "call_chats C N cs m1 = (m2, Inr resps)"
    and e: "forM es (\<lambda>w. run_executor C N (wi_idx w) (wi_user w) (wi_system w) (wi_before w)) m2 = (m3, Inr xs)"
    and f: "forM cs (\<lambda>w. finalize_chat C N (wi_idx w) (reply_of resps (wi_idx w)) (wi_before w)) m3 = (m', Inr stops)"
    using r unfolding Let_def ws_def [symmetric] es_def [symmetric] cs_def [symmetric] run_bind run_ret by blast
  let ?E = "wi_idx ` set es" and ?C = "wi_idx ` set cs"
  have 1: "owned ((\<lambda>i. i) ` set wave) m m1 \<and> list_all2 (\<lambda>i y. case y of
      None \<Rightarrow> settled_view C (role_view m1 i) | Some w \<Rightarrow> wi_idx w = i \<and> fresh_view (role_view m1 i)) wave preps"
  proof (rule pass_over_roles [OF p, where P = fresh_view and
      Q = "\<lambda>i y v. case y of None \<Rightarrow> settled_view C v | Some w \<Rightarrow> wi_idx w = i \<and> fresh_view v"])
    show "case y of None \<Rightarrow> settled_view C (role_view b i) | Some w \<Rightarrow> wi_idx w = i \<and> fresh_view (role_view b i)"
      if "i \<in> idxs a" "fresh_view (role_view a i)" "prepare_item C N i a = (b, Inr y)" for i a b y
      using prepare_item_result [OF that(3,1,2)] by (cases y) (simp_all add: role_settled_def)
  qed (use assms(2-4) keeps_prepare_item in auto)
  note items = prepared_items [OF conjunct2 [OF 1] assms(2), folded ws_def]
  have split: "?E \<union> ?C = wi_idx ` set ws" "?E \<inter> ?C = {}" "distinct (map wi_idx es)" "distinct (map wi_idx cs)"
    using items(1) by (auto simp: es_def cs_def distinct_map inj_on_def)
  have sub: "?E \<subseteq> set wave" "?C \<subseteq> set wave" using split(1) items(2) by auto
  have i1: "idxs m1 = idxs m" using owned_idxs [OF conjunct1 [OF 1]] .
  have fresh1: "fresh_view (role_view m1 i)" if "i \<in> ?E \<union> ?C" for i
    using items(3) [of i] items(2) that unfolding split(1) by (auto split: if_splits)
  have 2: "owned ?C m1 m2" "\<And>w. w \<in> set cs \<Longrightarrow> fresh_view (role_view m2 (wi_idx w))"
    using calls_fresh [OF c split(4)] sub assms(3) i1 fresh1 by auto
  have i2: "idxs m2 = idxs m" using owned_idxs [OF 2(1)] i1 by simp
  have 3: "owned ?E m2 m3" "\<And>w. w \<in> set es \<Longrightarrow> settled_view C (role_view m3 (wi_idx w))"
  proof -
    have "?E \<subseteq> idxs m2" using sub assms(3) i2 by auto
    note pass_subset [OF e split(3) this, where P = "\<lambda>_. True" and Q = "settled_view C"]
    then show "owned ?E m2 m3" "\<And>w. w \<in> set es \<Longrightarrow> settled_view C (role_view m3 (wi_idx w))"
      using keeps_executor executor_settled by (auto simp: role_settled_def)
  qed
  have i3: "idxs m3 = idxs m" using owned_idxs [OF 3(1)] i2 by simp
  have 4: "owned ?C m3 m'" "\<And>w. w \<in> set cs \<Longrightarrow> settled_view C (role_view m' (wi_idx w))"
  proof -
    have s: "?C \<subseteq> idxs m3" using sub assms(3) i3 by auto
    have u: "unexecuted_view (role_view m3 (wi_idx w))" if "w \<in> set cs" for w
    proof -
      have "wi_idx w \<notin> ?E" using split(2) that by blast
      then show ?thesis using owned_view [OF 3(1)] 2(2) [OF that] fresh_unexecuted by simp
    qed
    have k: "keeps (owned {wi_idx w}) (finalize_chat C N (wi_idx w) (reply_of resps (wi_idx w)) (wi_before w))" for w
      by (rule keeps_finalize_chat)
    have q: "settled_view C (role_view b (wi_idx w))"
      if "wi_idx w \<in> idxs a" "unexecuted_view (role_view a (wi_idx w))"
        "finalize_chat C N (wi_idx w) (reply_of resps (wi_idx w)) (wi_before w) a = (b, Inr y)" for w a b y
      using finalize_chat_settled [OF that(3,1)] that(2) by (simp add: unexecuted_iff role_settled_def)
    show "owned ?C m3 m'" "\<And>w. w \<in> set cs \<Longrightarrow> settled_view C (role_view m' (wi_idx w))"
      using pass_subset [where P = unexecuted_view and Q = "settled_view C", OF f split(4) s k _ u] q by blast+
  qed
  have o: "owned (set wave) m1 m'"
    using owned_trans [OF owned_trans [OF owned_mono [OF 2(1)] owned_mono [OF 3(1)]] owned_mono [OF 4(1)]] sub by simp
  show "owned (set wave) m m'" using owned_trans [OF conjunct1 [OF 1]] o by simp
  show "role_settled C m' i" if i: "i \<in> set wave" for i
  proof -
    consider "i \<in> ?C" | "i \<in> ?E" "i \<notin> ?C" | "i \<notin> ?E \<union> ?C" by blast
    then show ?thesis
    proof cases
      case 1
      then show ?thesis using 4(2) by (auto simp: role_settled_def)
    next
      case 2
      then have "role_view m' i = role_view m3 i" by (intro owned_view [OF 4(1)])
      then show ?thesis using 3(2) 2(1) by (auto simp: role_settled_def)
    next
      case 3
      then have "settled_view C (role_view m1 i)" using items(3) [OF i] split(1) by auto
      moreover have "role_view m' i = role_view m1 i"
        using owned_view [OF 4(1), of i] owned_view [OF \<open>owned ?E m2 m3\<close>, of i] owned_view [OF \<open>owned ?C m1 m2\<close>, of i] 3 by simp
      ultimately show ?thesis by (simp add: role_settled_def)
    qed
  qed
qed

section \<open>All waves\<close>

lemma cur_map:
  assumes "\<And>a. as_idx (f a) = as_idx a" "i \<in> idxs m"
  shows "cur (m\<lparr>ma_items := map f (ma_items m)\<rparr>) i = f (cur m i)"
proof -
  have "find (\<lambda>a. as_idx a = i) (map f xs) = map_option f (find (\<lambda>a. as_idx a = i) xs)" for xs
    by (induction xs) (simp_all add: assms(1))
  moreover have "find (\<lambda>a. as_idx a = i) (ma_items m) \<noteq> None"
    using assms(2) by (auto simp: find_None_iff)
  ultimately show ?thesis by (auto simp: cur_def)
qed

lemma cur_no_item: "i \<notin> idxs m \<Longrightarrow> cur m i = new_assignment i [] [] [] [] [] []"
proof -
  assume "i \<notin> idxs m"
  then have "find (\<lambda>a. as_idx a = i) (ma_items m) = None" by (auto simp: find_None_iff)
  then show ?thesis by (simp add: cur_def)
qed

text \<open>After a spent budget every role that was not finalized is finalized as failed; no other role changes.\<close>

lemma stop_rest_frame [simp]:
  "ma_plan (stop_rest e m) = ma_plan m" "ma_execs (stop_rest e m) = ma_execs m"
  "gw_calls (ma_gw (stop_rest e m)) = gw_calls (ma_gw m)" "map as_idx (ma_items (stop_rest e m)) = map as_idx (ma_items m)"
  by (simp_all add: stop_rest_def Let_def)

lemma stop_rest_idxs [simp]: "idxs (stop_rest e m) = idxs m"
  using stop_rest_frame(4) [of e m] by (metis set_map)

lemma stop_rest_cur:
  "cur (stop_rest e m) i = (if i \<in> idxs m \<and> i \<notin> set (ma_done m) then (cur m i)\<lparr>as_error := e, as_ok := False\<rparr> else cur m i)"
proof (cases "i \<in> idxs m")
  case True
  define f where "f a = (if as_idx a \<in> set (ma_done m) then a else a\<lparr>as_error := e, as_ok := False\<rparr>)" for a :: assignment
  have "cur (stop_rest e m) i = cur (m\<lparr>ma_items := map f (ma_items m)\<rparr>) i"
    by (simp add: cur_def stop_rest_def Let_def f_def cong: map_cong)
  also have "\<dots> = f (cur m i)" by (rule cur_map [OF _ True]) (simp add: f_def)
  finally show ?thesis using True by (simp add: f_def)
next
  case False
  then show ?thesis using cur_no_item [of i m] cur_no_item [of i "stop_rest e m"] by simp
qed

lemma stop_rest_done: "set (ma_done (stop_rest e m)) = set (ma_done m) \<union> idxs m"
  by (auto simp: stop_rest_def Let_def)

lemma stop_rest_owned: "owned (idxs m - set (ma_done m)) m (stop_rest e m)"
proof -
  have "distinct (ma_done (stop_rest e m))" if "distinct (ma_done m)"
    using that by (auto simp: stop_rest_def Let_def)
  moreover have "fixed_part (stop_rest e m) = fixed_part m"
    by (simp add: fixed_part_def stop_rest_def Let_def)
  moreover have "grows (idxs m - set (ma_done m)) (set (ma_done m)) (set (ma_done (stop_rest e m)))"
    by (auto simp: grows_def stop_rest_done)
  ultimately show ?thesis by (simp add: owned_def stop_rest_cur)
qed

lemma stop_rest_settled: "i \<in> idxs m - set (ma_done m) \<Longrightarrow> role_settled C (stop_rest e m) i"
  by (intro settled_not_ok) (auto simp: stop_rest_done stop_rest_cur)

text \<open>The roles of the waves to come are untouched, all others are settled.\<close>

definition waves_ahead :: "ma_cfg \<Rightarrow> int list list \<Rightarrow> ma_state \<Rightarrow> bool" where
  "waves_ahead C ws m \<longleftrightarrow> distinct (concat ws) \<and> set (concat ws) \<subseteq> idxs m \<and>
     (\<forall>i \<in> idxs m. if i \<in> set (concat ws) then fresh_view (role_view m i) else role_settled C m i)"

lemma wave_ahead:
  assumes "waves_ahead C (w # ws) m" "run_wave C N w m = (m', Inr stop)"
  shows "owned (idxs m) m m'" "waves_ahead C ws m'"
proof -
  have w: "distinct w" "set w \<subseteq> idxs m" "\<And>i. i \<in> set w \<Longrightarrow> fresh_view (role_view m i)" "set w \<inter> set (concat ws) = {}"
    using assms(1) by (auto simp: waves_ahead_def split: if_splits)
  note s = wave_settled [OF assms(2) w(1,2,3)]
  show "owned (idxs m) m m'" using owned_mono [OF s(1) w(2)] .
  have v: "role_view m' i = role_view m i" if "i \<notin> set w" for i using owned_view [OF s(1) that] .
  have "if i \<in> set (concat ws) then fresh_view (role_view m' i) else role_settled C m' i" if i: "i \<in> idxs m" for i
  proof (cases "i \<in> set w")
    case True
    then have "i \<notin> set (concat ws)" using w(4) by blast
    then show ?thesis using s(2) True by simp
  next
    case False
    have "if i \<in> set (concat (w # ws)) then fresh_view (role_view m i) else role_settled C m i"
      using assms(1) i unfolding waves_ahead_def by blast
    then show ?thesis using v [OF False] False by (cases "i \<in> set (concat ws)") (simp_all add: role_settled_def)
  qed
  then show "waves_ahead C ws m'"
    using assms(1) owned_idxs [OF s(1)] by (simp add: waves_ahead_def)
qed

lemma waves_settled:
  "run_waves C N ws m = (m', Inr u) \<Longrightarrow> waves_ahead C ws m \<Longrightarrow> owned (idxs m) m m' \<and> (\<forall>i \<in> idxs m. role_settled C m' i)"
proof (induction ws arbitrary: m)
  case Nil
  then show ?case by (simp add: run_ret waves_ahead_def)
next
  case (Cons w ws)
  obtain m1 stop where 1: "run_wave C N w m = (m1, Inr stop)"
    and 2: "(case stop of
       Some reply \<Rightarrow> modM (stop_rest (stop_error (ge_builtins (me_gateway N)) reply))
     | None \<Rightarrow> run_waves C N ws) m1 = (m', Inr u)"
    using Cons.prems(1) by (auto simp: run_bind)
  note a = wave_ahead [OF Cons.prems(2) 1]
  have i1: "idxs m1 = idxs m" using owned_idxs [OF a(1)] .
  show ?case
  proof (cases stop)
    case None
    then have "owned (idxs m) m1 m' \<and> (\<forall>i \<in> idxs m. role_settled C m' i)"
      using Cons.IH [OF _ a(2)] 2 i1 by simp
    then show ?thesis using owned_trans [OF a(1)] by blast
  next
    case (Some reply)
    define e where "e = stop_error (ge_builtins (me_gateway N)) reply"
    have m': "m' = stop_rest e m1" using 2 Some by (simp add: run_mod e_def)
    have o: "owned (idxs m - set (ma_done m1)) m1 m'" using stop_rest_owned [of m1 e] i1 m' by simp
    have "role_settled C m' i" if "i \<in> idxs m" for i
    proof (cases "i \<in> set (ma_done m1)")
      case True
      then have "role_settled C m1 i" using a(2) that i1 by (auto simp: waves_ahead_def fresh_iff split: if_splits)
      then show ?thesis using owned_view [OF o, of i] True by (simp add: role_settled_def)
    next
      case False
      then show ?thesis using stop_rest_settled [of i m1 C e] that i1 m' by simp
    qed
    then show ?thesis using owned_trans [OF a(1) owned_mono [OF o]] by blast
  qed
qed

section \<open>The whole run\<close>

lemma close_run_owned: "close_run C N m = (m', Inr u) \<Longrightarrow> owned {} m m'"
proof -
  have "plan_rel (mine {}) p (map_option recompute_plan_status p)" for p
    using bookkeeping [of "recompute_plan_status _" _]
    by (cases p) (auto simp: plan_rel_def status_of_def intro!: r_into_rtranclp)
  then have "keeps (owned {}) (planM recompute_plan_status)"
    unfolding planM_def by (intro owns.keeps_mod) (simp add: owned_def fixed_part_def cur_def)
  then have "keeps (owned {}) (close_run C N)"
    unfolding close_run_def
    by (intro owns.keeps_rules keeps_save owns.keeps_mod owned_frame) simp_all
  then show "close_run C N m = (m', Inr u) \<Longrightarrow> owned {} m m'" by (rule keepsD)
qed

lemma local_waves_cover:
  assumes "idx_distinct items"
  shows "distinct (concat (local_waves C items))" "set (concat (local_waves C items)) = as_idx ` set items"
proof -
  have c: "concat (map (map as_idx) ws) = map as_idx (concat ws)" for ws :: "assignment list list" by (simp add: map_concat)
  have "concat (map (\<lambda>a. [a]) items) = items" by (induction items) simp_all
  then show "distinct (concat (local_waves C items))" "set (concat (local_waves C items)) = as_idx ` set items"
    using build_waves_covers [OF assms] assms unfolding local_waves_def c by (auto simp: idx_distinct_def)
qed

lemma with_modes_idx [simp]: "map as_idx (with_modes C items) = map as_idx items"
  by (simp add: with_modes_def)

lemma attached_gate: "gate_holds status_of needs_of (assignments_to_plan task items pid tid cwd cfg modes)"
  unfolding gate_holds_def
proof (intro allI impI ballI)
  fix i st d
  assume "status_of (assignments_to_plan task items pid tid cwd cfg modes) i = Some st" "past_gate st"
  then have "past_gate PENDING"
    by (auto simp: status_of_def assignments_to_plan_def bridge_step_def new_step_def Let_def dest!: find_SomeD)
  then show "status_of (assignments_to_plan task items pid tid cwd cfg modes) d = Some VERIFIED" by simp
qed

text \<open>The plan a run starts with: none, or one that the engine accepts and in which no step has begun.\<close>

definition gated :: "plan option \<Rightarrow> bool" where
  "gated p \<longleftrightarrow> (\<forall>q. p = Some q \<longrightarrow> ids_distinct q \<and> gate_holds status_of needs_of q)"

lemma gated_moves: "gated p \<Longrightarrow> plan_rel A p q \<Longrightarrow> gated q"
  using plan_gate.gate_moves plan_gate.sane_moves by (auto simp: gated_def plan_rel_def split: option.splits)

lemma with_plan_start:
  assumes "setup_plan_and_modes C N (new_local_run items d runs g) = (m, Inr u)"
  shows "map as_idx (ma_items m) = map as_idx items" "ma_done m = []" "ma_execs m = []" "gated (ma_plan m)"
proof -
  let ?new = "new_local_run items d runs g"
  have m0: "ma_items ?new = items \<and> ma_done ?new = [] \<and> ma_execs ?new = []" by (simp add: new_local_run_def)
  define P where "P m \<longleftrightarrow> map as_idx (ma_items m) = map as_idx items \<and> ma_done m = [] \<and> ma_execs m = []" for m :: ma_state
  obtain m1 m2 where 1: "attach_plan C N m1 = (m2, Inr ())" "P m1"
    and 2: "start_tracking C N m2 = (m, Inr u)"
    using assms m0 unfolding setup_plan_and_modes_def by (auto simp: run_simps P_def)
  have "P m2 \<and> gated (ma_plan m2)"
  proof (cases "plan_gates_enabled (mc_plan C)")
    case False
    then show ?thesis using 1 by (auto simp: attach_plan_def run_simps P_def gated_def)
  next
    case True
    define p where "p = assignments_to_plan (mc_task C) (ma_items m1) (run_plan_id C N) (mc_task_id C) (mc_cwd C) (mc_plan C) (ma_role_modes m1)"
    show ?thesis
    proof (cases "validate p")
      case (Inl e)
      then show ?thesis using 1 True by (auto simp: attach_plan_def run_simps P_def gated_def Let_def simp flip: p_def)
    next
      case (Inr v)
      define mode where "mode = (case mc_plan C of None \<Rightarrow> ''shadow'' | Some pc \<Rightarrow> lower (str_or (pc_mode pc) ''shadow''))"
      define m3 where "m3 = m1\<lparr>ma_plan := Some p, ma_gates := True, ma_mode := mode\<rparr>"
      have s: "saveM N m3 = (m2, Inr ())"
        using 1(1) True Inr by (simp add: attach_plan_def Let_def m3_def flip: p_def mode_def)
      have "well_formed p" using Inr validate_accepts_iff by simp
      then have "gated (Some p)" using attached_gate by (simp add: gated_def p_def well_formed_def graph_ok_def step_ids_def)
      moreover have "owned {} m3 m2" by (rule keepsD [OF keeps_save s])
      ultimately have "gated (ma_plan m2)" using gated_moves by (auto simp: owned_def m3_def)
      moreover have "P m2"
        using 1(2) s by (auto simp: P_def m3_def saveM_def split: prod.splits option.splits)
      ultimately show ?thesis by simp
    qed
  qed
  then show "map as_idx (ma_items m) = map as_idx items" "ma_done m = []" "ma_execs m = []" "gated (ma_plan m)"
    using 2 by (auto simp: start_tracking_def run_simps P_def)
qed

theorem local_run_result:
  assumes "run_local C N (new_local_run items d runs g) = (m', Inr u)" "idx_distinct items"
  shows "map as_idx (ma_items m') = map as_idx items"
    and "distinct (ma_done m')" "set (ma_done m') = as_idx ` set items"
    and "\<And>a. a \<in> set (ma_items m') \<Longrightarrow> as_ok a \<Longrightarrow> step_verified (ma_plan m') (assignment_step_id (as_idx a) (as_role a))"
    and "\<And>a. a \<in> set (ma_items m') \<Longrightarrow> as_ok a \<Longrightarrow> mc_requires_code_gen C \<Longrightarrow> as_idx a \<in> fst ` set (ma_execs m') \<Longrightarrow> as_files a \<noteq> []"
    and "gated (ma_plan m')"
proof -
  obtain m1 m2 where 1: "setup_plan_and_modes C N (new_local_run items d runs g) = (m1, Inr ())"
    and 2: "run_waves C N (local_waves C (ma_items m1)) m1 = (m2, Inr ())" and 3: "close_run C N m2 = (m', Inr u)"
    using assms(1) by (auto simp: run_local_def run_seq)
  note s = with_plan_start [OF 1]
  have i1: "idxs m1 = as_idx ` set items" using s(1) by (metis set_map)
  have "idx_distinct (ma_items m1)" using assms(2) s(1) by (simp add: idx_distinct_def)
  note w = local_waves_cover [OF this, of C]
  have "waves_ahead C (local_waves C (ma_items m1)) m1"
    using w s(2,3) by (auto simp: waves_ahead_def fresh_iff)
  note r = waves_settled [OF 2 this]
  have o: "owned (idxs m1) m1 m'"
    by (rule owned_trans [OF conjunct1 [OF r] owned_mono [OF close_run_owned [OF 3]]]) simp
  have settled: "role_settled C m' i" if "i \<in> idxs m1" for i
    using bspec [OF conjunct2 [OF r] that] owned_view [OF close_run_owned [OF 3], of i] by (simp add: role_settled_def)
  have "map fst (fst (fixed_part m')) = map fst (fst (fixed_part m1))" using o by (simp add: owned_def)
  then show ids: "map as_idx (ma_items m') = map as_idx items" using s(1) by (simp add: fixed_part_def comp_def)
  show "distinct (ma_done m')" "gated (ma_plan m')" using o s(2,4) gated_moves by (auto simp: owned_def)
  show "set (ma_done m') = as_idx ` set items"
    using o s(2) settled i1 by (auto simp: owned_def grows_def role_settled_iff)
  have cur: "cur m' (as_idx a) = a \<and> as_idx a \<in> idxs m1" if a: "a \<in> set (ma_items m')" for a
  proof -
    have "distinct (map as_idx (ma_items m'))" using ids assms(2) by (simp add: idx_distinct_def)
    then have "find (\<lambda>b. as_idx b = as_idx a) (ma_items m') = Some a" using a by (intro find_key_distinct)
    moreover have "as_idx a \<in> set (map as_idx (ma_items m'))" using a by simp
    then have "as_idx a \<in> idxs m1" using ids i1 by simp
    ultimately show ?thesis by (simp add: cur_def)
  qed
  show "step_verified (ma_plan m') (assignment_step_id (as_idx a) (as_role a))" if "a \<in> set (ma_items m')" "as_ok a" for a
    using settled [of "as_idx a"] cur [OF that(1)] that(2) by (simp add: role_settled_iff step_id_of_def)
  show "as_files a \<noteq> []"
    if "a \<in> set (ma_items m')" "as_ok a" "mc_requires_code_gen C" "as_idx a \<in> fst ` set (ma_execs m')" for a
    using settled [of "as_idx a"] cur [OF that(1)] that by (simp add: role_settled_iff)
qed

end
