(* ===== verification/Multi_Agent_Executors.thy ===== *)
theory Multi_Agent_Executors
  imports Multi_Agent_Results
begin

text \<open>
  Which roles may start the executor runner, the one call of a multi-agent run that writes files.  The
  relation \<open>confined A\<close>: the runner was started for roles of \<open>A\<close> only, and no role became an executor.
  Unlike the facts on finalized roles these hold of runs that raise, too.
\<close>

definition exec_mode :: "ma_state \<Rightarrow> int \<Rightarrow> bool" where
  "exec_mode m i \<longleftrightarrow> as_mode (cur m i) = ''executor'' \<or> ma_role_modes m i = Some ''executor''"

definition confined :: "int set \<Rightarrow> ma_state \<Rightarrow> ma_state \<Rightarrow> bool" where
  "confined A m m' \<longleftrightarrow> (\<forall>i. exec_mode m' i \<longrightarrow> exec_mode m i) \<and> fst ` set (ma_execs m') \<subseteq> fst ` set (ma_execs m) \<union> A"

interpretation ins: ma_relation "confined A" for A
proof
  show "confined A m m1 \<Longrightarrow> confined A m1 m2 \<Longrightarrow> confined A m m2" for m m1 m2
    unfolding confined_def by blast
  show "confined A m (m\<lparr>ma_tick := n\<rparr>)" for m n
    by (simp add: confined_def exec_mode_def)
qed (simp add: confined_def)

lemma confined_frame:
  "ma_items m' = ma_items m \<Longrightarrow> ma_role_modes m' = ma_role_modes m \<Longrightarrow> ma_execs m' = ma_execs m \<Longrightarrow> confined A m m'"
  using cur_frame [of m' m] by (auto simp: confined_def exec_mode_def)

section \<open>The operations on one role\<close>

lemma confined_items:
  assumes "\<And>a. as_idx a = i \<Longrightarrow> as_idx (f a) = i"
    and "as_mode (f (cur m i)) = ''executor'' \<Longrightarrow> exec_mode m i"
  shows "confined A m (m\<lparr>ma_items := upd_first (\<lambda>a. as_idx a = i) f (ma_items m)\<rparr>)"
  using assms by (auto simp: confined_def exec_mode_def cur_upd split: if_splits)

lemma ins_upd:
  "(\<And>a. as_idx a = i \<Longrightarrow> as_idx (f a) = i) \<Longrightarrow> (\<And>a. as_mode (f a) = as_mode a) \<Longrightarrow> keeps (confined A) (upd_item i f)"
  unfolding upd_item_def by (intro ins.keeps_mod confined_items) (simp_all add: exec_mode_def)

lemma ins_sync: "keeps (confined A) (sync_item i s)"
  unfolding keeps_def
proof
  fix m
  show "confined A m (fst (sync_item i s m))"
  proof (cases "sync_assignment_plan_fields (cur m i) s")
    case (Inr a)
    have "confined A m (m\<lparr>ma_items := upd_first (\<lambda>b. as_idx b = i) (\<lambda>_. a) (ma_items m)\<rparr>)"
      using sync_frame [OF Inr] by (intro confined_items) (auto simp: same_identity_def exec_mode_def)
    then show ?thesis by (simp add: sync_item_def Inr)
  qed (simp add: sync_item_def ins.R_refl)
qed

lemma ins_planM: "keeps (confined A) (planM h)" and ins_notes: "keeps (confined A) (modM (\<lambda>m. m\<lparr>ma_notes := g m\<rparr>))"
  and ins_mark: "keeps (confined A) (mark_done i)" and ins_beat: "keeps (confined A) (beat C N i)"
  and ins_activate: "keeps (confined A) (activate C N i mode)" and ins_open: "keeps (confined A) (shadow_open sid)"
  and ins_exclude: "keeps (confined A) (excludeM N i)" and ins_remember: "keeps (confined A) (remember C i d)"
  unfolding planM_def mark_done_def beat_def activate_def shadow_open_def excludeM_def remember_def
  by (intro ins.keeps_mod confined_frame; simp add: send_beat_def send_node_def Let_def split: option.split sum.split)+

lemma ins_engine: "keeps (confined A) (engineM N f)" and ins_engine2: "keeps (confined A) (engine2M N h)"
  and ins_save: "keeps (confined A) (saveM N)"
  unfolding keeps_def
  by (auto simp: engineM_def engine2M_def saveM_def intro!: confined_frame split: option.split sum.split prod.split)

lemma ins_finalize: "keeps (confined A) (finalize C N i)"
  unfolding finalize_def by (intro ins.keeps_seq ins_mark ins_beat)

lemma ins_finish: "keeps (confined A) (finish_step_plan C N i exec_ok before)"
  unfolding finish_step_plan_def verify_role_def settle_role_def
  by (intro ins.keeps_bind_read, simp only: prod.case,
      intro ins.keeps_rules ins_planM ins_engine ins_engine2 ins_upd ins_save ins_sync ins_open) simp_all

lemma ins_start: "keeps (confined A) (start_step C N i)"
  unfolding start_step_def
  by (intro ins.keeps_bind_read, simp only: prod.case,
      intro ins.keeps_rules ins_upd ins_finalize ins_save ins_engine, unfold Let_def,
      intro ins.keeps_rules ins_upd ins_finalize) simp_all

lemma ins_prompt: "keeps (confined A) (user_prompt C N i)"
  unfolding user_prompt_def Let_def
  by (intro ins.keeps_bind_read, simp only: prod.case, intro ins.keeps_rules)

lemma skip_confined:
  assumes "mode = ''executor'' \<Longrightarrow> exec_mode m i"
  shows "confined A m (fst (skip_role C N i error mode reason m))"
proof -
  define f where "f = (\<lambda>a :: assignment. a\<lparr>as_ok := False, as_error := error, as_content := ''('' @ error @ '')'', as_mode := mode,
             as_mode_reason := reason, as_plan_status := ''skipped''\<rparr>)"
  define m1 where "m1 = m\<lparr>ma_items := upd_first (\<lambda>a. as_idx a = i) f (ma_items m)\<rparr>"
  have "confined A m m1" unfolding m1_def by (rule confined_items) (use assms in \<open>simp_all add: f_def\<close>)
  moreover have "fst (skip_role C N i error mode reason m) = fst (finalize C N i m1)"
    by (simp add: skip_role_def upd_item_def m1_def f_def)
  moreover have "confined A m1 (fst (finalize C N i m1))" using ins_finalize unfolding keeps_def by blast
  ultimately show ?thesis using ins.R_trans by metis
qed

lemma keeps_at_seq_ret: "R m (fst (f m)) \<Longrightarrow> R m (fst (seqM f (retM x) m))"
  by (cases "f m"; cases "snd (f m)") (auto simp: seqM_def bindM_def retM_def)

lemma role_mode_exec: "role_mode_of m (cur m i) = ''executor'' \<Longrightarrow> exec_mode m i"
  "str_or (as_mode (cur m i)) ''chat'' = ''executor'' \<Longrightarrow> exec_mode m i"
  by (auto simp: role_mode_of_def exec_mode_def str_or_def split: option.splits if_splits)

lemma ins_prepare: "keeps (confined A) (prepare C N i)"
  unfolding keeps_def
proof
  fix m
  define go where "go v = seqM (case v of
                 Degraded roles \<Rightarrow>
                   seqM (modM (\<lambda>m. m\<lparr>ma_notes := dict_set i roles (ma_notes m)\<rparr>))
                     (upd_item i (\<lambda>a. a\<lparr>as_mode_reason := (if as_mode_reason a \<noteq> []
                        then as_mode_reason a @ ''+degraded_prior_failed'' else ''degraded_prior_failed'')\<rparr>))
               | _ \<Rightarrow> retM ())
         (bindM (start_step C N i) (\<lambda>started.
          if \<not> started then retM None
          else bindM (askM (\<lambda>n. git_porcelain (me_world N n) (mc_cwd C))) (\<lambda>git_before.
               bindM (user_prompt C N i) (\<lambda>user.
               bindM (readM (\<lambda>m. cur m i)) (\<lambda>a.
               bindM (askM (\<lambda>n. me_system N n a)) (\<lambda>system.
               retM (Some (user, system, git_before))))))))" for v
  have deg: "keeps (confined A) (case v of Degraded r \<Rightarrow> f r | _ \<Rightarrow> retM ())" if "\<And>r. keeps (confined A) (f r)" for v f
    using that by (cases v) (simp_all add: ins.keeps_ret)
  have "keeps (confined A) (go v)" for v
    unfolding go_def by (intro ins.keeps_rules ins_start ins_prompt deg ins_notes ins_upd) simp_all
  then have go: "confined A m (fst (go v m))" for v unfolding keeps_def by blast
  have skip: "confined A m (fst (seqM (skip_role C N i e mode reason) (retM None) m))"
    if "mode = ''executor'' \<Longrightarrow> exec_mode m i" for e mode reason
    by (rule keeps_at_seq_ret) (rule skip_confined [OF that])
  have run: "prepare C N i m = (case cascade C m (cur m i) of
       NoCode roles \<Rightarrow> seqM (skip_role C N i (''skipped: no code produced '' @ dash @ '' all executor roles failed ('' @ join '', '' roles @ '')'')
                 (role_mode_of m (cur m i)) ''skipped_no_code'') (retM None)
     | PriorFailed roles \<Rightarrow> seqM (skip_role C N i (''skipped: prior role(s) failed ('' @ join '', '' roles @ '')'')
                 (str_or (as_mode (cur m i)) ''chat'') ''skipped_prior_failed'') (retM None)
     | _ \<Rightarrow> go (cascade C m (cur m i))) m"
    unfolding prepare_def exec_simps prod.case go_def ..
  show "confined A m (fst (prepare C N i m))"
    by (cases "cascade C m (cur m i)"; simp only: run cascade_verdict.case; intro go skip role_mode_exec)
qed

lemma ins_delta: "keeps (confined A) (take_delta C N i always before fps)"
  unfolding take_delta_def by (intro ins.keeps_rules ins_upd) simp_all

lemma ins_crash: "keeps (confined A) (crash_executor C N i e before fps)"
  unfolding crash_executor_def
  by (intro ins.keeps_rules ins_upd ins_delta ins_finish ins_finalize) simp_all

lemma ins_close: "keeps (confined A) (close_executor C N i before fps)"
  unfolding close_executor_def
  by (intro ins.keeps_rules ins_upd ins_delta ins_finish ins_finalize) (simp_all add: honest_def)

lemma ins_executor:
  assumes "i \<in> A"
  shows "keeps (confined A) (run_executor C N i user system before)"
proof -
  have outcome: "keeps (confined A) (case v of RunnerRaises e \<Rightarrow> f e | RunnerReply r \<Rightarrow> g r | RunnerText t \<Rightarrow> h t)"
    if "\<And>e. keeps (confined A) (f e)" "\<And>r. keeps (confined A) (g r)" "\<And>t. keeps (confined A) (h t)" for v and f g h :: "_ \<Rightarrow> unit ma"
    using that by (cases v) simp_all
  have log: "keeps (confined A) (modM (\<lambda>m. m\<lparr>ma_execs := ma_execs m @ [(i, e)]\<rparr>))" for e
    using assms by (intro ins.keeps_mod) (auto simp: confined_def exec_mode_def cur_def)
  show ?thesis
    unfolding run_executor_def
    by (intro ins.keeps_bind ins.keeps_ask, simp only: split_beta,
        intro ins.keeps_rules log outcome ins_crash ins_close ins_upd)
      (simp_all add: take_reply_def Let_def)
qed

lemma ins_chat: "keeps (confined A) (chat_call N i user system)"
proof -
  have "keeps (confined A) (\<lambda>m. case chat_with_provider_fallback (me_gateway N) (me_gateway_cfg N) (me_show N)
        (me_request N (cur m i) user system) (cur m i) (ma_gw m) of
      (resp, a, g) \<Rightarrow> (m\<lparr>ma_items := upd_first (\<lambda>b. as_idx b = i) (\<lambda>_. a) (ma_items m), ma_gw := g\<rparr>, Inr (ChatReply resp)))"
    unfolding keeps_def
  proof
    fix m
    obtain resp a g where c: "chat_with_provider_fallback (me_gateway N) (me_gateway_cfg N) (me_show N)
        (me_request N (cur m i) user system) (cur m i) (ma_gw m) = (resp, a, g)" by (metis prod.exhaust)
    have "confined A m (m\<lparr>ma_items := upd_first (\<lambda>b. as_idx b = i) (\<lambda>_. a) (ma_items m)\<rparr>)"
      using fallback_identity [OF c] by (intro confined_items) (auto simp: same_identity_def exec_mode_def)
    then have "confined A m ((m\<lparr>ma_items := upd_first (\<lambda>b. as_idx b = i) (\<lambda>_. a) (ma_items m)\<rparr>)\<lparr>ma_gw := g\<rparr>)"
      by (rule ins.R_trans) (intro confined_frame; simp)
    then show "confined A m (fst (case chat_with_provider_fallback (me_gateway N) (me_gateway_cfg N) (me_show N)
        (me_request N (cur m i) user system) (cur m i) (ma_gw m) of
      (resp, a, g) \<Rightarrow> (m\<lparr>ma_items := upd_first (\<lambda>b. as_idx b = i) (\<lambda>_. a) (ma_items m), ma_gw := g\<rparr>, Inr (ChatReply resp))))"
      by (simp add: c)
  qed
  then show ?thesis unfolding chat_call_def by (intro ins.keeps_rules)
qed

lemma ins_finalize_chat: "keeps (confined A) (finalize_chat C N i outcome before)"
  unfolding finalize_chat_def Let_def
  by (cases outcome; simp only: chat_outcome.case; intro ins.keeps_rules ins_upd ins_exclude ins_remember
      ins_finish ins_finalize) (simp_all add: failed_chat_def)

text \<open>A role is dispatched to an executor only if it was set up as one, and only with a runner.\<close>

lemma ins_dispatch: "keeps (confined A) (dispatch_mode C N i)"
proof -
  have "keeps (confined A) (\<lambda>m. upd_item i (f m) m)"
    if "\<And>m a. as_idx a = i \<Longrightarrow> as_idx (f m a) = i" "\<And>m a. as_mode (f m a) = as_mode a" for f
    using ins_upd [of i] that unfolding keeps_def by blast
  then show ?thesis
    unfolding dispatch_mode_def by (intro ins.keeps_rules ins_upd) simp_all
qed

lemma dispatch_executor:
  assumes "dispatch_mode C N i m = (m', Inr ''executor'')"
  shows "mc_has_runner C \<and> exec_mode m i"
proof -
  define mode where "mode = str_or (as_mode (cur m i)) (case ma_role_modes m i of Some mode \<Rightarrow> mode | None \<Rightarrow> ''chat'')"
  have "mode = ''executor''" "mc_has_runner C"
    using assms by (auto simp: dispatch_mode_def run_simps simp flip: mode_def split: if_splits)
  then show ?thesis by (auto simp: mode_def exec_mode_def str_or_def split: if_splits option.splits)
qed

section \<open>Waves and runs\<close>

lemma ins_prepare_item: "keeps (confined A) (prepare_item C N i)"
  unfolding prepare_item_def
  by (intro ins.keeps_bind ins_prepare ins.keeps_option ins.keeps_ret, simp only: split_beta,
      intro ins.keeps_rules ins_dispatch ins_activate)

lemma prepare_item_executor:
  assumes "prepare_item C N i m = (m', Inr (Some w))" "wi_mode w = ''executor''"
  shows "mc_has_runner C \<and> exec_mode m (wi_idx w)"
proof -
  obtain m1 user system gb where p: "prepare C N i m = (m1, Inr (Some (user, system, gb)))"
    and d: "\<exists>m2. dispatch_mode C N i m1 = (m2, Inr ''executor'')" and w: "wi_idx w = i"
    using assms unfolding prepare_item_def by (auto simp: run_bind run_seq run_ret split: option.splits)
  have "exec_mode m1 i \<longrightarrow> exec_mode m i"
    using keepsD [OF ins_prepare p, of "{}"] by (simp add: confined_def)
  then show ?thesis using d dispatch_executor w by auto
qed

lemma prepared_executors:
  "forM wave (prepare_item C N) m = (m', Inr preps) \<Longrightarrow> Some w \<in> set preps \<Longrightarrow> wi_mode w = ''executor'' \<Longrightarrow>
     mc_has_runner C \<and> exec_mode m (wi_idx w)"
proof (induction wave arbitrary: m preps)
  case (Cons i wave)
  obtain m1 y ys where 1: "prepare_item C N i m = (m1, Inr y)" "forM wave (prepare_item C N) m1 = (m', Inr ys)" "preps = y # ys"
    using Cons.prems(1) by (auto simp: run_bind run_ret)
  have "exec_mode m1 k \<longrightarrow> exec_mode m k" for k
    using keepsD [OF ins_prepare_item 1(1), of "{}"] by (simp add: confined_def)
  then show ?case
    using Cons.IH [OF 1(2)] Cons.prems(2,3) 1 prepare_item_executor by auto
qed (simp add: run_ret)

lemma keeps_at_bind:
  assumes "\<And>m m1 m2. R m m1 \<Longrightarrow> R m1 m2 \<Longrightarrow> R m m2" "R m (fst (f m))"
    and "\<And>m1 x. f m = (m1, Inr x) \<Longrightarrow> R m1 (fst (g x m1))"
  shows "R m (fst (bindM f g m))"
  using assms by (cases "f m"; cases "snd (f m)") (auto simp: bindM_def)

lemma wave_confined:
  assumes A: "\<And>i. mc_has_runner C \<Longrightarrow> exec_mode m i \<Longrightarrow> i \<in> A"
  shows "confined A m (fst (run_wave C N wave m))"
  unfolding run_wave_def
proof (rule keeps_at_bind)
  show "confined A m m1 \<Longrightarrow> confined A m1 m2 \<Longrightarrow> confined A m m2" for m m1 m2 by (rule ins.R_trans)
  have "keeps (confined A) (forM wave (prepare_item C N))" by (intro ins.keeps_for ins_prepare_item)
  then show "confined A m (fst (forM wave (prepare_item C N) m))" unfolding keeps_def by blast
  fix m1 preps
  assume p: "forM wave (prepare_item C N) m = (m1, Inr preps)"
  define ws where "ws = List.map_filter id preps"
  define es where "es = filter (\<lambda>w. wi_mode w = ''executor'') ws"
  define cs where "cs = filter (\<lambda>w. wi_mode w \<noteq> ''executor'') ws"
  have "wi_idx w \<in> A" if "w \<in> set es" for w
  proof -
    have "Some w \<in> set preps" "wi_mode w = ''executor''"
      using that by (auto simp: es_def ws_def List.map_filter_def)
    then show ?thesis using prepared_executors [OF p] A by blast
  qed
  then have es: "keeps (confined A) (forM es (\<lambda>w. run_executor C N (wi_idx w) (wi_user w) (wi_system w) (wi_before w)))"
    by (intro ins.keeps_for ins_executor)
  have cs: "keeps (confined A) (call_chats C N cs)"
  proof -
    have "keeps (confined A) (call_item N cs i)" for i
      unfolding call_item_def by (intro ins.keeps_rules ins_chat)
    then show ?thesis unfolding call_chats_def by (intro ins.keeps_rules ins.keeps_for)
  qed
  have "keeps (confined A) (bindM (call_chats C N cs) (\<lambda>resps.
          bindM (forM es (\<lambda>w. run_executor C N (wi_idx w) (wi_user w) (wi_system w) (wi_before w))) (\<lambda>_.
          bindM (forM cs (\<lambda>w. finalize_chat C N (wi_idx w) (reply_of resps (wi_idx w)) (wi_before w))) (\<lambda>stops.
          retM (case rev (filter snd (zip cs stops)) of
                  [] \<Rightarrow> None | (w, _) # _ \<Rightarrow> Some (reply_of resps (wi_idx w)))))))"
    by (intro ins.keeps_bind [OF cs] ins.keeps_bind [OF es] ins.keeps_bind ins.keeps_ret ins.keeps_for ins_finalize_chat)
  then show "confined A m1 (fst ((let ws = List.map_filter id preps;
           execs = filter (\<lambda>w. wi_mode w = ''executor'') ws; chats = filter (\<lambda>w. wi_mode w \<noteq> ''executor'') ws
       in bindM (call_chats C N chats) (\<lambda>resps.
          bindM (forM execs (\<lambda>w. run_executor C N (wi_idx w) (wi_user w) (wi_system w) (wi_before w))) (\<lambda>_.
          bindM (forM chats (\<lambda>w. finalize_chat C N (wi_idx w) (reply_of resps (wi_idx w)) (wi_before w))) (\<lambda>stops.
          retM (case rev (filter snd (zip chats stops)) of
                  [] \<Rightarrow> None | (w, _) # _ \<Rightarrow> Some (reply_of resps (wi_idx w))))))) m1))"
    unfolding keeps_def Let_def ws_def [symmetric] es_def [symmetric] cs_def [symmetric] by blast
qed

lemma cur_mode:
  "as_mode (cur m i) = (case map_option as_mode (find (\<lambda>a. as_idx a = i) (ma_items m)) of None \<Rightarrow> ''chat'' | Some mode \<Rightarrow> mode)"
  by (simp add: cur_def new_assignment_def split: option.split)

lemma stop_rest_confined: "confined A m (stop_rest e m)"
proof -
  define f where "f a = (if as_idx a \<in> set (ma_done m) then a else a\<lparr>as_error := e, as_ok := False\<rparr>)" for a :: assignment
  have f: "as_idx (f a) = as_idx a" "as_mode (f a) = as_mode a" for a by (simp_all add: f_def)
  have "map_option as_mode (find (\<lambda>a. as_idx a = i) (map f xs)) = map_option as_mode (find (\<lambda>a. as_idx a = i) xs)" for xs i
    by (induction xs) (simp_all add: f)
  moreover have "ma_items (stop_rest e m) = map f (ma_items m)"
    by (simp add: stop_rest_def Let_def f_def cong: map_cong)
  ultimately have "map_option as_mode (find (\<lambda>a. as_idx a = i) (ma_items (stop_rest e m))) =
      map_option as_mode (find (\<lambda>a. as_idx a = i) (ma_items m))" for i by simp
  then have "as_mode (cur (stop_rest e m) i) = as_mode (cur m i)" for i
    by (simp add: cur_mode)
  then show ?thesis by (simp add: confined_def exec_mode_def stop_rest_def Let_def)
qed

lemma waves_confined:
  "(\<And>i. mc_has_runner C \<Longrightarrow> exec_mode m i \<Longrightarrow> i \<in> A) \<Longrightarrow> confined A m (fst (run_waves C N ws m))"
proof (induction ws arbitrary: m)
  case (Cons w ws)
  show ?case
    unfolding run_waves.simps
  proof (rule keeps_at_bind)
    show "confined A m m1 \<Longrightarrow> confined A m1 m2 \<Longrightarrow> confined A m m2" for m m1 m2 by (rule ins.R_trans)
    show w: "confined A m (fst (run_wave C N w m))" by (rule wave_confined [OF Cons.prems])
    fix m1 stop
    assume "run_wave C N w m = (m1, Inr stop)"
    then have "i \<in> A" if "mc_has_runner C" "exec_mode m1 i" for i
      using w Cons.prems that by (simp add: confined_def)
    then have "confined A m1 (fst (run_waves C N ws m1))" by (rule Cons.IH)
    then show "confined A m1 (fst ((case stop of
       Some reply \<Rightarrow> modM (stop_rest (stop_error (ge_builtins (me_gateway N)) reply))
     | None \<Rightarrow> run_waves C N ws) m1))"
      using stop_rest_confined by (cases stop) (simp_all add: modM_def)
  qed
qed (simp add: retM_def ins.R_refl)

text \<open>After the set-up a role is in executor mode exactly when its mode was resolved so.\<close>

definition may_execute :: "ma_cfg \<Rightarrow> assignment list \<Rightarrow> int set" where
  "may_execute C items = {i. mc_has_runner C \<and> (\<exists>a \<in> set items. as_idx a = i \<and> fst (setup_mode C a) = ''executor'')}"

lemma may_execute_capable:
  "i \<in> may_execute C items \<Longrightarrow> mc_has_runner C \<and> has_cwd C \<and> mc_hybrid_code_gen C \<and>
     (\<exists>a \<in> set items. as_idx a = i \<and> executor_capable (role_key (as_role a)))"
proof -
  assume "i \<in> may_execute C items"
  then obtain a where r: "mc_has_runner C" and a: "a \<in> set items" "as_idx a = i" "fst (setup_mode C a) = ''executor''"
    by (auto simp: may_execute_def)
  define hybrid where "hybrid = hybrid_active (mc_hybrid_code_gen C) (has_cwd C) (mc_hybrid_require_cwd C)"
  obtain mode reason where m: "resolve_role_mode (as_role a) hybrid (mc_requires_code_gen C) (as_execution a) False (mc_executor_roles C)
      = (mode, reason)" by fastforce
  have "mode = ''executor'' \<and> has_cwd C"
    using a(3) m by (auto simp: setup_mode_def simp flip: hybrid_def split: if_splits)
  moreover have "hybrid \<and> executor_capable (role_key (as_role a))" if "mode = ''executor''"
    using role_mode_safe(2) m that by (metis fst_conv)
  ultimately show ?thesis using r a(1,2) by (auto simp: hybrid_def hybrid_active_def)
qed

lemma run_confined:
  "fst ` set (ma_execs (fst (run_local C N (new_local_run items d runs g)))) \<subseteq> may_execute C items"
proof -
  define A where "A = may_execute C items"
  define m0 where "m0 = (new_local_run items d runs g)\<lparr>ma_gw := g\<lparr>gw_health := snd (apply_env_provider_exclusions
             (ge_health (me_gateway N) (gw_tick g)) (gw_health g))\<rparr>, ma_items := with_modes C items,
              ma_role_modes := map_of (rev (map (\<lambda>a. (as_idx a, as_mode a)) (with_modes C items)))\<rparr>"
  have modes: "i \<in> A" if "mc_has_runner C" "exec_mode m0 i" for i
  proof -
    have "\<exists>a \<in> set (with_modes C items). as_idx a = i \<and> as_mode a = ''executor''"
      using that(2)
      by (auto simp: exec_mode_def m0_def cur_mode dest!: find_SomeD map_of_SomeD split: option.splits) (metis | auto)+
    then show ?thesis using that(1) by (auto simp: A_def may_execute_def with_modes_def)
  qed
  have attach: "keeps (confined A) (attach_plan C N)"
  proof -
    have plans: "keeps (confined A) (modM (\<lambda>m. m\<lparr>ma_plan := p, ma_gates := b, ma_mode := md\<rparr>))"
      "keeps (confined A) (modM (\<lambda>m. m\<lparr>ma_plan := p, ma_gates := b\<rparr>))" for p b md
      by (intro ins.keeps_mod confined_frame; simp)+
    have sums: "keeps (confined A) (case v of Inl e \<Rightarrow> f | Inr x \<Rightarrow> h)" if "keeps (confined A) f" "keeps (confined A) h"
      for v :: "plan_error + unit" and f h :: "unit ma" using that by (cases v) simp_all
    show ?thesis
      unfolding attach_plan_def Let_def by (intro ins.keeps_rules sums plans ins_save)
  qed
  have tracking: "keeps (confined A) (start_tracking C N)"
    unfolding start_tracking_def by (intro ins.keeps_mod confined_frame) simp_all
  have close: "keeps (confined A) (close_run C N)"
    unfolding close_run_def by (intro ins.keeps_rules ins_planM ins_save ins.keeps_mod confined_frame) simp_all
  define rest where "rest = seqM (seqM (attach_plan C N) (start_tracking C N))
     (bindM (readM (\<lambda>m. local_waves C (ma_items m))) (\<lambda>waves. seqM (run_waves C N waves) (close_run C N)))"
  have run: "run_local C N (new_local_run items d runs g) = rest m0"
    by (simp add: run_local_def setup_plan_and_modes_def rest_def seqM_def bindM_def modM_def readM_def m0_def new_local_run_def)
  have "confined A m0 (fst (rest m0))"
    unfolding rest_def seqM_def [of "seqM _ _"]
  proof (rule keeps_at_bind)
    show "confined A m m1 \<Longrightarrow> confined A m1 m2 \<Longrightarrow> confined A m m2" for m m1 m2 by (rule ins.R_trans)
    show 1: "confined A m0 (fst (seqM (attach_plan C N) (start_tracking C N) m0))"
      using ins.keeps_seq [OF attach tracking] unfolding keeps_def by blast
    fix m1 u
    assume "seqM (attach_plan C N) (start_tracking C N) m0 = (m1, Inr u)"
    then have m1: "i \<in> A" if "mc_has_runner C" "exec_mode m1 i" for i
      using 1 modes that by (simp add: confined_def)
    have "confined A m1 (fst (bindM (run_waves C N (local_waves C (ma_items m1))) (\<lambda>_. close_run C N) m1))"
      by (rule keeps_at_bind) (use ins.R_trans waves_confined [OF m1] close in \<open>auto simp: keeps_def\<close>)
    then show "confined A m1 (fst (bindM (readM (\<lambda>m. local_waves C (ma_items m))) (\<lambda>waves. seqM (run_waves C N waves) (close_run C N)) m1))"
      by (simp add: seqM_def)
  qed
  moreover have "ma_execs m0 = []" by (simp add: m0_def new_local_run_def)
  ultimately show ?thesis by (simp add: run confined_def A_def)
qed

theorem executors_allowed:
  assumes "(i, e) \<in> set (ma_execs (fst (run_local C N (new_local_run items d runs g))))"
  shows "mc_has_runner C \<and> has_cwd C \<and> mc_hybrid_code_gen C \<and>
     (\<exists>a \<in> set items. as_idx a = i \<and> executor_capable (role_key (as_role a)))"
  using run_confined [of C N items d runs g] assms by (intro may_execute_capable) force

end
