(* ===== verification/Demo_Team.thy ===== *)
theory Demo_Team
  imports Demo_World Instincts Model_Router Multi_Agent_Safety Multi_Agent_Executors
begin

text \<open>
  A team of two for the properties of multi-agent runs: a developer whose executor changes one file and
  a reviewer that depends on it and chats; the gateway of \<^verbatim>\<open>Demo_World\<close>.
\<close>

definition demo_team_cfg :: ma_cfg where
  "demo_team_cfg = \<lparr>mc_task = ''fix'', mc_task_id = [], mc_cwd = ''/r'', mc_hybrid_code_gen = True, mc_hybrid_require_cwd = True,
     mc_requires_code_gen = True, mc_executor_default = [], mc_executor_roles = [], mc_has_runner = True, mc_skip_dependents = True,
     mc_parallel_waves = False, mc_max_parallel = 1, mc_plan = None,
     mc_tracked = False, mc_memory = False\<rparr>"

definition demo_team_env :: ma_env where
  "demo_team_env = \<lparr>me_gateway = demo_gw_env, me_gateway_cfg = demo_gw_cfg\<lparr>gc_enabled := False\<rparr>, me_show = (\<lambda>_. ''error''),
     me_request = (\<lambda>_ _ _. demo_request), me_fault = (\<lambda>_. None),
     me_runner = (\<lambda>_ _ _ _. RunnerReply \<lparr>rpl_content = ''done'', rpl_output = [], rpl_ok = Some True, rpl_success = None,
       rpl_error = [], rpl_files = [''a.py''], rpl_executor = ''cursor''\<rparr>),
     me_world = (\<lambda>_. demo_world), me_fingerprint = (\<lambda>_ _. []), me_recent = (\<lambda>_ _. True), me_evidence = (\<lambda>_ _. []),
     me_memory_block = (\<lambda>_ _. []), me_system = (\<lambda>_ _. ''system''), me_schedule = (\<lambda>_ is. is), me_now = (\<lambda>_. 1),
     me_disk = (\<lambda>_. DiskOk), me_run_disk = (\<lambda>_. True), me_counters = (\<lambda>_ _. []), me_repr = (\<lambda>_. []), me_task_hash = ''h''\<rparr>"

definition demo_team :: "assignment list" where
  "demo_team = [(new_assignment 0 ''developer'' ''Fix it'' [] ''standard'' ''m'' ''openai'')\<lparr>as_executor := ''cursor''\<rparr>,
     new_assignment 1 ''reviewer'' ''Check it'' [0] ''standard'' ''m'' ''openai'']"

lemma demo_team_runs:
  "(case run_local demo_team_cfg demo_team_env (new_local_run demo_team [] [] demo_gw) of (m, r) \<Rightarrow>
      r = Inr () \<and> ma_execs m = [(0, ''cursor'')] \<and> list_all as_ok (ma_items m)) \<and> idx_distinct demo_team"
  by code_simp

text \<open>The developer alone, with plan gates in active mode and no checks on its step.\<close>

definition demo_gates :: plan_cfg where
  "demo_gates = default_plan_cfg\<lparr>pc_enabled := True, pc_mode := ''active'', pc_executor_file_line_limit := 0\<rparr>"

lemma demo_gated_runs:
  "(case run_local (demo_team_cfg\<lparr>mc_plan := Some demo_gates\<rparr>) demo_team_env (new_local_run (take 1 demo_team) [] [] demo_gw) of
      (m, r) \<Rightarrow> r = Inr () \<and> list_all as_ok (ma_items m) \<and> \<not> Option.is_none (ma_plan m)) \<and> idx_distinct (take 1 demo_team)"
  by code_simp

lemma demo_decomposes: "decompose ''x'' \<lparr>ta_intent = ''general'', ta_complexity = ''medium'', ta_code_gen = True, ta_review = True,
     ta_deployment = False, ta_testing = False, ta_domains = [], ta_confidence = 1/2\<rparr> \<noteq> []"
  by (simp add: decompose_def with_signals_result Let_def)

lemma demo_lead_returns: "\<exists>xs r' g'. assign demo_gw_env demo_gw_cfg (\<lambda>_. []) demo_lead sts empty_registry demo_gw = (Inr xs, r', g')"
proof -
  have "\<not> should_ask_llm demo_lead sts"
    by (simp add: should_ask_llm_def demo_lead_def lower_def lower_char_def Let_def)
  then show ?thesis using assign_deterministic(2) by (metis prod_cases3)
qed

lemma demo_pool: "''deepseek'' \<in> set (task_providers ''code'') \<and> healthy_at demo_keys demo_health ''deepseek''"
  unfolding demo_keys_def demo_health_def by code_simp

lemma demo_model: "route_model (new_router None) ''x'' (Some BATCH) True False [] \<noteq> None"
  by (rule route_model_total) (simp add: new_router_def DEFAULT_MODELS_def)

text \<open>A store that learnt one instinct, which a person approved.\<close>

definition demo_evidence :: instinct_evidence where
  "demo_evidence = \<lparr>ie_kind = ''test_passed'', ie_source = ''t1'', ie_project = ''p'', ie_outcome = [], ie_created = 0\<rparr>"

definition demo_instincts :: instincts where
  "demo_instincts = fst (approve True 1 ''p|tests|go''
     (fst (propose (\<lambda>x. x) True 0 ''tests'' ''go'' ''p'' demo_evidence [])))"

lemma demo_instincts_reachable: "changes\<^sup>*\<^sup>* [] demo_instincts"
  unfolding demo_instincts_def
  by (rule rtranclp.rtrancl_into_rtrancl [OF r_into_rtranclp], rule changes.learnt, rule learns.proposed, rule changes.approved)

lemma demo_instincts_selected: "map in_id (shadow_select ''tests'' ''p'' 5 demo_instincts) = [''p|tests|go'']"
  by code_simp

end
