(* ===== verification/Eval_Checks.thy ===== *)
theory Eval_Checks
  imports Plan_Verify Error_Classifier Executor_Results
begin

text \<open>
  The deterministic evaluators of a finished run: \<^verbatim>\<open>src/voly/evaluation/trajectory.py\<close>,
  \<^verbatim>\<open>testing.py\<close>, \<^verbatim>\<open>security.py\<close> with the patterns of \<^verbatim>\<open>src/voly/intelligence/security_scanner.py\<close>,
  and \<^verbatim>\<open>markdown.py\<close>.  Files are read through \<open>verify_env\<close>; a text is its UTF-8 bytes.
\<close>

type_synonym eval_detail = "(string \<times> json) list"
type_synonym eval_answer = "bool \<times> string \<times> eval_detail"

section \<open>Paths\<close>

definition posix_parts :: "string \<Rightarrow> string list" where
  "posix_parts p = filter (\<lambda>s. s \<noteq> [] \<and> s \<noteq> ''.'') (split_on CHR ''/'' p)"

definition posix_name :: "string \<Rightarrow> string" where
  "posix_name p = (case rev (posix_parts p) of [] \<Rightarrow> [] | n # _ \<Rightarrow> n)"

text \<open>\<^verbatim>\<open>PurePath.suffix\<close>: from the last dot, which is neither the first nor the last character of the name.\<close>

definition posix_suffix :: "string \<Rightarrow> string" where
  "posix_suffix p =
     (let n = posix_name p; after = rev (takeWhile (\<lambda>c. c \<noteq> CHR ''.'') (rev n))
      in if length after + 1 < length n \<and> after \<noteq> [] then CHR ''.'' # after else [])"

text \<open>\<^verbatim>\<open>target.relative_to(home).as_posix()\<close> of a resolved path below the root.\<close>

definition path_below :: "string \<Rightarrow> string \<Rightarrow> string" where
  "path_below home target =
     (if target = home then ''.'' else if home = ''/'' then drop 1 target else drop (length home + 1) target)"

text \<open>\<^verbatim>\<open>(base / rel).resolve()\<close>.\<close>

definition resolve_in :: "verify_env \<Rightarrow> string \<Rightarrow> string \<Rightarrow> string" where
  "resolve_in E base rel = ve_resolve E (if starts_with rel ''/'' then rel else base @ ''/'' @ rel)"

section \<open>The trajectory\<close>

text \<open>A metadata entry that should be a list: its elements, and the complaint when it is something else.\<close>

definition metadata_list :: "string \<Rightarrow> json \<Rightarrow> string list \<times> json list" where
  "metadata_list complaint v =
     (if \<not> truthy v then ([], []) else case v of JList xs \<Rightarrow> ([], xs) | _ \<Rightarrow> ([complaint], []))"

definition entry_status :: "py_builtins \<Rightarrow> json \<Rightarrow> string option" where
  "entry_status B entry = (case entry of
     JObj d \<Rightarrow> Some (py_str B (jor (jget d ''status'') (JStr ''unknown''))) | _ \<Rightarrow> None)"

definition retry_issue :: "py_builtins \<Rightarrow> json \<Rightarrow> string list \<times> int" where
  "retry_issue B v = (case py_int B (jor v (JInt 0)) of
     Inl e \<Rightarrow> ([''malformed_retry_count''], 0) | Inr n \<Rightarrow> ([], max 0 n))"

definition trajectory_issues :: "py_builtins \<Rightarrow> eval_detail \<Rightarrow> string list" where
  "trajectory_issues B meta =
     (let (chain_issue, chain) = metadata_list ''malformed_chain_timelog'' (jget meta ''chain_timelog'');
          (rollback_issue, rolled) = metadata_list ''malformed_safety_rollback'' (jget meta ''safety_rolled_back'')
      in chain_issue @ map (\<lambda>_. ''malformed_chain_entry'') (filter (\<lambda>x. entry_status B x = None) chain) @ rollback_issue @
         (if truthy (jget meta ''safety_violation'') then [''safety_policy_event''] else []) @
         (if rolled \<noteq> [] then [''files_rolled_back''] else []) @ fst (retry_issue B (jget meta ''retry_count'')))"

definition trajectory_detail :: "py_builtins \<Rightarrow> eval_detail \<Rightarrow> eval_detail" where
  "trajectory_detail B meta =
     (let chain = snd (metadata_list [] (jget meta ''chain_timelog''));
          statuses = List.map_filter (entry_status B) chain
      in [(''attempt_count'', JInt (max 1 (int (length chain)))),
          (''attempt_statuses'', JObj (map (\<lambda>s. (s, JInt (int (length (filter (\<lambda>t. t = s) statuses))))) (sorted_set statuses))),
          (''executor_retry_count'', JInt (snd (retry_issue B (jget meta ''retry_count'')))),
          (''fallback_used'', JBool (length chain > 1)),
          (''rollback_count'', JInt (int (length (snd (metadata_list [] (jget meta ''safety_rolled_back'')))))),
          (''dry_run'', JBool (truthy (jget meta ''dry_run''))),
          (''tool_trace_available'', JBool (truthy (jget meta ''tool_trace''))),
          (''issues'', jstr_list (sorted_set (trajectory_issues B meta)))])"

definition evaluate_trajectory :: "py_builtins \<Rightarrow> executor_result \<Rightarrow> eval_answer" where
  "evaluate_trajectory B r =
     (let issues = trajectory_issues B (er_metadata r); detail = trajectory_detail B (er_metadata r)
      in if issues \<noteq> []
         then (False, str_int (int (length (sorted_set issues))) @ '' trajectory policy issue(s)'', detail)
         else (True, ''bounded execution trajectory is policy-clean'', detail))"

section \<open>Test artifacts\<close>

definition TEST_DIRECTORIES :: "string list" where
  "TEST_DIRECTORIES = [''test'', ''tests'', ''spec'', ''specs'', ''__tests__'', ''__snapshots__'', ''fixtures'']"

definition TEST_CONFIG_NAMES :: "string list" where
  "TEST_CONFIG_NAMES = [''conftest.py'', ''pytest.ini'', ''tox.ini'', ''jest.config.js'', ''jest.config.ts'',
     ''vitest.config.js'', ''vitest.config.ts'']"

definition TEST_FILE_SUFFIXES :: "string list" where
  "TEST_FILE_SUFFIXES = [''.test.js'', ''.test.jsx'', ''.test.ts'', ''.test.tsx'', ''.spec.js'', ''.spec.jsx'',
     ''.spec.ts'', ''.spec.tsx'']"

definition is_test_artifact :: "string \<Rightarrow> bool" where
  "is_test_artifact path =
     (let normalized = strip_chars ''/'' (posix_slashes path);
          name = lower (posix_name normalized); parts = map lower (butlast (posix_parts normalized))
      in normalized \<noteq> [] \<and>
         (list_ex (\<lambda>d. d \<in> set TEST_DIRECTORIES) parts \<or> name \<in> set TEST_CONFIG_NAMES \<or>
          starts_with name ''test_'' \<and> ends_with name ''.py'' \<or> ends_with name ''_test.py'' \<or>
          list_ex (ends_with name) TEST_FILE_SUFFIXES))"

definition validate_test_artifacts :: "string list \<Rightarrow> eval_answer" where
  "validate_test_artifacts touched =
     (let artifacts = sorted_set (map posix_slashes (filter is_test_artifact touched));
          detail = [(''test_artifacts'', jstr_list artifacts)]
      in if artifacts \<noteq> [] then (True, str_int (int (length artifacts)) @ '' test artifact(s) changed'', detail)
         else (False, ''testing task changed no recognized test artifacts'', detail))"

section \<open>The security scan\<close>

text \<open>A pattern with what must hold of the text around a match: some way to match at some position has it.\<close>

fun search_where :: "(re_state \<Rightarrow> bool) \<Rightarrow> regex \<Rightarrow> string \<Rightarrow> string \<Rightarrow> bool" where
  "search_where P r pre [] = list_ex P (re_ends r (pre, [], []))"
| "search_where P r pre (c # cs) = (list_ex P (re_ends r (pre, c # cs, [])) \<or> search_where P r (c # pre) cs)"

definition quote_char :: regex where "quote_char = Chr (\<lambda>c. c = CHR 0x22 \<or> c = CHR 0x27)"

definition secret_char :: regex where
  "secret_char = Chr (\<lambda>c. c \<noteq> CHR 0x22 \<and> c \<noteq> CHR 0x27 \<and> c \<noteq> CHR ''.'' \<and> c \<noteq> CHR ''{'')"

definition HARDCODED_SECRET :: regex where
  "HARDCODED_SECRET = cats [alts [liti ''password'', liti ''secret'', liti ''api_key'', liti ''token''], spaces, lit ''='', spaces,
     quote_char, cats (replicate 8 secret_char), Star True secret_char, quote_char]"

definition not_close :: regex where "not_close = Star True (Chr (\<lambda>c. c \<noteq> CHR '')''))"

definition SQL_INJECTION :: regex where
  "SQL_INJECTION = alts [cats [lit ''execute'', spaces, lit ''('', not_close, lit ''%'', spaces],
     cats [lit ''format'', spaces, lit ''('', not_close, lit '')'', spaces, lit '')'']]"

definition EVAL_USAGE :: regex where "EVAL_USAGE = cats [WordB, lit ''eval'', spaces, lit ''('']"

definition SUBPROCESS_SHELL :: regex where
  "SUBPROCESS_SHELL = cats [lit ''subprocess.'', Star True any_char, lit ''shell'', spaces, lit ''='', spaces, lit ''True'']"

definition YAML_LOAD :: regex where
  "YAML_LOAD = cats [lit ''yaml.load'', spaces, lit ''('', plus (Chr (\<lambda>c. c \<noteq> CHR '','' \<and> c \<noteq> CHR '')'')), lit '')'']"

definition no_loader :: "re_state \<Rightarrow> bool" where
  "no_loader st = (case st of (pre, suf, caps) \<Rightarrow> match_at (Cat (Star True any_char) (lit ''Loader'')) pre suf = None)"

definition RISK_PATTERNS :: "(string \<times> (string \<Rightarrow> bool) \<times> string) list" where
  "RISK_PATTERNS =
     [(''hardcoded_secret'', re_test HARDCODED_SECRET, ''Possible hardcoded secret''),
      (''sql_injection'', re_test SQL_INJECTION, ''Possible SQL injection via string formatting''),
      (''eval_usage'', re_test EVAL_USAGE, ''eval() usage detected''),
      (''subprocess_shell'', re_test SUBPROCESS_SHELL, ''subprocess with shell=True''),
      (''yaml_unsafe_load'', search_where no_loader YAML_LOAD [], ''yaml.load without Loader (unsafe)'')]"

definition SCAN_EXTENSIONS :: "string list" where
  "SCAN_EXTENSIONS = [''.py'', ''.js'', ''.ts'', ''.go'', ''.rb'', ''.php'']"

definition MAX_FILE_SIZE_BYTES :: int where "MAX_FILE_SIZE_BYTES = 200000"

record security_scan =
  ss_scanned :: "string list"
  ss_skipped :: "(string \<times> string) list"
  ss_findings :: "(string \<times> string \<times> string) list"

text \<open>The size of a file (\<^verbatim>\<open>stat\<close>) is a function that may raise an \<^verbatim>\<open>OSError\<close> (\<open>None\<close>).\<close>

record scan_env =
  sv_verify :: verify_env
  sv_size :: "string \<Rightarrow> int option"
  sv_utf8 :: "string \<Rightarrow> bool"
  sv_bad_netloc :: "string \<Rightarrow> bool"

definition risks_in :: "string \<Rightarrow> string \<Rightarrow> (string \<times> string \<times> string) list" where
  "risks_in path text = map (\<lambda>(label, test, description). (label, path, description))
     (filter (\<lambda>(label, test, description). test text) RISK_PATTERNS)"

definition scan_security_file :: "scan_env \<Rightarrow> string \<Rightarrow> string \<Rightarrow> security_scan \<Rightarrow> security_scan" where
  "scan_security_file E home relative s =
     (let V = sv_verify E; normalized = posix_slashes relative; path = resolve_in V home normalized
      in if \<not> path_under home path
         then s\<lparr>ss_findings := ss_findings s @ [(''outside_repository'', normalized, ''Changed path resolves outside repository'')]\<rparr>
         else let name = path_below home path;
                  unreadable = s\<lparr>ss_findings := ss_findings s @ [(''unreadable_source'', name, ''Changed source file could not be scanned'')]\<rparr>
              in if lower (posix_suffix path) \<notin> set SCAN_EXTENSIONS then s
                 else if \<not> ve_is_file V path then s\<lparr>ss_skipped := ss_skipped s @ [(name, ''not_a_file'')]\<rparr>
                 else (case sv_size E path of
                         None \<Rightarrow> unreadable
                       | Some n \<Rightarrow>
                           if n > MAX_FILE_SIZE_BYTES then s\<lparr>ss_skipped := ss_skipped s @ [(name, ''too_large'')]\<rparr>
                           else (case ve_read V path of
                                   Inl m \<Rightarrow> unreadable
                                 | Inr text \<Rightarrow> s\<lparr>ss_scanned := ss_scanned s @ [name], ss_findings := ss_findings s @ risks_in name text\<rparr>)))"

definition scan_files :: "scan_env \<Rightarrow> string \<Rightarrow> string list \<Rightarrow> security_scan" where
  "scan_files E home files = fold (scan_security_file E home) files \<lparr>ss_scanned = [], ss_skipped = [], ss_findings = []\<rparr>"

definition security_detail :: "security_scan \<Rightarrow> eval_detail" where
  "security_detail s =
     [(''scanned_files'', jstr_list (ss_scanned s)),
      (''skipped_files'', JList (map (\<lambda>(p, reason). JObj [(''path'', JStr p), (''reason'', JStr reason)]) (ss_skipped s))),
      (''findings'', JList (map (\<lambda>(label, p, d). JObj [(''label'', JStr label), (''path'', JStr p), (''description'', JStr d)])
         (ss_findings s)))]"

definition scan_changed_security :: "scan_env \<Rightarrow> string \<Rightarrow> string list \<Rightarrow> string \<times> string \<times> eval_detail" where
  "scan_changed_security E cwd touched =
     (let s = scan_files E (ve_resolve (sv_verify E) cwd) (sorted_set touched); detail = security_detail s
      in if ss_findings s \<noteq> []
         then (''failed'', str_int (int (length (ss_findings s))) @ '' security finding(s) in changed files'', detail)
         else if ss_scanned s = [] then (''skipped'', ''no supported changed source files to scan'', detail)
         else (''passed'', str_int (int (length (ss_scanned s))) @ '' changed source file(s) scanned'', detail))"

section \<open>Markdown links\<close>

definition quoted_target :: regex where
  "quoted_target = cats [lit ''<'', Group 1 (plus (Chr (\<lambda>c. c \<noteq> CHR ''>'' \<and> c \<noteq> NEWLINE))), lit ''>'']"

definition INLINE_LINK :: regex where
  "INLINE_LINK = cats [opt (lit ''!''), lit ''['', Star True (Chr (\<lambda>c. c \<noteq> CHR '']'' \<and> c \<noteq> NEWLINE)), lit '']('', spaces,
     Alt quoted_target (Group 2 (plus (Chr (\<lambda>c. c \<noteq> CHR '')'' \<and> \<not> is_space c))))]"

definition REFERENCE_DEFINITION :: regex where
  "REFERENCE_DEFINITION = cats [Bol, opt (Chr is_space), opt (Chr is_space), opt (Chr is_space), lit ''['',
     plus (Chr (\<lambda>c. c \<noteq> CHR '']'' \<and> c \<noteq> NEWLINE)), lit '']:'', spaces,
     Alt quoted_target (Group 2 (plus (Chr (\<lambda>c. \<not> is_space c))))]"

definition three_or_more :: "char \<Rightarrow> regex" where "three_or_more c = cats [ch c, ch c, ch c, Star True (ch c)]"

definition FENCE :: regex where
  "FENCE = cats [opt (Chr is_space), opt (Chr is_space), opt (Chr is_space), Group 1 (Alt (three_or_more CHR 0x60) (three_or_more CHR ''~''))]"

definition fence_marker :: "string \<Rightarrow> string option" where
  "fence_marker line = map_option (\<lambda>(pre, suf, caps). group caps 1) (match_at FENCE [] line)"

text \<open>The lines outside fenced code; the state is the open fence's character and length.\<close>

fun visible_lines :: "(char \<times> nat) option \<Rightarrow> string list \<Rightarrow> string list" where
  "visible_lines fence [] = []"
| "visible_lines fence (line # ls) = (case fence_marker line of
     Some marker \<Rightarrow> (case fence of
         None \<Rightarrow> visible_lines (Some (hd marker, length marker)) ls
       | Some (c, n) \<Rightarrow> visible_lines (if hd marker = c \<and> length marker \<ge> n then None else fence) ls)
   | None \<Rightarrow> (if fence = None then line # visible_lines fence ls else visible_lines fence ls))"

definition without_fenced_code :: "string \<Rightarrow> string" where
  "without_fenced_code text = join [NEWLINE] (visible_lines None (splitlines text))"

definition destinations :: "string \<Rightarrow> string list" where
  "destinations text =
     (let visible = without_fenced_code text
      in filter (\<lambda>d. d \<noteq> []) (concat (map (\<lambda>r. map (\<lambda>caps. str_or (group caps 1) (group caps 2)) (re_finditer r [] visible))
           [INLINE_LINK, REFERENCE_DEFINITION])))"

text \<open>\<^verbatim>\<open>urlsplit\<close> as far as it is read: whether there is a scheme or a network location, and the path.  Brackets
  that do not pair raise; what else a network location must satisfy is a function.\<close>

record split_url =
  su_scheme :: string
  su_netloc :: string
  su_path :: string

definition scheme_char :: "char \<Rightarrow> bool" where
  "scheme_char c \<longleftrightarrow> is_alpha c \<or> is_digit c \<or> c \<in> set ''+-.''"

definition split_scheme :: "string \<Rightarrow> string \<times> string" where
  "split_scheme url =
     (let s = takeWhile (\<lambda>c. c \<noteq> CHR '':'') url; rest = drop (length s) url
      in if rest \<noteq> [] \<and> s \<noteq> [] \<and> is_alpha (hd s) \<and> list_all scheme_char s then (lower s, tl rest) else ([], url))"

definition split_netloc :: "string \<Rightarrow> string \<times> string" where
  "split_netloc url =
     (if starts_with url ''//''
      then let n = takeWhile (\<lambda>c. c \<notin> set ''/?#'') (drop 2 url) in (n, drop (length n + 2) url) else ([], url))"

definition urlsplit :: "(string \<Rightarrow> bool) \<Rightarrow> string \<Rightarrow> py_exn + split_url" where
  "urlsplit bad_netloc url0 =
     (let url = filter (\<lambda>c. c \<notin> set [CHR 0x09, CHR 0x0A, CHR 0x0D]) (dropWhile (\<lambda>c. (of_char c :: nat) \<le> 32) url0);
          (scheme, rest) = split_scheme url; (netloc, path) = split_netloc rest
      in if (CHR ''['' \<in> set netloc) \<noteq> (CHR '']'' \<in> set netloc) \<or> bad_netloc netloc then Inl PyValueError
         else Inr \<lparr>su_scheme = scheme, su_netloc = netloc,
                  su_path = takeWhile (\<lambda>c. c \<noteq> CHR ''?'') (takeWhile (\<lambda>c. c \<noteq> CHR ''#'') path)\<rparr>)"

definition hex_value :: "char \<Rightarrow> nat option" where
  "hex_value c = (let n = (of_char c :: nat) in
     if 48 \<le> n \<and> n \<le> 57 then Some (n - 48) else if 65 \<le> n \<and> n \<le> 70 then Some (n - 55)
     else if 97 \<le> n \<and> n \<le> 102 then Some (n - 87) else None)"

text \<open>\<^verbatim>\<open>unquote\<close> on bytes; a decoded sequence that is not UTF-8 is kept instead of replaced.\<close>

fun unquote :: "string \<Rightarrow> string" where
  "unquote (CHR ''%'' # a # b # cs) = (case (hex_value a, hex_value b) of
     (Some x, Some y) \<Rightarrow> char_of (16 * x + y) # unquote cs
   | _ \<Rightarrow> CHR ''%'' # unquote (a # b # cs))"
| "unquote (c # cs) = c # unquote cs"
| "unquote [] = []"

record link_scan =
  lk_checked :: "(string \<times> string) list"
  lk_broken :: "(string \<times> string \<times> string) list"

definition parent_dir :: "string \<Rightarrow> string" where
  "parent_dir p = (let d = rev (tl (dropWhile (\<lambda>c. c \<noteq> CHR ''/'') (rev p))) in if d = [] then ''/'' else d)"

text \<open>A destination is skipped when it is not a local path; else it must stay below the root and exist.\<close>

definition check_link :: "scan_env \<Rightarrow> string \<Rightarrow> string \<Rightarrow> string \<Rightarrow> string \<Rightarrow> link_scan \<Rightarrow> py_exn + link_scan" where
  "check_link E home relative source raw s = (case urlsplit (sv_bad_netloc E) raw of
     Inl e \<Rightarrow> Inl e
   | Inr u \<Rightarrow>
       if su_scheme u \<noteq> [] \<or> su_netloc u \<noteq> [] \<or> starts_with raw ''#'' \<or> starts_with raw ''/'' \<or> su_path u = [] then Inr s
       else let target = resolve_in (sv_verify E) (parent_dir source) (unquote (su_path u))
            in if \<not> path_under home target then Inr (s\<lparr>lk_broken := lk_broken s @ [(relative, raw, ''outside_root'')]\<rparr>)
               else if \<not> ve_exists (sv_verify E) target then Inr (s\<lparr>lk_broken := lk_broken s @ [(relative, raw, ''missing'')]\<rparr>)
               else Inr (s\<lparr>lk_checked := lk_checked s @ [(relative, raw)]\<rparr>))"

fun check_links :: "scan_env \<Rightarrow> string \<Rightarrow> string \<Rightarrow> string \<Rightarrow> string list \<Rightarrow> link_scan \<Rightarrow> py_exn + link_scan" where
  "check_links E home relative source [] s = Inr s"
| "check_links E home relative source (raw # rs) s = (case check_link E home relative source raw s of
     Inl e \<Rightarrow> Inl e | Inr s' \<Rightarrow> check_links E home relative source rs s')"

fun check_markdown :: "scan_env \<Rightarrow> string \<Rightarrow> string list \<Rightarrow> link_scan \<Rightarrow> py_exn + link_scan" where
  "check_markdown E home [] s = Inr s"
| "check_markdown E home (relative # files) s =
     (let V = sv_verify E; source = resolve_in V home relative
      in if \<not> path_under home source \<or> \<not> ve_is_file V source
         then check_markdown E home files (s\<lparr>lk_broken := lk_broken s @ [(relative, [], ''source_missing'')]\<rparr>)
         else (case ve_read V source of
                 Inl m \<Rightarrow> check_markdown E home files (s\<lparr>lk_broken := lk_broken s @ [(relative, [], ''read_error:'' @ m)]\<rparr>)
               | Inr text \<Rightarrow>
                   if \<not> sv_utf8 E text then Inl PyValueError
                   else (case check_links E home relative source (destinations text) s of
                           Inl e \<Rightarrow> Inl e
                         | Inr s' \<Rightarrow> check_markdown E home files s')))"

definition markdown_files :: "string list \<Rightarrow> string list" where
  "markdown_files touched =
     sorted_set (map posix_slashes (filter (\<lambda>p. lower (posix_suffix p) \<in> {''.md'', ''.mdx''}) touched))"

definition link_detail :: "string list \<Rightarrow> link_scan \<Rightarrow> eval_detail" where
  "link_detail files s =
     [(''files'', jstr_list files),
      (''checked'', JList (map (\<lambda>(p, d). JObj [(''source'', JStr p), (''destination'', JStr d)]) (lk_checked s))),
      (''broken'', JList (map (\<lambda>(p, d, r). JObj [(''source'', JStr p), (''destination'', JStr d), (''reason'', JStr r)])
         (lk_broken s)))]"

definition validate_markdown_links :: "scan_env \<Rightarrow> string \<Rightarrow> string list \<Rightarrow> py_exn + eval_answer" where
  "validate_markdown_links E cwd touched =
     (let files = markdown_files touched
      in if files = [] then Inr (False, ''no changed Markdown files'', [(''checked'', JList []), (''broken'', JList [])])
         else (case check_markdown E (ve_resolve (sv_verify E) cwd) files \<lparr>lk_checked = [], lk_broken = []\<rparr> of
                 Inl e \<Rightarrow> Inl e
               | Inr s \<Rightarrow> Inr (lk_broken s = [],
                   (if lk_broken s = []
                    then str_int (int (length files)) @ '' Markdown file(s), '' @ str_int (int (length (lk_checked s))) @
                      '' local link(s) valid''
                    else str_int (int (length (lk_broken s))) @ '' broken local Markdown link(s)''),
                   link_detail files s)))"

section \<open>What the evaluators establish\<close>

lemma trajectory_clean:
  "fst (evaluate_trajectory B r) \<longleftrightarrow> trajectory_issues B (er_metadata r) = []"
  by (simp add: evaluate_trajectory_def Let_def)

text \<open>A clean trajectory has no safety event and rolled no file back.\<close>

lemma trajectory_clean_safe:
  assumes "fst (evaluate_trajectory B r)"
  shows "\<not> truthy (jget (er_metadata r) ''safety_violation'')"
    and "\<not> truthy (jget (er_metadata r) ''safety_rolled_back'')"
  using assms
  by (auto simp: trajectory_clean trajectory_issues_def Let_def metadata_list_def split: prod.splits if_splits json.splits)

lemma test_artifacts_ok:
  "fst (validate_test_artifacts files) \<longleftrightarrow> list_ex is_test_artifact files"
  by (auto simp: validate_test_artifacts_def Let_def list_ex_iff filter_empty_conv)

text \<open>A changed source file is clean when it stays in the repository and, where it is scanned, shows no risk.\<close>

definition file_clean :: "scan_env \<Rightarrow> string \<Rightarrow> string \<Rightarrow> bool" where
  "file_clean E home rel \<longleftrightarrow>
     (let path = resolve_in (sv_verify E) home (posix_slashes rel)
      in path_under home path \<and>
         (lower (posix_suffix path) \<in> set SCAN_EXTENSIONS \<and> ve_is_file (sv_verify E) path \<longrightarrow>
            (\<exists>n. sv_size E path = Some n \<and> (n > MAX_FILE_SIZE_BYTES \<or>
               (\<exists>text. ve_read (sv_verify E) path = Inr text \<and> risks_in (path_below home path) text = [])))))"

lemma scan_file_findings:
  "ss_findings (scan_security_file E home rel s) = [] \<longleftrightarrow> ss_findings s = [] \<and> file_clean E home rel"
  by (auto simp: scan_security_file_def file_clean_def Let_def split: option.split sum.split)

lemma scan_files_clean: "ss_findings (scan_files E home files) = [] \<longleftrightarrow> list_all (file_clean E home) files"
proof -
  have "ss_findings (fold (scan_security_file E home) files s) = [] \<longleftrightarrow> ss_findings s = [] \<and> list_all (file_clean E home) files" for s
    by (induction files arbitrary: s) (auto simp: scan_file_findings)
  then show ?thesis by (simp add: scan_files_def)
qed

lemma security_scan_passed:
  assumes "fst (scan_changed_security E cwd touched) = ''passed''"
  shows "\<forall>rel \<in> set touched. file_clean E (ve_resolve (sv_verify E) cwd) rel"
  using assms scan_files_clean [of E "ve_resolve (sv_verify E) cwd" "sorted_set touched"]
  by (auto simp: scan_changed_security_def Let_def list_all_iff split: if_splits)

lemma security_scan_status: "fst (scan_changed_security E cwd touched) \<in> {''passed'', ''failed'', ''skipped''}"
  by (simp add: scan_changed_security_def Let_def)

text \<open>A link is good when it is not local or names something that exists below the root.\<close>

definition link_good :: "scan_env \<Rightarrow> string \<Rightarrow> string \<Rightarrow> string \<Rightarrow> bool" where
  "link_good E home source raw \<longleftrightarrow> (\<exists>u. urlsplit (sv_bad_netloc E) raw = Inr u \<and>
     (su_scheme u \<noteq> [] \<or> su_netloc u \<noteq> [] \<or> starts_with raw ''#'' \<or> starts_with raw ''/'' \<or> su_path u = [] \<or>
      (let target = resolve_in (sv_verify E) (parent_dir source) (unquote (su_path u))
       in path_under home target \<and> ve_exists (sv_verify E) target)))"

definition links_good :: "scan_env \<Rightarrow> string \<Rightarrow> string \<Rightarrow> bool" where
  "links_good E home rel \<longleftrightarrow>
     (let source = resolve_in (sv_verify E) home rel
      in path_under home source \<and> ve_is_file (sv_verify E) source \<and>
         (\<exists>text. ve_read (sv_verify E) source = Inr text \<and> (\<forall>raw \<in> set (destinations text). link_good E home source raw)))"

lemma check_link_broken:
  "check_link E home rel source raw s = Inr s' \<Longrightarrow> lk_broken s' = [] \<longleftrightarrow> lk_broken s = [] \<and> link_good E home source raw"
  by (auto simp: check_link_def link_good_def Let_def split: sum.splits if_splits)

lemma check_links_broken:
  "check_links E home rel source raws s = Inr s' \<Longrightarrow>
     lk_broken s' = [] \<longleftrightarrow> lk_broken s = [] \<and> (\<forall>raw \<in> set raws. link_good E home source raw)"
  by (induction raws arbitrary: s) (auto simp: check_link_broken split: sum.splits)

lemma check_markdown_broken:
  "check_markdown E home files s = Inr s' \<Longrightarrow>
     lk_broken s' = [] \<longleftrightarrow> lk_broken s = [] \<and> (\<forall>rel \<in> set files. links_good E home rel)"
proof (induction files arbitrary: s)
  case (Cons rel files)
  let ?source = "resolve_in (sv_verify E) home rel"
  show ?case
  proof (cases "path_under home ?source \<and> ve_is_file (sv_verify E) ?source")
    case False
    then have "\<not> links_good E home rel" by (auto simp: links_good_def Let_def)
    then show ?thesis using Cons.IH Cons.prems False by (auto simp: Let_def split: if_splits)
  next
    case here: True
    show ?thesis
    proof (cases "ve_read (sv_verify E) ?source")
      case (Inl m)
      then have "\<not> links_good E home rel" by (auto simp: links_good_def Let_def)
      then show ?thesis using Cons.IH Cons.prems here Inl by (auto simp: Let_def)
    next
      case (Inr body)
      obtain s1 where s1: "check_links E home rel ?source (destinations body) s = Inr s1"
        and rest: "check_markdown E home files s1 = Inr s'"
        using Cons.prems here Inr by (auto simp: Let_def split: if_splits sum.splits)
      have "links_good E home rel \<longleftrightarrow> (\<forall>raw \<in> set (destinations body). link_good E home ?source raw)"
        using here Inr by (auto simp: links_good_def Let_def)
      then show ?thesis using Cons.IH [OF rest] check_links_broken [OF s1] by auto
    qed
  qed
qed simp

lemma markdown_links_passed:
  assumes "validate_markdown_links E cwd touched = Inr (True, m, d)"
  shows "markdown_files touched \<noteq> []"
    and "\<forall>rel \<in> set (markdown_files touched). links_good E (ve_resolve (sv_verify E) cwd) rel"
  using assms check_markdown_broken [of E "ve_resolve (sv_verify E) cwd" "markdown_files touched"]
  by (auto simp: validate_markdown_links_def Let_def split: if_splits sum.splits)

text \<open>A link whose brackets do not pair raises instead of being reported as broken.\<close>

lemma unpaired_bracket_raises: "check_link E home rel source ''http://[x'' s = Inl PyValueError"
  by (simp add: check_link_def urlsplit_def split_scheme_def split_netloc_def scheme_char_def is_alpha_def)

text \<open>\<^verbatim>\<open>yaml.load(f)\<close> is a risk, with a \<^verbatim>\<open>Loader\<close> on the same line it is not.\<close>

lemma yaml_examples:
  "search_where no_loader YAML_LOAD [] ''yaml.load(f)''"
  "\<not> search_where no_loader YAML_LOAD [] ''yaml.load(f, Loader=L)''"
  by code_simp+

end
