(* ===== verification/Eval_Engine.thy ===== *)
theory Eval_Engine
  imports Eval_Checks Llm_Judge Plan_Codec
begin

text \<open>
  The evaluation of a finished run: \<^verbatim>\<open>src/voly/evaluation/schema.py\<close>, \<^verbatim>\<open>registry.py\<close> and
  \<^verbatim>\<open>engine.py\<close>, with the baseline record of \<^verbatim>\<open>src/voly/evidence/schema.py\<close>.  The judge is a
  computation on the gateway's state; times are the environment's.
\<close>

section \<open>Policies and reports\<close>

record eval_requirement =
  ev_id :: string
  ev_evaluator :: string
  ev_required :: bool

record eval_policy =
  ep_id :: string
  ep_version :: string
  ep_task_types :: "string list"
  ep_requirements :: "eval_requirement list"

record eval_check =
  ec_id :: string
  ec_evaluator :: string
  ec_status :: string
  ec_required :: bool
  ec_message :: string
  ec_duration :: rat
  ec_detail :: eval_detail

record eval_report =
  et_policy_id :: string
  et_policy_version :: string
  et_state :: string
  et_started :: string
  et_completed :: string
  et_checks :: "eval_check list"
  et_schema_version :: int
  et_deterministic_only :: bool

definition EVAL_SCHEMA_VERSION :: int where "EVAL_SCHEMA_VERSION = 1"

record baseline_check =
  bc_name :: string
  bc_command :: string
  bc_status :: string
  bc_argv :: "string list"
  bc_exit_code :: "int option"
  bc_duration :: rat
  bc_failure_kind :: string
  bc_excerpt :: string

definition requirement :: "string \<Rightarrow> string \<Rightarrow> eval_requirement" where
  "requirement i evaluator = \<lparr>ev_id = i, ev_evaluator = evaluator, ev_required = True\<rparr>"

definition BASE_REQUIREMENTS :: "eval_requirement list" where
  "BASE_REQUIREMENTS = [requirement ''executor'' ''executor_success'', requirement ''safety'' ''safety_policy'',
     requirement ''trajectory'' ''trajectory_policy'', requirement ''changes'' ''file_changes'',
     requirement ''post_checks'' ''baseline_replay'']"

text \<open>The built-in policies, in the order of \<^verbatim>\<open>list_policies\<close>.\<close>

definition POLICIES :: "eval_policy list" where
  "POLICIES =
     [\<lparr>ep_id = ''documentation-basic'', ep_version = ''3'', ep_task_types = [''docs'', ''documentation''],
        ep_requirements = BASE_REQUIREMENTS @ [requirement ''markdown_links'' ''markdown_links'',
          requirement ''human_review'' ''human_review'']\<rparr>,
      \<lparr>ep_id = ''executor-basic'', ep_version = ''2'', ep_task_types = [''unknown'', ''backend'', ''frontend'', ''refactoring''],
        ep_requirements = BASE_REQUIREMENTS\<rparr>,
      \<lparr>ep_id = ''security-basic'', ep_version = ''2'', ep_task_types = [''security''],
        ep_requirements = BASE_REQUIREMENTS @ [requirement ''security_scan'' ''changed_security_scan'',
          requirement ''human_review'' ''human_review'']\<rparr>,
      \<lparr>ep_id = ''testing-basic'', ep_version = ''3'', ep_task_types = [''tests'', ''testing''],
        ep_requirements = BASE_REQUIREMENTS @ [requirement ''test_artifacts'' ''test_artifacts'']\<rparr>]"

datatype eval_error = UnknownPolicy string | InvalidJudgeMode string

definition get_policy :: "string \<Rightarrow> eval_error + eval_policy" where
  "get_policy i = (case find (\<lambda>p. ep_id p = i) POLICIES of None \<Rightarrow> Inl (UnknownPolicy i) | Some p \<Rightarrow> Inr p)"

definition policy_for :: "string option \<Rightarrow> eval_error + eval_policy" where
  "policy_for task_type =
     (let normalized = lower (strip (str_or (case task_type of None \<Rightarrow> [] | Some t \<Rightarrow> t) ''unknown''))
      in case find (\<lambda>p. normalized \<in> set (ep_task_types p)) POLICIES of
           Some p \<Rightarrow> Inr p | None \<Rightarrow> get_policy ''executor-basic'')"

definition with_judge :: "string \<Rightarrow> eval_policy \<Rightarrow> eval_policy" where
  "with_judge mode p =
     p\<lparr>ep_version := ep_version p @ ''-judge-'' @ mode @ ''.1'',
       ep_requirements := ep_requirements p @ [\<lparr>ev_id = ''llm_judge'', ev_evaluator = ''llm_judge'', ev_required = (mode = ''required'')\<rparr>]\<rparr>"

definition JUDGE_MODES :: "string list" where "JUDGE_MODES = [''off'', ''shadow'', ''required'']"

definition select_policy :: "string option \<Rightarrow> string \<Rightarrow> string \<Rightarrow> eval_error + eval_policy" where
  "select_policy task_type policy_id judge_mode =
     (let requested = strip (str_or policy_id ''auto''); mode = lower (strip (str_or judge_mode ''off''))
      in case (if requested \<noteq> ''auto'' then get_policy requested else policy_for task_type) of
           Inl e \<Rightarrow> Inl e
         | Inr p \<Rightarrow> if mode \<notin> set JUDGE_MODES then Inl (InvalidJudgeMode mode)
                    else if mode = ''off'' then Inr p else Inr (with_judge mode p))"

section \<open>The engine\<close>

definition final_state :: "eval_check list \<Rightarrow> string" where
  "final_state checks =
     (let required = filter ec_required checks
      in if list_ex (\<lambda>c. ec_status c \<in> set [''failed'', ''error'']) required then ''soft_failure''
         else if required = [] \<or> list_ex (\<lambda>c. ec_status c \<in> set [''pending'', ''skipped'']) required then ''partial_success''
         else ''verified_success'')"

type_synonym judge = "executor_result \<Rightarrow> gw \<Rightarrow> (py_exn + judgement) \<times> gw"

record eval_env =
  ee_scan :: scan_env
  ee_builtins :: py_builtins
  ee_judge :: "judge option"
  ee_elapsed :: "string \<Rightarrow> rat"
  ee_started :: string
  ee_completed :: string

record eval_input =
  ei_result :: executor_result
  ei_baseline :: "baseline_check list"
  ei_cwd :: string
  ei_git_before :: "(string \<times> string) list"
  ei_git_after :: "(string \<times> string) list"
  ei_touched :: "string list"
  ei_timeout :: rat

definition eval_ctx :: "eval_input \<Rightarrow> verify_ctx" where
  "eval_ctx I = \<lparr>vc_cwd = ei_cwd I, vc_output = er_output (ei_result I), vc_files_touched = ei_touched I,
     vc_git_before = ei_git_before I, vc_git_after = ei_git_after I, vc_command_timeout = max 1 (ei_timeout I),
     vc_approved_limit = 0, vc_scope_pytest = False\<rparr>"

definition check_result :: "eval_env \<Rightarrow> eval_requirement \<Rightarrow> string \<Rightarrow> string \<Rightarrow> string \<Rightarrow> eval_detail \<Rightarrow> eval_check" where
  "check_result N r i status message detail =
     \<lparr>ec_id = i, ec_evaluator = ev_evaluator r, ec_status = status, ec_required = ev_required r, ec_message = message,
      ec_duration = ee_elapsed N i, ec_detail = detail\<rparr>"

definition pass_fail :: "bool \<Rightarrow> string" where "pass_fail ok = (if ok then ''passed'' else ''failed'')"

definition replay_check :: "eval_env \<Rightarrow> eval_input \<Rightarrow> eval_requirement \<Rightarrow> baseline_check \<Rightarrow> eval_check" where
  "replay_check N I r b =
     (let i = ev_id r @ '':'' @ bc_name b
      in if bc_status b \<noteq> ''passed''
         then check_result N r i ''skipped'' (''baseline status was '' @ bc_status b) [(''baseline_status'', JStr (bc_status b))]
         else if bc_argv b = [] then check_result N r i ''skipped'' ''legacy baseline has no exact argv'' []
         else let v = run_command_argv (sv_verify (ee_scan N)) (bc_argv b) (eval_ctx I) 0
              in check_result N r i (pass_fail (vr_ok v)) (vr_message v) (vr_detail v))"

definition safety_verdict :: "py_builtins \<Rightarrow> executor_result \<Rightarrow> bool \<times> string \<times> eval_detail" where
  "safety_verdict B r =
     (let meta = er_metadata r; violation = py_str B (jor (jget meta ''safety_violation'') (JStr []));
          soft = truthy (jget meta ''safety_soft'')
      in (\<not> (violation \<noteq> [] \<and> \<not> soft), str_or violation ''no safety-policy violation'', [(''soft_rollback'', JBool soft)]))"

definition judge_check :: "eval_env \<Rightarrow> eval_input \<Rightarrow> eval_requirement \<Rightarrow> gw \<Rightarrow> eval_check \<times> gw" where
  "judge_check N I r g = (case ee_judge N of
     None \<Rightarrow> (check_result N r (ev_id r) ''skipped'' ''LLM judge is not configured'' [], g)
   | Some judge \<Rightarrow> (case judge (ei_result I) g of
       (Inl e, g1) \<Rightarrow> (check_result N r (ev_id r) ''skipped'' ''LLM judge evaluator failed''
          [(''failure_kind'', JStr ''evaluator_exception'')], g1)
     | (Inr (status, message, detail), g1) \<Rightarrow> (check_result N r (ev_id r) status message detail, g1)))"

text \<open>The checks of one requirement other than the judge's.\<close>

definition checks_of :: "eval_env \<Rightarrow> eval_input \<Rightarrow> eval_requirement \<Rightarrow> py_exn + eval_check list" where
  "checks_of N I r =
     (let R = ei_result I; V = sv_verify (ee_scan N); one = (\<lambda>status message detail. Inr [check_result N r (ev_id r) status message detail]);
          answer = (\<lambda>a. case a of (ok, message, detail) \<Rightarrow> one (pass_fail ok) message detail)
      in if ev_evaluator r = ''executor_success''
         then one (pass_fail (er_success R)) (if er_success R then ''executor reported success'' else ''executor failed'') []
         else if ev_evaluator r = ''safety_policy'' then answer (safety_verdict (ee_builtins N) R)
         else if ev_evaluator r = ''file_changes''
         then (let v = run_check V (new_check ''git_diff_nonempty'') (eval_ctx I)
               in one (pass_fail (vr_ok v)) (vr_message v) (vr_detail v))
         else if ev_evaluator r = ''trajectory_policy'' then answer (evaluate_trajectory (ee_builtins N) R)
         else if ev_evaluator r = ''baseline_replay''
         then (if ei_baseline I = [] then one ''skipped'' ''no deterministic baseline commands to replay'' []
               else Inr (map (replay_check N I r) (ei_baseline I)))
         else if ev_evaluator r = ''markdown_links''
         then (case validate_markdown_links (ee_scan N) (ei_cwd I) (ei_touched I) of Inl e \<Rightarrow> Inl e | Inr a \<Rightarrow> answer a)
         else if ev_evaluator r = ''test_artifacts'' then answer (validate_test_artifacts (ei_touched I))
         else if ev_evaluator r = ''changed_security_scan''
         then (case scan_changed_security (ee_scan N) (ei_cwd I) (ei_touched I) of (status, message, detail) \<Rightarrow> one status message detail)
         else if ev_evaluator r = ''human_review'' then one ''pending'' ''explicit human review required'' []
         else one ''error'' (''unknown evaluator: '' @ ev_evaluator r) [])"

definition evaluate_requirement :: "eval_env \<Rightarrow> eval_input \<Rightarrow> eval_requirement \<Rightarrow> gw \<Rightarrow> (py_exn + eval_check list) \<times> gw" where
  "evaluate_requirement N I r g =
     (if ev_evaluator r = ''llm_judge'' then (case judge_check N I r g of (c, g1) \<Rightarrow> (Inr [c], g1)) else (checks_of N I r, g))"

text \<open>The loop over the requirements; a failed executor ends it.\<close>

fun evaluate_all :: "eval_env \<Rightarrow> eval_input \<Rightarrow> eval_requirement list \<Rightarrow> gw \<Rightarrow> (py_exn + eval_check list) \<times> gw" where
  "evaluate_all N I [] g = (Inr [], g)"
| "evaluate_all N I (r # rs) g = (case evaluate_requirement N I r g of
     (Inl e, g1) \<Rightarrow> (Inl e, g1)
   | (Inr cs, g1) \<Rightarrow>
       if ev_evaluator r = ''executor_success'' \<and> \<not> er_success (ei_result I) then (Inr cs, g1)
       else (case evaluate_all N I rs g1 of (Inl e, g2) \<Rightarrow> (Inl e, g2) | (Inr ds, g2) \<Rightarrow> (Inr (cs @ ds), g2)))"

definition evaluate_run :: "eval_env \<Rightarrow> eval_policy \<Rightarrow> eval_input \<Rightarrow> gw \<Rightarrow> (py_exn + eval_report) \<times> gw" where
  "evaluate_run N p I g = (case evaluate_all N I (ep_requirements p) g of
     (Inl e, g1) \<Rightarrow> (Inl e, g1)
   | (Inr checks, g1) \<Rightarrow> (Inr \<lparr>et_policy_id = ep_id p, et_policy_version = ep_version p, et_state = final_state checks,
        et_started = ee_started N, et_completed = ee_completed N, et_checks = checks, et_schema_version = EVAL_SCHEMA_VERSION,
        et_deterministic_only = (\<not> list_ex (\<lambda>c. ec_evaluator c = ''llm_judge'') checks)\<rparr>, g1))"

section \<open>Human feedback\<close>

definition review_check :: "string \<Rightarrow> eval_check \<Rightarrow> eval_check" where
  "review_check kind c =
     (if ec_evaluator c = ''human_review''
      then c\<lparr>ec_status := pass_fail (kind = ''accepted''), ec_message := ''explicit human feedback: '' @ kind,
             ec_detail := [(''kind'', JStr kind)]\<rparr>
      else c)"

definition calibration_event :: "string \<Rightarrow> string \<Rightarrow> json" where
  "calibration_event kind status =
     JObj [(''human_label'', JStr (if kind = ''accepted'' then ''pass'' else ''fail'')),
       (''judge_label'', JStr (if status = ''passed'' then ''pass'' else ''fail'')),
       (''agreement'', JBool ((kind = ''accepted'') = (status = ''passed''))), (''feedback_kind'', JStr kind)]"

definition judged :: "eval_check \<Rightarrow> bool" where
  "judged c \<longleftrightarrow> ec_evaluator c = ''llm_judge'' \<and> ec_status c \<in> set [''passed'', ''failed'']"

definition calibrate_check :: "string \<Rightarrow> eval_check \<Rightarrow> eval_check \<times> bool" where
  "calibrate_check kind c =
     (if \<not> judged c then (c, False)
      else case jget_default (ec_detail c) ''calibration_events'' (JList []) of
        JList events \<Rightarrow>
          (c\<lparr>ec_detail := dict_set ''calibration_events'' (JList (events @ [calibration_event kind (ec_status c)])) (ec_detail c)\<rparr>, True)
      | v \<Rightarrow> (c, False))"

definition apply_human_feedback :: "string \<Rightarrow> string \<Rightarrow> eval_report \<Rightarrow> eval_report \<times> bool" where
  "apply_human_feedback now kind rp =
     (let rows = map (\<lambda>c. calibrate_check kind (review_check kind c)) (et_checks rp); checks = map fst rows;
          changed = (list_ex (\<lambda>c. ec_evaluator c = ''human_review'') (et_checks rp) \<or> list_ex snd rows)
      in (if changed then rp\<lparr>et_checks := checks, et_state := final_state checks, et_completed := now\<rparr>
          else rp\<lparr>et_checks := checks\<rparr>, changed))"

section \<open>Dictionaries\<close>

definition eval_check_to_dict :: "eval_check \<Rightarrow> json" where
  "eval_check_to_dict c = JObj [(''id'', JStr (ec_id c)), (''evaluator'', JStr (ec_evaluator c)), (''status'', JStr (ec_status c)),
     (''required'', JBool (ec_required c)), (''message'', JStr (ec_message c)), (''duration_ms'', JFloat (ec_duration c)),
     (''detail'', JObj (ec_detail c))]"

definition eval_check_from_dict :: "py_builtins \<Rightarrow> eval_detail \<Rightarrow> py_exn + eval_check" where
  "eval_check_from_dict B d =
     (let text = (\<lambda>k dflt. py_str B (jor (jget d k) (JStr dflt)))
      in case py_float B (jor (jget d ''duration_ms'') (JFloat 0)) of
           Inl e \<Rightarrow> Inl e
         | Inr ms \<Rightarrow> (case py_dict B (jor (jget d ''detail'') (JObj [])) of
             Inl e \<Rightarrow> Inl e
           | Inr detail \<Rightarrow> Inr \<lparr>ec_id = text ''id'' ''unknown'', ec_evaluator = text ''evaluator'' ''unknown'',
               ec_status = text ''status'' ''error'', ec_required = truthy (jget_default d ''required'' (JBool True)),
               ec_message = text ''message'' [], ec_duration = ms, ec_detail = detail\<rparr>))"

definition eval_report_to_dict :: "eval_report \<Rightarrow> eval_detail" where
  "eval_report_to_dict rp = [(''policy_id'', JStr (et_policy_id rp)), (''policy_version'', JStr (et_policy_version rp)),
     (''state'', JStr (et_state rp)), (''started_at'', JStr (et_started rp)), (''completed_at'', JStr (et_completed rp)),
     (''checks'', JList (map eval_check_to_dict (et_checks rp))), (''schema_version'', JInt (et_schema_version rp)),
     (''deterministic_only'', JBool (et_deterministic_only rp))]"

text \<open>\<^verbatim>\<open>for item in (data.get("checks") or [])\<close>: a list of values, of which the dictionaries are read.  What
  else can be iterated (the keys of a dictionary, the characters of a string) holds no dictionary.\<close>

definition dict_items :: "json \<Rightarrow> py_exn + eval_detail list" where
  "dict_items v = (if \<not> truthy v then Inr []
     else case v of
       JList xs \<Rightarrow> Inr (List.map_filter (\<lambda>x. case x of JObj d \<Rightarrow> Some d | _ \<Rightarrow> None) xs)
     | JObj _ \<Rightarrow> Inr [] | JStr _ \<Rightarrow> Inr [] | _ \<Rightarrow> Inl PyTypeError)"

definition eval_report_from_dict :: "py_builtins \<Rightarrow> eval_detail \<Rightarrow> py_exn + eval_report" where
  "eval_report_from_dict B d =
     (let text = (\<lambda>k dflt. py_str B (jor (jget d k) (JStr dflt)))
      in case dict_items (jget d ''checks'') of
           Inl e \<Rightarrow> Inl e
         | Inr items \<Rightarrow> (case try_map (eval_check_from_dict B) items of
             Inl e \<Rightarrow> Inl e
           | Inr checks \<Rightarrow> (case py_int B (jor (jget d ''schema_version'') (JInt EVAL_SCHEMA_VERSION)) of
               Inl e \<Rightarrow> Inl e
             | Inr v \<Rightarrow> Inr \<lparr>et_policy_id = text ''policy_id'' ''unknown'', et_policy_version = text ''policy_version'' ''1'',
                 et_state = text ''state'' ''partial_success'', et_started = text ''started_at'' [],
                 et_completed = text ''completed_at'' [], et_checks = checks, et_schema_version = v,
                 et_deterministic_only = truthy (jget_default d ''deterministic_only'' (JBool True))\<rparr>)))"

section \<open>What a verified run is\<close>

definition bad_status :: "string \<Rightarrow> bool" where
  "bad_status s \<longleftrightarrow> s \<in> set [''failed'', ''error'', ''pending'', ''skipped'']"

lemma bad_status_simps [simp]:
  "bad_status ''failed''" "bad_status ''error''" "bad_status ''pending''" "bad_status ''skipped''" "\<not> bad_status ''passed''"
  by (simp_all add: bad_status_def)

lemma final_state_verified:
  "final_state cs = ''verified_success'' \<longleftrightarrow>
     (\<exists>c \<in> set cs. ec_required c) \<and> (\<forall>c \<in> set cs. ec_required c \<longrightarrow> \<not> bad_status (ec_status c))"
  by (auto simp: bad_status_def final_state_def Let_def list_ex_iff filter_empty_conv)

lemma final_state_required: "filter ec_required cs = filter ec_required ds \<Longrightarrow> final_state cs = final_state ds"
  by (simp add: final_state_def)

text \<open>When the requirement of an evaluator holds of the run; the judge and the human are not decided here.\<close>

definition requirement_met :: "eval_env \<Rightarrow> eval_input \<Rightarrow> eval_requirement \<Rightarrow> bool" where
  "requirement_met N I r \<longleftrightarrow>
     (let R = ei_result I; V = sv_verify (ee_scan N); meta = er_metadata R
      in if ev_evaluator r = ''executor_success'' then er_success R
         else if ev_evaluator r = ''safety_policy''
         then py_str (ee_builtins N) (jor (jget meta ''safety_violation'') (JStr [])) = [] \<or> truthy (jget meta ''safety_soft'')
         else if ev_evaluator r = ''file_changes'' then changed_or_touched V (eval_ctx I) \<noteq> []
         else if ev_evaluator r = ''trajectory_policy'' then trajectory_issues (ee_builtins N) meta = []
         else if ev_evaluator r = ''baseline_replay''
         then ei_baseline I \<noteq> [] \<and> (\<forall>b \<in> set (ei_baseline I). bc_status b = ''passed'' \<and> bc_argv b \<noteq> [] \<and>
           (\<exists>out err. ve_run V (bc_argv b) (ei_cwd I) (max 1 (ei_timeout I)) = Exited 0 out err))
         else if ev_evaluator r = ''markdown_links''
         then \<exists>m d. validate_markdown_links (ee_scan N) (ei_cwd I) (ei_touched I) = Inr (True, m, d)
         else if ev_evaluator r = ''test_artifacts'' then list_ex is_test_artifact (ei_touched I)
         else if ev_evaluator r = ''changed_security_scan''
         then fst (scan_changed_security (ee_scan N) (ei_cwd I) (ei_touched I)) = ''passed''
         else False)"

lemma check_result_simps [simp]:
  "ec_id (check_result N r i s m d) = i" "ec_evaluator (check_result N r i s m d) = ev_evaluator r"
  "ec_status (check_result N r i s m d) = s" "ec_required (check_result N r i s m d) = ev_required r"
  "ec_message (check_result N r i s m d) = m" "ec_detail (check_result N r i s m d) = d"
  by (simp_all add: check_result_def)

lemma pass_fail_bad [simp]: "bad_status (pass_fail ok) \<longleftrightarrow> \<not> ok" "pass_fail ok = ''passed'' \<longleftrightarrow> ok"
  by (simp_all add: pass_fail_def)

lemma replay_check_simps [simp]:
  "ec_evaluator (replay_check N I r b) = ev_evaluator r" "ec_required (replay_check N I r b) = ev_required r"
  by (simp_all add: replay_check_def Let_def)

lemma run_argv_ok: "vr_ok (run_command_argv V argv (eval_ctx I) 0) \<longleftrightarrow>
    (\<exists>out err. ve_run V argv (ei_cwd I) (max 1 (ei_timeout I)) = Exited 0 out err)"
proof -
  have "max 1 (ei_timeout I) > 0" by (simp add: less_max_iff_disj)
  then show ?thesis
    by (cases "ve_run V argv (ei_cwd I) (max 1 (ei_timeout I))") (auto simp: run_command_argv_def Let_def eval_ctx_def)
qed

lemma replay_check_bad:
  "bad_status (ec_status (replay_check N I r b)) \<longleftrightarrow>
     \<not> (bc_status b = ''passed'' \<and> bc_argv b \<noteq> [] \<and>
        (\<exists>out err. ve_run (sv_verify (ee_scan N)) (bc_argv b) (ei_cwd I) (max 1 (ei_timeout I)) = Exited 0 out err))"
  using run_argv_ok [of "sv_verify (ee_scan N)" "bc_argv b" I]
  by (simp add: replay_check_def Let_def)

lemma git_diff_check_ok:
  "vr_ok (run_check V (new_check ''git_diff_nonempty'') ctx) \<longleftrightarrow> changed_or_touched V ctx \<noteq> []"
proof -
  have "strip ''git_diff_nonempty'' = ''git_diff_nonempty''" by code_simp
  then show ?thesis by (simp add: run_check_def new_check_def Let_def check_git_diff_nonempty_def)
qed

lemma checks_of_shape:
  assumes "checks_of N I r = Inr cs"
  shows "cs \<noteq> []" "\<forall>c \<in> set cs. ec_required c = ev_required r \<and> ec_evaluator c = ev_evaluator r"
  using assms
  by (auto simp: checks_of_def Let_def split: if_splits prod.splits sum.splits)

lemma checks_of_met:
  assumes "checks_of N I r = Inr cs"
  shows "(\<forall>c \<in> set cs. \<not> bad_status (ec_status c)) \<longleftrightarrow> requirement_met N I r"
proof -
  have security: "bad_status (fst (scan_changed_security E cwd t)) \<longleftrightarrow> fst (scan_changed_security E cwd t) \<noteq> ''passed''" for E cwd t
    using security_scan_status [of E cwd t] by auto
  have eqs: "eval_ctx I = eval_ctx I" by simp
  consider "ev_evaluator r = ''baseline_replay''" | "ev_evaluator r = ''markdown_links''" | "ev_evaluator r = ''changed_security_scan''"
    | "ev_evaluator r \<notin> {''baseline_replay'', ''markdown_links'', ''changed_security_scan''}" by blast
  then show ?thesis
  proof cases
    case 1
    then show ?thesis using assms
      by (cases "ei_baseline I = []") (auto simp: checks_of_def requirement_met_def Let_def replay_check_bad)
  next
    case 2
    then show ?thesis using assms
      by (auto simp: checks_of_def requirement_met_def Let_def split: sum.splits prod.splits)
  next
    case 3
    then show ?thesis using assms security [of "ee_scan N" "ei_cwd I" "ei_touched I"]
      by (auto simp: checks_of_def requirement_met_def Let_def split: prod.splits)
  next
    case 4
    then show ?thesis using assms git_diff_check_ok [of "sv_verify (ee_scan N)" "eval_ctx I"] trajectory_clean [of "ee_builtins N" "ei_result I"]
        test_artifacts_ok [of "ei_touched I"]
      by (auto simp: checks_of_def requirement_met_def Let_def safety_verdict_def split: if_splits prod.splits)
  qed
qed

text \<open>A policy whose executor requirement counts: then leaving the loop early loses nothing.\<close>

definition policy_ok :: "eval_requirement list \<Rightarrow> bool" where
  "policy_ok rs \<longleftrightarrow> list_all (\<lambda>r. ev_evaluator r = ''executor_success'' \<longrightarrow> ev_required r) rs"

definition judge_passed :: "eval_check list \<Rightarrow> bool" where
  "judge_passed cs \<longleftrightarrow> (\<forall>c \<in> set cs. ec_required c \<and> ec_evaluator c = ''llm_judge'' \<longrightarrow> \<not> bad_status (ec_status c))"

lemma requirement_checks:
  assumes "evaluate_requirement N I r g = (Inr cs, g')"
  shows "cs \<noteq> []" "\<forall>c \<in> set cs. ec_required c = ev_required r \<and> ec_evaluator c = ev_evaluator r"
    and "ev_evaluator r \<noteq> ''llm_judge'' \<Longrightarrow> (\<forall>c \<in> set cs. \<not> bad_status (ec_status c)) \<longleftrightarrow> requirement_met N I r"
  using assms checks_of_shape [of N I r cs] checks_of_met [of N I r cs]
  by (auto simp: evaluate_requirement_def judge_check_def split: if_splits prod.splits option.splits sum.splits)

lemma requirement_checks_verified:
  assumes "evaluate_requirement N I r g = (Inr cs, g')"
  shows "(\<forall>c \<in> set cs. F (ec_evaluator c) \<and> ec_required c \<longrightarrow> \<not> bad_status (ec_status c)) \<longleftrightarrow>
      (F (ev_evaluator r) \<and> ev_required r \<and> ev_evaluator r \<noteq> ''llm_judge'' \<longrightarrow> requirement_met N I r) \<and>
      (F ''llm_judge'' \<longrightarrow> judge_passed cs)"
  using requirement_checks [OF assms] by (cases "ev_evaluator r = ''llm_judge''") (auto simp: judge_passed_def)

lemma judge_passed_append [simp]: "judge_passed (cs @ ds) \<longleftrightarrow> judge_passed cs \<and> judge_passed ds"
  by (auto simp: judge_passed_def)

lemma evaluate_all_Cons:
  assumes "evaluate_all N I (r # rs) g = (Inr cs, g')"
  obtains (left) "evaluate_requirement N I r g = (Inr cs, g')" "ev_evaluator r = ''executor_success''" "\<not> er_success (ei_result I)"
  | (on) cs1 g1 ds where "evaluate_requirement N I r g = (Inr cs1, g1)" "evaluate_all N I rs g1 = (Inr ds, g')" "cs = cs1 @ ds"
  using assms by (auto split: prod.splits sum.splits if_splits)

text \<open>\<open>F\<close> picks the evaluators of interest; the executor's is always one of them.\<close>

lemma evaluate_all_verified:
  assumes "evaluate_all N I rs g = (Inr cs, g')" "policy_ok rs" "F ''executor_success''"
  shows "((\<forall>c \<in> set cs. F (ec_evaluator c) \<and> ec_required c \<longrightarrow> \<not> bad_status (ec_status c)) \<longleftrightarrow>
      (\<forall>r \<in> set rs. F (ev_evaluator r) \<and> ev_required r \<and> ev_evaluator r \<noteq> ''llm_judge'' \<longrightarrow> requirement_met N I r) \<and>
      (F ''llm_judge'' \<longrightarrow> judge_passed cs)) \<and>
    ((\<exists>c \<in> set cs. ec_required c) \<longleftrightarrow> (\<exists>r \<in> set rs. ev_required r))"
  using assms(1,2)
proof (induction rs arbitrary: cs g)
  case (Cons r rs)
  from Cons.prems(1) show ?case
  proof (cases rule: evaluate_all_Cons)
    case left
    have req: "ev_required r" using Cons.prems(2) left(2) by (simp add: policy_ok_def)
    have "\<not> requirement_met N I r" using left(2,3) by (simp add: requirement_met_def)
    moreover obtain c where "c \<in> set cs" "ec_required c"
      using requirement_checks(1,2) [OF left(1)] req by (metis list.set_intros(1) neq_Nil_conv)
    ultimately show ?thesis
      using requirement_checks_verified [OF left(1), of F] req left(2) assms(3) by auto
  next
    case (on cs1 g1 ds)
    have "(\<exists>c \<in> set cs1. ec_required c) \<longleftrightarrow> ev_required r"
      using requirement_checks(1,2) [OF on(1)] by (metis list.set_intros(1) neq_Nil_conv)
    moreover have "policy_ok rs" using Cons.prems(2) by (simp add: policy_ok_def)
    ultimately show ?thesis
      using Cons.IH [OF on(2)] requirement_checks_verified [OF on(1), of F] on(3) by (auto simp: ball_Un)
  qed
qed (auto simp: judge_passed_def)

text \<open>Every requirement has a check, unless the executor failed.\<close>

lemma evaluate_all_covers:
  assumes "evaluate_all N I rs g = (Inr cs, g')" "r \<in> set rs"
  shows "(\<exists>c \<in> set cs. ec_evaluator c = ev_evaluator r \<and> ec_required c = ev_required r) \<or>
    (\<exists>x \<in> set rs. ev_evaluator x = ''executor_success'' \<and> \<not> requirement_met N I x)"
  using assms
proof (induction rs arbitrary: cs g)
  case (Cons x rs)
  from Cons.prems(1) show ?case
  proof (cases rule: evaluate_all_Cons)
    case left
    then show ?thesis by (auto simp: requirement_met_def)
  next
    case (on cs1 g1 ds)
    have "\<exists>c \<in> set cs1. ec_evaluator c = ev_evaluator x \<and> ec_required c = ev_required x"
      using requirement_checks(1,2) [OF on(1)] by (metis list.set_intros(1) neq_Nil_conv)
    then show ?thesis using Cons.IH [OF on(2)] Cons.prems(2) on(3) by auto
  qed
qed simp

text \<open>The report of a run: verified exactly when every counting requirement holds and the judge, if it counts, passed.\<close>

lemma evaluate_run_verified:
  assumes "evaluate_run N p I g = (Inr rp, g')" "policy_ok (ep_requirements p)" "\<exists>r \<in> set (ep_requirements p). ev_required r"
  shows "et_state rp = ''verified_success'' \<longleftrightarrow>
    (\<forall>r \<in> set (ep_requirements p). ev_required r \<and> ev_evaluator r \<noteq> ''llm_judge'' \<longrightarrow> requirement_met N I r) \<and>
    judge_passed (et_checks rp)"
proof -
  obtain cs where cs: "evaluate_all N I (ep_requirements p) g = (Inr cs, g')" "et_checks rp = cs" "et_state rp = final_state cs"
    using assms(1) by (auto simp: evaluate_run_def split: prod.splits sum.splits)
  show ?thesis using evaluate_all_verified [OF cs(1) assms(2), of "\<lambda>_. True"] assms(3) by (simp add: cs(2,3) final_state_verified)
qed

lemma policies_ok:
  assumes "p \<in> set POLICIES"
  shows "policy_ok (ep_requirements p)" "\<exists>r \<in> set (ep_requirements p). ev_required r"
    "\<forall>r \<in> set (ep_requirements p). ev_required r \<and> ev_evaluator r \<noteq> ''llm_judge''"
  using assms by (auto simp: POLICIES_def BASE_REQUIREMENTS_def requirement_def policy_ok_def)

lemma find_policy: "find P POLICIES = Some p \<Longrightarrow> p \<in> set POLICIES"
  by (rule conjunct1 [OF find_SomeD])

lemma selected_policy:
  assumes "select_policy t i mode = Inr p"
  obtains q where "q \<in> set POLICIES" "p = q \<or> (\<exists>m. m \<in> {''shadow'', ''required''} \<and> p = with_judge m q)"
proof -
  obtain q where q: "(if strip (str_or i ''auto'') \<noteq> ''auto'' then get_policy (strip (str_or i ''auto'')) else policy_for t) = Inr q"
    "p = q \<or> (\<exists>m. m \<in> set JUDGE_MODES \<and> m \<noteq> ''off'' \<and> p = with_judge m q)"
    using assms by (auto simp only: select_policy_def Let_def split: sum.splits if_splits)
  have "q \<in> set POLICIES"
    using q(1) by (auto simp: get_policy_def policy_for_def Let_def dest: find_policy split: option.splits if_splits)
  then show ?thesis using q(2) that by (auto simp: JUDGE_MODES_def)
qed

lemma selected_policy_ok:
  assumes "select_policy t i mode = Inr p"
  shows "policy_ok (ep_requirements p)" "\<exists>r \<in> set (ep_requirements p). ev_required r"
proof -
  obtain q where q: "q \<in> set POLICIES" "p = q \<or> (\<exists>m. p = with_judge m q)" using selected_policy [OF assms] by metis
  then show "policy_ok (ep_requirements p)" "\<exists>r \<in> set (ep_requirements p). ev_required r"
    using policies_ok [OF q(1)] by (auto simp: with_judge_def policy_ok_def)
qed

section \<open>A judge in shadow mode\<close>

lemma evaluate_all_snoc:
  assumes "ev_evaluator j = ''llm_judge''" "\<not> ev_required j"
  shows "map_sum id (filter ec_required) (fst (evaluate_all N I (rs @ [j]) g)) = map_sum id (filter ec_required) (fst (evaluate_all N I rs g))"
proof (induction rs arbitrary: g)
  case Nil
  obtain c g1 where c: "judge_check N I j g = (c, g1)" by fastforce
  then have "\<not> ec_required c" using assms(2) by (auto simp: judge_check_def split: option.splits prod.splits sum.splits)
  then show ?case using assms(1) c by (simp add: evaluate_requirement_def)
next
  case (Cons r rs)
  obtain a g1 where a: "evaluate_requirement N I r g = (a, g1)" by fastforce
  obtain b g2 where b: "evaluate_all N I (rs @ [j]) g1 = (b, g2)" by fastforce
  obtain b' g2' where b': "evaluate_all N I rs g1 = (b', g2')" by fastforce
  show ?case using Cons.IH [of g1] a b b' by (cases a; cases b; cases b') auto
qed

lemma shadow_judge_silent:
  "map_sum id et_state (fst (evaluate_run N (with_judge ''shadow'' p) I g)) = map_sum id et_state (fst (evaluate_run N p I g))"
proof -
  let ?j = "\<lparr>ev_id = ''llm_judge'', ev_evaluator = ''llm_judge'', ev_required = False\<rparr>"
  obtain a g1 where a: "evaluate_all N I (ep_requirements p @ [?j]) g = (a, g1)" by fastforce
  obtain b g2 where b: "evaluate_all N I (ep_requirements p) g = (b, g2)" by fastforce
  have "map_sum id (filter ec_required) a = map_sum id (filter ec_required) b"
    using evaluate_all_snoc [of ?j N I "ep_requirements p" g] a b by simp
  then show ?thesis using a b
    by (cases a; cases b) (auto simp: evaluate_run_def with_judge_def dest: final_state_required)
qed

section \<open>The human gate\<close>

lemma review_required [simp]:
  "ec_required (review_check k c) = ec_required c" "ec_evaluator (review_check k c) = ec_evaluator c"
  by (simp_all add: review_check_def)

lemma calibrate_keeps [simp]:
  "ec_required (fst (calibrate_check k c)) = ec_required c" "ec_status (fst (calibrate_check k c)) = ec_status c"
  by (auto simp: calibrate_check_def split: json.split)

lemma gated_all:
  "c \<in> S \<Longrightarrow> P c \<Longrightarrow> Q c \<Longrightarrow>
     (\<forall>d \<in> S. Q d \<longrightarrow> (if P d then k else R d)) \<longleftrightarrow> k \<and> (\<forall>d \<in> S. Q d \<and> \<not> P d \<longrightarrow> R d)"
  by auto

lemma feedback_verified:
  assumes "c \<in> set (et_checks rp)" "ec_evaluator c = ''human_review''" "ec_required c"
  shows "et_state (fst (apply_human_feedback now kind rp)) = ''verified_success'' \<longleftrightarrow>
    kind = ''accepted'' \<and> (\<forall>d \<in> set (et_checks rp). ec_required d \<and> ec_evaluator d \<noteq> ''human_review'' \<longrightarrow> \<not> bad_status (ec_status d))"
proof -
  have ch: "list_ex (\<lambda>c. ec_evaluator c = ''human_review'') (et_checks rp)" using assms by (auto simp: list_ex_iff)
  have st: "ec_status (review_check kind d) = (if ec_evaluator d = ''human_review'' then pass_fail (kind = ''accepted'') else ec_status d)" for d
    by (simp add: review_check_def)
  have "et_state (fst (apply_human_feedback now kind rp)) =
      final_state (map (\<lambda>c. fst (calibrate_check kind (review_check kind c))) (et_checks rp))"
    using ch by (simp add: apply_human_feedback_def Let_def comp_def)
  moreover have "\<exists>x \<in> set (map (\<lambda>c. fst (calibrate_check kind (review_check kind c))) (et_checks rp)). ec_required x"
    by (rule bexI [of _ "fst (calibrate_check kind (review_check kind c))"]) (use assms in simp_all)
  moreover have "(\<forall>x \<in> set (map (\<lambda>c. fst (calibrate_check kind (review_check kind c))) (et_checks rp)). ec_required x \<longrightarrow> \<not> bad_status (ec_status x))
      \<longleftrightarrow> (\<forall>d \<in> set (et_checks rp). ec_required d \<longrightarrow>
         (if ec_evaluator d = ''human_review'' then kind = ''accepted'' else \<not> bad_status (ec_status d)))"
    by (simp add: st if_distrib [of bad_status] cong: if_cong)
  ultimately have "et_state (fst (apply_human_feedback now kind rp)) = ''verified_success'' \<longleftrightarrow>
      (\<forall>d \<in> set (et_checks rp). ec_required d \<longrightarrow>
         (if ec_evaluator d = ''human_review'' then kind = ''accepted'' else \<not> bad_status (ec_status d)))"
    by (simp only: final_state_verified simp_thms)
  then show ?thesis
    using gated_all [OF assms(1), of "\<lambda>d. ec_evaluator d = ''human_review''" ec_required "kind = ''accepted''"
        "\<lambda>d. \<not> bad_status (ec_status d)"] assms(2,3) by simp
qed

text \<open>Documentation and security runs wait for a person: no evaluation alone verifies them.\<close>

lemma review_not_verified:
  assumes "evaluate_run N p I g = (Inr rp, g')" "policy_ok (ep_requirements p)"
    and "r \<in> set (ep_requirements p)" "ev_evaluator r = ''human_review''" "ev_required r"
  shows "et_state rp \<noteq> ''verified_success''"
proof -
  have "\<not> requirement_met N I r" using assms(4) by (simp add: requirement_met_def)
  moreover have "\<exists>r \<in> set (ep_requirements p). ev_required r" using assms(3,5) by blast
  ultimately show ?thesis using evaluate_run_verified [OF assms(1,2)] assms(3-5) by auto
qed

lemma feedback_not_verified:
  assumes "c \<in> set (et_checks rp)" "ec_required c" "ec_evaluator c \<noteq> ''human_review''" "bad_status (ec_status c)"
    and "et_state rp = final_state (et_checks rp)"
  shows "et_state (fst (apply_human_feedback now kind rp)) \<noteq> ''verified_success''"
proof -
  let ?c = "fst (calibrate_check kind (review_check kind c))"
  have r: "review_check kind c = c" using assms(3) by (simp add: review_check_def)
  have "final_state (map fst (map (\<lambda>c. calibrate_check kind (review_check kind c)) (et_checks rp))) \<noteq> ''verified_success''"
  proof
    assume v: "final_state (map fst (map (\<lambda>c. calibrate_check kind (review_check kind c)) (et_checks rp))) = ''verified_success''"
    have "?c \<in> set (map fst (map (\<lambda>c. calibrate_check kind (review_check kind c)) (et_checks rp)))" using assms(1) by simp
    then have "\<not> bad_status (ec_status ?c)" using v assms(1,2) unfolding final_state_verified by simp
    then show False using assms(4) r by simp
  qed
  moreover have "final_state (et_checks rp) \<noteq> ''verified_success''" using assms(1,2,4) by (auto simp: final_state_verified)
  ultimately show ?thesis using assms(5) by (simp add: apply_human_feedback_def Let_def)
qed

lemma run_feedback_verified:
  assumes "evaluate_run N p I g = (Inr rp, g')" "policy_ok (ep_requirements p)"
    and "r \<in> set (ep_requirements p)" "ev_evaluator r = ''human_review''" "ev_required r"
  shows "et_state (fst (apply_human_feedback now kind rp)) = ''verified_success'' \<longleftrightarrow>
    kind = ''accepted'' \<and> judge_passed (et_checks rp) \<and>
    (\<forall>x \<in> set (ep_requirements p). ev_required x \<and> ev_evaluator x \<notin> {''human_review'', ''llm_judge''} \<longrightarrow> requirement_met N I x)"
proof -
  obtain cs where cs: "evaluate_all N I (ep_requirements p) g = (Inr cs, g')" "et_checks rp = cs" "et_state rp = final_state cs"
    using assms(1) by (auto simp: evaluate_run_def split: prod.splits sum.splits)
  note all = evaluate_all_verified [OF cs(1) assms(2), of "\<lambda>e. e \<noteq> ''human_review''"]
  have others: "(\<forall>c \<in> set cs. ec_required c \<and> ec_evaluator c \<noteq> ''human_review'' \<longrightarrow> \<not> bad_status (ec_status c)) \<longleftrightarrow>
      (\<forall>x \<in> set (ep_requirements p). ev_required x \<and> ev_evaluator x \<notin> {''human_review'', ''llm_judge''} \<longrightarrow> requirement_met N I x) \<and>
      judge_passed cs"
    using all by auto
  show ?thesis
  proof (cases "\<exists>c \<in> set cs. ec_evaluator c = ''human_review'' \<and> ec_required c")
    case True
    then show ?thesis using feedback_verified [of _ rp now kind] others unfolding cs(2) by blast
  next
    case False
    then obtain x where x: "x \<in> set (ep_requirements p)" "ev_evaluator x = ''executor_success''" "\<not> requirement_met N I x"
      using evaluate_all_covers [OF cs(1) assms(3)] assms(4,5) by auto
    have "ev_required x" using assms(2) x(1,2) by (auto simp: policy_ok_def list_all_iff)
    then have no: "\<not> (\<forall>x \<in> set (ep_requirements p). ev_required x \<and> ev_evaluator x \<notin> {''human_review'', ''llm_judge''} \<longrightarrow> requirement_met N I x)"
      using x by auto
    then obtain c where "c \<in> set cs" "ec_required c" "ec_evaluator c \<noteq> ''human_review''" "bad_status (ec_status c)"
      using others by blast
    then show ?thesis using feedback_not_verified [of c rp now kind] no cs(2,3) by auto
  qed
qed

section \<open>Round trip\<close>

definition eval_check_storable :: "eval_check \<Rightarrow> bool" where
  "eval_check_storable c \<longleftrightarrow> ec_id c \<noteq> [] \<and> ec_evaluator c \<noteq> [] \<and> ec_status c \<noteq> []"

definition eval_report_storable :: "eval_report \<Rightarrow> bool" where
  "eval_report_storable rp \<longleftrightarrow> et_policy_id rp \<noteq> [] \<and> et_policy_version rp \<noteq> [] \<and> et_state rp \<noteq> [] \<and>
     et_schema_version rp \<noteq> 0 \<and> list_all eval_check_storable (et_checks rp)"

lemma check_dict_roundtrip:
  assumes "py_builtins_ok B" "eval_check_storable c"
  shows "\<exists>d. eval_check_to_dict c = JObj d \<and> eval_check_from_dict B d = Inr c"
  using assms by (auto simp: eval_check_to_dict_def eval_check_from_dict_def eval_check_storable_def Let_def jget_def jget_default_def jor_def)

lemma report_dict_roundtrip:
  assumes "py_builtins_ok B" "eval_report_storable rp"
  shows "eval_report_from_dict B (eval_report_to_dict rp) = Inr rp"
proof -
  define f where "f c = (SOME d. eval_check_to_dict c = JObj d \<and> eval_check_from_dict B d = Inr c)" for c
  have f: "eval_check_to_dict c = JObj (f c) \<and> eval_check_from_dict B (f c) = Inr c" if "c \<in> set (et_checks rp)" for c
    unfolding f_def using someI_ex [OF check_dict_roundtrip [OF assms(1)]] assms(2) that
    by (auto simp: eval_report_storable_def list_all_iff)
  then have rows: "map eval_check_to_dict (et_checks rp) = map (\<lambda>c. JObj (f c)) (et_checks rp)" by simp
  have "List.map_filter (\<lambda>x. case x of JObj d \<Rightarrow> Some d | _ \<Rightarrow> None) (map (\<lambda>c. JObj (f c)) cs) = map f cs" for cs
    by (induction cs) (simp_all add: List.map_filter_simps)
  then have items: "dict_items (JList (map eval_check_to_dict (et_checks rp))) = Inr (map f (et_checks rp))"
    unfolding rows by (simp add: dict_items_def)
  have checks: "try_map (eval_check_from_dict B) (map f (et_checks rp)) = Inr (et_checks rp)"
    using try_map_map_Inr [of "et_checks rp" "eval_check_from_dict B" f "\<lambda>c. c"] f by simp
  have gets: "jget (eval_report_to_dict rp) ''checks'' = JList (map eval_check_to_dict (et_checks rp))"
    "jget (eval_report_to_dict rp) ''policy_id'' = JStr (et_policy_id rp)"
    "jget (eval_report_to_dict rp) ''policy_version'' = JStr (et_policy_version rp)"
    "jget (eval_report_to_dict rp) ''state'' = JStr (et_state rp)"
    "jget (eval_report_to_dict rp) ''started_at'' = JStr (et_started rp)"
    "jget (eval_report_to_dict rp) ''completed_at'' = JStr (et_completed rp)"
    "jget (eval_report_to_dict rp) ''schema_version'' = JInt (et_schema_version rp)"
    "jget_default (eval_report_to_dict rp) ''deterministic_only'' d = JBool (et_deterministic_only rp)" for d
    by (simp_all add: eval_report_to_dict_def jget_def jget_default_def)
  show ?thesis using assms
    by (simp add: eval_report_from_dict_def gets items checks jor_def eval_report_storable_def)
qed

section \<open>The configured judge in a run\<close>

lemma judge_checks_source:
  "evaluate_all N I rs g = (Inr cs, g') \<Longrightarrow> c \<in> set cs \<Longrightarrow> ec_evaluator c = ''llm_judge'' \<Longrightarrow>
     \<exists>r g1 g2. judge_check N I r g1 = (c, g2)"
proof (induction rs arbitrary: cs g)
  case (Cons r rs)
  have one: "\<exists>g2. judge_check N I r g0 = (c, g2)"
    if e: "evaluate_requirement N I r g0 = (Inr ds, g2)" "c \<in> set ds" for g0 ds g2
  proof -
    have "ev_evaluator r = ''llm_judge''" using requirement_checks(2) [OF e(1)] e(2) Cons.prems(3) by auto
    then show ?thesis using e by (auto simp: evaluate_requirement_def split: prod.splits)
  qed
  from Cons.prems(1) show ?case
  proof (cases rule: evaluate_all_Cons)
    case left
    then show ?thesis using one Cons.prems(2) by blast
  next
    case (on cs1 g1 ds)
    then show ?thesis using one [OF on(1)] Cons.IH [OF on(2) _ Cons.prems(3)] Cons.prems(2) by auto
  qed
qed simp

definition configured_judge :: "judge_env \<Rightarrow> judge_cfg \<Rightarrow> router_cfg \<Rightarrow> string \<Rightarrow> string option \<Rightarrow> judge" where
  "configured_judge J K C task task_type r g = evaluate_configured_llm J K C task task_type (er_output r) g"

text \<open>A judge check that passes rests on a reply of the gateway that grades every dimension of the
  rubric and reaches the threshold.\<close>

lemma judge_check_passed:
  assumes "ee_judge N = Some (configured_judge J K C task tt)" "judge_check N I r g = (c, g')" "\<not> bad_status (ec_status c)"
  shows "\<exists>content obs. graded_reply (ge_loads (ju_gateway J)) content (rubric_for tt) ''pass'' obs \<and>
    weighted_score (rubric_for tt) obs \<ge> jc_threshold K \<and> critical_ok (rubric_for tt) obs"
proof -
  let ?A = "configured_ask K C task tt (er_output (ei_result I))"
  have A: "ja_task_type ?A = tt" "ja_threshold ?A = jc_threshold K" by (simp_all add: configured_ask_def Let_def split: prod.split)
  obtain j where j: "configured_judge J K C task tt (ei_result I) g = (Inr j, g')" "ec_status c = fst j"
    using assms by (auto simp: judge_check_def split: prod.splits sum.splits)
  have "fst j \<noteq> ''skipped''" "fst j \<noteq> ''failed''" using assms(3) j(2) by auto
  then show ?thesis
    using judge_answers [OF j(1) [unfolded configured_judge_def evaluate_configured_llm_def]] A by (auto split: if_splits)
qed

lemma evaluate_run_judged:
  assumes "evaluate_run N p I g = (Inr rp, g')" "ee_judge N = Some (configured_judge J K C task tt)"
    and "c \<in> set (et_checks rp)" "ec_evaluator c = ''llm_judge''" "\<not> bad_status (ec_status c)"
  shows "\<exists>content obs. graded_reply (ge_loads (ju_gateway J)) content (rubric_for tt) ''pass'' obs \<and>
    weighted_score (rubric_for tt) obs \<ge> jc_threshold K \<and> critical_ok (rubric_for tt) obs"
proof -
  obtain cs where "evaluate_all N I (ep_requirements p) g = (Inr cs, g')" "et_checks rp = cs"
    using assms(1) by (auto simp: evaluate_run_def split: prod.splits sum.splits)
  then obtain r g1 g2 where "judge_check N I r g1 = (c, g2)" using judge_checks_source assms(3,4) by blast
  then show ?thesis using judge_check_passed [OF assms(2) _ assms(5)] by blast
qed

end
