(* ===== verification/Evidence.thy ===== *)
theory Evidence
  imports Eval_Engine Plan_Store
begin

text \<open>
  The evidence of a run: \<^verbatim>\<open>src/voly/evidence/baseline.py\<close> (the health of the repository before the run),
  \<^verbatim>\<open>classifier.py\<close>, \<^verbatim>\<open>record.py\<close>, \<^verbatim>\<open>store.py\<close> (human feedback) and \<^verbatim>\<open>privacy.py\<close> (what may leave the
  machine).  The project scanner, hashing, \<^verbatim>\<open>%g\<close> and the clock are functions.  The store's directory maps
  file names to what loading them gives; the JSON form of a record is left out.
\<close>

section \<open>Records\<close>

record repository_baseline =
  rb_captured_at :: string
  rb_health :: string
  rb_stack :: "string list"
  rb_test_frameworks :: "string list"
  rb_package_managers :: "string list"
  rb_checks :: "baseline_check list"
  rb_notes :: "string list"

definition has_preexisting_failures :: "repository_baseline \<Rightarrow> bool" where
  "has_preexisting_failures b \<longleftrightarrow> rb_health b \<in> set [''preexisting_failure'', ''environment_failure'']"

record execution_bundle =
  xb_agent :: string
  xb_executor :: string
  xb_model :: string
  xb_provider :: string
  xb_runtime_version :: string
  xb_skills :: "json list"
  xb_policy_id :: string
  xb_policy_version :: string

record evidence_outcome =
  oc_success :: bool
  oc_state :: string
  oc_failure_class :: string
  oc_error_class :: string
  oc_penalize_agent :: bool
  oc_cost_usd :: rat
  oc_duration_ms :: rat
  oc_retries :: int
  oc_files_changed :: int

record human_feedback =
  hf_kind :: string
  hf_recorded_at :: string
  hf_source :: string
  hf_comment :: string

record evidence_record =
  ed_task_id :: string
  ed_created_at :: string
  ed_task_type :: string
  ed_fingerprint :: string
  ed_baseline :: repository_baseline
  ed_execution :: execution_bundle
  ed_outcome :: evidence_outcome
  ed_evaluation :: "eval_report option"
  ed_feedback :: "human_feedback list"
  ed_action_report :: "eval_detail option"
  ed_schema_version :: int

definition EVIDENCE_SCHEMA_VERSION :: int where "EVIDENCE_SCHEMA_VERSION = 3"

section \<open>The baseline\<close>

record baseline_env =
  be_verify :: verify_env
  be_loads :: "string \<Rightarrow> py_exn + json"
  be_scan :: "string \<Rightarrow> string + project_profile \<times> string list"
  be_show :: "rat \<Rightarrow> string"
  be_elapsed :: "string \<Rightarrow> rat"
  be_now :: string

type_synonym command = "string \<times> string list"

definition split_command :: "string \<Rightarrow> string list" where
  "split_command c = (case shlex_split c of None \<Rightarrow> [] | Some argv \<Rightarrow> argv)"

definition configured_commands :: "(string \<times> string) list \<Rightarrow> command list" where
  "configured_commands raw = filter (\<lambda>(n, argv). argv \<noteq> []) (map (\<lambda>(n, c). (n, split_command c)) raw)"

definition node_runner :: "string list \<Rightarrow> string" where
  "node_runner managers =
     (let lowered = map lower managers
      in if ''pnpm'' \<in> set lowered then ''pnpm'' else if ''yarn'' \<in> set lowered then ''yarn'' else ''npm'')"

text \<open>A \<^verbatim>\<open>package.json\<close> that is not an object raises: its \<^verbatim>\<open>get\<close> is missing.\<close>

definition package_script :: "baseline_env \<Rightarrow> string \<Rightarrow> string \<Rightarrow> py_exn + bool" where
  "package_script E cwd name = (case ve_read (be_verify E) (cwd @ ''/package.json'') of
     Inl m \<Rightarrow> Inr False
   | Inr body \<Rightarrow> (case be_loads E body of
       Inl e \<Rightarrow> Inr False
     | Inr v \<Rightarrow> (case v of
         JObj d \<Rightarrow> Inr (case jget d ''scripts'' of JObj scripts \<Rightarrow> truthy (jget scripts name) | _ \<Rightarrow> False)
       | _ \<Rightarrow> Inl PyAttributeError)))"

definition build_command :: "baseline_env \<Rightarrow> string \<Rightarrow> project_profile \<Rightarrow> py_exn + command list" where
  "build_command E cwd profile =
     (let is = (\<lambda>f. ve_is_file (be_verify E) (cwd @ ''/'' @ f));
          others = (if is ''go.mod'' then [(''build'', [''go'', ''build'', ''./...''])]
                    else if is ''Cargo.toml'' then [(''build'', [''cargo'', ''check''])]
                    else if is ''pom.xml'' then [(''build'', [''mvn'', ''package'', ''-DskipTests'', ''-q''])] else [])
      in if is ''package.json''
         then map_sum id (\<lambda>ok. if ok then [(''build'', [node_runner (prof_package_managers profile), ''run'', ''build''])] else others)
                (package_script E cwd ''build'')
         else Inr others)"

definition lint_command :: "project_profile \<Rightarrow> command list" where
  "lint_command profile =
     (let linters = map lower (prof_linter_tools profile)
      in if ''ruff'' \<in> set linters then [(''lint'', [''ruff'', ''check'', ''.''])]
         else if ''eslint'' \<in> set linters then [(''lint'', [''npx'', ''eslint'', ''.''])]
         else if ''golangci-lint'' \<in> set linters then [(''lint'', [''golangci-lint'', ''run''])] else [])"

definition auto_commands :: "baseline_env \<Rightarrow> string \<Rightarrow> project_profile \<Rightarrow> py_exn + command list" where
  "auto_commands E cwd profile =
     (let test = suggest_test_command (Some profile);
          tests = (if test \<noteq> [] then [(''tests'', split_command test)] else [])
      in map_sum id (\<lambda>build. filter (\<lambda>(n, argv). argv \<noteq> []) (build @ tests @ lint_command profile)) (build_command E cwd profile))"

text \<open>\<^verbatim>\<open>subprocess.list2cmdline\<close>: backslashes before a quote double; \<open>slashes\<close> counts the pending ones.\<close>

definition backslashes :: "nat \<Rightarrow> string" where "backslashes n = replicate n (CHR 0x5C)"

fun quote_arg :: "nat \<Rightarrow> string \<Rightarrow> string \<times> nat" where
  "quote_arg slashes [] = ([], slashes)"
| "quote_arg slashes (c # cs) =
     (if c = CHR 0x5C then quote_arg (slashes + 1) cs
      else let (rest, k) = quote_arg 0 cs
           in (if c = CHR 0x22 then backslashes (2 * slashes) @ [CHR 0x5C, CHR 0x22] @ rest else backslashes slashes @ c # rest, k))"

definition cmd_arg :: "string \<Rightarrow> string" where
  "cmd_arg a =
     (let needquote = (CHR '' '' \<in> set a \<or> CHR 0x09 \<in> set a \<or> a = []); (body, pending) = quote_arg 0 a
      in if needquote then [CHR 0x22] @ body @ backslashes (2 * pending) @ [CHR 0x22] else body @ backslashes pending)"

definition display :: "string list \<Rightarrow> string" where "display argv = join '' '' (map cmd_arg argv)"

definition baseline_result :: "baseline_env \<Rightarrow> command \<Rightarrow> string \<Rightarrow> int option \<Rightarrow> string \<Rightarrow> string \<Rightarrow> baseline_check" where
  "baseline_result E c status code failure excerpt =
     \<lparr>bc_name = fst c, bc_command = display (snd c), bc_status = status, bc_argv = snd c, bc_exit_code = code,
      bc_duration = be_elapsed E (fst c), bc_failure_kind = failure, bc_excerpt = excerpt\<rparr>"

definition run_baseline_check :: "baseline_env \<Rightarrow> string \<Rightarrow> rat \<Rightarrow> int \<Rightarrow> command \<Rightarrow> baseline_check" where
  "run_baseline_check E cwd timeout max_chars c =
     (case ve_run (be_verify E) (snd c) cwd timeout of
        ExecutableNotFound m \<Rightarrow> baseline_result E c ''unavailable'' None ''environment_failure'' (py_take max_chars m)
      | TimedOut \<Rightarrow> baseline_result E c ''timeout'' None ''environment_failure'' (''timeout after '' @ be_show E timeout @ ''s'')
      | RunOsError m \<Rightarrow> baseline_result E c ''error'' None ''environment_failure'' (py_take max_chars m)
      | Exited code out err \<Rightarrow>
          (let output = strip (join [NEWLINE] (filter (\<lambda>s. s \<noteq> []) [out, err]));
               excerpt = (if max_chars > 0 then last_chars (nat max_chars) output else [])
           in if code = 0 then baseline_result E c ''passed'' (Some code) [] excerpt
              else baseline_result E c ''failed'' (Some code) ''preexisting_failure'' excerpt))"

definition health_of :: "baseline_check list \<Rightarrow> string" where
  "health_of checks =
     (if list_ex (\<lambda>c. bc_failure_kind c = ''environment_failure'') checks then ''environment_failure''
      else if list_ex (\<lambda>c. bc_failure_kind c = ''preexisting_failure'') checks then ''preexisting_failure''
      else if checks \<noteq> [] then ''healthy'' else ''metadata_only'')"

definition no_baseline :: "baseline_env \<Rightarrow> string \<Rightarrow> repository_baseline" where
  "no_baseline E message = \<lparr>rb_captured_at = be_now E, rb_health = ''environment_failure'', rb_stack = [], rb_test_frameworks = [],
     rb_package_managers = [], rb_checks = [], rb_notes = [message]\<rparr>"

definition selected_commands ::
  "baseline_env \<Rightarrow> string \<Rightarrow> project_profile \<Rightarrow> bool \<Rightarrow> (string \<times> string) list \<Rightarrow> py_exn + command list" where
  "selected_commands E cwd profile auto commands =
     (let configured = configured_commands commands
      in if \<not> auto then Inr configured
         else map_sum id (\<lambda>found. configured @ filter (\<lambda>c. fst c \<notin> set (map fst configured)) found) (auto_commands E cwd profile))"

definition capture_repository_baseline ::
  "baseline_env \<Rightarrow> string \<Rightarrow> bool \<Rightarrow> (string \<times> string) list \<Rightarrow> rat \<Rightarrow> int \<Rightarrow> py_exn + repository_baseline" where
  "capture_repository_baseline E cwd auto commands timeout_seconds max_chars =
     (let path = ve_resolve (be_verify E) cwd
      in if cwd = [] \<or> \<not> ve_is_dir (be_verify E) path then Inr (no_baseline E ''cwd is missing or is not a directory'')
         else case be_scan E path of
           Inl m \<Rightarrow> Inr (no_baseline E (''project scan failed: '' @ m))
         | Inr (profile, stack) \<Rightarrow> (case selected_commands E path profile auto commands of
             Inl e \<Rightarrow> Inl e
           | Inr selected \<Rightarrow>
               (let checks = map (run_baseline_check E path (max 1 timeout_seconds) (max 0 max_chars)) selected
                in Inr \<lparr>rb_captured_at = be_now E, rb_health = health_of checks, rb_stack = stack,
                     rb_test_frameworks = prof_test_frameworks profile, rb_package_managers = prof_package_managers profile,
                     rb_checks = checks,
                     rb_notes = (if checks \<noteq> [] then [] else [''no deterministic baseline commands discovered''])\<rparr>)))"

section \<open>Root causes and the record\<close>

record root_cause =
  rt_failure_class :: string
  rt_state :: string
  rt_penalize :: bool

definition root_cause_of :: "string \<Rightarrow> string \<Rightarrow> bool \<Rightarrow> root_cause" where
  "root_cause_of c s p = \<lparr>rt_failure_class = c, rt_state = s, rt_penalize = p\<rparr>"

definition classify_root_cause :: "bool \<Rightarrow> string \<Rightarrow> string \<Rightarrow> repository_baseline \<Rightarrow> root_cause" where
  "classify_root_cause success error_class err b =
     (let normalized = lower (strip error_class)
      in if success then root_cause_of [] ''execution_success'' False
         else if normalized = ''billing'' then root_cause_of ''provider_failure'' ''hard_failure'' False
         else if normalized = ''not_available'' then root_cause_of ''tool_failure'' ''hard_failure'' False
         else if normalized = ''timeout'' then root_cause_of ''tool_failure'' ''soft_failure'' False
         else if has_sub (lower err) ''safety:'' then root_cause_of ''policy_violation'' ''policy_violation'' False
         else if rb_health b = ''environment_failure'' then root_cause_of ''environment_failure'' ''environment_failure'' False
         else if rb_health b = ''preexisting_failure'' then root_cause_of ''repository_failure'' ''environment_failure'' False
         else root_cause_of ''agent_failure'' ''hard_failure'' True)"

record evidence_args =
  ea_task_id :: string
  ea_task :: string
  ea_task_type :: string
  ea_agent :: string
  ea_executor :: string
  ea_error_class :: string
  ea_retry_count :: int
  ea_cost :: rat
  ea_policy_id :: string
  ea_policy_version :: string
  ea_skills :: "json list"

definition changed_files :: "executor_result \<Rightarrow> string list" where
  "changed_files r = (case er_report r of None \<Rightarrow> [] | Some w \<Rightarrow> sorted_set (wr_files_changed w @ wr_files_created w))"

definition build_evidence_record ::
  "(string \<Rightarrow> string) \<Rightarrow> string \<Rightarrow> string \<Rightarrow> py_builtins \<Rightarrow> evidence_args \<Rightarrow> executor_result \<Rightarrow> repository_baseline \<Rightarrow>
     eval_report option \<Rightarrow> evidence_record" where
  "build_evidence_record H version now B A r b evaluation =
     (let text = (\<lambda>k. py_str B (jor (jget (er_metadata r) k) (JStr [])));
          root_cause = classify_root_cause (er_success r) (ea_error_class A) (er_error r) b
      in \<lparr>ed_task_id = ea_task_id A, ed_created_at = now, ed_task_type = str_or (ea_task_type A) ''unknown'',
          ed_fingerprint = H (ea_task A), ed_baseline = b,
          ed_execution = \<lparr>xb_agent = ea_agent A, xb_executor = ea_executor A, xb_model = text ''model'', xb_provider = text ''provider'',
            xb_runtime_version = version, xb_skills = ea_skills A, xb_policy_id = ea_policy_id A, xb_policy_version = ea_policy_version A\<rparr>,
          ed_outcome = \<lparr>oc_success = er_success r,
            oc_state = (case evaluation of Some v \<Rightarrow> (if er_success r then et_state v else rt_state root_cause) | None \<Rightarrow> rt_state root_cause),
            oc_failure_class = rt_failure_class root_cause, oc_error_class = ea_error_class A,
            oc_penalize_agent = rt_penalize root_cause, oc_cost_usd = ea_cost A, oc_duration_ms = er_duration_ms r,
            oc_retries = ea_retry_count A, oc_files_changed = int (length (changed_files r))\<rparr>,
          ed_evaluation = evaluation, ed_feedback = [], ed_action_report = None, ed_schema_version = EVIDENCE_SCHEMA_VERSION\<rparr>)"

section \<open>The store\<close>

definition VALID_HUMAN_FEEDBACK :: "string list" where
  "VALID_HUMAN_FEEDBACK = [''accepted'', ''edited'', ''major_rewrite'', ''reverted'', ''pr_rejected'', ''manual_fix'']"

datatype evidence_error =
    InvalidTaskId
  | InvalidFeedback string
  | InvalidSource
  | CommentTooLong
  | NoEvidence string
  | EvidenceWriteFailed

definition id_start :: "char \<Rightarrow> bool" where "id_start c \<longleftrightarrow> is_alpha c \<or> is_digit c"

definition id_char :: "char \<Rightarrow> bool" where "id_char c \<longleftrightarrow> id_start c \<or> c = CHR ''_'' \<or> c = CHR ''-''"

definition validate_task_id :: "string \<Rightarrow> evidence_error + string" where
  "validate_task_id tid =
     (let n = strip tid
      in if n \<noteq> [] \<and> id_start (hd n) \<and> list_all id_char (tl n) \<and> length n \<le> 128 then Inr n else Inl InvalidTaskId)"

text \<open>The directory: file names to what loading gives, \<open>None\<close> for a file that is not a record.\<close>

type_synonym evidence_dir = "string \<rightharpoonup> evidence_record option"

definition evidence_file :: "string \<Rightarrow> evidence_error + string" where
  "evidence_file tid = map_sum id (\<lambda>n. n @ ''.json'') (validate_task_id tid)"

definition save_evidence :: "bool \<Rightarrow> evidence_record \<Rightarrow> evidence_dir \<Rightarrow> (evidence_error + unit) \<times> evidence_dir" where
  "save_evidence disk_ok r D =
     (if \<not> disk_ok then (Inl EvidenceWriteFailed, D)
      else case evidence_file (ed_task_id r) of Inl e \<Rightarrow> (Inl e, D) | Inr f \<Rightarrow> (Inr (), D(f \<mapsto> Some r)))"

text \<open>An invalid id is a \<^verbatim>\<open>ValueError\<close>, which \<^verbatim>\<open>load\<close> reads as no record.\<close>

definition load_evidence :: "string \<Rightarrow> evidence_dir \<Rightarrow> evidence_record option" where
  "load_evidence tid D = (case evidence_file tid of Inl e \<Rightarrow> None | Inr f \<Rightarrow> (case D f of Some (Some r) \<Rightarrow> Some r | _ \<Rightarrow> None))"

definition with_feedback :: "string \<Rightarrow> human_feedback \<Rightarrow> evidence_record \<Rightarrow> evidence_record" where
  "with_feedback now f r =
     (let r1 = r\<lparr>ed_feedback := ed_feedback r @ [f]\<rparr>
      in case ed_evaluation r of
           None \<Rightarrow> r1
         | Some v \<Rightarrow> (case apply_human_feedback now (hf_kind f) v of
             (v', changed) \<Rightarrow> r1\<lparr>ed_evaluation := Some v', ed_outcome := (if changed then (ed_outcome r)\<lparr>oc_state := et_state v'\<rparr> else ed_outcome r)\<rparr>))"

definition add_human_feedback ::
  "bool \<Rightarrow> string \<Rightarrow> string \<Rightarrow> string \<Rightarrow> string \<Rightarrow> string \<Rightarrow> evidence_dir \<Rightarrow> (evidence_error + evidence_record) \<times> evidence_dir" where
  "add_human_feedback disk_ok now tid kind source comment D =
     (let normalized = lower (strip kind); src = strip source
      in if normalized \<notin> set VALID_HUMAN_FEEDBACK then (Inl (InvalidFeedback kind), D)
         else if src = [] \<or> length src > 64 then (Inl InvalidSource, D)
         else if length comment > 2000 then (Inl CommentTooLong, D)
         else case validate_task_id tid of
           Inl e \<Rightarrow> (Inl e, D)
         | Inr i \<Rightarrow> (case load_evidence i D of
             None \<Rightarrow> (Inl (NoEvidence i), D)
           | Some r \<Rightarrow>
               (let r' = with_feedback now \<lparr>hf_kind = normalized, hf_recorded_at = now, hf_source = src, hf_comment = comment\<rparr> r
                in case save_evidence disk_ok r' D of (Inl e, D') \<Rightarrow> (Inl e, D') | (Inr _, D') \<Rightarrow> (Inr r', D'))))"

section \<open>What may leave the machine\<close>

definition JNum :: "int option \<Rightarrow> json" where "JNum n = (case n of None \<Rightarrow> JNull | Some i \<Rightarrow> JInt i)"

definition cloud_check :: "baseline_check \<Rightarrow> json" where
  "cloud_check c = JObj [(''name'', JStr (bc_name c)), (''status'', JStr (bc_status c)), (''exit_code'', JNum (bc_exit_code c)),
     (''duration_ms'', JFloat (bc_duration c)), (''failure_kind'', JStr (bc_failure_kind c))]"

definition SKILL_KEYS :: "string list" where "SKILL_KEYS = [''id'', ''version'']"

definition cloud_skill :: "py_builtins \<Rightarrow> eval_detail \<Rightarrow> json" where
  "cloud_skill B d = JObj (List.map_filter (\<lambda>k. case map_of d k of
       None \<Rightarrow> None | Some v \<Rightarrow> if strip (py_str B v) \<noteq> [] then Some (k, JStr (py_str B v)) else None) SKILL_KEYS)"

definition cloud_eval_check :: "eval_check \<Rightarrow> json" where
  "cloud_eval_check c = JObj [(''id'', JStr (ec_id c)), (''evaluator'', JStr (ec_evaluator c)), (''status'', JStr (ec_status c)),
     (''required'', JBool (ec_required c)), (''duration_ms'', JFloat (ec_duration c))]"

definition cloud_evaluation :: "eval_report \<Rightarrow> json" where
  "cloud_evaluation v = JObj [(''schema_version'', JInt (et_schema_version v)), (''policy_id'', JStr (et_policy_id v)),
     (''policy_version'', JStr (et_policy_version v)), (''state'', JStr (et_state v)),
     (''deterministic_only'', JBool (et_deterministic_only v)), (''checks'', JList (map cloud_eval_check (et_checks v)))]"

definition evidence_to_cloud_record :: "(string \<Rightarrow> string) \<Rightarrow> py_builtins \<Rightarrow> evidence_record \<Rightarrow> json" where
  "evidence_to_cloud_record H B r =
     (let b = ed_baseline r; x = ed_execution r; out = ed_outcome r
      in JObj [(''schema_version'', JInt 2), (''source_schema_version'', JInt (ed_schema_version r)),
           (''evidence_id'', JStr (H (''voly-cloud-evidence:'' @ ed_task_id r))), (''created_at'', JStr (ed_created_at r)),
           (''task_type'', JStr (ed_task_type r)),
           (''baseline'', JObj [(''health'', JStr (rb_health b)), (''stack'', jstr_list (rb_stack b)),
              (''test_frameworks'', jstr_list (rb_test_frameworks b)), (''package_managers'', jstr_list (rb_package_managers b)),
              (''checks'', JList (map cloud_check (rb_checks b)))]),
           (''execution'', JObj [(''agent'', JStr (xb_agent x)), (''executor'', JStr (xb_executor x)), (''model'', JStr (xb_model x)),
              (''provider'', JStr (xb_provider x)), (''runtime_version'', JStr (xb_runtime_version x)),
              (''skills'', JList (List.map_filter (\<lambda>s. case s of JObj d \<Rightarrow> Some (cloud_skill B d) | _ \<Rightarrow> None) (xb_skills x))),
              (''eval_policy_id'', JStr (xb_policy_id x)), (''eval_policy_version'', JStr (xb_policy_version x))]),
           (''outcome'', JObj [(''success'', JBool (oc_success out)), (''state'', JStr (oc_state out)),
              (''failure_class'', JStr (oc_failure_class out)), (''error_class'', JStr (oc_error_class out)),
              (''penalize_agent'', JBool (oc_penalize_agent out)), (''cost_usd'', JFloat (oc_cost_usd out)),
              (''duration_ms'', JFloat (oc_duration_ms out)), (''retries'', JInt (oc_retries out)),
              (''files_changed'', JInt (oc_files_changed out))]),
           (''evaluation'', (case ed_evaluation r of None \<Rightarrow> JNull | Some v \<Rightarrow> cloud_evaluation v)),
           (''human_feedback'', JList (map (\<lambda>f. JObj [(''kind'', JStr (hf_kind f)), (''source'', JStr (hf_source f))]) (ed_feedback r)))])"

section \<open>A healthy baseline\<close>

lemma configured_nonempty: "c \<in> set (configured_commands raw) \<Longrightarrow> snd c \<noteq> []"
  by (auto simp: configured_commands_def)

lemma auto_nonempty: "auto_commands E cwd profile = Inr cs \<Longrightarrow> c \<in> set cs \<Longrightarrow> snd c \<noteq> []"
  by (cases "build_command E cwd profile") (auto simp: auto_commands_def Let_def)

lemma selected_nonempty: "selected_commands E cwd profile auto raw = Inr cs \<Longrightarrow> c \<in> set cs \<Longrightarrow> snd c \<noteq> []"
  by (cases "auto_commands E cwd profile")
    (auto simp: selected_commands_def Let_def dest: configured_nonempty auto_nonempty split: if_splits)

lemma run_baseline_check_simps [simp]:
  "bc_argv (run_baseline_check E cwd t m c) = snd c" "bc_name (run_baseline_check E cwd t m c) = fst c"
  by (simp_all add: run_baseline_check_def baseline_result_def Let_def split: run_outcome.split)

lemma run_baseline_passed:
  "bc_failure_kind (run_baseline_check E cwd t m c) = [] \<longleftrightarrow> bc_status (run_baseline_check E cwd t m c) = ''passed''"
  "bc_failure_kind (run_baseline_check E cwd t m c) \<in> set [[], ''environment_failure'', ''preexisting_failure'']"
  by (simp_all add: run_baseline_check_def baseline_result_def Let_def split: run_outcome.split)

text \<open>Healthy means that there is a command and that every command exits with 0; then only whether they
  still do decides the replay of the baseline.\<close>

lemma healthy_baseline:
  assumes "capture_repository_baseline E cwd auto raw t m = Inr b" "rb_health b = ''healthy''"
  shows "rb_checks b \<noteq> []" "\<forall>c \<in> set (rb_checks b). bc_status c = ''passed'' \<and> bc_argv c \<noteq> []"
proof -
  obtain profile stack selected where sel: "selected_commands E (ve_resolve (be_verify E) cwd) profile auto raw = Inr selected"
    and b: "rb_checks b = map (run_baseline_check E (ve_resolve (be_verify E) cwd) (max 1 t) (max 0 m)) selected"
      "rb_health b = health_of (rb_checks b)"
    using assms by (auto simp: capture_repository_baseline_def no_baseline_def Let_def split: if_splits sum.splits)
  have h: "rb_checks b \<noteq> []" "\<forall>c \<in> set (rb_checks b). bc_failure_kind c \<notin> {''environment_failure'', ''preexisting_failure''}"
    using assms(2) b(2) by (auto simp: health_of_def list_ex_iff split: if_splits)
  then show "rb_checks b \<noteq> []" by simp
  show "\<forall>c \<in> set (rb_checks b). bc_status c = ''passed'' \<and> bc_argv c \<noteq> []"
  proof
    fix c assume c: "c \<in> set (rb_checks b)"
    then obtain x where x: "x \<in> set selected" "c = run_baseline_check E (ve_resolve (be_verify E) cwd) (max 1 t) (max 0 m) x"
      using b(1) by auto
    have "bc_failure_kind c = []" using run_baseline_passed(2) h(2) c unfolding x(2) by fastforce
    then show "bc_status c = ''passed'' \<and> bc_argv c \<noteq> []"
      using run_baseline_passed(1) selected_nonempty [OF sel x(1)] x(2) by auto
  qed
qed

lemma healthy_baseline_replay:
  assumes "capture_repository_baseline E cwd auto raw t m = Inr b" "rb_health b = ''healthy''"
    and "ev_evaluator r = ''baseline_replay''" "ei_baseline I = rb_checks b"
  shows "requirement_met N I r \<longleftrightarrow> (\<forall>c \<in> set (rb_checks b). \<exists>out err.
    ve_run (sv_verify (ee_scan N)) (bc_argv c) (ei_cwd I) (max 1 (ei_timeout I)) = Exited 0 out err)"
  using healthy_baseline [OF assms(1,2)] assms(3,4) by (auto simp: requirement_met_def)

section \<open>Blame\<close>

text \<open>The agent is blamed only for a failure in a repository that was not failing before.\<close>

lemma blame_only_agent:
  "rt_penalize (classify_root_cause success error_class err b) \<Longrightarrow> \<not> success \<and> \<not> has_preexisting_failures b"
  by (auto simp: classify_root_cause_def root_cause_of_def has_preexisting_failures_def Let_def split: if_splits)

text \<open>A verified outcome comes from the evaluation of a successful run.\<close>

lemma record_verified:
  assumes "oc_state (ed_outcome (build_evidence_record H version now B A r b evaluation)) = ''verified_success''"
  shows "er_success r \<and> (\<exists>v. evaluation = Some v \<and> et_state v = ''verified_success'')"
proof -
  have "rt_state (classify_root_cause s c e b) \<noteq> ''verified_success''" for s c e
    by (simp add: classify_root_cause_def root_cause_of_def Let_def)
  then show ?thesis using assms by (auto simp: build_evidence_record_def Let_def split: option.splits if_splits)
qed

section \<open>Feedback\<close>

text \<open>An accepted id is a plain file name: no slash, no leading dot.\<close>

lemma validate_task_id_safe:
  assumes "validate_task_id t = Inr n"
  shows "n \<noteq> []" "list_all id_char n" "length n \<le> 128"
  using assms by (auto simp: validate_task_id_def Let_def id_char_def split: if_splits) (cases "strip t"; auto simp: id_char_def)

lemma id_char_plain: "id_char c \<Longrightarrow> c \<noteq> CHR ''/'' \<and> c \<noteq> CHR ''.'' \<and> \<not> is_space c"
  by (auto simp: id_char_def id_start_def is_alpha_def is_digit_def is_space_def Let_def)

lemma evidence_file_safe:
  assumes "evidence_file t = Inr f"
  shows "CHR ''/'' \<notin> set f" "hd f \<noteq> CHR ''.''" "\<exists>n. f = n @ ''.json''"
proof -
  obtain n where n: "validate_task_id t = Inr n" "f = n @ ''.json''"
    using assms by (cases "validate_task_id t") (auto simp: evidence_file_def)
  note v = validate_task_id_safe [OF n(1)]
  show "CHR ''/'' \<notin> set f" using v(2) n(2) id_char_plain by (auto simp: list_all_iff)
  show "hd f \<noteq> CHR ''.''" using v(1,2) n(2) id_char_plain by (cases n) auto
  show "\<exists>n. f = n @ ''.json''" using n(2) by blast
qed

definition evidence_dir_ok :: "evidence_dir \<Rightarrow> bool" where
  "evidence_dir_ok D \<longleftrightarrow> (\<forall>f r. D f = Some (Some r) \<longrightarrow> evidence_file (ed_task_id r) = Inr f)"

lemma save_evidence_ok: "evidence_dir_ok D \<Longrightarrow> evidence_dir_ok (snd (save_evidence disk r D))"
  by (auto simp: save_evidence_def evidence_dir_ok_def split: sum.split)

lemma with_feedback_simps [simp]:
  "ed_task_id (with_feedback now f r) = ed_task_id r" "ed_feedback (with_feedback now f r) = ed_feedback r @ [f]"
  "ed_baseline (with_feedback now f r) = ed_baseline r" "ed_execution (with_feedback now f r) = ed_execution r"
  by (simp_all add: with_feedback_def Let_def split: option.split prod.split)

lemma with_feedback_state:
  "ed_evaluation r = Some v \<Longrightarrow> snd (apply_human_feedback now (hf_kind f) v) \<Longrightarrow>
     oc_state (ed_outcome (with_feedback now f r)) = et_state (fst (apply_human_feedback now (hf_kind f) v))"
  by (auto simp: with_feedback_def Let_def split: prod.split)

lemma feedback_ok: "evidence_dir_ok D \<Longrightarrow> evidence_dir_ok (snd (add_human_feedback disk now t k s c D))"
  using save_evidence_ok
  by (auto simp: add_human_feedback_def Let_def split: sum.split option.split prod.splits) (metis snd_conv)+

lemma strip_id: "list_all id_char n \<Longrightarrow> strip n = n"
proof -
  assume "list_all id_char n"
  then have "\<forall>c \<in> set n. \<not> is_space c" using id_char_plain by (auto simp: list_all_iff)
  then have "dropWhile is_space n = n" "dropWhile is_space (rev n) = rev n"
    by (metis dropWhile_eq_self_iff hd_in_set, metis dropWhile_eq_self_iff hd_in_set set_rev)
  then show "strip n = n" by (simp add: strip_def)
qed

lemma validate_twice: "validate_task_id t = Inr n \<Longrightarrow> validate_task_id n = Inr n"
proof -
  assume v: "validate_task_id t = Inr n"
  then have "strip n = n" using validate_task_id_safe(2) strip_id by blast
  then show ?thesis using v by (auto simp: validate_task_id_def Let_def split: if_splits)
qed

text \<open>Feedback that is accepted is in the record that is loaded afterwards, appended to what was there; every
  other record is untouched, and an error changes nothing.\<close>

lemma feedback_stored:
  assumes "add_human_feedback disk now t kind source comment D = (Inr r', D')" "evidence_dir_ok D"
  shows "\<exists>r f. load_evidence t D = Some r \<and> r' = with_feedback now f r \<and> hf_kind f \<in> set VALID_HUMAN_FEEDBACK \<and>
    hf_kind f = lower (strip kind) \<and> load_evidence t D' = Some r' \<and>
    (\<forall>u. validate_task_id u \<noteq> validate_task_id t \<longrightarrow> load_evidence u D' = load_evidence u D)"
proof -
  let ?f = "\<lparr>hf_kind = lower (strip kind), hf_recorded_at = now, hf_source = strip source, hf_comment = comment\<rparr>"
  obtain i r where v: "lower (strip kind) \<in> set VALID_HUMAN_FEEDBACK" and i: "validate_task_id t = Inr i"
    and l: "load_evidence i D = Some r" and r': "r' = with_feedback now ?f r"
    and s: "save_evidence disk r' D = (Inr (), D')"
    using assms(1) unfolding add_human_feedback_def Let_def
    by (auto split: if_splits sum.splits option.splits prod.splits)
  have same: "evidence_file t = Inr (i @ ''.json'')" "evidence_file i = Inr (i @ ''.json'')"
    using i validate_twice [OF i] by (simp_all add: evidence_file_def)
  then have lt: "load_evidence t D = Some r" using l by (simp add: load_evidence_def)
  then have "D (i @ ''.json'') = Some (Some r)" using same(1) by (auto simp: load_evidence_def split: option.splits)
  then have saved_as: "evidence_file (ed_task_id r') = Inr (i @ ''.json'')" using assms(2) r' by (simp add: evidence_dir_ok_def)
  then have D': "D' = D(i @ ''.json'' \<mapsto> Some r')" using s saved_as by (auto simp: save_evidence_def split: if_splits)
  have "load_evidence t D' = Some r'" using D' same(1) by (simp add: load_evidence_def)
  moreover have "load_evidence u D' = load_evidence u D" if "validate_task_id u \<noteq> validate_task_id t" for u
    using that i D' by (cases "validate_task_id u") (auto simp: load_evidence_def evidence_file_def)
  ultimately show ?thesis using lt v r' by (intro exI [of _ r] exI [of _ ?f]) simp
qed

lemma feedback_error_keeps:
  "add_human_feedback disk now t kind source comment D = (Inl e, D') \<Longrightarrow> D' = D"
  by (auto simp: add_human_feedback_def save_evidence_def Let_def split: if_splits sum.splits option.splits prod.splits)

section \<open>Privacy\<close>

text \<open>What a record holds beyond the allow-list: commands and their output, notes, the fingerprint of the task,
  messages and details of the evaluation, comments, the action report, other fields of a skill.\<close>

definition redact_check :: "baseline_check \<Rightarrow> baseline_check" where
  "redact_check c = c\<lparr>bc_command := [], bc_argv := [], bc_excerpt := []\<rparr>"

definition redact_skill :: "json \<Rightarrow> json" where
  "redact_skill s = (case s of JObj d \<Rightarrow> JObj (filter (\<lambda>(k, v). k \<in> set SKILL_KEYS) d) | v \<Rightarrow> JNull)"

definition redact_report :: "eval_report \<Rightarrow> eval_report" where
  "redact_report v = v\<lparr>et_started := [], et_completed := [],
     et_checks := map (\<lambda>c. c\<lparr>ec_message := [], ec_detail := []\<rparr>) (et_checks v)\<rparr>"

definition redact :: "evidence_record \<Rightarrow> evidence_record" where
  "redact r = r\<lparr>ed_fingerprint := [],
     ed_baseline := (ed_baseline r)\<lparr>rb_captured_at := [], rb_notes := [], rb_checks := map redact_check (rb_checks (ed_baseline r))\<rparr>,
     ed_execution := (ed_execution r)\<lparr>xb_skills := map redact_skill (xb_skills (ed_execution r))\<rparr>,
     ed_evaluation := map_option redact_report (ed_evaluation r),
     ed_feedback := map (\<lambda>f. f\<lparr>hf_recorded_at := [], hf_comment := []\<rparr>) (ed_feedback r),
     ed_action_report := None\<rparr>"

lemma map_of_filter_keys: "map_of (filter (\<lambda>(k, v). k \<in> K) d) k = (if k \<in> K then map_of d k else None)"
  by (induction d) auto

lemma map_filter_cong:
  "xs = ys \<Longrightarrow> (\<And>x. x \<in> set ys \<Longrightarrow> f x = g x) \<Longrightarrow> List.map_filter f xs = List.map_filter g ys"
  by (induction ys arbitrary: xs) (auto simp: List.map_filter_simps split: option.split)

lemma redact_skill_cloud:
  "List.map_filter (\<lambda>s. case s of JObj d \<Rightarrow> Some (cloud_skill B d) | _ \<Rightarrow> None) (map redact_skill xs) =
   List.map_filter (\<lambda>s. case s of JObj d \<Rightarrow> Some (cloud_skill B d) | _ \<Rightarrow> None) xs"
proof (induction xs)
  case (Cons x xs)
  have "cloud_skill B (filter (\<lambda>(k, v). k \<in> set SKILL_KEYS) d) = cloud_skill B d" for d
    unfolding cloud_skill_def by (simp add: map_of_filter_keys cong: map_filter_cong)
  then show ?case using Cons by (cases x) (simp_all add: List.map_filter_simps redact_skill_def)
qed simp

lemma cloud_record_redacted: "evidence_to_cloud_record H B (redact r) = evidence_to_cloud_record H B r"
  using redact_skill_cloud [of B "xb_skills (ed_execution r)"]
  by (cases "ed_evaluation r")
    (simp_all add: evidence_to_cloud_record_def redact_def Let_def cloud_check_def redact_check_def comp_def
      cloud_evaluation_def redact_report_def cloud_eval_check_def)


end
