(* ===== verification/Hooks.thy ===== *)
theory Hooks
  imports Eval_Checks Llm_Judge
begin

text \<open>
  The hooks of a run: \<^verbatim>\<open>src/voly/hooks/schema.py\<close> and \<^verbatim>\<open>runtime.py\<close>.  The registry file is the list of its
  manifests, the state file the list of used keys, both logs one list of results.  Child processes, files,
  the clock, the hash of a key and whether a handler exceeds its time are the environment's; a write of the
  state file may fail.  \<open>hk_runs\<close> records which handler ran for which key; no decision reads it.
\<close>

section \<open>Manifests\<close>

datatype hook_event_type =
    RunStarted | TaskObserved | FilesChanged | BeforeVerify | AfterVerify | BudgetThreshold | RunFinished

definition HOOK_EVENTS :: "(string \<times> hook_event_type) list" where
  "HOOK_EVENTS = [(''run_started'', RunStarted), (''task_observed'', TaskObserved), (''files_changed'', FilesChanged),
     (''before_verify'', BeforeVerify), (''after_verify'', AfterVerify), (''budget_threshold'', BudgetThreshold),
     (''run_finished'', RunFinished)]"

definition event_value :: "hook_event_type \<Rightarrow> string" where
  "event_value t = (case find (\<lambda>(v, u). u = t) HOOK_EVENTS of Some (v, _) \<Rightarrow> v | None \<Rightarrow> [])"

datatype fail_policy = FailOpen | FailClosed

definition policy_value :: "fail_policy \<Rightarrow> string" where
  "policy_value p = (case p of FailOpen \<Rightarrow> ''fail_open'' | FailClosed \<Rightarrow> ''fail_closed'')"

record hook_event =
  hv_type :: hook_event_type
  hv_run :: string
  hv_project :: string
  hv_cwd :: string
  hv_payload :: "(string \<times> json) list"
  hv_id :: string

record hook_manifest =
  hm_id :: string
  hm_handler :: string
  hm_events :: "hook_event_type list"
  hm_permissions :: "json list"
  hm_timeout :: rat
  hm_idempotency :: string
  hm_fail_policy :: fail_policy
  hm_enabled :: bool
  hm_imported :: bool
  hm_approved_at :: json
  hm_schema :: int

record hook_result =
  hr_hook :: string
  hr_event :: string
  hr_status :: string
  hr_proceed :: bool
  hr_output :: "(string \<times> json) list"
  hr_error :: string
  hr_key :: string

datatype hook_error =
    MissingFields "string list"
  | BadTimeout
  | NoIdempotency
  | HookRaised py_exn
  | NoHook string

text \<open>\<^verbatim>\<open>list(v)\<close> and the iteration over a loaded value.\<close>

definition py_iter :: "json \<Rightarrow> py_exn + json list" where
  "py_iter v = (case v of
     JList xs \<Rightarrow> Inr xs | JStr s \<Rightarrow> Inr (map (\<lambda>c. JStr [c]) s) | JObj d \<Rightarrow> Inr (map (\<lambda>kv. JStr (fst kv)) d) | _ \<Rightarrow> Inl PyTypeError)"

definition REQUIRED_FIELDS :: "string list" where
  "REQUIRED_FIELDS = [''events'', ''fail_policy'', ''handler'', ''hook_id'', ''idempotency'', ''permissions'', ''timeout_seconds'']"

text \<open>An enumeration's constructor: the member with that value, or \<^verbatim>\<open>ValueError\<close>.\<close>

definition read_event :: "json \<Rightarrow> py_exn + hook_event_type" where
  "read_event v = (case v of JStr s \<Rightarrow> (case map_of HOOK_EVENTS s of Some t \<Rightarrow> Inr t | None \<Rightarrow> Inl PyValueError) | _ \<Rightarrow> Inl PyValueError)"

definition read_policy :: "json \<Rightarrow> py_exn + fail_policy" where
  "read_policy v = (if v = JStr ''fail_open'' then Inr FailOpen else if v = JStr ''fail_closed'' then Inr FailClosed else Inl PyValueError)"

definition try_then :: "py_exn + 'a \<Rightarrow> ('a \<Rightarrow> hook_error + 'b) \<Rightarrow> hook_error + 'b" where
  "try_then r k = (case r of Inl e \<Rightarrow> Inl (HookRaised e) | Inr x \<Rightarrow> k x)"

definition manifest_from_dict :: "py_builtins \<Rightarrow> bool \<Rightarrow> (string \<times> json) list \<Rightarrow> hook_error + hook_manifest" where
  "manifest_from_dict B imported d =
     (let missing = filter (\<lambda>k. map_of d k = None) REQUIRED_FIELDS
      in if missing \<noteq> [] then Inl (MissingFields missing)
         else try_then (py_float B (jget d ''timeout_seconds'')) (\<lambda>timeout.
           if timeout \<le> 0 \<or> timeout > 300 then Inl BadTimeout
           else let idem = strip (py_str B (jget d ''idempotency''))
                in if idem = [] then Inl NoIdempotency
                   else try_then (py_iter (jget d ''events'')) (\<lambda>evs.
                     try_then (try_map read_event evs) (\<lambda>types.
                       try_then (py_iter (jget d ''permissions'')) (\<lambda>perms.
                         try_then (read_policy (jget d ''fail_policy'')) (\<lambda>policy.
                           try_then (py_int B (jget_default d ''schema_version'' (JInt 1))) (\<lambda>version.
                             Inr \<lparr>hm_id = py_str B (jget d ''hook_id''), hm_handler = py_str B (jget d ''handler''),
                                  hm_events = types, hm_permissions = perms, hm_timeout = timeout, hm_idempotency = idem,
                                  hm_fail_policy = policy,
                                  hm_enabled = (if imported then False else truthy (jget_default d ''enabled'' (JBool False))),
                                  hm_imported = (imported \<or> truthy (jget_default d ''imported'' (JBool False))),
                                  hm_approved_at = jget d ''approved_at'', hm_schema = version\<rparr>)))))))"

definition manifest_to_dict :: "hook_manifest \<Rightarrow> (string \<times> json) list" where
  "manifest_to_dict m = [(''hook_id'', JStr (hm_id m)), (''handler'', JStr (hm_handler m)),
     (''events'', JList (map (\<lambda>t. JStr (event_value t)) (hm_events m))), (''permissions'', JList (hm_permissions m)),
     (''timeout_seconds'', JFloat (hm_timeout m)), (''idempotency'', JStr (hm_idempotency m)),
     (''fail_policy'', JStr (policy_value (hm_fail_policy m))), (''enabled'', JBool (hm_enabled m)),
     (''imported'', JBool (hm_imported m)), (''approved_at'', hm_approved_at m), (''schema_version'', JInt (hm_schema m))]"

section \<open>Handlers\<close>

record hook_env =
  hn_builtins :: py_builtins
  hn_scan :: scan_env
  hn_hash :: "string \<Rightarrow> string"
  hn_show :: "string list \<Rightarrow> string"
  hn_slow :: "nat \<Rightarrow> bool"
  hn_saves :: "nat \<Rightarrow> bool"

type_synonym hook_output = "(string \<times> json) list"

definition observe :: "hook_event \<Rightarrow> string + hook_output" where
  "observe e = Inr [(''event_type'', JStr (event_value (hv_type e))), (''payload_keys'', jstr_list (sorted_set (map fst (hv_payload e))))]"

definition TEST_EXECUTABLES :: "string list" where
  "TEST_EXECUTABLES = [''python'', ''python.exe'', ''python3'', ''python3.exe'', ''pytest'', ''pytest.exe'', ''npm'', ''npm.cmd'',
     ''pnpm'', ''pnpm.cmd'', ''yarn'', ''yarn.cmd'', ''bun'', ''bun.exe'', ''go'', ''go.exe'', ''cargo'', ''cargo.exe'']"

definition string_items :: "json \<Rightarrow> string list option" where
  "string_items v = (case v of
     JList xs \<Rightarrow> (if xs \<noteq> [] \<and> list_all (\<lambda>x. case x of JStr _ \<Rightarrow> True | _ \<Rightarrow> False) xs
                  then Some (map (\<lambda>x. case x of JStr s \<Rightarrow> s | _ \<Rightarrow> []) xs) else None)
   | _ \<Rightarrow> None)"

definition scoped_tests :: "hook_env \<Rightarrow> hook_event \<Rightarrow> string + hook_output" where
  "scoped_tests N e = (case string_items (jget (hv_payload e) ''test_argv'') of
     None \<Rightarrow> Inr [(''skipped'', JStr ''test_argv not provided'')]
   | Some argv \<Rightarrow>
       (let executable = lower (posix_name (hd argv))
        in if executable \<notin> set TEST_EXECUTABLES then Inl (''test executable is not allowlisted: '' @ executable)
           else case py_float (hn_builtins N) (jget_default (hv_payload e) ''test_timeout_seconds'' (JInt 60)) of
             Inl x \<Rightarrow> Inl ''could not convert''
           | Inr timeout \<Rightarrow> (case ve_run (sv_verify (hn_scan N)) argv (hv_cwd e) timeout of
               ExecutableNotFound m \<Rightarrow> Inl m
             | TimedOut \<Rightarrow> Inl ''timed out''
             | RunOsError m \<Rightarrow> Inl m
             | Exited code out err \<Rightarrow>
                 if code \<noteq> 0 then Inl (''scoped tests failed with exit code '' @ str_int code)
                 else Inr [(''exit_code'', JInt 0), (''output'', JStr (last_chars 1000 out))])))"

definition secret_value_char :: "char \<Rightarrow> bool" where
  "secret_value_char c \<longleftrightarrow> is_alpha c \<or> is_digit c \<or> c \<in> set ''_./+-''"

definition SECRET_RE :: regex where
  "SECRET_RE = cats [alts [cats [liti ''api'', opt (Chr (\<lambda>c. c \<in> set ''_-'')), liti ''key''], liti ''secret'', liti ''token'', liti ''password''],
     spaces, Chr (\<lambda>c. c \<in> set '':=''), spaces, opt quote_char, cats (replicate 12 (Chr secret_value_char)), Star True (Chr secret_value_char)]"

text \<open>One changed file: skipped, an error, or whether it shows a secret.  \<^verbatim>\<open>errors="ignore"\<close> only drops bytes
  that are not UTF-8.\<close>

definition secret_in :: "hook_env \<Rightarrow> string \<Rightarrow> string \<Rightarrow> string + string list" where
  "secret_in N home relative =
     (let V = sv_verify (hn_scan N); path = resolve_in V home relative
      in if \<not> (path_under home path \<and> path \<noteq> home) \<or> \<not> ve_is_file V path then Inr []
         else case sv_size (hn_scan N) path of
           None \<Rightarrow> Inl ''stat failed''
         | Some n \<Rightarrow>
             if n > 512000 then Inr []
             else (case ve_read V path of Inl m \<Rightarrow> Inl m
                   | Inr body \<Rightarrow> Inr (if re_test SECRET_RE body then [posix_slashes (path_below home path)] else [])))"

fun secrets_in :: "hook_env \<Rightarrow> string \<Rightarrow> string list \<Rightarrow> string + string list" where
  "secrets_in N home [] = Inr []"
| "secrets_in N home (f # fs) = (case secret_in N home f of
     Inl m \<Rightarrow> Inl m | Inr xs \<Rightarrow> map_sum id (\<lambda>ys. xs @ ys) (secrets_in N home fs))"

definition payload_files :: "hook_env \<Rightarrow> hook_event \<Rightarrow> string + string list" where
  "payload_files N e = (let v = jget (hv_payload e) ''changed_files'' in
     if \<not> truthy v then Inr []
     else case py_iter v of Inl x \<Rightarrow> Inl ''not iterable'' | Inr xs \<Rightarrow> Inr (map (py_str (hn_builtins N)) xs))"

definition secret_scan :: "hook_env \<Rightarrow> hook_event \<Rightarrow> string + hook_output" where
  "secret_scan N e = (case payload_files N e of
     Inl m \<Rightarrow> Inl m
   | Inr files \<Rightarrow> (case secrets_in N (ve_resolve (sv_verify (hn_scan N)) (hv_cwd e)) files of
       Inl m \<Rightarrow> Inl m
     | Inr found \<Rightarrow>
         if found \<noteq> [] then Inl (''potential secrets in: '' @ join '', '' found)
         else Inr [(''scanned'', JInt (int (length files))), (''findings'', JInt 0)]))"

definition docs_check :: "hook_env \<Rightarrow> hook_event \<Rightarrow> string + hook_output" where
  "docs_check N e = (case payload_files N e of
     Inl m \<Rightarrow> Inl m
   | Inr files \<Rightarrow>
       (let changed = map posix_slashes files;
            code_changed = list_ex (\<lambda>f. starts_with f ''voly/'' \<and> ends_with f ''.py'') changed;
            docs_changed = list_ex (\<lambda>f. starts_with f ''docs/'' \<or> starts_with f ''openwiki/'') changed
        in if code_changed \<and> \<not> docs_changed then Inl ''backend code changed without docs/OpenWiki update''
           else Inr [(''code_changed'', JBool code_changed), (''docs_changed'', JBool docs_changed)]))"

definition budget_notify :: "hook_event \<Rightarrow> string + hook_output" where
  "budget_notify e = Inr [(''threshold'', jget (hv_payload e) ''threshold''), (''spent'', jget (hv_payload e) ''spent''),
     (''notification'', JStr ''recorded'')]"

definition HANDLER_PERMISSIONS :: "(string \<times> string list) list" where
  "HANDLER_PERMISSIONS = [(''observe'', [''observe'']), (''scoped_tests'', [''execute_tests'']),
     (''secret_scan'', [''read_project'', ''scan_secrets'']), (''docs_check'', [''read_project'', ''read_docs'']),
     (''budget_notify'', [''notify_budget''])]"

text \<open>\<^verbatim>\<open>_HANDLERS\<close> has the same keys.\<close>

definition run_handler :: "hook_env \<Rightarrow> string \<Rightarrow> hook_event \<Rightarrow> string + hook_output" where
  "run_handler N h e =
     (if h = ''observe'' then observe e else if h = ''scoped_tests'' then scoped_tests N e
      else if h = ''secret_scan'' then secret_scan N e else if h = ''docs_check'' then docs_check N e else budget_notify e)"

section \<open>Registry and dispatch\<close>

record hook_state =
  hk_manifests :: "hook_manifest list"
  hk_keys :: "string list"
  hk_log :: "hook_result list"
  hk_tick :: nat
  hk_runs :: "(string \<times> hook_manifest) list"

definition no_hooks :: hook_state where
  "no_hooks = \<lparr>hk_manifests = [], hk_keys = [], hk_log = [], hk_tick = 0, hk_runs = []\<rparr>"

definition import_manifest :: "py_builtins \<Rightarrow> (string \<times> json) list \<Rightarrow> hook_state \<Rightarrow> (hook_error + hook_manifest) \<times> hook_state" where
  "import_manifest B d s = (case manifest_from_dict B True d of
     Inl e \<Rightarrow> (Inl e, s)
   | Inr m \<Rightarrow> (Inr m, s\<lparr>hk_manifests := filter (\<lambda>x. hm_id x \<noteq> hm_id m) (hk_manifests s) @ [m]\<rparr>))"

definition approve_hook :: "rat \<Rightarrow> string \<Rightarrow> hook_state \<Rightarrow> (hook_error + hook_manifest) \<times> hook_state" where
  "approve_hook now i s = (case find (\<lambda>m. hm_id m = i) (hk_manifests s) of
     None \<Rightarrow> (Inl (NoHook i), s)
   | Some m \<Rightarrow>
       (let m' = m\<lparr>hm_enabled := True, hm_approved_at := JFloat now\<rparr>
        in (Inr m', s\<lparr>hk_manifests := upd_first (\<lambda>x. hm_id x = i) (\<lambda>_. m') (hk_manifests s)\<rparr>)))"

definition hook_key :: "hook_env \<Rightarrow> hook_manifest \<Rightarrow> hook_event \<Rightarrow> string" where
  "hook_key N m e = hn_hash N (hm_id m @ ''|'' @ hm_idempotency m @ ''|'' @ hv_run e @ ''|'' @ event_value (hv_type e))"

datatype admission_verdict = NotAllowlisted | NotPermitted | Admitted

definition admit_hook :: "hook_manifest \<Rightarrow> py_exn + admission_verdict" where
  "admit_hook m = (case map_of HANDLER_PERMISSIONS (hm_handler m) of
     None \<Rightarrow> Inr NotAllowlisted
   | Some expected \<Rightarrow>
       if \<not> list_all hashable (hm_permissions m) then Inl PyTypeError
       else if list_all (\<lambda>p. JStr p \<in> set (hm_permissions m)) expected then Inr Admitted else Inr NotPermitted)"

text \<open>The event a handler gets: the test timeout is cut to the hook's.\<close>

definition handler_event :: "hook_env \<Rightarrow> hook_manifest \<Rightarrow> hook_event \<Rightarrow> py_exn + hook_event" where
  "handler_event N m e =
     (if hm_handler m \<noteq> ''scoped_tests'' then Inr e
      else map_sum id (\<lambda>t. e\<lparr>hv_payload := dict_set ''test_timeout_seconds'' (JFloat (min t (hm_timeout m))) (hv_payload e)\<rparr>)
             (py_float (hn_builtins N) (jget_default (hv_payload e) ''test_timeout_seconds'' (JFloat (hm_timeout m)))))"

definition hook_outcome :: "hook_manifest \<Rightarrow> hook_event \<Rightarrow> string \<Rightarrow> string \<Rightarrow> string \<Rightarrow> hook_output \<Rightarrow> hook_result" where
  "hook_outcome m e key status err output = \<lparr>hr_hook = hm_id m, hr_event = hv_id e, hr_status = status,
     hr_proceed = (status = ''completed'' \<or> hm_fail_policy m = FailOpen), hr_output = output, hr_error = err, hr_key = key\<rparr>"

text \<open>The key is written before the logs; a write that fails leaves them out and raises.\<close>

definition finish_hook :: "hook_env \<Rightarrow> hook_result \<Rightarrow> hook_state \<Rightarrow> (py_exn + hook_result) \<times> hook_state" where
  "finish_hook N r s =
     (if \<not> hn_saves N (hk_tick s) then (Inl PyOSError, s\<lparr>hk_tick := hk_tick s + 1\<rparr>)
      else (Inr r, s\<lparr>hk_keys := dict_fromkeys (hk_keys s @ [hr_key r]), hk_log := hk_log s @ [r], hk_tick := hk_tick s + 1\<rparr>))"

definition execute_hook :: "hook_env \<Rightarrow> hook_manifest \<Rightarrow> hook_event \<Rightarrow> string \<Rightarrow> hook_state \<Rightarrow> (py_exn + hook_result) \<times> hook_state" where
  "execute_hook N m e key s =
     (case handler_event N m e of
        Inl x \<Rightarrow> (Inl x, s)
      | Inr e' \<Rightarrow>
          (let s1 = s\<lparr>hk_runs := hk_runs s @ [(key, m)], hk_tick := hk_tick s + 1\<rparr>
           in if hn_slow N (hk_tick s) then finish_hook N (hook_outcome m e key ''timeout'' ''hook timeout'' []) s1
              else case run_handler N (hm_handler m) e' of
                Inl err \<Rightarrow> finish_hook N (hook_outcome m e key ''failed'' err []) s1
              | Inr output \<Rightarrow> finish_hook N (hook_outcome m e key ''completed'' [] output) s1))"

definition dispatch_one :: "hook_env \<Rightarrow> hook_event \<Rightarrow> hook_manifest \<Rightarrow> hook_state \<Rightarrow> (py_exn + hook_result) \<times> hook_state" where
  "dispatch_one N e m s =
     (let key = hook_key N m e
      in if key \<in> set (hk_keys s)
         then (let r = \<lparr>hr_hook = hm_id m, hr_event = hv_id e, hr_status = ''duplicate'', hr_proceed = True, hr_output = [],
                        hr_error = [], hr_key = key\<rparr>
               in (Inr r, s\<lparr>hk_log := hk_log s @ [r]\<rparr>))
         else case admit_hook m of
           Inl x \<Rightarrow> (Inl x, s)
         | Inr NotAllowlisted \<Rightarrow> finish_hook N (hook_outcome m e key ''blocked'' ''handler is not allowlisted'' []) s
         | Inr NotPermitted \<Rightarrow> finish_hook N (hook_outcome m e key ''blocked'' ''required permissions were not granted'' []) s
         | Inr Admitted \<Rightarrow> execute_hook N m e key s)"

fun dispatch_all :: "hook_env \<Rightarrow> hook_event \<Rightarrow> hook_manifest list \<Rightarrow> hook_state \<Rightarrow> (py_exn + hook_result list) \<times> hook_state" where
  "dispatch_all N e [] s = (Inr [], s)"
| "dispatch_all N e (m # ms) s =
     (if \<not> hm_enabled m \<or> hv_type e \<notin> set (hm_events m) then dispatch_all N e ms s
      else case dispatch_one N e m s of
        (Inl x, s1) \<Rightarrow> (Inl x, s1)
      | (Inr r, s1) \<Rightarrow> (case dispatch_all N e ms s1 of (res, s2) \<Rightarrow> (map_sum id ((#) r) res, s2)))"

definition dispatch_event :: "hook_env \<Rightarrow> hook_event \<Rightarrow> hook_state \<Rightarrow> (py_exn + hook_result list) \<times> hook_state" where
  "dispatch_event N e s = dispatch_all N e (hk_manifests s) s"

section \<open>What dispatching keeps\<close>

text \<open>The steps of the system: events are dispatched, manifests imported, hooks approved by a person.\<close>

inductive hook_step :: "hook_env \<Rightarrow> hook_state \<Rightarrow> hook_state \<Rightarrow> bool" for N where
  dispatched: "hook_step N s (snd (dispatch_event N e s))"
| imported: "hook_step N s (snd (import_manifest B d s))"
| approved: "hook_step N s (snd (approve_hook now i s))"

definition run_granted :: "hook_manifest \<Rightarrow> bool" where
  "run_granted m \<longleftrightarrow> hm_enabled m \<and> (\<exists>t. hm_approved_at m = JFloat t) \<and> admit_hook m = Inr Admitted"

definition hooks_ok :: "hook_state \<Rightarrow> bool" where
  "hooks_ok s \<longleftrightarrow> distinct (map fst (hk_runs s)) \<and> fst ` set (hk_runs s) \<subseteq> set (hk_keys s) \<and>
     (\<forall>(k, m) \<in> set (hk_runs s). run_granted m) \<and>
     (\<forall>m \<in> set (hk_manifests s). hm_enabled m \<longrightarrow> (\<exists>t. hm_approved_at m = JFloat t))"

lemma hook_outcome_simps [simp]:
  "hr_key (hook_outcome m e key st err out) = key" "hr_status (hook_outcome m e key st err out) = st"
  "hr_proceed (hook_outcome m e key st err out) \<longleftrightarrow> st = ''completed'' \<or> hm_fail_policy m = FailOpen"
  by (simp_all add: hook_outcome_def)

text \<open>With working writes a hook that is dispatched leaves its key behind, and ran only if it was new and admitted.\<close>

lemma finish_hook_saved:
  "hn_saves N (hk_tick s) \<Longrightarrow> finish_hook N r s =
     (Inr r, s\<lparr>hk_keys := dict_fromkeys (hk_keys s @ [hr_key r]), hk_log := hk_log s @ [r], hk_tick := hk_tick s + 1\<rparr>)"
  by (simp add: finish_hook_def)

lemma execute_hook_cases:
  assumes "\<forall>n. hn_saves N n" "execute_hook N m e key s = (res, s')"
  obtains x where "res = Inl x" "s' = s"
  | r where "res = Inr r" "hr_key r = key" "hr_proceed r \<longleftrightarrow> hr_status r = ''completed'' \<or> hm_fail_policy m = FailOpen"
      "hk_runs s' = hk_runs s @ [(key, m)]" "set (hk_keys s') = insert key (set (hk_keys s))" "hk_manifests s' = hk_manifests s"
  using assms by (auto simp: execute_hook_def Let_def finish_hook_saved split: sum.splits if_splits)

lemma dispatch_one_cases:
  assumes "\<forall>n. hn_saves N n" "dispatch_one N e m s = (res, s')"
  obtains (raised) x where "res = Inl x" "s' = s"
  | (duplicate) r where "res = Inr r" "hr_status r = ''duplicate''" "hr_proceed r" "hook_key N m e \<in> set (hk_keys s)"
      "hk_runs s' = hk_runs s" "hk_keys s' = hk_keys s" "hk_manifests s' = hk_manifests s"
  | (blocked) r where "res = Inr r" "hr_status r = ''blocked''" "hr_proceed r \<longleftrightarrow> hm_fail_policy m = FailOpen"
      "hk_runs s' = hk_runs s" "set (hk_keys s') = insert (hook_key N m e) (set (hk_keys s))" "hk_manifests s' = hk_manifests s"
  | (ran) r where "res = Inr r" "hook_key N m e \<notin> set (hk_keys s)" "admit_hook m = Inr Admitted"
      "hr_proceed r \<longleftrightarrow> hr_status r = ''completed'' \<or> hm_fail_policy m = FailOpen"
      "hk_runs s' = hk_runs s @ [(hook_key N m e, m)]"
      "set (hk_keys s') = insert (hook_key N m e) (set (hk_keys s))" "hk_manifests s' = hk_manifests s"
proof (cases "hook_key N m e \<in> set (hk_keys s)")
  case True
  then show ?thesis using assms duplicate by (auto simp: dispatch_one_def Let_def)
next
  case False
  show ?thesis
  proof (cases "admit_hook m")
    case (Inl x)
    then show ?thesis using assms False raised by (auto simp: dispatch_one_def Let_def)
  next
    case (Inr v)
    show ?thesis
    proof (cases "v = Admitted")
      case True
      then have "execute_hook N m e (hook_key N m e) s = (res, s')" using assms(2) False Inr by (simp add: dispatch_one_def Let_def)
      from execute_hook_cases [OF assms(1) this] show ?thesis using False Inr True raised ran by metis
    next
      case other: False
      then obtain msg where "finish_hook N (hook_outcome m e (hook_key N m e) ''blocked'' msg []) s = (res, s')"
        using assms(2) False Inr by (cases v) (auto simp: dispatch_one_def Let_def)
      then show ?thesis using assms(1) blocked by (auto simp: finish_hook_saved)
    qed
  qed
qed

lemma dispatch_one_ok:
  assumes "\<forall>n. hn_saves N n" "dispatch_one N e m s = (res, s')" "hooks_ok s" "hm_enabled m" "m \<in> set (hk_manifests s)"
  shows "hooks_ok s' \<and> hk_manifests s' = hk_manifests s"
  using assms(1,2)
proof (cases rule: dispatch_one_cases)
  case (ran r)
  have "run_granted m" using assms(3-5) ran(3) by (auto simp: hooks_ok_def run_granted_def)
  moreover have "hook_key N m e \<notin> fst ` set (hk_runs s)" using assms(3) ran(2) by (auto simp: hooks_ok_def)
  ultimately show ?thesis using assms(3) ran by (auto simp: hooks_ok_def)
qed (use assms(3) in \<open>auto simp: hooks_ok_def\<close>)

lemma dispatch_all_ok:
  "\<forall>n. hn_saves N n \<Longrightarrow> hooks_ok s \<Longrightarrow> set ms \<subseteq> set (hk_manifests s) \<Longrightarrow>
     hooks_ok (snd (dispatch_all N e ms s)) \<and> hk_manifests (snd (dispatch_all N e ms s)) = hk_manifests s"
proof (induction ms arbitrary: s)
  case (Cons m ms)
  show ?case
  proof (cases "\<not> hm_enabled m \<or> hv_type e \<notin> set (hm_events m)")
    case False
    obtain res s1 where one: "dispatch_one N e m s = (res, s1)" by fastforce
    have ok: "hooks_ok s1 \<and> hk_manifests s1 = hk_manifests s"
      using dispatch_one_ok [OF Cons.prems(1) one Cons.prems(2)] Cons.prems(3) False by auto
    then show ?thesis using Cons.IH [of s1] Cons.prems one False by (cases res) (auto split: prod.split)
  qed (use Cons in auto)
qed simp

lemma manifest_disabled: "manifest_from_dict B True d = Inr m \<Longrightarrow> \<not> hm_enabled m"
  by (auto simp: manifest_from_dict_def try_then_def Let_def split: if_splits sum.splits)

lemma hook_step_ok:
  assumes "\<forall>n. hn_saves N n"
  shows "hook_step N s s' \<Longrightarrow> hooks_ok s \<Longrightarrow> hooks_ok s'"
proof (induction rule: hook_step.induct)
  case (dispatched s e)
  then show ?case using dispatch_all_ok [OF assms] by (auto simp: dispatch_event_def)
next
  case (imported s B d)
  then show ?case
    by (auto simp: import_manifest_def hooks_ok_def dest: manifest_disabled split: sum.split)
next
  case (approved s now i)
  then show ?case
    by (auto simp: approve_hook_def hooks_ok_def Let_def dest!: in_set_upd_first split: option.split)
qed

lemma hooks_reachable_ok:
  assumes "\<forall>n. hn_saves N n" "(hook_step N)\<^sup>*\<^sup>* no_hooks s"
  shows "hooks_ok s"
  using assms(2)
proof (induction rule: rtranclp_induct)
  case base
  show ?case by (simp add: hooks_ok_def no_hooks_def)
next
  case (step s s')
  then show ?case using hook_step_ok [OF assms(1)] by blast
qed

text \<open>A closed gate opens on the second try: a hook that failed or was blocked is a duplicate when the same
  event of the run is dispatched again, and a duplicate always proceeds.\<close>

lemma retry_opens_gate:
  assumes "\<forall>n. hn_saves N n" "dispatch_one N e m s = (Inr r, s')"
  shows "\<exists>r'. fst (dispatch_one N e m s') = Inr r' \<and> hr_proceed r'"
proof -
  have "hook_key N m e \<in> set (hk_keys s')" using assms by (cases rule: dispatch_one_cases) auto
  then show ?thesis by (simp add: dispatch_one_def Let_def)
qed

text \<open>A test timeout in the payload that is not a number ends the dispatch of every later hook.\<close>

lemma bad_timeout_raises:
  assumes "hm_handler m = ''scoped_tests''" "py_float (hn_builtins N) (jget_default (hv_payload e) ''test_timeout_seconds'' (JFloat (hm_timeout m))) = Inl x"
  shows "execute_hook N m e key s = (Inl x, s)"
  using assms by (simp add: execute_hook_def handler_event_def)

section \<open>Round trip of a manifest\<close>

definition manifest_storable :: "hook_manifest \<Rightarrow> bool" where
  "manifest_storable m \<longleftrightarrow> 0 < hm_timeout m \<and> hm_timeout m \<le> 300 \<and> strip (hm_idempotency m) = hm_idempotency m \<and> hm_idempotency m \<noteq> []"

lemma event_value_inverse: "map_of HOOK_EVENTS (event_value t) = Some t"
  by (cases t) (simp_all add: HOOK_EVENTS_def event_value_def)

lemma manifest_dict_roundtrip:
  assumes "py_builtins_ok B" "manifest_storable m"
  shows "manifest_from_dict B False (manifest_to_dict m) = Inr m"
proof -
  have evs: "try_map read_event (map (\<lambda>t. JStr (event_value t)) ts) = Inr ts" for ts
    using try_map_map_Inr [of ts read_event "\<lambda>t. JStr (event_value t)" "\<lambda>t. t"] by (simp add: read_event_def event_value_inverse)
  have gets: "jget (manifest_to_dict m) ''timeout_seconds'' = JFloat (hm_timeout m)" "jget (manifest_to_dict m) ''idempotency'' = JStr (hm_idempotency m)"
    "jget (manifest_to_dict m) ''events'' = JList (map (\<lambda>t. JStr (event_value t)) (hm_events m))"
    "jget (manifest_to_dict m) ''permissions'' = JList (hm_permissions m)" "jget (manifest_to_dict m) ''fail_policy'' = JStr (policy_value (hm_fail_policy m))"
    "jget_default (manifest_to_dict m) ''schema_version'' v = JInt (hm_schema m)" "jget (manifest_to_dict m) ''hook_id'' = JStr (hm_id m)"
    "jget (manifest_to_dict m) ''handler'' = JStr (hm_handler m)" "jget_default (manifest_to_dict m) ''enabled'' v = JBool (hm_enabled m)"
    "jget_default (manifest_to_dict m) ''imported'' v = JBool (hm_imported m)" "jget (manifest_to_dict m) ''approved_at'' = hm_approved_at m" for v
    by (simp_all add: manifest_to_dict_def jget_def jget_default_def)
  have none: "filter (\<lambda>k. map_of (manifest_to_dict m) k = None) REQUIRED_FIELDS = []"
    by (simp add: manifest_to_dict_def REQUIRED_FIELDS_def)
  have "read_policy (JStr (policy_value (hm_fail_policy m))) = Inr (hm_fail_policy m)"
    by (cases "hm_fail_policy m") (simp_all add: read_policy_def policy_value_def)
  then show ?thesis
    using assms by (simp add: manifest_from_dict_def none gets try_then_def py_iter_def evs manifest_storable_def not_less)
qed

end
