(* ===== verification/Pack_Admission.thy ===== *)
theory Pack_Admission
  imports Eval_Checks
begin

text \<open>
  The admission of an external capability pack: \<^verbatim>\<open>src/voly/capability/pack_security_patterns.py\<close> and
  \<^verbatim>\<open>pack_admission.py\<close>.  Components are files below the pack's directory, read through \<open>scan_env\<close>;
  a strict resolution fails where the file is missing.  \<^verbatim>\<open>json.loads\<close> is a function.
\<close>

section \<open>Patterns\<close>

definition repeat_upto :: "nat \<Rightarrow> regex \<Rightarrow> regex" where
  "repeat_upto n r = ((\<lambda>k. opt (Cat r k)) ^^ n) Eps"

definition gap_upto :: "nat \<Rightarrow> regex" where "gap_upto k = repeat_upto k any_char"

definition word_alts :: "string list \<Rightarrow> regex" where "word_alts ws = alts (map liti ws)"

definition sep_char :: regex where "sep_char = Chr (\<lambda>c. c \<in> set ''_ -'')"

definition API_KEY :: regex where "API_KEY = cats [liti ''api'', opt sep_char, liti ''key'']"

definition INSTRUCTION_OVERRIDE :: regex where
  "INSTRUCTION_OVERRIDE = cats [WordB, word_alts [''ignore'', ''disregard'', ''override''], WordB, gap_upto 50, WordB,
     word_alts [''previous'', ''prior'', ''system''], WordB]"

definition SECRET_EXFILTRATION :: regex where
  "SECRET_EXFILTRATION = cats [WordB, alts [liti ''reveal'', liti ''print'', liti ''send'', liti ''upload'',
      cats [liti ''exfiltrat'', Star True (Chr is_word)]], WordB, gap_upto 80, WordB,
     alts [liti ''secret'', liti ''token'', liti ''password'', API_KEY, liti ''.env''], WordB]"

definition DESTRUCTIVE_COMMAND :: regex where
  "DESTRUCTIVE_COMMAND = alts [cats [liti ''rm'', plus (Chr is_space), liti ''-rf'', WordB],
     cats [liti ''remove-item'', WordB, gap_upto 60, liti ''-recurse'', WordB],
     cats [liti ''git'', plus (Chr is_space), liti ''reset'', plus (Chr is_space), liti ''--hard'', WordB],
     cats [liti ''format'', plus (Chr is_space), Chr is_alpha, lit '':'']]"

definition SUBPROCESS_EXECUTION :: regex where
  "SUBPROCESS_EXECUTION = alts [cats [WordB, liti ''subprocess'', WordB], cats [WordB, liti ''child_process'', WordB],
     cats [WordB, liti ''os.system'', WordB], cats [WordB, liti ''execSync'', WordB], cats [WordB, liti ''spawnSync'', WordB],
     cats [ch CHR 0x22, liti ''command'', ch CHR 0x22, spaces, lit '':'']]"

definition NETWORK_ACCESS :: regex where
  "NETWORK_ACCESS = alts [cats [liti ''http'', opt (liti ''s''), lit ''://''], cats [WordB, liti ''curl'', WordB],
     cats [WordB, liti ''wget'', WordB], cats [WordB, liti ''fetch'', spaces, lit ''(''], cats [WordB, liti ''requests.'']]"

definition SECRET_ACCESS :: regex where
  "SECRET_ACCESS = alts [cats [WordB, liti ''process.env'', WordB], cats [WordB, liti ''os.environ'', WordB],
     cats [WordB, liti ''getenv'', spaces, lit ''(''], cats [liti ''.env'', WordB], API_KEY,
     cats [liti ''access'', opt sep_char, liti ''token'']]"

definition FILESYSTEM_WRITE :: regex where
  "FILESYSTEM_WRITE = alts [liti ''write_text'', liti ''writeFile'', liti ''appendFile'', liti ''mkdir'', liti ''copy-item'',
     liti ''move-item'', liti ''remove-item'', cats [lit ''>'', spaces, Chr (\<lambda>c. c \<in> set ''./~'')], cats [liti ''tee'', plus (Chr is_space)]]"

record risk_pattern =
  rp_finding :: string
  rp_severity :: string
  rp_permission :: string
  rp_message :: string
  rp_regex :: regex
  rp_kinds :: "string list option"

definition PACK_RISK_PATTERNS :: "risk_pattern list" where
  "PACK_RISK_PATTERNS =
     [\<lparr>rp_finding = ''prompt_instruction_override'', rp_severity = ''high'', rp_permission = ''prompt_control'',
        rp_message = ''Instruction attempts to override prior or system guidance'', rp_regex = INSTRUCTION_OVERRIDE,
        rp_kinds = Some [''agent'', ''skill'', ''rule'', ''legacy_command'']\<rparr>,
      \<lparr>rp_finding = ''prompt_secret_exfiltration'', rp_severity = ''critical'', rp_permission = ''secrets'',
        rp_message = ''Instruction requests disclosure or transmission of secrets'', rp_regex = SECRET_EXFILTRATION, rp_kinds = None\<rparr>,
      \<lparr>rp_finding = ''destructive_command'', rp_severity = ''critical'', rp_permission = ''filesystem_write'',
        rp_message = ''Destructive filesystem or Git command detected'', rp_regex = DESTRUCTIVE_COMMAND, rp_kinds = None\<rparr>,
      \<lparr>rp_finding = ''subprocess_execution'', rp_severity = ''medium'', rp_permission = ''subprocess'',
        rp_message = ''Component may launch a subprocess'', rp_regex = SUBPROCESS_EXECUTION,
        rp_kinds = Some [''hook'', ''mcp_config'', ''legacy_command'', ''skill'']\<rparr>,
      \<lparr>rp_finding = ''network_access'', rp_severity = ''medium'', rp_permission = ''network'',
        rp_message = ''Component may access the network'', rp_regex = NETWORK_ACCESS, rp_kinds = None\<rparr>,
      \<lparr>rp_finding = ''secret_access'', rp_severity = ''high'', rp_permission = ''secrets'',
        rp_message = ''Component may read credentials or secret-bearing environment data'', rp_regex = SECRET_ACCESS,
        rp_kinds = Some [''hook'', ''mcp_config'', ''legacy_command'', ''skill'']\<rparr>,
      \<lparr>rp_finding = ''filesystem_write'', rp_severity = ''medium'', rp_permission = ''filesystem_write'',
        rp_message = ''Component may modify the filesystem'', rp_regex = FILESYSTEM_WRITE,
        rp_kinds = Some [''hook'', ''legacy_command'', ''skill'']\<rparr>]"

definition NEGATION :: regex where
  "NEGATION = cats [alts [liti ''never'', cats [liti ''do'', plus (Chr is_space), liti ''not''], liti (''don'' @ [CHR 0x27] @ ''t''),
      cats [liti ''must'', plus (Chr is_space), liti ''not''], liti ''avoid'', liti ''prevent'', liti ''block'', liti ''detect''],
     repeat_upto 35 (Chr (\<lambda>c. c \<noteq> CHR ''.'' \<and> c \<noteq> NEWLINE)), Eos]"

definition is_negated :: "string \<Rightarrow> nat \<Rightarrow> bool" where
  "is_negated text match_start = re_test NEGATION (drop (match_start - 50) (take match_start text))"

section \<open>Findings\<close>

record pack_component =
  pt_kind :: string
  pt_id :: string
  pt_path :: string

record pack_finding =
  pf_id :: string
  pf_severity :: string
  pf_path :: string
  pf_line :: int
  pf_message :: string
  pf_evidence :: string

definition high_risk :: "string \<Rightarrow> bool" where "high_risk s \<longleftrightarrow> s \<in> set [''high'', ''critical'']"

definition RISK_ORDER :: "(string \<times> int) list" where
  "RISK_ORDER = [(''low'', 0), (''medium'', 1), (''high'', 2), (''critical'', 3)]"

definition risk_rank :: "string \<Rightarrow> int" where "risk_rank s = (case map_of RISK_ORDER s of Some n \<Rightarrow> n | None \<Rightarrow> -1)"

definition MAX_COMPONENT_BYTES :: int where "MAX_COMPONENT_BYTES = 512000"
definition MAX_FINDINGS :: nat where "MAX_FINDINGS = 200"

text \<open>Findings so far and the permissions per path.\<close>

type_synonym pack_scan = "pack_finding list \<times> (string \<times> string list) list"

definition grant :: "string \<Rightarrow> string \<Rightarrow> (string \<times> string list) list \<Rightarrow> (string \<times> string list) list" where
  "grant path p perms = dict_set path (dict_fromkeys ((case map_of perms path of Some ps \<Rightarrow> ps | None \<Rightarrow> []) @ [p])) perms"

definition finding :: "string \<Rightarrow> string \<Rightarrow> string \<Rightarrow> int \<Rightarrow> string \<Rightarrow> string \<Rightarrow> pack_finding" where
  "finding i sev path line message evidence = \<lparr>pf_id = i, pf_severity = sev, pf_path = path, pf_line = line, pf_message = message,
     pf_evidence = evidence\<rparr>"

fun words_acc :: "string \<Rightarrow> string \<Rightarrow> string list" where
  "words_acc acc [] = (if acc = [] then [] else [rev acc])"
| "words_acc acc (c # cs) = (if is_space c then (if acc = [] then [] else [rev acc]) @ words_acc [] cs else words_acc (c # acc) cs)"

definition safe_evidence :: "string \<Rightarrow> string" where
  "safe_evidence value = take 160 (join '' '' (words_acc [] value))"

text \<open>The first match of a pattern: where it starts and what it matched.\<close>

definition first_match :: "regex \<Rightarrow> string \<Rightarrow> (nat \<times> string) option" where
  "first_match r text = map_option (\<lambda>(start, pre, suf, caps). (length text - length start, take (length start - length suf) start))
     (search_from r [] text)"

definition applies_to :: "risk_pattern \<Rightarrow> string \<Rightarrow> bool" where
  "applies_to p kind \<longleftrightarrow> (case rp_kinds p of None \<Rightarrow> True | Some ks \<Rightarrow> kind \<in> set ks)"

text \<open>Whether a pattern reports a text: the first match of a serious one must not stand under a negation.\<close>

definition reported :: "risk_pattern \<Rightarrow> string \<Rightarrow> string \<Rightarrow> (nat \<times> string) option" where
  "reported p kind text =
     (if \<not> applies_to p kind then None
      else case first_match (rp_regex p) text of
        None \<Rightarrow> None
      | Some (start, found) \<Rightarrow> if high_risk (rp_severity p) \<and> is_negated text start then None else Some (start, found))"

definition scan_pattern :: "string \<Rightarrow> string \<Rightarrow> string \<Rightarrow> risk_pattern \<Rightarrow> pack_scan \<Rightarrow> pack_scan" where
  "scan_pattern kind path text p s = (case reported p kind text of
     None \<Rightarrow> s
   | Some (start, found) \<Rightarrow> (case s of (fs, perms) \<Rightarrow>
       (fs @ [finding (rp_finding p) (rp_severity p) path (int (length (filter (\<lambda>c. c = NEWLINE) (take start text))) + 1) (rp_message p)
          (safe_evidence found)],
        grant path (rp_permission p) perms)))"

definition scan_patterns :: "string \<Rightarrow> string \<Rightarrow> string \<Rightarrow> pack_scan \<Rightarrow> pack_scan" where
  "scan_patterns kind path text s = fold (scan_pattern kind path text) PACK_RISK_PATTERNS s"

section \<open>MCP configurations\<close>

definition invalid_shape :: "string \<Rightarrow> pack_finding" where
  "invalid_shape path = finding ''invalid_mcp_shape'' ''high'' path 1 ''MCP configuration must contain a server mapping''
     ''unexpected JSON structure''"

fun inspect_servers :: "string \<Rightarrow> json list \<Rightarrow> pack_scan \<Rightarrow> pack_scan" where
  "inspect_servers path [] s = s"
| "inspect_servers path (v # vs) (fs, perms) = (case v of
     JObj d \<Rightarrow>
       (let p1 = (if truthy (jget d ''command'') then grant path ''subprocess'' perms else perms);
            p2 = (if truthy (jget d ''url'') then grant path ''network'' p1 else p1)
        in inspect_servers path vs (fs, p2))
   | _ \<Rightarrow> (fs @ [invalid_shape path], perms))"

definition inspect_mcp_config :: "(string \<Rightarrow> (int \<times> string) + json) \<Rightarrow> string \<Rightarrow> string \<Rightarrow> pack_scan \<Rightarrow> pack_scan" where
  "inspect_mcp_config loads path text s = (case s of (fs, perms) \<Rightarrow> (case loads text of
     Inl (line, msg) \<Rightarrow> (fs @ [finding ''invalid_mcp_json'' ''high'' path line ''MCP configuration is not valid JSON'' msg], perms)
   | Inr payload \<Rightarrow> (case payload of
       JObj d \<Rightarrow> (case jget_default d ''mcpServers'' payload of
           JObj servers \<Rightarrow> inspect_servers path (map snd servers) s
         | _ \<Rightarrow> (fs @ [invalid_shape path], perms))
     | _ \<Rightarrow> (fs @ [invalid_shape path], perms))))"

section \<open>Admission\<close>

record pack_env =
  pe_scan :: scan_env
  pe_present :: "string \<Rightarrow> bool"
  pe_loads :: "string \<Rightarrow> (int \<times> string) + json"

datatype pack_error =
    PackMissing string
  | ComponentEscapes string

definition component_path :: "pack_env \<Rightarrow> string \<Rightarrow> string \<Rightarrow> pack_error + string" where
  "component_path E home relative =
     (let path = resolve_in (sv_verify (pe_scan E)) home relative
      in if \<not> pe_present E path then Inl (PackMissing relative)
         else if \<not> path_under home path then Inl (ComponentEscapes relative) else Inr path)"

definition read_bounded_text :: "pack_env \<Rightarrow> string \<Rightarrow> string \<Rightarrow> pack_finding + string" where
  "read_bounded_text E path relative =
     (let unreadable = (\<lambda>m. Inl (finding ''component_unreadable'' ''high'' relative 0 ''Component could not be read for admission'' (take 160 m)))
      in case sv_size (pe_scan E) path of
           None \<Rightarrow> unreadable ''stat failed''
         | Some n \<Rightarrow>
             if n > MAX_COMPONENT_BYTES
             then Inl (finding ''component_too_large'' ''high'' relative 0 ''Component exceeds the static admission size limit''
                    (''>'' @ str_int MAX_COMPONENT_BYTES @ '' bytes''))
             else (case ve_read (sv_verify (pe_scan E)) path of Inl m \<Rightarrow> unreadable m | Inr text \<Rightarrow> Inr text))"

text \<open>One component; a text that cannot be read is a finding and goes on to the next component.\<close>

definition scan_component :: "pack_env \<Rightarrow> string \<Rightarrow> pack_component \<Rightarrow> pack_scan \<Rightarrow> pack_error + bool \<times> pack_scan" where
  "scan_component E home c s = (case component_path E home (pt_path c) of
     Inl e \<Rightarrow> Inl e
   | Inr path \<Rightarrow> (case read_bounded_text E path (pt_path c) of
       Inl f \<Rightarrow> Inr (False, (fst s @ [f], snd s))
     | Inr text \<Rightarrow> Inr (True, scan_patterns (pt_kind c) (pt_path c) text
         (if pt_kind c = ''mcp_config'' then inspect_mcp_config (pe_loads E) (pt_path c) text s else s))))"

text \<open>The loop: it ends when a component that was read leaves the list of findings full.\<close>

fun scan_components :: "pack_env \<Rightarrow> string \<Rightarrow> pack_component list \<Rightarrow> nat \<times> pack_scan \<Rightarrow> pack_error + nat \<times> pack_scan" where
  "scan_components E home [] (n, s) = Inr (n, s)"
| "scan_components E home (c # cs) (n, s) = (case scan_component E home c s of
     Inl e \<Rightarrow> Inl e
   | Inr (read, s1) \<Rightarrow>
       if read \<and> length (fst s1) \<ge> MAX_FINDINGS then Inr (n + 1, s1) else scan_components E home cs (n + 1, s1))"

record admission_report =
  ar_decision :: string
  ar_risk :: string
  ar_scanned :: nat
  ar_findings :: "pack_finding list"
  ar_permissions :: "(string \<times> string list) list"

definition sort_findings :: "pack_finding list \<Rightarrow> pack_finding list" where
  "sort_findings fs = sort_key (\<lambda>f. - risk_rank (pf_severity f)) (sort_key pf_path (sort_key pf_line (sort_key pf_id fs)))"

definition overall_risk :: "pack_finding list \<Rightarrow> string" where
  "overall_risk fs = (if fs = [] then ''low''
     else pf_severity (fold (\<lambda>f best. if risk_rank (pf_severity f) > risk_rank (pf_severity best) then f else best) (tl fs) (hd fs)))"

definition quarantined_components :: "admission_report \<Rightarrow> string list" where
  "quarantined_components r = sorted_set (map pf_path (filter (\<lambda>f. high_risk (pf_severity f)) (ar_findings r)))"

definition admit_external_pack :: "pack_env \<Rightarrow> string \<Rightarrow> pack_component list \<Rightarrow> pack_error + admission_report" where
  "admit_external_pack E source components =
     (let home = ve_resolve (sv_verify (pe_scan E)) source
      in if \<not> pe_present E home then Inl (PackMissing source)
         else case scan_components E home components (0, [], []) of
           Inl e \<Rightarrow> Inl e
         | Inr (n, fs0, perms) \<Rightarrow>
             (let fs = sort_findings (take MAX_FINDINGS fs0); risk = overall_risk fs
              in Inr \<lparr>ar_decision = (if high_risk risk then ''quarantine'' else ''allow''), ar_risk = risk, ar_scanned = n, ar_findings = fs,
                   ar_permissions = map (\<lambda>(p, ps). (p, sorted_set ps)) (sort_key fst perms)\<rparr>))"

section \<open>What admission establishes\<close>

definition pattern_finding :: "string \<Rightarrow> string \<Rightarrow> string \<Rightarrow> risk_pattern \<Rightarrow> pack_finding option" where
  "pattern_finding kind path text p = map_option (\<lambda>(start, found).
     finding (rp_finding p) (rp_severity p) path (int (length (filter (\<lambda>c. c = NEWLINE) (take start text))) + 1) (rp_message p)
       (safe_evidence found)) (reported p kind text)"

lemma finding_simps [simp]:
  "pf_path (finding i sev path line m ev) = path" "pf_severity (finding i sev path line m ev) = sev"
  by (simp_all add: finding_def)

lemma scan_pattern_findings: "fst (scan_pattern kind path text p s) = fst s @ List.map_filter (pattern_finding kind path text) [p]"
  by (cases "reported p kind text"; cases s)
    (auto simp: scan_pattern_def pattern_finding_def List.map_filter_simps split: option.split)

lemma scan_patterns_findings:
  "fst (scan_patterns kind path text s) = fst s @ List.map_filter (pattern_finding kind path text) PACK_RISK_PATTERNS"
proof -
  have "fst (fold (scan_pattern kind path text) ps s) = fst s @ List.map_filter (pattern_finding kind path text) ps" for ps
  proof (induction ps arbitrary: s)
    case (Cons p ps)
    have "List.map_filter f [p] @ List.map_filter f ps = List.map_filter f (p # ps)" for f :: "risk_pattern \<Rightarrow> pack_finding option"
      by (simp add: List.map_filter_simps split: option.split)
    then show ?case using Cons [of "scan_pattern kind path text p s"] by (simp add: scan_pattern_findings)
  qed (simp add: List.map_filter_simps)
  then show ?thesis by (simp add: scan_patterns_def)
qed

lemma inspect_servers_findings:
  "\<exists>fs. fst (inspect_servers path vs s) = fst s @ fs \<and> (\<forall>f \<in> set fs. pf_path f = path)"
  by (induction path vs s rule: inspect_servers.induct) (auto simp: Let_def invalid_shape_def split: json.split)

lemma inspect_mcp_findings:
  "\<exists>fs. fst (inspect_mcp_config loads path text s) = fst s @ fs \<and> (\<forall>f \<in> set fs. pf_path f = path)"
  using inspect_servers_findings [of path _ s]
  by (cases s) (auto simp: inspect_mcp_config_def invalid_shape_def split: sum.split json.split)

text \<open>What a component that was read and shows nothing serious is.\<close>

definition component_clean :: "pack_env \<Rightarrow> string \<Rightarrow> pack_component \<Rightarrow> bool" where
  "component_clean E home c \<longleftrightarrow> (\<exists>path text. component_path E home (pt_path c) = Inr path \<and>
     read_bounded_text E path (pt_path c) = Inr text \<and>
     (\<forall>p \<in> set PACK_RISK_PATTERNS. high_risk (rp_severity p) \<longrightarrow> reported p (pt_kind c) text = None))"

lemma high_risk_simps [simp]: "high_risk ''high''" "high_risk ''critical''" "\<not> high_risk ''low''" "\<not> high_risk ''medium''"
  by (simp_all add: high_risk_def)

lemma read_bounded_high: "read_bounded_text E path rel = Inl f \<Longrightarrow> high_risk (pf_severity f) \<and> pf_path f = rel"
  by (auto simp: read_bounded_text_def Let_def split: option.splits if_splits sum.splits)

lemma in_map_filter: "y \<in> set (List.map_filter f xs) \<longleftrightarrow> (\<exists>x \<in> set xs. f x = Some y)"
  by (induction xs) (auto simp: List.map_filter_simps split: option.split)

text \<open>The findings of a component carry its path, and a component without a serious one is clean.\<close>

lemma scan_component_findings:
  assumes "scan_component E home c s = Inr (read, s')"
  shows "\<exists>fs. fst s' = fst s @ fs \<and> (\<forall>f \<in> set fs. pf_path f = pt_path c) \<and>
    ((\<forall>f \<in> set fs. \<not> high_risk (pf_severity f)) \<longrightarrow> component_clean E home c)"
proof -
  obtain path where path: "component_path E home (pt_path c) = Inr path"
    using assms by (auto simp: scan_component_def split: sum.splits)
  show ?thesis
  proof (cases "read_bounded_text E path (pt_path c)")
    case (Inl f)
    then show ?thesis using assms path read_bounded_high [OF Inl] by (auto simp: scan_component_def)
  next
    case (Inr body)
    let ?s = "if pt_kind c = ''mcp_config'' then inspect_mcp_config (pe_loads E) (pt_path c) body s else s"
    obtain fs1 where fs1: "fst ?s = fst s @ fs1" "\<forall>f \<in> set fs1. pf_path f = pt_path c"
      using inspect_mcp_findings [of "pe_loads E" "pt_path c" body s] by (cases "pt_kind c = ''mcp_config''") auto
    let ?fs2 = "List.map_filter (pattern_finding (pt_kind c) (pt_path c) body) PACK_RISK_PATTERNS"
    have s': "fst s' = fst s @ fs1 @ ?fs2"
      using assms path Inr fs1(1) by (auto simp: scan_component_def scan_patterns_findings)
    have "pf_path f = pt_path c" if "f \<in> set ?fs2" for f
      using that by (auto simp: in_map_filter pattern_finding_def)
    moreover have "reported p (pt_kind c) body = None"
      if clean: "\<forall>f \<in> set (fs1 @ ?fs2). \<not> high_risk (pf_severity f)" and p: "p \<in> set PACK_RISK_PATTERNS" "high_risk (rp_severity p)" for p
    proof (rule ccontr)
      assume "reported p (pt_kind c) body \<noteq> None"
      then obtain f where "pattern_finding (pt_kind c) (pt_path c) body p = Some f" "pf_severity f = rp_severity p"
        by (auto simp: pattern_finding_def)
      then have "f \<in> set ?fs2" "high_risk (pf_severity f)" using p by (auto simp: in_map_filter)
      then show False using clean by simp
    qed
    ultimately show ?thesis using s' fs1(2) path Inr
      by (intro exI [of _ "fs1 @ ?fs2"]) (auto simp: component_clean_def)
  qed
qed

lemma scan_components_length:
  "scan_components E home cs (n, s) = Inr (n', s') \<Longrightarrow> length (fst s) \<le> length (fst s')"
proof (induction cs arbitrary: n s)
  case (Cons c cs)
  obtain read s1 where one: "scan_component E home c s = Inr (read, s1)"
    using Cons.prems by (auto split: sum.splits)
  have "length (fst s) \<le> length (fst s1)" using scan_component_findings [OF one] by auto
  moreover have "length (fst s1) \<le> length (fst s')"
  proof (cases "read \<and> length (fst s1) \<ge> MAX_FINDINGS")
    case True
    then show ?thesis using Cons.prems one by simp
  next
    case False
    then have "scan_components E home cs (n + 1, s1) = Inr (n', s')"
      using Cons.prems one by (auto split: if_splits)
    then show ?thesis using Cons.IH by blast
  qed
  ultimately show ?case by (rule le_trans)
qed simp

text \<open>While the list of findings is not full, every component is scanned.\<close>

lemma scan_components_all:
  "scan_components E home cs (n, s) = Inr (n', s') \<Longrightarrow> length (fst s') < MAX_FINDINGS \<Longrightarrow>
     n' = n + length cs \<and> set (fst s) \<subseteq> set (fst s') \<and>
     (\<forall>c \<in> set cs. component_clean E home c \<or> (\<exists>f \<in> set (fst s'). pf_path f = pt_path c \<and> high_risk (pf_severity f)))"
proof (induction cs arbitrary: n s)
  case (Cons c cs)
  obtain read s1 where one: "scan_component E home c s = Inr (read, s1)"
    using Cons.prems(1) by (auto split: sum.splits)
  have rest: "scan_components E home cs (n + 1, s1) = Inr (n', s')"
    using Cons.prems one by (auto split: if_splits)
  note IH = Cons.IH [OF rest Cons.prems(2)]
  obtain fs where fs: "fst s1 = fst s @ fs" "\<forall>f \<in> set fs. pf_path f = pt_path c"
    "(\<forall>f \<in> set fs. \<not> high_risk (pf_severity f)) \<longrightarrow> component_clean E home c"
    using scan_component_findings [OF one] by blast
  then show ?case using IH by auto
qed simp

lemma sort_findings_set [simp]: "set (sort_findings fs) = set fs" "length (sort_findings fs) = length fs"
  by (simp_all add: sort_findings_def)

text \<open>With fewer findings than the limit, every component that is not quarantined was read and is clean.\<close>

lemma admission_sound:
  assumes "admit_external_pack E source components = Inr r" "length (ar_findings r) < MAX_FINDINGS"
  shows "ar_scanned r = length components"
    and "\<forall>c \<in> set components. pt_path c \<notin> set (quarantined_components r) \<longrightarrow>
      component_clean E (ve_resolve (sv_verify (pe_scan E)) source) c"
proof -
  let ?home = "ve_resolve (sv_verify (pe_scan E)) source"
  obtain n fs perms where s: "scan_components E ?home components (0, [], []) = Inr (n, fs, perms)"
    and r: "ar_scanned r = n" "ar_findings r = sort_findings (take MAX_FINDINGS fs)"
    using assms(1) by (auto simp: admit_external_pack_def Let_def split: if_splits sum.splits)
  have len: "length fs < MAX_FINDINGS" using assms(2) r(2) by simp
  then have all: "set (ar_findings r) = set fs" using r(2) by simp
  note scan = scan_components_all [OF s] len
  show "ar_scanned r = length components" using scan r(1) by simp
  show "\<forall>c \<in> set components. pt_path c \<notin> set (quarantined_components r) \<longrightarrow> component_clean E ?home c"
  proof (intro ballI impI)
    fix c assume c: "c \<in> set components" and q: "pt_path c \<notin> set (quarantined_components r)"
    have "\<not> (\<exists>f \<in> set fs. pf_path f = pt_path c \<and> high_risk (pf_severity f))"
    proof
      assume "\<exists>f \<in> set fs. pf_path f = pt_path c \<and> high_risk (pf_severity f)"
      then obtain f where "f \<in> set (ar_findings r)" "pf_path f = pt_path c" "high_risk (pf_severity f)" using all by blast
      then have "pt_path c \<in> set (map pf_path (filter (\<lambda>f. high_risk (pf_severity f)) (ar_findings r)))" by force
      then show False using q by (simp add: quarantined_components_def)
    qed
    then show "component_clean E ?home c" using scan c by auto
  qed
qed

text \<open>A full list ends the scan: what comes later is not read and so is never quarantined.\<close>

lemma full_list_stops:
  assumes "scan_component E home c s = Inr (True, s1)" "length (fst s1) \<ge> MAX_FINDINGS"
  shows "scan_components E home (c # cs) (n, s) = Inr (n + 1, s1)"
  using assms by simp

text \<open>Only the first match of a pattern is looked at: one under a negation hides the rest of the file.\<close>

lemma negated_match_hides: "reported (PACK_RISK_PATTERNS ! 2) ''rule'' ''never rm -rf a. Then rm -rf b'' = None"
  by code_simp

end
