(* ===== verification/Pack_Store.thy ===== *)
theory Pack_Store
  imports Pack_Admission Plan_Store
begin

text \<open>
  The staged store of external capability packs: discovery (\<^verbatim>\<open>src/voly/capability/packs.py\<close>), the manifest
  (\<^verbatim>\<open>pack_manifest.py\<close>) and the store (\<^verbatim>\<open>pack_store.py\<close>).  The store's directory is an association list
  from pack directories to their files, each a list from relative names to contents; it holds no symbolic
  links, so a name below a pack resolves by its text.  A write into the temporary directory may fail.
  Source files, the glob, git, SHA-256 and the JSON writer are functions.  A field of a stored component
  that is not a string is refused when the manifest is loaded; the source would fail on it later.
\<close>

section \<open>Discovery\<close>

record pack_provenance =
  pv_source :: string
  pv_repository :: string
  pv_revision :: string
  pv_name :: string
  pv_version :: string
  pv_license :: string

record pack_discovery =
  pd_pack_id :: string
  pd_provenance :: pack_provenance
  pd_components :: "pack_component list"
  pd_warnings :: "string list"

record store_env =
  st_pack :: pack_env
  st_builtins :: py_builtins
  st_expand :: "string \<Rightarrow> string"
  st_glob :: "string \<Rightarrow> string \<Rightarrow> string list"
  st_git :: "string \<Rightarrow> string list \<Rightarrow> (int \<times> string) option"
  st_bytes :: "string \<Rightarrow> string option"
  st_sha :: "string \<Rightarrow> string"
  st_dumps :: "json \<Rightarrow> string"
  st_root :: string
  st_temp :: string
  st_writes :: "string \<Rightarrow> bool"
  st_now :: string

abbreviation st_files :: "store_env \<Rightarrow> verify_env" where "st_files E \<equiv> sv_verify (pe_scan (st_pack E))"

datatype store_error =
    Admission pack_error
  | NoSource string
  | NotADirectory string
  | EscapesSource string
  | BadPackage
  | NotAFile string
  | Unreadable string
  | BadPackId string
  | PackExists string
  | NoPack string
  | BadManifest
  | StagedEscapes string
  | WriteFailed string

definition ECC_LAYOUT :: "(string \<times> string) list" where
  "ECC_LAYOUT = [(''agent'', ''agents/*.md''), (''skill'', ''skills/*/SKILL.md''), (''rule'', ''rules/**/*.md''),
     (''hook'', ''hooks/**/*.json''), (''mcp_config'', ''mcp-configs/*.json''),
     (''legacy_command'', ''legacy-command-shims/commands/*.md'')]"

definition resolve_source :: "store_env \<Rightarrow> string \<Rightarrow> store_error + string" where
  "resolve_source E source =
     (let path = st_expand E source; home = ve_resolve (st_files E) path
      in if \<not> pe_present (st_pack E) home then Inl (NoSource path)
         else if \<not> ve_is_dir (st_files E) home then Inl (NotADirectory home) else Inr home)"

definition package_object :: "store_env \<Rightarrow> string \<Rightarrow> store_error + (string \<times> json) list" where
  "package_object E body = (case pe_loads (st_pack E) body of
     Inr (JObj d) \<Rightarrow> Inr d | _ \<Rightarrow> Inl BadPackage)"

definition read_package_metadata :: "store_env \<Rightarrow> string \<Rightarrow> store_error + (string \<times> json) list" where
  "read_package_metadata E home =
     (let path = home @ ''/package.json''
      in if \<not> ve_is_file (st_files E) path then Inr []
         else case sv_size (pe_scan (st_pack E)) path of
           None \<Rightarrow> Inl BadPackage
         | Some n \<Rightarrow> if n > 1000000 \<or> \<not> sv_utf8 (pe_scan (st_pack E)) path then Inl BadPackage
             else (case ve_read (st_files E) path of Inl m \<Rightarrow> Inl BadPackage | Inr body \<Rightarrow> package_object E body))"

text \<open>The files of a pattern, each a resolved path below the root.\<close>

definition safe_file :: "store_env \<Rightarrow> string \<Rightarrow> string \<Rightarrow> store_error + string" where
  "safe_file E home candidate =
     (let path = ve_resolve (st_files E) candidate
      in if pe_present (st_pack E) path \<and> path_under home path then Inr path else Inl (EscapesSource candidate))"

definition safe_files :: "store_env \<Rightarrow> string \<Rightarrow> string \<Rightarrow> store_error + string list" where
  "safe_files E home layout_glob =
     map_sum id (\<lambda>paths. sort_key (path_below home) (remdups paths))
       (try_map (safe_file E home) (filter (ve_is_file (st_files E)) (st_glob E home layout_glob)))"

definition posix_stem :: "string \<Rightarrow> string" where
  "posix_stem p = take (length (posix_name p) - length (posix_suffix p)) (posix_name p)"

definition component_id_of :: "string \<Rightarrow> string \<Rightarrow> string" where
  "component_id_of kind path = (if kind = ''skill'' then posix_name (parent_dir path) else posix_stem path)"

definition layout_components :: "store_env \<Rightarrow> string \<Rightarrow> string \<times> string \<Rightarrow> store_error + pack_component list" where
  "layout_components E home layout = (case layout of (kind, layout_glob) \<Rightarrow>
     map_sum id (map (\<lambda>path. \<lparr>pt_kind = kind, pt_id = component_id_of kind path, pt_path = path_below home path\<rparr>))
       (safe_files E home layout_glob))"

definition sort_components :: "pack_component list \<Rightarrow> pack_component list" where
  "sort_components cs = sort_key pt_kind (sort_key pt_id (sort_key pt_path cs))"

definition git_value :: "store_env \<Rightarrow> string \<Rightarrow> string list \<Rightarrow> string" where
  "git_value E home args = (case st_git E home args of Some (rc, out) \<Rightarrow> if rc = 0 then strip out else [] | None \<Rightarrow> [])"

definition discover_ecc_pack :: "store_env \<Rightarrow> string \<Rightarrow> store_error + pack_discovery" where
  "discover_ecc_pack E source =
     bind_err (resolve_source E source) (\<lambda>home.
     bind_err (read_package_metadata E home) (\<lambda>package.
     bind_err (try_map (layout_components E home) ECC_LAYOUT) (\<lambda>css.
       (let cs = sort_components (concat css); B = st_builtins E;
            str_of = (\<lambda>k dflt. py_str B (jor (jget package k) (JStr dflt)))
        in Inr \<lparr>pd_pack_id = str_of ''name'' ''ecc'',
             pd_provenance = \<lparr>pv_source = home, pv_repository = git_value E home [''config'', ''--get'', ''remote.origin.url''],
               pv_revision = git_value E home [''rev-parse'', ''HEAD''], pv_name = str_of ''name'' [],
               pv_version = str_of ''version'' [], pv_license = str_of ''license'' []\<rparr>,
             pd_components = cs, pd_warnings = (if cs = [] then [''no supported ECC components discovered''] else [])\<rparr>))))"

definition component_counts :: "pack_component list \<Rightarrow> (string \<times> nat) list" where
  "component_counts cs = sort_key fst (map (\<lambda>k. (k, length (filter (\<lambda>c. pt_kind c = k) cs))) (dict_fromkeys (map pt_kind cs)))"

section \<open>The manifest\<close>

record staged_component =
  sc_kind :: string
  sc_id :: string
  sc_source :: string
  sc_staged :: "string option"
  sc_sha :: string
  sc_status :: string

record pack_alias =
  al_alias :: string
  al_target :: string
  al_kind :: string

record pack_manifest =
  pm_pack_id :: string
  pm_adapter :: string
  pm_version :: string
  pm_installed_at :: string
  pm_state :: string
  pm_provenance :: "(string \<times> json) list"
  pm_admission :: "(string \<times> json) list"
  pm_components :: "staged_component list"
  pm_aliases :: "pack_alias list"

definition PACK_MANIFEST_SCHEMA_VERSION :: int where "PACK_MANIFEST_SCHEMA_VERSION = 1"

definition lower_alnum :: "char \<Rightarrow> bool" where "lower_alnum c \<longleftrightarrow> is_digit c \<or> (is_alpha c \<and> lower_char c = c)"

definition pack_id_ok :: "string \<Rightarrow> bool" where
  "pack_id_ok s = (case s of [] \<Rightarrow> False
     | c # cs \<Rightarrow> lower_alnum c \<and> length cs \<le> 127 \<and> list_all (\<lambda>d. lower_alnum d \<or> d \<in> set ''._-'') cs)"

definition validate_pack_id :: "string \<Rightarrow> store_error + string" where
  "validate_pack_id pid = (let normalized = lower (strip pid) in if pack_id_ok normalized then Inr normalized else Inl (BadPackId pid))"

definition safe_source_path :: "store_env \<Rightarrow> string \<Rightarrow> string \<Rightarrow> store_error + string" where
  "safe_source_path E home relative =
     (let path = resolve_in (st_files E) home relative
      in if \<not> pe_present (st_pack E) path then Inl (NoSource relative)
         else if \<not> path_under home path then Inl (EscapesSource relative)
         else if \<not> ve_is_file (st_files E) path then Inl (NotAFile relative) else Inr path)"

definition stage_component :: "store_env \<Rightarrow> string \<Rightarrow> string list \<Rightarrow> pack_component \<Rightarrow> store_error + staged_component" where
  "stage_component E home quarantined c =
     bind_err (safe_source_path E home (pt_path c)) (\<lambda>path. (case st_bytes E path of
         None \<Rightarrow> Inl (Unreadable path)
       | Some body \<Rightarrow> Inr \<lparr>sc_kind = pt_kind c, sc_id = pt_id c, sc_source = pt_path c,
           sc_staged = (if pt_path c \<in> set quarantined then None else Some (''content/'' @ pt_path c)),
           sc_sha = st_sha E body, sc_status = (if pt_path c \<in> set quarantined then ''quarantined'' else ''staged'')\<rparr>))"

section \<open>Compatibility aliases\<close>

definition id_run :: regex where
  "id_run = plus (Chr (\<lambda>c. is_alpha c \<or> is_digit c \<or> c \<in> set ''._-''))"

definition SKILL_REFERENCE :: regex where "SKILL_REFERENCE = cats [lit ''skills/'', Group 1 id_run, lit ''/SKILL.md'']"

definition DEPRECATED_SKILL :: regex where
  "DEPRECATED_SKILL = cats [liti ''[DEPRECATED'', spaces, lit ''-'', spaces, liti ''use'', plus (Chr is_space), Group 1 id_run, lit '']'']"

definition skill_match :: "regex \<Rightarrow> string list \<Rightarrow> string \<Rightarrow> string option" where
  "skill_match r staged body = (case re_search r body of
     None \<Rightarrow> None | Some caps \<Rightarrow> if group caps 1 \<in> set staged then Some (group caps 1) else None)"

definition alias_for :: "string list \<Rightarrow> staged_component \<Rightarrow> string \<Rightarrow> pack_alias option" where
  "alias_for staged c body =
     (if sc_kind c = ''legacy_command''
      then Some \<lparr>al_alias = sc_id c, al_target = (case skill_match SKILL_REFERENCE staged body of
          Some t \<Rightarrow> ''skill:'' @ t | None \<Rightarrow> ''legacy-command:'' @ sc_id c), al_kind = ''command''\<rparr>
      else (case skill_match DEPRECATED_SKILL staged (take 8000 body) of
          Some t \<Rightarrow> Some \<lparr>al_alias = sc_id c, al_target = ''skill:'' @ t, al_kind = ''skill''\<rparr> | None \<Rightarrow> None))"

definition staged_skills :: "staged_component list \<Rightarrow> string list" where
  "staged_skills cs = map sc_id (filter (\<lambda>c. sc_kind c = ''skill'' \<and> sc_status c = ''staged'') cs)"

definition component_alias :: "store_env \<Rightarrow> string \<Rightarrow> string list \<Rightarrow> staged_component \<Rightarrow> store_error + pack_alias option" where
  "component_alias E home staged c =
     (if sc_status c = ''staged'' \<and> sc_kind c \<in> set [''legacy_command'', ''skill'']
      then (case ve_read (st_files E) (home @ ''/'' @ sc_source c) of
          Inl m \<Rightarrow> Inl (Unreadable (sc_source c)) | Inr body \<Rightarrow> Inr (alias_for staged c body))
      else Inr None)"

definition compatibility_aliases :: "store_env \<Rightarrow> string \<Rightarrow> staged_component list \<Rightarrow> store_error + pack_alias list" where
  "compatibility_aliases E home cs =
     map_sum id (\<lambda>found. sort_key al_kind (sort_key al_alias (List.map_filter id found)))
       (try_map (component_alias E home (staged_skills cs)) cs)"

definition provenance_dict :: "pack_provenance \<Rightarrow> (string \<times> json) list" where
  "provenance_dict p = [(''source_path'', JStr (pv_source p)), (''repository'', JStr (pv_repository p)),
     (''revision'', JStr (pv_revision p)), (''package_name'', JStr (pv_name p)), (''package_version'', JStr (pv_version p)),
     (''license'', JStr (pv_license p))]"

definition admission_dict :: "admission_report \<Rightarrow> (string \<times> json) list" where
  "admission_dict r = [(''schema_version'', JInt 1), (''decision'', JStr (ar_decision r)), (''risk_level'', JStr (ar_risk r)),
     (''finding_count'', JInt (int (length (ar_findings r)))),
     (''quarantined_components'', JList (map JStr (quarantined_components r)))]"

definition build_pack_manifest :: "store_env \<Rightarrow> pack_discovery \<Rightarrow> admission_report \<Rightarrow> store_error + pack_manifest" where
  "build_pack_manifest E d r =
     (let home = ve_resolve (st_files E) (pv_source (pd_provenance d))
      in if \<not> pe_present (st_pack E) home then Inl (NoSource home)
         else bind_err (try_map (stage_component E home (quarantined_components r)) (pd_components d)) (\<lambda>cs.
              bind_err (compatibility_aliases E home cs) (\<lambda>aliases.
              bind_err (validate_pack_id (pd_pack_id d)) (\<lambda>pid.
                Inr \<lparr>pm_pack_id = pid, pm_adapter = ''ecc'', pm_version = pv_version (pd_provenance d), pm_installed_at = st_now E,
                  pm_state = ''staged'', pm_provenance = provenance_dict (pd_provenance d), pm_admission = admission_dict r,
                  pm_components = cs, pm_aliases = aliases\<rparr>))))"

section \<open>Dictionaries\<close>

definition staged_to_dict :: "staged_component \<Rightarrow> json" where
  "staged_to_dict c = JObj [(''kind'', JStr (sc_kind c)), (''component_id'', JStr (sc_id c)), (''source_path'', JStr (sc_source c)),
     (''staged_path'', case sc_staged c of None \<Rightarrow> JNull | Some p \<Rightarrow> JStr p), (''sha256'', JStr (sc_sha c)), (''status'', JStr (sc_status c))]"

definition alias_to_dict :: "pack_alias \<Rightarrow> json" where
  "alias_to_dict a = JObj [(''alias'', JStr (al_alias a)), (''target'', JStr (al_target a)), (''kind'', JStr (al_kind a))]"

definition pack_manifest_to_dict :: "pack_manifest \<Rightarrow> json" where
  "pack_manifest_to_dict m = JObj [(''schema_version'', JInt PACK_MANIFEST_SCHEMA_VERSION), (''pack_id'', JStr (pm_pack_id m)),
     (''adapter'', JStr (pm_adapter m)), (''version'', JStr (pm_version m)), (''installed_at'', JStr (pm_installed_at m)),
     (''state'', JStr (pm_state m)), (''provenance'', JObj (pm_provenance m)), (''admission'', JObj (pm_admission m)),
     (''components'', JList (map staged_to_dict (pm_components m))),
     (''compatibility_aliases'', JList (map alias_to_dict (pm_aliases m)))]"

definition has_fields :: "string list \<Rightarrow> (string \<times> json) list \<Rightarrow> bool" where
  "has_fields ks d \<longleftrightarrow> list_all (\<lambda>k. k \<in> set (map fst d)) ks \<and> list_all (\<lambda>(k, v). k \<in> set ks) d"

fun str_field :: "json \<Rightarrow> store_error + string" where
  "str_field (JStr s) = Inr s"
| "str_field _ = Inl BadManifest"

definition optional_field :: "json \<Rightarrow> store_error + string option" where
  "optional_field v = (if v = JNull then Inr None else map_sum id Some (str_field v))"

definition str_fields :: "string list \<Rightarrow> (string \<times> json) list \<Rightarrow> store_error + string list" where
  "str_fields ks d = try_map (\<lambda>k. str_field (jget d k)) ks"

definition staged_of_strings :: "string list \<Rightarrow> string option \<Rightarrow> staged_component" where
  "staged_of_strings vs staged = \<lparr>sc_kind = vs ! 0, sc_id = vs ! 1, sc_source = vs ! 2, sc_staged = staged, sc_sha = vs ! 3, sc_status = vs ! 4\<rparr>"

definition staged_from_dict :: "json \<Rightarrow> store_error + staged_component" where
  "staged_from_dict v = (case v of
     JObj d \<Rightarrow>
       (if \<not> has_fields [''kind'', ''component_id'', ''source_path'', ''staged_path'', ''sha256'', ''status''] d then Inl BadManifest
        else bind_err (str_fields [''kind'', ''component_id'', ''source_path'', ''sha256'', ''status''] d) (\<lambda>vs.
             map_sum id (staged_of_strings vs) (optional_field (jget d ''staged_path''))))
   | _ \<Rightarrow> Inl BadManifest)"

definition alias_from_dict :: "json \<Rightarrow> store_error + pack_alias" where
  "alias_from_dict v = (case v of
     JObj d \<Rightarrow>
       (if \<not> has_fields [''alias'', ''target'', ''kind''] d then Inl BadManifest
        else map_sum id (\<lambda>vs. \<lparr>al_alias = vs ! 0, al_target = vs ! 1, al_kind = vs ! 2\<rparr>)
               (str_fields [''alias'', ''target'', ''kind''] d))
   | _ \<Rightarrow> Inl BadManifest)"

text \<open>What \<^verbatim>\<open>for item in value\<close> runs over; a text or a dictionary gives texts, which \<^verbatim>\<open>**item\<close> refuses.\<close>

definition items_of :: "json \<Rightarrow> store_error + json list" where
  "items_of v = (case v of JList xs \<Rightarrow> Inr xs | JStr s \<Rightarrow> Inr (map (\<lambda>c. JStr [c]) s) | JObj d \<Rightarrow> Inr (map (JStr \<circ> fst) d)
     | _ \<Rightarrow> Inl BadManifest)"

definition dict_field :: "py_builtins \<Rightarrow> (string \<times> json) list \<Rightarrow> string \<Rightarrow> store_error + (string \<times> json) list" where
  "dict_field B d k = (case py_dict B (jor (jget d k) (JObj [])) of Inl e \<Rightarrow> Inl BadManifest | Inr kvs \<Rightarrow> Inr kvs)"

definition schema_supported :: "py_builtins \<Rightarrow> (string \<times> json) list \<Rightarrow> bool" where
  "schema_supported B d \<longleftrightarrow> py_int B (jget_default d ''schema_version'' (JInt 0)) = Inr PACK_MANIFEST_SCHEMA_VERSION"

definition pack_manifest_from_dict :: "py_builtins \<Rightarrow> (string \<times> json) list \<Rightarrow> store_error + pack_manifest" where
  "pack_manifest_from_dict B d =
     (let str_of = (\<lambda>k. py_str B (jor (jget d k) (JStr [])))
      in if \<not> schema_supported B d then Inl BadManifest
         else bind_err (validate_pack_id (str_of ''pack_id'')) (\<lambda>pid.
              bind_err (bind_err (items_of (jget_default d ''components'' (JList []))) (try_map staged_from_dict)) (\<lambda>cs.
              bind_err (bind_err (items_of (jget_default d ''compatibility_aliases'' (JList []))) (try_map alias_from_dict)) (\<lambda>aliases.
              bind_err (dict_field B d ''provenance'') (\<lambda>provenance.
              bind_err (dict_field B d ''admission'') (\<lambda>admission.
                Inr \<lparr>pm_pack_id = pid, pm_adapter = str_of ''adapter'', pm_version = str_of ''version'',
                  pm_installed_at = str_of ''installed_at'', pm_state = str_of ''state'', pm_provenance = provenance,
                  pm_admission = admission, pm_components = cs, pm_aliases = aliases\<rparr>))))))"

section \<open>The store\<close>

type_synonym pack_dir = "(string \<times> string) list"
type_synonym pack_root = "(string \<times> pack_dir) list"

definition MANIFEST_NAME :: string where "MANIFEST_NAME = ''manifest.json''"
definition MANIFEST_HASH_NAME :: string where "MANIFEST_HASH_NAME = ''manifest.sha256''"

text \<open>\<^verbatim>\<open>(root / relative).resolve().relative_to(root)\<close>, by the text of the two paths.\<close>

fun walk_path :: "string list \<Rightarrow> string list \<Rightarrow> string list" where
  "walk_path seen [] = rev seen"
| "walk_path seen (s # ss) = walk_path (if s = ''..'' then tl seen else s # seen) ss"

definition staged_below :: "string \<Rightarrow> string \<Rightarrow> string option" where
  "staged_below home rel =
     (let base = posix_parts home; path = walk_path (if starts_with rel ''/'' then [] else rev base) (posix_parts rel)
      in if take (length base) path = base then Some (join ''/'' (drop (length base) path)) else None)"

definition safe_staged_path :: "string \<Rightarrow> string \<Rightarrow> store_error + string" where
  "safe_staged_path home rel = (case staged_below home rel of None \<Rightarrow> Inl (StagedEscapes rel) | Some p \<Rightarrow> Inr p)"

definition write_file :: "store_env \<Rightarrow> string \<Rightarrow> string \<Rightarrow> pack_dir \<Rightarrow> store_error + pack_dir" where
  "write_file E name body dir = (if st_writes E name then Inr (dict_set name body dir) else Inl (WriteFailed name))"

definition copy_component :: "store_env \<Rightarrow> string \<Rightarrow> staged_component \<Rightarrow> pack_dir \<Rightarrow> store_error + pack_dir" where
  "copy_component E home c dir = (case sc_staged c of
     None \<Rightarrow> Inr dir
   | Some rel \<Rightarrow>
       (let path = resolve_in (st_files E) home (sc_source c)
        in if \<not> pe_present (st_pack E) path then Inl (NoSource (sc_source c))
           else if \<not> path_under home path then Inl (EscapesSource (sc_source c))
           else bind_err (safe_staged_path (st_root E @ ''/'' @ st_temp E) rel) (\<lambda>name. (case st_bytes E path of
               None \<Rightarrow> Inl (Unreadable path)
             | Some body \<Rightarrow> write_file E name body dir))))"

fun copy_components :: "store_env \<Rightarrow> string \<Rightarrow> staged_component list \<Rightarrow> pack_dir \<Rightarrow> store_error + pack_dir" where
  "copy_components E home [] dir = Inr dir"
| "copy_components E home (c # cs) dir = bind_err (copy_component E home c dir) (copy_components E home cs)"

text \<open>\<^verbatim>\<open>manifest.provenance["source_path"]\<close>, resolved.\<close>

definition manifest_source :: "store_env \<Rightarrow> pack_manifest \<Rightarrow> store_error + string" where
  "manifest_source E m =
     (let home = ve_resolve (st_files E) (py_str (st_builtins E) (jget (pm_provenance m) ''source_path''))
      in if pe_present (st_pack E) home then Inr home else Inl (NoSource home))"

definition manifest_bytes :: "store_env \<Rightarrow> pack_manifest \<Rightarrow> string" where
  "manifest_bytes E m = st_dumps E (pack_manifest_to_dict m) @ [NEWLINE]"

text \<open>The contents of the temporary directory before it is moved to its place.\<close>

definition fill_temporary :: "store_env \<Rightarrow> pack_manifest \<Rightarrow> pack_dir \<Rightarrow> store_error + pack_dir" where
  "fill_temporary E m dir =
     bind_err (manifest_source E m) (\<lambda>home.
     bind_err (copy_components E home (pm_components m) dir) (\<lambda>dir1.
     bind_err (write_file E MANIFEST_NAME (manifest_bytes E m) dir1) (\<lambda>dir2.
       write_file E MANIFEST_HASH_NAME (st_sha E (manifest_bytes E m) @ [NEWLINE]) dir2)))"

definition prepare_pack :: "store_env \<Rightarrow> string \<Rightarrow> store_error + pack_manifest" where
  "prepare_pack E source =
     bind_err (discover_ecc_pack E source) (\<lambda>d.
       (case admit_external_pack (st_pack E) (pv_source (pd_provenance d)) (pd_components d) of
          Inl e \<Rightarrow> Inl (Admission e)
        | Inr r \<Rightarrow> build_pack_manifest E d r))"

definition install_ecc :: "store_env \<Rightarrow> string \<Rightarrow> pack_root \<Rightarrow> (store_error + pack_manifest) \<times> pack_root" where
  "install_ecc E source R = (case prepare_pack E source of
     Inl e \<Rightarrow> (Inl e, R)
   | Inr m \<Rightarrow> (case validate_pack_id (pm_pack_id m) of
       Inl e \<Rightarrow> (Inl e, R)
     | Inr name \<Rightarrow>
         if get_doc name R \<noteq> None then (Inl (PackExists (pm_pack_id m)), R)
         else let R1 = dict_set (st_temp E) [] R
              in case fill_temporary E m [] of
                   Inl e \<Rightarrow> (Inl e, dict_del (st_temp E) R1)
                 | Inr dir \<Rightarrow> (Inr m, dict_set name dir (dict_del (st_temp E) R1))))"

definition load_pack :: "store_env \<Rightarrow> pack_root \<Rightarrow> string \<Rightarrow> store_error + pack_manifest" where
  "load_pack E R pid =
     bind_err (validate_pack_id pid) (\<lambda>name. (case get_doc name R of
         None \<Rightarrow> Inl (NoPack pid)
       | Some dir \<Rightarrow> (case get_doc MANIFEST_NAME dir of
           None \<Rightarrow> Inl (NoPack pid)
         | Some body \<Rightarrow> (case pe_loads (st_pack E) body of
             Inr (JObj d) \<Rightarrow> (case pack_manifest_from_dict (st_builtins E) d of Inl e \<Rightarrow> Inl BadManifest | Inr m \<Rightarrow> Inr m)
           | _ \<Rightarrow> Inl BadManifest))))"

definition list_packs :: "store_env \<Rightarrow> pack_root \<Rightarrow> store_error + pack_manifest list" where
  "list_packs E R = try_map (load_pack E R) (filter (\<lambda>n. \<not> starts_with n ''.'') (doc_names R))"

section \<open>Verification\<close>

record pack_verification =
  pk_pack_id :: string
  pk_valid :: bool
  pk_errors :: "string list"
  pk_checked :: nat

definition verify_manifest_checksum :: "store_env \<Rightarrow> pack_dir \<Rightarrow> string list" where
  "verify_manifest_checksum E dir = (case get_doc MANIFEST_NAME dir of
     None \<Rightarrow> [''manifest checksum unavailable: '' @ MANIFEST_NAME]
   | Some payload \<Rightarrow> (case get_doc MANIFEST_HASH_NAME dir of
       None \<Rightarrow> [''manifest checksum unavailable: '' @ MANIFEST_HASH_NAME]
     | Some expected \<Rightarrow> if st_sha E payload = strip expected then [] else [''manifest checksum mismatch'']))"

definition verify_component :: "store_env \<Rightarrow> string \<Rightarrow> pack_dir \<Rightarrow> staged_component \<Rightarrow> store_error + string list" where
  "verify_component E name dir c = (case sc_staged c of
     None \<Rightarrow> Inr []
   | Some rel \<Rightarrow> bind_err (safe_staged_path (st_root E @ ''/'' @ name) rel) (\<lambda>p. Inr (case get_doc p dir of
       None \<Rightarrow> [''missing component: '' @ rel]
     | Some body \<Rightarrow> if st_sha E body \<noteq> sc_sha c then [''hash mismatch: '' @ rel] else [])))"

definition expected_files :: "pack_manifest \<Rightarrow> string list" where
  "expected_files m = [MANIFEST_NAME, MANIFEST_HASH_NAME] @ List.map_filter sc_staged (pm_components m)"

definition unexpected_files :: "pack_manifest \<Rightarrow> pack_dir \<Rightarrow> string list" where
  "unexpected_files m dir = filter (\<lambda>n. n \<notin> set (expected_files m)) (doc_names dir)"

definition verify_pack :: "store_env \<Rightarrow> pack_root \<Rightarrow> string \<Rightarrow> store_error + pack_verification" where
  "verify_pack E R pid =
     bind_err (validate_pack_id pid) (\<lambda>name.
     bind_err (load_pack E R name) (\<lambda>m.
       (let dir = (case get_doc name R of Some d \<Rightarrow> d | None \<Rightarrow> [])
        in bind_err (try_map (verify_component E name dir) (pm_components m)) (\<lambda>errs.
             (let errors = verify_manifest_checksum E dir @ concat errs @ map (append ''unexpected file: '') (unexpected_files m dir)
              in Inr \<lparr>pk_pack_id = name, pk_valid = (errors = []), pk_errors = errors,
                   pk_checked = length (List.map_filter sc_staged (pm_components m))\<rparr>)))))"

definition remove_pack :: "string \<Rightarrow> pack_root \<Rightarrow> (store_error + unit) \<times> pack_root" where
  "remove_pack pid R = (case validate_pack_id pid of
     Inl e \<Rightarrow> (Inl e, R)
   | Inr name \<Rightarrow> if get_doc name R = None then (Inl (NoPack pid), R) else (Inr (), dict_del name R))"


section \<open>JSON with sorted keys\<close>

text \<open>What loading gives back of a document written with \<^verbatim>\<open>sort_keys=True\<close>.\<close>

fun sort_json :: "json \<Rightarrow> json" where
  "sort_json (JObj d) = JObj (sort_key fst (map (\<lambda>(k, v). (k, sort_json v)) d))"
| "sort_json (JList vs) = JList (map sort_json vs)"
| "sort_json v = v"

definition sort_obj :: "(string \<times> json) list \<Rightarrow> (string \<times> json) list" where
  "sort_obj d = sort_key fst (map (\<lambda>(k, v). (k, sort_json v)) d)"

lemma sort_json_obj: "sort_json (JObj d) = JObj (sort_obj d)"
  by (simp add: sort_obj_def)

declare sort_json.simps(1) [simp del]

lemma sort_obj_Nil [simp]: "sort_obj [] = []" "sort_obj d = [] \<longleftrightarrow> d = []"
  by (auto simp: sort_obj_def dest: arg_cong [where f = length])

lemma map_fst_snd_map: "map fst (map (\<lambda>(k, v). (k, f v)) d) = map fst d"
  by (induction d) auto

lemma keys_sort_obj [simp]: "fst ` set (sort_obj d) = fst ` set d"
  by (force simp: sort_obj_def)

lemma map_of_sort_obj:
  assumes "distinct (map fst d)"
  shows "map_of (sort_obj d) k = map_option sort_json (map_of d k)"
proof -
  let ?e = "map (\<lambda>(k, v). (k, sort_json v)) d"
  have e: "distinct (map fst ?e)" using assms by (simp only: map_fst_snd_map)
  have "distinct (map fst (sort_key fst ?e))"
    using e by (simp add: distinct_map del: map_map)
  then have "map_of (sort_key fst ?e) = map_of ?e"
    using map_of_inject_set [OF _ e] by simp
  then show ?thesis by (simp add: sort_obj_def map_of_map)
qed

lemma jget_sort_obj: "distinct (map fst d) \<Longrightarrow> jget (sort_obj d) k = sort_json (jget d k)"
  by (simp add: jget_def map_of_sort_obj split: option.split)

lemma jget_default_sort_obj:
  "distinct (map fst d) \<Longrightarrow> sort_json v = v \<Longrightarrow> jget_default (sort_obj d) k v = sort_json (jget_default d k v)"
  by (simp add: jget_default_def map_of_sort_obj split: option.split)

lemma has_fields_sort_obj [simp]: "has_fields ks (sort_obj d) = has_fields ks d"
proof -
  have "list_all (\<lambda>(k, v). k \<in> set ks) e \<longleftrightarrow> fst ` set e \<subseteq> set ks" for e :: "(string \<times> json) list"
    by (induction e) auto
  then show ?thesis by (simp add: has_fields_def)
qed

section \<open>A manifest that was written is read back\<close>

lemma lower_alnum_plain: "lower_alnum c \<Longrightarrow> lower_char c = c \<and> \<not> is_space c"
  by (auto simp: lower_alnum_def is_digit_def is_alpha_def is_space_def lower_char_def Let_def)

lemma pack_id_plain:
  assumes "pack_id_ok s"
  shows "\<forall>c \<in> set s. lower_char c = c \<and> \<not> is_space c"
proof
  have mark: "lower_char d = d \<and> \<not> is_space d" if "d \<in> set ''._-''" for d
    using that by (auto simp: lower_char_def is_space_def)
  fix c assume "c \<in> set s"
  then have "lower_alnum c \<or> c \<in> set ''._-''" using assms by (cases s) (auto simp: pack_id_ok_def list_all_iff)
  then show "lower_char c = c \<and> \<not> is_space c" using mark lower_alnum_plain by blast
qed

lemma strip_plain: "\<forall>c \<in> set s. \<not> is_space c \<Longrightarrow> strip s = s"
proof -
  assume plain: "\<forall>c \<in> set s. \<not> is_space c"
  have "dropWhile is_space t = t" if "set t \<subseteq> set s" for t
    using that plain by (cases t) auto
  then show ?thesis by (simp add: strip_def)
qed

lemma validate_ok_id [simp]:
  assumes "pack_id_ok s" shows "validate_pack_id s = Inr s"
proof -
  have plain: "\<forall>c \<in> set s. lower_char c = c \<and> \<not> is_space c" by (rule pack_id_plain [OF assms])
  have "strip s = s" using plain strip_plain by blast
  moreover have "lower s = s" using plain by (simp add: lower_def map_idI)
  ultimately show ?thesis using assms by (simp add: validate_pack_id_def)
qed

lemma validated_id: "validate_pack_id s = Inr name \<Longrightarrow> pack_id_ok name"
  by (auto simp: validate_pack_id_def Let_def split: if_splits)

lemma staged_roundtrip: "staged_from_dict (sort_json (staged_to_dict c)) = Inr c"
  unfolding staged_to_dict_def sort_json_obj staged_from_dict_def
  by (cases c, simp add: str_fields_def jget_sort_obj)
    (simp add: has_fields_def jget_def optional_field_def staged_of_strings_def split: option.split)

lemma alias_roundtrip: "alias_from_dict (sort_json (alias_to_dict a)) = Inr a"
  unfolding alias_to_dict_def sort_json_obj alias_from_dict_def
  by (cases a, simp add: str_fields_def jget_sort_obj) (simp add: has_fields_def jget_def)

lemma try_map_roundtrip: "(\<And>x. f (g x) = Inr x) \<Longrightarrow> try_map f (map g xs) = Inr xs"
  by (induction xs) auto

lemma pack_manifest_roundtrip:
  assumes B: "py_builtins_ok B" and "pack_id_ok (pm_pack_id m)" "sort_json (pack_manifest_to_dict m) = JObj d"
  shows "pack_manifest_from_dict B d =
    Inr (m\<lparr>pm_provenance := sort_obj (pm_provenance m), pm_admission := sort_obj (pm_admission m)\<rparr>)"
proof -
  obtain D where D: "pack_manifest_to_dict m = JObj D" "distinct (map fst D)" by (simp add: pack_manifest_to_dict_def)
  have d: "d = sort_obj D" using assms(3) D(1) by (simp add: sort_json_obj)
  have g: "jget d k = sort_json (jget D k)" for k using D(2) d by (simp add: jget_sort_obj)
  have gd: "jget_default d k v = sort_json (jget_default D k v)" if "sort_json v = v" for k v
    using D(2) d that by (simp add: jget_default_sort_obj)
  have D_eq: "D = [(''schema_version'', JInt PACK_MANIFEST_SCHEMA_VERSION), (''pack_id'', JStr (pm_pack_id m)),
     (''adapter'', JStr (pm_adapter m)), (''version'', JStr (pm_version m)), (''installed_at'', JStr (pm_installed_at m)),
     (''state'', JStr (pm_state m)), (''provenance'', JObj (pm_provenance m)), (''admission'', JObj (pm_admission m)),
     (''components'', JList (map staged_to_dict (pm_components m))),
     (''compatibility_aliases'', JList (map alias_to_dict (pm_aliases m)))]"
    using D(1) by (simp add: pack_manifest_to_dict_def)
  have fields: "jget d ''pack_id'' = JStr (pm_pack_id m)" "jget d ''adapter'' = JStr (pm_adapter m)"
    "jget d ''version'' = JStr (pm_version m)" "jget d ''installed_at'' = JStr (pm_installed_at m)"
    "jget d ''state'' = JStr (pm_state m)" "jget d ''provenance'' = JObj (sort_obj (pm_provenance m))"
    "jget d ''admission'' = JObj (sort_obj (pm_admission m))"
    by (simp_all add: g sort_json_obj [symmetric]) (simp_all add: D_eq jget_def)
  have lists: "jget_default d ''components'' (JList []) = JList (map (sort_json \<circ> staged_to_dict) (pm_components m))"
    "jget_default d ''compatibility_aliases'' (JList []) = JList (map (sort_json \<circ> alias_to_dict) (pm_aliases m))"
    by (simp_all add: gd) (simp_all add: D_eq jget_default_def)
  have schema: "schema_supported B d"
    using B by (simp add: schema_supported_def gd) (simp add: D_eq jget_default_def)
  have str: "py_str B (jor (JStr s) (JStr [])) = s" for s using B by (simp add: jor_def)
  have dict: "py_dict B (jor (JObj kvs) (JObj [])) = Inr kvs" for kvs using B by (simp add: jor_def)
  have cs: "try_map staged_from_dict (map (sort_json \<circ> staged_to_dict) (pm_components m)) = Inr (pm_components m)"
    by (rule try_map_roundtrip) (simp add: staged_roundtrip)
  have als: "try_map alias_from_dict (map (sort_json \<circ> alias_to_dict) (pm_aliases m)) = Inr (pm_aliases m)"
    by (rule try_map_roundtrip) (simp add: alias_roundtrip)
  show ?thesis
    using assms(2) by (simp add: pack_manifest_from_dict_def schema fields lists str dict_field_def dict items_of_def cs als)
qed


section \<open>Names below a pack\<close>

text \<open>A relative name in normal form.\<close>

definition plain_rel :: "string \<Rightarrow> bool" where
  "plain_rel p \<longleftrightarrow> p \<noteq> [] \<and> join ''/'' (posix_parts p) = p \<and> ''..'' \<notin> set (posix_parts p)"

lemma walk_path_plain: "''..'' \<notin> set ss \<Longrightarrow> walk_path seen ss = rev seen @ ss"
  by (induction ss arbitrary: seen) auto

lemma posix_parts_content: "posix_parts (''content/'' @ p) = ''content'' # posix_parts p"
  by (simp add: posix_parts_def split_on_def)

lemma staged_below_content:
  assumes "plain_rel p"
  shows "staged_below home (''content/'' @ p) = Some (''content/'' @ p)"
proof -
  have walk: "walk_path (rev (posix_parts home)) (''content'' # posix_parts p) = posix_parts home @ ''content'' # posix_parts p"
    using assms by (subst walk_path_plain) (auto simp: plain_rel_def)
  obtain x xs where x: "posix_parts p = x # xs"
    using assms by (cases "posix_parts p") (auto simp: plain_rel_def)
  have joined: "join ''/'' (''content'' # posix_parts p) = ''content/'' @ p"
    using assms x by (simp add: plain_rel_def)
  show ?thesis
    unfolding staged_below_def posix_parts_content Let_def using walk joined by simp
qed

text \<open>What the store relies on: the hex digest has no white space, the name of a resolved file below a
  resolved directory is in normal form, and a temporary directory starts with a dot.\<close>

definition store_laws :: "store_env \<Rightarrow> bool" where
  "store_laws E \<longleftrightarrow> (\<forall>s. \<forall>c \<in> set (st_sha E s). \<not> is_space c) \<and>
     (\<forall>h p. ve_is_dir (st_files E) (ve_resolve (st_files E) h) \<and> ve_is_file (st_files E) p \<and>
        path_under (ve_resolve (st_files E) h) (ve_resolve (st_files E) p) \<longrightarrow>
        plain_rel (path_below (ve_resolve (st_files E) h) (ve_resolve (st_files E) p))) \<and>
     starts_with (st_temp E) ''.''"

section \<open>What discovery and staging give\<close>

lemma try_map_Inr_set:
  "try_map f xs = Inr ys \<Longrightarrow> (\<forall>y \<in> set ys. \<exists>x \<in> set xs. f x = Inr y) \<and> (\<forall>x \<in> set xs. \<exists>y \<in> set ys. f x = Inr y) \<and> length ys = length xs"
  by (induction xs arbitrary: ys) (auto split: sum.splits)

lemma map_sum_Inr: "map_sum id f x = Inr y \<longleftrightarrow> (\<exists>z. x = Inr z \<and> y = f z)"
  by (cases x) auto

lemma safe_files_plain:
  assumes "safe_files E home g = Inr ps" "store_laws E" "home = ve_resolve (st_files E) h" "ve_is_dir (st_files E) home"
  shows "\<forall>path \<in> set ps. plain_rel (path_below home path)"
proof -
  obtain found where f: "try_map (safe_file E home) (filter (ve_is_file (st_files E)) (st_glob E home g)) = Inr found"
    and p: "set ps = set found"
    using assms(1) by (auto simp: safe_files_def map_sum_Inr)
  have "plain_rel (path_below home path)" if path: "path \<in> set found" for path
  proof -
    obtain c where c: "ve_is_file (st_files E) c" "safe_file E home c = Inr path"
      using try_map_Inr_set [OF f] path by fastforce
    then have "path = ve_resolve (st_files E) c" "path_under home path" by (auto simp: safe_file_def Let_def split: if_splits)
    then show ?thesis using assms(2-4) c(1) unfolding store_laws_def by blast
  qed
  then show ?thesis using p by blast
qed

lemma discovered_plain:
  assumes "discover_ecc_pack E source = Inr d" "store_laws E"
  shows "\<forall>c \<in> set (pd_components d). plain_rel (pt_path c)"
proof -
  obtain home package css where h: "resolve_source E source = Inr home"
    and css: "try_map (layout_components E home) ECC_LAYOUT = Inr css" and d: "set (pd_components d) = set (concat css)"
    using assms(1) by (auto simp: discover_ecc_pack_def bind_err_def Let_def sort_components_def split: sum.splits)
  have home: "home = ve_resolve (st_files E) (st_expand E source)" "ve_is_dir (st_files E) home"
    using h by (auto simp: resolve_source_def Let_def split: if_splits)
  have "\<forall>c \<in> set cs. plain_rel (pt_path c)" if one: "layout_components E home l = Inr cs" for l cs
  proof -
    obtain kind g ps where "safe_files E home g = Inr ps" "cs = map (\<lambda>path. \<lparr>pt_kind = kind, pt_id = component_id_of kind path, pt_path = path_below home path\<rparr>) ps"
      using one by (cases l) (auto simp: layout_components_def map_sum_Inr)
    then show ?thesis using safe_files_plain assms(2) home by auto
  qed
  then show ?thesis using try_map_Inr_set [OF css] d by fastforce
qed

text \<open>A component is staged below \<open>content\<close> unless its path is quarantined, with the hash of what is there.\<close>

definition staged_from :: "store_env \<Rightarrow> string \<Rightarrow> string list \<Rightarrow> pack_component \<Rightarrow> staged_component \<Rightarrow> bool" where
  "staged_from E home quarantined c s \<longleftrightarrow> sc_source s = pt_path c \<and>
     (if pt_path c \<in> set quarantined then sc_staged s = None else sc_staged s = Some (''content/'' @ pt_path c)) \<and>
     (\<exists>body. st_bytes E (resolve_in (st_files E) home (pt_path c)) = Some body \<and> sc_sha s = st_sha E body)"

lemma stage_component_ok: "stage_component E home q c = Inr s \<Longrightarrow> staged_from E home q c s"
  by (auto simp: stage_component_def bind_err_def safe_source_path_def staged_from_def Let_def split: sum.splits option.splits if_splits)

lemma build_ok:
  assumes "build_pack_manifest E d r = Inr m"
  shows "pack_id_ok (pm_pack_id m)" "pm_provenance m = provenance_dict (pd_provenance d)"
    and "\<forall>s \<in> set (pm_components m). \<exists>c \<in> set (pd_components d).
      staged_from E (ve_resolve (st_files E) (pv_source (pd_provenance d))) (quarantined_components r) c s"
proof -
  obtain cs where cs: "try_map (stage_component E (ve_resolve (st_files E) (pv_source (pd_provenance d))) (quarantined_components r))
      (pd_components d) = Inr cs" and m: "pm_components m = cs" "validate_pack_id (pd_pack_id d) = Inr (pm_pack_id m)"
    "pm_provenance m = provenance_dict (pd_provenance d)"
    using assms by (auto simp: build_pack_manifest_def bind_err_def Let_def split: sum.splits if_splits)
  show "pack_id_ok (pm_pack_id m)" using m(2) by (rule validated_id)
  show "pm_provenance m = provenance_dict (pd_provenance d)" by (rule m(3))
  show "\<forall>s \<in> set (pm_components m). \<exists>c \<in> set (pd_components d).
      staged_from E (ve_resolve (st_files E) (pv_source (pd_provenance d))) (quarantined_components r) c s"
    using try_map_Inr_set [OF cs] stage_component_ok m(1) by fast
qed

section \<open>Copying\<close>

definition content_named :: "staged_component \<Rightarrow> bool" where
  "content_named s \<longleftrightarrow> (\<forall>rel. sc_staged s = Some rel \<longrightarrow> rel = ''content/'' @ sc_source s \<and> plain_rel (sc_source s))"

definition staged_names :: "staged_component list \<Rightarrow> string list" where
  "staged_names cs = List.map_filter sc_staged cs"

lemma staged_names_simps [simp]:
  "staged_names [] = []"
  "staged_names (c # cs) = (case sc_staged c of None \<Rightarrow> staged_names cs | Some rel \<Rightarrow> rel # staged_names cs)"
  by (simp_all add: staged_names_def List.map_filter_simps split: option.split)

text \<open>The copy of a name below \<open>content\<close> holds what the source file holds.\<close>

definition source_bytes :: "store_env \<Rightarrow> string \<Rightarrow> string \<Rightarrow> string option" where
  "source_bytes E home name = st_bytes E (resolve_in (st_files E) home (drop (length ''content/'') name))"

lemma copy_component_get:
  assumes "copy_component E home c dir = Inr dir'" "content_named c"
  shows "get_doc n dir' = (if sc_staged c = Some n then source_bytes E home n else get_doc n dir)"
    and "sc_staged c = Some n \<Longrightarrow> source_bytes E home n \<noteq> None"
proof -
  have "\<exists>body. source_bytes E home rel = Some body \<and> dir' = dict_set rel body dir" if rel: "sc_staged c = Some rel" for rel
  proof -
    have name: "rel = ''content/'' @ sc_source c" "safe_staged_path (st_root E @ ''/'' @ st_temp E) rel = Inr rel"
      using assms(2) rel staged_below_content by (auto simp: content_named_def safe_staged_path_def)
    then show ?thesis using assms(1) rel
      by (auto simp: copy_component_def write_file_def source_bytes_def Let_def split: if_splits option.splits)
  qed
  then show "get_doc n dir' = (if sc_staged c = Some n then source_bytes E home n else get_doc n dir)"
    "sc_staged c = Some n \<Longrightarrow> source_bytes E home n \<noteq> None"
    using assms(1) by (cases "sc_staged c"; auto simp: dir.get_put copy_component_def)+
qed

lemma copy_components_get:
  "copy_components E home cs dir = Inr dir' \<Longrightarrow> list_all content_named cs \<Longrightarrow>
     get_doc n dir' = (if n \<in> set (staged_names cs) then source_bytes E home n else get_doc n dir) \<and>
     (n \<in> set (staged_names cs) \<longrightarrow> source_bytes E home n \<noteq> None)"
proof (induction cs arbitrary: dir)
  case (Cons c cs)
  obtain dir1 where one: "copy_component E home c dir = Inr dir1" and rest: "copy_components E home cs dir1 = Inr dir'"
    using Cons.prems(1) by (auto simp: bind_err_def split: sum.splits)
  show ?case
    using copy_component_get [OF one, of n] Cons.IH [OF rest] Cons.prems(2) by (auto split: option.splits)
qed simp

lemma manifest_names_differ [simp]: "MANIFEST_NAME \<noteq> MANIFEST_HASH_NAME" "MANIFEST_HASH_NAME \<noteq> MANIFEST_NAME"
  by (simp_all add: MANIFEST_NAME_def MANIFEST_HASH_NAME_def)

text \<open>What a filled directory holds under a name.\<close>

definition installed_file :: "store_env \<Rightarrow> pack_manifest \<Rightarrow> string \<Rightarrow> string \<Rightarrow> string option" where
  "installed_file E m home n =
     (if n = MANIFEST_HASH_NAME then Some (st_sha E (manifest_bytes E m) @ [NEWLINE])
      else if n = MANIFEST_NAME then Some (manifest_bytes E m)
      else if n \<in> set (staged_names (pm_components m)) then source_bytes E home n else None)"

lemma fill_temporary_get:
  assumes "fill_temporary E m [] = Inr dir" "list_all content_named (pm_components m)"
  shows "\<exists>home. manifest_source E m = Inr home \<and> (\<forall>n. get_doc n dir = installed_file E m home n)"
proof -
  obtain home dir1 where home: "manifest_source E m = Inr home" and copy: "copy_components E home (pm_components m) [] = Inr dir1"
    and dir: "dir = dict_set MANIFEST_HASH_NAME (st_sha E (manifest_bytes E m) @ [NEWLINE]) (dict_set MANIFEST_NAME (manifest_bytes E m) dir1)"
    using assms(1) by (auto simp: fill_temporary_def bind_err_def write_file_def split: sum.splits if_splits)
  have empty: "get_doc n [] = None" for n :: string and e :: "(string \<times> string) list" by (simp add: get_doc_def dict_get_def)
  show ?thesis
    using home copy_components_get [OF copy assms(2)] by (simp add: dir dir.get_put empty installed_file_def)
qed


section \<open>What an installation leaves\<close>

lemma install_inv:
  assumes "install_ecc E source R = (Inr m, R')"
  obtains dir where "prepare_pack E source = Inr m" "get_doc (pm_pack_id m) R = None" "fill_temporary E m [] = Inr dir"
    "R' = dict_set (pm_pack_id m) dir (dict_del (st_temp E) (dict_set (st_temp E) [] R))" "pack_id_ok (pm_pack_id m)"
proof -
  have prepared: "prepare_pack E source = Inr m"
    using assms by (auto simp: install_ecc_def Let_def split: sum.splits if_splits)
  then have "pack_id_ok (pm_pack_id m)"
    using build_ok(1) by (auto simp: prepare_pack_def bind_err_def split: sum.splits)
  then show ?thesis using assms prepared that by (auto simp: install_ecc_def Let_def split: sum.splits if_splits)
qed

lemma prepare_inv:
  assumes "prepare_pack E source = Inr m"
  obtains d r where "discover_ecc_pack E source = Inr d" "build_pack_manifest E d r = Inr m"
    "admit_external_pack (st_pack E) (pv_source (pd_provenance d)) (pd_components d) = Inr r"
  using assms that by (auto simp: prepare_pack_def bind_err_def split: sum.splits)

lemma prepared_named:
  assumes "prepare_pack E source = Inr m" "store_laws E"
  shows "list_all content_named (pm_components m)"
proof -
  obtain d r where d: "discover_ecc_pack E source = Inr d" and b: "build_pack_manifest E d r = Inr m"
    using assms(1) by (rule prepare_inv)
  have "content_named s" if "staged_from E h q c s" "c \<in> set (pd_components d)" for h q c s
    using that discovered_plain [OF d assms(2)] by (auto simp: staged_from_def content_named_def split: if_splits)
  then show ?thesis using build_ok(3) [OF b] by (fastforce simp: list_all_iff)
qed

lemma pack_id_no_dot: "pack_id_ok s \<Longrightarrow> \<not> starts_with s ''.''"
  by (cases s) (auto simp: pack_id_ok_def lower_alnum_def is_digit_def is_alpha_def Let_def)

lemma temp_is_no_pack: "pack_id_ok s \<Longrightarrow> store_laws E \<Longrightarrow> s \<noteq> st_temp E"
  using pack_id_no_dot by (auto simp: store_laws_def)

lemma prepared_source:
  assumes "prepare_pack E source = Inr m" "py_builtins_ok (st_builtins E)" "manifest_source E m = Inr home"
  shows "\<forall>s \<in> set (pm_components m). \<exists>q c. staged_from E home q c s"
proof -
  obtain d r where d: "discover_ecc_pack E source = Inr d" and b: "build_pack_manifest E d r = Inr m"
    using assms(1) by (rule prepare_inv)
  have "jget (pm_provenance m) ''source_path'' = JStr (pv_source (pd_provenance d))"
    by (simp add: build_ok(2) [OF b] provenance_dict_def jget_def)
  then have "home = ve_resolve (st_files E) (pv_source (pd_provenance d))"
    using assms(2,3) by (auto simp: manifest_source_def Let_def split: if_splits)
  then show ?thesis using build_ok(3) [OF b] by blast
qed

lemma staged_names_iff: "n \<in> set (staged_names cs) \<longleftrightarrow> (\<exists>s \<in> set cs. sc_staged s = Some n)"
  by (induction cs) (auto split: option.split)

lemma content_name_not_manifest: "n = ''content/'' @ p \<Longrightarrow> n \<noteq> MANIFEST_NAME \<and> n \<noteq> MANIFEST_HASH_NAME"
  by (auto simp: MANIFEST_NAME_def MANIFEST_HASH_NAME_def)

lemma strip_digest: "\<forall>c \<in> set s. \<not> is_space c \<Longrightarrow> strip (s @ [NEWLINE]) = s"
proof -
  assume plain: "\<forall>c \<in> set s. \<not> is_space c"
  have "dropWhile is_space t = t" if "set t \<subseteq> set s" for t using that plain by (cases t) auto
  moreover have "is_space NEWLINE" by (simp add: is_space_def NEWLINE_def)
  moreover have "dropWhile is_space (s @ [NEWLINE]) = (if s = [] then [] else s @ [NEWLINE])"
    using plain calculation(2) by (cases s) auto
  ultimately show ?thesis by (simp add: strip_def)
qed

text \<open>Each staged component of the manifest is in the directory with the hash the manifest has.\<close>

lemma verify_installed_component:
  assumes fill: "fill_temporary E m [] = Inr dir" and named: "list_all content_named (pm_components m)"
    and prep: "prepare_pack E source = Inr m" and B: "py_builtins_ok (st_builtins E)" and s: "s \<in> set (pm_components m)"
  shows "verify_component E name dir s = Inr []"
proof (cases "sc_staged s")
  case (Some rel)
  obtain home where home: "manifest_source E m = Inr home"
    and get: "\<forall>n. get_doc n dir = installed_file E m home n"
    using fill_temporary_get [OF fill named] by blast
  have rel: "rel = ''content/'' @ sc_source s" "plain_rel (sc_source s)"
    using named s Some by (auto simp: list_all_iff content_named_def)
  have in_names: "rel \<in> set (staged_names (pm_components m))" using s Some by (auto simp: staged_names_iff)
  obtain body where body: "st_bytes E (resolve_in (st_files E) home (sc_source s)) = Some body" "sc_sha s = st_sha E body"
    using prepared_source [OF prep B home] s by (auto simp: staged_from_def)
  have "source_bytes E home rel = Some body" using body(1) by (simp add: source_bytes_def rel(1))
  then have "get_doc rel dir = Some body"
    using in_names content_name_not_manifest [OF rel(1)] by (simp add: get installed_file_def)
  then show ?thesis using Some body(2) staged_below_content [OF rel(2)]
    by (simp add: verify_component_def safe_staged_path_def rel(1))
qed (simp add: verify_component_def)

lemma try_map_const: "(\<And>x. x \<in> set xs \<Longrightarrow> f x = Inr y) \<Longrightarrow> try_map f xs = Inr (map (\<lambda>_. y) xs)"
  by (induction xs) auto

lemma unexpected_none:
  assumes "\<And>n. get_doc n dir \<noteq> None \<Longrightarrow> n \<in> set (expected_files m)"
  shows "unexpected_files m dir = []"
  using assms dir.names_iff by (fastforce simp: unexpected_files_def filter_empty_conv)

lemma try_map_cong: "(\<And>x. x \<in> set xs \<Longrightarrow> f x = g x) \<Longrightarrow> try_map f xs = try_map g xs"
  by (induction xs) (auto split: sum.split)

lemma install_then_load:
  assumes inst: "install_ecc E source R = (Inr m, R')" and laws: "store_laws E" "py_builtins_ok (st_builtins E)"
    and json: "pe_loads (st_pack E) (manifest_bytes E m) = Inr (sort_json (pack_manifest_to_dict m))"
  shows "load_pack E R' (pm_pack_id m) =
    Inr (m\<lparr>pm_provenance := sort_obj (pm_provenance m), pm_admission := sort_obj (pm_admission m)\<rparr>)"
proof -
  obtain dir where prep: "prepare_pack E source = Inr m" and fill: "fill_temporary E m [] = Inr dir"
    and R': "R' = dict_set (pm_pack_id m) dir (dict_del (st_temp E) (dict_set (st_temp E) [] R))" and ok: "pack_id_ok (pm_pack_id m)"
    using inst by (rule install_inv)
  have doc: "get_doc (pm_pack_id m) R' = Some dir" by (simp add: R' dir.get_put)
  have man: "get_doc MANIFEST_NAME dir = Some (manifest_bytes E m)"
    using fill_temporary_get [OF fill prepared_named [OF prep laws(1)]] by (auto simp: installed_file_def)
  obtain D where D: "sort_json (pack_manifest_to_dict m) = JObj D" by (simp add: pack_manifest_to_dict_def sort_json_obj)
  show ?thesis
    using pack_manifest_roundtrip [OF laws(2) ok D] by (simp add: load_pack_def ok doc man json D)
qed

lemma install_then_verify:
  assumes inst: "install_ecc E source R = (Inr m, R')" and laws: "store_laws E" "py_builtins_ok (st_builtins E)"
    and json: "pe_loads (st_pack E) (manifest_bytes E m) = Inr (sort_json (pack_manifest_to_dict m))"
  shows "verify_pack E R' (pm_pack_id m) = Inr \<lparr>pk_pack_id = pm_pack_id m, pk_valid = True, pk_errors = [],
    pk_checked = length (staged_names (pm_components m))\<rparr>"
proof -
  obtain dir where prep: "prepare_pack E source = Inr m" and fill: "fill_temporary E m [] = Inr dir"
    and R': "R' = dict_set (pm_pack_id m) dir (dict_del (st_temp E) (dict_set (st_temp E) [] R))" and ok: "pack_id_ok (pm_pack_id m)"
    using inst by (rule install_inv)
  note named = prepared_named [OF prep laws(1)]
  have doc: "get_doc (pm_pack_id m) R' = Some dir" by (simp add: R' dir.get_put)
  obtain home where get: "\<forall>n. get_doc n dir = installed_file E m home n"
    using fill_temporary_get [OF fill named] by blast
  have "verify_manifest_checksum E dir = []"
    using laws(1) strip_digest by (simp add: verify_manifest_checksum_def get installed_file_def store_laws_def)
  moreover have "unexpected_files m dir = []"
    using get by (intro unexpected_none) (auto simp: expected_files_def staged_names_def installed_file_def split: if_splits)
  moreover have "try_map (verify_component E (pm_pack_id m) dir) (pm_components m) = Inr (map (\<lambda>_. []) (pm_components m))"
    using verify_installed_component [OF fill named prep laws(2)] by (rule try_map_const)
  moreover have "concat (map (\<lambda>_. []) (pm_components m)) = []" by (induction "pm_components m") auto
  ultimately show ?thesis
    by (simp add: verify_pack_def ok install_then_load [OF inst laws json] doc unexpected_files_def expected_files_def staged_names_def)
qed

text \<open>A failed installation leaves the store as it was: the temporary directory goes.\<close>

lemma del_set_fresh: "map_of R k = None \<Longrightarrow> dict_del k (dict_set k v R) = R"
  by (induction k v R rule: dict_set.induct) (auto simp: dict_del_def filter_id_conv split: if_splits)

lemma failed_install_keeps:
  assumes "install_ecc E source R = (Inl e, R')" "get_doc (st_temp E) R = None"
  shows "R' = R"
  using assms by (auto simp: install_ecc_def get_doc_def dict_get_def Let_def del_set_fresh split: sum.splits if_splits)


text \<open>What is staged is what admission let through, unchanged.\<close>

definition admitted_copy :: "store_env \<Rightarrow> pack_discovery \<Rightarrow> admission_report \<Rightarrow> string \<Rightarrow> string \<Rightarrow> bool" where
  "admitted_copy E d r name body \<longleftrightarrow> (\<exists>c \<in> set (pd_components d). name = ''content/'' @ pt_path c \<and>
     pt_path c \<notin> set (quarantined_components r) \<and>
     st_bytes E (resolve_in (st_files E) (ve_resolve (st_files E) (pv_source (pd_provenance d))) (pt_path c)) = Some body \<and>
     (length (ar_findings r) < MAX_FINDINGS \<longrightarrow>
        component_clean (st_pack E) (ve_resolve (st_files E) (pv_source (pd_provenance d))) c))"

lemma installed_is_admitted:
  assumes inst: "install_ecc E source R = (Inr m, R')" and laws: "store_laws E" "py_builtins_ok (st_builtins E)"
  shows "\<exists>dir d r. get_doc (pm_pack_id m) R' = Some dir \<and> discover_ecc_pack E source = Inr d \<and>
    admit_external_pack (st_pack E) (pv_source (pd_provenance d)) (pd_components d) = Inr r \<and>
    (\<forall>name body. get_doc name dir = Some body \<longrightarrow> name \<in> {MANIFEST_NAME, MANIFEST_HASH_NAME} \<or> admitted_copy E d r name body)"
proof -
  obtain dir where prep: "prepare_pack E source = Inr m" and fill: "fill_temporary E m [] = Inr dir"
    and R': "R' = dict_set (pm_pack_id m) dir (dict_del (st_temp E) (dict_set (st_temp E) [] R))"
    using inst by (rule install_inv)
  obtain d r where d: "discover_ecc_pack E source = Inr d" and b: "build_pack_manifest E d r = Inr m"
    and a: "admit_external_pack (st_pack E) (pv_source (pd_provenance d)) (pd_components d) = Inr r"
    using prep by (rule prepare_inv)
  let ?home = "ve_resolve (st_files E) (pv_source (pd_provenance d))"
  obtain home where home: "manifest_source E m = Inr home"
    and get: "\<forall>n. get_doc n dir = installed_file E m home n"
    using fill_temporary_get [OF fill prepared_named [OF prep laws(1)]] by blast
  have "jget (pm_provenance m) ''source_path'' = JStr (pv_source (pd_provenance d))"
    by (simp add: build_ok(2) [OF b] provenance_dict_def jget_def)
  then have same: "home = ?home" using home laws(2) by (auto simp: manifest_source_def Let_def split: if_splits)
  have "admitted_copy E d r name body"
    if doc: "get_doc name dir = Some body" and other: "name \<notin> {MANIFEST_NAME, MANIFEST_HASH_NAME}" for name body
  proof -
    have staged: "name \<in> set (staged_names (pm_components m))" and bytes: "source_bytes E ?home name = Some body"
      using doc other get same by (auto simp: installed_file_def split: if_splits)
    obtain s where s: "s \<in> set (pm_components m)" "sc_staged s = Some name"
      using staged unfolding staged_names_iff by blast
    obtain c where c: "c \<in> set (pd_components d)" and from_c: "staged_from E ?home (quarantined_components r) c s"
      using bspec [OF build_ok(3) [OF b] s(1)] by blast
    have name: "name = ''content/'' @ pt_path c" "pt_path c \<notin> set (quarantined_components r)"
      using s(2) from_c by (auto simp: staged_from_def split: if_splits)
    have "length (ar_findings r) < MAX_FINDINGS \<longrightarrow> component_clean (st_pack E) ?home c"
      using admission_sound(2) [OF a] c name(2) by blast
    moreover have "st_bytes E (resolve_in (st_files E) ?home (pt_path c)) = Some body"
      using bytes by (simp add: source_bytes_def name(1))
    ultimately show ?thesis using c name unfolding admitted_copy_def by blast
  qed
  then show ?thesis using R' d a by (intro exI [of _ dir] exI [of _ d] exI [of _ r]) (auto simp: dir.get_put)
qed

text \<open>Installing under another name leaves a pack alone, and so does removing it.\<close>

lemma install_frame:
  assumes "install_ecc E source R = (Inr m, R')" "n \<noteq> pm_pack_id m" "n \<noteq> st_temp E"
  shows "get_doc n R' = get_doc n R"
  using assms install_inv [OF assms(1)] by (metis dir.get_put dir.get_del)

lemma remove_installed:
  assumes "install_ecc E source R = (Inr m, R')" "store_laws E"
  shows "\<exists>R''. remove_pack (pm_pack_id m) R' = (Inr (), R'') \<and> get_doc (pm_pack_id m) R'' = None"
proof -
  obtain dir where "pack_id_ok (pm_pack_id m)" "get_doc (pm_pack_id m) R' = Some dir"
    using install_inv [OF assms(1)] by (metis dir.get_put)
  then show ?thesis by (simp add: remove_pack_def dir.get_del)
qed

end
