(* ===== verification/Demo_Eval.thy ===== *)
theory Demo_Eval
  imports Demo_World Evidence Hooks Pack_Store
begin

text \<open>
  A finished run for the properties of the evaluation: the executor changed \<open>a.py\<close> in the world of
  \<open>Demo_World\<close>, one baseline command still passes, and a gateway whose answer grades every dimension.
\<close>

definition demo_scan :: scan_env where
  "demo_scan = \<lparr>sv_verify = demo_world\<lparr>ve_run := (\<lambda>_ _ _. Exited 0 [] [])\<rparr>, sv_size = (\<lambda>_. Some 10), sv_utf8 = (\<lambda>_. True),
     sv_bad_netloc = (\<lambda>_. False)\<rparr>"

definition demo_grades :: json where
  "demo_grades = JObj [(''verdict'', JStr ''pass''), (''summary'', JStr ''fine''), (''dimensions'', JList
     (map (\<lambda>d. JObj [(''id'', JStr (rdm_id d)), (''score'', JInt 4), (''reason'', JStr ''ok'')]) (jr_dimensions GENERAL_RUBRIC)))]"

definition demo_judge_env :: judge_env where
  "demo_judge_env = \<lparr>ju_gateway = demo_gw_env\<lparr>ge_direct := (\<lambda>_ _ _ _. Inr [(''content'', JStr ''graded'')]), ge_loads := (\<lambda>_. Inr demo_grades)\<rparr>,
     ju_gateway_cfg = demo_gw_cfg\<lparr>gc_enabled := False\<rparr>, ju_dumps = (\<lambda>_. ''payload'')\<rparr>"

definition demo_judge_cfg :: judge_cfg where
  "demo_judge_cfg = \<lparr>jc_model = ''m'', jc_provider = ''openai'', jc_max_input_chars = 1000, jc_max_tokens = 100, jc_threshold = 7/10\<rparr>"

definition demo_eval_env :: eval_env where
  "demo_eval_env = \<lparr>ee_scan = demo_scan, ee_builtins = py_typed,
     ee_judge = Some (configured_judge demo_judge_env demo_judge_cfg
       \<lparr>rtc_models = [], rtc_agents = [], rtc_default_model = ''m'', rtc_default_agent = ''a''\<rparr> ''fix'' None),
     ee_elapsed = (\<lambda>_. 1), ee_started = ''t0'', ee_completed = ''t1''\<rparr>"

definition demo_eval_input :: eval_input where
  "demo_eval_input = \<lparr>ei_result = new_result True,
     ei_baseline = [\<lparr>bc_name = ''unit'', bc_command = ''pytest'', bc_status = ''passed'', bc_argv = [''pytest''], bc_exit_code = Some 0,
       bc_duration = 5, bc_failure_kind = [], bc_excerpt = []\<rparr>],
     ei_cwd = ''/r'', ei_git_before = [], ei_git_after = [(''a.py'', ''M'')], ei_touched = [''a.py''], ei_timeout = 60\<rparr>"

definition demo_eval_policy :: "string \<Rightarrow> string \<Rightarrow> eval_policy" where
  "demo_eval_policy i mode = (case select_policy None i mode of Inr p \<Rightarrow> p)"

lemma demo_eval_policies:
  "select_policy None ''auto'' ''required'' = Inr (demo_eval_policy ''auto'' ''required'')"
  "select_policy None ''security-basic'' ''off'' = Inr (demo_eval_policy ''security-basic'' ''off'')"
  by code_simp+

lemma demo_eval_verified:
  "(case evaluate_run demo_eval_env (demo_eval_policy ''auto'' ''required'') demo_eval_input demo_gw of
      (Inr rp, g) \<Rightarrow> et_state rp = ''verified_success'' \<and> list_ex (\<lambda>c. ec_evaluator c = ''llm_judge'') (et_checks rp) | _ \<Rightarrow> False)"
  by code_simp

lemma demo_eval_judge: "ee_judge demo_eval_env = Some (configured_judge demo_judge_env demo_judge_cfg
    \<lparr>rtc_models = [], rtc_agents = [], rtc_default_model = ''m'', rtc_default_agent = ''a''\<rparr> ''fix'' None)"
  by (simp add: demo_eval_env_def)

lemma demo_eval_reviewed:
  "(case evaluate_run demo_eval_env (demo_eval_policy ''security-basic'' ''off'') demo_eval_input demo_gw of
      (Inr rp, g) \<Rightarrow> et_state (fst (apply_human_feedback ''t2'' ''accepted'' rp)) = ''verified_success'' | _ \<Rightarrow> False)"
  by code_simp

lemma demo_human_requirement:
  "requirement ''human_review'' ''human_review'' \<in> set (ep_requirements (demo_eval_policy ''security-basic'' ''off''))"
  "ev_evaluator (requirement ''human_review'' ''human_review'') = ''human_review''"
  "ev_required (requirement ''human_review'' ''human_review'')"
  by code_simp+

definition demo_eval_report :: eval_report where
  "demo_eval_report = \<lparr>et_policy_id = ''executor-basic'', et_policy_version = ''2'', et_state = ''verified_success'', et_started = ''t0'',
     et_completed = ''t1'', et_checks = [\<lparr>ec_id = ''executor'', ec_evaluator = ''executor_success'', ec_status = ''passed'',
       ec_required = True, ec_message = ''executor reported success'', ec_duration = 3/2, ec_detail = []\<rparr>],
     et_schema_version = 1, et_deterministic_only = True\<rparr>"

lemma demo_report_storable: "eval_report_storable demo_eval_report"
  by (simp add: eval_report_storable_def eval_check_storable_def demo_eval_report_def)

text \<open>A record with the output of its baseline command as argument, in a directory of its own.\<close>

definition demo_evidence_record :: "string \<Rightarrow> evidence_record" where
  "demo_evidence_record output = build_evidence_record (\<lambda>s. s) ''1.0'' ''t0'' py_typed
     \<lparr>ea_task_id = ''t-1'', ea_task = ''fix'', ea_task_type = ''backend'', ea_agent = ''developer'', ea_executor = ''cursor'',
      ea_error_class = [], ea_retry_count = 0, ea_cost = 1/10, ea_policy_id = ''executor-basic'', ea_policy_version = ''2'',
      ea_skills = []\<rparr> (new_result True)
     \<lparr>rb_captured_at = ''t0'', rb_health = ''healthy'', rb_stack = [], rb_test_frameworks = [], rb_package_managers = [],
      rb_checks = [\<lparr>bc_name = ''unit'', bc_command = ''pytest'', bc_status = ''passed'', bc_argv = [''pytest''], bc_exit_code = Some 0,
        bc_duration = 5, bc_failure_kind = [], bc_excerpt = output\<rparr>], rb_notes = []\<rparr> (Some demo_eval_report)"

lemma demo_redacts: "redact (demo_evidence_record ''secret output'') = redact (demo_evidence_record [])"
  by (simp add: demo_evidence_record_def build_evidence_record_def redact_def redact_check_def Let_def classify_root_cause_def new_result_def)

lemma demo_evidence_records_differ: "demo_evidence_record ''secret output'' \<noteq> demo_evidence_record []"
  by (simp add: demo_evidence_record_def build_evidence_record_def Let_def)

definition demo_evidence_dir :: evidence_dir where
  "demo_evidence_dir = [''t-1.json'' \<mapsto> Some (demo_evidence_record [])]"

lemma demo_evidence_dir_ok: "evidence_dir_ok demo_evidence_dir"
proof -
  have "ed_task_id (demo_evidence_record []) = ''t-1''" by (simp add: demo_evidence_record_def build_evidence_record_def Let_def)
  moreover have "evidence_file ''t-1'' = Inr ''t-1.json''" by code_simp
  ultimately show ?thesis by (simp add: evidence_dir_ok_def demo_evidence_dir_def)
qed

lemma demo_feedback:
  "(case add_human_feedback True ''t2'' ''t-1'' ''Accepted'' ''explicit'' [] demo_evidence_dir of
      (Inr r', D') \<Rightarrow> length (ed_feedback r') = 1 | _ \<Rightarrow> False)"
  unfolding demo_evidence_dir_def by code_simp


section \<open>Hooks\<close>

text \<open>A hook that is imported, approved and sent the same event twice.\<close>

definition demo_hooks :: hook_env where
  "demo_hooks = \<lparr>hn_builtins = py_typed, hn_scan = demo_scan, hn_hash = id, hn_show = (\<lambda>_. []), hn_slow = (\<lambda>_. False),
     hn_saves = (\<lambda>_. True)\<rparr>"

definition demo_hook_dict :: "(string \<times> json) list" where
  "demo_hook_dict = [(''hook_id'', JStr ''h''), (''handler'', JStr ''observe''), (''events'', JList [JStr ''run_started'']),
     (''permissions'', JList [JStr ''observe'']), (''timeout_seconds'', JInt 5), (''idempotency'', JStr ''once''),
     (''fail_policy'', JStr ''fail_closed'')]"

definition demo_hook_event :: hook_event where
  "demo_hook_event = \<lparr>hv_type = RunStarted, hv_run = ''r'', hv_project = ''p'', hv_cwd = ''/r'', hv_payload = [], hv_id = ''e''\<rparr>"

definition approved_hooks :: hook_state where
  "approved_hooks = snd (approve_hook 1 ''h'' (snd (import_manifest py_typed demo_hook_dict no_hooks)))"

definition demo_hook_state :: hook_state where
  "demo_hook_state = snd (dispatch_event demo_hooks demo_hook_event (snd (dispatch_event demo_hooks demo_hook_event approved_hooks)))"

lemma demo_hooks_reachable: "(hook_step demo_hooks)\<^sup>*\<^sup>* no_hooks demo_hook_state"
proof -
  have "hook_step demo_hooks no_hooks (snd (import_manifest py_typed demo_hook_dict no_hooks))" by (rule imported)
  moreover have "hook_step demo_hooks (snd (import_manifest py_typed demo_hook_dict no_hooks)) approved_hooks"
    unfolding approved_hooks_def by (rule approved)
  ultimately have "(hook_step demo_hooks)\<^sup>*\<^sup>* no_hooks approved_hooks" by simp
  moreover have "hook_step demo_hooks approved_hooks (snd (dispatch_event demo_hooks demo_hook_event approved_hooks))" by (rule dispatched)
  moreover have "hook_step demo_hooks (snd (dispatch_event demo_hooks demo_hook_event approved_hooks)) demo_hook_state"
    unfolding demo_hook_state_def by (rule dispatched)
  ultimately show ?thesis by simp
qed

lemma demo_hook_runs: "length (hk_runs demo_hook_state) = 1" "length (hk_log demo_hook_state) = 2"
  by code_simp+

section \<open>A capability pack\<close>

text \<open>A source with one harmless agent and one skill that deletes files.\<close>

definition demo_pack_files :: "(string \<times> string) list" where
  "demo_pack_files = [(''/s/agents/a.md'', ''ok''), (''/s/skills/z/SKILL.md'', ''rm -rf'')]"

definition demo_scan_pack :: scan_env where
  "demo_scan_pack = demo_scan\<lparr>sv_verify := demo_world\<lparr>ve_resolve := (\<lambda>p. p), ve_is_file := (\<lambda>p. p \<in> fst ` set demo_pack_files),
     ve_is_dir := (\<lambda>p. p = ''/s''), ve_read := (\<lambda>p. case map_of demo_pack_files p of Some t \<Rightarrow> Inr t | None \<Rightarrow> Inl ''no file'')\<rparr>\<rparr>"

definition demo_manifest :: pack_manifest where
  "demo_manifest = \<lparr>pm_pack_id = ''ecc'', pm_adapter = ''ecc'', pm_version = [], pm_installed_at = ''t'', pm_state = ''staged'',
     pm_provenance = [(''source_path'', JStr ''/s''), (''repository'', JStr []), (''revision'', JStr []), (''package_name'', JStr []),
       (''package_version'', JStr []), (''license'', JStr [])],
     pm_admission = [(''schema_version'', JInt 1), (''decision'', JStr ''quarantine''), (''risk_level'', JStr ''critical''),
       (''finding_count'', JInt 1), (''quarantined_components'', JList [JStr ''skills/z/SKILL.md''])],
     pm_components = [\<lparr>sc_kind = ''agent'', sc_id = ''a'', sc_source = ''agents/a.md'', sc_staged = Some ''content/agents/a.md'',
         sc_sha = ''ok'', sc_status = ''staged''\<rparr>,
       \<lparr>sc_kind = ''skill'', sc_id = ''z'', sc_source = ''skills/z/SKILL.md'', sc_staged = None, sc_sha = ''rm_-rf'',
         sc_status = ''quarantined''\<rparr>],
     pm_aliases = []\<rparr>"

definition demo_pack_env :: pack_env where
  "demo_pack_env = \<lparr>pe_scan = demo_scan_pack, pe_present = (\<lambda>p. p = ''/s'' \<or> p \<in> fst ` set demo_pack_files),
     pe_loads = (\<lambda>body. if body = ''M'' @ [NEWLINE] then Inr (sort_json (pack_manifest_to_dict demo_manifest)) else Inl (1, ''bad''))\<rparr>"

definition demo_store :: store_env where
  "demo_store = \<lparr>st_pack = demo_pack_env, st_builtins = py_typed, st_expand = (\<lambda>p. p),
     st_glob = (\<lambda>home g. if g = ''agents/*.md'' then [''/s/agents/a.md''] else if g = ''skills/*/SKILL.md'' then [''/s/skills/z/SKILL.md''] else []),
     st_git = (\<lambda>_ _. None), st_bytes = map_of demo_pack_files, st_sha = map (\<lambda>c. if is_space c then CHR ''_'' else c),
     st_dumps = (\<lambda>_. ''M''), st_root = ''/store'', st_temp = ''.install-1'', st_writes = (\<lambda>_. True), st_now = ''t''\<rparr>"

lemma demo_store_laws [simp]: "store_laws demo_store"
proof -
  have "\<not> is_space CHR ''_''" by (simp add: is_space_def)
  moreover have "list_all (\<lambda>p. plain_rel (path_below ''/s'' p)) (map fst demo_pack_files)" by code_simp
  moreover have "starts_with ''.install-1'' ''.''" by simp
  ultimately show ?thesis
    unfolding store_laws_def by (auto simp: demo_store_def demo_pack_env_def demo_scan_pack_def demo_scan_def list_all_iff)
qed

lemma demo_store_builtins [simp]: "py_builtins_ok (st_builtins demo_store)"
  by (simp add: demo_store_def)

definition demo_discovery :: pack_discovery where
  "demo_discovery = \<lparr>pd_pack_id = ''ecc'',
     pd_provenance = \<lparr>pv_source = ''/s'', pv_repository = [], pv_revision = [], pv_name = [], pv_version = [], pv_license = []\<rparr>,
     pd_components = [\<lparr>pt_kind = ''agent'', pt_id = ''a'', pt_path = ''agents/a.md''\<rparr>,
       \<lparr>pt_kind = ''skill'', pt_id = ''z'', pt_path = ''skills/z/SKILL.md''\<rparr>],
     pd_warnings = []\<rparr>"

definition demo_admission :: admission_report where
  "demo_admission = \<lparr>ar_decision = ''quarantine'', ar_risk = ''critical'', ar_scanned = 2,
     ar_findings = [finding ''destructive_command'' ''critical'' ''skills/z/SKILL.md'' 1 ''Destructive filesystem or Git command detected'' ''rm -rf''],
     ar_permissions = [(''skills/z/SKILL.md'', [''filesystem_write''])]\<rparr>"

lemma demo_discovered: "discover_ecc_pack demo_store ''/s'' = Inr demo_discovery"
  by code_simp

lemma seven_patterns: "PACK_RISK_PATTERNS = map ((!) PACK_RISK_PATTERNS) [0, 1, 2, 3, 4, 5, 6]"
  by (simp add: PACK_RISK_PATTERNS_def)

lemma demo_regexes:
  "rp_regex (PACK_RISK_PATTERNS ! 0) = INSTRUCTION_OVERRIDE"
  "rp_regex (PACK_RISK_PATTERNS ! 1) = SECRET_EXFILTRATION"
  "rp_regex (PACK_RISK_PATTERNS ! 2) = DESTRUCTIVE_COMMAND"
  "rp_regex (PACK_RISK_PATTERNS ! 3) = SUBPROCESS_EXECUTION"
  "rp_regex (PACK_RISK_PATTERNS ! 4) = NETWORK_ACCESS"
  "rp_regex (PACK_RISK_PATTERNS ! 5) = SECRET_ACCESS"
  "rp_regex (PACK_RISK_PATTERNS ! 6) = FILESYSTEM_WRITE"
  by (simp_all add: PACK_RISK_PATTERNS_def)

lemma agent_no_match_0: "first_match INSTRUCTION_OVERRIDE ''ok'' = None" by code_simp
lemma agent_no_match_1: "first_match SECRET_EXFILTRATION ''ok'' = None" by code_simp
lemma agent_no_match_2: "first_match DESTRUCTIVE_COMMAND ''ok'' = None" by code_simp
lemma agent_no_match_3: "first_match SUBPROCESS_EXECUTION ''ok'' = None" by code_simp
lemma agent_no_match_4: "first_match NETWORK_ACCESS ''ok'' = None" by code_simp
lemma agent_no_match_5: "first_match SECRET_ACCESS ''ok'' = None" by code_simp
lemma agent_no_match_6: "first_match FILESYSTEM_WRITE ''ok'' = None" by code_simp

lemmas demo_agent_matches = agent_no_match_0 agent_no_match_1 agent_no_match_2 agent_no_match_3 agent_no_match_4 agent_no_match_5 agent_no_match_6

lemma skill_no_match_0: "first_match INSTRUCTION_OVERRIDE ''rm -rf'' = None" by code_simp
lemma skill_no_match_1: "first_match SECRET_EXFILTRATION ''rm -rf'' = None" by code_simp
lemma skill_no_match_3: "first_match SUBPROCESS_EXECUTION ''rm -rf'' = None" by code_simp
lemma skill_no_match_4: "first_match NETWORK_ACCESS ''rm -rf'' = None" by code_simp
lemma skill_no_match_5: "first_match SECRET_ACCESS ''rm -rf'' = None" by code_simp
lemma skill_no_match_6: "first_match FILESYSTEM_WRITE ''rm -rf'' = None" by code_simp
lemma skill_match: "first_match DESTRUCTIVE_COMMAND ''rm -rf'' = Some (0, ''rm -rf'')" by code_simp

lemmas demo_skill_matches = skill_match skill_no_match_0 skill_no_match_1 skill_no_match_3 skill_no_match_4 skill_no_match_5 skill_no_match_6

lemma demo_not_negated: "\<not> is_negated ''rm -rf'' 0" by code_simp

lemma demo_agent_reports: "reported (PACK_RISK_PATTERNS ! k) kind ''ok'' = None" if "k \<in> {0, 1, 2, 3, 4, 5, 6}"
  using that by (auto simp: reported_def demo_regexes demo_agent_matches simp del: One_nat_def)

lemma demo_skill_reports:
  "reported (PACK_RISK_PATTERNS ! 2) ''skill'' ''rm -rf'' = Some (0, ''rm -rf'')"
  "k \<in> {0, 1, 3, 4, 5, 6} \<Longrightarrow> reported (PACK_RISK_PATTERNS ! k) ''skill'' ''rm -rf'' = None"
proof -
  have "applies_to (PACK_RISK_PATTERNS ! 2) ''skill''" by (simp add: applies_to_def PACK_RISK_PATTERNS_def)
  then show "reported (PACK_RISK_PATTERNS ! 2) ''skill'' ''rm -rf'' = Some (0, ''rm -rf'')"
    by (simp add: reported_def demo_regexes demo_skill_matches demo_not_negated)
  show "k \<in> {0, 1, 3, 4, 5, 6} \<Longrightarrow> reported (PACK_RISK_PATTERNS ! k) ''skill'' ''rm -rf'' = None"
    by (auto simp: reported_def demo_regexes demo_skill_matches simp del: One_nat_def)
qed

lemma demo_patterns:
  "scan_patterns ''agent'' ''agents/a.md'' ''ok'' ([], []) = ([], [])"
  "scan_patterns ''skill'' ''skills/z/SKILL.md'' ''rm -rf'' ([], []) = (ar_findings demo_admission, ar_permissions demo_admission)"
proof -
  have skill: "rp_finding (PACK_RISK_PATTERNS ! 2) = ''destructive_command''" "rp_severity (PACK_RISK_PATTERNS ! 2) = ''critical''"
    "rp_message (PACK_RISK_PATTERNS ! 2) = ''Destructive filesystem or Git command detected''" "rp_permission (PACK_RISK_PATTERNS ! 2) = ''filesystem_write''"
    by (simp_all add: PACK_RISK_PATTERNS_def)
  show "scan_patterns ''agent'' ''agents/a.md'' ''ok'' ([], []) = ([], [])"
    unfolding scan_patterns_def by (subst seven_patterns) (simp add: scan_pattern_def demo_agent_reports del: One_nat_def)
  have "safe_evidence ''rm -rf'' = ''rm -rf''" by code_simp
  then show "scan_patterns ''skill'' ''skills/z/SKILL.md'' ''rm -rf'' ([], []) = (ar_findings demo_admission, ar_permissions demo_admission)"
    unfolding scan_patterns_def
    by (subst seven_patterns) (simp add: scan_pattern_def demo_skill_reports skill demo_admission_def grant_def dict_fromkeys_def del: One_nat_def)
qed

lemma demo_read:
  "component_path demo_pack_env ''/s'' ''agents/a.md'' = Inr ''/s/agents/a.md''"
  "read_bounded_text demo_pack_env ''/s/agents/a.md'' ''agents/a.md'' = Inr ''ok''"
  "component_path demo_pack_env ''/s'' ''skills/z/SKILL.md'' = Inr ''/s/skills/z/SKILL.md''"
  "read_bounded_text demo_pack_env ''/s/skills/z/SKILL.md'' ''skills/z/SKILL.md'' = Inr ''rm -rf''"
  by code_simp+

lemma demo_scanned: "scan_components demo_pack_env ''/s'' (pd_components demo_discovery) (0, [], []) =
    Inr (2, ar_findings demo_admission, ar_permissions demo_admission)"
proof -
  have "length (ar_findings demo_admission) < MAX_FINDINGS" by (simp add: demo_admission_def MAX_FINDINGS_def)
  then show ?thesis
    by (simp add: demo_discovery_def scan_component_def demo_read demo_patterns MAX_FINDINGS_def)
qed

lemma demo_admitted: "admit_external_pack demo_pack_env ''/s'' (pd_components demo_discovery) = Inr demo_admission"
proof -
  have home: "ve_resolve (sv_verify (pe_scan demo_pack_env)) ''/s'' = ''/s''" "pe_present demo_pack_env ''/s''"
    by (simp_all add: demo_pack_env_def demo_scan_pack_def)
  have "sort_findings (take MAX_FINDINGS (ar_findings demo_admission)) = ar_findings demo_admission"
    by (simp add: demo_admission_def sort_findings_def MAX_FINDINGS_def)
  moreover have "overall_risk (ar_findings demo_admission) = ''critical''" by (simp add: overall_risk_def demo_admission_def)
  ultimately show ?thesis
    by (simp add: admit_external_pack_def home demo_scanned Let_def) (simp add: demo_admission_def sorted_set_def)
qed

lemma demo_built: "build_pack_manifest demo_store demo_discovery demo_admission = Inr demo_manifest"
  by code_simp

lemma demo_prepared: "prepare_pack demo_store ''/s'' = Inr demo_manifest"
  using demo_built demo_admitted
  by (simp add: prepare_pack_def demo_discovered) (simp add: demo_store_def demo_discovery_def)

lemma demo_store_sel:
  "st_writes demo_store name = True" "st_bytes demo_store = map_of demo_pack_files" "ve_resolve (st_files demo_store) p = p"
  "pe_present (st_pack demo_store) = (\<lambda>p. p = ''/s'' \<or> p \<in> fst ` set demo_pack_files)" "st_builtins demo_store = py_typed"
  by (simp_all add: demo_store_def demo_pack_env_def demo_scan_pack_def)

lemma demo_installed: "fst (install_ecc demo_store ''/s'' []) = Inr demo_manifest"
proof -
  have "plain_rel ''agents/a.md''" by code_simp
  then have staged: "staged_below home ''content/agents/a.md'' = Some ''content/agents/a.md''" for home
    using staged_below_content [of "''agents/a.md''" home] by simp
  have source: "manifest_source demo_store demo_manifest = Inr ''/s''"
    by (simp add: manifest_source_def demo_store_sel demo_manifest_def jget_def py_typed_def)
  have copied: "\<exists>dir. copy_components demo_store ''/s'' (pm_components demo_manifest) [] = Inr dir"
    by (simp add: demo_manifest_def copy_component_def demo_store_sel resolve_in_def demo_pack_files_def path_under_def
        safe_staged_path_def staged write_file_def)
  have "\<exists>dir. fill_temporary demo_store demo_manifest [] = Inr dir"
    using copied by (auto simp: fill_temporary_def source write_file_def demo_store_sel)
  moreover have "validate_pack_id (pm_pack_id demo_manifest) = Inr ''ecc''"
    by (simp add: demo_manifest_def) code_simp
  ultimately show ?thesis by (auto simp: install_ecc_def demo_prepared get_doc_def dict_get_def Let_def)
qed

lemma demo_manifest_loads: "pe_loads (st_pack demo_store) (manifest_bytes demo_store demo_manifest) = Inr (sort_json (pack_manifest_to_dict demo_manifest))"
  by (simp add: demo_store_def demo_pack_env_def manifest_bytes_def)

end
