(* ===== verification/Spec2Isabelle.thy ===== *)
theory Spec2Isabelle
  imports Demo_Team Demo_Eval
begin

text \<open>
  VOLY (\<^verbatim>\<open>src/voly/\<close>, Python) runs agent tasks.  A task is routed and decomposed, agents are assigned to
  roles, the assignments become a plan of steps with acceptance checks, a runner or a multi-agent run
  executes the steps with models and command-line executors and verifies each before its dependents may
  start.  Every model call goes through a gateway that scans, caches, limits, charges and reroutes it; what
  a run produced is evaluated and recorded as evidence, from which later runs learn.  This development
  models that core and proves what each part promises.  The properties C1, C2, ... below are the results;
  each is followed by an application at a concrete input (\<open>Demo_World\<close>, \<open>Demo_Team\<close>, \<open>Demo_Eval\<close>) where it
  has hypotheses.  The last section holds further consequences of the same lemmas.

  Parts, in the order of the code's layers (theory: source).

  \<^item> \<open>Voly_Prelude\<close>, \<open>Json_Value\<close>, \<open>Py_Regex\<close>: Python's strings, ordered dictionaries, loaded JSON values,
    and a backtracking matcher for the constructs of \<^verbatim>\<open>re\<close> the code uses.
  \<^item> \<open>Plan_Types\<close>, \<open>Plan_Codec\<close>: \<^verbatim>\<open>plan/types.py\<close>, \<^verbatim>\<open>plan/loader.py\<close>.  Records for checks, steps and plans;
    statuses are the code's strings.  Dictionaries and back, with the values that survive.
  \<^item> \<open>Dep_Graph\<close>, \<open>Plan_Topo\<close>, \<open>Plan_Engine\<close>: \<^verbatim>\<open>plan/engine.py\<close>.  \<open>Dep_Graph\<close> is the interface of anything
    with dependencies (a locale, interpreted for plans and for assignments); Kahn's algorithm, validation,
    transitions.
  \<^item> \<open>Plan_Gate\<close>: the contract of the gates as a locale \<open>step_gate\<close> over a move relation, and its
    interpretation on the moves the engine can make.
  \<^item> \<open>Plan_Store\<close>: \<^verbatim>\<open>plan/store.py\<close>, \<^verbatim>\<open>plan/approval.py\<close>.  A directory as a document store (locale \<open>doc_dir\<close>);
    saving refines a map update; human decisions.
  \<^item> \<open>Plan_Criteria\<close>, \<open>Plan_Suggest\<close>: \<^verbatim>\<open>plan/criteria.py\<close>, \<^verbatim>\<open>plan/suggest.py\<close>: drafted checks, scoping of
    commands with \<^verbatim>\<open>shlex\<close>.
  \<^item> \<open>Verify_Git\<close>, \<open>Verify_Checks\<close>, \<open>Plan_Verify\<close>: \<^verbatim>\<open>plan/verify_git.py\<close>, \<^verbatim>\<open>plan/verify_checks.py\<close>,
    \<^verbatim>\<open>plan/verify.py\<close>: the checks, architect approvals, the verdict.
  \<^item> \<open>Plan_Runner\<close>: \<^verbatim>\<open>plan/runner.py\<close> as computations on a state that keep their writes when they raise.
    \<open>Runner_Safety\<close> proves, in one locale over relations on plans, that whatever holds of the runner's
    primitive writes holds of a whole run (interpreted for the gate, the human gate and frames);
    \<open>Runner_Progress\<close> that the loop ends; \<open>Runner_Results\<close> what a run reports and how cancellation and
    recovery act, and where the code departs from its comments.
  \<^item> \<open>Error_Classifier\<close>, \<open>Provider_Health\<close>, \<open>Gateway_Models\<close>, \<open>Gateway\<close>: \<^verbatim>\<open>ai_gateway/\<close>, with the price table
    of \<^verbatim>\<open>telemetry.py\<close> and the exclusion rule of \<^verbatim>\<open>a2a/assignment.py\<close>.
  \<^item> \<open>Business_Decisions\<close>, \<open>Run_Tracker\<close>: \<^verbatim>\<open>decisions.py\<close> over the plan store, \<^verbatim>\<open>runtime/runs.py\<close> with its watchdog.
  \<^item> \<open>Executor_Safety\<close>, \<open>Executor_Results\<close>, \<open>Agent_Run\<close>, \<open>Review_Loop\<close>: \<^verbatim>\<open>executor/safety.py\<close> (protected paths,
    rollback), \<^verbatim>\<open>executor/base.py\<close> and the cost policy, \<^verbatim>\<open>runner/agent_runner.py\<close> with its fallback chain and
    work report, \<^verbatim>\<open>workflow/review_until_clean.py\<close>.
  \<^item> \<open>Capability_Profile\<close>, \<open>Capability_Match\<close>: \<^verbatim>\<open>capability/schema.py\<close>, \<^verbatim>\<open>scorer.py\<close>, \<^verbatim>\<open>calibration.py\<close>,
    \<^verbatim>\<open>registry.py\<close>, \<^verbatim>\<open>matcher.py\<close>, \<^verbatim>\<open>fallback.py\<close>, \<^verbatim>\<open>routing.py\<close>.
  \<^item> \<open>Task_Router\<close>, \<open>Model_Router\<close>, \<open>Role_Models\<close>, \<open>Lead_Assign\<close>, \<open>Lead_Plan\<close>, \<open>Waves\<close>, \<open>Plan_Bridge\<close>:
    \<^verbatim>\<open>router.py\<close>, \<^verbatim>\<open>model_router.py\<close>, \<^verbatim>\<open>a2a/decomposer.py\<close>, \<^verbatim>\<open>a2a/roles.py\<close>, \<^verbatim>\<open>a2a/lead.py\<close>, \<^verbatim>\<open>a2a/waves.py\<close>,
    \<^verbatim>\<open>plan/bridge.py\<close>: from the text of a task to assignments and from these to a valid plan.
  \<^item> \<open>Multi_Agent\<close>, \<open>Multi_Agent_Safety\<close>, \<open>Multi_Agent_Executors\<close>, \<open>Multi_Agent_Results\<close>:
    \<^verbatim>\<open>a2a/multiagent_run.py\<close>, \<^verbatim>\<open>multiagent_roles.py\<close>, \<^verbatim>\<open>multiagent_plan.py\<close>: the whole run over the engine, the
    agent runner and the gateway; one theory with the model, three with what it keeps.
  \<^item> \<open>Llm_Judge\<close>, \<open>Eval_Checks\<close>, \<open>Eval_Engine\<close>, \<open>Evidence\<close>: \<^verbatim>\<open>evaluation/\<close> and \<^verbatim>\<open>evidence/\<close>: the judge and its strict
    parser, the deterministic evaluators, policies, the final state, human feedback; the repository
    baseline, root causes, the record of a run, its store and its cloud projection.
  \<^item> \<open>Instincts\<close>: \<^verbatim>\<open>learning/instincts.py\<close>: what is proposed, approved, contradicted and selected.
  \<^item> \<open>Hooks\<close>: \<^verbatim>\<open>hooks/schema.py\<close>, \<^verbatim>\<open>hooks/runtime.py\<close>: registry, admission, handlers, dispatch.
  \<^item> \<open>Pack_Admission\<close>, \<open>Pack_Store\<close>: \<^verbatim>\<open>capability/packs.py\<close>, \<^verbatim>\<open>pack_admission.py\<close>,
    \<^verbatim>\<open>pack_security_patterns.py\<close>, \<^verbatim>\<open>pack_manifest.py\<close>, \<^verbatim>\<open>pack_store.py\<close>: discovery and the static scan of an
    external pack, its manifest, the staged store (on the directories of \<open>Plan_Store\<close>).

  What is outside is a parameter.  Models, executors, git, files, processes, clocks, other processes'
  writes to the store, hashes and HTTP adapters are functions in environment records; where they may change
  from call to call they take the number of the event.  \<^verbatim>\<open>str\<close>, \<^verbatim>\<open>int\<close> and \<^verbatim>\<open>float\<close> of a loaded value are
  functions with their documented laws (\<open>py_builtins_ok\<close>), needed only for round trips; \<^verbatim>\<open>json.loads\<close> and
  \<^verbatim>\<open>json.dumps\<close> are functions too.

  Approximations.  Floats are exact rationals; integers are unbounded as in Python.  Text is a list of
  bytes of UTF-8; lower-casing covers ASCII and, where the task router reads it, Russian.  Error messages
  that only a log reads are data (constructors with their arguments) instead of text.  The chat calls of
  one wave are atomic and run in some order.  Replies of the runner inside a multi-agent run are typed.
  Left out of the models: token counters and headroom compression of a multi-agent run, memory
  ingestion, and the JSON text of instinct and evidence files (their directories hold loaded records).

  Fuel.  The runner's loop is the only recursion with fuel: one unit more than the plan has steps,
  enough because each iteration that goes on closes a step for good (\<open>run_terminates\<close>).  Everything else
  is structural or has a termination proof.

  Not modelled: see the components of the manifest; mainly HTTP adapters and subprocess bodies, the
  pipeline and the command line, configuration files, memory (SQLite), the scanners, evaluation reports
  and golden sets, capability evidence and remote sync, DSPy programs, and the vendored headroom proxy.
\<close>

section \<open>Running a plan\<close>

text \<open>C1: the dependency gate is an invariant of a run.  Whatever the models, the executors, git,
  the clock and other processes do, if at the start every step past its gate (running, done,
  verifying, verified) has only verified dependencies, then the run returns and the same holds of
  the plan it leaves.\<close>

theorem run_keeps_gate:
  assumes "ids_distinct (rs_plan s)" "gate_holds status_of needs_of (rs_plan s)"
  shows "\<exists>s' r. run_plan C N mode cwd timeout s = Some (s', r) \<and> gate_holds status_of needs_of (rs_plan s')"
  using run_plan_ends [of C N mode cwd timeout s] run_moves plan_gate.gate_moves assms by metis

lemma run_keeps_gate_witness:
  "\<exists>s' r. run_plan demo_cfg demo_env ''enforce'' ''/r'' (Some 10) demo_state = Some (s', r) \<and>
     gate_holds status_of needs_of (rs_plan s')"
  by (rule run_keeps_gate) (simp_all add: demo_gate)

text \<open>C2: a run always returns.  The loop ends within one iteration per open step and one more,
  whatever the outside does: no reply, failure, retry setting or verdict keeps it running.\<close>

theorem run_terminates: "\<exists>s' r. run_plan C N mode cwd timeout s = Some (s', r)"
  by (rule run_plan_ends)

text \<open>C3: what a run reports.  A run that ends without raising returns the plan as it leaves it,
  says success exactly when the plan is completed, and the plan's status is the one its steps
  determine: aborted, else completed when all steps are verified or skipped with one verified,
  else failed when a step failed or all were skipped, else the derived status.\<close>

theorem run_report_correct:
  "\<exists>s' r. run_plan C N mode cwd timeout s = Some (s', r) \<and>
     (case r of Inl _ \<Rightarrow> True
      | Inr res \<Rightarrow> rr_plan res = rs_plan s' \<and>
          (rr_success res \<longleftrightarrow> plan_status (rr_plan res) = PLAN_COMPLETED) \<and>
          plan_status (rr_plan res) = final_status (plan_status (rr_plan res) = PLAN_ABORTED) (rr_plan res))"
proof -
  obtain s' r where r: "run_plan C N mode cwd timeout s = Some (s', r)" using run_plan_ends by blast
  then show ?thesis using run_reports [of C N mode cwd timeout s s'] by (cases r) auto
qed

text \<open>C4: the human gate.  Unless the runner is configured to continue after failures, a step that
  waits for a human decision still waits for it when the run has ended: no retry, no shadow mode
  and no forced transition verifies it.\<close>

theorem run_keeps_human_gate:
  assumes "lower (rc_on_fail C) \<noteq> ''continue''" "awaits_decision (rs_plan s) i"
  shows "\<exists>s' r. run_plan C N mode cwd timeout s = Some (s', r) \<and> awaits_decision (rs_plan s') i"
  using run_plan_ends [of C N mode cwd timeout s] run_human_gate assms by metis

lemma run_keeps_human_gate_witness:
  "\<exists>s' r. run_plan demo_cfg demo_env ''shadow'' ''/r'' None demo_state = Some (s', r) \<and>
     awaits_decision (rs_plan s') ''b''"
  by (rule run_keeps_human_gate)
    (auto simp: demo_cfg_def lower_def lower_char_def awaits_decision_def externally_resolved_def EXTERNALLY_RESOLVED_def
      new_check_def CHECK_HUMAN_REVIEW_def)

text \<open>C5: verified work is kept: a step that is verified when a run starts is verified when it ends.\<close>

theorem run_keeps_verified:
  assumes "ids_distinct (rs_plan s)" "status_of (rs_plan s) i = Some VERIFIED"
  shows "\<exists>s' r. run_plan C N mode cwd timeout s = Some (s', r) \<and> status_of (rs_plan s') i = Some VERIFIED"
  using run_plan_ends [of C N mode cwd timeout s] run_moves plan_gate.verified_forever assms by metis

lemma run_keeps_verified_witness:
  "\<exists>s' r. run_plan demo_cfg demo_env ''enforce'' ''/r'' None
       (demo_state\<lparr>rs_plan := demo_plan\<lparr>steps := [step_a\<lparr>step_status := VERIFIED\<rparr>, step_b]\<rparr>\<rparr>) = Some (s', r) \<and>
     status_of (rs_plan s') ''a'' = Some VERIFIED"
  by (rule run_keeps_verified) (simp_all add: step_ids_def status_of_def)

section \<open>The engine\<close>

text \<open>C6: validation accepts exactly the well-formed plans: a named plan of known status with at
  least one step, every step with a known mode and status and an id, ids distinct, dependencies
  known, and no cycle.\<close>

theorem validate_accepts_well_formed: "validate p = Inr () \<longleftrightarrow> well_formed p"
  by (rule validate_accepts_iff)

text \<open>C7: the topological sort.  On a plan with distinct ids and known dependencies it returns an
  order exactly when the dependencies are acyclic, and the order lists every step once, after all
  its dependencies.\<close>

theorem topo_order_correct:
  assumes "graph_ok (steps p)"
  shows "(acyclic (dep_edges (step_ids p) (deps_of (steps p))) \<longleftrightarrow> (\<exists>order. topo_order p = Inr order)) \<and>
    (\<forall>order. topo_order p = Inr order \<longrightarrow>
       distinct order \<and> set order = set (step_ids p) \<and> deps_first (deps_of (steps p)) order)"
proof -
  have d: "distinct (step_ids p)" using assms by (simp add: graph_ok_def step_ids_def)
  show ?thesis
    using topo_order_result [OF _ d] topo_order_exists [OF assms] topo_order_iff_acyclic [OF assms]
    by auto
qed

lemma topo_order_correct_witness:
  "(acyclic (dep_edges [''a'', ''b''] (deps_of [step_a, step_b])) \<longleftrightarrow> (\<exists>order. topo_order demo_plan = Inr order)) \<and>
   topo_order demo_plan = Inr [''a'', ''b'']"
proof -
  have "topo_order demo_plan = Inr [''a'', ''b'']" by code_simp
  then show ?thesis using topo_order_correct [of demo_plan] by (simp add: graph_ok_def)
qed

text \<open>C8: a status change succeeds exactly when it is allowed: the step exists, the target is a
  known status, and (unless forced) the table has the pair, a skip is allowed, a start has its
  dependencies verified, and a finished step goes to verified directly iff it has no checks; the
  result is the plan with that step's status set and the plan's status recomputed.  It touches that
  step only: ids, dependencies, checks, modes, the plan's identity and every other step are as before.\<close>

theorem transition_correct:
  "(transition p sid to_status err allow_skip force now = Inr q \<longleftrightarrow>
     (\<exists>s. get_step p sid = Inr s \<and> to_status \<in> set STEP_STATUSES \<and>
        (force \<or> passes_gate p s to_status allow_skip) \<and>
        q = recompute_plan_status (upd_step sid (apply_status to_status err now) p))) \<and>
   (transition p sid to_status err allow_skip force now = Inr q \<longrightarrow>
     step_ids q = step_ids p \<and> plan_id q = plan_id p \<and> plan_cwd q = plan_cwd p \<and>
     map depends_on (steps q) = map depends_on (steps p) \<and> map acceptance (steps q) = map acceptance (steps p) \<and>
     map step_mode (steps q) = map step_mode (steps p) \<and>
     (\<forall>other. other \<noteq> sid \<longrightarrow> get_step q other = get_step p other))"
  using transition_iff [of p sid to_status err allow_skip force now q]
    transition_frame [of p sid to_status err allow_skip force now q] by (intro conjI impI) simp_all

lemma transition_correct_witness:
  "\<exists>q. transition demo_plan ''a'' RUNNING [] False False 1 = Inr q \<and> get_step q ''b'' = Inr step_b"
proof -
  have "passes_gate demo_plan step_a RUNNING False"
    by (simp add: passes_gate_def legal_transition_iff unmet_of_def)
  then have "get_step demo_plan ''a'' = Inr step_a \<and> RUNNING \<in> set STEP_STATUSES \<and> (False \<or> passes_gate demo_plan step_a RUNNING False)"
    by (simp add: STEP_STATUSES_def)
  then obtain q where q: "transition demo_plan ''a'' RUNNING [] False False 1 = Inr q"
    using transition_correct [of demo_plan "''a''" RUNNING "[]" False False 1] by blast
  then have "get_step q ''b'' = get_step demo_plan ''b''"
    using transition_correct [of demo_plan "''a''" RUNNING "[]" False False 1 q, THEN conjunct2, rule_format, OF q] by simp
  moreover have "get_step demo_plan ''b'' = Inr step_b" by simp
  ultimately show ?thesis using q by metis
qed

text \<open>C9: scheduling is exact and never stuck.  On a well-formed plan the runnable steps are those
  pending or failed whose dependencies are all verified; and when no step is in flight or skipped
  and some step is not verified, at least one step is runnable.\<close>

theorem scheduling_exact_and_live:
  assumes "well_formed p"
  shows "\<exists>r. runnable_steps p = Inr r \<and>
    (\<forall>sid. sid \<in> set r \<longleftrightarrow> (\<exists>s. get_step p sid = Inr s \<and> step_status s \<in> {PENDING, FAILED} \<and>
        (\<forall>d \<in> set (depends_on s). status_of p d = Some VERIFIED))) \<and>
    ((\<forall>s \<in> set (steps p). step_status s \<in> {PENDING, FAILED, VERIFIED}) \<and>
     (\<exists>s \<in> set (steps p). step_status s \<noteq> VERIFIED) \<longrightarrow> r \<noteq> [])"
proof -
  have d: "ids_distinct p" using assms by (simp add: well_formed_def graph_ok_def step_ids_def)
  obtain r where r: "runnable_steps p = Inr r" by (rule well_formed_runnable [OF assms])
  have "sid \<in> set r \<longleftrightarrow> (\<exists>s. get_step p sid = Inr s \<and> step_status s \<in> {PENDING, FAILED} \<and>
      (\<forall>d \<in> set (depends_on s). status_of p d = Some VERIFIED))" for sid
    unfolding runnable_steps_iff [OF r d] can_start_iff using d by (simp add: unmet_of_iff)
  then show ?thesis using r some_runnable [OF assms _ _ _ r] by blast
qed

lemma scheduling_exact_and_live_witness:
  "\<exists>r. runnable_steps demo_plan = Inr r \<and> ''a'' \<in> set r \<and> ''b'' \<notin> set r"
  using scheduling_exact_and_live [OF demo_well_formed] by auto

section \<open>Verification\<close>

text \<open>C10: the verdict of a step.  Verifying a step that has checks always ends with the step verified
  or failed, verified exactly when every check passes in its context; the results are kept in its
  log, a failure has a message, and no other step changes.\<close>

theorem verification_decides:
  assumes "get_step p sid = Inr s" "step_status s = VERIFYING" "acceptance s \<noteq> []"
  shows "\<exists>q rs. complete_verification E p sid base stop now = (q, Inr rs) \<and> rs \<noteq> [] \<and>
    (all_passed rs \<longleftrightarrow> acceptance_passes E p s base) \<and>
    status_of q sid = Some (if acceptance_passes E p s base then VERIFIED else FAILED) \<and>
    (\<forall>other. other \<noteq> sid \<longrightarrow> get_step q other = get_step p other) \<and>
    (\<exists>t. get_step q sid = Inr t \<and> verify_log t = map result_to_dict rs \<and>
       (\<not> acceptance_passes E p s base \<longrightarrow> step_error t \<noteq> []))"
  by (rule complete_verification_verdict [OF assms])

lemma verification_decides_witness:
  "\<exists>q rs. complete_verification demo_world (demo_plan\<lparr>steps := [step_a\<lparr>step_status := VERIFYING\<rparr>, step_b]\<rparr>)
       ''a'' demo_ctx False 1 = (q, Inr rs) \<and> rs \<noteq> [] \<and> get_step q ''b'' = Inr step_b"
proof -
  let ?p = "demo_plan\<lparr>steps := [step_a\<lparr>step_status := VERIFYING\<rparr>, step_b]\<rparr>"
  have "get_step ?p ''a'' = Inr (step_a\<lparr>step_status := VERIFYING\<rparr>)" "get_step ?p ''b'' = Inr step_b"
    by (simp_all add: get_step_def)
  then show ?thesis
    using verification_decides [of ?p "''a''" "step_a\<lparr>step_status := VERIFYING\<rparr>" demo_world demo_ctx False 1] by auto
qed

text \<open>C11: the line limit.  The check passes exactly when the limit is positive and within its cap,
  there is a directory and a candidate file, and every candidate is generated or inside the
  directory with at most the effective limit of lines; the effective limit, whatever an architect
  approved, lies between the base limit and the cap.\<close>

theorem line_limit_check_correct:
  "(vr_ok (check_file_line_limit E c ctx) \<longleftrightarrow>
     0 < base_limit c \<and> base_limit c \<le> approved_cap c \<and> vc_cwd ctx \<noteq> [] \<and>
     line_limit_candidates E c ctx \<noteq> [] \<and>
     (\<forall>rel \<in> set (line_limit_candidates E c ctx).
        line_ok E (vc_cwd ctx) (exclude_patterns c) (effective_limit c ctx) rel)) \<and>
   (base_limit c \<le> approved_cap c \<longrightarrow> base_limit c \<le> effective_limit c ctx \<and> effective_limit c ctx \<le> approved_cap c)"
  using file_line_limit_ok effective_limit_bounds by blast

lemma line_limit_check_correct_witness:
  "300 \<le> effective_limit ((new_check ''file_line_limit'')\<lparr>max_lines := 300, approved_max_lines := 500\<rparr>)
           (demo_ctx\<lparr>vc_approved_limit := 9000\<rparr>) \<and>
   effective_limit ((new_check ''file_line_limit'')\<lparr>max_lines := 300, approved_max_lines := 500\<rparr>)
           (demo_ctx\<lparr>vc_approved_limit := 9000\<rparr>) \<le> 500"
  using line_limit_check_correct [of demo_world "(new_check ''file_line_limit'')\<lparr>max_lines := 300, approved_max_lines := 500\<rparr>"
      "demo_ctx\<lparr>vc_approved_limit := 9000\<rparr>"]
  by (simp add: base_limit_def approved_cap_def new_check_def)

text \<open>C12: nothing but a known check can pass, and the two checks that only an outside decision
  resolves never do: a list of checks passes exactly when it is not empty and each check passes,
  so a list with a human review (or an action confirmation, or an unknown type) never passes.\<close>

theorem no_machine_approval:
  "(all_passed (run_acceptance E ctx stop cs) \<longleftrightarrow> cs \<noteq> [] \<and> (\<forall>c \<in> set cs. vr_ok (run_check E c ctx))) \<and>
   (\<forall>c \<in> set cs. vr_ok (run_check E c ctx) \<longrightarrow> strip (check_type c) \<in> set KNOWN_CHECK_TYPES \<and>
      strip (check_type c) \<noteq> CHECK_HUMAN_REVIEW \<and> strip (check_type c) \<noteq> CHECK_ACTION_SUCCEEDED)"
  using all_passed_run [of E ctx stop cs] no_check_ok_without_evidence by (intro conjI ballI impI) simp_all

lemma no_machine_approval_witness:
  "\<not> all_passed (run_acceptance demo_world demo_ctx False [new_check ''output_nonempty'', new_check ''human_review''])"
  using no_machine_approval [of demo_world demo_ctx False "[new_check ''output_nonempty'', new_check ''human_review'']"]
  by (auto simp: new_check_def CHECK_HUMAN_REVIEW_def strip_def is_space_def)

section \<open>Storage, approvals and drafts\<close>

text \<open>C13: round trip: a storable plan written as a dictionary and read back is the same plan, and
  an acceptance check survives exactly when it has a type, no negative limits, and a zero expected
  exit code if it has no command.\<close>

theorem plan_dict_roundtrip:
  assumes "py_builtins_ok B"
  shows "(check_from_dict B (JObj (check_to_dict c)) = Inr c \<longleftrightarrow> check_storable c) \<and>
    (plan_storable crit p \<longrightarrow> plan_from_dict B crit (JObj (plan_to_dict p)) = Inr p)"
  using check_roundtrip_iff [OF assms] plan_roundtrip [OF assms] by blast

lemma plan_dict_roundtrip_witness:
  "plan_from_dict py_typed draft_criteria (JObj (plan_to_dict demo_plan)) = Inr demo_plan"
  using plan_dict_roundtrip [OF py_typed_ok, of "new_check ''command''" draft_criteria demo_plan] demo_storable by blast

text \<open>C14: the plan directory refines a map from plan ids to plans: a successful save of a storable
  plan is the update of that map at the plan's id with the plan stamped with the time, and a
  failed save changes nothing.\<close>

theorem save_refines_map_update:
  assumes "py_builtins_ok B" "plan_storable crit p" "save_plan disk now d p = (d', q, e)"
  shows "(e = None \<longrightarrow> q = stamp now p \<and>
      load_plan B crit d' = (load_plan B crit d)(plan_id p := Inr (Some (stamp now p)))) \<and>
    (e \<noteq> None \<longrightarrow> d' = d)"
proof (intro conjI impI)
  assume "e = None"
  then have saved: "save_plan disk now d p = (d', q, None)" using assms(3) by simp
  show "q = stamp now p" using save_plan_result [OF saved] by simp
  show "load_plan B crit d' = (load_plan B crit d)(plan_id p := Inr (Some (stamp now p)))"
    using load_after_save [OF assms(1,2) saved] by auto
qed (use save_plan_result [OF assms(3)] in blast)

lemma save_refines_map_update_witness:
  "\<exists>d' q. save_plan DiskOk 1 [] demo_plan = (d', q, None) \<and>
     load_plan py_typed draft_criteria d' ''p'' = Inr (Some (stamp 1 demo_plan))"
  using save_refines_map_update [OF py_typed_ok demo_storable demo_saved] demo_saved by auto



section \<open>Concurrency, cancellation and records\<close>

text \<open>C16: cancelling a plan stores it as aborted with its steps untouched, and a runner whose next
  look at the store finds the abort stops there: it starts no step and ends aborted.\<close>

theorem cancel_reaches_runner:
  assumes "py_builtins_ok (re_builtins N)" "load_plan (re_builtins N) draft_criteria d pid = Inr (Some p)"
    and "plan_id p = pid" "plan_storable draft_criteria p"
    and "cancel (re_builtins N) disk now d pid error = (d', Inr q)"
    and "re_others N (rs_tick s) (rs_dir s) = d'" "plan_id (rs_plan s) = pid"
  shows "load_plan (re_builtins N) draft_criteria d' pid = Inr (Some q) \<and> steps q = steps p \<and>
    (\<exists>s1. run_loop (Suc fuel) C N P s = Some (s1, Inr False) \<and> steps (rs_plan s1) = steps (rs_plan s) \<and>
      plan_status (conclude N timeout (Inr False) (rs_plan s1)) = PLAN_ABORTED)"
  using cancel_stored [OF assms(1-5)] abort_stops_loop [of N s q fuel C P timeout] assms(6,7) by simp

lemma cancel_reaches_runner_witness:
  "\<exists>d' q. cancel py_typed DiskOk 2 demo_dir ''p'' ''stop'' = (d', Inr q) \<and>
     (\<exists>s1. run_loop 1 demo_cfg (demo_env\<lparr>re_others := (\<lambda>_ _. d')\<rparr>) (params_of demo_cfg ''enforce'' None 0) demo_state
         = Some (s1, Inr False) \<and> steps (rs_plan s1) = [step_a, step_b])"
proof -
  obtain d' q where c: "cancel py_typed DiskOk 2 demo_dir ''p'' ''stop'' = (d', Inr q)" using demo_cancels by blast
  have "plan_id (stamp 1 demo_plan) = ''p''" "re_builtins (demo_env\<lparr>re_others := (\<lambda>_ _. d')\<rparr>) = py_typed"
    by (simp_all add: demo_env_def)
  then show ?thesis
    using c cancel_reaches_runner [of "demo_env\<lparr>re_others := (\<lambda>_ _. d')\<rparr>" demo_dir "''p''" "stamp 1 demo_plan" DiskOk 2
        "''stop''" d' q demo_state 0 demo_cfg "params_of demo_cfg ''enforce'' None 0" None] demo_loads demo_storable
    by (auto simp del: run_loop.simps)
qed

text \<open>C17: the history of runs.  No operation of the tracker on existing runs takes back what identifies a
  run, an entry of its timeline or a request to cancel, even when writes fail; and the watchdog
  reports and marks exactly the running records silent for longer than the limit, and changes no other.\<close>

theorem run_history_kept:
  assumes "runs_sane d"
  shows "(run_op\<^sup>*\<^sup>* d d' \<and> load_run d t = Some r \<longrightarrow> (\<exists>r'. load_run d' t = Some r' \<and> extends r r')) \<and>
    (reap True limit now d = (rs, d2) \<longrightarrow>
       (r \<in> set rs \<longleftrightarrow> (\<exists>i. load_run d i = Some r \<and> rn_status r = RUN_RUNNING \<and> age_seconds now r > limit)) \<and>
       load_run d2 t = map_option (\<lambda>r. if rn_status r = RUN_RUNNING \<and> age_seconds now r > limit then reaped_record now r else r) (load_run d t))"
  using run_ops_keep [of d d'] reap_result [OF assms, of limit now rs d2] assms unfolding keeps_history_def is_stale_run_def by auto

lemma run_history_kept_witness:
  "\<exists>r. load_run (snd (reap True 60 100 demo_runs)) ''t'' = Some r \<and> rn_status r = RUN_STALE"
proof -
  have "load_run demo_runs ''t'' = Some demo_record" "runs_sane demo_runs" "is_stale_run 60 100 demo_record"
    using demo_runs_facts by blast+
  then show ?thesis
    using run_history_kept [of demo_runs demo_runs "''t''" demo_record 60 100 "fst (reap True 60 100 demo_runs)" "snd (reap True 60 100 demo_runs)"]
    by (simp add: reaped_record_def is_stale_run_def)
qed

section \<open>From a task to a plan\<close>

text \<open>C18: from the lead to a plan.  Whatever the lead's model and the capability matcher reply, an
  assignment that returns has one entry per sub-task, in order, with its role, description and
  dependencies, skills among the candidates, and no executor for a role that may not write files; and
  sub-tasks with roles and without a cycle become a plan that validation accepts and waves that respect
  the dependencies.\<close>

theorem lead_assignments_make_plan:
  assumes "assign E C show_exn K sts r g = (Inr xs, r', g')" "sts \<noteq> []" "\<forall>st \<in> set sts. st_agent st \<noteq> []"
    and "acyclic (dep_edges (map int [0..<length sts]) (subtask_deps sts))"
  shows "length xs = length sts \<and> (\<forall>k < length sts. faithful K (sts ! k) (int k) (xs ! k)) \<and>
    validate (assignments_to_plan task (map fst xs) [] tid cwd cfg modes) = Inr () \<and>
    waves_ok (subtask_deps sts) {} (build_waves (map fst xs))"
  using assign_all_faithfully [OF assms(1)] lead_plan_valid(1) [OF assms, where pid = "[]" and task = task]
    lead_plan_valid(2) [OF assms, where pid = "[]"]
  by (simp add: all_faithful_def validate_accepts_iff)

lemma lead_assignments_make_plan_witness:
  "\<exists>xs r' g'. assign demo_gw_env demo_gw_cfg (\<lambda>_. []) demo_lead demo_subtasks empty_registry demo_gw = (Inr xs, r', g') \<and>
     validate (assignments_to_plan ''t'' (map fst xs) [] [] ''/r'' None Map.empty) = Inr ()"
proof -
  obtain xs r' g' where a: "assign demo_gw_env demo_gw_cfg (\<lambda>_. []) demo_lead demo_subtasks empty_registry demo_gw = (Inr xs, r', g')"
    using demo_assigns by blast
  show ?thesis
    using lead_assignments_make_plan [OF a _ _ demo_subtasks_acyclic] a by (simp add: demo_subtasks_def)
qed

section \<open>Multi-agent runs\<close>

text \<open>C19: a multi-agent run.  When \<^verbatim>\<open>run_local\<close> returns, whatever models, executors, git and other
  events did, every role was finalized exactly once and the list of roles is the one it got; a role
  counts as successful only if its plan step is verified (when the run has a plan) and, on a
  code-generation task, only if its executor, when it ran, changed files; and in the run's plan no
  step ever passed the gate without its dependencies verified.\<close>

theorem local_run_settles_roles:
  assumes "run_local C N (new_local_run items d runs g) = (m, Inr u)" "idx_distinct items"
  shows "map as_idx (ma_items m) = map as_idx items \<and> distinct (ma_done m) \<and> set (ma_done m) = as_idx ` set items \<and>
    (\<forall>a \<in> set (ma_items m). as_ok a \<longrightarrow>
       (\<forall>p. ma_plan m = Some p \<longrightarrow> status_of p (assignment_step_id (as_idx a) (as_role a)) = Some VERIFIED) \<and>
       (mc_requires_code_gen C \<and> as_idx a \<in> fst ` set (ma_execs m) \<longrightarrow> as_files a \<noteq> [])) \<and>
    (\<forall>p. ma_plan m = Some p \<longrightarrow> gate_holds status_of needs_of p)"
  using local_run_result [OF assms] by (auto simp: step_verified_def gated_def)

lemma local_run_settles_roles_witness:
  "(\<exists>m. run_local demo_team_cfg demo_team_env (new_local_run demo_team [] [] demo_gw) = (m, Inr ()) \<and>
      set (ma_done m) = {0, 1} \<and> (\<forall>a \<in> set (ma_items m). as_idx a = 0 \<longrightarrow> as_files a \<noteq> [])) \<and>
   (\<exists>m p a. run_local (demo_team_cfg\<lparr>mc_plan := Some demo_gates\<rparr>) demo_team_env (new_local_run (take 1 demo_team) [] [] demo_gw) = (m, Inr ()) \<and>
      ma_plan m = Some p \<and> a \<in> set (ma_items m) \<and> status_of p (assignment_step_id (as_idx a) (as_role a)) = Some VERIFIED)"
proof
  obtain m r where run: "run_local demo_team_cfg demo_team_env (new_local_run demo_team [] [] demo_gw) = (m, r)" by fastforce
  have m: "r = Inr ()" "ma_execs m = [(0, ''cursor'')]" "list_all as_ok (ma_items m)" "idx_distinct demo_team"
    using demo_team_runs by (simp_all add: run)
  have "mc_requires_code_gen demo_team_cfg" "as_idx ` set demo_team = {0, 1}"
    by (simp_all add: demo_team_cfg_def demo_team_def new_assignment_def)
  then show "\<exists>m. run_local demo_team_cfg demo_team_env (new_local_run demo_team [] [] demo_gw) = (m, Inr ()) \<and>
      set (ma_done m) = {0, 1} \<and> (\<forall>a \<in> set (ma_items m). as_idx a = 0 \<longrightarrow> as_files a \<noteq> [])"
    using local_run_settles_roles [OF run [unfolded m(1)] m(4)] m(2,3) run m(1) by (auto simp: list_all_iff)
next
  let ?C = "demo_team_cfg\<lparr>mc_plan := Some demo_gates\<rparr>"
  obtain m r where run: "run_local ?C demo_team_env (new_local_run (take 1 demo_team) [] [] demo_gw) = (m, r)" by fastforce
  have m: "r = Inr ()" "list_all as_ok (ma_items m)" "idx_distinct (take 1 demo_team)" and "\<not> Option.is_none (ma_plan m)"
    using demo_gated_runs [unfolded run prod.case] by blast+
  then obtain p where p: "ma_plan m = Some p" by (cases "ma_plan m") auto
  note result = local_run_settles_roles [OF run [unfolded m(1)] m(3)]
  have "ma_items m \<noteq> []" using result by (auto simp: demo_team_def)
  then have a: "hd (ma_items m) \<in> set (ma_items m)" "as_ok (hd (ma_items m))" using m(2) by (simp_all add: list_all_iff)
  then have "status_of p (assignment_step_id (as_idx (hd (ma_items m))) (as_role (hd (ma_items m)))) = Some VERIFIED"
    using result p by blast
  then show "\<exists>m p a. run_local ?C demo_team_env (new_local_run (take 1 demo_team) [] [] demo_gw) = (m, Inr ()) \<and>
      ma_plan m = Some p \<and> a \<in> set (ma_items m) \<and> status_of p (assignment_step_id (as_idx a) (as_role a)) = Some VERIFIED"
    using run m(1) p a(1) by blast
qed

text \<open>C20: who may write.  In any multi-agent run, also one that raises, the executor runner is started
  only if there is one, the project directory is given and hybrid code generation is on, and only for
  roles whose kind may execute: no lead, no configuration and no failure turns another role into one.\<close>

theorem executor_runs_allowed:
  assumes "(i, e) \<in> set (ma_execs (fst (run_local C N (new_local_run items d runs g))))"
  shows "mc_has_runner C \<and> has_cwd C \<and> mc_hybrid_code_gen C \<and>
     (\<exists>a \<in> set items. as_idx a = i \<and> executor_capable (role_key (as_role a)))"
  by (rule executors_allowed [OF assms])

lemma executor_runs_allowed_witness: "executor_capable (role_key ''developer'')"
proof -
  obtain m r where run: "run_local demo_team_cfg demo_team_env (new_local_run demo_team [] [] demo_gw) = (m, r)" by fastforce
  have "(0, ''cursor'') \<in> set (ma_execs (fst (run_local demo_team_cfg demo_team_env (new_local_run demo_team [] [] demo_gw))))"
    using demo_team_runs by (simp add: run)
  from executor_runs_allowed [OF this] show ?thesis
    by (auto simp: demo_team_def new_assignment_def)
qed

section \<open>Routing a task\<close>

text \<open>C21: from a task's text to a plan.  Whatever the analysis of a task says, the sub-tasks the
  decomposition produces depend on earlier sub-tasks only and name their roles; so whatever the lead
  and the capability matcher reply, an assignment of them that returns becomes a plan that validation
  accepts, and waves that respect the dependencies.\<close>

theorem task_decomposition_valid:
  assumes "assign E C show_exn K (decompose task a) r g = (Inr xs, r', g')" "decompose task a \<noteq> []"
    and "pid = [] \<or> strip pid \<noteq> []"
  shows "validate (assignments_to_plan goal (map fst xs) pid tid cwd cfg modes) = Inr () \<and>
    length xs = length (decompose task a) \<and>
    waves_ok (subtask_deps (decompose task a)) {} (build_waves (map fst xs))"
  using decomposed_plan_valid [OF assms] assign_all_faithfully [OF assms(1)]
  by (simp add: validate_accepts_iff all_faithful_def)

lemma task_decomposition_valid_witness:
  "\<exists>a xs r' g'. assign demo_gw_env demo_gw_cfg (\<lambda>_. []) demo_lead (decompose ''x'' a) empty_registry demo_gw = (Inr xs, r', g') \<and>
     validate (assignments_to_plan ''t'' (map fst xs) [] [] ''/r'' None Map.empty) = Inr ()"
proof -
  obtain a where a: "decompose ''x'' a \<noteq> []" using demo_decomposes by blast
  obtain xs r' g' where "assign demo_gw_env demo_gw_cfg (\<lambda>_. []) demo_lead (decompose ''x'' a) empty_registry demo_gw = (Inr xs, r', g')"
    using demo_lead_returns by blast
  then show ?thesis using task_decomposition_valid [OF _ a] by blast
qed

text \<open>C22: the provider of a task.  When some provider preferred for the type of task is healthy, the
  chosen one is preferred and healthy, and the choice is the first healthy provider of the list with
  the model that belongs to it.\<close>

theorem provider_choice_healthy:
  assumes "p \<in> set (task_providers task_type)" "healthy_at E h p"
  shows "fst (fst (pick_provider E h task_type)) \<in> set (task_providers task_type) \<and>
    healthy_at E h (fst (fst (pick_provider E h task_type))) \<and>
    (\<exists>q. find (healthy_at E h) (task_providers task_type) = Some q \<and>
       fst (pick_provider E h task_type) = provider_choice E task_type q)"
proof -
  obtain q where q: "find (healthy_at E h) (task_providers task_type) = Some q"
    using assms by (cases "find (healthy_at E h) (task_providers task_type)") (auto simp: find_None_iff)
  then show ?thesis
    using pick_provider_healthy [OF assms] pick_provider_result [of E h task_type] by simp
qed

lemma provider_choice_healthy_witness:
  "healthy_at demo_keys demo_health (fst (fst (pick_provider demo_keys demo_health ''code'')))"
  using provider_choice_healthy [OF conjunct1 [OF demo_pool] conjunct2 [OF demo_pool]] by blast

section \<open>Evaluation and evidence\<close>

text \<open>C23: what a verified run is.  A run is reported as verified exactly when every requirement of the
  selected policy that counts holds of it (the executor succeeded, no hard safety violation, a clean
  trajectory, changes in git, every baseline command still passing, and what the type of task adds)
  and the language-model judge, where it counts, passed.  A judge check that passes rests on a reply
  that grades every dimension of the rubric, says pass, reaches the threshold and is not below 2 in a
  critical dimension.  A judge in shadow mode never changes the state.\<close>

theorem verified_run_meets_policy:
  assumes "select_policy t i mode = Inr p" "evaluate_run N p I g = (Inr rp, g')"
    and "ee_judge N = Some (configured_judge J K C task tt)"
  shows "(et_state rp = ''verified_success'' \<longleftrightarrow>
      (\<forall>r \<in> set (ep_requirements p). ev_required r \<and> ev_evaluator r \<noteq> ''llm_judge'' \<longrightarrow> requirement_met N I r) \<and>
      judge_passed (et_checks rp)) \<and>
    (\<forall>c \<in> set (et_checks rp). ec_evaluator c = ''llm_judge'' \<and> \<not> bad_status (ec_status c) \<longrightarrow>
      (\<exists>content obs. graded_reply (ge_loads (ju_gateway J)) content (rubric_for tt) ''pass'' obs \<and>
         weighted_score (rubric_for tt) obs \<ge> jc_threshold K \<and> critical_ok (rubric_for tt) obs)) \<and>
    (\<forall>q. map_sum id et_state (fst (evaluate_run N (with_judge ''shadow'' q) I g)) = map_sum id et_state (fst (evaluate_run N q I g)))"
proof -
  have "\<exists>content obs. graded_reply (ge_loads (ju_gateway J)) content (rubric_for tt) ''pass'' obs \<and>
      weighted_score (rubric_for tt) obs \<ge> jc_threshold K \<and> critical_ok (rubric_for tt) obs"
    if "c \<in> set (et_checks rp)" "ec_evaluator c = ''llm_judge''" "\<not> bad_status (ec_status c)" for c
    by (rule evaluate_run_judged [OF assms(2,3) that])
  then show ?thesis
    using evaluate_run_verified [OF assms(2) selected_policy_ok [OF assms(1)]] shadow_judge_silent by blast
qed

lemma verified_run_meets_policy_witness:
  "\<exists>rp g'. evaluate_run demo_eval_env (demo_eval_policy ''auto'' ''required'') demo_eval_input demo_gw = (Inr rp, g') \<and>
     et_state rp = ''verified_success'' \<and> judge_passed (et_checks rp)"
proof -
  obtain rp g' where e: "evaluate_run demo_eval_env (demo_eval_policy ''auto'' ''required'') demo_eval_input demo_gw = (Inr rp, g')"
    and v: "et_state rp = ''verified_success''"
    using demo_eval_verified by (auto split: prod.splits sum.splits)
  show ?thesis
    using verified_run_meets_policy [OF demo_eval_policies(1) e demo_eval_judge] e v by blast
qed

text \<open>C24: the human gate of an evaluation.  A run under a policy that asks for human review is never
  verified by the evaluation alone.  Explicit feedback makes it verified exactly when it accepts and
  every other requirement holds.\<close>

theorem human_review_gates_verification:
  assumes "select_policy t i mode = Inr p" "evaluate_run N p I g = (Inr rp, g')"
    and "r \<in> set (ep_requirements p)" "ev_evaluator r = ''human_review''" "ev_required r"
  shows "et_state rp \<noteq> ''verified_success'' \<and>
    (et_state (fst (apply_human_feedback now kind rp)) = ''verified_success'' \<longleftrightarrow>
      kind = ''accepted'' \<and> judge_passed (et_checks rp) \<and>
      (\<forall>x \<in> set (ep_requirements p). ev_required x \<and> ev_evaluator x \<notin> {''human_review'', ''llm_judge''} \<longrightarrow> requirement_met N I x))"
  using review_not_verified [OF assms(2) selected_policy_ok(1) [OF assms(1)] assms(3-5)]
    run_feedback_verified [OF assms(2) selected_policy_ok(1) [OF assms(1)] assms(3-5)] by blast

lemma human_review_gates_verification_witness:
  "\<exists>rp g'. evaluate_run demo_eval_env (demo_eval_policy ''security-basic'' ''off'') demo_eval_input demo_gw = (Inr rp, g') \<and>
     et_state rp \<noteq> ''verified_success'' \<and>
     et_state (fst (apply_human_feedback ''t2'' ''reverted'' rp)) \<noteq> ''verified_success'' \<and>
     et_state (fst (apply_human_feedback ''t2'' ''accepted'' rp)) = ''verified_success''"
proof -
  obtain rp g' where e: "evaluate_run demo_eval_env (demo_eval_policy ''security-basic'' ''off'') demo_eval_input demo_gw = (Inr rp, g')"
    and v: "et_state (fst (apply_human_feedback ''t2'' ''accepted'' rp)) = ''verified_success''"
    using demo_eval_reviewed by (auto split: prod.splits sum.splits)
  show ?thesis
    using human_review_gates_verification [OF demo_eval_policies(2) e demo_human_requirement(1), of "''t2''" "''reverted''"]
      demo_human_requirement e v by auto
qed

text \<open>C25: the dictionary of an evaluation report reads back as the report, for reports with the texts the
  engine always sets.\<close>

theorem eval_report_roundtrip:
  assumes "py_builtins_ok B" "eval_report_storable rp"
  shows "eval_report_from_dict B (eval_report_to_dict rp) = Inr rp"
  by (rule report_dict_roundtrip [OF assms])

lemma eval_report_roundtrip_witness:
  "eval_report_from_dict py_typed (eval_report_to_dict demo_eval_report) = Inr demo_eval_report"
  by (rule eval_report_roundtrip [OF py_typed_ok demo_report_storable])





section \<open>Hooks and capability packs\<close>



text \<open>C29: a pack that was installed verifies.  Right after an installation the store finds the manifest's
  checksum, every staged component with its hash and no other file; installing touches no other pack, and an
  installation that fails leaves the store as it was, without its temporary directory.\<close>

theorem installed_pack_verifies:
  assumes "store_laws E" "py_builtins_ok (st_builtins E)" "get_doc (st_temp E) R = None"
    and "install_ecc E source R = (res, R')"
  shows "(\<forall>e. res = Inl e \<longrightarrow> R' = R) \<and>
    (\<forall>m. res = Inr m \<longrightarrow>
       (\<forall>n. n \<noteq> pm_pack_id m \<longrightarrow> get_doc n R' = get_doc n R) \<and>
       (pe_loads (st_pack E) (manifest_bytes E m) = Inr (sort_json (pack_manifest_to_dict m)) \<longrightarrow>
          verify_pack E R' (pm_pack_id m) = Inr \<lparr>pk_pack_id = pm_pack_id m, pk_valid = True, pk_errors = [],
            pk_checked = length (staged_names (pm_components m))\<rparr>))"
proof (intro conjI allI impI)
  show "R' = R" if "res = Inl e" for e using failed_install_keeps assms(3,4) that by blast
  show "get_doc n R' = get_doc n R" if "res = Inr m" "n \<noteq> pm_pack_id m" for m n
  proof (cases "n = st_temp E")
    case True
    then show ?thesis using assms that by (auto elim!: install_inv simp: dir.get_put dir.get_del)
  next
    case False
    then show ?thesis using install_frame assms(4) that by blast
  qed
  show "verify_pack E R' (pm_pack_id m) = Inr \<lparr>pk_pack_id = pm_pack_id m, pk_valid = True, pk_errors = [],
      pk_checked = length (staged_names (pm_components m))\<rparr>"
    if "res = Inr m" "pe_loads (st_pack E) (manifest_bytes E m) = Inr (sort_json (pack_manifest_to_dict m))" for m
    using install_then_verify assms(1,2,4) that by blast
qed

lemma installed_pack_verifies_witness:
  "\<exists>R' v. install_ecc demo_store ''/s'' [] = (Inr demo_manifest, R') \<and> verify_pack demo_store R' ''ecc'' = Inr v \<and> pk_valid v \<and> pk_checked v = 1"
proof -
  obtain R' where i: "install_ecc demo_store ''/s'' [] = (Inr demo_manifest, R')"
    using demo_installed by (cases "install_ecc demo_store ''/s'' []") auto
  have "get_doc (st_temp demo_store) ([] :: pack_root) = None" by (simp add: get_doc_def dict_get_def)
  then show ?thesis
    using installed_pack_verifies [OF demo_store_laws demo_store_builtins _ i] demo_manifest_loads i by (simp add: demo_manifest_def)
qed

text \<open>C30: what an installed pack holds.  Besides the manifest and its checksum, every file of it is the
  unchanged copy of a discovered component that admission did not quarantine, and, when the list of findings
  is not full, of one in whose text no serious pattern is reported.\<close>

theorem only_admitted_content_staged:
  assumes "store_laws E" "py_builtins_ok (st_builtins E)" "install_ecc E source R = (Inr m, R')"
  shows "\<exists>dir d r. get_doc (pm_pack_id m) R' = Some dir \<and> discover_ecc_pack E source = Inr d \<and>
    admit_external_pack (st_pack E) (pv_source (pd_provenance d)) (pd_components d) = Inr r \<and>
    (\<forall>name body. get_doc name dir = Some body \<longrightarrow> name \<in> {MANIFEST_NAME, MANIFEST_HASH_NAME} \<or> admitted_copy E d r name body)"
  using installed_is_admitted assms by blast

lemma only_admitted_content_staged_witness:
  "\<exists>R' dir. install_ecc demo_store ''/s'' [] = (Inr demo_manifest, R') \<and> get_doc ''ecc'' R' = Some dir"
proof -
  obtain R' where i: "install_ecc demo_store ''/s'' [] = (Inr demo_manifest, R')"
    using demo_installed by (cases "install_ecc demo_store ''/s'' []") auto
  then show ?thesis
    using only_admitted_content_staged [OF demo_store_laws demo_store_builtins i] by (auto simp: demo_manifest_def)
qed

section \<open>Learning\<close>

text \<open>C31: learned instincts.  In every store that the operations can reach from the empty one each
  instinct is well-formed: its confidence lies between 0 and 1, its action overrides no policy, no
  evidence counts twice, an approved one has positive evidence and a global one has it from two
  projects.  Evidence alone never approves: what is approved after learning was approved before.  New
  contradicting evidence ends approval.  What is selected for a task is approved, in reach of the
  project and rests on positive evidence.\<close>

theorem instincts_earn_approval:
  assumes "changes\<^sup>*\<^sup>* [] s"
  shows "store_ok s \<and>
    (\<forall>s' key. learns\<^sup>*\<^sup>* s s' \<longrightarrow> approved_in s' key \<longrightarrow> approved_in s key) \<and>
    (\<forall>now key e j s' i. find_instinct key s = Some j \<longrightarrow> \<not> knows j e \<longrightarrow> ie_kind e \<in> set CONTRADICTING \<longrightarrow>
       add_evidence True now key e s = (s', Inr i) \<longrightarrow> \<not> approved_in s' key) \<and>
    (\<forall>task project limit. \<forall>i \<in> set (shadow_select task project limit s).
       in_reach project i \<and> list_ex is_positive (in_evidence i) \<and> \<not> has_any PROTECTED_PATTERNS (lower (in_action i)))"
proof -
  have ok: "store_ok s" by (rule reachable_ok [OF assms])
  have "in_reach project i \<and> list_ex is_positive (in_evidence i) \<and> \<not> has_any PROTECTED_PATTERNS (lower (in_action i))"
    if "i \<in> set (shadow_select task project limit s)" for task project limit i
    using selected_in_reach [OF that] ok by (auto simp: store_ok_def list_all_iff instinct_ok_def in_reach_def)
  then show ?thesis using ok learning_approves_nothing contradiction_suspends [OF _ _ ok] by blast
qed

lemma instincts_earn_approval_witness:
  "shadow_select ''tests'' ''p'' 5 demo_instincts \<noteq> [] \<and> store_ok demo_instincts \<and>
     list_all (\<lambda>i. list_ex is_positive (in_evidence i)) (shadow_select ''tests'' ''p'' 5 demo_instincts)"
  using demo_instincts_selected instincts_earn_approval [OF demo_instincts_reachable] by (auto simp: list_all_iff)

section \<open>Capabilities\<close>

text \<open>C32: local matching.  Over a readable registry it answers with the profiles of the requested kind that
  no hard gate excludes, each once, best score first, with their scores, and is degraded exactly when
  there are none; reading stores seeds but changes no answer; and a request with a policy of its own is
  never sent to the hosted matcher.\<close>

theorem local_match_correct:
  assumes "reg_ok B r"
  shows "\<exists>r' res. local_match B r req = (r', Inr res) \<and> reg_ok B r' \<and> reg_view B r' = reg_view B r \<and>
    mset (map fst (ranking res)) =
      mset (map (reg_view B r) (filter (\<lambda>i. gate req (reg_view B r i) = None) (eligible B r req))) \<and>
    sorted_wrt (\<lambda>x y. snd x \<ge> snd y) (ranking res) \<and> (\<forall>(p, s) \<in> set (ranking res). s = request_score req p) \<and>
    (mt_degraded res \<longleftrightarrow> (\<forall>i \<in> set (eligible B r req). gate req (reg_view B r i) \<noteq> None)) \<and>
    (lower (strip (mr_policy req)) \<notin> {[], ''balanced''} \<and> mr_policy req \<noteq> [] \<longrightarrow> find_executors B W own r req = local_match B r req)"
proof -
  let ?res = "rank req (view_pairs B r (eligible B r req))"
  obtain r' where r': "local_match B r req = (r', Inr ?res)" "reg_ok B r'" "reg_view B r' = reg_view B r"
    using local_match_rank [OF assms, of req] by blast
  show ?thesis
    by (rule exI [of _ r'], rule exI [of _ ?res]) (use r' ranking_result [of ?res req B r] policy_stays_local in blast)
qed

lemma local_match_correct_witness:
  "\<exists>r' res. local_match py_typed toolless_registry (file_request\<lparr>mr_file_tools := False, mr_policy := ''budget_first''\<rparr>)
       = (r', Inr res) \<and> \<not> mt_degraded res"
proof -
  let ?q = "file_request\<lparr>mr_file_tools := False, mr_policy := ''budget_first''\<rparr>"
  have "gate ?q p = None" for p by (simp add: gate_def file_request_def hard_exclude_def)
  then show ?thesis
    using local_match_correct [OF toolless_registry_ok, of ?q] toolless_eligible by metis
qed

section \<open>Executors and reviews\<close>

text \<open>C33: the bill of a task.  A run of an executor pays for every attempt it made: there is a sequence
  of attempts, the first by the executor the agent resolves to and the last by the one reported, no
  executor twice, each abandoned one for billing or absence, such that the reported total is the
  rounded sum of what they cost and the evaluation; and the run succeeded exactly when the final
  attempt stands after the safety policy and the total is within the budget.\<close>

theorem agent_run_pays_attempts:
  assumes "agent_run E C q d = (Inr (res, wt), d')"
  shows "\<exists>attempts. attempts \<noteq> [] \<and> snd (hd attempts) = fst (resolve_executor (ru_names C) (rr_agent q)) \<and>
    ro_executor res = snd (last attempts) \<and> distinct (map snd attempts) \<and> sorted_wrt (<) (map fst attempts) \<and>
    (\<forall>(n, f) \<in> set (butlast attempts). needs_fallback (ag_run E n f)) \<and>
    ro_total_cost res = round_to 6 ((\<Sum>(n, f) \<leftarrow> attempts. er_cost_usd (ag_run E n f)) + ag_eval_cost E) \<and>
    (ro_success res \<longleftrightarrow> er_success (ro_result res) \<and> \<not> is_budget_exceeded (ro_total_cost res) (ru_cost_policy C))"
  using agent_run_bill [OF assms] agent_run_success [OF assms] unfolding task_bill_def by metis

lemma agent_run_pays_attempts_witness:
  "\<exists>res wt d' attempts. agent_run demo_agent demo_runner demo_run [] = (Inr (res, wt), d') \<and> er_success (ro_result res) \<and>
     snd (last attempts) = ''deepseek'' \<and> distinct (map snd attempts) \<and>
     ro_total_cost res = round_to 6 ((\<Sum>(n, f) \<leftarrow> attempts. er_cost_usd (ag_run demo_agent n f)) + ag_eval_cost demo_agent)"
proof -
  obtain res wt d' where r: "agent_run demo_agent demo_runner demo_run [] = (Inr (res, wt), d')"
    "ro_executor res = ''deepseek''" "er_success (ro_result res)"
    using demo_agent_runs by blast
  then show ?thesis using agent_run_pays_attempts [OF r(1)] by metis
qed

text \<open>C34: a dry run leaves the working tree as it was: when the safety policy is on, a snapshot was
  taken, and what git reports as touched is all that changed and can be put back, then after a dry
  run, whatever the executors did, every file is as before.\<close>

theorem dry_run_restores_tree:
  assumes "agent_run E C q d = (Inr (res, wt), d')" "ru_safety C = Some P" "sp_enabled P" "rr_cwd q \<noteq> []"
    and "ag_snapshot E \<noteq> []" "rr_dry_run q \<or> sp_dry_run P" "\<forall>n. recoverable E n"
  shows "wt = ob_tree (ag_before E)"
  using dry_run_leaves_tree [OF assms(1-6)] assms(7) by blast

lemma dry_run_restores_tree_witness:
  "\<exists>res wt d'. agent_run demo_agent demo_runner (demo_run\<lparr>rr_dry_run := True\<rparr>) [] = (Inr (res, wt), d') \<and>
     wt = ob_tree (ag_before demo_agent)"
proof -
  obtain res wt d' where r: "agent_run demo_agent demo_runner (demo_run\<lparr>rr_dry_run := True\<rparr>) [] = (Inr (res, wt), d')"
    using demo_dry_runs by blast
  have "wt = ob_tree (ag_before demo_agent)"
    by (rule dry_run_restores_tree [OF r _ _ _ _ _ allI [OF demo_agent_recoverable], of demo_policy])
      (simp_all add: demo_run_def demo_agent_def demo_runner_def demo_policy_def)
  then show ?thesis using r by blast
qed

text \<open>C35: the developer and reviewer loop.  A loop that returns made at most the allowed number of laps
  (between 1 and 20), numbered from one; it succeeded exactly when it stopped as clean, exactly when
  the last reviewer's verdict was clean without findings; every earlier lap ended with blocking
  findings; every lap costs what its developer and reviewer cost; and it stopped for the rounds only
  after all of them ended with findings to repair.\<close>

theorem review_loop_correct:
  assumes "rs_laps s = []" "review_until_clean E F s = (Inr res, s1)"
  shows "1 \<le> rf_max_rounds F \<and> rf_max_rounds F \<le> 20 \<and> length (rv_laps res) \<le> rf_max_rounds F \<and>
    map lp_number (rv_laps res) = [1..<Suc (length (rv_laps res))] \<and>
    (rv_success res \<longleftrightarrow> rv_stop res = StopClean) \<and>
    (rv_success res \<longleftrightarrow> rv_laps res \<noteq> [] \<and> lp_verdict (last (rv_laps res)) = Some CLEAN \<and> lp_findings (last (rv_laps res)) = []) \<and>
    (\<forall>l \<in> set (butlast (rv_laps res)). lp_verdict l = Some BLOCKING \<and> lp_findings l \<noteq> []) \<and>
    (\<forall>l \<in> set (rv_laps res). lp_cost l = lp_developer_cost l + lp_reviewer_cost l) \<and>
    (rv_stop res = MaxRounds \<longrightarrow> length (rv_laps res) = rf_max_rounds F \<and> (\<forall>l \<in> set (rv_laps res). lp_verdict l = Some BLOCKING))"
proof -
  note ok = review_until_clean_ok [OF assms]
  have sane: "\<forall>l \<in> set (rv_laps res). lap_sane l" using ok(1) by (simp add: loop_result_ok_def)
  then have "\<forall>l \<in> set (butlast (rv_laps res)). lap_sane l" by (auto dest: in_set_butlastD)
  then show ?thesis using ok sane
    by (auto simp: loop_result_ok_def laps_repaired_def lap_sane_def)
qed

lemma review_loop_correct_witness:
  "\<exists>res s1. review_until_clean demo_review demo_review_cfg demo_review_start = (Inr res, s1) \<and> rv_success res \<and>
     lp_verdict (last (rv_laps res)) = Some CLEAN"
proof -
  obtain res s1 where r: "review_until_clean demo_review demo_review_cfg demo_review_start = (Inr res, s1)" "rv_stop res = StopClean"
    using demo_review_runs by blast
  then show ?thesis using review_loop_correct [OF _ r(1)] by (auto simp: demo_review_start_def)
qed

section \<open>Errors of providers\<close>



section \<open>The gateway\<close>





text \<open>C39: a call that ends in an error costs nothing: the day's spending is as before, unless the
  day's counter was reset.\<close>

theorem failed_call_is_free:
  assumes "chat E C rq g = (Inr (JObj d), g')" "has_error d"
  shows "sl_spent_today (gw_spend g') \<in> {sl_spent_today (gw_spend g), 0}"
  using failed_call_free [OF assms] by (simp add: fresh_spend_def)

lemma failed_call_is_free_witness:
  "\<exists>d g'. chat demo_gw_env (demo_gw_cfg\<lparr>gc_enabled := False\<rparr>) (demo_request\<lparr>rq_model := ''down''\<rparr>) demo_gw = (Inr (JObj d), g') \<and>
     has_error d \<and> sl_spent_today (gw_spend g') \<in> {0}"
proof -
  obtain d g' where c: "chat demo_gw_env (demo_gw_cfg\<lparr>gc_enabled := False\<rparr>) (demo_request\<lparr>rq_model := ''down''\<rparr>) demo_gw
      = (Inr (JObj d), g')" and e: "has_error d"
    using demo_down by blast
  then show ?thesis using failed_call_is_free [OF c e] by (auto simp: demo_gw_def)
qed

text \<open>C40: the calls of one request are bounded: through the gateway at most the retry limit and one
  more, however long the fallback chain and whatever the providers answer; and while their
  exclusion lasts, excluded providers are not called at all.\<close>

theorem gateway_calls_bounded:
  "length (gw_calls (snd (gateway_call E C rq m p g))) \<le> length (gw_calls g) + nat (gc_fallback_retries C) + 1 \<and>
   (within_ttl E t0 \<longrightarrow> (\<forall>q. q \<noteq> [] \<and> excluded_since t0 g q \<longrightarrow>
      calls_to q (snd (gateway_call E C rq m p g)) = calls_to q g \<and>
      excluded_since t0 (snd (gateway_call E C rq m p g)) q))"
  using gateway_call_calls quarantine.gateway_call_respects [where E = E and C = C and rq = rq and m = m and p = p and g = g and ?t0.0 = t0]
  by blast

lemma gateway_calls_bounded_witness:
  "calls_to ''groq'' (snd (gateway_call demo_gw_env demo_gw_cfg demo_request ''m'' ''groq''
     (demo_gw\<lparr>gw_health := (gw_health demo_gw)\<lparr>hc_excluded := [''groq'' \<mapsto> 10]\<rparr>\<rparr>))) = 0"
  using gateway_calls_bounded [of demo_gw_env demo_gw_cfg demo_request "''m''" "''groq''"
      "demo_gw\<lparr>gw_health := (gw_health demo_gw)\<lparr>hc_excluded := [''groq'' \<mapsto> 10]\<rparr>\<rparr>" 10]
  by (auto simp: within_ttl_def excluded_since_def demo_gw_env_def runtime_exclude_ttl_def strip_def calls_to_def demo_gw_def)

section \<open>Further consequences\<close>

text \<open>The outcome of a multi-agent run.  It is a success exactly when it is completed; failed exactly
  when no role that took part ended well; completed exactly when some role took part, every one of
  them ended well, and, if code was asked for, no role was to implement or one did; and partial
  otherwise.\<close>

lemma multiagent_outcome_correct:
  "(fst (evaluate_multiagent_outcome as code_gen) \<longleftrightarrow> snd (evaluate_multiagent_outcome as code_gen) = ''completed'') \<and>
   (snd (evaluate_multiagent_outcome as code_gen) = ''failed'' \<longleftrightarrow> \<not> (\<exists>a \<in> set as. assignment_active a \<and> as_ok a)) \<and>
   (snd (evaluate_multiagent_outcome as code_gen) = ''completed'' \<longleftrightarrow>
      (\<exists>a \<in> set as. assignment_active a) \<and> (\<forall>a \<in> set as. assignment_active a \<longrightarrow> as_ok a) \<and>
      (code_gen \<longrightarrow> (\<forall>a \<in> set as. \<not> is_impl a) \<or> (\<exists>a \<in> set as. is_impl a \<and> impl_ok a))) \<and>
   snd (evaluate_multiagent_outcome as code_gen) \<in> {''failed'', ''partial'', ''completed''}"
  using outcome_result [of as code_gen] by blast

lemma multiagent_outcome_correct_example:
  "snd (evaluate_multiagent_outcome [(new_assignment 0 ''developer'' [] [] [] [] [])\<lparr>as_ok := True\<rparr>] True) = ''completed''"
  using multiagent_outcome_correct [of "[(new_assignment 0 ''developer'' [] [] [] [] [])\<lparr>as_ok := True\<rparr>]" True]
  by (simp add: new_assignment_def assignment_active_def is_impl_def impl_ok_def IMPLEMENT_ROLES_def)

text \<open>The chain of executors to fall back on.  Over a readable registry and without repetitions it is
  made without loss: no executor twice, every static one in it, nothing else than available or static
  ones; when the best score reaches the minimum it is the scored executors, best first and in the
  order of availability between equals, then the rest of the static chain, and otherwise the static
  chain.\<close>

lemma fallback_chain_correct:
  assumes "reg_ok B r" "distinct available" "distinct static_chain"
  shows "\<exists>chain. build_fallback_chain B r dimension available features file_tools static_chain = Inr chain \<and>
    distinct chain \<and> set (if static_chain = [] then available else static_chain) \<subseteq> set chain \<and>
    set chain \<subseteq> set available \<union> set static_chain \<and>
    (let scored = chain_scores B r dimension available features file_tools;
         static = (if static_chain = [] then available else static_chain)
     in sorted_wrt (\<lambda>x y. snd x > snd y \<or> snd x = snd y \<and> position available (fst x) \<le> position available (fst y)) scored \<and>
        chain = (if scored \<noteq> [] \<and> snd (hd scored) \<ge> MINIMUM_SCORE
                 then map fst scored @ filter (\<lambda>i. i \<notin> fst ` set scored) static else static))"
proof -
  obtain chain where c: "build_fallback_chain B r dimension available features file_tools static_chain = Inr chain"
    using chain_read [OF assms(1)] by blast
  note res = chain_result [OF assms c]
  show ?thesis unfolding Let_def
  proof (intro exI [of _ chain] conjI)
    show "set chain \<subseteq> set available \<union> set static_chain" using res(3) by (auto split: if_splits)
  qed (use c res chain_scores_sorted in \<open>simp_all add: not_less del: fst_conv\<close>)
qed

lemma fallback_chain_correct_example:
  "\<exists>chain. build_fallback_chain py_typed toolless_registry ''backend'' [''x'', ''y''] [] False [''z''] = Inr chain \<and>
     distinct chain \<and> ''z'' \<in> set chain"
  using fallback_chain_correct [OF toolless_registry_ok, of "[''x'', ''y'']" "[''z'']" "''backend''" "[]" False] by auto

text \<open>The model of a task.  The chosen model is a candidate (it has the required capability when
  some model has), no candidate scores higher, and of several with the highest score it is the one
  registered first.\<close>

lemma model_choice_best:
  assumes "route_model ms task category pc ps required = Some m"
  shows "m \<in> set (model_candidates ms required) \<and>
    (required \<noteq> [] \<and> (\<exists>m0 \<in> set (list_models ms). required \<in> set (mi_capabilities m0)) \<longrightarrow> required \<in> set (mi_capabilities m)) \<and>
    (\<exists>cat. (category = None \<longrightarrow> cat = infer_category task) \<and> (\<forall>c. category = Some c \<longrightarrow> cat = c) \<and>
       (\<forall>c \<in> set (model_candidates ms required). model_score cat pc ps required c \<le> model_score cat pc ps required m) \<and>
       find (\<lambda>c. model_score cat pc ps required c = model_score cat pc ps required m) (model_candidates ms required) = Some m)"
  using route_model_result [OF assms] candidates_capable [of _ ms required m]
  by (auto split: option.splits)

lemma model_choice_best_example:
  "\<exists>m. route_model (new_router None) ''x'' (Some BATCH) True False [] = Some m \<and> m \<in> set (model_candidates (new_router None) [])"
  using demo_model model_choice_best [of "new_router None" "''x''" "Some BATCH" True False "[]"] by auto

text \<open>The routing score is a weighted mean.  Whatever the profile, the dimension, the features and
  the policy, the score lies between 0 and 1; for a profile whose scores and history are proportions
  it is exactly the mean of its terms under the policy's weights, which add up to one; and between
  profiles of equal operation a better capability, history or tool support never scores lower.\<close>

lemma routing_score_correct:
  "0 \<le> routing_score p dimension features pol \<and> routing_score p dimension features pol \<le> 1 \<and>
   (profile_proper p \<longrightarrow> routing_score p dimension features pol =
     (\<Sum>(x, w) \<leftarrow> routing_terms p dimension features (policy_weights pol). x * w)) \<and>
   sum_list (map snd (routing_terms p dimension features (policy_weights pol))) = 1 \<and>
   (capability_match p dimension \<le> capability_match q dimension \<and> historical_success p \<le> historical_success q \<and>
    (ci_file_tools (cp_constraints p) \<longrightarrow> ci_file_tools (cp_constraints q)) \<and> cp_operational p = cp_operational q \<longrightarrow>
    routing_score p dimension features pol \<le> routing_score q dimension features pol)"
  using score_unit [of p dimension features pol] score_is_mean [of p dimension features pol]
    score_mono [of p dimension q features pol] routing_terms_sum [of p dimension features pol]
  by (simp add: unit_def)

lemma routing_score_correct_example:
  "routing_score (unknown_profile ''x'') ''backend'' [] ''balanced'' =
     (\<Sum>(x, w) \<leftarrow> routing_terms (unknown_profile ''x'') ''backend'' [] (policy_weights ''balanced''). x * w)"
  using routing_score_correct [of "unknown_profile ''x''" "''backend''" "[]" "''balanced''" "unknown_profile ''x''"]
  by (simp add: profile_proper_def unknown_profile_def)

text \<open>A prompt that the leak scan refuses goes nowhere: the answer is the refusal, no provider is
  called, nothing is charged and nothing is cached.\<close>

lemma dlp_refusal_is_final:
  assumes "gc_enabled C" "dlp_scan (ge_custom E) (gc_dlp C) (rq_text rq) \<noteq> []"
  shows "\<exists>g'. chat E C rq g = (Inr (dlp_refusal E (dlp_scan (ge_custom E) (gc_dlp C) (rq_text rq))), g') \<and>
    gw_calls g' = gw_calls g \<and> gw_spend g' = gw_spend g \<and> gw_cache g' = gw_cache g"
  using chat_refused [OF assms, of g] by (cases "chat E C rq g") auto

lemma dlp_refusal_is_final_example:
  "\<exists>r g'. chat demo_gw_env demo_gw_cfg (demo_request\<lparr>rq_text := ''key sk-abcdefghijkl''\<rparr>) demo_gw = (Inr r, g') \<and>
     gw_calls g' = []"
proof -
  have "re_test (SECRET_PATTERNS ! 2) ''key sk-abcdefghijkl''"
    using secret_key_found [OF _ demo_alnum, of "''key ''" "[]"] by simp
  then have "dlp_scan (ge_custom demo_gw_env) (gc_dlp demo_gw_cfg) ''key sk-abcdefghijkl'' \<noteq> []"
    unfolding dlp_scan_empty by (auto simp: demo_gw_cfg_def SECRET_PATTERNS_def)
  then show ?thesis
    using dlp_refusal_is_final [of demo_gw_cfg demo_gw_env "demo_request\<lparr>rq_text := ''key sk-abcdefghijkl''\<rparr>" demo_gw]
    by (auto simp: demo_gw_cfg_def demo_gw_def)
qed

text \<open>A human decision is stored.  When a decision on a step of a stored plan succeeds, reading
  the plan back gives the plan of the result, the step has a human review and is verified
  (approve) or failed (reject), and no other step has changed.\<close>

lemma decision_is_stored:
  assumes "py_builtins_ok B" "load_plan B crit d pid = Inr (Some p)" "plan_id p = pid" "plan_storable crit p"
    and "decide B crit disk now d pid sid decision comment = (d', Inr r)"
  shows "load_plan B crit d' pid = Inr (Some (ap_plan r)) \<and>
    status_of (ap_plan r) sid = Some (desired_status decision) \<and>
    (\<exists>s. get_step (ap_plan r) sid = Inr s \<and> list_ex (\<lambda>c. check_type c = CHECK_HUMAN_REVIEW) (acceptance s)) \<and>
    (\<forall>other. other \<noteq> sid \<longrightarrow> get_step (ap_plan r) other = get_step p other)"
  using decide_stored [OF assms] by auto

lemma decision_is_stored_example:
  "\<exists>d' r. decide py_typed draft_criteria DiskOk 3 waiting_dir ''p'' ''b'' ''approve'' [] = (d', Inr r) \<and>
     load_plan py_typed draft_criteria d' ''p'' = Inr (Some (ap_plan r)) \<and>
     status_of (ap_plan r) ''b'' = Some VERIFIED"
proof -
  obtain d' r where r: "decide py_typed draft_criteria DiskOk 3 waiting_dir ''p'' ''b'' ''approve'' [] = (d', Inr r)"
    using waiting_approves by blast
  show ?thesis
    using r decision_is_stored [OF py_typed_ok waiting_loads _ waiting_storable r] by (simp add: desired_status_def)
qed

text \<open>The command check passes exactly when there is a command and a working directory, the
  command (scoped to the touched tests when asked) parses into an argument list, and that list,
  run without a shell in the directory under the configured timeout, exits with the expected code.\<close>

lemma command_check_correct:
  "vr_ok (check_command E c ctx) \<longleftrightarrow> strip (run_cmd c) \<noteq> [] \<and> vc_cwd ctx \<noteq> [] \<and>
     (\<exists>argv out err. argv \<noteq> [] \<and>
        shlex_split (if vc_scope_pytest ctx then scope_pytest_command (strip (run_cmd c)) (vc_files_touched ctx)
                     else strip (run_cmd c)) = Some argv \<and>
        ve_run E argv (vc_cwd ctx) (if vc_command_timeout ctx > 0 then vc_command_timeout ctx
                                     else DEFAULT_COMMAND_TIMEOUT) = Exited (expect_exit c) out err)"
  by (rule command_ok)

text \<open>Exclusion of a provider.  After a failure is recorded against a named provider, every
  check within the time-to-live finds it unhealthy for that reason, the first check after it
  follows the configured keys again, and no other provider's answer changes.\<close>

lemma provider_exclusion_window:
  assumes "strip p \<noteq> []"
  shows "(runtime_exclude_ttl E' \<le> 0 \<or> he_now E' - he_now E \<le> runtime_exclude_ttl E' \<longrightarrow>
      \<not> healthy_at E' (mark_unhealthy E h p reason) (strip p)) \<and>
    (runtime_exclude_ttl E' > 0 \<and> he_now E' - he_now E > runtime_exclude_ttl E' \<longrightarrow>
      fst (check E' (mark_unhealthy E h p reason) (strip p)) = configured_status E' h (strip p)) \<and>
    (\<forall>q. q \<noteq> strip p \<longrightarrow> fst (check E' (mark_unhealthy E h p reason) q) = fst (check E' h q))"
  using marked_excluded(1) [OF assms] marked_expires [OF assms] mark_others by blast

lemma provider_exclusion_window_example:
  "\<not> healthy_at \<lparr>he_getenv = (\<lambda>_. []), he_now = 100, he_float = (\<lambda>_. None)\<rparr>
      (mark_unhealthy \<lparr>he_getenv = (\<lambda>_. []), he_now = 50, he_float = (\<lambda>_. None)\<rparr>
        \<lparr>hc_cache = Map.empty, hc_excluded = Map.empty, hc_byok_enabled = None, hc_byok_providers = []\<rparr> ''groq'' ''quota'') ''groq''"
  using provider_exclusion_window [of "''groq''" "\<lparr>he_getenv = (\<lambda>_. []), he_now = 100, he_float = (\<lambda>_. None)\<rparr>"
      "\<lparr>he_getenv = (\<lambda>_. []), he_now = 50, he_float = (\<lambda>_. None)\<rparr>"
      "\<lparr>hc_cache = Map.empty, hc_excluded = Map.empty, hc_byok_enabled = None, hc_byok_providers = []\<rparr>" "''quota''"]
  by (simp add: strip_def is_space_def runtime_exclude_ttl_def)

text \<open>The model of a role.  When any provider is usable (not excluded, known, healthy), the choice for a
  tier is usable, and of the tier if the tier has a usable one; among several the role's offset picks,
  the same for equal health; the providers to fall back on are exactly the tier's usable ones, turned
  to start at the role's own.\<close>

lemma role_model_usable:
  "(usable E h p \<longrightarrow> usable E h (snd (fst (resolve_tier_model E h tier))) \<and>
      (p \<in> set (TIER_PROVIDERS tier) \<longrightarrow> snd (fst (resolve_tier_model E h tier)) \<in> set (TIER_PROVIDERS tier))) \<and>
   (let ps = filter (usable E h) (TIER_PROVIDERS tier); n = ROLE_PROVIDER_OFFSET (role_key role)
    in fst (chat_fallback_providers E h tier role) = rotate n ps \<and>
       (tier \<noteq> [] \<and> ps \<noteq> [] \<longrightarrow> fst (resolve_role_model E h role (Some tier)) = model_pair (ps ! (n mod length ps))))"
  using resolve_tier_usable [of E h p tier] fallback_rotation [of E h tier role]
    role_model_result [of E h "Some tier" role "filter (usable E h) (TIER_PROVIDERS tier)"]
  by (simp add: Let_def tier_of_def)

lemma role_model_usable_example:
  "usable demo_keys demo_health (snd (fst (resolve_tier_model demo_keys demo_health ''cheap'')))"
  using role_model_usable [of demo_keys demo_health "''deepseek''" "''cheap''"] demo_usable by blast

text \<open>The path jail: a path that a check resolves is the working directory or inside it.\<close>

lemma safe_join_stays_inside:
  assumes "safe_join E cwd rel = Inr target"
  shows "path_under (ve_resolve E cwd) target"
  using assms by (rule safe_join_jail)

lemma safe_join_stays_inside_example: "path_under (ve_resolve demo_world ''/r'') ''/r/a.py''"
  by (rule safe_join_stays_inside [of _ _ "''a.py''"])
    (simp add: safe_join_def demo_world_def path_under_def)

text \<open>The architect's approval.  The approved line limit of a step is an upper bound of every
  approval marker with a reason among the architect steps it depends on, directly or through
  others, and is itself one of them, or zero.\<close>

lemma approved_limit_is_maximum:
  "(\<forall>d n. reaches p (depends_on s) d \<and> approval_at p d = Some n \<longrightarrow> n \<le> architect_approved_line_limit p s) \<and>
   (architect_approved_line_limit p s = 0 \<or>
     (\<exists>d. reaches p (depends_on s) d \<and> approval_at p d = Some (architect_approved_line_limit p s)))"
  using approved_limit_upper approved_limit_witnessed by blast

lemma approved_limit_is_maximum_example:
  "architect_approved_line_limit demo_plan step_a = 0"
  using approved_limit_is_maximum [of demo_plan step_a]
proof -
  have "\<not> reaches demo_plan [] d" for d
  proof
    assume "reaches demo_plan [] d"
    then show False by induction auto
  qed
  then show ?thesis using approved_limit_is_maximum [of demo_plan step_a] by auto
qed

text \<open>The listing holds exactly the plans that load, most recent first.\<close>

lemma list_plans_complete:
  assumes "list_plans B crit d = Inr ps"
  shows "(p \<in> set ps \<longleftrightarrow> (\<exists>pid. load_plan B crit d pid = Inr (Some p))) \<and>
    sorted_wrt (\<lambda>p q. recency p \<ge> recency q) ps"
  using list_plans_result [OF assms] by blast

lemma list_plans_complete_example: "\<exists>ps. list_plans py_typed draft_criteria demo_dir = Inr ps \<and> stamp 1 demo_plan \<in> set ps"
proof -
  have "doc_names demo_dir = [''p'']" by (simp add: doc_names_def demo_dir_def sorted_set_def)
  then have "list_plans py_typed draft_criteria demo_dir = Inr [stamp 1 demo_plan]"
    by (simp add: list_plans_def demo_loads)
  then show ?thesis using list_plans_complete demo_loads by blast
qed

text \<open>Scoping a test command: a pytest command without a target, given touched test files, runs
  as the same arguments followed by the first 24 touched tests, when no name needs quoting.\<close>

lemma scoped_pytest_arguments:
  assumes "shlex_split command = Some parts" "\<forall>w \<in> set parts. plain_word w"
    and "is_pytest_command command" "list_all (\<lambda>a. starts_with a ''-'') (tl parts)"
    and "\<forall>f \<in> set (touched_tests files). plain_word f"
  shows "shlex_split (scope_pytest_command command files) = Some (parts @ take 24 (touched_tests files))"
  by (rule scope_pytest_argv [OF assms])

lemma scoped_pytest_arguments_example:
  "shlex_split (scope_pytest_command ''pytest -q'' [''tests/test_a.py'', ''a.py'']) = Some [''pytest'', ''-q'', ''tests/test_a.py'']"
proof -
  have t: "touched_tests [''tests/test_a.py'', ''a.py''] = [''tests/test_a.py'']" by code_simp
  have s: "shlex_split ''pytest -q'' = Some [''pytest'', ''-q'']" by code_simp
  have p: "is_pytest_command ''pytest -q''" by code_simp
  show ?thesis using scoped_pytest_arguments [OF s _ p, of "[''tests/test_a.py'', ''a.py'']"]
    by (simp add: t plain_word_def shlex_space_def shlex_quote_def)
qed

text \<open>Recovery after a crash: exactly the steps that were left running for longer than the
  threshold become failed (and so may be started again); every other step keeps its status.\<close>

lemma stale_steps_recovered:
  assumes "rc_stale_seconds C > 0" "ids_distinct (rs_plan s)"
  shows "\<exists>s'. recover_stale C N s = (s', Inr ()) \<and>
    (\<forall>i t. get_step (rs_plan s) i = Inr t \<longrightarrow> status_of (rs_plan s') i =
       Some (if is_stale (rc_stale_seconds C) (re_now N (rs_tick s)) t then FAILED else step_status t))"
  by (rule recover_stale_result [OF assms])

lemma stale_steps_recovered_example:
  "\<exists>s'. recover_stale (demo_cfg\<lparr>rc_stale_seconds := 60\<rparr>) (demo_env\<lparr>re_now := (\<lambda>_. 1000)\<rparr>)
       (demo_state\<lparr>rs_plan := demo_plan\<lparr>steps := [step_a\<lparr>step_status := RUNNING, started_at := 5\<rparr>, step_b]\<rparr>\<rparr>) = (s', Inr ()) \<and>
     status_of (rs_plan s') ''a'' = Some FAILED"
proof -
  let ?s = "demo_state\<lparr>rs_plan := demo_plan\<lparr>steps := [step_a\<lparr>step_status := RUNNING, started_at := 5\<rparr>, step_b]\<rparr>\<rparr>"
  have "get_step (rs_plan ?s) ''a'' = Inr (step_a\<lparr>step_status := RUNNING, started_at := 5\<rparr>)" by (simp add: get_step_def)
  then show ?thesis
    using stale_steps_recovered [of "demo_cfg\<lparr>rc_stale_seconds := 60\<rparr>" ?s "demo_env\<lparr>re_now := (\<lambda>_. 1000)\<rparr>"]
    by (force simp: step_ids_def is_stale_def)
qed

text \<open>A repeated request is free: once an answer is in the cache, admission serves it, marked as a
  hit, without a call or a charge until it expires.\<close>

lemma repeated_request_is_free:
  assumes "cache_set ok t key text (gw_cache g0) = Inr (gw_cache g)" "cc_enabled (gw_cache g)" "text \<noteq> []"
    and "ge_now E (gw_tick g) < t + cc_ttl (gw_cache g0)" "ge_loads E text = Inr v"
  shows "fst (admit E C rq m key g) = Refused (Inr (mark_hit v)) \<and>
    gw_calls (snd (admit E C rq m key g)) = gw_calls g \<and> gw_spend (snd (admit E C rq m key g)) = gw_spend g"
  using repeat_served [OF assms] by blast

lemma repeated_request_is_free_example:
  "\<exists>c. cache_set True 0 ''k'' ''{}'' (gw_cache demo_gw) = Inr c \<and>
     fst (admit demo_gw_env demo_gw_cfg demo_request ''m'' ''k'' (demo_gw\<lparr>gw_cache := c\<rparr>))
       = Refused (Inr (JObj [(''cache_hit'', JBool True)]))"
proof -
  obtain c where c: "cache_set True 0 ''k'' ''{}'' (gw_cache demo_gw) = Inr c"
    using cache_set_ok [of "gw_cache demo_gw" True 0 "''k''" "''{}''"] by (auto simp: demo_gw_def)
  have "cc_enabled c" using c by (auto simp: cache_set_def demo_gw_def)
  then show ?thesis
    using c repeated_request_is_free [of True 0 "''k''" "''{}''" demo_gw "demo_gw\<lparr>gw_cache := c\<rparr>" demo_gw_env "JObj []"]
    by (simp add: demo_gw_env_def demo_gw_def mark_hit_def)
qed

text \<open>Scheduling assignments in waves.  For assignments with distinct indices the waves are
  non-empty and hold every assignment exactly once; when their known dependencies are acyclic,
  every assignment comes in a later wave than all it depends on.\<close>

lemma waves_partition_and_order:
  assumes "idx_distinct as"
  shows "set (concat (build_waves as)) = set as \<and> idx_distinct (concat (build_waves as)) \<and> [] \<notin> set (build_waves as) \<and>
    (acyclic (dep_edges (map as_idx as) (known_deps as)) \<longrightarrow> waves_ok (known_deps as) {} (build_waves as))"
  using build_waves_covers [OF assms] build_waves_ok [OF assms] by simp

lemma waves_partition_and_order_example:
  "set (concat (build_waves [new_assignment 1 ''dev'' [] [0] [] [] [], new_assignment 0 ''arch'' [] [] [] [] []]))
     = {new_assignment 1 ''dev'' [] [0] [] [] [], new_assignment 0 ''arch'' [] [] [] [] []}"
  using waves_partition_and_order [of "[new_assignment 1 ''dev'' [] [0] [] [] [], new_assignment 0 ''arch'' [] [] [] [] []]"]
  by (simp add: idx_distinct_def new_assignment_def)

text \<open>The plan made of assignments is valid: assignments with distinct indices, named roles and
  acyclic dependencies give a plan that validation accepts, whatever the configuration.\<close>

lemma bridge_plan_valid:
  assumes "idx_distinct items" "roles_named items" "items \<noteq> []"
    and "acyclic (dep_edges (map as_idx items) (known_deps items))" "pid = [] \<or> strip pid \<noteq> []"
  shows "validate (assignments_to_plan task items pid tid cwd cfg modes) = Inr ()"
  using bridge_well_formed [OF assms] by (simp add: validate_accepts_iff)

lemma bridge_plan_valid_example:
  "validate (assignments_to_plan ''t'' [new_assignment 0 ''dev'' [] [] [] [] []] [] [] ''/r'' None Map.empty) = Inr ()"
  by (rule bridge_plan_valid)
    (simp_all add: idx_distinct_def roles_named_def new_assignment_def known_deps_def dep_edges_def acyclic_def)

text \<open>What counts as changed between two git snapshots: exactly the paths whose status differs;
  with content fingerprints, a path that was untracked or added before and after counts exactly
  when its fingerprint differs.\<close>

lemma changed_paths_correct:
  "(p \<in> set (changed_paths before after) \<longleftrightarrow> dict_get before p \<noteq> dict_get after p) \<and>
   (\<forall>st. dict_get before p = Some st \<and> dict_get after p = Some st \<and> st \<noteq> [] \<and> untracked_or_added st \<longrightarrow>
      (p \<in> set (changed_paths_fp before after (Some (fb, fa))) \<longleftrightarrow> dict_get fb p \<noteq> dict_get fa p))"
  using changed_paths_iff changed_paths_fp_untracked by blast

lemma changed_paths_correct_example:
  "''n.py'' \<in> set (changed_paths_fp [(''n.py'', ''??'')] [(''n.py'', ''??'')] (Some ([(''n.py'', ''h1'')], [(''n.py'', ''h2'')])))"
  using changed_paths_correct [of "''n.py''" "[(''n.py'', ''??'')]" "[(''n.py'', ''??'')]" "[(''n.py'', ''h1'')]" "[(''n.py'', ''h2'')]"]
  by (simp add: dict_get_def untracked_or_added_def)

text \<open>The order in which the workers of a wave finish does not matter: recording their replies
  in the order the scheduler happens to choose gives the same plan as in the order of the wave.\<close>

lemma wave_order_irrelevant:
  assumes "distinct sids"
  shows "run_workers reply (schedule_of N n sids) p = run_workers reply sids p"
  by (rule schedule_irrelevant [OF assms])

lemma wave_order_irrelevant_example:
  "run_workers (\<lambda>_. Reply True ''ok'' [] [] None) (schedule_of demo_env 0 [''a'', ''b'']) demo_plan =
   run_workers (\<lambda>_. Reply True ''ok'' [] [] None) [''a'', ''b''] demo_plan"
  by (rule wave_order_irrelevant) simp

text \<open>Drafted checks.  Whatever the text of the success criteria, the drafted checks are of the
  types the verifier knows, survive storage, are distinct, and account for every criterion: each
  line's checks are in the draft, or the line has none and is noted as unmapped.\<close>

lemma criteria_draft_correct:
  "distinct (criteria_to_acceptance text) \<and>
   (\<forall>c \<in> set (criteria_to_acceptance text). check_type c \<in> set KNOWN_CHECK_TYPES \<and> check_storable c) \<and>
   (\<forall>line \<in> set (split_criteria text).
      (\<exists>c \<in> set (fst (compile_line line)). \<exists>c' \<in> set (criteria_to_acceptance text). check_to_dict c' = check_to_dict c) \<or>
      UnmappedCriterion (take 120 line) \<in> set (draft_notes (compile_success_criteria text)))"
proof (intro conjI ballI)
  fix c assume c: "c \<in> set (criteria_to_acceptance text)"
  have "set DRAFT_TYPES \<subseteq> set KNOWN_CHECK_TYPES" by (simp add: DRAFT_TYPES_def KNOWN_CHECK_TYPES_def)
  then show "check_type c \<in> set KNOWN_CHECK_TYPES" "check_storable c" using draft_check_ok [OF c] by auto
next
  fix line assume line: "line \<in> set (split_criteria text)"
  show "(\<exists>c \<in> set (fst (compile_line line)). \<exists>c' \<in> set (criteria_to_acceptance text). check_to_dict c' = check_to_dict c) \<or>
      UnmappedCriterion (take 120 line) \<in> set (draft_notes (compile_success_criteria text))"
    by (rule draft_covers [OF line])
qed (rule draft_distinct)

lemma criteria_draft_correct_example:
  "(\<exists>c \<in> set (fst (compile_line ''a.py ok'')). \<exists>c' \<in> set (criteria_to_acceptance ''a.py ok''). check_to_dict c' = check_to_dict c) \<or>
   UnmappedCriterion ''a.py ok'' \<in> set (draft_notes (compile_success_criteria ''a.py ok''))"
proof -
  have "split_criteria ''a.py ok'' = [''a.py ok'']" by code_simp
  then show ?thesis using criteria_draft_correct [of "''a.py ok''"] by simp
qed

end
